(* ===== verification/Rev_Prelude.thy ===== *)
theory Rev_Prelude
  imports Main "HOL-Library.Word"
begin

text \<open>
  Shared vocabulary of the development: the fixed-width integer types of the C++ sources,
  the result type that carries \<^verbatim>\<open>output->fatal\<close> and undefined behaviour as values, the
  collections of rewrite rules, and generic lemmas on words, bits, bytes and lists.
\<close>

unbundle bit_operations_syntax

section \<open>Types\<close>

type_synonym u8 = "8 word"
type_synonym u16 = "16 word"
type_synonym u32 = "32 word"
type_synonym u64 = "64 word"

text \<open>
  \<open>Fatal\<close> is a call of \<^verbatim>\<open>output->fatal\<close>, which ends the simulation; the string names the
  call. \<open>Undefined\<close> is an operation C++ leaves undefined (an access outside an array, an
  invalid iterator, an exception nobody catches), so that no theorem about a normal result
  can rest on it. \<open>Exited\<close> is a call of \<^verbatim>\<open>exit\<close> with its status.
\<close>

datatype rev_error = Fatal string | Undefined string | Exited u64

type_synonym 'a result = "rev_error + 'a"

definition res_bind :: "'a result \<Rightarrow> ('a \<Rightarrow> 'b result) \<Rightarrow> 'b result" where
  "res_bind r f = (case r of Inl e \<Rightarrow> Inl e | Inr x \<Rightarrow> f x)"

definition is_ok :: "'a result \<Rightarrow> bool" where
  "is_ok r = (case r of Inl _ \<Rightarrow> False | Inr _ \<Rightarrow> True)"

section \<open>Collections of rewrite rules\<close>

named_theorems word_enum \<open>equality of words as a conjunction over their bit positions\<close>
named_theorems rev_defs \<open>definitions of the model unfolded by evaluation proofs\<close>
named_theorems frame_simps \<open>fields an operation leaves unchanged\<close>

section \<open>The result type\<close>

lemma res_bind_simps [simp]:
  "res_bind (Inl e) f = Inl e"
  "res_bind (Inr x) f = f x"
  by (simp_all add: res_bind_def)

lemma res_bind_eq_Inr:
  "res_bind r f = Inr y \<longleftrightarrow> (\<exists>x. r = Inr x \<and> f x = Inr y)"
  by (cases r) auto

lemma res_bind_eq_Inl:
  "res_bind r f = Inl e \<longleftrightarrow> r = Inl e \<or> (\<exists>x. r = Inr x \<and> f x = Inl e)"
  by (cases r) auto

lemma is_ok_simps [simp]:
  "is_ok (Inl e) = False"
  "is_ok (Inr x) = True"
  by (simp_all add: is_ok_def)

lemma is_ok_ex: "is_ok r \<longleftrightarrow> (\<exists>x. r = Inr x)"
  by (cases r) auto

section \<open>Words as bit vectors\<close>

text \<open>
  Two words are equal when they agree at every position; with the positions listed, the
  simplifier decides an equation between shifts, masks and disjunctions bit by bit.
\<close>

lemma list_all_upt: "list_all P [0..<n] \<longleftrightarrow> (\<forall>i<n. P i)"
  by (auto simp: list_all_iff)

lemma upt_8: "[0..<8] = [0,1,2,3,4,5,6,7]"
  by (simp add: upt_rec)

lemma upt_16: "[0..<16] = [0,1,2,3,4,5,6,7,8,9,10,11,12,13,14,15]"
  by (simp add: upt_rec)

lemma upt_32: "[0..<32] = [0,1,2,3,4,5,6,7,8,9,10,11,12,13,14,15,
    16,17,18,19,20,21,22,23,24,25,26,27,28,29,30,31]"
  by (simp add: upt_rec)

lemma upt_64: "[0..<64] = [0,1,2,3,4,5,6,7,8,9,10,11,12,13,14,15,
    16,17,18,19,20,21,22,23,24,25,26,27,28,29,30,31,
    32,33,34,35,36,37,38,39,40,41,42,43,44,45,46,47,
    48,49,50,51,52,53,54,55,56,57,58,59,60,61,62,63]"
  by (simp add: upt_rec)

lemma word_eq_bits: "(x::'a::len word) = y \<longleftrightarrow> list_all (\<lambda>n. bit x n = bit y n) [0..<LENGTH('a)]"
  by (auto simp: list_all_upt intro: bit_word_eqI)

lemma word8_eq [word_enum]:
  "(x::u8) = y \<longleftrightarrow> list_all (\<lambda>n. bit x n = bit y n) [0,1,2,3,4,5,6,7]"
  using word_eq_bits [of x y] by (simp add: upt_8)

lemma word16_eq [word_enum]:
  "(x::u16) = y \<longleftrightarrow> list_all (\<lambda>n. bit x n = bit y n)
     [0,1,2,3,4,5,6,7,8,9,10,11,12,13,14,15]"
  using word_eq_bits [of x y] by (simp add: upt_16)

lemma word32_eq [word_enum]:
  "(x::u32) = y \<longleftrightarrow> list_all (\<lambda>n. bit x n = bit y n)
     [0,1,2,3,4,5,6,7,8,9,10,11,12,13,14,15,
      16,17,18,19,20,21,22,23,24,25,26,27,28,29,30,31]"
  using word_eq_bits [of x y] by (simp add: upt_32)

lemma word64_eq [word_enum]:
  "(x::u64) = y \<longleftrightarrow> list_all (\<lambda>n. bit x n = bit y n)
     [0,1,2,3,4,5,6,7,8,9,10,11,12,13,14,15,
      16,17,18,19,20,21,22,23,24,25,26,27,28,29,30,31,
      32,33,34,35,36,37,38,39,40,41,42,43,44,45,46,47,
      48,49,50,51,52,53,54,55,56,57,58,59,60,61,62,63]"
  using word_eq_bits [of x y] by (simp add: upt_64)

lemma bit_high [word_enum]:
  "8 \<le> n \<Longrightarrow> \<not> bit (a :: u8) n"
  "16 \<le> n \<Longrightarrow> \<not> bit (b :: u16) n"
  "32 \<le> n \<Longrightarrow> \<not> bit (c :: u32) n"
  "64 \<le> n \<Longrightarrow> \<not> bit (d :: u64) n"
  using bit_imp_le_length [of a n] bit_imp_le_length [of b n] bit_imp_le_length [of c n]
    bit_imp_le_length [of d n] by auto

lemma ucast_32_64_32 [simp]: "(ucast (ucast (x::u32) :: u64) :: u32) = x"
  by (rule bit_word_eqI) (auto simp: bit_simps)

lemma scast_32_64_ucast_32 [simp]: "(ucast (scast (x::u32) :: u64) :: u32) = x"
  by (simp add: word_enum bit_simps)

lemma word_and_less: "m < n \<Longrightarrow> (x AND m :: 'a::len word) < n"
  using word_and_le1 [of x m] by simp

text \<open>Bounded quantifiers over a few indices, written out.\<close>

lemma all_less_3: "(\<forall>y<3. P y) \<longleftrightarrow> P 0 \<and> P 1 \<and> P 2" for P :: "nat \<Rightarrow> bool"
  by (simp add: numeral_eq_Suc All_less_Suc2)

lemma all_less_8: "(\<forall>y<8. P y) \<longleftrightarrow> P 0 \<and> P 1 \<and> P 2 \<and> P 3 \<and> P 4 \<and> P 5 \<and> P 6 \<and> P 7" for P :: "nat \<Rightarrow> bool"
  by (simp add: numeral_eq_Suc All_less_Suc2)

lemma all_less_4: "(\<forall>i<4::nat. P i) \<longleftrightarrow> P 0 \<and> P 1 \<and> P 2 \<and> P 3"
  by (auto simp: less_Suc_eq numeral_eq_Suc)

end
