(* ===== verification/Rev_Common.thy ===== *)
theory Rev_Common
  imports Rev_Prelude
begin

text \<open>
  \<^verbatim>\<open>common/include/RevCommon.h\<close>: the bit-extension templates, the integer logarithm, the
  register classes, memory operations and thread states, and the memory request with the
  hash under which the load/store queue files it.
\<close>

section \<open>Zero and sign extension\<close>

text \<open>
  The templates are instantiated at unsigned types; \<^verbatim>\<open>SignExt\<close> converts its result to the
  signed type of the same width, which keeps the bits, so the result is read with \<open>sint\<close>.
\<close>

definition ZeroExt :: "'a::len word \<Rightarrow> nat \<Rightarrow> 'a word" where
  "ZeroExt val bits = val AND NOT (push_bit bits (NOT 0))"

definition SignExt :: "'a::len word \<Rightarrow> nat \<Rightarrow> 'a word" where
  "SignExt val bits =
     (let signbit = push_bit (bits - 1) 1 in (ZeroExt val bits XOR signbit) - signbit)"

section \<open>Base-2 logarithm\<close>

text \<open>\<^verbatim>\<open>__builtin_clz\<close> and \<^verbatim>\<open>__builtin_clzl\<close>: the zero bits above the highest set bit.\<close>

primrec clz_from :: "nat \<Rightarrow> 'a::len word \<Rightarrow> nat" where
  "clz_from 0 w = 0"
| "clz_from (Suc n) w = (if bit w n then 0 else Suc (clz_from n w))"

definition builtin_clz :: "u32 \<Rightarrow> nat" where
  "builtin_clz x = clz_from 32 x"

definition builtin_clzl :: "u64 \<Rightarrow> nat" where
  "builtin_clzl x = clz_from 64 x"

text \<open>The first branch of \<^verbatim>\<open>lg\<close> (types no wider than \<open>int\<close>) and the second (up to \<open>long\<close>).\<close>

definition lg32 :: "u32 \<Rightarrow> int" where
  "lg32 x = (if x \<noteq> 0 then 8 * 4 - 1 - int (builtin_clz x) else -1)"

definition lg64 :: "u64 \<Rightarrow> int" where
  "lg64 x = (if x \<noteq> 0 then 8 * 8 - 1 - int (builtin_clzl x) else -1)"

section \<open>Enumerations\<close>

datatype RevRegClass = RegUNKNOWN | RegIMM | RegGPR | RegCSR | RegFLOAT

primrec RevRegClass_val :: "RevRegClass \<Rightarrow> u64" where
  "RevRegClass_val RegUNKNOWN = 0"
| "RevRegClass_val RegIMM = 1"
| "RevRegClass_val RegGPR = 2"
| "RevRegClass_val RegCSR = 3"
| "RevRegClass_val RegFLOAT = 4"

datatype MemOp = MemOpREAD | MemOpWRITE | MemOpFLUSH | MemOpREADLOCK | MemOpWRITEUNLOCK
  | MemOpLOADLINK | MemOpSTORECOND | MemOpCUSTOM | MemOpFENCE | MemOpAMO

datatype ThreadState = START | RUNNING | BLOCKED | READY | DONE

section \<open>Memory requests\<close>

definition INVALID_ADDR :: u64 where
  "INVALID_ADDR = NOT 0"

definition INVALID_TID :: u32 where
  "INVALID_TID = 0"

definition REV_INVALID_HART_ID :: u32 where
  "REV_INVALID_HART_ID = NOT 0"

definition LSQHash :: "u64 \<Rightarrow> RevRegClass \<Rightarrow> u32 \<Rightarrow> u64" where
  "LSQHash DestReg RegType Hart =
     (push_bit (16 + 8) (RevRegClass_val RegType) OR push_bit 16 DestReg) OR ucast Hart"

text \<open>
  The completion callback of a request is always \<^verbatim>\<open>RevProc::MarkLoadComplete\<close> of the core
  that made it, so the request does not carry it.
\<close>

record MemReq =
  mr_Addr :: u64
  mr_DestReg :: u16
  mr_RegType :: RevRegClass
  mr_Hart :: u32
  mr_ReqType :: MemOp
  mr_isOutstanding :: bool

definition MemReq_default :: MemReq where
  "MemReq_default = \<lparr>mr_Addr = INVALID_ADDR, mr_DestReg = 0, mr_RegType = RegUNKNOWN,
     mr_Hart = REV_INVALID_HART_ID, mr_ReqType = MemOpCUSTOM, mr_isOutstanding = False\<rparr>"

definition mk_MemReq :: "u64 \<Rightarrow> u64 \<Rightarrow> RevRegClass \<Rightarrow> u32 \<Rightarrow> MemOp \<Rightarrow> bool \<Rightarrow> MemReq" where
  "mk_MemReq Addr DestReg RegType Hart ReqType outstanding =
     \<lparr>mr_Addr = Addr, mr_DestReg = ucast DestReg, mr_RegType = RegType, mr_Hart = Hart,
      mr_ReqType = ReqType, mr_isOutstanding = outstanding\<rparr>"

definition req_LSQHash :: "MemReq \<Rightarrow> u64" where
  "req_LSQHash r = LSQHash (ucast (mr_DestReg r)) (mr_RegType r) (mr_Hart r)"

definition LSQHashPair :: "MemReq \<Rightarrow> u64 \<times> MemReq" where
  "LSQHashPair r = (req_LSQHash r, r)"

section \<open>Lemmas\<close>

lemma ZeroExt_take_bit: "ZeroExt val bits = take_bit bits val"
  unfolding ZeroExt_def by (rule bit_word_eqI) (auto simp: bit_simps)

lemma SignExt_signed_take_bit:
  assumes "0 < bits" "bits \<le> LENGTH('a)"
  shows "SignExt (val :: 'a::len word) bits = signed_take_bit (bits - 1) val"
proof -
  obtain n where n: "bits = Suc n" using assms by (cases bits) auto
  have lt: "n < LENGTH('a)" using assms n by simp
  show ?thesis
  proof (cases "bit val n")
    case True
    have "take_bit (Suc n) val XOR push_bit n 1 = take_bit n val"
      using True lt by (intro bit_word_eqI) (auto simp: bit_simps less_Suc_eq)
    moreover have "signed_take_bit n val = take_bit n val - push_bit n 1"
      using True by (simp add: signed_take_bit_eq_if_negative push_bit_eq_mult take_bit_eq_mask
          minus_exp_eq_not_mask flip: take_bit_eq_mask)
        (metis add.commute diff_conv_add_uminus disjunctive_add minus_exp_eq_not_mask
          and.left_neutral bit_and_iff bit_mask_iff bit_not_iff bit_take_bit_iff or.commute)
    ultimately show ?thesis by (simp add: SignExt_def ZeroExt_take_bit n)
  next
    case False
    have "take_bit (Suc n) val XOR push_bit n 1 = take_bit n val OR push_bit n 1"
      using False lt by (intro bit_word_eqI) (auto simp: bit_simps less_Suc_eq)
    also have "\<dots> = take_bit n val + push_bit n 1"
      by (subst disjunctive_add) (auto simp: bit_simps)
    finally show ?thesis
      using False by (simp add: SignExt_def ZeroExt_take_bit n signed_take_bit_eq_if_positive)
  qed
qed

lemma clz_from_le: "clz_from n w \<le> n"
  by (induction n) auto

lemma clz_from_msb:
  "\<exists>i<n. bit w i \<Longrightarrow>
     clz_from n w < n \<and> bit w (n - 1 - clz_from n w) \<and> (\<forall>j. n - 1 - clz_from n w < j \<and> j < n \<longrightarrow> \<not> bit w j)"
proof (induction n)
  case 0
  then show ?case by simp
next
  case (Suc n)
  show ?case
  proof (cases "bit w n")
    case True
    then show ?thesis by auto
  next
    case False
    with Suc.prems have "\<exists>i<n. bit w i" by (auto simp: less_Suc_eq)
    from Suc.IH [OF this] False show ?thesis by (auto simp: less_Suc_eq)
  qed
qed

lemma nonzero_bit: "(w::'a::len word) \<noteq> 0 \<Longrightarrow> \<exists>i<LENGTH('a). bit w i"
  using bit_word_eqI [of w 0] by auto

lemma unat_top_bit:
  fixes w :: "'a::len word"
  assumes "bit w k" and "\<forall>j. k < j \<and> j < LENGTH('a) \<longrightarrow> \<not> bit w j"
  shows "2 ^ k \<le> unat w" and "unat w < 2 ^ Suc k"
proof -
  have k: "k < LENGTH('a)" using assms(1) by (rule bit_imp_le_length)
  show "unat w < 2 ^ Suc k"
  proof -
    have "take_bit (Suc k) w = w"
      using assms(2) by (intro bit_word_eqI) (auto simp: bit_simps not_less_eq)
    then have "take_bit (Suc k) (unat w) = unat w" by (metis unsigned_take_bit_eq)
    then show ?thesis by (metis take_bit_nat_less_exp)
  qed
  show "2 ^ k \<le> unat w"
  proof (rule ccontr)
    assume "\<not> 2 ^ k \<le> unat w"
    then have "take_bit k (unat w) = unat w" by (simp add: take_bit_nat_eq_self)
    then have "\<not> bit (unat w) k" by (metis bit_take_bit_iff less_irrefl)
    with assms(1) show False by (simp add: bit_unsigned_iff)
  qed
qed

lemma lg32_bounds:
  assumes "x \<noteq> 0"
  shows "2 ^ nat (lg32 x) \<le> unat x" and "unat x < 2 ^ Suc (nat (lg32 x))"
proof -
  let ?k = "31 - clz_from 32 x"
  from nonzero_bit [OF assms] have ex: "\<exists>i<32. bit x i" by simp
  have lt: "clz_from 32 x < 32" and b: "bit x ?k" and z: "\<forall>j. ?k < j \<and> j < 32 \<longrightarrow> \<not> bit x j"
    using clz_from_msb [OF ex] by auto
  have "nat (lg32 x) = ?k"
    using assms lt by (simp add: lg32_def builtin_clz_def)
  then show "2 ^ nat (lg32 x) \<le> unat x" and "unat x < 2 ^ Suc (nat (lg32 x))"
    using unat_top_bit [OF b] z by simp_all
qed

lemma lg64_bounds:
  assumes "x \<noteq> 0"
  shows "2 ^ nat (lg64 x) \<le> unat x" and "unat x < 2 ^ Suc (nat (lg64 x))"
proof -
  let ?k = "63 - clz_from 64 x"
  from nonzero_bit [OF assms] have ex: "\<exists>i<64. bit x i" by simp
  have lt: "clz_from 64 x < 64" and b: "bit x ?k" and z: "\<forall>j. ?k < j \<and> j < 64 \<longrightarrow> \<not> bit x j"
    using clz_from_msb [OF ex] by auto
  have "nat (lg64 x) = ?k"
    using assms lt by (simp add: lg64_def builtin_clzl_def)
  then show "2 ^ nat (lg64 x) \<le> unat x" and "unat x < 2 ^ Suc (nat (lg64 x))"
    using unat_top_bit [OF b] z by simp_all
qed

lemma bit_less_exp:
  fixes w :: "'a::len word"
  assumes "unat w < 2 ^ k" "bit w n"
  shows "n < k"
proof (rule ccontr)
  assume "\<not> n < k"
  from assms(1) have "take_bit k (unat w) = unat w" by (simp add: take_bit_nat_eq_self)
  with \<open>\<not> n < k\<close> have "\<not> bit (unat w) n" by (metis bit_take_bit_iff)
  with assms(2) show False by (simp add: bit_unsigned_iff bit_imp_le_length)
qed

lemma signed_take_bit_word_sint:
  fixes w :: "'a::len word"
  assumes "n < LENGTH('a)"
  shows "sint (signed_take_bit n w) = signed_take_bit n (uint w)"
proof (rule bit_eqI)
  fix k
  show "bit (sint (signed_take_bit n w)) k = bit (signed_take_bit n (uint w)) k"
    using assms by (auto simp: bit_simps bit_sint_iff min_def)
qed

lemma RevRegClass_val_inj: "RevRegClass_val a = RevRegClass_val b \<longleftrightarrow> a = b"
  by (cases a; cases b) auto

lemma RevRegClass_val_less: "unat (RevRegClass_val c) < 2 ^ 3"
  by (cases c) simp_all

lemma RevRegClass_val_bit: "bit (RevRegClass_val c) n \<Longrightarrow> n < 3"
  by (rule bit_less_exp [OF RevRegClass_val_less])

text \<open>The three fields of a hash, read back.\<close>

lemma LSQHash_fields:
  assumes d: "unat d < 2 ^ 8" and h: "unat h < 2 ^ 16"
  shows "take_bit 16 (LSQHash d c h) = ucast h"
    and "take_bit 8 (drop_bit 16 (LSQHash d c h)) = d"
    and "drop_bit 24 (LSQHash d c h) = RevRegClass_val c"
proof -
  note low = bit_less_exp [OF d] bit_less_exp [OF h] RevRegClass_val_bit [of c]
  show "take_bit 16 (LSQHash d c h) = ucast h"
    by (rule bit_word_eqI) (auto simp: LSQHash_def bit_simps dest: low)
  show "take_bit 8 (drop_bit 16 (LSQHash d c h)) = d"
    by (rule bit_word_eqI) (auto simp: LSQHash_def bit_simps dest: low)
  show "drop_bit 24 (LSQHash d c h) = RevRegClass_val c"
    by (rule bit_word_eqI) (auto simp: LSQHash_def bit_simps dest: low)
qed

section \<open>Properties\<close>

text \<open>
  \<^verbatim>\<open>SignExt\<close> reads the low \<open>bits\<close> bits of a value as a two's complement number: the
  result, read as signed, is the low part when its top bit is clear and the low part minus
  \<open>2 ^ bits\<close> when it is set, for every width up to the width of the type.
\<close>

theorem SignExt_twos_complement:
  assumes "0 < bits" "bits \<le> LENGTH('a)"
  shows "sint (SignExt (val :: 'a::len word) bits) =
    (if bit val (bits - 1) then uint val mod 2 ^ bits - 2 ^ bits else uint val mod 2 ^ bits)"
proof -
  obtain n where n: "bits = Suc n" using assms by (cases bits) auto
  have lt: "n < LENGTH('a)" using assms n by simp
  have "sint (SignExt val bits) = signed_take_bit n (uint val)"
    using SignExt_signed_take_bit [OF assms, of val] n lt
    by (simp add: signed_take_bit_word_sint)
  also have "\<dots> = take_bit (Suc n) (uint val) - 2 ^ Suc n * of_bool (bit (uint val) n)"
    by (simp add: signed_take_bit_eq_take_bit_minus)
  finally show ?thesis by (simp add: n take_bit_eq_mod bit_unsigned_iff)
qed

theorem SignExt_twos_complement_witness:
  "sint (SignExt (0xFFF :: u64) 12) = -1"
  using SignExt_twos_complement [of 12 "0xFFF :: u64"] by simp

text \<open>
  the load/store queue hash identifies a request: for register numbers below 256 and
  hart numbers below 65536, two hashes agree exactly when the register class, the register
  and the hart agree, so \<^verbatim>\<open>LSQueue->count\<close> never mistakes one register for another.
\<close>

theorem LSQHash_injective:
  assumes "d1 < 256" "d2 < 256" "h1 < 65536" "h2 < 65536"
  shows "LSQHash d1 c1 h1 = LSQHash d2 c2 h2 \<longleftrightarrow> d1 = d2 \<and> c1 = c2 \<and> h1 = h2"
proof
  assume eq: "LSQHash d1 c1 h1 = LSQHash d2 c2 h2"
  have d: "unat d1 < 2 ^ 8" "unat d2 < 2 ^ 8" and h: "unat h1 < 2 ^ 16" "unat h2 < 2 ^ 16"
    using assms by (simp_all add: word_less_nat_alt)
  have "ucast h1 = (ucast h2 :: u64)" and "d1 = d2" and "RevRegClass_val c1 = RevRegClass_val c2"
    using LSQHash_fields [OF d(1) h(1), of c1] LSQHash_fields [OF d(2) h(2), of c2] eq by metis+
  moreover from this(1) have "h1 = h2" by (metis ucast_32_64_32)
  ultimately show "d1 = d2 \<and> c1 = c2 \<and> h1 = h2" by (simp add: RevRegClass_val_inj)
qed simp

theorem LSQHash_injective_witness:
  "LSQHash 10 RegGPR 1 \<noteq> LSQHash 10 RegFLOAT 1"
  using LSQHash_injective [of 10 10 1 1 RegGPR RegFLOAT] by simp

text \<open>
  \<^verbatim>\<open>lg\<close> is the integer base-2 logarithm: for a nonzero argument it is the \<open>k\<close> with
  \<open>2 ^ k \<le> x < 2 ^ (k + 1)\<close>, at both operand widths, and it is -1 for zero.
\<close>

theorem lg_correct:
  "(x \<noteq> 0 \<longrightarrow> 2 ^ nat (lg32 x) \<le> unat x \<and> unat x < 2 ^ Suc (nat (lg32 x))) \<and>
   (y \<noteq> 0 \<longrightarrow> 2 ^ nat (lg64 y) \<le> unat y \<and> unat y < 2 ^ Suc (nat (lg64 y))) \<and>
   lg32 0 = -1 \<and> lg64 0 = -1"
  using lg32_bounds [of x] lg64_bounds [of y] by (auto simp: lg32_def lg64_def)

theorem lg_correct_witness:
  "2 ^ nat (lg32 262144) \<le> (262144::nat) \<and> (262144::nat) < 2 ^ Suc (nat (lg32 262144))"
  using lg_correct [of 262144 1] by simp

end
