(* ===== verification/Rev_Feature.thy ===== *)
theory Rev_Feature
  imports Rev_Common
begin

text \<open>
  \<^verbatim>\<open>include/RevFeature.h\<close> and \<^verbatim>\<open>src/RevFeature.cc\<close>: the feature set of a core and the parser
  of its machine model string (\<^verbatim>\<open>"RV64GC"\<close>).
\<close>

section \<open>Extension flags\<close>

definition RV_UNKNOWN :: u32 where "RV_UNKNOWN = 0"
definition RV_E :: u32 where "RV_E = push_bit 0 1"
definition RV_I :: u32 where "RV_I = push_bit 1 1"
definition RV_M :: u32 where "RV_M = push_bit 2 1"
definition RV_A :: u32 where "RV_A = push_bit 3 1"
definition RV_F :: u32 where "RV_F = push_bit 4 1"
definition RV_D :: u32 where "RV_D = push_bit 5 1"
definition RV_Q :: u32 where "RV_Q = push_bit 6 1"
definition RV_L :: u32 where "RV_L = push_bit 7 1"
definition RV_C :: u32 where "RV_C = push_bit 8 1"
definition RV_B :: u32 where "RV_B = push_bit 9 1"
definition RV_J :: u32 where "RV_J = push_bit 10 1"
definition RV_T :: u32 where "RV_T = push_bit 11 1"
definition RV_P :: u32 where "RV_P = push_bit 12 1"
definition RV_V :: u32 where "RV_V = push_bit 13 1"
definition RV_N :: u32 where "RV_N = push_bit 14 1"
definition RV_ZICSR :: u32 where "RV_ZICSR = push_bit 15 1"
definition RV_ZIFENCEI :: u32 where "RV_ZIFENCEI = push_bit 16 1"
definition RV_ZAM :: u32 where "RV_ZAM = push_bit 17 1"
definition RV_ZTSO :: u32 where "RV_ZTSO = push_bit 18 1"
definition RV_ZFA :: u32 where "RV_ZFA = push_bit 19 1"
definition RV_ZICBOM :: u32 where "RV_ZICBOM = push_bit 20 1"

lemmas RV_flag_defs = RV_UNKNOWN_def RV_E_def RV_I_def RV_M_def RV_A_def RV_F_def RV_D_def
  RV_Q_def RV_L_def RV_C_def RV_B_def RV_J_def RV_T_def RV_P_def RV_V_def RV_N_def
  RV_ZICSR_def RV_ZIFENCEI_def RV_ZAM_def RV_ZTSO_def RV_ZFA_def RV_ZICBOM_def

section \<open>The feature object\<close>

record RevFeature =
  f_machine :: string
  f_MinCost :: u32
  f_MaxCost :: u32
  f_ProcID :: u32
  f_HartToExecID :: u32
  f_features :: u32
  f_xlen :: u32

definition IsModeEnabled :: "RevFeature \<Rightarrow> u32 \<Rightarrow> bool" where
  "IsModeEnabled F Type = ((f_features F AND Type) = Type)"

definition SetMachineEntry :: "u32 \<Rightarrow> RevFeature \<Rightarrow> RevFeature" where
  "SetMachineEntry Type F = F\<lparr>f_features := f_features F OR Type\<rparr>"

definition IsRV32 :: "RevFeature \<Rightarrow> bool" where
  "IsRV32 F = (f_xlen F = 32)"

definition IsRV64 :: "RevFeature \<Rightarrow> bool" where
  "IsRV64 F = (f_xlen F = 64)"

definition HasF :: "RevFeature \<Rightarrow> bool" where
  "HasF F = IsModeEnabled F RV_F"

definition HasD :: "RevFeature \<Rightarrow> bool" where
  "HasD F = IsModeEnabled F RV_D"

definition HasCompressed :: "RevFeature \<Rightarrow> bool" where
  "HasCompressed F = IsModeEnabled F RV_C"

text \<open>The getter narrows the hart number to 16 bits.\<close>

definition GetHartToExecID :: "RevFeature \<Rightarrow> u32" where
  "GetHartToExecID F = ucast (ucast (f_HartToExecID F) :: u16)"

definition SetHartToExecID :: "u32 \<Rightarrow> RevFeature \<Rightarrow> RevFeature" where
  "SetHartToExecID hart F = F\<lparr>f_HartToExecID := hart\<rparr>"

section \<open>Parsing the machine model\<close>

text \<open>
  C strings are lists of characters without the terminating NUL; \<^verbatim>\<open>strncasecmp(mac, p, n)\<close>
  is called with \<open>n\<close> the length of \<open>p\<close> only, and is zero when the first \<open>n\<close> characters
  agree up to ASCII case.
\<close>

definition tolower :: "char \<Rightarrow> char" where
  "tolower c = (if 65 \<le> (of_char c :: nat) \<and> (of_char c :: nat) \<le> 90
                then char_of ((of_char c :: nat) + 32) else c)"

definition strncasecmp_eq :: "string \<Rightarrow> string \<Rightarrow> bool" where
  "strncasecmp_eq mac p = (map tolower (take (length p) mac) = map tolower p)"

definition feature_table :: "(string \<times> u32) list" where
  "feature_table =
    [(''E'', RV_E),
     (''I'', RV_I),
     (''M'', RV_M),
     (''A'', RV_A),
     (''F'', RV_F OR RV_ZICSR),
     (''D'', RV_D OR RV_F OR RV_ZICSR),
     (''G'', RV_I OR RV_M OR RV_A OR RV_F OR RV_D OR RV_ZICSR OR RV_ZIFENCEI),
     (''Q'', RV_Q OR RV_D OR RV_F OR RV_ZICSR),
     (''L'', RV_L),
     (''C'', RV_C),
     (''B'', RV_B),
     (''J'', RV_J),
     (''T'', RV_T),
     (''P'', RV_P),
     (''V'', RV_V OR RV_D OR RV_F OR RV_ZICSR),
     (''N'', RV_N),
     (''Zicsr'', RV_ZICSR),
     (''Zifencei'', RV_ZIFENCEI),
     (''Zam'', RV_ZAM OR RV_A),
     (''Ztso'', RV_ZTSO),
     (''Zfa'', RV_ZFA OR RV_F OR RV_ZICSR),
     (''Zicbom'', RV_ZICBOM)]"

text \<open>The loop over the table: \<open>mac\<close> is the rest of the string.\<close>

fun parse_exts :: "(string \<times> u32) list \<Rightarrow> string \<Rightarrow> RevFeature \<Rightarrow> bool \<times> RevFeature" where
  "parse_exts [] mac F = (False, F)"
| "parse_exts (tab # tabs) mac F =
     (if strncasecmp_eq mac (fst tab)
      then let F' = SetMachineEntry (snd tab) F;
               mac' = dropWhile (\<lambda>c. c = CHR ''_'') (drop (length (fst tab)) mac)
           in if mac' = [] then (True, F') else parse_exts tabs mac' F'
      else parse_exts tabs mac F)"

definition ParseMachineModel :: "RevFeature \<Rightarrow> bool \<times> RevFeature" where
  "ParseMachineModel F =
     (let mac = f_machine F in
      if strncasecmp_eq mac ''RV32'' then
        (if drop 4 mac \<noteq> [] then parse_exts feature_table (drop 4 mac) (F\<lparr>f_xlen := 32\<rparr>)
         else (False, F\<lparr>f_xlen := 32\<rparr>))
      else if strncasecmp_eq mac ''RV64'' then
        (if drop 4 mac \<noteq> [] then parse_exts feature_table (drop 4 mac) (F\<lparr>f_xlen := 64\<rparr>)
         else (False, F\<lparr>f_xlen := 64\<rparr>))
      else (False, F))"

text \<open>The constructor; a string that does not parse is fatal.\<close>

definition mk_RevFeature :: "string \<Rightarrow> u32 \<Rightarrow> u32 \<Rightarrow> u32 \<Rightarrow> RevFeature result" where
  "mk_RevFeature Machine MinC MaxC ProcId =
     (let (ok, F) = ParseMachineModel
            \<lparr>f_machine = Machine, f_MinCost = MinC, f_MaxCost = MaxC, f_ProcID = ProcId,
             f_HartToExecID = 0, f_features = RV_UNKNOWN, f_xlen = 0\<rparr>
      in if ok then Inr F else Inl (Fatal ''failed to parse the machine model''))"

section \<open>Lemmas\<close>

text \<open>The implications between extensions that the table encodes.\<close>

definition features_closed :: "u32 \<Rightarrow> bool" where
  "features_closed f \<longleftrightarrow>
     (bit f 5 \<longrightarrow> bit f 4) \<and> (bit f 4 \<longrightarrow> bit f 15) \<and> (bit f 6 \<longrightarrow> bit f 5) \<and>
     (bit f 13 \<longrightarrow> bit f 5) \<and> (bit f 17 \<longrightarrow> bit f 3) \<and> (bit f 19 \<longrightarrow> bit f 4)"

lemma features_closed_or: "features_closed a \<Longrightarrow> features_closed b \<Longrightarrow> features_closed (a OR b)"
  by (auto simp: features_closed_def bit_or_iff)

lemma feature_table_closed: "list_all (\<lambda>t. features_closed (snd t)) feature_table"
  by (simp add: feature_table_def RV_flag_defs features_closed_def bit_simps)

lemma IsModeEnabled_bit: "IsModeEnabled F (push_bit n 1) \<longleftrightarrow> (n < 32 \<longrightarrow> bit (f_features F) n)"
proof -
  have "f_features F AND push_bit n 1 = push_bit n 1 \<longleftrightarrow> (n < 32 \<longrightarrow> bit (f_features F) n)"
    (is "?l \<longleftrightarrow> ?r")
  proof
    assume ?l
    then have "bit (f_features F AND push_bit n 1) n = bit (push_bit n 1 :: u32) n" by simp
    then show ?r by (auto simp: bit_simps)
  next
    assume ?r
    then show ?l by (intro bit_word_eqI) (auto simp: bit_simps)
  qed
  then show ?thesis by (simp add: IsModeEnabled_def)
qed

lemma SetMachineEntry_simps [simp]:
  "f_features (SetMachineEntry t F) = f_features F OR t"
  "f_xlen (SetMachineEntry t F) = f_xlen F"
  "f_MinCost (SetMachineEntry t F) = f_MinCost F"
  "f_MaxCost (SetMachineEntry t F) = f_MaxCost F"
  by (simp_all add: SetMachineEntry_def)

text \<open>Whatever holds of the features at the start and survives an entry holds at the end.\<close>

lemma parse_exts_invariant:
  assumes step: "\<And>t F. t \<in> set tabs \<Longrightarrow> I F \<Longrightarrow> I (SetMachineEntry (snd t) F)" and "I F"
  shows "I (snd (parse_exts tabs mac F))"
  using assms
proof (induction tabs arbitrary: mac F)
  case Nil
  then show ?case by simp
next
  case (Cons tab tabs)
  have "I (SetMachineEntry (snd tab) F)" using Cons.prems by simp
  moreover have "\<And>t F. t \<in> set tabs \<Longrightarrow> I F \<Longrightarrow> I (SetMachineEntry (snd t) F)"
    using Cons.prems by simp
  ultimately show ?case using Cons.IH Cons.prems(2) by (simp add: Let_def)
qed

lemma parse_exts_closed:
  assumes "parse_exts tabs mac F = (b, F')" "list_all (\<lambda>t. features_closed (snd t)) tabs"
    and "features_closed (f_features F)"
  shows "features_closed (f_features F')"
  using parse_exts_invariant [of tabs "\<lambda>F. features_closed (f_features F)" F mac] assms
  by (simp add: features_closed_or list_all_iff)

lemma parse_exts_frame:
  assumes "parse_exts tabs mac F = (b, F')"
  shows "f_xlen F' = f_xlen F \<and> f_MinCost F' = f_MinCost F \<and> f_MaxCost F' = f_MaxCost F"
  using parse_exts_invariant [of tabs
      "\<lambda>G. f_xlen G = f_xlen F \<and> f_MinCost G = f_MinCost F \<and> f_MaxCost G = f_MaxCost F" F mac] assms
  by simp

lemma mk_RevFeature_cases:
  assumes "mk_RevFeature Machine MinC MaxC ProcId = Inr F"
  obtains F0 where "parse_exts feature_table (drop 4 Machine) F0 = (True, F)"
    "f_xlen F0 = 32 \<or> f_xlen F0 = 64" "f_features F0 = RV_UNKNOWN"
    "f_MinCost F0 = MinC" "f_MaxCost F0 = MaxC"
proof -
  let ?F = "\<lparr>f_machine = Machine, f_MinCost = MinC, f_MaxCost = MaxC, f_ProcID = ProcId,
             f_HartToExecID = 0, f_features = RV_UNKNOWN, f_xlen = 0\<rparr>"
  from assms have "ParseMachineModel ?F = (True, F)"
    by (auto simp: mk_RevFeature_def split: if_splits prod.splits)
  then consider "parse_exts feature_table (drop 4 Machine) (?F\<lparr>f_xlen := 32\<rparr>) = (True, F)"
    | "parse_exts feature_table (drop 4 Machine) (?F\<lparr>f_xlen := 64\<rparr>) = (True, F)"
    by (auto simp: ParseMachineModel_def Let_def split: if_splits)
  then show thesis
  proof cases
    case 1
    then show thesis by (rule that) simp_all
  next
    case 2
    then show thesis by (rule that) simp_all
  qed
qed

section \<open>Properties\<close>

text \<open>
  C35: a machine string that the parser accepts gives a well-formed feature set: the register
  width is 32 or 64, and the extensions that imply others have them enabled (D and Zfa need F,
  F needs Zicsr, Q and V need D, Zam needs A). A rejected string is fatal, never a
  half-initialised core.
\<close>

theorem mk_RevFeature_well_formed:
  assumes "mk_RevFeature Machine MinC MaxC ProcId = Inr F"
  shows "(IsRV32 F \<noteq> IsRV64 F) \<and>
    (IsModeEnabled F RV_D \<longrightarrow> IsModeEnabled F RV_F) \<and>
    (IsModeEnabled F RV_F \<longrightarrow> IsModeEnabled F RV_ZICSR) \<and>
    (IsModeEnabled F RV_Q \<longrightarrow> IsModeEnabled F RV_D) \<and>
    (IsModeEnabled F RV_V \<longrightarrow> IsModeEnabled F RV_D) \<and>
    (IsModeEnabled F RV_ZAM \<longrightarrow> IsModeEnabled F RV_A) \<and>
    (IsModeEnabled F RV_ZFA \<longrightarrow> IsModeEnabled F RV_F)"
proof -
  obtain F0 where F0: "parse_exts feature_table (drop 4 Machine) F0 = (True, F)"
    "f_xlen F0 = 32 \<or> f_xlen F0 = 64" "f_features F0 = RV_UNKNOWN"
    using assms by (rule mk_RevFeature_cases)
  have "features_closed (f_features F)"
    using F0(1) feature_table_closed
    by (rule parse_exts_closed) (simp add: F0(3) features_closed_def RV_UNKNOWN_def)
  moreover have "f_xlen F = 32 \<or> f_xlen F = 64"
    using parse_exts_frame [OF F0(1)] F0(2) by simp
  ultimately show ?thesis
    unfolding RV_flag_defs IsModeEnabled_bit
    by (auto simp: IsRV32_def IsRV64_def features_closed_def)
qed

text \<open>The feature objects of the machine strings that the test suite uses.\<close>

definition feature_RV64GC :: RevFeature where
  "feature_RV64GC = \<lparr>f_machine = ''RV64GC'', f_MinCost = 0, f_MaxCost = 10, f_ProcID = 0,
     f_HartToExecID = 0, f_features = 0x1813E, f_xlen = 64\<rparr>"

definition feature_RV32GC :: RevFeature where
  "feature_RV32GC = \<lparr>f_machine = ''RV32GC'', f_MinCost = 0, f_MaxCost = 10, f_ProcID = 0,
     f_HartToExecID = 0, f_features = 0x1813E, f_xlen = 32\<rparr>"

lemma mk_RevFeature_RV64GC: "mk_RevFeature ''RV64GC'' 0 10 0 = Inr feature_RV64GC"
  by code_simp

theorem mk_RevFeature_well_formed_witness:
  "\<exists>F. mk_RevFeature ''RV64GC'' 0 10 0 = Inr F \<and> IsRV64 F \<and> IsModeEnabled F RV_F"
proof -
  have "IsModeEnabled feature_RV64GC RV_D"
    by (simp add: IsModeEnabled_def RV_D_def feature_RV64GC_def)
  then have "IsModeEnabled feature_RV64GC RV_F"
    using mk_RevFeature_well_formed [OF mk_RevFeature_RV64GC] by blast
  then show ?thesis using mk_RevFeature_RV64GC by (auto simp: IsRV64_def feature_RV64GC_def)
qed

text \<open>
  the machine model \<^verbatim>\<open>"G"\<close> that \<^verbatim>\<open>RevOpts\<close> gives every core by default has no
  \<^verbatim>\<open>RV32\<close>/\<^verbatim>\<open>RV64\<close> prefix, so a core built from it stops with a fatal error, whatever
  its costs and number.
\<close>

theorem mk_RevFeature_default_machine:
  "mk_RevFeature ''G'' MinC MaxC ProcId = Inl (Fatal ''failed to parse the machine model'')"
  by (simp add: mk_RevFeature_def ParseMachineModel_def strncasecmp_eq_def)

end
