(* ===== verification/Rev_TLB.thy ===== *)
theory Rev_TLB
  imports Rev_Common
begin

text \<open>
  The translation look-aside buffer of \<^verbatim>\<open>src/RevMem.cc\<close> (\<^verbatim>\<open>FlushTLB\<close>, \<^verbatim>\<open>SearchTLB\<close>,
  \<^verbatim>\<open>AddToTLB\<close>). The hash map of the code stores, beside each physical address, an iterator
  into the list \<^verbatim>\<open>LRUQueue\<close>. A list node is modelled with an identity of its own and the
  iterator is that identity, so that erasing through a stale iterator is the undefined
  behaviour it is in C++. The locale \<open>lru_cache\<close> states what a least-recently-used cache
  promises; the operations of the code are an interpretation of it.
\<close>

section \<open>State and operations\<close>

record RevTLB =
  t_TLB :: "u64 \<Rightarrow> (u64 \<times> nat) option"
  t_LRUQueue :: "(nat \<times> u64) list"
  t_fresh :: nat
  t_tlbSize :: u32
  t_TLBHits :: u64
  t_TLBMisses :: u64

definition RevTLB_init :: RevTLB where
  "RevTLB_init = \<lparr>t_TLB = (\<lambda>_. None), t_LRUQueue = [], t_fresh = 0, t_tlbSize = 0,
     t_TLBHits = 0, t_TLBMisses = 0\<rparr>"

definition SetTLBSize :: "u32 \<Rightarrow> RevTLB \<Rightarrow> RevTLB" where
  "SetTLBSize numEntries T = T\<lparr>t_tlbSize := numEntries\<rparr>"

definition FlushTLB :: "RevTLB \<Rightarrow> RevTLB" where
  "FlushTLB T = T\<lparr>t_TLB := (\<lambda>_. None), t_LRUQueue := []\<rparr>"

text \<open>\<^verbatim>\<open>LRUQueue.erase(it)\<close> and \<^verbatim>\<open>LRUQueue.push_front(vAddr)\<close>.\<close>

definition LRU_erase :: "nat \<Rightarrow> RevTLB \<Rightarrow> RevTLB result" where
  "LRU_erase it T =
     (if it \<in> set (map fst (t_LRUQueue T))
      then Inr (T\<lparr>t_LRUQueue := filter (\<lambda>n. fst n \<noteq> it) (t_LRUQueue T)\<rparr>)
      else Inl (Undefined ''LRUQueue.erase: invalid iterator''))"

definition LRU_push_front :: "u64 \<Rightarrow> RevTLB \<Rightarrow> RevTLB" where
  "LRU_push_front vAddr T =
     T\<lparr>t_LRUQueue := (t_fresh T, vAddr) # t_LRUQueue T, t_fresh := Suc (t_fresh T)\<rparr>"

text \<open>\<^verbatim>\<open>LRUQueue.back()\<close> followed by \<^verbatim>\<open>pop_back()\<close>; both need a list that is not empty.\<close>

definition LRU_pop_back :: "RevTLB \<Rightarrow> (u64 \<times> RevTLB) result" where
  "LRU_pop_back T =
     (if t_LRUQueue T = [] then Inl (Undefined ''LRUQueue.back: empty list'')
      else Inr (snd (last (t_LRUQueue T)), T\<lparr>t_LRUQueue := butlast (t_LRUQueue T)\<rparr>))"

text \<open>\<^verbatim>\<open>LRUQueue.begin()\<close> right after a \<^verbatim>\<open>push_front\<close> is the node just made.\<close>

definition TLB_set :: "u64 \<Rightarrow> u64 \<Rightarrow> RevTLB \<Rightarrow> RevTLB result" where
  "TLB_set vAddr physAddr T =
     (case t_LRUQueue T of
        [] \<Rightarrow> Inl (Undefined ''LRUQueue.begin: empty list'')
      | n # _ \<Rightarrow> Inr (T\<lparr>t_TLB := (t_TLB T)(vAddr \<mapsto> (physAddr, fst n))\<rparr>))"

definition SearchTLB :: "u64 \<Rightarrow> RevTLB \<Rightarrow> (u64 \<times> RevTLB) result" where
  "SearchTLB vAddr T =
     (case t_TLB T vAddr of
        None \<Rightarrow> Inr (INVALID_ADDR, T\<lparr>t_TLBMisses := t_TLBMisses T + 1\<rparr>)
      | Some (physAddr, it) \<Rightarrow>
          res_bind (LRU_erase it (T\<lparr>t_TLBHits := t_TLBHits T + 1\<rparr>)) (\<lambda>T1.
          res_bind (TLB_set vAddr physAddr (LRU_push_front vAddr T1)) (\<lambda>T2.
          Inr (physAddr, T2))))"

definition AddToTLB :: "u64 \<Rightarrow> u64 \<Rightarrow> RevTLB \<Rightarrow> RevTLB result" where
  "AddToTLB vAddr physAddr T =
     (case t_TLB T vAddr of
        Some (_, it) \<Rightarrow>
          res_bind (LRU_erase it T) (\<lambda>T1.
          TLB_set vAddr physAddr (LRU_push_front vAddr T1))
      | None \<Rightarrow>
          res_bind
            (if length (t_LRUQueue T) = unat (t_tlbSize T)
             then res_bind (LRU_pop_back T) (\<lambda>(LRUvAddr, T1).
                  Inr (T1\<lparr>t_TLB := (t_TLB T1)(LRUvAddr := None)\<rparr>))
             else Inr T)
            (\<lambda>T1. TLB_set vAddr physAddr (LRU_push_front vAddr T1)))"

section \<open>The contract of a least-recently-used cache\<close>

text \<open>
  The abstract cache is an association list with the most recently used entry first.
\<close>

definition lru_lookup :: "'k \<Rightarrow> ('k \<times> 'v) list \<Rightarrow> 'v option \<times> ('k \<times> 'v) list" where
  "lru_lookup k c = (case map_of c k of
      None \<Rightarrow> (None, c)
    | Some v \<Rightarrow> (Some v, (k, v) # filter (\<lambda>e. fst e \<noteq> k) c))"

definition lru_insert :: "nat \<Rightarrow> 'k \<Rightarrow> 'v \<Rightarrow> ('k \<times> 'v) list \<Rightarrow> ('k \<times> 'v) list" where
  "lru_insert cap k v c =
     (k, v) # (if k \<in> fst ` set c then filter (\<lambda>e. fst e \<noteq> k) c
               else if length c = cap then butlast c else c)"

text \<open>A cache access is a lookup or an insertion; the number of accesses bounds eviction.\<close>

datatype ('k, 'v) access = Lookup 'k | Insert 'k 'v

primrec access_key :: "('k, 'v) access \<Rightarrow> 'k" where
  "access_key (Lookup k) = k"
| "access_key (Insert k v) = k"

locale lru_cache =
  fixes lookup :: "'k \<Rightarrow> 's \<Rightarrow> ('v option \<times> 's) result"
    and insert_entry :: "'k \<Rightarrow> 'v \<Rightarrow> 's \<Rightarrow> 's result"
    and abs :: "'s \<Rightarrow> ('k \<times> 'v) list"
    and inv :: "'s \<Rightarrow> bool"
    and cap :: "'s \<Rightarrow> nat"
  assumes lookup_refines: "inv s \<Longrightarrow> \<exists>s'. lookup k s = Inr (fst (lru_lookup k (abs s)), s') \<and>
      abs s' = snd (lru_lookup k (abs s)) \<and> inv s' \<and> cap s' = cap s"
    and insert_refines: "inv s \<Longrightarrow> 0 < cap s \<Longrightarrow> \<exists>s'. insert_entry k v s = Inr s' \<and>
      abs s' = lru_insert (cap s) k v (abs s) \<and> inv s' \<and> cap s' = cap s"
    and distinct_keys: "inv s \<Longrightarrow> distinct (map fst (abs s))"
    and within_cap: "inv s \<Longrightarrow> length (abs s) \<le> cap s"
begin

text \<open>What is inserted is found, and another key's value changes only by eviction.\<close>

lemma lookup_after_insert:
  assumes "inv s" "0 < cap s" "insert_entry k v s = Inr s'"
  shows "\<exists>s''. lookup k s' = Inr (Some v, s'') \<and> inv s''"
proof -
  have "abs s' = lru_insert (cap s) k v (abs s)" "inv s'"
    using insert_refines [OF assms(1,2), of k v] assms(3) by auto
  then show ?thesis
    using lookup_refines [of s' k] by (auto simp: lru_insert_def lru_lookup_def)
qed

definition run1 :: "('k, 'v) access \<Rightarrow> 's \<Rightarrow> 's result" where
  "run1 a s = (case a of Lookup k \<Rightarrow> res_bind (lookup k s) (\<lambda>(_, s'). Inr s')
                       | Insert k v \<Rightarrow> insert_entry k v s)"

primrec run :: "('k, 'v) access list \<Rightarrow> 's \<Rightarrow> 's result" where
  "run [] s = Inr s"
| "run (a # as) s = res_bind (run1 a s) (run as)"

text \<open>
  The position of an entry in the recency order moves back by at most one with each access
  to another key, so an entry survives as many of them as there is room.
\<close>

lemma run1_survives:
  assumes "inv s" "abs s = xs @ (k, v) # ys" "access_key a \<noteq> k" "length xs + 1 < cap s"
  shows "\<exists>s' xs' ys'. run1 a s = Inr s' \<and> inv s' \<and> cap s' = cap s \<and>
    abs s' = xs' @ (k, v) # ys' \<and> length xs' \<le> Suc (length xs)"
proof (cases a)
  case (Lookup j)
  obtain s' where s': "lookup j s = Inr (fst (lru_lookup j (abs s)), s')"
    "abs s' = snd (lru_lookup j (abs s))" "inv s'" "cap s' = cap s"
    using lookup_refines [OF assms(1)] by blast
  have jk: "j \<noteq> k" using assms(3) Lookup by simp
  show ?thesis
  proof (cases "map_of (abs s) j")
    case None
    then have "abs s' = abs s" using s'(2) by (simp add: lru_lookup_def)
    then show ?thesis
      using s' assms(2) Lookup
      by (intro exI [of _ s'] exI [of _ xs] exI [of _ ys]) (simp add: run1_def)
  next
    case (Some w)
    then have "abs s' = ((j, w) # filter (\<lambda>e. fst e \<noteq> j) xs) @ (k, v) # filter (\<lambda>e. fst e \<noteq> j) ys"
      using s'(2) jk by (simp add: lru_lookup_def assms(2))
    moreover have "length ((j, w) # filter (\<lambda>e. fst e \<noteq> j) xs) \<le> Suc (length xs)" by simp
    ultimately show ?thesis using s' Lookup by (auto simp: run1_def simp del: append_Cons)
  qed
next
  case (Insert j w)
  have jk: "j \<noteq> k" using assms(3) Insert by simp
  obtain s' where s': "insert_entry j w s = Inr s'"
    "abs s' = lru_insert (cap s) j w (abs s)" "inv s'" "cap s' = cap s"
    using insert_refines [OF assms(1), of j w] assms(4) by auto
  consider (hit) "j \<in> fst ` set (abs s)" | (full) "j \<notin> fst ` set (abs s)" "length (abs s) = cap s"
    | (room) "j \<notin> fst ` set (abs s)" "length (abs s) \<noteq> cap s" by blast
  then have "\<exists>xs' ys'. abs s' = xs' @ (k, v) # ys' \<and> length xs' \<le> Suc (length xs)"
  proof cases
    case hit
    then have "abs s' = ((j, w) # filter (\<lambda>e. fst e \<noteq> j) xs) @ (k, v) # filter (\<lambda>e. fst e \<noteq> j) ys"
      using s'(2) jk by (simp add: lru_insert_def assms(2))
    moreover have "length ((j, w) # filter (\<lambda>e. fst e \<noteq> j) xs) \<le> Suc (length xs)" by simp
    ultimately show ?thesis by blast
  next
    case full
    then have "ys \<noteq> []" using assms(2,4) by auto
    then have "abs s' = ((j, w) # xs) @ (k, v) # butlast ys"
      using s'(2) full by (simp add: lru_insert_def assms(2) butlast_append)
    then show ?thesis by (metis length_Cons order_refl)
  next
    case room
    then have "abs s' = ((j, w) # xs) @ (k, v) # ys"
      using s'(2) by (simp add: lru_insert_def assms(2))
    then show ?thesis by (metis length_Cons order_refl)
  qed
  then show ?thesis using s' Insert by (auto simp: run1_def)
qed

lemma run_survives:
  assumes "inv s" "abs s = xs @ (k, v) # ys" "k \<notin> access_key ` set as"
    and "length xs + length as < cap s"
  shows "\<exists>s'. run as s = Inr s' \<and> inv s' \<and> map_of (abs s') k = Some v"
  using assms
proof (induction as arbitrary: s xs ys)
  case Nil
  then show ?case using map_of_is_SomeI [OF distinct_keys, of s k v] by simp
next
  case (Cons a as)
  obtain s1 xs1 ys1 where s1: "run1 a s = Inr s1" "inv s1" "cap s1 = cap s"
    "abs s1 = xs1 @ (k, v) # ys1" "length xs1 \<le> Suc (length xs)"
    using run1_survives [OF Cons.prems(1,2), of a] Cons.prems(3,4) by auto
  show ?case
    using Cons.IH [OF s1(2,4)] Cons.prems(3,4) s1 by auto
qed

text \<open>The promise of the replacement policy: an entry used outlives \<open>cap - 1\<close> other accesses.\<close>

lemma recently_used_survives:
  assumes "inv s" "insert_entry k v s = Inr s1" "k \<notin> access_key ` set as" "length as < cap s"
  shows "\<exists>s2 s3. run as s1 = Inr s2 \<and> lookup k s2 = Inr (Some v, s3)"
proof -
  have s1: "abs s1 = [] @ (k, v) # tl (abs s1)" "inv s1" "cap s1 = cap s"
    using insert_refines [OF assms(1), of k v] assms(2,4) by (auto simp: lru_insert_def)
  obtain s2 where s2: "run as s1 = Inr s2" "inv s2" "map_of (abs s2) k = Some v"
    using run_survives [OF s1(2,1) assms(3)] s1(3) assms(4) by auto
  show ?thesis using lookup_refines [OF s2(2), of k] s2 by (auto simp: lru_lookup_def)
qed

end

section \<open>The TLB is a least-recently-used cache\<close>

definition tlb_lookup :: "u64 \<Rightarrow> RevTLB \<Rightarrow> (u64 option \<times> RevTLB) result" where
  "tlb_lookup v T = res_bind (SearchTLB v T) (\<lambda>(p, T').
     Inr (if t_TLB T v = None then None else Some p, T'))"

definition tlb_abs :: "RevTLB \<Rightarrow> (u64 \<times> u64) list" where
  "tlb_abs T = map (\<lambda>n. (snd n, fst (the (t_TLB T (snd n))))) (t_LRUQueue T)"

text \<open>
  The invariant: nodes and addresses are distinct, every node is the one its address's entry
  points at, every entry points at a node, and the queue is within the configured size.
\<close>

definition tlb_inv :: "RevTLB \<Rightarrow> bool" where
  "tlb_inv T \<longleftrightarrow>
     distinct (map fst (t_LRUQueue T)) \<and> distinct (map snd (t_LRUQueue T)) \<and>
     (\<forall>(it, v) \<in> set (t_LRUQueue T). it < t_fresh T \<and> (\<exists>p. t_TLB T v = Some (p, it))) \<and>
     (\<forall>v p it. t_TLB T v = Some (p, it) \<longrightarrow> (it, v) \<in> set (t_LRUQueue T)) \<and>
     length (t_LRUQueue T) \<le> unat (t_tlbSize T)"

lemma tlb_invD:
  assumes "tlb_inv T"
  shows "distinct (map fst (t_LRUQueue T))" "distinct (map snd (t_LRUQueue T))"
    "(it, v) \<in> set (t_LRUQueue T) \<Longrightarrow> it < t_fresh T"
    "(it, v) \<in> set (t_LRUQueue T) \<Longrightarrow> \<exists>p. t_TLB T v = Some (p, it)"
    "t_TLB T v = Some (p, it) \<Longrightarrow> (it, v) \<in> set (t_LRUQueue T)"
    "length (t_LRUQueue T) \<le> unat (t_tlbSize T)"
  using assms unfolding tlb_inv_def by blast+

lemma tlb_node_unique:
  assumes "tlb_inv T" "(it, v) \<in> set (t_LRUQueue T)" "n \<in> set (t_LRUQueue T)"
  shows "fst n = it \<longleftrightarrow> snd n = v"
  using assms tlb_invD(1,2) [OF assms(1)] by (metis eq_key_imp_eq_value fst_conv
      distinct_map inj_onD snd_conv)

lemma tlb_inv_init: "tlb_inv (RevTLB_init\<lparr>t_tlbSize := n\<rparr>)"
  by (simp add: tlb_inv_def RevTLB_init_def)

lemma tlb_inv_flush: "tlb_inv (FlushTLB T)"
  by (simp add: tlb_inv_def FlushTLB_def)

lemma tlb_inv_miss [simp]: "tlb_inv (T\<lparr>t_TLBMisses := n\<rparr>) = tlb_inv T"
  by (simp add: tlb_inv_def)

lemma tlb_inv_hit [simp]: "tlb_inv (T\<lparr>t_TLBHits := n\<rparr>) = tlb_inv T"
  by (simp add: tlb_inv_def)

text \<open>Pushing an address to the front and pointing its entry there.\<close>

lemma TLB_set_push_front [simp]:
  "TLB_set v p (LRU_push_front v T) = Inr (T\<lparr>
     t_LRUQueue := (t_fresh T, v) # t_LRUQueue T, t_fresh := Suc (t_fresh T),
     t_TLB := (t_TLB T)(v \<mapsto> (p, t_fresh T))\<rparr>)"
  by (simp add: TLB_set_def LRU_push_front_def)

lemma tlb_touch:
  assumes "tlb_inv T" "t_TLB T v = None" "length (t_LRUQueue T) < unat (t_tlbSize T)"
  shows "tlb_inv (T\<lparr>t_LRUQueue := (t_fresh T, v) # t_LRUQueue T, t_fresh := Suc (t_fresh T),
      t_TLB := (t_TLB T)(v \<mapsto> (p, t_fresh T))\<rparr>)" (is "tlb_inv ?T")
    and "tlb_abs (T\<lparr>t_LRUQueue := (t_fresh T, v) # t_LRUQueue T, t_fresh := Suc (t_fresh T),
      t_TLB := (t_TLB T)(v \<mapsto> (p, t_fresh T))\<rparr>) = (v, p) # tlb_abs T"
proof -
  have v: "(it, v) \<notin> set (t_LRUQueue T)" for it
    using tlb_invD(4) [OF assms(1)] assms(2) by fastforce
  have f: "(t_fresh T, w) \<notin> set (t_LRUQueue T)" for w
    using tlb_invD(3) [OF assms(1)] by blast
  show "tlb_inv ?T"
    using assms v f unfolding tlb_inv_def by (auto simp: less_Suc_eq)
  show "tlb_abs ?T = (v, p) # tlb_abs T"
    using v by (auto simp: tlb_abs_def)
qed

text \<open>Taking an address out, from the map and from the queue.\<close>

lemma tlb_remove:
  assumes "tlb_inv T" "t_TLB T v = Some (p, it)"
  shows "LRU_erase it T = Inr (T\<lparr>t_LRUQueue := filter (\<lambda>n. snd n \<noteq> v) (t_LRUQueue T)\<rparr>)"
    and "tlb_inv (T\<lparr>t_LRUQueue := filter (\<lambda>n. snd n \<noteq> v) (t_LRUQueue T),
      t_TLB := (t_TLB T)(v := None)\<rparr>)" (is "tlb_inv ?T")
    and "tlb_abs (T\<lparr>t_LRUQueue := filter (\<lambda>n. snd n \<noteq> v) (t_LRUQueue T),
      t_TLB := (t_TLB T)(v := None)\<rparr>) = filter (\<lambda>e. fst e \<noteq> v) (tlb_abs T)"
    and "length (filter (\<lambda>n. snd n \<noteq> v) (t_LRUQueue T)) < unat (t_tlbSize T)"
proof -
  have mem: "(it, v) \<in> set (t_LRUQueue T)" using tlb_invD(5) [OF assms] .
  have "filter (\<lambda>n. fst n \<noteq> it) (t_LRUQueue T) = filter (\<lambda>n. snd n \<noteq> v) (t_LRUQueue T)"
    using tlb_node_unique [OF assms(1) mem] by (intro filter_cong) auto
  then show "LRU_erase it T = Inr (T\<lparr>t_LRUQueue := filter (\<lambda>n. snd n \<noteq> v) (t_LRUQueue T)\<rparr>)"
    using mem by (force simp: LRU_erase_def)
  show "tlb_inv ?T"
    using assms(1) unfolding tlb_inv_def
    by (auto simp: distinct_map_filter intro: le_trans [OF length_filter_le])
  show "tlb_abs ?T = filter (\<lambda>e. fst e \<noteq> v) (tlb_abs T)"
    by (auto simp: tlb_abs_def filter_map comp_def intro!: map_cong)
  have "length (filter (\<lambda>n. snd n \<noteq> v) (t_LRUQueue T)) < length (t_LRUQueue T)"
    using mem by (auto intro: length_filter_less)
  then show "length (filter (\<lambda>n. snd n \<noteq> v) (t_LRUQueue T)) < unat (t_tlbSize T)"
    using tlb_invD(6) [OF assms(1)] by simp
qed

lemma map_of_tlb_abs:
  assumes "tlb_inv T"
  shows "map_of (tlb_abs T) v = map_option fst (t_TLB T v)"
proof (cases "t_TLB T v")
  case None
  then have "v \<notin> fst ` set (tlb_abs T)"
    using tlb_invD(4) [OF assms] by (fastforce simp: tlb_abs_def)
  then show ?thesis using None by (simp add: map_of_eq_None_iff)
next
  case (Some q)
  obtain p it where q: "q = (p, it)" by (cases q)
  have "(v, p) \<in> set (tlb_abs T)"
    using tlb_invD(5) [OF assms] Some q by (force simp: tlb_abs_def)
  moreover have "distinct (map fst (tlb_abs T))"
    using tlb_invD(2) [OF assms] by (simp add: tlb_abs_def comp_def)
  ultimately show ?thesis using Some q by simp
qed

lemma tlb_abs_keys: "fst ` set (tlb_abs T) = snd ` set (t_LRUQueue T)"
  by (force simp: tlb_abs_def)

text \<open>A hit moves the address to the front of the queue and keeps its translation.\<close>

lemma SearchTLB_hit:
  assumes "tlb_inv T" "t_TLB T v = Some (p, it)"
  shows "\<exists>T'. SearchTLB v T = Inr (p, T') \<and> tlb_inv T' \<and> t_tlbSize T' = t_tlbSize T \<and>
    tlb_abs T' = (v, p) # filter (\<lambda>e. fst e \<noteq> v) (tlb_abs T)"
proof -
  let ?H = "T\<lparr>t_TLBHits := t_TLBHits T + 1\<rparr>"
  let ?R = "?H\<lparr>t_LRUQueue := filter (\<lambda>n. snd n \<noteq> v) (t_LRUQueue ?H), t_TLB := (t_TLB ?H)(v := None)\<rparr>"
  have H: "tlb_inv ?H" "t_TLB ?H v = Some (p, it)" using assms by simp_all
  note R = tlb_remove [OF H]
  have "t_TLB ?R v = None" by simp
  note touch = tlb_touch [OF R(2) this, of p]
  have "SearchTLB v T = Inr (p, ?R\<lparr>t_LRUQueue := (t_fresh ?R, v) # t_LRUQueue ?R,
      t_fresh := Suc (t_fresh ?R), t_TLB := (t_TLB ?R)(v \<mapsto> (p, t_fresh ?R))\<rparr>)"
    using assms(2) R(1) by (simp add: SearchTLB_def)
  moreover have "tlb_abs ?H = tlb_abs T" by (simp add: tlb_abs_def)
  ultimately show ?thesis using touch R(3,4) by (auto simp del: fun_upd_apply)
qed

lemma SearchTLB_miss:
  assumes "t_TLB T v = None"
  shows "SearchTLB v T = Inr (INVALID_ADDR, T\<lparr>t_TLBMisses := t_TLBMisses T + 1\<rparr>)"
  using assms by (simp add: SearchTLB_def)

lemma tlb_lookup_refines:
  assumes "tlb_inv T"
  shows "\<exists>T'. tlb_lookup v T = Inr (fst (lru_lookup v (tlb_abs T)), T') \<and>
    tlb_abs T' = snd (lru_lookup v (tlb_abs T)) \<and> tlb_inv T' \<and> t_tlbSize T' = t_tlbSize T"
proof (cases "t_TLB T v")
  case None
  then show ?thesis
    using assms map_of_tlb_abs [OF assms, of v]
    by (auto simp: tlb_lookup_def SearchTLB_miss lru_lookup_def tlb_abs_def)
next
  case (Some q)
  obtain p it where q: "q = (p, it)" by (cases q)
  then show ?thesis
    using SearchTLB_hit [OF assms, of v p it] Some map_of_tlb_abs [OF assms, of v]
    by (auto simp: tlb_lookup_def lru_lookup_def)
qed

lemma AddToTLB_refines:
  assumes "tlb_inv T" "0 < unat (t_tlbSize T)"
  shows "\<exists>T'. AddToTLB v p T = Inr T' \<and> tlb_inv T' \<and> t_tlbSize T' = t_tlbSize T \<and>
    tlb_abs T' = lru_insert (unat (t_tlbSize T)) v p (tlb_abs T)"
proof (cases "t_TLB T v")
  case (Some q)
  obtain p0 it where q: "q = (p0, it)" by (cases q)
  let ?R = "T\<lparr>t_LRUQueue := filter (\<lambda>n. snd n \<noteq> v) (t_LRUQueue T), t_TLB := (t_TLB T)(v := None)\<rparr>"
  have hit: "t_TLB T v = Some (p0, it)" using Some q by simp
  note R = tlb_remove [OF assms(1) hit]
  have "t_TLB ?R v = None" by simp
  note touch = tlb_touch [OF R(2) this, of p]
  have "AddToTLB v p T = Inr (?R\<lparr>t_LRUQueue := (t_fresh ?R, v) # t_LRUQueue ?R,
      t_fresh := Suc (t_fresh ?R), t_TLB := (t_TLB ?R)(v \<mapsto> (p, t_fresh ?R))\<rparr>)"
    using hit R(1) by (simp add: AddToTLB_def)
  moreover have "v \<in> fst ` set (tlb_abs T)"
    using tlb_invD(5) [OF assms(1) hit] by (force simp: tlb_abs_keys)
  ultimately show ?thesis
    using touch R(3,4) by (auto simp: lru_insert_def simp del: fun_upd_apply)
next
  case None
  have key: "v \<notin> fst ` set (tlb_abs T)"
    using None map_of_tlb_abs [OF assms(1), of v] by (simp add: map_of_eq_None_iff)
  have len: "length (tlb_abs T) = length (t_LRUQueue T)" by (simp add: tlb_abs_def)
  show ?thesis
  proof (cases "length (t_LRUQueue T) = unat (t_tlbSize T)")
    case False
    then have "length (t_LRUQueue T) < unat (t_tlbSize T)" using tlb_invD(6) [OF assms(1)] by simp
    then show ?thesis
      using tlb_touch [OF assms(1) None, of p] None False key len
      by (auto simp: AddToTLB_def lru_insert_def simp del: fun_upd_apply)
  next
    case True
    then obtain Q it w where Q: "t_LRUQueue T = Q @ [(it, w)]"
      using assms(2) by (metis length_greater_0_conv rev_exhaust surj_pair)
    obtain p0 where w: "t_TLB T w = Some (p0, it)"
      using tlb_invD(4) [OF assms(1)] Q by force
    note R = tlb_remove [OF assms(1) w]
    have filt: "filter (\<lambda>n. snd n \<noteq> w) (t_LRUQueue T) = Q"
      using tlb_invD(2) [OF assms(1)] Q by (auto simp: filter_id_conv)
    let ?R = "T\<lparr>t_LRUQueue := Q, t_TLB := (t_TLB T)(w := None)\<rparr>"
    have Rv: "t_TLB ?R v = None" using None by simp
    have R2: "tlb_inv ?R" "length (t_LRUQueue ?R) < unat (t_tlbSize ?R)"
      using R(2,4) filt by simp_all
    have "filter (\<lambda>e. fst e \<noteq> w) (tlb_abs T) = butlast (tlb_abs T)"
      using tlb_invD(2) [OF assms(1)] Q
      by (auto simp: tlb_abs_def butlast_append filter_id_conv)
    then have R3: "tlb_abs ?R = butlast (tlb_abs T)" using R(3) filt by simp
    have "AddToTLB v p T = Inr (?R\<lparr>t_LRUQueue := (t_fresh ?R, v) # t_LRUQueue ?R,
        t_fresh := Suc (t_fresh ?R), t_TLB := (t_TLB ?R)(v \<mapsto> (p, t_fresh ?R))\<rparr>)"
      using None True Q by (simp add: AddToTLB_def LRU_pop_back_def)
    then show ?thesis
      using tlb_touch [OF R2(1) Rv R2(2), of p] R3 key len True
      by (auto simp: lru_insert_def simp del: fun_upd_apply)
  qed
qed

interpretation tlb: lru_cache tlb_lookup AddToTLB tlb_abs tlb_inv "\<lambda>T. unat (t_tlbSize T)"
proof unfold_locales
  fix T :: RevTLB and v p :: u64
  assume inv: "tlb_inv T"
  show "\<exists>T'. tlb_lookup v T = Inr (fst (lru_lookup v (tlb_abs T)), T') \<and>
      tlb_abs T' = snd (lru_lookup v (tlb_abs T)) \<and> tlb_inv T' \<and>
      unat (t_tlbSize T') = unat (t_tlbSize T)"
    using tlb_lookup_refines [OF inv] by metis
  show "distinct (map fst (tlb_abs T))"
    using tlb_invD(2) [OF inv] by (simp add: tlb_abs_def comp_def)
  show "length (tlb_abs T) \<le> unat (t_tlbSize T)"
    using tlb_invD(6) [OF inv] by (simp add: tlb_abs_def)
  assume "0 < unat (t_tlbSize T)"
  then show "\<exists>T'. AddToTLB v p T = Inr T' \<and>
      tlb_abs T' = lru_insert (unat (t_tlbSize T)) v p (tlb_abs T) \<and> tlb_inv T' \<and>
      unat (t_tlbSize T') = unat (t_tlbSize T)"
    using AddToTLB_refines [OF inv, of v p] by auto
qed

section \<open>Properties\<close>

text \<open>
  A sequence of accesses to the TLB with what the searches return, and the same sequence on the abstract
  cache of a fixed capacity.
\<close>

primrec tlb_run :: "(u64, u64) access list \<Rightarrow> RevTLB \<Rightarrow> (u64 list \<times> RevTLB) result" where
  "tlb_run [] T = Inr ([], T)"
| "tlb_run (a # as) T =
     (case a of
        Lookup v \<Rightarrow> res_bind (SearchTLB v T) (\<lambda>(p, T1). res_bind (tlb_run as T1) (\<lambda>(ps, T2). Inr (p # ps, T2)))
      | Insert v p \<Rightarrow> res_bind (AddToTLB v p T) (tlb_run as))"

primrec lru_run :: "nat \<Rightarrow> (u64, u64) access list \<Rightarrow> (u64 \<times> u64) list \<Rightarrow> u64 list \<times> (u64 \<times> u64) list" where
  "lru_run cap [] c = ([], c)"
| "lru_run cap (a # as) c =
     (case a of
        Lookup v \<Rightarrow> let (r, c1) = lru_lookup v c; (ps, c2) = lru_run cap as c1
                    in ((case r of Some p \<Rightarrow> p | None \<Rightarrow> INVALID_ADDR) # ps, c2)
      | Insert v p \<Rightarrow> lru_run cap as (lru_insert cap v p c))"

lemma SearchTLB_refines:
  assumes "tlb_inv T"
  shows "\<exists>T'. SearchTLB v T = Inr (case fst (lru_lookup v (tlb_abs T)) of Some p \<Rightarrow> p | None \<Rightarrow> INVALID_ADDR, T') \<and>
    tlb_abs T' = snd (lru_lookup v (tlb_abs T)) \<and> tlb_inv T' \<and> t_tlbSize T' = t_tlbSize T"
proof (cases "t_TLB T v")
  case None
  then show ?thesis
    using assms map_of_tlb_abs [OF assms, of v]
    by (simp add: SearchTLB_miss lru_lookup_def) (simp add: tlb_abs_def)
next
  case (Some q)
  then show ?thesis
    using SearchTLB_hit [OF assms, of v "fst q" "snd q"] map_of_tlb_abs [OF assms, of v]
    by (auto simp: lru_lookup_def)
qed

text \<open>
  C18: Over every sequence of searches and insertions the TLB of the code, with its hash map of list
  iterators, behaves as one least-recently-used cache of its capacity: every search returns the
  translation that the abstract cache holds, or the invalid address when it holds none, and no access
  uses an invalid iterator. At the end the TLB holds the entries of the abstract cache in its order, its
  capacity is as before and the invariant holds.
\<close>

theorem TLB_refines_lru:
  assumes "tlb_inv T" "0 < t_tlbSize T"
  shows "\<exists>T'. tlb_run as T = Inr (fst (lru_run (unat (t_tlbSize T)) as (tlb_abs T)), T') \<and>
    tlb_abs T' = snd (lru_run (unat (t_tlbSize T)) as (tlb_abs T)) \<and> t_tlbSize T' = t_tlbSize T \<and> tlb_inv T'"
  using assms
proof (induction as arbitrary: T)
  case (Cons a as)
  show ?case
  proof (cases a)
    case (Lookup v)
    obtain T1 where T1: "SearchTLB v T = Inr (case fst (lru_lookup v (tlb_abs T)) of Some p \<Rightarrow> p | None \<Rightarrow> INVALID_ADDR, T1)"
      "tlb_abs T1 = snd (lru_lookup v (tlb_abs T))" "tlb_inv T1" "t_tlbSize T1 = t_tlbSize T"
      using SearchTLB_refines [OF Cons.prems(1)] by blast
    with Cons.IH [of T1] Cons.prems(2) show ?thesis by (auto simp: Lookup case_prod_beta Let_def)
  next
    case (Insert v p)
    have "0 < unat (t_tlbSize T)" using Cons.prems(2) by (simp add: word_less_nat_alt)
    then obtain T1 where T1: "AddToTLB v p T = Inr T1" "tlb_abs T1 = lru_insert (unat (t_tlbSize T)) v p (tlb_abs T)" "tlb_inv T1"
      "t_tlbSize T1 = t_tlbSize T"
      using tlb.insert_refines [OF Cons.prems(1), of v p] by (auto simp: word_unat_eq_iff)
    with Cons.IH [of T1] Cons.prems(2) show ?thesis by (simp add: Insert)
  qed
qed simp

text \<open>A buffer of two entries: the second insertion after a hit evicts the entry that was not hit.\<close>

theorem TLB_refines_lru_witness:
  "\<exists>T'. tlb_run [Insert 1 10, Insert 2 20, Lookup 1, Insert 3 30, Lookup 2, Lookup 1] (SetTLBSize 2 RevTLB_init) =
      Inr ([10, INVALID_ADDR, 10], T') \<and> tlb_abs T' = [(1, 10), (3, 30)] \<and> t_tlbSize T' = 2"
proof -
  have "tlb_inv (SetTLBSize 2 RevTLB_init)" "0 < t_tlbSize (SetTLBSize 2 RevTLB_init)" "tlb_abs (SetTLBSize 2 RevTLB_init) = []"
    "t_tlbSize (SetTLBSize 2 RevTLB_init) = 2"
    using tlb_inv_init [of 2] by (simp_all add: SetTLBSize_def tlb_abs_def RevTLB_init_def)
  then show ?thesis
    using TLB_refines_lru [of "SetTLBSize 2 RevTLB_init" "[Insert 1 10, Insert 2 20, Lookup 1, Insert 3 30, Lookup 2, Lookup 1]"]
    by (simp add: lru_insert_def lru_lookup_def) blast
qed

text \<open>
  the replacement policy keeps recently used translations: after an address is entered,
  fewer than \<^verbatim>\<open>tlbSize\<close> searches and insertions of other addresses, in any order, leave it
  in the buffer with the same translation, and none of them meets an invalid iterator.
\<close>

theorem TLB_recently_used_survives:
  assumes "tlb_inv T" "AddToTLB v p T = Inr T1" "v \<notin> access_key ` set as"
    and "length as < unat (t_tlbSize T)"
  shows "\<exists>T2 T3. lru_cache.run tlb_lookup AddToTLB as T1 = Inr T2 \<and> SearchTLB v T2 = Inr (p, T3)"
proof -
  obtain T2 T3 where run: "tlb.run as T1 = Inr T2" "tlb_lookup v T2 = Inr (Some p, T3)"
    using tlb.recently_used_survives [OF assms(1,2,3)] assms(4) by blast
  then have "SearchTLB v T2 = Inr (p, T3)"
    by (auto simp: tlb_lookup_def res_bind_eq_Inr split: if_splits)
  with run(1) show ?thesis by blast
qed

theorem TLB_recently_used_survives_witness:
  "\<exists>T1 T2 T3. AddToTLB 8 40 (SetTLBSize 2 RevTLB_init) = Inr T1 \<and>
     lru_cache.run tlb_lookup AddToTLB [Insert 16 48] T1 = Inr T2 \<and> SearchTLB 8 T2 = Inr (40, T3)"
proof -
  have inv: "tlb_inv (SetTLBSize 2 RevTLB_init)" using tlb_inv_init [of 2] by (simp add: SetTLBSize_def)
  then obtain T1 where T1: "AddToTLB 8 40 (SetTLBSize 2 RevTLB_init) = Inr T1"
    using AddToTLB_refines [of "SetTLBSize 2 RevTLB_init" 8 40] by (auto simp: SetTLBSize_def)
  show ?thesis
    using TLB_recently_used_survives [OF inv T1, where as = "[Insert 16 48]"] T1
    by (simp add: SetTLBSize_def)
qed

end
