(* ===== verification/Rev_Segments.thy ===== *)
theory Rev_Segments
  imports Rev_Common
begin

text \<open>
  The memory segments of \<^verbatim>\<open>include/RevMem.h\<close> (class \<^verbatim>\<open>MemSegment\<close>) and the operations of
  \<^verbatim>\<open>src/RevMem.cc\<close> that allocate, free and extend them: static segments for the loader,
  thread memory growing down from the top, and the heap with its list of free segments.
  The locale \<open>region_allocator\<close> states what an allocator promises its clients.
\<close>

section \<open>Segments\<close>

record MemSegment =
  seg_BaseAddr :: u64
  seg_Size :: u64
  seg_TopAddr :: u64

definition mk_MemSegment :: "u64 \<Rightarrow> u64 \<Rightarrow> MemSegment" where
  "mk_MemSegment baseAddr size' =
     \<lparr>seg_BaseAddr = baseAddr, seg_Size = size', seg_TopAddr = baseAddr + size'\<rparr>"

definition getTopAddr :: "MemSegment \<Rightarrow> u64" where
  "getTopAddr s = seg_BaseAddr s + seg_Size s"

definition setBaseAddr :: "u64 \<Rightarrow> MemSegment \<Rightarrow> MemSegment" where
  "setBaseAddr baseAddr s =
     (let s1 = s\<lparr>seg_BaseAddr := baseAddr\<rparr>
      in if seg_Size s1 \<noteq> 0 then s1\<lparr>seg_TopAddr := seg_Size s1 + seg_BaseAddr s1\<rparr> else s1)"

definition setSize :: "u64 \<Rightarrow> MemSegment \<Rightarrow> MemSegment" where
  "setSize size' s = s\<lparr>seg_Size := size', seg_TopAddr := seg_BaseAddr s + size'\<rparr>"

definition seg_contains :: "MemSegment \<Rightarrow> u64 \<Rightarrow> bool" where
  "seg_contains s vAddr = (vAddr \<ge> seg_BaseAddr s \<and> vAddr < seg_TopAddr s)"

definition seg_contains_range :: "MemSegment \<Rightarrow> u64 \<Rightarrow> u64 \<Rightarrow> bool" where
  "seg_contains_range s vBaseAddr size' =
     (let vTopAddr = vBaseAddr + size' - 1
      in seg_contains s vBaseAddr \<and> seg_contains s vTopAddr)"

section \<open>State\<close>

definition STACK_SIZE :: u64 where
  "STACK_SIZE = 1024 * 1024"

text \<open>The page size, set by both constructors and never changed.\<close>

definition pageSize :: u32 where
  "pageSize = 262144"

record RevSegs =
  s_MemSegs :: "MemSegment list"
  s_FreeMemSegs :: "MemSegment list"
  s_ThreadMemSegs :: "MemSegment list"
  s_memSize :: u64
  s_maxHeapSize :: u32
  s_TLSBaseAddr :: u64
  s_TLSSize :: u64
  s_ThreadMemSize :: u64
  s_NextThreadMemAddr :: u64
  s_heapend :: u64
  s_heapstart :: u64
  s_stacktop :: u64

section \<open>Static segments and thread memory\<close>

definition AddMemSegAt :: "u64 \<Rightarrow> u64 \<Rightarrow> RevSegs \<Rightarrow> u64 \<times> RevSegs" where
  "AddMemSegAt BaseAddr SegSize S =
     (BaseAddr, S\<lparr>s_MemSegs := s_MemSegs S @ [mk_MemSegment BaseAddr SegSize]\<rparr>)"

text \<open>
  The part of the constructors that concerns segments: members without an initialiser
  (\<open>heap\<close> is a parameter with their unspecified values) and the 1024 bytes of the program
  header on top of the stack.
\<close>

definition RevSegs_init :: "u64 \<Rightarrow> u32 \<Rightarrow> u64 \<times> u64 \<times> u64 \<Rightarrow> RevSegs" where
  "RevSegs_init MemSize maxHeap heap =
     snd (AddMemSegAt (MemSize - 1024) 1024
       \<lparr>s_MemSegs = [], s_FreeMemSegs = [], s_ThreadMemSegs = [], s_memSize = MemSize,
        s_maxHeapSize = maxHeap, s_TLSBaseAddr = fst heap, s_TLSSize = 4,
        s_ThreadMemSize = STACK_SIZE, s_NextThreadMemAddr = MemSize - 1024,
        s_heapend = fst (snd heap), s_heapstart = snd (snd heap), s_stacktop = MemSize - 1024\<rparr>)"

definition isValidVirtAddr :: "u64 \<Rightarrow> RevSegs \<Rightarrow> bool" where
  "isValidVirtAddr vAddr S =
     (list_ex (\<lambda>Seg. seg_contains Seg vAddr) (s_MemSegs S) \<or>
      list_ex (\<lambda>Seg. seg_contains Seg vAddr) (s_ThreadMemSegs S))"

text \<open>The loop over \<^verbatim>\<open>MemSegs\<close>: the result is the returned base and the updated list.\<close>

fun rounded_scan :: "u64 \<Rightarrow> u64 \<Rightarrow> MemSegment list \<Rightarrow> (u64 \<times> MemSegment list) option" where
  "rounded_scan BaseAddr NewSegTopAddr [] = None"
| "rounded_scan BaseAddr NewSegTopAddr (Seg # Segs) =
     (if seg_contains Seg BaseAddr then
        (if \<not> seg_contains Seg NewSegTopAddr
         then let BytesToExpandBy = NewSegTopAddr - getTopAddr Seg;
                  Seg' = setSize (seg_Size Seg + BytesToExpandBy) Seg
              in Some (seg_BaseAddr Seg', Seg' # Segs)
         else Some (seg_BaseAddr Seg, Seg # Segs))
      else if seg_contains Seg NewSegTopAddr then
        (let Seg1 = setBaseAddr BaseAddr Seg;
             BytesToExpandBy = seg_BaseAddr Seg1 - BaseAddr
         in Some (BaseAddr, setSize (seg_Size Seg1 + BytesToExpandBy) Seg1 # Segs))
      else map_option (\<lambda>(b, Segs'). (b, Seg # Segs')) (rounded_scan BaseAddr NewSegTopAddr Segs))"

definition RoundedSize :: "u64 \<Rightarrow> u64 \<Rightarrow> u64" where
  "RoundedSize SegSize RoundUpSize =
     (let Remainder = SegSize mod RoundUpSize
      in if Remainder = 0 then SegSize else SegSize + RoundUpSize - Remainder)"

definition AddRoundedMemSeg :: "u64 \<Rightarrow> u64 \<Rightarrow> u64 \<Rightarrow> RevSegs \<Rightarrow> (u64 \<times> RevSegs) result" where
  "AddRoundedMemSeg BaseAddr SegSize RoundUpSize S =
     (if RoundUpSize = 0 then Inl (Fatal ''RoundUpSize must be greater than 0'')
      else let RoundedSegSize = RoundedSize SegSize RoundUpSize;
               NewSegTopAddr = BaseAddr + RoundedSegSize
           in case rounded_scan BaseAddr NewSegTopAddr (s_MemSegs S) of
                Some (b, Segs) \<Rightarrow> Inr (b, S\<lparr>s_MemSegs := Segs\<rparr>)
              | None \<Rightarrow> Inr (BaseAddr,
                  S\<lparr>s_MemSegs := s_MemSegs S @ [mk_MemSegment BaseAddr RoundedSegSize]\<rparr>))"

definition AddThreadMem :: "RevSegs \<Rightarrow> MemSegment \<times> RevSegs" where
  "AddThreadMem S =
     (let BaseAddr = s_NextThreadMemAddr S - s_ThreadMemSize S;
          Seg = mk_MemSegment BaseAddr (s_ThreadMemSize S)
      in (Seg, S\<lparr>s_ThreadMemSegs := s_ThreadMemSegs S @ [Seg],
                 s_NextThreadMemAddr := BaseAddr - ucast pageSize - 1\<rparr>))"

definition SetTLSInfo :: "u64 \<Rightarrow> u64 \<Rightarrow> RevSegs \<Rightarrow> RevSegs" where
  "SetTLSInfo BaseAddr Size S =
     (let S1 = S\<lparr>s_TLSBaseAddr := BaseAddr, s_TLSSize := s_TLSSize S + Size\<rparr>
      in S1\<lparr>s_ThreadMemSize := STACK_SIZE + s_TLSSize S1\<rparr>)"

section \<open>The heap\<close>

definition InitHeap :: "u64 \<Rightarrow> RevSegs \<Rightarrow> RevSegs result" where
  "InitHeap EndOfStaticData S =
     (if EndOfStaticData = 0 then Inl (Fatal ''unable to find a .text section'')
      else Inr (S\<lparr>s_FreeMemSegs := s_FreeMemSegs S @
                     [mk_MemSegment (EndOfStaticData + 1) (ucast (s_maxHeapSize S))],
                  s_heapend := EndOfStaticData + 1,
                  s_heapstart := EndOfStaticData + 1\<rparr>))"

definition ExpandHeap :: "u64 \<Rightarrow> RevSegs \<Rightarrow> (u64 \<times> RevSegs) result" where
  "ExpandHeap Size S =
     (let NewHeapEnd = s_heapend S + Size
      in if NewHeapEnd > ucast (s_maxHeapSize S) then Inl (Fatal ''Out Of Memory'')
         else Inr (NewHeapEnd, S\<lparr>s_heapend := NewHeapEnd\<rparr>))"

text \<open>The first-fit loop over \<^verbatim>\<open>FreeMemSegs\<close>.\<close>

fun first_fit :: "u64 \<Rightarrow> MemSegment list \<Rightarrow> (u64 \<times> MemSegment list) option" where
  "first_fit SegSize [] = None"
| "first_fit SegSize (FreeSeg # Segs) =
     (let oldFreeSegSize = seg_Size FreeSeg
      in if oldFreeSegSize > SegSize
         then Some (seg_BaseAddr FreeSeg,
                setSize (oldFreeSegSize - SegSize)
                  (setBaseAddr (seg_BaseAddr FreeSeg + SegSize) FreeSeg) # Segs)
         else if oldFreeSegSize = SegSize then Some (seg_BaseAddr FreeSeg, Segs)
         else map_option (\<lambda>(b, Segs'). (b, FreeSeg # Segs')) (first_fit SegSize Segs))"

definition AllocMem :: "u64 \<Rightarrow> RevSegs \<Rightarrow> (u64 \<times> RevSegs) result" where
  "AllocMem SegSize S =
     (case first_fit SegSize (s_FreeMemSegs S) of
        Some (NewSegBaseAddr, Segs) \<Rightarrow>
          Inr (NewSegBaseAddr, S\<lparr>s_FreeMemSegs := Segs,
                 s_MemSegs := s_MemSegs S @ [mk_MemSegment NewSegBaseAddr SegSize]\<rparr>)
      | None \<Rightarrow>
          let NewSegBaseAddr = s_heapend S;
              S1 = S\<lparr>s_MemSegs := s_MemSegs S @ [mk_MemSegment NewSegBaseAddr SegSize]\<rparr>
          in res_bind (ExpandHeap SegSize S1) (\<lambda>(_, S2). Inr (NewSegBaseAddr, S2)))"

text \<open>
  \<^verbatim>\<open>AllocMemAt\<close>: the first free segment that holds both ends of the range is split; the
  first component of the result tells that one was found. The new piece of a middle split is
  appended to the whole list, hence the third component.
\<close>

fun alloc_at_scan :: "u64 \<Rightarrow> u64 \<Rightarrow> MemSegment list \<Rightarrow> bool \<times> MemSegment list \<times> MemSegment list" where
  "alloc_at_scan BaseAddr SegSize [] = (False, [], [])"
| "alloc_at_scan BaseAddr SegSize (FreeSeg # Segs) =
     (if seg_contains_range FreeSeg BaseAddr SegSize then
        (if seg_BaseAddr FreeSeg \<noteq> BaseAddr \<and> getTopAddr FreeSeg \<noteq> BaseAddr + SegSize then
           let OldFreeSegTop = getTopAddr FreeSeg;
               FreeSeg' = setSize (BaseAddr - seg_BaseAddr FreeSeg) FreeSeg;
               NewFreeSegBaseAddr = BaseAddr + SegSize;
               NewFreeSegSize = OldFreeSegTop - NewFreeSegBaseAddr
           in (True, FreeSeg' # Segs, [mk_MemSegment NewFreeSegBaseAddr NewFreeSegSize])
         else if seg_BaseAddr FreeSeg = BaseAddr \<and> getTopAddr FreeSeg \<noteq> BaseAddr + SegSize then
           (True, setBaseAddr (BaseAddr + SegSize) FreeSeg # Segs, [])
         else if seg_BaseAddr FreeSeg \<noteq> BaseAddr \<and> getTopAddr FreeSeg = BaseAddr + SegSize then
           (True, setSize (seg_Size FreeSeg - SegSize) FreeSeg # Segs, [])
         else (True, Segs, []))
      else let (found, Segs', new) = alloc_at_scan BaseAddr SegSize Segs
           in (found, FreeSeg # Segs', new))"

text \<open>The local \<^verbatim>\<open>int ret\<close> keeps the low 32 bits of the base; it is returned as \<^verbatim>\<open>uint64_t\<close>.\<close>

definition AllocMemAt :: "u64 \<Rightarrow> u64 \<Rightarrow> RevSegs \<Rightarrow> (u64 \<times> RevSegs) result" where
  "AllocMemAt BaseAddr SegSize S =
     (let (found, Segs, new) = alloc_at_scan BaseAddr SegSize (s_FreeMemSegs S);
          ret = (if found then ucast BaseAddr else 0 :: u32);
          S1 = S\<lparr>s_FreeMemSegs := Segs @ new\<rparr>
      in if ret \<noteq> 0 then
           (if list_ex (\<lambda>Seg. seg_contains Seg BaseAddr \<or> seg_contains Seg (BaseAddr + SegSize))
                 (s_MemSegs S1)
            then Inl (Fatal ''already allocated'')
            else Inr (scast ret,
                   S1\<lparr>s_MemSegs := s_MemSegs S1 @ [mk_MemSegment BaseAddr SegSize]\<rparr>))
         else Inr (scast ret, S1))"

text \<open>
  \<^verbatim>\<open>DeallocMem\<close>: the loop over \<^verbatim>\<open>MemSegs\<close> (\<open>None\<close> when no segment starts at the base), then
  the merge with the free segment that ends where the freed range starts.
\<close>

fun dealloc_scan :: "u64 \<Rightarrow> u64 \<Rightarrow> MemSegment list \<Rightarrow> MemSegment list option result" where
  "dealloc_scan BaseAddr Size [] = Inr None"
| "dealloc_scan BaseAddr Size (AllocedSeg # Segs) =
     (if seg_BaseAddr AllocedSeg \<noteq> BaseAddr
      then res_bind (dealloc_scan BaseAddr Size Segs) (\<lambda>r. Inr (map_option ((#) AllocedSeg) r))
      else if Size > seg_Size AllocedSeg then Inl (Fatal ''Cannot free beyond the segment bounds'')
      else if Size < seg_Size AllocedSeg
      then Inr (Some (setSize (seg_Size AllocedSeg - Size)
                        (setBaseAddr (BaseAddr + Size) AllocedSeg) # Segs))
      else Inr (Some Segs))"

fun merge_scan :: "u64 \<Rightarrow> u64 \<Rightarrow> MemSegment list \<Rightarrow> MemSegment list option" where
  "merge_scan BaseAddr Size [] = None"
| "merge_scan BaseAddr Size (FreeSeg # Segs) =
     (if seg_contains FreeSeg (BaseAddr - 1)
      then Some (setSize (seg_Size FreeSeg + Size) FreeSeg # Segs)
      else map_option ((#) FreeSeg) (merge_scan BaseAddr Size Segs))"

definition DeallocMem :: "u64 \<Rightarrow> u64 \<Rightarrow> RevSegs \<Rightarrow> (u64 \<times> RevSegs) result" where
  "DeallocMem BaseAddr Size S =
     res_bind (dealloc_scan BaseAddr Size (s_MemSegs S)) (\<lambda>r. case r of
       None \<Rightarrow> Inr (- 1, S)
     | Some Segs \<Rightarrow> Inr (0, S\<lparr>s_MemSegs := Segs,
          s_FreeMemSegs := (case merge_scan BaseAddr Size (s_FreeMemSegs S) of
             Some Free \<Rightarrow> Free
           | None \<Rightarrow> s_FreeMemSegs S @ [mk_MemSegment BaseAddr Size])\<rparr>))"

section \<open>The contract of an allocator\<close>

text \<open>
  An allocator owns a set of live and a set of free addresses. An allocation that fits moves
  a range of the requested size from free to live; freeing a live block moves it back.
\<close>

definition addr_range :: "u64 \<Rightarrow> u64 \<Rightarrow> nat set" where
  "addr_range b n = {unat b ..< unat b + unat n}"

locale region_allocator =
  fixes alloc :: "u64 \<Rightarrow> 's \<Rightarrow> (u64 \<times> 's) result"
    and dealloc :: "u64 \<Rightarrow> u64 \<Rightarrow> 's \<Rightarrow> (u64 \<times> 's) result"
    and live :: "'s \<Rightarrow> nat set"
    and free :: "'s \<Rightarrow> nat set"
    and inv :: "'s \<Rightarrow> bool"
    and fits :: "u64 \<Rightarrow> 's \<Rightarrow> bool"
    and block :: "u64 \<Rightarrow> u64 \<Rightarrow> 's \<Rightarrow> bool"
  assumes apart: "inv s \<Longrightarrow> live s \<inter> free s = {}"
    and alloc_law: "inv s \<Longrightarrow> 0 < n \<Longrightarrow> fits n s \<Longrightarrow> \<exists>b s'. alloc n s = Inr (b, s') \<and> inv s' \<and>
      addr_range b n \<subseteq> free s \<and> live s' = live s \<union> addr_range b n \<and>
      free s' = free s - addr_range b n \<and> block b n s'"
    and dealloc_law: "inv s \<Longrightarrow> 0 < n \<Longrightarrow> block b n s \<Longrightarrow> \<exists>s'. dealloc b n s = Inr (0, s') \<and> inv s' \<and>
      addr_range b n \<subseteq> live s \<and> live s' = live s - addr_range b n \<and>
      free s' = free s \<union> addr_range b n"
begin

text \<open>A new block never overlaps memory that is in use.\<close>

lemma alloc_fresh:
  assumes "inv s" "0 < n" "fits n s"
  shows "\<exists>b s'. alloc n s = Inr (b, s') \<and> inv s' \<and> addr_range b n \<inter> live s = {} \<and>
    live s' = live s \<union> addr_range b n"
  using alloc_law [OF assms] apart [OF assms(1)] by blast

text \<open>Allocating and freeing again gives back the same sets.\<close>

lemma alloc_dealloc:
  assumes "inv s" "0 < n" "fits n s"
  shows "\<exists>b s1 s2. alloc n s = Inr (b, s1) \<and> dealloc b n s1 = Inr (0, s2) \<and>
    inv s2 \<and> live s2 = live s \<and> free s2 = free s"
proof -
  obtain b s1 where s1: "alloc n s = Inr (b, s1)" "inv s1" "addr_range b n \<subseteq> free s"
    "live s1 = live s \<union> addr_range b n" "free s1 = free s - addr_range b n" "block b n s1"
    using alloc_law [OF assms] by blast
  obtain s2 where s2: "dealloc b n s1 = Inr (0, s2)" "inv s2"
    "live s2 = live s1 - addr_range b n" "free s2 = free s1 \<union> addr_range b n"
    using dealloc_law [OF s1(2) assms(2) s1(6)] by blast
  have "live s2 = live s" "free s2 = free s"
    using s1 s2 apart [OF assms(1)] by auto
  then show ?thesis using s1(1) s2(1,2) by blast
qed

text \<open>The memory owned by the allocator is neither lost nor invented.\<close>

lemma alloc_conserves:
  assumes "inv s" "0 < n" "fits n s" "alloc n s = Inr (b, s')"
  shows "live s' \<union> free s' = live s \<union> free s"
  using alloc_law [OF assms(1-3)] assms(4) by auto

end

section \<open>Lemmas\<close>

text \<open>
  A segment in normal form is not empty, does not wrap around the address space, and has its
  cached top up to date; a list of segments in normal form is pairwise disjoint.
\<close>

definition seg_ok :: "MemSegment \<Rightarrow> bool" where
  "seg_ok s \<longleftrightarrow> 0 < seg_Size s \<and> unat (seg_BaseAddr s) + unat (seg_Size s) < 2 ^ 64 \<and>
     seg_TopAddr s = seg_BaseAddr s + seg_Size s"

definition seg_range :: "MemSegment \<Rightarrow> nat set" where
  "seg_range s = addr_range (seg_BaseAddr s) (seg_Size s)"

definition segs_addrs :: "MemSegment list \<Rightarrow> nat set" where
  "segs_addrs ss = (\<Union>s \<in> set ss. seg_range s)"

fun segs_ok :: "MemSegment list \<Rightarrow> bool" where
  "segs_ok [] = True"
| "segs_ok (s # ss) = (seg_ok s \<and> seg_range s \<inter> segs_addrs ss = {} \<and> segs_ok ss)"

lemma segs_addrs_simps [simp]:
  "segs_addrs [] = {}"
  "segs_addrs (s # ss) = seg_range s \<union> segs_addrs ss"
  "segs_addrs (ss @ ts) = segs_addrs ss \<union> segs_addrs ts"
  by (auto simp: segs_addrs_def)

lemma segs_ok_append [simp]:
  "segs_ok (ss @ ts) \<longleftrightarrow> segs_ok ss \<and> segs_ok ts \<and> segs_addrs ss \<inter> segs_addrs ts = {}"
  by (induction ss) auto

lemma unat_add_ok:
  fixes a b :: u64
  assumes "unat a + unat b < 2 ^ 64"
  shows "unat (a + b) = unat a + unat b"
  using assms by (simp add: unat_word_ariths)

lemma unat_sub_ok:
  fixes a b :: u64
  assumes "b \<le> a"
  shows "unat (a - b) = unat a - unat b"
  using assms by (simp add: unat_sub)

lemma seg_ok_mk [simp]:
  "seg_ok (mk_MemSegment b n) \<longleftrightarrow> 0 < n \<and> unat b + unat n < 2 ^ 64"
  by (simp add: seg_ok_def mk_MemSegment_def)

lemma seg_range_mk [simp]: "seg_range (mk_MemSegment b n) = addr_range b n"
  by (simp add: seg_range_def mk_MemSegment_def)

lemma seg_contains_range_iff:
  assumes "seg_ok s"
  shows "seg_contains s v \<longleftrightarrow> unat v \<in> seg_range s"
  using assms unat_add_ok [of "seg_BaseAddr s" "seg_Size s"]
  by (auto simp: seg_ok_def seg_contains_def seg_range_def addr_range_def word_le_nat_alt
      word_less_nat_alt)

text \<open>Cutting \<open>n\<close> bytes off the front of a segment, as \<^verbatim>\<open>AllocMem\<close> and \<^verbatim>\<open>DeallocMem\<close> do.\<close>

lemma seg_cut_front:
  assumes "seg_ok s" "n < seg_Size s"
  shows "seg_ok (setSize (seg_Size s - n) (setBaseAddr (seg_BaseAddr s + n) s))" (is "seg_ok ?s")
    and "seg_range (setSize (seg_Size s - n) (setBaseAddr (seg_BaseAddr s + n) s)) =
      seg_range s - addr_range (seg_BaseAddr s) n"
    and "addr_range (seg_BaseAddr s) n \<subseteq> seg_range s"
    and "unat (seg_BaseAddr s) + unat n < 2 ^ 64"
proof -
  have lt: "unat n < unat (seg_Size s)" using assms(2) by (simp add: word_less_nat_alt)
  have b: "unat (seg_BaseAddr s + n) = unat (seg_BaseAddr s) + unat n"
    using assms(1) lt by (intro unat_add_ok) (simp add: seg_ok_def)
  have z: "unat (seg_Size s - n) = unat (seg_Size s) - unat n"
    using assms(2) by (intro unat_sub_ok) simp
  have f: "seg_BaseAddr ?s = seg_BaseAddr s + n" "seg_Size ?s = seg_Size s - n"
    "seg_TopAddr ?s = seg_BaseAddr s + n + (seg_Size s - n)"
    by (simp_all add: setSize_def setBaseAddr_def Let_def)
  show "seg_ok ?s"
    using assms(1) lt b z unfolding seg_ok_def f by (simp add: word_less_nat_alt)
  show "seg_range ?s = seg_range s - addr_range (seg_BaseAddr s) n"
    using lt b z unfolding seg_range_def f by (auto simp: addr_range_def)
  show "addr_range (seg_BaseAddr s) n \<subseteq> seg_range s"
    using lt by (auto simp: addr_range_def seg_range_def)
  show "unat (seg_BaseAddr s) + unat n < 2 ^ 64"
    using assms(1) lt by (simp add: seg_ok_def)
qed

text \<open>Growing a segment at its top, as the merge in \<^verbatim>\<open>DeallocMem\<close> does.\<close>

lemma seg_grow:
  assumes "seg_ok s" "unat (seg_BaseAddr s) + unat (seg_Size s) = unat b" "unat b + unat n < 2 ^ 64"
  shows "seg_ok (setSize (seg_Size s + n) s)"
    and "seg_range (setSize (seg_Size s + n) s) = seg_range s \<union> addr_range b n"
proof -
  have z: "unat (seg_Size s + n) = unat (seg_Size s) + unat n"
    using assms by (intro unat_add_ok) simp
  show "seg_ok (setSize (seg_Size s + n) s)"
    using assms z by (auto simp: seg_ok_def setSize_def word_less_nat_alt add.assoc)
  show "seg_range (setSize (seg_Size s + n) s) = seg_range s \<union> addr_range b n"
    using assms z by (auto simp: seg_range_def setSize_def addr_range_def)
qed

text \<open>The loops, on lists in normal form.\<close>

lemma first_fit_ok:
  assumes "segs_ok ss" "0 < n" "first_fit n ss = Some (b, ss')"
  shows "unat b + unat n < 2 ^ 64 \<and> addr_range b n \<subseteq> segs_addrs ss \<and> segs_ok ss' \<and>
    segs_addrs ss' = segs_addrs ss - addr_range b n"
  using assms
proof (induction ss arbitrary: ss')
  case Nil
  then show ?case by simp
next
  case (Cons s ss)
  have ok: "seg_ok s" "seg_range s \<inter> segs_addrs ss = {}" "segs_ok ss" using Cons.prems(1) by auto
  consider (big) "n < seg_Size s" | (exact) "n = seg_Size s" | (small) "seg_Size s < n" by force
  then show ?case
  proof cases
    case big
    with Cons.prems(3) have b: "b = seg_BaseAddr s"
      "ss' = setSize (seg_Size s - n) (setBaseAddr (seg_BaseAddr s + n) s) # ss" by auto
    show ?thesis using seg_cut_front [OF ok(1) big] ok(2,3) unfolding b by auto
  next
    case exact
    with Cons.prems(3) have "b = seg_BaseAddr s" "ss' = ss" by auto
    then show ?thesis using ok exact by (auto simp: seg_ok_def seg_range_def)
  next
    case small
    then have "\<not> n < seg_Size s" "n \<noteq> seg_Size s" by auto
    with Cons.prems(3) obtain ss1 where
      "first_fit n ss = Some (b, ss1)" "ss' = s # ss1" by auto
    then show ?thesis using Cons.IH [OF ok(3) Cons.prems(2)] ok(1,2) by auto
  qed
qed

lemma first_fit_finds:
  "list_ex (\<lambda>s. n \<le> seg_Size s) ss \<Longrightarrow> \<exists>b ss'. first_fit n ss = Some (b, ss')"
  by (induction ss) (auto simp: Let_def)

lemma dealloc_scan_ok:
  assumes "segs_ok ss" "0 < n" "dealloc_scan b n ss = Inr (Some ss')"
  shows "unat b + unat n < 2 ^ 64 \<and> addr_range b n \<subseteq> segs_addrs ss \<and> segs_ok ss' \<and>
    segs_addrs ss' = segs_addrs ss - addr_range b n"
  using assms
proof (induction ss arbitrary: ss')
  case Nil
  then show ?case by simp
next
  case (Cons s ss)
  have ok: "seg_ok s" "seg_range s \<inter> segs_addrs ss = {}" "segs_ok ss" using Cons.prems(1) by auto
  show ?case
  proof (cases "seg_BaseAddr s = b")
    case True
    with Cons.prems(3) consider (part) "n < seg_Size s"
        "ss' = setSize (seg_Size s - n) (setBaseAddr (seg_BaseAddr s + n) s) # ss"
      | (whole) "n = seg_Size s" "ss' = ss"
      by (auto split: if_splits)
    then show ?thesis
    proof cases
      case part
      show ?thesis using seg_cut_front [OF ok(1) part(1)] ok(2,3) True unfolding part(2) by auto
    next
      case whole
      then show ?thesis using ok True by (auto simp: seg_ok_def seg_range_def)
    qed
  next
    case False
    with Cons.prems(3) obtain ss1 where
      "dealloc_scan b n ss = Inr (Some ss1)" "ss' = s # ss1"
      by (auto simp: res_bind_eq_Inr)
    then show ?thesis using Cons.IH [OF ok(3) Cons.prems(2)] ok(1,2) by auto
  qed
qed

lemma merge_scan_ok:
  assumes "segs_ok fs" "0 < n" "unat b + unat n < 2 ^ 64" "addr_range b n \<inter> segs_addrs fs = {}"
    and "merge_scan b n fs = Some fs'"
  shows "segs_ok fs' \<and> segs_addrs fs' = segs_addrs fs \<union> addr_range b n"
  using assms
proof (induction fs arbitrary: fs')
  case Nil
  then show ?case by simp
next
  case (Cons s fs)
  have ok: "seg_ok s" "seg_range s \<inter> segs_addrs fs = {}" "segs_ok fs" using Cons.prems(1) by auto
  have dis: "addr_range b n \<inter> seg_range s = {}" using Cons.prems(4) by auto
  have n: "0 < unat n" using Cons.prems(2) by (simp add: word_less_nat_alt)
  show ?case
  proof (cases "seg_contains s (b - 1)")
    case True
    then have mem: "unat (b - 1) \<in> seg_range s" using seg_contains_range_iff [OF ok(1)] by simp
    have "b \<noteq> 0"
    proof
      assume "b = 0"
      then have "unat (b - 1) = 2 ^ 64 - 1" by (simp add: unsigned_minus_1_eq_mask mask_eq_exp_minus_1)
      then show False using mem ok(1) by (auto simp: seg_range_def addr_range_def seg_ok_def)
    qed
    then have b1: "unat (b - 1) = unat b - 1" "0 < unat b"
      by (simp_all add: unat_minus_one unat_gt_0)
    have "unat b \<in> addr_range b n" using n by (simp add: addr_range_def)
    then have "unat b \<notin> seg_range s" using dis by blast
    then have top: "unat (seg_BaseAddr s) + unat (seg_Size s) = unat b"
      using mem b1 by (auto simp: seg_range_def addr_range_def)
    have "fs' = setSize (seg_Size s + n) s # fs" using Cons.prems(5) True by simp
    then show ?thesis
      using seg_grow [OF ok(1) top Cons.prems(3)] ok Cons.prems(4) by auto
  next
    case False
    with Cons.prems(5) obtain fs1 where "merge_scan b n fs = Some fs1" "fs' = s # fs1" by auto
    then show ?thesis
      using Cons.IH [OF ok(3) Cons.prems(2,3)] Cons.prems(4) ok(1,2) by auto
  qed
qed

text \<open>The allocator's invariant and its abstraction.\<close>

definition heap_inv :: "RevSegs \<Rightarrow> bool" where
  "heap_inv S \<longleftrightarrow> segs_ok (s_MemSegs S) \<and> segs_ok (s_FreeMemSegs S) \<and>
     segs_addrs (s_MemSegs S) \<inter> segs_addrs (s_FreeMemSegs S) = {}"

definition heap_live :: "RevSegs \<Rightarrow> nat set" where
  "heap_live S = segs_addrs (s_MemSegs S)"

definition heap_free :: "RevSegs \<Rightarrow> nat set" where
  "heap_free S = segs_addrs (s_FreeMemSegs S)"

definition heap_fits :: "u64 \<Rightarrow> RevSegs \<Rightarrow> bool" where
  "heap_fits n S = list_ex (\<lambda>s. n \<le> seg_Size s) (s_FreeMemSegs S)"

text \<open>A block that can be freed is the front of a live segment.\<close>

definition heap_block :: "u64 \<Rightarrow> u64 \<Rightarrow> RevSegs \<Rightarrow> bool" where
  "heap_block b n S = list_ex (\<lambda>s. seg_BaseAddr s = b \<and> n \<le> seg_Size s) (s_MemSegs S)"

lemmas heap_defs = heap_inv_def heap_live_def heap_free_def

lemma AllocMem_ok:
  assumes "heap_inv S" "0 < n" "heap_fits n S"
  shows "\<exists>b S'. AllocMem n S = Inr (b, S') \<and> heap_inv S' \<and>
      addr_range b n \<subseteq> heap_free S \<and> heap_live S' = heap_live S \<union> addr_range b n \<and>
      heap_free S' = heap_free S - addr_range b n \<and> heap_block b n S'"
proof -
  obtain b ss where ff: "first_fit n (s_FreeMemSegs S) = Some (b, ss)"
    using first_fit_finds assms(3) unfolding heap_fits_def by blast
  have "segs_ok (s_FreeMemSegs S)" using assms(1) by (simp add: heap_inv_def)
  note f = first_fit_ok [OF this assms(2) ff]
  let ?S = "S\<lparr>s_FreeMemSegs := ss, s_MemSegs := s_MemSegs S @ [mk_MemSegment b n]\<rparr>"
  have "AllocMem n S = Inr (b, ?S)" using ff by (simp add: AllocMem_def)
  moreover have "heap_inv ?S" using f assms(1,2) by (auto simp: heap_defs)
  moreover have "heap_block b n ?S" by (simp add: heap_block_def mk_MemSegment_def)
  ultimately show ?thesis using f by (auto simp: heap_defs)
qed

lemma dealloc_scan_finds:
  assumes "segs_ok ss" "0 < n" "list_ex (\<lambda>s. seg_BaseAddr s = b \<and> n \<le> seg_Size s) ss"
  shows "\<exists>ss'. dealloc_scan b n ss = Inr (Some ss')"
  using assms
proof (induction ss)
  case Nil
  then show ?case by simp
next
  case (Cons s ss)
  show ?case
  proof (cases "seg_BaseAddr s = b \<and> n \<le> seg_Size s")
    case True
    then show ?thesis by auto
  next
    case False
    then have ex: "list_ex (\<lambda>s. seg_BaseAddr s = b \<and> n \<le> seg_Size s) ss" using Cons.prems(3) by auto
    then obtain t where t: "t \<in> set ss" "seg_BaseAddr t = b" "n \<le> seg_Size t"
      by (auto simp: list_ex_iff)
    have "0 < unat (seg_Size t)" using t(3) Cons.prems(2) by (simp add: word_less_nat_alt word_le_nat_alt)
    then have "unat b \<in> segs_addrs ss"
      using t by (force simp: segs_addrs_def seg_range_def addr_range_def)
    moreover have "0 < unat (seg_Size s)" "seg_range s \<inter> segs_addrs ss = {}"
      using Cons.prems(1) by (auto simp: seg_ok_def word_less_nat_alt)
    ultimately have "seg_BaseAddr s \<noteq> b" by (force simp: seg_range_def addr_range_def)
    then show ?thesis using Cons.IH Cons.prems(1,2) ex by auto
  qed
qed

lemma DeallocMem_ok:
  assumes "heap_inv S" "0 < n" "heap_block b n S"
  shows "\<exists>S'. DeallocMem b n S = Inr (0, S') \<and> heap_inv S' \<and>
      addr_range b n \<subseteq> heap_live S \<and> heap_live S' = heap_live S - addr_range b n \<and>
      heap_free S' = heap_free S \<union> addr_range b n"
proof -
  have ok: "segs_ok (s_MemSegs S)" "segs_ok (s_FreeMemSegs S)" using assms(1) by (simp_all add: heap_inv_def)
  obtain ss where ds: "dealloc_scan b n (s_MemSegs S) = Inr (Some ss)"
    using dealloc_scan_finds [OF ok(1) assms(2)] assms(3) unfolding heap_block_def by blast
  note d = dealloc_scan_ok [OF ok(1) assms(2) ds]
  then have dis: "addr_range b n \<inter> segs_addrs (s_FreeMemSegs S) = {}"
    using assms(1) by (auto simp: heap_inv_def)
  show ?thesis
  proof (cases "merge_scan b n (s_FreeMemSegs S)")
    case None
    then show ?thesis using ds d dis assms(1,2) by (auto simp: DeallocMem_def heap_defs)
  next
    case (Some fs)
    have "segs_ok fs \<and> segs_addrs fs = segs_addrs (s_FreeMemSegs S) \<union> addr_range b n"
      using merge_scan_ok [OF ok(2) assms(2) _ dis Some] d by blast
    then show ?thesis using ds d dis assms(1) Some by (auto simp: DeallocMem_def heap_defs)
  qed
qed

interpretation heap: region_allocator AllocMem DeallocMem heap_live heap_free heap_inv heap_fits heap_block
  by unfold_locales (use AllocMem_ok DeallocMem_ok in \<open>auto simp: heap_defs\<close>)

text \<open>Thread memory grows down from the top, every segment above the next free address.\<close>

definition thread_inv :: "RevSegs \<Rightarrow> bool" where
  "thread_inv S \<longleftrightarrow> segs_ok (s_ThreadMemSegs S) \<and>
     (\<forall>a \<in> segs_addrs (s_ThreadMemSegs S). unat (s_NextThreadMemAddr S) + unat pageSize < a)"

lemma AddThreadMem_fields:
  assumes "AddThreadMem S = (Seg, S')"
  shows "Seg = mk_MemSegment (s_NextThreadMemAddr S - s_ThreadMemSize S) (s_ThreadMemSize S)"
    and "s_ThreadMemSegs S' = s_ThreadMemSegs S @ [Seg]"
    and "s_NextThreadMemAddr S' = s_NextThreadMemAddr S - s_ThreadMemSize S - ucast pageSize - 1"
  using assms by (auto simp: AddThreadMem_def Let_def)

section \<open>Properties\<close>

text \<open>
  C19: \<^verbatim>\<open>AllocMem\<close> served from the free list hands out memory that is not in use: it returns
  normally, the block is disjoint from every allocated segment, it is taken out of the free
  segments and added to the allocated ones, and the segments stay pairwise disjoint,
  non-empty and inside the address space.
\<close>

theorem AllocMem_fresh_block:
  assumes "heap_inv S" "0 < SegSize" "heap_fits SegSize S"
  shows "\<exists>b S'. AllocMem SegSize S = Inr (b, S') \<and> heap_inv S' \<and>
    addr_range b SegSize \<inter> heap_live S = {} \<and>
    heap_live S' = heap_live S \<union> addr_range b SegSize \<and>
    heap_live S' \<union> heap_free S' = heap_live S \<union> heap_free S"
proof -
  obtain b S' where A: "AllocMem SegSize S = Inr (b, S')" "heap_inv S'"
    "addr_range b SegSize \<inter> heap_live S = {}" "heap_live S' = heap_live S \<union> addr_range b SegSize"
    using heap.alloc_fresh [OF assms] by blast
  then show ?thesis using heap.alloc_conserves [OF assms A(1)] by blast
qed

text \<open>A core with 64 KiB of memory whose heap starts at 0x101.\<close>

definition heap_example :: RevSegs where
  "heap_example = (RevSegs_init 0x10000 0x4000 (0, 0, 0))
     \<lparr>s_FreeMemSegs := [mk_MemSegment 0x101 0x4000], s_heapend := 0x101, s_heapstart := 0x101\<rparr>"

lemma heap_example_InitHeap:
  "InitHeap 0x100 (RevSegs_init 0x10000 0x4000 (0, 0, 0)) = Inr heap_example"
  by (simp add: InitHeap_def heap_example_def RevSegs_init_def AddMemSegAt_def)

lemma heap_example_inv: "heap_inv heap_example" "heap_fits 0x40 heap_example"
  by (auto simp: heap_inv_def heap_fits_def heap_example_def RevSegs_init_def AddMemSegAt_def
      addr_range_def mk_MemSegment_def seg_ok_def seg_range_def)

theorem AllocMem_fresh_block_witness:
  "\<exists>b S'. AllocMem 0x40 heap_example = Inr (b, S') \<and>
     addr_range b 0x40 \<inter> heap_live heap_example = {}"
  using AllocMem_fresh_block [OF heap_example_inv(1) _ heap_example_inv(2)] by auto

text \<open>
  C20: \<^verbatim>\<open>DeallocMem\<close> undoes \<^verbatim>\<open>AllocMem\<close>: freeing a block just allocated succeeds and gives
  back exactly the addresses that were allocated and free before, whether the freed block is
  merged with the free segment below it or becomes a free segment of its own.
\<close>

theorem AllocMem_DeallocMem_roundtrip:
  assumes "heap_inv S" "0 < SegSize" "heap_fits SegSize S"
  shows "\<exists>b S1 S2. AllocMem SegSize S = Inr (b, S1) \<and> DeallocMem b SegSize S1 = Inr (0, S2) \<and>
    heap_inv S2 \<and> heap_live S2 = heap_live S \<and> heap_free S2 = heap_free S"
  by (rule heap.alloc_dealloc [OF assms])

theorem AllocMem_DeallocMem_roundtrip_witness:
  "\<exists>b S1 S2. AllocMem 0x40 heap_example = Inr (b, S1) \<and> DeallocMem b 0x40 S1 = Inr (0, S2) \<and>
     heap_free S2 = heap_free heap_example"
  using AllocMem_DeallocMem_roundtrip [OF heap_example_inv(1) _ heap_example_inv(2)] by fastforce

text \<open>
  when no free segment is large enough, \<^verbatim>\<open>AllocMem\<close> falls back to the end of the heap,
  which \<^verbatim>\<open>InitHeap\<close> leaves at the start of the free segment it creates: a second allocation
  gets the base address of the first one, and the two overlap.
\<close>

theorem AllocMem_fallback_overlaps:
  "\<exists>S1 S2. AllocMem 0x3FF0 heap_example = Inr (0x101, S1) \<and>
     AllocMem 0x20 S1 = Inr (0x101, S2) \<and>
     addr_range 0x101 0x20 \<subseteq> addr_range 0x101 0x3FF0"
  by (simp add: AllocMem_def heap_example_def RevSegs_init_def AddMemSegAt_def mk_MemSegment_def
      setSize_def setBaseAddr_def ExpandHeap_def addr_range_def)

text \<open>
  \<^verbatim>\<open>AllocMemAt\<close> at the front of a free segment moves the base of what remains without
  reducing its size, so the remaining free segment reaches as far beyond the old end as the
  allocation is long, for every free segment and every size smaller than it.
\<close>

theorem AllocMemAt_front_grows_free:
  assumes "seg_ok f" "0 < n" "n < seg_Size f"
  shows "alloc_at_scan (seg_BaseAddr f) n [f] =
    (True, [mk_MemSegment (seg_BaseAddr f + n) (seg_Size f)], [])"
proof -
  have "seg_contains_range f (seg_BaseAddr f) n"
  proof -
    have lt: "0 < unat n" "unat n < unat (seg_Size f)"
      using assms(2,3) by (simp_all add: word_less_nat_alt)
    have u: "unat (seg_BaseAddr f + n) = unat (seg_BaseAddr f) + unat n"
      using assms(1) lt by (intro unat_add_ok) (simp add: seg_ok_def)
    then have "seg_BaseAddr f + n \<noteq> 0" using lt by (metis add_is_0 less_irrefl unat_0)
    then have "unat (seg_BaseAddr f + n - 1) = unat (seg_BaseAddr f) + unat n - 1"
      using u by (simp add: unat_minus_one)
    then show ?thesis
      using lt assms(1)
      by (simp add: seg_contains_range_def seg_contains_range_iff seg_range_def addr_range_def) linarith
  qed
  moreover have "getTopAddr f \<noteq> seg_BaseAddr f + n" using assms(3) by (auto simp: getTopAddr_def)
  moreover have "setBaseAddr (seg_BaseAddr f + n) f = mk_MemSegment (seg_BaseAddr f + n) (seg_Size f)"
    using assms(2,3) by (cases f) (auto simp: setBaseAddr_def mk_MemSegment_def Let_def)
  ultimately show ?thesis by simp
qed

theorem AllocMemAt_front_grows_free_witness:
  "alloc_at_scan 0x1000 0x100 [mk_MemSegment 0x1000 0x400] =
     (True, [mk_MemSegment 0x1100 0x400], [])"
  using AllocMemAt_front_grows_free [of "mk_MemSegment 0x1000 0x400" "0x100"]
  by (simp add: mk_MemSegment_def seg_ok_def)

text \<open>
  C37: every thread gets memory of its own: while the addresses do not run below zero,
  \<^verbatim>\<open>AddThreadMem\<close> returns a segment of the configured size that is disjoint from the memory
  of all earlier threads, with more than a page left unmapped between two of them.
\<close>

theorem AddThreadMem_disjoint:
  assumes "thread_inv S" "AddThreadMem S = (Seg, S')" "0 < s_ThreadMemSize S"
    and "unat (s_ThreadMemSize S) + unat pageSize < unat (s_NextThreadMemAddr S)"
  shows "thread_inv S' \<and> seg_range Seg \<inter> segs_addrs (s_ThreadMemSegs S) = {} \<and>
    seg_Size Seg = s_ThreadMemSize S \<and>
    (\<forall>a \<in> seg_range Seg. \<forall>c \<in> segs_addrs (s_ThreadMemSegs S). a + unat pageSize < c)"
proof -
  let ?n = "s_NextThreadMemAddr S" and ?z = "s_ThreadMemSize S"
  let ?p = "ucast pageSize :: u64"
  have p: "unat ?p = unat pageSize" "unat pageSize = 262144" by (simp_all add: pageSize_def)
  have z: "unat (?n - ?z) = unat ?n - unat ?z"
    using assms(4) by (intro unat_sub_ok) (simp add: word_le_nat_alt)
  have z1: "unat (?n - ?z - ?p) = unat ?n - unat ?z - unat pageSize"
    using assms(4) z p by (subst unat_sub_ok) (simp_all add: word_le_nat_alt)
  have z2: "unat (?n - ?z - ?p - 1) = unat ?n - unat ?z - unat pageSize - 1"
    using assms(4) z1 by (subst unat_sub_ok) (simp_all add: word_le_nat_alt)
  note f = AddThreadMem_fields [OF assms(2)]
  have r: "seg_range Seg = {unat ?n - unat ?z ..< unat ?n}"
    using assms(4) z by (auto simp: f(1) addr_range_def)
  have lt: "unat ?n < 2 ^ 64" using unsigned_less [of ?n] by simp
  have above: "\<forall>a \<in> segs_addrs (s_ThreadMemSegs S). unat ?n + unat pageSize < a"
    using assms(1) by (simp add: thread_inv_def)
  have gap: "\<forall>a \<in> seg_range Seg. \<forall>c \<in> segs_addrs (s_ThreadMemSegs S). a + unat pageSize < c"
    using above by (force simp: r)
  then have dis: "seg_range Seg \<inter> segs_addrs (s_ThreadMemSegs S) = {}" by force
  have "seg_ok Seg" using assms(3,4) z lt by (simp add: f(1))
  moreover have "\<forall>a \<in> segs_addrs (s_ThreadMemSegs S'). unat (s_NextThreadMemAddr S') + unat pageSize < a"
    using above assms(4) z2 by (fastforce simp: f(2,3) r)
  ultimately have "thread_inv S'" using assms(1) dis by (auto simp: thread_inv_def f(2))
  then show ?thesis using dis gap by (simp add: f(1) mk_MemSegment_def)
qed

theorem AddThreadMem_disjoint_witness:
  "seg_range (fst (AddThreadMem (RevSegs_init 0x40000000 0 (0, 0, 0)))) \<noteq> {} \<and>
   thread_inv (snd (AddThreadMem (RevSegs_init 0x40000000 0 (0, 0, 0))))"
proof -
  let ?S = "RevSegs_init 0x40000000 0 (0, 0, 0)"
  have "thread_inv ?S" "0 < s_ThreadMemSize ?S"
    "unat (s_ThreadMemSize ?S) + unat pageSize < unat (s_NextThreadMemAddr ?S)"
    by (simp_all add: thread_inv_def RevSegs_init_def AddMemSegAt_def STACK_SIZE_def pageSize_def)
  from AddThreadMem_disjoint [OF this(1) _ this(2,3), of "fst (AddThreadMem ?S)" "snd (AddThreadMem ?S)"]
  have "thread_inv (snd (AddThreadMem ?S))" by simp
  moreover have "seg_range (fst (AddThreadMem ?S)) \<noteq> {}"
    by (simp add: AddThreadMem_def RevSegs_init_def AddMemSegAt_def STACK_SIZE_def addr_range_def
        Let_def)
  ultimately show ?thesis by blast
qed

text \<open>
  \<^verbatim>\<open>AddRoundedMemSeg\<close> called with a range whose top lies in an existing segment moves
  that segment down instead of extending it: it keeps its size, so the bytes at its old top
  are no longer valid addresses.
\<close>

theorem AddRoundedMemSeg_loses_top:
  "\<exists>S'. AddRoundedMemSeg 0x1000 0x1800 0x10 (RevSegs_init 0x10000 0 (0, 0, 0)
       \<lparr>s_MemSegs := [mk_MemSegment 0x2000 0x1000]\<rparr>) = Inr (0x1000, S') \<and>
     s_MemSegs S' = [mk_MemSegment 0x1000 0x1000] \<and>
     isValidVirtAddr 0x2FFF (RevSegs_init 0x10000 0 (0, 0, 0)
       \<lparr>s_MemSegs := [mk_MemSegment 0x2000 0x1000]\<rparr>) \<and> \<not> isValidVirtAddr 0x2FFF S'"
  by (simp add: AddRoundedMemSeg_def RoundedSize_def mk_MemSegment_def seg_contains_def
      setBaseAddr_def setSize_def isValidVirtAddr_def RevSegs_init_def AddMemSegAt_def Let_def)

end
