(* ===== verification/Rev_Mem.thy ===== *)
theory Rev_Mem
  imports Rev_TLB Rev_Segments
begin

text \<open>
  \<^verbatim>\<open>src/RevMem.cc\<close> without a memory controller (\<^verbatim>\<open>ctrl == nullptr\<close>): pages allocated at
  first touch, translation through the TLB and the page map, byte reads and writes that may
  cross a page, and the future reservations. The locale \<open>byte_memory\<close> states what a memory
  promises; \<^verbatim>\<open>ReadMem\<close> and \<^verbatim>\<open>WriteMem\<close> are an interpretation of it.
\<close>

section \<open>State\<close>

text \<open>
  \<^verbatim>\<open>physMem\<close> is an array of \<^verbatim>\<open>memSize\<close> bytes; it is a function here, and every access checks
  the bound, an access outside being undefined behaviour. The last component of an \<^verbatim>\<open>LRSC\<close>
  entry, a pointer into the register file of the entry's hart, is a byte offset into it.
  \<open>m_ApplyAMO\<close> is no member of the class: it stands for the static tables of \<^verbatim>\<open>ApplyAMO\<close>, one for each
  type that the template is used with, and lists the sizes of the types whose table has been built.
\<close>

record RevMem =
  m_tlb :: RevTLB
  m_segs :: RevSegs
  m_physMem :: "u64 \<Rightarrow> u8"
  m_pageMap :: "u64 \<Rightarrow> (u32 \<times> bool) option"
  m_nextPage :: u32
  m_FutureRes :: "u64 list"
  m_LRSC :: "(u32 \<times> u64 \<times> u32 \<times> nat) list"
  m_bytesRead :: u64
  m_bytesWritten :: u64
  m_ApplyAMO :: "nat list"

definition addrShift :: nat where
  "addrShift = nat (lg32 pageSize)"

text \<open>The constructor, with \<^verbatim>\<open>SetTLBSize\<close> and \<^verbatim>\<open>SetMaxHeapSize\<close> already applied.\<close>

definition RevMem_init :: "u64 \<Rightarrow> u32 \<Rightarrow> u32 \<Rightarrow> u64 \<times> u64 \<times> u64 \<Rightarrow> RevMem" where
  "RevMem_init MemSize tlbSize maxHeap heap =
     \<lparr>m_tlb = SetTLBSize tlbSize RevTLB_init, m_segs = RevSegs_init MemSize maxHeap heap,
      m_physMem = (\<lambda>_. 0), m_pageMap = (\<lambda>_. None), m_nextPage = 0, m_FutureRes = [],
      m_LRSC = [], m_bytesRead = 0, m_bytesWritten = 0, m_ApplyAMO = []\<rparr>"

section \<open>Future reservations\<close>

definition SetFuture :: "u64 \<Rightarrow> RevMem \<Rightarrow> bool \<times> RevMem" where
  "SetFuture Addr M = (True, M\<lparr>m_FutureRes := remdups_adj (sort (m_FutureRes M @ [Addr]))\<rparr>)"

definition RevokeFuture :: "u64 \<Rightarrow> RevMem \<Rightarrow> bool \<times> RevMem" where
  "RevokeFuture Addr M =
     (if Addr \<in> set (m_FutureRes M) then (True, M\<lparr>m_FutureRes := remove1 Addr (m_FutureRes M)\<rparr>)
      else (False, M))"

definition StatusFuture :: "u64 \<Rightarrow> RevMem \<Rightarrow> bool" where
  "StatusFuture Addr M = (Addr \<in> set (m_FutureRes M))"

section \<open>Translation\<close>

text \<open>
  \<^verbatim>\<open>(nextPage << addrShift) + ((pageSize - 1) & vAddr)\<close>: the shift is done on 32 bits, the
  sum on 64.
\<close>

definition page_paddr :: "u32 \<Rightarrow> u64 \<Rightarrow> u64" where
  "page_paddr page vAddr = ucast (push_bit addrShift page) + (ucast (pageSize - 1) AND vAddr)"

definition CalcPhysAddr :: "u64 \<Rightarrow> u64 \<Rightarrow> RevMem \<Rightarrow> (u64 \<times> RevMem) result" where
  "CalcPhysAddr pageNum vAddr M =
     res_bind (SearchTLB vAddr (m_tlb M)) (\<lambda>(physAddr, T).
     let M1 = M\<lparr>m_tlb := T\<rparr> in
     if physAddr = INVALID_ADDR then
       (if isValidVirtAddr vAddr (m_segs M1) then
          let (physAddr', M2) =
            (case m_pageMap M1 pageNum of
               None \<Rightarrow> (page_paddr (m_nextPage M1) vAddr,
                         M1\<lparr>m_pageMap := (m_pageMap M1)(pageNum \<mapsto> (m_nextPage M1, True)),
                            m_nextPage := m_nextPage M1 + 1\<rparr>)
             | Some (page, _) \<Rightarrow> (page_paddr page vAddr, M1))
          in res_bind (AddToTLB vAddr physAddr' (m_tlb M2)) (\<lambda>T2.
             Inr (physAddr', M2\<lparr>m_tlb := T2\<rparr>))
        else Inl (Fatal ''Segmentation Fault''))
     else Inr (physAddr, M1))"

text \<open>\<^verbatim>\<open>pageMap[pageNum].first\<close>: the subscript of a map inserts a default entry.\<close>

definition pageMap_first :: "u64 \<Rightarrow> RevMem \<Rightarrow> u32 \<times> RevMem" where
  "pageMap_first pageNum M =
     (case m_pageMap M pageNum of
        Some (page, _) \<Rightarrow> (page, M)
      | None \<Rightarrow> (0, M\<lparr>m_pageMap := (m_pageMap M)(pageNum \<mapsto> (0, False))\<rparr>))"

section \<open>Physical accesses\<close>

definition phys_ok :: "u64 \<Rightarrow> nat \<Rightarrow> RevMem \<Rightarrow> bool" where
  "phys_ok p n M = (n = 0 \<or> unat p + n \<le> unat (s_memSize (m_segs M)))"

definition phys_read :: "u64 \<Rightarrow> nat \<Rightarrow> RevMem \<Rightarrow> u8 list result" where
  "phys_read p n M =
     (if phys_ok p n M then Inr (map (\<lambda>i. m_physMem M (p + of_nat i)) [0..<n])
      else Inl (Undefined ''physMem: read out of bounds''))"

fun store_bytes :: "u64 \<Rightarrow> u8 list \<Rightarrow> (u64 \<Rightarrow> u8) \<Rightarrow> u64 \<Rightarrow> u8" where
  "store_bytes p [] f = f"
| "store_bytes p (b # bs) f = store_bytes (p + 1) bs (f(p := b))"

definition phys_write :: "u64 \<Rightarrow> u8 list \<Rightarrow> RevMem \<Rightarrow> RevMem result" where
  "phys_write p bs M =
     (if phys_ok p (length bs) M then Inr (M\<lparr>m_physMem := store_bytes p bs (m_physMem M)\<rparr>)
      else Inl (Undefined ''physMem: write out of bounds''))"

section \<open>Reads and writes\<close>

text \<open>
  The arithmetic common to every access. \<open>End\<close> is \<^verbatim>\<open>endOfPage\<close>, computed on 32 bits and then
  widened; \<open>split_access\<close> is \<open>None\<close> when the access stays on the page, and otherwise gives the
  length of the part beyond the page (\<^verbatim>\<open>span\<close>) and the virtual address where it starts.
\<close>

definition endOfPage :: "u32 \<Rightarrow> u64" where
  "endOfPage page = ucast (push_bit addrShift page + pageSize)"

definition split_access :: "u64 \<Rightarrow> nat \<Rightarrow> u64 \<Rightarrow> u64 \<Rightarrow> (u32 \<times> u64) option" where
  "split_access Addr Len physAddr End =
     (if physAddr + of_nat Len > End
      then let span = ucast (physAddr + of_nat Len - End)
           in Some (span, Addr + of_nat Len - ucast span)
      else None)"

definition WriteMem :: "u32 \<Rightarrow> u64 \<Rightarrow> u8 list \<Rightarrow> RevMem \<Rightarrow> (bool \<times> RevMem) result" where
  "WriteMem Hart Addr Data M =
     (let M0 = snd (RevokeFuture Addr M);
          pageNum = drop_bit addrShift Addr;
          Len = length Data
      in res_bind (CalcPhysAddr pageNum Addr M0) (\<lambda>(physAddr, M1).
      let (page, M2) = pageMap_first pageNum M1 in
      res_bind
        (case split_access Addr Len physAddr (endOfPage page) of
           Some (span, adjAddr) \<Rightarrow>
             let adjPageNum = (ucast (drop_bit addrShift adjAddr) :: u32) in
             res_bind (CalcPhysAddr (ucast adjPageNum) adjAddr M2) (\<lambda>(adjPhysAddr, M3).
             if unat span \<le> Len then
               res_bind (phys_write physAddr (take (Len - unat span) Data) M3) (\<lambda>M4.
               phys_write adjPhysAddr (drop (Len - unat span) Data) M4)
             else Inl (Undefined ''WriteMem: span larger than the access''))
         | None \<Rightarrow> phys_write physAddr Data M2)
        (\<lambda>M5. Inr (True, M5\<lparr>m_bytesWritten := m_bytesWritten M5 + of_nat Len\<rparr>))))"

text \<open>
  The overload with flags has the same body; the flags only reach the memory controller.
\<close>

definition WriteMem_flags :: "u32 \<Rightarrow> u64 \<Rightarrow> u8 list \<Rightarrow> u32 \<Rightarrow> RevMem \<Rightarrow> (bool \<times> RevMem) result" where
  "WriteMem_flags Hart Addr Data flags M = WriteMem Hart Addr Data M"

text \<open>
  \<^verbatim>\<open>ReadMem\<close> returns the bytes it copies to its target. Clearing the hazard
  (\<^verbatim>\<open>req.MarkLoadComplete()\<close>) is done by the caller's side of the model, after the copy.
\<close>

definition ReadMem :: "u32 \<Rightarrow> u64 \<Rightarrow> nat \<Rightarrow> RevMem \<Rightarrow> (u8 list \<times> RevMem) result" where
  "ReadMem Hart Addr Len M =
     (let pageNum = drop_bit addrShift Addr
      in res_bind (CalcPhysAddr pageNum Addr M) (\<lambda>(physAddr, M1).
      let (page, M2) = pageMap_first pageNum M1 in
      res_bind
        (case split_access Addr Len physAddr (endOfPage page) of
           Some (span, adjAddr) \<Rightarrow>
             let adjPageNum = (ucast (drop_bit addrShift adjAddr) :: u32) in
             res_bind (CalcPhysAddr (ucast adjPageNum) adjAddr M2) (\<lambda>(adjPhysAddr, M3).
             if unat span \<le> Len then
               res_bind (phys_read physAddr (Len - unat span) M3) (\<lambda>bs1.
               res_bind (phys_read adjPhysAddr (unat span) M3) (\<lambda>bs2.
               Inr (bs1 @ bs2, M3)))
             else Inl (Undefined ''ReadMem: span larger than the access''))
         | None \<Rightarrow> res_bind (phys_read physAddr Len M2) (\<lambda>bs. Inr (bs, M2)))
        (\<lambda>(bs, M5). Inr (bs, M5\<lparr>m_bytesRead := m_bytesRead M5 + of_nat Len\<rparr>))))"

text \<open>
  The deprecated overload, into a buffer \<open>Data\<close>: its loop over the second page never advances
  the target index \<^verbatim>\<open>Cur\<close>.
\<close>

fun old_copy :: "nat \<Rightarrow> u8 list \<Rightarrow> u8 list \<Rightarrow> u8 list" where
  "old_copy Cur [] Data = Data"
| "old_copy Cur (b # bs) Data = old_copy Cur bs (Data[Cur := b])"

definition ReadMem_old :: "u64 \<Rightarrow> u8 list \<Rightarrow> RevMem \<Rightarrow> (u8 list \<times> RevMem) result" where
  "ReadMem_old Addr Data M =
     (let pageNum = drop_bit addrShift Addr; Len = length Data
      in res_bind (CalcPhysAddr pageNum Addr M) (\<lambda>(physAddr, M1).
      let (page, M2) = pageMap_first pageNum M1 in
      res_bind
        (case split_access Addr Len physAddr (endOfPage page) of
           Some (span, adjAddr) \<Rightarrow>
             let adjPageNum = (ucast (drop_bit addrShift adjAddr) :: u32) in
             res_bind (CalcPhysAddr (ucast adjPageNum) adjAddr M2) (\<lambda>(adjPhysAddr, M3).
             if unat span \<le> Len then
               res_bind (phys_read physAddr (Len - unat span) M3) (\<lambda>bs1.
               res_bind (phys_read adjPhysAddr (unat span) M3) (\<lambda>bs2.
               Inr (old_copy (Len - unat span) bs2 (bs1 @ drop (Len - unat span) Data), M3)))
             else Inl (Undefined ''ReadMem: span larger than the access''))
         | None \<Rightarrow> res_bind (phys_read physAddr Len M2) (\<lambda>bs. Inr (bs, M2)))
        (\<lambda>(bs, M5). Inr (bs, M5\<lparr>m_bytesRead := m_bytesRead M5 + of_nat Len\<rparr>))))"

text \<open>Cache-line operations and fences: without a controller only the translation remains.\<close>

definition FlushLine :: "u32 \<Rightarrow> u64 \<Rightarrow> RevMem \<Rightarrow> (bool \<times> RevMem) result" where
  "FlushLine Hart Addr M =
     res_bind (CalcPhysAddr (drop_bit addrShift Addr) Addr M) (\<lambda>(_, M1). Inr (True, M1))"

definition InvLine :: "u32 \<Rightarrow> u64 \<Rightarrow> RevMem \<Rightarrow> (bool \<times> RevMem) result" where
  "InvLine Hart Addr M =
     res_bind (CalcPhysAddr (drop_bit addrShift Addr) Addr M) (\<lambda>(_, M1). Inr (True, M1))"

definition CleanLine :: "u32 \<Rightarrow> u64 \<Rightarrow> RevMem \<Rightarrow> (bool \<times> RevMem) result" where
  "CleanLine Hart Addr M =
     res_bind (CalcPhysAddr (drop_bit addrShift Addr) Addr M) (\<lambda>(_, M1). Inr (True, M1))"

definition FenceMem :: "u32 \<Rightarrow> RevMem \<Rightarrow> bool \<times> RevMem" where
  "FenceMem Hart M = (True, M)"

section \<open>Lemmas on translation\<close>

lemma addrShift_18 [simp]: "addrShift = 18"
  by code_simp

lemma unat_page_paddr:
  assumes "unat f < 2 ^ 14"
  shows "unat (page_paddr f v) = unat f * 2 ^ 18 + unat v mod 2 ^ 18"
proof -
  have a: "unat (push_bit 18 f :: u32) = unat f * 2 ^ 18"
    using assms by (simp add: push_bit_eq_mult unat_word_ariths mult.commute)
  have "(ucast (pageSize - 1) :: u64) = mask 18" by (simp add: pageSize_def mask_eq_exp_minus_1)
  then have "unat ((ucast (pageSize - 1) :: u64) AND v) = unat (take_bit 18 v)"
    by (simp add: take_bit_eq_mask and.commute)
  then have b: "unat ((ucast (pageSize - 1) :: u64) AND v) = unat v mod 2 ^ 18"
    by (metis unsigned_take_bit_eq take_bit_eq_mod)
  have c: "unat (ucast (push_bit 18 f) :: u64) = unat f * 2 ^ 18"
    using a assms by (simp add: unsigned_ucast_eq take_bit_nat_eq_self)
  have "unat v mod 2 ^ 18 < 2 ^ 18" by simp
  then show ?thesis
    unfolding page_paddr_def addrShift_18 using assms b c by (subst unat_add_ok) simp_all
qed

lemma page_paddr_inj:
  assumes "unat f < 2 ^ 14" "unat g < 2 ^ 14" "page_paddr f v = page_paddr g w"
  shows "f = g" and "unat v mod 2 ^ 18 = unat w mod 2 ^ 18"
proof -
  have eq: "unat f * 2 ^ 18 + unat v mod 2 ^ 18 = unat g * 2 ^ 18 + unat w mod 2 ^ 18"
    using arg_cong [OF assms(3), of unat] by (simp only: unat_page_paddr [OF assms(1)]
        unat_page_paddr [OF assms(2)])
  then have "(unat f * 2 ^ 18 + unat v mod 2 ^ 18) div 2 ^ 18 = (unat g * 2 ^ 18 + unat w mod 2 ^ 18) div 2 ^ 18"
    by simp
  then show "f = g" by (simp add: word_unat_eq_iff)
  with eq show "unat v mod 2 ^ 18 = unat w mod 2 ^ 18" by simp
qed

lemma unat_page: "unat (drop_bit 18 (v::u64)) = unat v div 2 ^ 18"
  by (simp add: drop_bit_eq_div unat_div)

lemma same_page_offset:
  assumes "drop_bit 18 (v::u64) = drop_bit 18 w" "unat v mod 2 ^ 18 = unat w mod 2 ^ 18"
  shows "v = w"
proof -
  have "unat v div 2 ^ 18 = unat w div 2 ^ 18" using assms(1) by (metis unat_page)
  then have "unat v = unat w" using assms(2) by (metis div_mult_mod_eq)
  then show ?thesis by (simp add: word_unat_eq_iff)
qed

section \<open>The virtual view of memory\<close>

text \<open>
  The byte a program sees at a virtual address. A page not touched yet reads as zero, which
  is what the frame it will get holds.
\<close>

definition vmem :: "RevMem \<Rightarrow> u64 \<Rightarrow> u8" where
  "vmem M v = (case m_pageMap M (drop_bit addrShift v) of
      None \<Rightarrow> 0 | Some (f, _) \<Rightarrow> m_physMem M (page_paddr f v))"

text \<open>
  The invariant: the TLB is consistent with the page map, pages have distinct frames below
  \<^verbatim>\<open>nextPage\<close>, there are fewer frames than the 32-bit frame arithmetic can address, and
  frames not handed out are zero.
\<close>

definition tlb_agrees :: "RevMem \<Rightarrow> bool" where
  "tlb_agrees M \<longleftrightarrow> (\<forall>(v, p) \<in> set (tlb_abs (m_tlb M)).
     \<exists>f b. m_pageMap M (drop_bit 18 v) = Some (f, b) \<and> p = page_paddr f v)"

definition pages_ok :: "RevMem \<Rightarrow> bool" where
  "pages_ok M \<longleftrightarrow> unat (m_nextPage M) \<le> 16383 \<and>
     (\<forall>pg f b. m_pageMap M pg = Some (f, b) \<longrightarrow> f < m_nextPage M) \<and>
     (\<forall>pg pg' f b b'. m_pageMap M pg = Some (f, b) \<longrightarrow> m_pageMap M pg' = Some (f, b') \<longrightarrow> pg = pg') \<and>
     (\<forall>a. unat (m_nextPage M) * 2 ^ 18 \<le> unat a \<longrightarrow> m_physMem M a = 0)"

definition mem_inv :: "RevMem \<Rightarrow> bool" where
  "mem_inv M \<longleftrightarrow> tlb_inv (m_tlb M) \<and> 0 < t_tlbSize (m_tlb M) \<and> tlb_agrees M \<and> pages_ok M"

text \<open>What a translation may change: the TLB, and at most one new page.\<close>

definition mem_ext :: "RevMem \<Rightarrow> RevMem \<Rightarrow> bool" where
  "mem_ext M M' \<longleftrightarrow> mem_inv M' \<and> vmem M' = vmem M \<and> m_segs M' = m_segs M \<and>
     m_physMem M' = m_physMem M \<and> m_pageMap M \<subseteq>\<^sub>m m_pageMap M' \<and>
     unat (m_nextPage M') \<le> Suc (unat (m_nextPage M))"

lemma lru_insert_set: "set (lru_insert cap k v c) \<subseteq> insert (k, v) (set c)"
  by (auto simp: lru_insert_def dest: in_set_butlastD)

lemma mem_invD:
  assumes "mem_inv M"
  shows "tlb_inv (m_tlb M)" "0 < unat (t_tlbSize (m_tlb M))" "unat (m_nextPage M) \<le> 16383"
    "m_pageMap M pg = Some (f, b) \<Longrightarrow> f < m_nextPage M"
    "m_pageMap M pg = Some (f, b) \<Longrightarrow> unat f < 2 ^ 14"
proof -
  show "tlb_inv (m_tlb M)" "0 < unat (t_tlbSize (m_tlb M))" "unat (m_nextPage M) \<le> 16383"
    using assms by (simp_all add: mem_inv_def pages_ok_def word_less_nat_alt)
  show lt: "f < m_nextPage M" if "m_pageMap M pg = Some (f, b)"
    using assms that unfolding mem_inv_def pages_ok_def by blast
  show "unat f < 2 ^ 14" if "m_pageMap M pg = Some (f, b)"
    using lt [OF that] \<open>unat (m_nextPage M) \<le> 16383\<close> by (simp add: word_less_nat_alt)
qed

lemma tlb_hit_paddr:
  assumes "mem_inv M" "t_TLB (m_tlb M) v = Some (p, it)"
  shows "\<exists>f b. m_pageMap M (drop_bit 18 v) = Some (f, b) \<and> p = page_paddr f v"
proof -
  have "map_of (tlb_abs (m_tlb M)) v = Some p"
    using map_of_tlb_abs [OF mem_invD(1) [OF assms(1)]] assms(2) by simp
  then have "(v, p) \<in> set (tlb_abs (m_tlb M))" by (rule map_of_SomeD)
  then show ?thesis using assms(1) by (auto simp: mem_inv_def tlb_agrees_def)
qed

lemma paddr_not_invalid: "unat f < 2 ^ 14 \<Longrightarrow> page_paddr f v \<noteq> INVALID_ADDR"
proof
  assume "unat f < 2 ^ 14" "page_paddr f v = INVALID_ADDR"
  then have "unat (INVALID_ADDR) = unat f * 2 ^ 18 + unat v mod 2 ^ 18"
    by (metis unat_page_paddr)
  moreover have "unat v mod 2 ^ 18 < 2 ^ 18" by simp
  moreover have "unat INVALID_ADDR = 2 ^ 64 - 1"
    by (simp add: INVALID_ADDR_def unsigned_minus_1_eq_mask mask_eq_exp_minus_1)
  ultimately show False using \<open>unat f < 2 ^ 14\<close> by simp
qed

text \<open>Replacing the TLB by one whose entries agree with the page map.\<close>

lemma mem_inv_tlb:
  assumes "pages_ok M" "tlb_inv T" "0 < t_tlbSize T"
    and "\<And>v p. (v, p) \<in> set (tlb_abs T) \<Longrightarrow>
      \<exists>f b. m_pageMap M (drop_bit 18 v) = Some (f, b) \<and> p = page_paddr f v"
  shows "mem_inv (M\<lparr>m_tlb := T\<rparr>)"
  using assms unfolding mem_inv_def tlb_agrees_def pages_ok_def by auto

lemma vmem_tlb [simp]: "vmem (M\<lparr>m_tlb := T\<rparr>) = vmem M"
  by (rule ext) (simp add: vmem_def split: option.splits)

text \<open>A page touched for the first time gets the next frame and still reads as zero.\<close>

definition map_page :: "u64 \<Rightarrow> RevMem \<Rightarrow> RevMem" where
  "map_page pg M = M\<lparr>m_pageMap := (m_pageMap M)(pg \<mapsto> (m_nextPage M, True)),
     m_nextPage := m_nextPage M + 1\<rparr>"

lemma map_page:
  assumes "mem_inv M" "m_pageMap M pg = None" "unat (m_nextPage M) < 16383"
  shows "pages_ok (map_page pg M)" "vmem (map_page pg M) = vmem M"
    "m_pageMap M \<subseteq>\<^sub>m m_pageMap (map_page pg M)"
    "unat (m_nextPage (map_page pg M)) = Suc (unat (m_nextPage M))"
proof -
  show n: "unat (m_nextPage (map_page pg M)) = Suc (unat (m_nextPage M))"
    using assms(3) by (simp add: map_page_def unat_word_ariths)
  have lt: "f < m_nextPage M" if "m_pageMap M pg' = Some (f, b)" for pg' f b
    using mem_invD(4) [OF assms(1) that] .
  have z: "m_physMem M a = 0" if "unat (m_nextPage M) * 2 ^ 18 \<le> unat a" for a
    using assms(1) that by (simp add: mem_inv_def pages_ok_def)
  show "m_pageMap M \<subseteq>\<^sub>m m_pageMap (map_page pg M)"
    using assms(2) by (auto simp: map_page_def map_le_def)
  have inj: "pg1 = pg2" if "m_pageMap (map_page pg M) pg1 = Some (f, b1)"
    "m_pageMap (map_page pg M) pg2 = Some (f, b2)" for pg1 pg2 f b1 b2
    using that assms(1) lt by (auto simp: map_page_def mem_inv_def pages_ok_def split: if_splits)
  have less: "f < m_nextPage (map_page pg M)" if "m_pageMap (map_page pg M) pg' = Some (f, b)" for pg' f b
    using that lt n by (auto simp: map_page_def word_less_nat_alt split: if_splits)
      (metis less_SucI word_less_nat_alt)+
  have "m_physMem (map_page pg M) a = 0"
    if "unat (m_nextPage (map_page pg M)) * 2 ^ 18 \<le> unat a" for a
    using z [of a] that n by (simp add: map_page_def)
  then show "pages_ok (map_page pg M)"
    using assms(3) n inj less unfolding pages_ok_def by (metis Suc_leI)
  show "vmem (map_page pg M) = vmem M"
  proof
    fix v
    show "vmem (map_page pg M) v = vmem M v"
    proof (cases "drop_bit 18 v = pg")
      case True
      have "unat (m_nextPage M) * 2 ^ 18 \<le> unat (page_paddr (m_nextPage M) v)"
        using assms(3) by (subst unat_page_paddr) simp_all
      then have "m_physMem M (page_paddr (m_nextPage M) v) = 0" by (rule z)
      then show ?thesis using True assms(2) by (simp add: vmem_def map_page_def)
    next
      case False
      then show ?thesis by (simp add: vmem_def map_page_def split: option.splits)
    qed
  qed
qed

text \<open>
  Translation of a valid address: it succeeds, it returns the frame of the page and the
  offset in it, and the memory the program sees is unchanged.
\<close>

lemma CalcPhysAddr_hit:
  assumes "mem_inv M" "t_TLB (m_tlb M) v = Some (p, it)"
  shows "\<exists>f b M'. CalcPhysAddr pg v M = Inr (page_paddr f v, M') \<and> mem_ext M M' \<and>
    m_pageMap M' (drop_bit 18 v) = Some (f, b)"
proof -
  obtain T where T: "SearchTLB v (m_tlb M) = Inr (p, T)" "tlb_inv T"
    "t_tlbSize T = t_tlbSize (m_tlb M)" "tlb_abs T = (v, p) # filter (\<lambda>e. fst e \<noteq> v) (tlb_abs (m_tlb M))"
    using SearchTLB_hit [OF mem_invD(1) [OF assms(1)] assms(2)] by blast
  obtain f b where f: "m_pageMap M (drop_bit 18 v) = Some (f, b)" "p = page_paddr f v"
    using tlb_hit_paddr [OF assms] by blast
  have "p \<noteq> INVALID_ADDR" using paddr_not_invalid [OF mem_invD(5) [OF assms(1) f(1)]] f(2) by simp
  then have "CalcPhysAddr pg v M = Inr (page_paddr f v, M\<lparr>m_tlb := T\<rparr>)"
    using T(1) f(2) by (simp add: CalcPhysAddr_def)
  moreover have "mem_inv (M\<lparr>m_tlb := T\<rparr>)"
    using assms(1) T f by (intro mem_inv_tlb) (auto simp: mem_inv_def tlb_agrees_def)
  ultimately show ?thesis using f by (auto simp: mem_ext_def)
qed

lemma CalcPhysAddr_miss:
  assumes "mem_inv M" "t_TLB (m_tlb M) v = None" "isValidVirtAddr v (m_segs M)"
    and "unat (m_nextPage M) < 16383"
  shows "\<exists>f b M'. CalcPhysAddr (drop_bit 18 v) v M = Inr (page_paddr f v, M') \<and> mem_ext M M' \<and>
    m_pageMap M' (drop_bit 18 v) = Some (f, b)"
proof -
  let ?T = "(m_tlb M)\<lparr>t_TLBMisses := t_TLBMisses (m_tlb M) + 1\<rparr>"
  let ?pg = "drop_bit 18 v"
  have T: "SearchTLB v (m_tlb M) = Inr (INVALID_ADDR, ?T)" using assms(2) by (rule SearchTLB_miss)
  have Tinv: "tlb_inv ?T" "0 < unat (t_tlbSize ?T)" using mem_invD(1,2) [OF assms(1)] by simp_all
  have Tabs: "tlb_abs ?T = tlb_abs (m_tlb M)" by (simp add: tlb_abs_def)
  define M1 where "M1 = (if m_pageMap M ?pg = None then map_page ?pg M else M)"
  define f where "f = (case m_pageMap M ?pg of None \<Rightarrow> m_nextPage M | Some (f, _) \<Rightarrow> f)"
  have M1: "pages_ok M1" "vmem M1 = vmem M" "m_pageMap M \<subseteq>\<^sub>m m_pageMap M1"
    "unat (m_nextPage M1) \<le> Suc (unat (m_nextPage M))" "m_segs M1 = m_segs M"
    "m_physMem M1 = m_physMem M" "\<exists>b. m_pageMap M1 ?pg = Some (f, b)"
    using map_page [OF assms(1) _ assms(4), of ?pg] assms(1)
    by (auto simp: M1_def f_def mem_inv_def map_page_def split: option.splits)
  obtain T2 where T2: "AddToTLB v (page_paddr f v) ?T = Inr T2" "tlb_inv T2"
    "t_tlbSize T2 = t_tlbSize ?T"
    "tlb_abs T2 = lru_insert (unat (t_tlbSize ?T)) v (page_paddr f v) (tlb_abs (m_tlb M))"
    using AddToTLB_refines [OF Tinv, of v "page_paddr f v"] Tabs by auto
  have "CalcPhysAddr ?pg v M = Inr (page_paddr f v, M1\<lparr>m_tlb := T2\<rparr>)"
    using T T2(1) assms(3)
    by (auto simp: CalcPhysAddr_def M1_def f_def map_page_def split: option.splits)
  moreover have "mem_inv (M1\<lparr>m_tlb := T2\<rparr>)"
  proof (intro mem_inv_tlb M1(1) T2(2))
    show "0 < t_tlbSize T2" using T2(3) Tinv(2) by (simp add: word_less_nat_alt)
    fix w q
    assume "(w, q) \<in> set (tlb_abs T2)"
    then have "(w, q) = (v, page_paddr f v) \<or> (w, q) \<in> set (tlb_abs (m_tlb M))"
      using T2(4) lru_insert_set by fastforce
    then show "\<exists>f b. m_pageMap M1 (drop_bit 18 w) = Some (f, b) \<and> q = page_paddr f w"
    proof
      assume "(w, q) \<in> set (tlb_abs (m_tlb M))"
      then obtain g b where "m_pageMap M (drop_bit 18 w) = Some (g, b)" "q = page_paddr g w"
        using assms(1) by (auto simp: mem_inv_def tlb_agrees_def)
      then show ?thesis using M1(3) by (metis domI map_le_def)
    qed (use M1(7) in auto)
  qed
  ultimately show ?thesis using M1 by (auto simp: mem_ext_def)
qed

lemma CalcPhysAddr_ok:
  assumes "mem_inv M" "isValidVirtAddr v (m_segs M)" "unat (m_nextPage M) < 16383"
  shows "\<exists>f b M'. CalcPhysAddr (drop_bit 18 v) v M = Inr (page_paddr f v, M') \<and> mem_ext M M' \<and>
    m_pageMap M' (drop_bit 18 v) = Some (f, b)"
proof (cases "t_TLB (m_tlb M) v")
  case None
  then show ?thesis using CalcPhysAddr_miss assms by blast
next
  case (Some q)
  then show ?thesis using CalcPhysAddr_hit [OF assms(1)] by (cases q) blast
qed

section \<open>Lemmas on accesses\<close>

definition upd_bytes :: "u64 \<Rightarrow> u8 list \<Rightarrow> (u64 \<Rightarrow> u8) \<Rightarrow> u64 \<Rightarrow> u8" where
  "upd_bytes v bs m = (\<lambda>a. if unat (a - v) < length bs then bs ! unat (a - v) else m a)"

lemma unat_minus_Suc: "a \<noteq> p \<Longrightarrow> unat (a - p :: u64) = Suc (unat (a - (p + 1)))"
proof -
  assume "a \<noteq> p"
  then have nz: "a - p \<noteq> 0" by simp
  then have "unat (a - p - 1) = unat (a - p) - 1" by (rule unat_minus_one)
  moreover have "0 < unat (a - p)" using nz by (simp add: unat_gt_0)
  moreover have "a - p - 1 = a - (p + 1)" by simp
  ultimately show ?thesis by simp
qed

lemma store_bytes_upd:
  "length bs < 2 ^ 64 \<Longrightarrow> store_bytes p bs m = upd_bytes p bs m"
proof (induction p bs m rule: store_bytes.induct)
  case (1 p f)
  then show ?case by (simp add: upd_bytes_def)
next
  case (2 p b bs f)
  have "upd_bytes (p + 1) bs (f(p := b)) a = upd_bytes p (b # bs) f a" for a
  proof (cases "a = p")
    case True
    have "unat (a - (p + 1)) = 2 ^ 64 - 1"
      using True by (simp add: unsigned_minus_1_eq_mask mask_eq_exp_minus_1)
    then show ?thesis using 2 True by (simp add: upd_bytes_def)
  next
    case False
    then show ?thesis using unat_minus_Suc [OF False] by (simp add: upd_bytes_def)
  qed
  then have "upd_bytes (p + 1) bs (f(p := b)) = upd_bytes p (b # bs) f" by (rule ext)
  then show ?case using "2.IH" "2.prems" by (simp del: fun_upd_apply)
qed

lemma mod_add_lt:
  fixes x k m :: nat
  assumes "x mod m + k < m"
  shows "(x + k) div m = x div m" and "(x + k) mod m = x mod m + k"
proof -
  have "x + k = x div m * m + (x mod m + k)" by simp
  then show "(x + k) div m = x div m" and "(x + k) mod m = x mod m + k"
    using assms by (metis div_mult_self3 div_less add.right_neutral less_nat_zero_code neq0_conv,
        metis mod_mult_self3 mod_less)
qed

text \<open>Within a page, offsets in virtual and physical memory correspond.\<close>

lemma unat_page_add:
  fixes v :: u64
  assumes "unat v mod 2 ^ 18 + k < 2 ^ 18"
  shows "unat (v + of_nat k) = unat v + k"
proof -
  have "unat v div 2 ^ 18 < 2 ^ 46"
    using unsigned_less [of v] by (simp add: div_less_iff_less_mult)
  then have "(unat v + k) div 2 ^ 18 < 2 ^ 46" by (simp only: mod_add_lt(1) [OF assms])
  then have "unat v + k < 2 ^ 64" by (simp add: div_less_iff_less_mult)
  then show ?thesis by (simp add: unat_word_ariths unat_of_nat)
qed

lemma page_offset:
  fixes v :: u64
  assumes "unat v mod 2 ^ 18 + k < 2 ^ 18"
  shows "drop_bit 18 (v + of_nat k) = drop_bit 18 v"
    and "unat f < 2 ^ 14 \<Longrightarrow> page_paddr f (v + of_nat k) = page_paddr f v + of_nat k"
proof -
  have u: "unat (v + of_nat k) = unat v + k" using unat_page_add [OF assms] .
  note m = mod_add_lt [OF assms]
  then show "drop_bit 18 (v + of_nat k) = drop_bit 18 v"
    using u m(1) by (simp add: word_unat_eq_iff unat_page)
  assume f: "unat f < 2 ^ 14"
  have "unat (page_paddr f v + of_nat k) = unat f * 2 ^ 18 + unat v mod 2 ^ 18 + k"
    using unat_page_paddr [OF f, of v] f assms by (simp add: unat_word_ariths unat_of_nat)
  moreover have "unat (page_paddr f (v + of_nat k)) = unat f * 2 ^ 18 + (unat v mod 2 ^ 18 + k)"
    using unat_page_paddr [OF f, of "v + of_nat k"] u m(2) by simp
  ultimately show "page_paddr f (v + of_nat k) = page_paddr f v + of_nat k"
    by (simp add: word_unat_eq_iff)
qed

text \<open>A write inside the frame of a page, seen from the virtual side.\<close>

lemma frame_offset_iff:
  assumes "mem_inv M" "m_pageMap M (drop_bit 18 v) = Some (f, b)"
    and "m_pageMap M (drop_bit 18 a) = Some (g, c)" "unat v mod 2 ^ 18 + n \<le> 2 ^ 18"
  shows "unat (page_paddr g a - page_paddr f v) < n \<longleftrightarrow> unat (a - v) < n"
    and "unat (a - v) < n \<Longrightarrow> page_paddr g a - page_paddr f v = a - v"
proof -
  have fg: "unat f < 2 ^ 14" "unat g < 2 ^ 14" using mem_invD(5) assms(1-3) by blast+
  have same: "page_paddr g a - page_paddr f v = a - v" if lt: "unat (a - v) < n"
  proof -
    define k where "k = unat (a - v)"
    have a: "a = v + of_nat k" by (simp add: k_def)
    have k: "unat v mod 2 ^ 18 + k < 2 ^ 18" using lt assms(4) by (simp add: k_def)
    have "g = f" using assms(2,3) page_offset(1) [OF k] a by simp
    then show ?thesis using page_offset(2) [OF k fg(1)] a by simp
  qed
  show "unat (a - v) < n \<Longrightarrow> page_paddr g a - page_paddr f v = a - v" by (rule same)
  show "unat (page_paddr g a - page_paddr f v) < n \<longleftrightarrow> unat (a - v) < n"
  proof
    assume lt: "unat (page_paddr g a - page_paddr f v) < n"
    define k where "k = unat (page_paddr g a - page_paddr f v)"
    have k: "unat v mod 2 ^ 18 + k < 2 ^ 18" using lt assms(4) by (simp add: k_def)
    have "page_paddr g a = page_paddr f v + of_nat k" by (simp add: k_def)
    then have eq: "page_paddr g a = page_paddr f (v + of_nat k)" using page_offset(2) [OF k fg(1)] by simp
    then have "g = f" using page_paddr_inj(1) fg by blast
    then have "drop_bit 18 a = drop_bit 18 v"
      using assms(1-3) unfolding mem_inv_def pages_ok_def by blast
    then have "a = v + of_nat k"
      using same_page_offset page_paddr_inj(2) [OF fg(2,1) eq] page_offset(1) [OF k] by metis
    then have "a - v = of_nat k" by simp
    moreover have "unat (of_nat k :: u64) = k" by (simp add: k_def)
    ultimately show "unat (a - v) < n" using lt k_def by simp
  qed (use same in simp)
qed

lemma phys_write_page:
  assumes "mem_inv M" "m_pageMap M (drop_bit 18 v) = Some (f, b)"
    and len: "unat v mod 2 ^ 18 + length bs \<le> 2 ^ 18"
    and fit: "unat (m_nextPage M) * 2 ^ 18 \<le> unat (s_memSize (m_segs M))"
  shows "\<exists>M'. phys_write (page_paddr f v) bs M = Inr M' \<and> mem_inv M' \<and>
    vmem M' = upd_bytes v bs (vmem M) \<and> m_segs M' = m_segs M \<and> m_pageMap M' = m_pageMap M \<and>
    m_nextPage M' = m_nextPage M"
proof -
  have f: "unat f < 2 ^ 14" "unat f < unat (m_nextPage M)"
    using mem_invD(4,5) [OF assms(1,2)] by (simp_all add: word_less_nat_alt)
  have p: "unat (page_paddr f v) = unat f * 2 ^ 18 + unat v mod 2 ^ 18" using unat_page_paddr [OF f(1)] .
  have le: "unat f * 2 ^ 18 + 2 ^ 18 \<le> unat (m_nextPage M) * 2 ^ 18" using f(2) by simp
  let ?M = "M\<lparr>m_physMem := upd_bytes (page_paddr f v) bs (m_physMem M)\<rparr>"
  have "phys_write (page_paddr f v) bs M = Inr ?M"
    using p le fit len by (simp add: phys_write_def phys_ok_def store_bytes_upd)
  moreover have "mem_inv ?M"
  proof -
    have "upd_bytes (page_paddr f v) bs (m_physMem M) a = 0"
      if a: "unat (m_nextPage M) * 2 ^ 18 \<le> unat a" for a
    proof -
      have "page_paddr f v \<le> a" using p le len a by (simp add: word_le_nat_alt)
      then have "unat (a - page_paddr f v) = unat a - unat (page_paddr f v)" by (rule unat_sub_ok)
      then have "\<not> unat (a - page_paddr f v) < length bs" using p le len a by simp
      then show ?thesis using assms(1) a by (simp add: upd_bytes_def mem_inv_def pages_ok_def)
    qed
    then show ?thesis using assms(1) by (simp add: mem_inv_def pages_ok_def tlb_agrees_def)
  qed
  moreover have "vmem ?M a = upd_bytes v bs (vmem M) a" for a
  proof (cases "m_pageMap M (drop_bit 18 a)")
    case None
    have "\<not> unat (a - v) < length bs"
    proof
      assume lt: "unat (a - v) < length bs"
      then have "drop_bit 18 (v + of_nat (unat (a - v))) = drop_bit 18 v"
        using len by (intro page_offset(1)) simp
      then show False using None assms(2) by simp
    qed
    then show ?thesis using None by (simp add: vmem_def upd_bytes_def)
  next
    case (Some q)
    obtain g c where q: "q = (g, c)" by (cases q)
    then have g: "m_pageMap M (drop_bit 18 a) = Some (g, c)" using Some by simp
    show ?thesis
      using frame_offset_iff [OF assms(1,2) g len] g by (simp add: vmem_def upd_bytes_def)
  qed
  ultimately show ?thesis by (intro exI [of _ ?M]) auto
qed

text \<open>A read inside the frame of a page.\<close>

definition vread :: "(u64 \<Rightarrow> u8) \<Rightarrow> u64 \<Rightarrow> nat \<Rightarrow> u8 list" where
  "vread m v n = map (\<lambda>i. m (v + of_nat i)) [0..<n]"

lemma vread_append: "vread m v (a + b) = vread m v a @ vread m (v + of_nat a) b"
  by (rule nth_equalityI) (auto simp: vread_def nth_append ac_simps of_nat_diff)

lemma phys_read_page:
  assumes "mem_inv M" "m_pageMap M (drop_bit 18 v) = Some (f, b)"
    and len: "unat v mod 2 ^ 18 + n \<le> 2 ^ 18"
    and fit: "unat (m_nextPage M) * 2 ^ 18 \<le> unat (s_memSize (m_segs M))"
  shows "phys_read (page_paddr f v) n M = Inr (vread (vmem M) v n)"
proof -
  have f: "unat f < 2 ^ 14" "unat f < unat (m_nextPage M)"
    using mem_invD(4,5) [OF assms(1,2)] by (simp_all add: word_less_nat_alt)
  have p: "unat (page_paddr f v) = unat f * 2 ^ 18 + unat v mod 2 ^ 18" using unat_page_paddr [OF f(1)] .
  have le: "unat f * 2 ^ 18 + 2 ^ 18 \<le> unat (m_nextPage M) * 2 ^ 18" using f(2) by simp
  have "m_physMem M (page_paddr f v + of_nat i) = vmem M (v + of_nat i)" if "i < n" for i
  proof -
    have "unat v mod 2 ^ 18 + i < 2 ^ 18" using that len by simp
    from page_offset [OF this] show ?thesis using assms(2) f(1) by (simp add: vmem_def)
  qed
  then show ?thesis using p le fit len by (simp add: phys_read_def phys_ok_def vread_def)
qed

text \<open>The split of an access at the end of a page.\<close>

lemma unat_endOfPage:
  assumes "unat f < 16383"
  shows "unat (endOfPage f) = unat f * 2 ^ 18 + 2 ^ 18"
proof -
  have "unat (push_bit 18 f :: u32) = unat f * 2 ^ 18"
    using assms by (simp add: push_bit_eq_mult unat_word_ariths mult.commute)
  then have "unat (push_bit 18 f + pageSize) = unat f * 2 ^ 18 + 2 ^ 18"
    using assms by (simp add: unat_word_ariths pageSize_def)
  then show ?thesis
    using assms by (simp add: endOfPage_def unsigned_ucast_eq take_bit_nat_eq_self)
qed

lemma unat_access_end:
  assumes "unat f < 16383" "n \<le> 2 ^ 18"
  shows "unat (page_paddr f v + of_nat n) = unat f * 2 ^ 18 + unat v mod 2 ^ 18 + n"
proof -
  have "unat v mod 2 ^ 18 < 2 ^ 18" by simp
  moreover have "unat (page_paddr f v) = unat f * 2 ^ 18 + unat v mod 2 ^ 18"
    using assms by (intro unat_page_paddr) simp
  moreover have "unat (of_nat n :: u64) = n" using assms(2) by (simp add: unat_of_nat)
  ultimately show ?thesis using assms by (subst unat_add_ok) simp_all
qed

lemma split_access_none:
  assumes "unat f < 16383" "unat v mod 2 ^ 18 + n \<le> 2 ^ 18"
  shows "split_access v n (page_paddr f v) (endOfPage f) = None"
  using unat_access_end [of f n v] unat_endOfPage [OF assms(1)] assms
  by (simp add: split_access_def word_less_nat_alt)

lemma split_access_some:
  assumes "unat f < 16383" "2 ^ 18 < unat v mod 2 ^ 18 + n" "n \<le> 2 ^ 18"
    and "unat v + n \<le> 2 ^ 50"
  shows "\<exists>span. split_access v n (page_paddr f v) (endOfPage f) =
      Some (span, v + of_nat (n - unat span)) \<and> unat span \<le> n \<and>
      unat v mod 2 ^ 18 + (n - unat span) = 2 ^ 18 \<and>
      unat (v + of_nat (n - unat span)) mod 2 ^ 18 = 0 \<and>
      ucast (ucast (drop_bit 18 (v + of_nat (n - unat span))) :: u32) =
        drop_bit 18 (v + of_nat (n - unat span))"
proof -
  let ?d = "page_paddr f v + of_nat n - endOfPage f"
  define k where "k = unat v mod 2 ^ 18 + n - 2 ^ 18"
  have m: "unat v mod 2 ^ 18 < 2 ^ 18" by simp
  have gt: "endOfPage f < page_paddr f v + of_nat n"
    using unat_access_end [OF assms(1,3), of v] unat_endOfPage [OF assms(1)] assms(2)
    by (simp add: word_less_nat_alt)
  have d: "unat ?d = k"
    using gt unat_access_end [OF assms(1,3), of v] unat_endOfPage [OF assms(1)]
    by (subst unat_sub_ok) (simp_all add: k_def)
  have kn: "k \<le> n" "k < 2 ^ 18" "0 < k" using m assms(2,3) by (simp_all add: k_def)
  have span: "unat (ucast ?d :: u32) = k"
    using d kn by (simp add: unsigned_ucast_eq take_bit_nat_eq_self)
  have w: "ucast (ucast ?d :: u32) = (of_nat k :: u64)"
    using span kn by (simp add: word_unat_eq_iff unsigned_ucast_eq unsigned_take_bit_eq
        take_bit_nat_eq_self unat_of_nat)
  let ?a = "v + of_nat (n - k)"
  have adj: "v + of_nat n - of_nat k = ?a" using kn by (simp add: of_nat_diff)
  have ua: "unat ?a = unat v + (n - k)"
    using assms(4) by (simp add: unat_word_ariths unat_of_nat)
  have nk: "unat v mod 2 ^ 18 + (n - k) = 2 ^ 18" using assms(2) kn by (simp add: k_def)
  have "(unat v mod 2 ^ 18 + (n - k)) mod 2 ^ 18 = 0" using nk by simp
  then have z: "unat ?a mod 2 ^ 18 = 0" using ua by (simp add: mod_simps)
  have "unat (drop_bit 18 ?a) < 2 ^ 32"
    using ua assms(4) kn by (simp add: unat_page div_less_iff_less_mult)
  then have u: "ucast (ucast (drop_bit 18 ?a) :: u32) = drop_bit 18 ?a"
    by (simp add: word_unat_eq_iff unsigned_ucast_eq unsigned_take_bit_eq take_bit_nat_eq_self)
  have "split_access v n (page_paddr f v) (endOfPage f) = Some (ucast ?d, ?a)"
    using gt w adj by (simp add: split_access_def)
  then show ?thesis using span kn nk z u by (intro exI [of _ "ucast ?d"]) simp
qed

section \<open>The contract of a byte memory\<close>

text \<open>
  A memory has a view, the byte at every address. A read of an accessible range returns what
  the view holds, a write changes exactly the bytes written; \<open>room\<close> bounds how many more
  pages an implementation may have to provide.
\<close>

locale byte_memory =
  fixes read_mem :: "u64 \<Rightarrow> nat \<Rightarrow> 's \<Rightarrow> (u8 list \<times> 's) result"
    and write_mem :: "u64 \<Rightarrow> u8 list \<Rightarrow> 's \<Rightarrow> (bool \<times> 's) result"
    and view :: "'s \<Rightarrow> u64 \<Rightarrow> u8"
    and inv :: "'s \<Rightarrow> bool"
    and accessible :: "u64 \<Rightarrow> nat \<Rightarrow> 's \<Rightarrow> bool"
    and room :: "nat \<Rightarrow> 's \<Rightarrow> bool"
  assumes read_law: "inv s \<Longrightarrow> accessible a n s \<Longrightarrow> room (Suc (Suc k)) s \<Longrightarrow>
      \<exists>s'. read_mem a n s = Inr (vread (view s) a n, s') \<and> inv s' \<and> view s' = view s \<and>
        room k s' \<and> (\<forall>b m. accessible b m s' = accessible b m s)"
    and write_law: "inv s \<Longrightarrow> accessible a (length bs) s \<Longrightarrow> room (Suc (Suc k)) s \<Longrightarrow>
      \<exists>s'. write_mem a bs s = Inr (True, s') \<and> inv s' \<and> view s' = upd_bytes a bs (view s) \<and>
        room k s' \<and> (\<forall>b m. accessible b m s' = accessible b m s)"
    and small: "accessible a n s \<Longrightarrow> unat a + n \<le> 2 ^ 50"
begin

lemma vread_upd_same:
  assumes "unat a + length bs \<le> 2 ^ 50"
  shows "vread (upd_bytes a bs m) a (length bs) = bs"
  using assms by (intro nth_equalityI) (auto simp: vread_def upd_bytes_def unat_of_nat)

lemma vread_upd_other:
  assumes "unat a + length bs \<le> 2 ^ 50" "unat b + n \<le> 2 ^ 50"
    and "unat a + length bs \<le> unat b \<or> unat b + n \<le> unat a"
  shows "vread (upd_bytes a bs m) b n = vread m b n"
proof -
  have "\<not> unat (b + of_nat i - a) < length bs" if "i < n" for i
  proof
    assume lt: "unat (b + of_nat i - a) < length bs"
    have "b + of_nat i = a + of_nat (unat (b + of_nat i - a))" by simp
    then have "unat (b + of_nat i) = unat (a + of_nat (unat (b + of_nat i - a)))" by metis
    also have "\<dots> = unat a + unat (b + of_nat i - a)"
      using lt assms(1) by (intro unat_add_ok [THEN trans]) simp_all
    finally have "unat b + i = unat a + unat (b + of_nat i - a)"
      using that assms(2) by (simp add: unat_word_ariths unat_of_nat)
    then show False using lt that assms(3) by linarith
  qed
  then show ?thesis by (auto simp: vread_def upd_bytes_def)
qed

text \<open>A read returns what the last write to the same range stored.\<close>

lemma read_after_write:
  assumes "inv s" "accessible a (length bs) s" "room 4 s"
  shows "\<exists>s1 s2. write_mem a bs s = Inr (True, s1) \<and> read_mem a (length bs) s1 = Inr (bs, s2) \<and> inv s2"
proof -
  have "room (Suc (Suc 2)) s" using assms(3) by (simp add: numeral_eq_Suc)
  from write_law [OF assms(1,2) this] obtain s1 where s1: "write_mem a bs s = Inr (True, s1)" "inv s1"
    "view s1 = upd_bytes a bs (view s)" "room 2 s1" "accessible a (length bs) s1"
    using assms(2) by auto
  have "room (Suc (Suc 0)) s1" using s1(4) by (simp add: numeral_2_eq_2)
  from read_law [OF s1(2,5) this] show ?thesis
    using s1(1,3) vread_upd_same [OF small [OF assms(2)]] by auto
qed

text \<open>A write leaves every disjoint range as it was.\<close>

lemma read_other_after_write:
  assumes "inv s" "accessible a (length bs) s" "accessible b n s" "room 4 s"
    and "unat a + length bs \<le> unat b \<or> unat b + n \<le> unat a"
  shows "\<exists>s1 s2. write_mem a bs s = Inr (True, s1) \<and> read_mem b n s1 = Inr (vread (view s) b n, s2)"
proof -
  have "room (Suc (Suc 2)) s" using assms(4) by (simp add: numeral_eq_Suc)
  from write_law [OF assms(1,2) this] obtain s1 where s1: "write_mem a bs s = Inr (True, s1)" "inv s1"
    "view s1 = upd_bytes a bs (view s)" "room 2 s1" "accessible b n s1"
    using assms(3) by auto
  have "room (Suc (Suc 0)) s1" using s1(4) by (simp add: numeral_2_eq_2)
  from read_law [OF s1(2,5) this] show ?thesis
    using s1(1,3) vread_upd_other [OF small [OF assms(2)] small [OF assms(3)] assms(5)] by auto
qed

end

section \<open>RevMem is a byte memory\<close>

definition mem_accessible :: "u64 \<Rightarrow> nat \<Rightarrow> RevMem \<Rightarrow> bool" where
  "mem_accessible a n M \<longleftrightarrow> 0 < n \<and> n \<le> 2 ^ 18 \<and> unat a + n \<le> 2 ^ 50 \<and>
     (\<forall>i<n. isValidVirtAddr (a + of_nat i) (m_segs M))"

lemma mem_accessibleD:
  "mem_accessible a n M \<Longrightarrow> i < n \<Longrightarrow> isValidVirtAddr (a + of_nat i) (m_segs M)"
  by (simp add: mem_accessible_def)

definition mem_room :: "nat \<Rightarrow> RevMem \<Rightarrow> bool" where
  "mem_room k M \<longleftrightarrow> unat (m_nextPage M) + k \<le> 16383 \<and>
     (unat (m_nextPage M) + k) * 2 ^ 18 \<le> unat (s_memSize (m_segs M))"

lemma mem_ext_room:
  "mem_ext M M' \<Longrightarrow> mem_room (Suc k) M \<Longrightarrow> mem_room k M'"
  by (auto simp: mem_ext_def mem_room_def)

lemma mem_room_mono: "mem_room (Suc k) M \<Longrightarrow> mem_room k M"
  by (simp add: mem_room_def)

lemma mem_room_fits:
  "mem_room k M \<Longrightarrow> unat (m_nextPage M) * 2 ^ 18 \<le> unat (s_memSize (m_segs M))"
  by (simp add: mem_room_def)

text \<open>The fields an access may change besides the memory itself are irrelevant to the invariant.\<close>

lemma mem_inv_stats [simp]:
  "mem_inv (M\<lparr>m_bytesWritten := x\<rparr>) = mem_inv M"
  "mem_inv (M\<lparr>m_bytesRead := x\<rparr>) = mem_inv M"
  "mem_inv (M\<lparr>m_FutureRes := fs\<rparr>) = mem_inv M"
  "mem_inv (M\<lparr>m_ApplyAMO := ts\<rparr>) = mem_inv M"
  by (simp_all add: mem_inv_def tlb_agrees_def pages_ok_def)

lemma vmem_stats [simp]:
  "vmem (M\<lparr>m_bytesWritten := x\<rparr>) = vmem M"
  "vmem (M\<lparr>m_bytesRead := x\<rparr>) = vmem M"
  "vmem (M\<lparr>m_FutureRes := fs\<rparr>) = vmem M"
  "vmem (M\<lparr>m_ApplyAMO := ts\<rparr>) = vmem M"
  by (rule ext; simp add: vmem_def split: option.splits)+

lemma RevokeFuture_frame [simp]:
  "mem_inv (snd (RevokeFuture a M)) = mem_inv M"
  "vmem (snd (RevokeFuture a M)) = vmem M"
  "m_segs (snd (RevokeFuture a M)) = m_segs M"
  "mem_room k (snd (RevokeFuture a M)) = mem_room k M"
  by (simp_all add: RevokeFuture_def mem_room_def)

lemma access_AMO_tables:
  "CalcPhysAddr pg v M = Inr (pa, M') \<Longrightarrow> m_ApplyAMO M' = m_ApplyAMO M"
  "ReadMem h a n M = Inr (bs, M') \<Longrightarrow> m_ApplyAMO M' = m_ApplyAMO M"
  "WriteMem h a bs M = Inr (ok, M') \<Longrightarrow> m_ApplyAMO M' = m_ApplyAMO M"
proof -
  show calc: "m_ApplyAMO M' = m_ApplyAMO M" if "CalcPhysAddr pg v M = Inr (pa, M')" for pg v M pa M'
    using that by (auto simp: CalcPhysAddr_def map_page_def res_bind_eq_Inr Let_def split: if_splits option.splits)
  have pm: "pageMap_first pg M = (p, M') \<Longrightarrow> m_ApplyAMO M' = m_ApplyAMO M" for pg M p M'
    by (auto simp: pageMap_first_def split: option.splits)
  have w: "phys_write p bs M = Inr M' \<Longrightarrow> m_ApplyAMO M' = m_ApplyAMO M" for p bs M M'
    by (auto simp: phys_write_def split: if_splits)
  show "m_ApplyAMO M' = m_ApplyAMO M" if r: "ReadMem h a n M = Inr (bs, M')"
  proof -
    obtain pa M1 where 1: "CalcPhysAddr (drop_bit 18 a) a M = Inr (pa, M1)" using r by (auto simp: ReadMem_def res_bind_eq_Inr Let_def)
    obtain p M2 where 2: "pageMap_first (drop_bit 18 a) M1 = (p, M2)" by fastforce
    show ?thesis using r 1 2 calc [OF 1] pm [OF 2]
      by (cases "split_access a n pa (endOfPage p)") (auto simp: ReadMem_def res_bind_eq_Inr Let_def split: if_splits dest!: calc)
  qed
  have rf: "m_ApplyAMO (snd (RevokeFuture a M)) = m_ApplyAMO M" by (simp add: RevokeFuture_def)
  show "m_ApplyAMO M' = m_ApplyAMO M" if r: "WriteMem h a bs M = Inr (ok, M')"
  proof -
    obtain pa M1 where 1: "CalcPhysAddr (drop_bit 18 a) a (snd (RevokeFuture a M)) = Inr (pa, M1)"
      using r by (auto simp: WriteMem_def res_bind_eq_Inr case_prod_beta Let_def)
    obtain p M2 where 2: "pageMap_first (drop_bit 18 a) M1 = (p, M2)" by fastforce
    show ?thesis using r 1 2 calc [OF 1] pm [OF 2] rf
      by (cases "split_access a (length bs) pa (endOfPage p)")
        (auto simp: WriteMem_def res_bind_eq_Inr Let_def case_prod_beta split: if_splits dest!: calc w)
  qed
qed

text \<open>Both translations of an access that crosses into the next page.\<close>

lemma translate_second:
  assumes "mem_inv M1" "m_pageMap M1 (drop_bit 18 a) = Some (f, b)" "mem_room (Suc k) M1"
    and "isValidVirtAddr c (m_segs M1)"
  shows "\<exists>g d M2. CalcPhysAddr (drop_bit 18 c) c M1 = Inr (page_paddr g c, M2) \<and> mem_ext M1 M2 \<and>
    m_pageMap M2 (drop_bit 18 c) = Some (g, d) \<and> m_pageMap M2 (drop_bit 18 a) = Some (f, b) \<and>
    mem_room k M2"
proof -
  have "unat (m_nextPage M1) < 16383" using assms(3) by (simp add: mem_room_def)
  from CalcPhysAddr_ok [OF assms(1,4) this] obtain g d M2 where
    M2: "CalcPhysAddr (drop_bit 18 c) c M1 = Inr (page_paddr g c, M2)" "mem_ext M1 M2"
      "m_pageMap M2 (drop_bit 18 c) = Some (g, d)" by blast
  moreover have "m_pageMap M2 (drop_bit 18 a) = Some (f, b)"
    using M2(2) assms(2) by (metis domI map_le_def mem_ext_def)
  ultimately show ?thesis using mem_ext_room [OF M2(2) assms(3)] by blast
qed

lemma translate_first:
  assumes "mem_inv M" "mem_accessible a n M" "mem_room (Suc k) M"
  shows "\<exists>f b M1. CalcPhysAddr (drop_bit 18 a) a M = Inr (page_paddr f a, M1) \<and> mem_ext M M1 \<and>
    m_pageMap M1 (drop_bit 18 a) = Some (f, b) \<and> mem_room k M1 \<and> unat f < 16383"
proof -
  have "isValidVirtAddr (a + of_nat 0) (m_segs M)"
    using assms(2) unfolding mem_accessible_def by blast
  then have v: "isValidVirtAddr a (m_segs M)" by simp
  have "unat (m_nextPage M) < 16383" using assms(3) by (simp add: mem_room_def)
  from CalcPhysAddr_ok [OF assms(1) v this] obtain f b M1 where
    M1: "CalcPhysAddr (drop_bit 18 a) a M = Inr (page_paddr f a, M1)" "mem_ext M M1"
      "m_pageMap M1 (drop_bit 18 a) = Some (f, b)" by blast
  have inv1: "mem_inv M1" using M1(2) by (simp add: mem_ext_def)
  have "unat f < 16383"
    using mem_invD(3) [OF inv1] mem_invD(4) [OF inv1 M1(3)] by (simp add: word_less_nat_alt)
  then show ?thesis using M1 mem_ext_room [OF M1(2) assms(3)] by blast
qed

lemma pageMap_first_mapped:
  "m_pageMap M pg = Some (f, b) \<Longrightarrow> pageMap_first pg M = (f, M)"
  by (simp add: pageMap_first_def)

text \<open>Two writes side by side are one write.\<close>

lemma upd_bytes_append:
  assumes "length xs + length ys < 2 ^ 64"
  shows "upd_bytes (v + of_nat (length xs)) ys (upd_bytes v xs m) = upd_bytes v (xs @ ys) m"
proof
  fix a
  show "upd_bytes (v + of_nat (length xs)) ys (upd_bytes v xs m) a = upd_bytes v (xs @ ys) m a"
  proof (cases "length xs \<le> unat (a - v)")
    case True
    have "of_nat (length xs) \<le> a - v"
      using True assms by (simp add: word_le_nat_alt unat_of_nat)
    then have "unat (a - v - of_nat (length xs)) = unat (a - v) - unat (of_nat (length xs) :: u64)"
      by (rule unat_sub_ok)
    then have "unat (a - (v + of_nat (length xs))) = unat (a - v) - length xs"
      using assms by (simp add: unat_of_nat diff_diff_eq)
    then show ?thesis using True by (auto simp: upd_bytes_def nth_append)
  next
    case False
    have "\<not> unat (a - (v + of_nat (length xs))) < length ys"
    proof
      assume lt: "unat (a - (v + of_nat (length xs))) < length ys"
      have "a - v = of_nat (length xs) + (a - (v + of_nat (length xs)))" by simp
      then have "unat (a - v) = unat (of_nat (length xs) + (a - (v + of_nat (length xs))))" by metis
      also have "\<dots> = length xs + unat (a - (v + of_nat (length xs)))"
        using lt assms by (subst unat_add_ok) (simp_all add: unat_of_nat)
      finally show False using False by simp
    qed
    then show ?thesis using False by (auto simp: upd_bytes_def nth_append)
  qed
qed

lemma WriteMem_ok:
  assumes "mem_inv M" "mem_accessible a (length bs) M" "mem_room (Suc (Suc k)) M"
  shows "\<exists>M'. WriteMem h a bs M = Inr (True, M') \<and> mem_inv M' \<and>
    vmem M' = upd_bytes a bs (vmem M) \<and> mem_room k M' \<and> m_segs M' = m_segs M"
proof -
  let ?M = "snd (RevokeFuture a M)" and ?n = "length bs"
  have acc: "?n \<le> 2 ^ 18" "unat a + ?n \<le> 2 ^ 50" using assms(2) by (simp_all add: mem_accessible_def)
  have "mem_accessible a ?n ?M" using assms(2) by (simp add: mem_accessible_def)
  from translate_first [of ?M, OF _ this, of "Suc k"] assms obtain f b M1 where
    M1: "CalcPhysAddr (drop_bit 18 a) a ?M = Inr (page_paddr f a, M1)" "mem_ext ?M M1"
      "m_pageMap M1 (drop_bit 18 a) = Some (f, b)" "mem_room (Suc k) M1" and f: "unat f < 16383" by auto
  have e1: "mem_inv M1" "vmem M1 = vmem M" "m_segs M1 = m_segs M"
    using M1(2) by (simp_all add: mem_ext_def)
  show ?thesis
  proof (cases "unat a mod 2 ^ 18 + ?n \<le> 2 ^ 18")
    case True
    obtain M2 where "phys_write (page_paddr f a) bs M1 = Inr M2" "mem_inv M2"
      "vmem M2 = upd_bytes a bs (vmem M1)" "m_segs M2 = m_segs M1" "m_nextPage M2 = m_nextPage M1"
      using phys_write_page [OF e1(1) M1(3) True mem_room_fits [OF M1(4)]] by blast
    then show ?thesis
      using M1(1,4) e1 split_access_none [OF f True]
      by (auto simp: WriteMem_def pageMap_first_mapped [OF M1(3)] mem_room_def)
  next
    case False
    then have "2 ^ 18 < unat a mod 2 ^ 18 + ?n" by simp
    from split_access_some [OF f this acc] obtain span where sp:
      "split_access a ?n (page_paddr f a) (endOfPage f) = Some (span, a + of_nat (?n - unat span))"
      "unat span \<le> ?n" "unat a mod 2 ^ 18 + (?n - unat span) = 2 ^ 18"
      "unat (a + of_nat (?n - unat span)) mod 2 ^ 18 = 0"
      "ucast (ucast (drop_bit 18 (a + of_nat (?n - unat span))) :: u32) =
        drop_bit 18 (a + of_nat (?n - unat span))"
      by (elim exE conjE) (rule that)
    let ?j = "?n - unat span"
    have "?j < ?n" using False sp(3) by linarith
    with assms(2) have "isValidVirtAddr (a + of_nat ?j) (m_segs M)" by (rule mem_accessibleD)
    then have v2: "isValidVirtAddr (a + of_nat ?j) (m_segs M1)" using e1(3) by simp
    from translate_second [OF e1(1) M1(3,4) v2] obtain g d M2 where M2:
      "CalcPhysAddr (drop_bit 18 (a + of_nat ?j)) (a + of_nat ?j) M1 = Inr (page_paddr g (a + of_nat ?j), M2)"
      "mem_ext M1 M2" "m_pageMap M2 (drop_bit 18 (a + of_nat ?j)) = Some (g, d)"
      "m_pageMap M2 (drop_bit 18 a) = Some (f, b)" "mem_room k M2" by blast
    have e2: "mem_inv M2" "vmem M2 = vmem M" "m_segs M2 = m_segs M"
      using M2(2) e1 by (simp_all add: mem_ext_def)
    have l1: "unat a mod 2 ^ 18 + length (take ?j bs) \<le> 2 ^ 18" using sp(3) by simp
    obtain M3 where M3: "phys_write (page_paddr f a) (take ?j bs) M2 = Inr M3" "mem_inv M3"
      "vmem M3 = upd_bytes a (take ?j bs) (vmem M2)" "m_segs M3 = m_segs M2"
      "m_pageMap M3 = m_pageMap M2" "m_nextPage M3 = m_nextPage M2"
      using phys_write_page [OF e2(1) M2(4) l1 mem_room_fits [OF M2(5)]] by blast
    have r3: "mem_room k M3" using M2(5) M3(4,6) by (simp add: mem_room_def)
    have p3: "m_pageMap M3 (drop_bit 18 (a + of_nat ?j)) = Some (g, d)" using M2(3) M3(5) by simp
    have l2: "unat (a + of_nat ?j) mod 2 ^ 18 + length (drop ?j bs) \<le> 2 ^ 18" using sp(4) acc(1) by simp
    obtain M4 where M4: "phys_write (page_paddr g (a + of_nat ?j)) (drop ?j bs) M3 = Inr M4" "mem_inv M4"
      "vmem M4 = upd_bytes (a + of_nat ?j) (drop ?j bs) (vmem M3)" "m_segs M4 = m_segs M3"
      "m_nextPage M4 = m_nextPage M3"
      using phys_write_page [OF M3(2) p3 l2 mem_room_fits [OF r3]] by blast
    have "vmem M4 = upd_bytes a bs (vmem M)"
      using M4(3) M3(3) e2(2) upd_bytes_append [of "take ?j bs" "drop ?j bs" a "vmem M"] acc(1)
      by (simp add: min_absorb2)
    moreover have "mem_room k M4" using r3 M4(4,5) by (simp add: mem_room_def)
    moreover have "WriteMem h a bs M = Inr (True, M4\<lparr>m_bytesWritten := m_bytesWritten M4 + of_nat ?n\<rparr>)"
      using M1(1) M2(1) M3(1) M4(1) sp(1,2,5)
      by (simp add: WriteMem_def pageMap_first_mapped [OF M1(3)])
    ultimately show ?thesis using M4 M3(4) e2(3) by (simp add: mem_room_def)
  qed
qed

lemma ReadMem_ok:
  assumes "mem_inv M" "mem_accessible a n M" "mem_room (Suc (Suc k)) M"
  shows "\<exists>M'. ReadMem h a n M = Inr (vread (vmem M) a n, M') \<and> mem_inv M' \<and>
    vmem M' = vmem M \<and> mem_room k M' \<and> m_segs M' = m_segs M"
proof -
  have acc: "n \<le> 2 ^ 18" "unat a + n \<le> 2 ^ 50" using assms(2) by (simp_all add: mem_accessible_def)
  from translate_first [OF assms] obtain f b M1 where
    M1: "CalcPhysAddr (drop_bit 18 a) a M = Inr (page_paddr f a, M1)" "mem_ext M M1"
      "m_pageMap M1 (drop_bit 18 a) = Some (f, b)" "mem_room (Suc k) M1" and f: "unat f < 16383" by blast
  have e1: "mem_inv M1" "vmem M1 = vmem M" "m_segs M1 = m_segs M"
    using M1(2) by (simp_all add: mem_ext_def)
  show ?thesis
  proof (cases "unat a mod 2 ^ 18 + n \<le> 2 ^ 18")
    case True
    then show ?thesis
      using M1(1) e1 mem_room_mono [OF M1(4)] split_access_none [OF f True]
        phys_read_page [OF e1(1) M1(3) True mem_room_fits [OF M1(4)]]
      by (simp add: ReadMem_def pageMap_first_mapped [OF M1(3)] mem_room_def)
  next
    case False
    then have "2 ^ 18 < unat a mod 2 ^ 18 + n" by simp
    from split_access_some [OF f this acc] obtain span where sp:
      "split_access a n (page_paddr f a) (endOfPage f) = Some (span, a + of_nat (n - unat span))"
      "unat span \<le> n" "unat a mod 2 ^ 18 + (n - unat span) = 2 ^ 18"
      "unat (a + of_nat (n - unat span)) mod 2 ^ 18 = 0"
      "ucast (ucast (drop_bit 18 (a + of_nat (n - unat span))) :: u32) =
        drop_bit 18 (a + of_nat (n - unat span))"
      by (elim exE conjE) (rule that)
    let ?j = "n - unat span"
    have "?j < n" using False sp(3) by linarith
    with assms(2) have "isValidVirtAddr (a + of_nat ?j) (m_segs M)" by (rule mem_accessibleD)
    then have v2: "isValidVirtAddr (a + of_nat ?j) (m_segs M1)" using e1(3) by simp
    from translate_second [OF e1(1) M1(3,4) v2] obtain g d M2 where M2:
      "CalcPhysAddr (drop_bit 18 (a + of_nat ?j)) (a + of_nat ?j) M1 = Inr (page_paddr g (a + of_nat ?j), M2)"
      "mem_ext M1 M2" "m_pageMap M2 (drop_bit 18 (a + of_nat ?j)) = Some (g, d)"
      "m_pageMap M2 (drop_bit 18 a) = Some (f, b)" "mem_room k M2" by blast
    have e2: "mem_inv M2" "vmem M2 = vmem M" "m_segs M2 = m_segs M"
      using M2(2) e1 by (simp_all add: mem_ext_def)
    have l1: "unat a mod 2 ^ 18 + ?j \<le> 2 ^ 18" using sp(3) by simp
    have l2: "unat (a + of_nat ?j) mod 2 ^ 18 + unat span \<le> 2 ^ 18" using sp(2,4) acc(1) by simp
    have "vread (vmem M) a ?j @ vread (vmem M) (a + of_nat ?j) (unat span) = vread (vmem M) a n"
      using vread_append [of "vmem M" a ?j "unat span"] sp(2) by simp
    then have "ReadMem h a n M = Inr (vread (vmem M) a n, M2\<lparr>m_bytesRead := m_bytesRead M2 + of_nat n\<rparr>)"
      using M1(1) M2(1) sp(1,2,5) e2(2)
        phys_read_page [OF e2(1) M2(4) l1 mem_room_fits [OF M2(5)]]
        phys_read_page [OF e2(1) M2(3) l2 mem_room_fits [OF M2(5)]]
      by (simp add: ReadMem_def pageMap_first_mapped [OF M1(3)])
    then show ?thesis using e2 M2(5) by (simp add: mem_room_def)
  qed
qed

interpretation mem: byte_memory "ReadMem h" "WriteMem h" vmem mem_inv mem_accessible mem_room for h
proof unfold_locales
  fix M a n k and bs :: "u8 list"
  show "unat a + n \<le> 2 ^ 50" if "mem_accessible a n M"
    using that by (simp add: mem_accessible_def)
  assume M: "mem_inv M" "mem_room (Suc (Suc k)) M"
  show "\<exists>s'. ReadMem h a n M = Inr (vread (vmem M) a n, s') \<and> mem_inv s' \<and> vmem s' = vmem M \<and>
      mem_room k s' \<and> (\<forall>b m. mem_accessible b m s' = mem_accessible b m M)"
    if "mem_accessible a n M"
    using ReadMem_ok [OF M(1) that M(2)] by (fastforce simp: mem_accessible_def)
  show "\<exists>s'. WriteMem h a bs M = Inr (True, s') \<and> mem_inv s' \<and> vmem s' = upd_bytes a bs (vmem M) \<and>
      mem_room k s' \<and> (\<forall>b m. mem_accessible b m s' = mem_accessible b m M)"
    if "mem_accessible a (length bs) M"
    using WriteMem_ok [OF M(1) that M(2)] by (fastforce simp: mem_accessible_def)
qed

lemma mem_inv_init: "0 < n \<Longrightarrow> mem_inv (RevMem_init sz n mh heap)"
  using tlb_inv_init [of n]
  by (simp add: mem_inv_def RevMem_init_def SetTLBSize_def tlb_agrees_def pages_ok_def tlb_abs_def
      RevTLB_init_def)

text \<open>
  A memory of 1 GiB with a segment around the boundary of the first two pages, and the
  accesses the examples below make to it.
\<close>

lemmas mem_eval = RevMem_init_def AddMemSegAt_def RevSegs_init_def SetTLBSize_def RevTLB_init_def
  STACK_SIZE_def pageSize_def INVALID_ADDR_def mk_MemSegment_def isValidVirtAddr_def
  seg_contains_def SearchTLB_def AddToTLB_def LRU_push_front_def LRU_erase_def TLB_set_def
  CalcPhysAddr_def page_paddr_def pageMap_first_def endOfPage_def split_access_def
  RevokeFuture_def phys_ok_def phys_read_def phys_write_def ReadMem_def WriteMem_def

definition mem_example :: RevMem where
  "mem_example = (RevMem_init 0x40000000 8 0 (0, 0, 0))
     \<lparr>m_segs := snd (AddMemSegAt 0x3F000 0x2000 (RevSegs_init 0x40000000 0 (0, 0, 0)))\<rparr>"

lemma mem_example_inv: "mem_inv mem_example" "mem_room 4 mem_example"
proof -
  have "mem_inv (RevMem_init 0x40000000 8 0 (0, 0, 0))" by (rule mem_inv_init) simp
  then show "mem_inv mem_example"
    by (simp add: mem_example_def mem_inv_def tlb_agrees_def pages_ok_def)
  show "mem_room 4 mem_example"
    by (simp add: mem_example_def mem_room_def RevMem_init_def RevSegs_init_def AddMemSegAt_def)
qed

lemma mem_example_accessible:
  "mem_accessible 0x3FFFE 4 mem_example" "mem_accessible 0x3F010 4 mem_example"
  by (simp_all add: mem_accessible_def mem_example_def isValidVirtAddr_def RevSegs_init_def
      AddMemSegAt_def mk_MemSegment_def seg_contains_def all_less_4)

lemma length_example: "length [1, 2, 3, 4 :: u8] = 4"
  by simp

section \<open>Properties\<close>





text \<open>
  C36: an address outside every segment that is not cached in the TLB is a segmentation
  fault: reading it, writing it or flushing its line ends the simulation, and no page is
  allocated for it.
\<close>

theorem access_invalid_faults:
  assumes "\<not> isValidVirtAddr a (m_segs M)" "t_TLB (m_tlb M) a = None"
  shows "ReadMem h a n M = Inl (Fatal ''Segmentation Fault'') \<and>
    WriteMem h a bs M = Inl (Fatal ''Segmentation Fault'') \<and>
    FlushLine h a M = Inl (Fatal ''Segmentation Fault'')"
proof -
  have "CalcPhysAddr pg a N = Inl (Fatal ''Segmentation Fault'')"
    if "m_segs N = m_segs M" "m_tlb N = m_tlb M" for pg N
    using assms that by (simp add: CalcPhysAddr_def SearchTLB_miss)
  moreover have "m_tlb (snd (RevokeFuture a M)) = m_tlb M" by (simp add: RevokeFuture_def)
  ultimately show ?thesis by (simp add: ReadMem_def WriteMem_def FlushLine_def)
qed

theorem access_invalid_faults_witness:
  "ReadMem 0 0 8 mem_example = Inl (Fatal ''Segmentation Fault'')"
proof -
  have "\<not> isValidVirtAddr 0 (m_segs mem_example)" "t_TLB (m_tlb mem_example) 0 = None"
    by (simp_all add: mem_example_def RevMem_init_def isValidVirtAddr_def RevSegs_init_def
        AddMemSegAt_def mk_MemSegment_def seg_contains_def SetTLBSize_def RevTLB_init_def)
  from access_invalid_faults [OF this] show ?thesis by blast
qed

text \<open>
  The frame arithmetic is done on 32 bits. Pages 16384 apart get the same physical
  addresses, so a memory of more than 4 GiB of touched pages overwrites itself, and the end
  of the last frame below that limit is computed as zero.
\<close>

theorem page_paddr_wraps:
  "page_paddr (f + 16384) v = page_paddr f v \<and> endOfPage 16383 = 0"
proof
  have "push_bit 18 (f + 16384 :: u32) = push_bit 18 f"
    by (simp add: push_bit_eq_mult distrib_right)
  then show "page_paddr (f + 16384) v = page_paddr f v" by (simp add: page_paddr_def)
  show "endOfPage 16383 = 0" by (simp add: endOfPage_def pageSize_def)
qed

text \<open>
  the deprecated \<^verbatim>\<open>ReadMem\<close> that \<^verbatim>\<open>ReadU64\<close> uses loses data at a page boundary: of the two
  bytes written to the second page only the last one reaches the buffer, in the place of the
  first, and the last byte of the buffer keeps its old value.
\<close>

theorem ReadMem_old_crossing:
  "res_bind (WriteMem 0 0x3FFFE [1, 2, 3, 4] mem_example) (\<lambda>(_, M).
   res_bind (ReadMem_old 0x3FFFE [9, 9, 9, 9] M) (\<lambda>(bs, _). Inr bs)) = Inr [1, 2, 4, 9]"
  by (simp add: mem_eval mem_example_def ReadMem_old_def upt_rec)

text \<open>
  freeing memory does not invalidate its translations: after a byte of a segment has been
  accessed and the segment deallocated, the address is no longer valid and yet the read
  through the cached translation succeeds.
\<close>

theorem stale_translation_after_DeallocMem:
  "res_bind (WriteMem 0 0x3F000 [7] mem_example) (\<lambda>(_, M).
   res_bind (DeallocMem 0x3F000 0x2000 (m_segs M)) (\<lambda>(_, S).
   let M' = M\<lparr>m_segs := S\<rparr> in
   res_bind (ReadMem 0 0x3F000 1 M') (\<lambda>(bs, _). Inr (isValidVirtAddr 0x3F000 S, bs)))) =
   Inr (False, [7])"
  by (simp add: mem_eval mem_example_def DeallocMem_def)

end
