(* ===== verification/Rev_RegFile.thy ===== *)
theory Rev_RegFile
  imports Rev_Feature
begin

text \<open>
  \<^verbatim>\<open>include/RevRegFile.h\<close>: the register file of a hart. The C++ unions are kept: the integer
  registers are 32 words of 64 bits, of which the \<^verbatim>\<open>RV32\<close> array views the first 32 halves, and
  the program counter and the trap registers are 64-bit words whose low half is the RV32
  register. The locale \<open>register_file\<close> states the contract of registers with a hard-wired
  zero; it is interpreted at both widths.
\<close>

section \<open>State\<close>

record RevRegFile =
  rf_IsRV32 :: bool
  rf_HasD :: bool
  rf_trigger :: bool
  rf_Entry :: u32
  rf_cost :: u32
  rf_PC :: u64
  rf_frm :: u8
  rf_RV :: "nat \<Rightarrow> u64"
  rf_FP :: "nat \<Rightarrow> u64"
  rf_RV_Scoreboard :: "nat \<Rightarrow> bool"
  rf_FP_Scoreboard :: "nat \<Rightarrow> bool"
  rf_SEPC :: u64
  rf_SCAUSE :: u64
  rf_STVAL :: u64

definition mk_RevRegFile :: "RevFeature \<Rightarrow> RevRegFile" where
  "mk_RevRegFile F = \<lparr>rf_IsRV32 = IsRV32 F, rf_HasD = HasD F, rf_trigger = False, rf_Entry = 0,
     rf_cost = 0, rf_PC = 0, rf_frm = 0, rf_RV = (\<lambda>_. 0), rf_FP = (\<lambda>_. 0),
     rf_RV_Scoreboard = (\<lambda>_. False), rf_FP_Scoreboard = (\<lambda>_. False),
     rf_SEPC = 0, rf_SCAUSE = 0, rf_STVAL = 0\<rparr>"

section \<open>The unions\<close>

text \<open>Element \<open>i\<close> of the 32-bit array that overlays an array of 64-bit words.\<close>

definition half_get :: "(nat \<Rightarrow> u64) \<Rightarrow> nat \<Rightarrow> u32" where
  "half_get X i = (if even i then ucast (X (i div 2)) else ucast (drop_bit 32 (X (i div 2))))"

definition half_set :: "nat \<Rightarrow> u32 \<Rightarrow> (nat \<Rightarrow> u64) \<Rightarrow> nat \<Rightarrow> u64" where
  "half_set i v X = X(i div 2 :=
     (if even i then (X (i div 2) AND 0xFFFFFFFF00000000) OR ucast v
      else (X (i div 2) AND 0x00000000FFFFFFFF) OR push_bit 32 (ucast v)))"

text \<open>Writing the 32-bit member of a union of one word.\<close>

definition low_set :: "u32 \<Rightarrow> u64 \<Rightarrow> u64" where
  "low_set v w = (w AND 0xFFFFFFFF00000000) OR ucast v"

abbreviation rf_RV32 :: "RevRegFile \<Rightarrow> nat \<Rightarrow> u32" where
  "rf_RV32 R \<equiv> half_get (rf_RV R)"

section \<open>Accessors\<close>

text \<open>\<^verbatim>\<open>RevReg(rs) != RevReg::zero\<close>: the register number is narrowed to 16 bits.\<close>

definition is_zero_reg :: "u64 \<Rightarrow> bool" where
  "is_zero_reg rs \<longleftrightarrow> (ucast rs :: u16) = 0"

definition GetX :: "RevRegFile \<Rightarrow> u64 \<Rightarrow> 'a::len word" where
  "GetX R rs =
     (if rf_IsRV32 R then (if \<not> is_zero_reg rs then ucast (rf_RV32 R (unat rs)) else 0)
      else (if \<not> is_zero_reg rs then ucast (rf_RV R (unat rs)) else 0))"

text \<open>
  \<^verbatim>\<open>SetX\<close> at an unsigned and at a signed value type: the value passes through its own type
  before it is stored, so a narrow signed value is sign extended.
\<close>

definition SetX_u :: "u64 \<Rightarrow> 'a::len word \<Rightarrow> RevRegFile \<Rightarrow> RevRegFile" where
  "SetX_u rd val R =
     (if rf_IsRV32 R
      then R\<lparr>rf_RV := half_set (unat rd) (if \<not> is_zero_reg rd then ucast val else 0) (rf_RV R)\<rparr>
      else R\<lparr>rf_RV := (rf_RV R)(unat rd := (if \<not> is_zero_reg rd then ucast val else 0))\<rparr>)"

definition SetX_s :: "u64 \<Rightarrow> 'a::len word \<Rightarrow> RevRegFile \<Rightarrow> RevRegFile" where
  "SetX_s rd val R =
     (if rf_IsRV32 R
      then R\<lparr>rf_RV := half_set (unat rd) (if \<not> is_zero_reg rd then scast val else 0) (rf_RV R)\<rparr>
      else R\<lparr>rf_RV := (rf_RV R)(unat rd := (if \<not> is_zero_reg rd then scast val else 0))\<rparr>)"

definition GetPC :: "RevRegFile \<Rightarrow> u64" where
  "GetPC R = (if rf_IsRV32 R then ucast (ucast (rf_PC R) :: u32) else rf_PC R)"

definition SetPC :: "u64 \<Rightarrow> RevRegFile \<Rightarrow> RevRegFile" where
  "SetPC val R =
     (if rf_IsRV32 R then R\<lparr>rf_PC := low_set (ucast val) (rf_PC R)\<rparr> else R\<lparr>rf_PC := val\<rparr>)"

definition AdvancePC_size :: "u8 \<Rightarrow> RevRegFile \<Rightarrow> RevRegFile" where
  "AdvancePC_size instSize R =
     (if rf_IsRV32 R then R\<lparr>rf_PC := low_set (ucast (rf_PC R) + ucast instSize) (rf_PC R)\<rparr>
      else R\<lparr>rf_PC := rf_PC R + ucast instSize\<rparr>)"

definition SetSEPC :: "RevRegFile \<Rightarrow> RevRegFile" where
  "SetSEPC R =
     (if rf_IsRV32 R then R\<lparr>rf_SEPC := low_set (ucast (rf_PC R)) (rf_SEPC R)\<rparr>
      else R\<lparr>rf_SEPC := rf_PC R\<rparr>)"

definition SetSTVAL :: "u64 \<Rightarrow> RevRegFile \<Rightarrow> RevRegFile" where
  "SetSTVAL val R =
     (if rf_IsRV32 R then R\<lparr>rf_STVAL := low_set (ucast val) (rf_STVAL R)\<rparr>
      else R\<lparr>rf_STVAL := val\<rparr>)"

definition SetSCAUSE :: "u64 \<Rightarrow> RevRegFile \<Rightarrow> RevRegFile" where
  "SetSCAUSE val R =
     (if rf_IsRV32 R then R\<lparr>rf_SCAUSE := low_set (ucast val) (rf_SCAUSE R)\<rparr>
      else R\<lparr>rf_SCAUSE := val\<rparr>)"

section \<open>Floating-point registers as bit patterns\<close>

definition BoxNaN :: "u32 \<Rightarrow> u64" where
  "BoxNaN i32 = ucast i32 OR push_bit 32 (NOT 0)"

text \<open>
  \<^verbatim>\<open>GetFP<double>\<close>, and \<^verbatim>\<open>GetFP<float>\<close> with its NaN-boxing check (\<open>fmv_fs\<close> turns it off); the
  quiet NaN that \<^verbatim>\<open>NAN\<close> denotes on the host is the canonical one.
\<close>

definition NAN_bits :: u32 where
  "NAN_bits = 0x7FC00000"

definition GetFP_double :: "RevRegFile \<Rightarrow> u64 \<Rightarrow> u64" where
  "GetFP_double R rs = rf_FP R (unat rs)"

definition GetFP_float :: "bool \<Rightarrow> RevRegFile \<Rightarrow> u64 \<Rightarrow> u32" where
  "GetFP_float fmv_fs R rs =
     (if \<not> rf_HasD R then half_get (rf_FP R) (unat rs)
      else let i64 = rf_FP R (unat rs)
           in if \<not> fmv_fs \<and> drop_bit 32 (NOT i64) \<noteq> 0 then NAN_bits else ucast i64)"

definition SetFP_double :: "u64 \<Rightarrow> u64 \<Rightarrow> RevRegFile \<Rightarrow> RevRegFile" where
  "SetFP_double rd val R = R\<lparr>rf_FP := (rf_FP R)(unat rd := val)\<rparr>"

definition SetFP_float :: "u64 \<Rightarrow> u32 \<Rightarrow> RevRegFile \<Rightarrow> RevRegFile" where
  "SetFP_float rd val R =
     (if rf_HasD R then R\<lparr>rf_FP := (rf_FP R)(unat rd := BoxNaN val)\<rparr>
      else R\<lparr>rf_FP := half_set (unat rd) val (rf_FP R)\<rparr>)"

section \<open>The contract of a register file\<close>

locale register_file =
  fixes get :: "'s \<Rightarrow> u64 \<Rightarrow> 'v::zero"
    and set_reg :: "u64 \<Rightarrow> 'v \<Rightarrow> 's \<Rightarrow> 's"
    and inv :: "'s \<Rightarrow> bool"
  assumes get_zero: "inv r \<Longrightarrow> get r 0 = 0"
    and get_set_same: "inv r \<Longrightarrow> 0 < i \<Longrightarrow> i < 32 \<Longrightarrow> get (set_reg i v r) i = v"
    and get_set_other: "inv r \<Longrightarrow> i < 32 \<Longrightarrow> j < 32 \<Longrightarrow> i \<noteq> j \<Longrightarrow> get (set_reg i v r) j = get r j"
    and inv_set: "inv r \<Longrightarrow> inv (set_reg i v r)"
begin

text \<open>A register holds what the last write to it stored; writes to x0 have no effect.\<close>

fun last_write :: "u64 \<Rightarrow> 'v \<Rightarrow> (u64 \<times> 'v) list \<Rightarrow> 'v" where
  "last_write j v [] = v"
| "last_write j v (w # ws) = last_write j (if fst w = j then snd w else v) ws"

lemma inv_fold: "inv r \<Longrightarrow> inv (fold (\<lambda>w. set_reg (fst w) (snd w)) ws r)"
  by (induction ws arbitrary: r) (simp_all add: inv_set)

lemma get_fold:
  assumes "inv r" "0 < j" "j < 32" "list_all (\<lambda>w. fst w < 32) ws"
  shows "get (fold (\<lambda>w. set_reg (fst w) (snd w)) ws r) j = last_write j (get r j) ws"
  using assms by (induction ws arbitrary: r) (simp_all add: inv_set get_set_same get_set_other)

lemma get_fold_zero:
  "inv r \<Longrightarrow> get (fold (\<lambda>w. set_reg (fst w) (snd w)) ws r) 0 = 0"
  by (simp add: inv_fold get_zero)

end

section \<open>Lemmas\<close>

lemma half_get_set: "half_get (half_set i v X) j = (if i = j then v else half_get X j)"
proof (cases "i div 2 = j div 2")
  case True
  have "i = j" if "even i = even j"
    using that True by (metis div_mult_mod_eq even_iff_mod_2_eq_zero not_mod_2_eq_0_eq_1)
  then show ?thesis
    using True by (auto simp: half_get_def half_set_def word_enum bit_simps)
next
  case False
  then show ?thesis by (auto simp: half_get_def half_set_def)
qed

lemma low_set_low [simp]: "(ucast (low_set v w) :: u32) = v"
  by (simp add: low_set_def word_enum bit_simps)

lemma is_zero_reg_iff: "rd < 32 \<Longrightarrow> is_zero_reg rd \<longleftrightarrow> rd = 0"
proof -
  assume lt: "rd < 32"
  have "(ucast rd :: u16) = 0 \<Longrightarrow> rd = 0"
  proof -
    assume z: "(ucast rd :: u16) = 0"
    have "unat (ucast rd :: u16) = unat rd"
      using lt by (simp add: unsigned_ucast_eq take_bit_nat_eq_self word_less_nat_alt)
    with z show "rd = 0" by (simp add: word_unat_eq_iff)
  qed
  then show ?thesis by (auto simp: is_zero_reg_def)
qed

lemma is_zero_reg_0 [simp]: "is_zero_reg 0"
  by (simp add: is_zero_reg_def)

lemma SetX_frame [frame_simps, simp]:
  "rf_IsRV32 (SetX_u rd v R) = rf_IsRV32 R"  "rf_IsRV32 (SetX_s rd v R) = rf_IsRV32 R"
  "rf_HasD (SetX_u rd v R) = rf_HasD R"  "rf_HasD (SetX_s rd v R) = rf_HasD R"
  "rf_PC (SetX_u rd v R) = rf_PC R"  "rf_PC (SetX_s rd v R) = rf_PC R"
  "rf_cost (SetX_u rd v R) = rf_cost R"  "rf_cost (SetX_s rd v R) = rf_cost R"
  "GetPC (SetX_u rd v R) = GetPC R"  "GetPC (SetX_s rd v R) = GetPC R"
  by (simp_all add: SetX_u_def SetX_s_def GetPC_def)

lemma SetPC_frame [frame_simps, simp]:
  "rf_IsRV32 (SetPC v R) = rf_IsRV32 R"  "rf_RV (SetPC v R) = rf_RV R"
  "rf_IsRV32 (AdvancePC_size n R) = rf_IsRV32 R"  "rf_RV (AdvancePC_size n R) = rf_RV R"
  by (simp_all add: SetPC_def AdvancePC_size_def)

lemma GetX_PC_frame [frame_simps, simp]:
  "GetX (SetPC v R) rs = GetX R rs"  "GetX (AdvancePC_size n R) rs = GetX R rs"
  by (simp_all add: GetX_def)

lemma GetX_cost [simp]: "GetX (R\<lparr>rf_cost := c\<rparr>) rs = GetX R rs"
  by (simp add: GetX_def)

lemma GetPC_SetPC [simp]:
  "GetPC (SetPC v R) = (if rf_IsRV32 R then ucast (ucast v :: u32) else v)"
  by (simp add: GetPC_def SetPC_def)

lemma GetPC_AdvancePC [simp]:
  "GetPC (AdvancePC_size n R) =
     (if rf_IsRV32 R then ucast (ucast (GetPC R) + ucast n :: u32) else GetPC R + ucast n)"
  by (simp add: GetPC_def AdvancePC_size_def)

lemma GetX_zero [simp]: "GetX R 0 = 0"
  by (simp add: GetX_def)

lemma GetX_SetX_u:
  assumes "rd < 32" "rs < 32"
  shows "(GetX (SetX_u rd v R) rs :: 'a::len word) =
    (if rs = 0 then 0 else if rd = rs then (if rf_IsRV32 R then ucast (ucast v :: u32) else ucast (ucast v :: u64))
     else GetX R rs)"
  using assms by (auto simp: GetX_def SetX_u_def is_zero_reg_iff half_get_set word_unat_eq_iff)

lemma GetX_SetX_s:
  assumes "rd < 32" "rs < 32"
  shows "(GetX (SetX_s rd v R) rs :: 'a::len word) =
    (if rs = 0 then 0 else if rd = rs then (if rf_IsRV32 R then ucast (scast v :: u32) else ucast (scast v :: u64))
     else GetX R rs)"
  using assms by (auto simp: GetX_def SetX_s_def is_zero_reg_iff half_get_set word_unat_eq_iff)

interpretation rv64: register_file "GetX :: RevRegFile \<Rightarrow> u64 \<Rightarrow> u64" SetX_u "\<lambda>R. \<not> rf_IsRV32 R"
  by unfold_locales (auto simp: GetX_SetX_u word_less_nat_alt)

interpretation rv32: register_file "GetX :: RevRegFile \<Rightarrow> u64 \<Rightarrow> u32" SetX_u rf_IsRV32
  by unfold_locales (auto simp: GetX_SetX_u word_less_nat_alt)

section \<open>Properties\<close>

text \<open>
  C34: the integer registers behave as the ISA's: after any sequence of \<^verbatim>\<open>SetX\<close>, x0 reads as
  zero and every other register as the last value written to it, for an RV64 and for an RV32
  core, although the 32-bit registers overlay the 64-bit ones.
\<close>

theorem RegFile_last_write:
  assumes "0 < j" "j < 32" "list_all (\<lambda>w. fst w < 32) ws" "list_all (\<lambda>w. fst w < 32) ws'"
  shows "(\<not> rf_IsRV32 R \<longrightarrow>
      (GetX (fold (\<lambda>w. SetX_u (fst w) (snd w)) ws R) j :: u64) =
        register_file.last_write j (GetX R j) ws \<and>
      (GetX (fold (\<lambda>w. SetX_u (fst w) (snd w)) ws R) 0 :: u64) = 0) \<and>
    (rf_IsRV32 R \<longrightarrow>
      (GetX (fold (\<lambda>w. SetX_u (fst w) (snd w)) ws' R) j :: u32) =
        register_file.last_write j (GetX R j) ws' \<and>
      (GetX (fold (\<lambda>w. SetX_u (fst w) (snd w)) ws' R) 0 :: u32) = 0)"
  using rv64.get_fold [OF _ assms(1,2,3)] rv32.get_fold [OF _ assms(1,2,4)]
    rv64.get_fold_zero rv32.get_fold_zero by blast

theorem RegFile_last_write_witness:
  "(GetX (SetX_u 5 (7::u64) (SetX_u 6 (9::u64) (SetX_u 5 (3::u64) (mk_RevRegFile feature_RV64GC)))) 5
    :: u64) = 7"
  using RegFile_last_write [of 5 "[(5, 3), (6, 9), (5, 7 :: u64)]" "[] :: (u64 \<times> u32) list"
      "mk_RevRegFile feature_RV64GC"]
  by (simp add: mk_RevRegFile_def IsRV32_def feature_RV64GC_def)

text \<open>
  a 32-bit float written to a register of a core with D is read back unchanged, and a
  64-bit value whose upper half is not all ones reads as the canonical NaN when it is used as
  a float, except by moves and stores, which transfer the low half.
\<close>

theorem GetFP_boxing:
  assumes "rf_HasD R"
  shows "GetFP_float b (SetFP_float rd v R) rd = v \<and>
    (drop_bit 32 w \<noteq> 0xFFFFFFFF \<longrightarrow>
       GetFP_float False (SetFP_double rd w R) rd = NAN_bits \<and>
       GetFP_float True (SetFP_double rd w R) rd = ucast w)"
proof -
  have "drop_bit 32 (NOT (BoxNaN v)) = 0" "ucast (BoxNaN v) = v"
    by (simp_all add: BoxNaN_def word_enum bit_simps)
  moreover have "drop_bit 32 (NOT w) = 0 \<Longrightarrow> drop_bit 32 w = 0xFFFFFFFF"
    by (simp add: word_enum bit_simps)
  ultimately show ?thesis
    using assms by (auto simp: GetFP_float_def SetFP_float_def SetFP_double_def Let_def)
qed

theorem GetFP_boxing_witness:
  "GetFP_float False (SetFP_double 3 0x3FF0000000000000 (mk_RevRegFile feature_RV64GC)) 3 = NAN_bits"
proof -
  have "rf_HasD (mk_RevRegFile feature_RV64GC)"
    by (simp add: mk_RevRegFile_def HasD_def IsModeEnabled_def RV_D_def feature_RV64GC_def)
  from GetFP_boxing [OF this, of True 3 0 "0x3FF0000000000000"] show ?thesis by simp
qed

end
