(* ===== verification/Rev_InstTable.thy ===== *)
theory Rev_InstTable
  imports Rev_RegFile Rev_Mem
begin

text \<open>
  \<^verbatim>\<open>include/RevInstTable.h\<close>: the decoded instruction and the entries of the instruction tables,
  and the state an instruction acts on: the register file of the executing hart, the memory,
  and the load/store queue with the fetch queue that \<^verbatim>\<open>RevProc::MarkLoadComplete\<close> maintains.
\<close>

section \<open>Instructions\<close>

datatype RevInstF = RVTypeUNKNOWN | RVTypeR | RVTypeI | RVTypeS | RVTypeU | RVTypeB | RVTypeJ
  | RVTypeR4 | RVCTypeCR | RVCTypeCI | RVCTypeCSS | RVCTypeCIW | RVCTypeCL | RVCTypeCS
  | RVCTypeCA | RVCTypeCB | RVCTypeCJ

datatype RevImmFunc = FUnk | FImm | FEnc | FVal

definition FRMode_None :: u8 where
  "FRMode_None = 0xFF"

definition ECALL_USER_MODE :: u64 where
  "ECALL_USER_MODE = 8"

record RevInst =
  i_opcode :: u8
  i_funct2 :: u8
  i_funct3 :: u8
  i_funct4 :: u8
  i_funct6 :: u8
  i_funct2or7 :: u8
  i_rd :: u64
  i_rs1 :: u64
  i_rs2 :: u64
  i_rs3 :: u64
  i_imm :: u64
  i_rm :: u8
  i_aq :: u8
  i_rl :: u8
  i_offset :: u16
  i_jumpTarget :: u16
  i_instSize :: u8
  i_compressed :: bool
  i_cost :: u32
  i_entry :: u32
  i_hart :: u16
  i_isCoProcInst :: bool

definition RevInst_default :: RevInst where
  "RevInst_default = \<lparr>i_opcode = 0, i_funct2 = 0, i_funct3 = 0, i_funct4 = 0, i_funct6 = 0,
     i_funct2or7 = 0, i_rd = NOT 0, i_rs1 = NOT 0, i_rs2 = NOT 0, i_rs3 = NOT 0, i_imm = 0,
     i_rm = FRMode_None, i_aq = 0, i_rl = 0, i_offset = 0, i_jumpTarget = 0, i_instSize = 0,
     i_compressed = False, i_cost = 0, i_entry = 0, i_hart = 0, i_isCoProcInst = False\<rparr>"

text \<open>The 64-bit result of \<^verbatim>\<open>SignExt\<close> is returned as \<^verbatim>\<open>int32_t\<close>.\<close>

definition ImmSignExt :: "RevInst \<Rightarrow> nat \<Rightarrow> u32" where
  "ImmSignExt I bits = ucast (SignExt (i_imm I) bits)"

definition CRegIdx :: "u64 \<Rightarrow> u64" where
  "CRegIdx x = x + 8"

definition AdvancePC :: "RevInst \<Rightarrow> RevRegFile \<Rightarrow> RevRegFile" where
  "AdvancePC I R = AdvancePC_size (i_instSize I) R"

section \<open>The state of an executing hart\<close>

text \<open>
  The floating-point arithmetic of the host the simulator runs on, on bit patterns: what the
  C++ operators and \<^verbatim>\<open><cmath>\<close> compute under the host's rounding mode (the first argument, 0 to 3
  as in \<^verbatim>\<open>FRMode\<close>), for \<^verbatim>\<open>float\<close> and \<^verbatim>\<open>double\<close>. It is a parameter of the model.
\<close>

record HostFP =
  h_add32 :: "u8 \<Rightarrow> u32 \<Rightarrow> u32 \<Rightarrow> u32"
  h_sub32 :: "u8 \<Rightarrow> u32 \<Rightarrow> u32 \<Rightarrow> u32"
  h_mul32 :: "u8 \<Rightarrow> u32 \<Rightarrow> u32 \<Rightarrow> u32"
  h_div32 :: "u8 \<Rightarrow> u32 \<Rightarrow> u32 \<Rightarrow> u32"
  h_fmin32 :: "u8 \<Rightarrow> u32 \<Rightarrow> u32 \<Rightarrow> u32"
  h_fmax32 :: "u8 \<Rightarrow> u32 \<Rightarrow> u32 \<Rightarrow> u32"
  h_fma32 :: "u8 \<Rightarrow> u32 \<Rightarrow> u32 \<Rightarrow> u32 \<Rightarrow> u32"
  h_sqrt32 :: "u8 \<Rightarrow> u32 \<Rightarrow> u32"
  h_of_int32 :: "u8 \<Rightarrow> int \<Rightarrow> u32"
  h_add64 :: "u8 \<Rightarrow> u64 \<Rightarrow> u64 \<Rightarrow> u64"
  h_sub64 :: "u8 \<Rightarrow> u64 \<Rightarrow> u64 \<Rightarrow> u64"
  h_mul64 :: "u8 \<Rightarrow> u64 \<Rightarrow> u64 \<Rightarrow> u64"
  h_div64 :: "u8 \<Rightarrow> u64 \<Rightarrow> u64 \<Rightarrow> u64"
  h_fmin64 :: "u8 \<Rightarrow> u64 \<Rightarrow> u64 \<Rightarrow> u64"
  h_fmax64 :: "u8 \<Rightarrow> u64 \<Rightarrow> u64 \<Rightarrow> u64"
  h_fma64 :: "u8 \<Rightarrow> u64 \<Rightarrow> u64 \<Rightarrow> u64 \<Rightarrow> u64"
  h_sqrt64 :: "u8 \<Rightarrow> u64 \<Rightarrow> u64"
  h_of_int64 :: "u8 \<Rightarrow> int \<Rightarrow> u64"
  h_narrow :: "u8 \<Rightarrow> u64 \<Rightarrow> u32"
  h_widen :: "u32 \<Rightarrow> u64"

text \<open>
  \<open>c_hart\<close> is the number of the hart whose register file is \<open>c_R\<close>. \<^verbatim>\<open>LSQueue\<close> is an
  unordered multimap, kept as a list of its pairs. \<open>c_rand\<close> stands for the random number
  generator behind \<^verbatim>\<open>RevRand(Min, Max)\<close>: its \<open>n\<close>-th draw for given bounds. \<open>c_round\<close> is the rounding
  mode of the host, which \<^verbatim>\<open>RevFenv\<close> saves, sets and restores.
\<close>

record RevCore =
  c_hart :: u32
  c_R :: RevRegFile
  c_M :: RevMem
  c_LSQueue :: "(u64 \<times> MemReq) list"
  c_OutstandingFetchQ :: "MemReq list"
  c_rand :: "u32 \<Rightarrow> u32 \<Rightarrow> nat \<Rightarrow> u32"
  c_draws :: nat
  c_fp :: HostFP
  c_round :: u8

type_synonym inst_fun = "RevFeature \<Rightarrow> RevInst \<Rightarrow> RevCore \<Rightarrow> (bool \<times> RevCore) result"

record RevInstEntry =
  e_mnemonic :: string
  e_cost :: u32
  e_opcode :: u8
  e_funct2 :: u8
  e_funct3 :: u8
  e_funct4 :: u8
  e_funct6 :: u8
  e_funct2or7 :: u8
  e_offset :: u16
  e_jumpTarget :: u16
  e_rdClass :: RevRegClass
  e_rs1Class :: RevRegClass
  e_rs2Class :: RevRegClass
  e_rs3Class :: RevRegClass
  e_imm12 :: u16
  e_imm :: RevImmFunc
  e_format :: RevInstF
  e_func :: "inst_fun option"
  e_compressed :: bool
  e_fpcvtOp :: u8

text \<open>\<^verbatim>\<open>RevInstEntryBuilder<RevInstDefaults>\<close>; the setters are record updates.\<close>

definition RevInstDefaults :: RevInstEntry where
  "RevInstDefaults = \<lparr>e_mnemonic = ''nop'', e_cost = 1, e_opcode = 0, e_funct2 = 0, e_funct3 = 0,
     e_funct4 = 0, e_funct6 = 0, e_funct2or7 = 0, e_offset = 0, e_jumpTarget = 0,
     e_rdClass = RegGPR, e_rs1Class = RegGPR, e_rs2Class = RegGPR, e_rs3Class = RegUNKNOWN,
     e_imm12 = 0, e_imm = FUnk, e_format = RVTypeR, e_func = None, e_compressed = False,
     e_fpcvtOp = 0\<rparr>"

section \<open>Hazards\<close>

definition REV_NUM_REGS :: u64 where
  "REV_NUM_REGS = 32"

text \<open>\<^verbatim>\<open>RevProc::DependencySet(HartID, RegNum, isFloat, value)\<close> on the hart's register file.\<close>

definition DependencySet :: "u64 \<Rightarrow> bool \<Rightarrow> bool \<Rightarrow> RevRegFile \<Rightarrow> RevRegFile" where
  "DependencySet RegNum isFloat val R =
     (if RegNum < REV_NUM_REGS then
        (if isFloat then R\<lparr>rf_FP_Scoreboard := (rf_FP_Scoreboard R)(unat RegNum := val)\<rparr>
         else if RegNum \<noteq> 0 then R\<lparr>rf_RV_Scoreboard := (rf_RV_Scoreboard R)(unat RegNum := val)\<rparr>
         else R)
      else R)"

definition LSQ_insert :: "MemReq \<Rightarrow> RevCore \<Rightarrow> RevCore" where
  "LSQ_insert req C = C\<lparr>c_LSQueue := c_LSQueue C @ [LSQHashPair req]\<rparr>"

definition LSQ_count :: "u64 \<Rightarrow> RevCore \<Rightarrow> nat" where
  "LSQ_count h C = length (filter (\<lambda>e. fst e = h) (c_LSQueue C))"

text \<open>Erase the first element of a list that satisfies a predicate.\<close>

fun erase_first :: "('a \<Rightarrow> bool) \<Rightarrow> 'a list \<Rightarrow> 'a list" where
  "erase_first P [] = []"
| "erase_first P (x # xs) = (if P x then xs else x # erase_first P xs)"

definition MarkInstructionLoadComplete :: "MemReq \<Rightarrow> RevCore \<Rightarrow> RevCore" where
  "MarkInstructionLoadComplete req C =
     C\<lparr>c_OutstandingFetchQ := erase_first (\<lambda>q. mr_Addr q = mr_Addr req) (c_OutstandingFetchQ C)\<rparr>"

text \<open>
  \<^verbatim>\<open>RevProc::MarkLoadComplete\<close>. Without a memory controller a load completes inside the
  instruction that made it, so the request is always the executing hart's; one for another
  hart, whose register file is not part of this state, is left undefined.
\<close>

definition MarkLoadComplete :: "MemReq \<Rightarrow> RevCore \<Rightarrow> RevCore result" where
  "MarkLoadComplete req C =
     (let ents = filter (\<lambda>e. fst e = req_LSQHash req) (c_LSQueue C) in
      if ents = [] \<and> mr_DestReg req \<noteq> 0 then Inl (Fatal ''Cannot find outstanding load'')
      else case find (\<lambda>e. mr_Addr (snd e) = mr_Addr req) ents of
        None \<Rightarrow> Inl (Fatal ''Cannot find matching address for outstanding load'')
      | Some e \<Rightarrow>
          if mr_Hart (snd e) \<noteq> c_hart C then Inl (Undefined ''load of another hart'')
          else let C1 = (if length ents = 1
                         then C\<lparr>c_R := DependencySet (ucast (mr_DestReg (snd e)))
                                  (mr_RegType (snd e) = RegFLOAT) False (c_R C)\<rparr>
                         else C);
                   C2 = MarkInstructionLoadComplete req C1
               in Inr (C2\<lparr>c_LSQueue := erase_first
                    (\<lambda>e. fst e = req_LSQHash req \<and> mr_Addr (snd e) = mr_Addr req)
                    (c_LSQueue C2)\<rparr>))"

definition RandCost :: "RevFeature \<Rightarrow> RevCore \<Rightarrow> u32 \<times> RevCore" where
  "RandCost F C = (c_rand C (f_MinCost F) (f_MaxCost F) (c_draws C), C\<lparr>c_draws := Suc (c_draws C)\<rparr>)"

text \<open>\<^verbatim>\<open>R->cost += M->RandCost(F->GetMinCost(), F->GetMaxCost())\<close>.\<close>

definition add_cost :: "RevFeature \<Rightarrow> RevCore \<Rightarrow> RevCore" where
  "add_cost F C = (let (c, C1) = RandCost F C
     in C1\<lparr>c_R := (c_R C1)\<lparr>rf_cost := rf_cost (c_R C1) + c\<rparr>\<rparr>)"

section \<open>Lemmas\<close>

lemma erase_first_append:
  "\<not> list_ex P xs \<Longrightarrow> erase_first P (xs @ ys) = xs @ erase_first P ys"
  by (induction xs) auto

lemma DependencySet_frame [frame_simps, simp]:
  "rf_IsRV32 (DependencySet n f v R) = rf_IsRV32 R"
  "rf_RV (DependencySet n f v R) = rf_RV R"
  "rf_FP (DependencySet n f v R) = rf_FP R"
  "rf_PC (DependencySet n f v R) = rf_PC R"
  "rf_cost (DependencySet n f v R) = rf_cost R"
  "rf_HasD (DependencySet n f v R) = rf_HasD R"
  by (simp_all add: DependencySet_def)

lemma DependencySet_reads [frame_simps, simp]:
  "GetX (DependencySet n f v R) rs = GetX R rs"
  "GetPC (DependencySet n f v R) = GetPC R"
  by (simp_all add: GetX_def GetPC_def)

text \<open>
  A load that completes at once: inserted in the queue and marked complete, the queue is
  what it was before, when no other load to the same register is outstanding.
\<close>

lemma MarkLoadComplete_insert:
  assumes "LSQ_count (req_LSQHash req) C = 0" "mr_Hart req = c_hart C"
    and "c_LSQueue C' = c_LSQueue (LSQ_insert req C)" "c_hart C' = c_hart C"
  shows "MarkLoadComplete req C' = Inr (C'\<lparr>
    c_R := DependencySet (ucast (mr_DestReg req)) (mr_RegType req = RegFLOAT) False (c_R C'),
    c_OutstandingFetchQ := erase_first (\<lambda>q. mr_Addr q = mr_Addr req) (c_OutstandingFetchQ C'),
    c_LSQueue := c_LSQueue C\<rparr>)"
proof -
  have none: "filter (\<lambda>e. fst e = req_LSQHash req) (c_LSQueue C) = []"
    using assms(1) by (simp add: LSQ_count_def)
  then have ents: "filter (\<lambda>e. fst e = req_LSQHash req) (c_LSQueue C') = [LSQHashPair req]"
    using assms(3) by (simp add: LSQ_insert_def LSQHashPair_def)
  have "\<not> list_ex (\<lambda>e. fst e = req_LSQHash req \<and> mr_Addr (snd e) = mr_Addr req) (c_LSQueue C)"
    using none by (auto simp: filter_empty_conv list_ex_iff)
  then have "erase_first (\<lambda>e. fst e = req_LSQHash req \<and> mr_Addr (snd e) = mr_Addr req) (c_LSQueue C')
      = c_LSQueue C"
    using assms(3) by (simp add: LSQ_insert_def LSQHashPair_def erase_first_append)
  then show ?thesis
    unfolding MarkLoadComplete_def MarkInstructionLoadComplete_def Let_def
    using assms(2,4) by (simp add: ents LSQHashPair_def)
qed

end
