(* ===== verification/Rev_InstHelpers.thy ===== *)
theory Rev_InstHelpers
  imports Rev_InstTable "HOL-Library.Signed_Division"
begin

text \<open>
  \<^verbatim>\<open>include/RevInstHelpers.h\<close>: the templates from which the instruction tables are built. A
  template over a type becomes a definition over its width and signedness; a functor over
  any integer type becomes the pair of its 32-bit and 64-bit instances. Arithmetic on signed
  types wraps, as it does on every host the simulator runs on.
\<close>

section \<open>Little-endian bytes\<close>

text \<open>The host is little-endian: the bytes of a value, least significant first.\<close>

primrec le_bytes :: "nat \<Rightarrow> u64 \<Rightarrow> u8 list" where
  "le_bytes 0 w = []"
| "le_bytes (Suc n) w = ucast w # le_bytes n (drop_bit 8 w)"

primrec le_word :: "u8 list \<Rightarrow> u64" where
  "le_word [] = 0"
| "le_word (b # bs) = ucast b OR push_bit 8 (le_word bs)"

lemma length_le_bytes [simp]: "length (le_bytes n w) = n"
  by (induction n arbitrary: w) simp_all

lemma le_word_le_bytes: "le_word (le_bytes n w) = take_bit (8 * n) w"
proof (induction n arbitrary: w)
  case (Suc n)
  show ?case
    by (rule bit_word_eqI) (auto simp: Suc bit_simps)
qed simp

section \<open>Loads and stores\<close>

text \<open>
  The value of type \<^verbatim>\<open>T\<close> (\<open>n\<close> bytes, signed or not) in a register cell, as a 64-bit value.
\<close>

definition cell_value :: "nat \<Rightarrow> bool \<Rightarrow> u64 \<Rightarrow> u64" where
  "cell_value n sg w = (if sg then signed_take_bit (8 * n - 1) w else take_bit (8 * n) w)"

text \<open>\<^verbatim>\<open>ReadVal\<close> into the register cell: the bytes read replace its low bytes.\<close>

definition cell_store :: "u8 list \<Rightarrow> u64 \<Rightarrow> u64" where
  "cell_store bs w = (w AND NOT (mask (8 * length bs))) OR le_word bs"

definition load :: "nat \<Rightarrow> bool \<Rightarrow> inst_fun" where
  "load n sg F I C =
     (let h = GetHartToExecID F;
          rs1 = GetX (c_R C) (i_rs1 I);
          addr = rs1 + scast (ImmSignExt I 12);
          req = mk_MemReq addr (i_rd I) RegGPR h MemOpREAD True;
          rd = unat (i_rd I);
          C1 = LSQ_insert req C
      in res_bind (ReadMem h addr n (c_M C1)) (\<lambda>(bs, M).
      if n < 8 \<and> rf_IsRV32 (c_R C1) then
        let R1 = c_R C1;
            C2 = C1\<lparr>c_M := M, c_R := R1\<lparr>rf_RV := half_set rd
                   (ucast (cell_store bs (ucast (rf_RV32 R1 rd)))) (rf_RV R1)\<rparr>\<rparr>
        in res_bind (MarkLoadComplete req C2) (\<lambda>C3.
           let R2 = SetX_u (i_rd I) (cell_value n sg (ucast (rf_RV32 (c_R C3) rd))) (c_R C3);
               C4 = add_cost F (C3\<lparr>c_R := R2\<rparr>)
           in Inr (True, C4\<lparr>c_R := AdvancePC I (c_R C4)\<rparr>))
      else
        let R1 = c_R C1;
            C2 = C1\<lparr>c_M := M, c_R := R1\<lparr>rf_RV := (rf_RV R1)(rd := cell_store bs (rf_RV R1 rd))\<rparr>\<rparr>
        in res_bind (MarkLoadComplete req C2) (\<lambda>C3.
           let R2 = SetX_u (i_rd I) (cell_value n sg (rf_RV (c_R C3) rd)) (c_R C3);
               C4 = add_cost F (C3\<lparr>c_R := R2\<rparr>)
           in Inr (True, C4\<lparr>c_R := AdvancePC I (c_R C4)\<rparr>))))"

text \<open>\<^verbatim>\<open>RevMem::Write<T>\<close>: a failed write is fatal.\<close>

definition Mem_Write :: "u32 \<Rightarrow> u64 \<Rightarrow> u8 list \<Rightarrow> RevMem \<Rightarrow> RevMem result" where
  "Mem_Write Hart Addr Data M =
     res_bind (WriteMem Hart Addr Data M) (\<lambda>(ok, M1).
     if ok then Inr M1 else Inl (Fatal ''could not write memory''))"

definition store :: "nat \<Rightarrow> inst_fun" where
  "store n F I C =
     res_bind (Mem_Write (GetHartToExecID F)
         (GetX (c_R C) (i_rs1 I) + scast (ImmSignExt I 12))
         (le_bytes n (GetX (c_R C) (i_rs2 I))) (c_M C)) (\<lambda>M.
     Inr (True, C\<lparr>c_M := M, c_R := AdvancePC I (c_R C)\<rparr>))"

section \<open>Integer arithmetic\<close>

datatype OpKind = Imm | Reg

text \<open>
  \<^verbatim>\<open>oper\<close>: the signedness of the operand type is in the functor's instances \<open>op32\<close> and \<open>op64\<close>;
  in W mode the 32-bit result is sign extended.
\<close>

definition oper :: "(u32 \<Rightarrow> u32 \<Rightarrow> u32) \<Rightarrow> (u64 \<Rightarrow> u64 \<Rightarrow> u64) \<Rightarrow> OpKind \<Rightarrow> bool \<Rightarrow> inst_fun" where
  "oper op32 op64 kind W_MODE F I C =
     (let R = c_R C;
          R1 = (if \<not> W_MODE \<and> rf_IsRV32 R then
                  let rs1 = GetX R (i_rs1 I);
                      rs2 = (if kind = Imm then ImmSignExt I 12 else GetX R (i_rs2 I))
                  in SetX_u (i_rd I) (op32 rs1 rs2) R
                else if W_MODE then
                  let rs1 = GetX R (i_rs1 I);
                      rs2 = (if kind = Imm then ImmSignExt I 12 else GetX R (i_rs2 I))
                  in SetX_s (i_rd I) (op32 rs1 rs2) R
                else
                  let rs1 = GetX R (i_rs1 I);
                      rs2 = (if kind = Imm then scast (ImmSignExt I 12) else GetX R (i_rs2 I))
                  in SetX_u (i_rd I) (op64 rs1 rs2) R)
      in Inr (True, C\<lparr>c_R := AdvancePC I R1\<rparr>))"

text \<open>The functors: \<^verbatim>\<open>std::less\<close> at signed and unsigned types, and the shifts.\<close>

definition less_s :: "'a::len word \<Rightarrow> 'a word \<Rightarrow> 'a word" where
  "less_s a b = of_bool (sint a < sint b)"

definition less_u :: "'a::len word \<Rightarrow> 'a word \<Rightarrow> 'a word" where
  "less_u a b = of_bool (a < b)"

text \<open>The shift count is narrowed to \<^verbatim>\<open>unsigned\<close> and masked to the width of the type.\<close>

definition shift_amount :: "'a::len word \<Rightarrow> nat" where
  "shift_amount shift = unat ((ucast shift :: u32) AND (if LENGTH('a) = 32 then 0x1F else 0x3F))"

definition ShiftLeft :: "'a::len word \<Rightarrow> 'a word \<Rightarrow> 'a word" where
  "ShiftLeft val shift = push_bit (shift_amount shift) val"

definition ShiftRight_u :: "'a::len word \<Rightarrow> 'a word \<Rightarrow> 'a word" where
  "ShiftRight_u val shift = drop_bit (shift_amount shift) val"

definition ShiftRight_s :: "'a::len word \<Rightarrow> 'a word \<Rightarrow> 'a word" where
  "ShiftRight_s val shift = signed_drop_bit (shift_amount shift) val"

section \<open>Multiplication and division\<close>

definition uppermul32 :: "bool \<Rightarrow> bool \<Rightarrow> u32 \<Rightarrow> u32 \<Rightarrow> u32" where
  "uppermul32 s1 s2 rs1 rs2 =
     (let mul = ucast (drop_bit 32 (ucast rs1 * ucast rs2 :: u64));
          mul1 = (if s1 \<and> rs1 AND push_bit 31 1 \<noteq> 0 then mul - rs2 else mul)
      in if s2 \<and> rs2 AND push_bit 31 1 \<noteq> 0 then mul1 - rs1 else mul1)"

definition uppermul64 :: "bool \<Rightarrow> bool \<Rightarrow> u64 \<Rightarrow> u64 \<Rightarrow> u64" where
  "uppermul64 s1 s2 rs1 rs2 =
     (let mul = ucast (drop_bit 64 (ucast rs1 * ucast rs2 :: 128 word));
          mul1 = (if s1 \<and> rs1 AND push_bit 63 1 \<noteq> 0 then mul - rs2 else mul)
      in if s2 \<and> rs2 AND push_bit 63 1 \<noteq> 0 then mul1 - rs1 else mul1)"

definition uppermul :: "bool \<Rightarrow> bool \<Rightarrow> inst_fun" where
  "uppermul rs1_is_signed rs2_is_signed F I C =
     (let R = c_R C;
          R1 = (if rf_IsRV32 R
                then SetX_u (i_rd I) (uppermul32 rs1_is_signed rs2_is_signed
                       (GetX R (i_rs1 I)) (GetX R (i_rs2 I))) R
                else SetX_u (i_rd I) (uppermul64 rs1_is_signed rs2_is_signed
                       (GetX R (i_rs1 I)) (GetX R (i_rs2 I))) R)
      in Inr (True, C\<lparr>c_R := AdvancePC I R1\<rparr>))"

datatype DivRem = Div | Rem

text \<open>
  One C++ division at type \<^verbatim>\<open>T\<close>: the smallest value divided by -1 and division by zero are
  singled out, everything else is the language's truncating division.
\<close>

definition divrem_s :: "DivRem \<Rightarrow> 'a::len word \<Rightarrow> 'a word \<Rightarrow> 'a word" where
  "divrem_s dr rs1 rs2 =
     (case dr of
        Div \<Rightarrow> if rs1 = push_bit (LENGTH('a) - 1) 1 \<and> rs2 = - 1 then rs1
               else if rs2 \<noteq> 0 then word_of_int (sint rs1 sdiv sint rs2) else - 1
      | Rem \<Rightarrow> if rs1 = push_bit (LENGTH('a) - 1) 1 \<and> rs2 = - 1 then 0
               else if rs2 \<noteq> 0 then word_of_int (sint rs1 smod sint rs2) else rs1)"

definition divrem_u :: "DivRem \<Rightarrow> 'a::len word \<Rightarrow> 'a word \<Rightarrow> 'a word" where
  "divrem_u dr rs1 rs2 =
     (case dr of
        Div \<Rightarrow> if rs2 \<noteq> 0 then rs1 div rs2 else - 1
      | Rem \<Rightarrow> if rs2 \<noteq> 0 then rs1 mod rs2 else rs1)"

definition divrem :: "DivRem \<Rightarrow> bool \<Rightarrow> bool \<Rightarrow> inst_fun" where
  "divrem dr sg W_MODE F I C =
     (let R = c_R C;
          R1 = (if \<not> W_MODE \<and> rf_IsRV32 R then
                  let rs1 = (GetX R (i_rs1 I) :: u32); rs2 = GetX R (i_rs2 I)
                  in SetX_u (i_rd I) (if sg then divrem_s dr rs1 rs2 else divrem_u dr rs1 rs2) R
                else if W_MODE then
                  let rs1 = (GetX R (i_rs1 I) :: u32); rs2 = GetX R (i_rs2 I)
                  in SetX_s (i_rd I) (if sg then divrem_s dr rs1 rs2 else divrem_u dr rs1 rs2) R
                else
                  let rs1 = (GetX R (i_rs1 I) :: u64); rs2 = GetX R (i_rs2 I)
                  in SetX_u (i_rd I) (if sg then divrem_s dr rs1 rs2 else divrem_u dr rs1 rs2) R)
      in Inr (True, C\<lparr>c_R := AdvancePC I R1\<rparr>))"

section \<open>Branches\<close>

definition bcond :: "(u32 \<Rightarrow> u32 \<Rightarrow> bool) \<Rightarrow> (u64 \<Rightarrow> u64 \<Rightarrow> bool) \<Rightarrow> inst_fun" where
  "bcond op32 op64 F I C =
     (let R = c_R C;
          cond = (if rf_IsRV32 R then op32 (GetX R (i_rs1 I)) (GetX R (i_rs2 I))
                  else op64 (GetX R (i_rs1 I)) (GetX R (i_rs2 I)))
      in if cond then Inr (True, C\<lparr>c_R := SetPC (GetPC R + scast (ImmSignExt I 13)) R\<rparr>)
         else Inr (True, C\<lparr>c_R := AdvancePC I R\<rparr>))"

section \<open>Lemmas on words as integers\<close>

lemma sint_uint_msb:
  "sint (a::'a::len word) = uint a - 2 ^ LENGTH('a) * of_bool (bit a (LENGTH('a) - 1))"
proof -
  have "sint a = signed_take_bit (LENGTH('a) - 1) (uint a)" 
    by (rule bit_eqI) (auto simp: bit_simps bit_sint_iff min_def)
  also have "\<dots> = take_bit (Suc (LENGTH('a) - 1)) (uint a) -
      2 ^ Suc (LENGTH('a) - 1) * of_bool (bit (uint a) (LENGTH('a) - 1))"
    by (rule signed_take_bit_eq_take_bit_minus)
  finally show ?thesis
    by (simp add: bit_unsigned_iff take_bit_int_eq_self)
qed

lemma top_bit_test:
  "(a :: u32) AND push_bit 31 1 \<noteq> 0 \<longleftrightarrow> bit a 31"
  "(b :: u64) AND push_bit 63 1 \<noteq> 0 \<longleftrightarrow> bit b 63"
  by (simp_all add: word_enum bit_simps)

lemma upper_int:
  fixes N a b x y :: int
  assumes "0 < N"
  shows "((a - N * x) * (b - N * y)) div N = a * b div N - x * b - y * a + N * (x * y)"
proof -
  have "(a - N * x) * (b - N * y) = a * b + N * (N * (x * y) - x * b - y * a)"
    by (simp add: algebra_simps)
  also have "\<dots> div N = a * b div N + (N * (x * y) - x * b - y * a)"
    using assms by (subst div_mult_self2) simp_all
  finally show ?thesis by simp
qed

text \<open>The integer a word denotes, read as signed or as unsigned.\<close>

definition val_of :: "bool \<Rightarrow> 'a::len word \<Rightarrow> int" where
  "val_of s a = (if s then sint a else uint a)"

lemma val_of_msb:
  "val_of s a = uint a - 2 ^ LENGTH('a) * of_bool (s \<and> bit (a::'a::len word) (LENGTH('a) - 1))"
  by (simp add: val_of_def sint_uint_msb)

lemma upper_word64:
  fixes a b :: u64
  shows "ucast (drop_bit 64 (ucast a * ucast b :: 128 word)) = (word_of_int (uint a * uint b div 2 ^ 64) :: u64)"
proof -
  have lt: "uint a * uint b < 2 ^ 128"
  proof -
    have "uint a < 2 ^ 64" "uint b < 2 ^ 64" by (rule order_less_le_trans [OF uint_lt2p], simp)+
    then have "uint a * uint b < 2 ^ 64 * 2 ^ 64" by (intro mult_strict_mono') simp_all
    then show ?thesis by simp
  qed
  have "uint (ucast a :: 128 word) = uint a" "uint (ucast b :: 128 word) = uint b"
    by (simp_all add: uint_up_ucast is_up)
  then have "uint (ucast a * ucast b :: 128 word) = uint a * uint b"
    using lt by (simp add: uint_word_ariths)
  then have "uint (drop_bit 64 (ucast a * ucast b :: 128 word)) = uint a * uint b div 2 ^ 64"
    by (simp add: drop_bit_eq_div uint_div)
  then show ?thesis by (metis of_int_uint ucast_eq word_of_int_uint)
qed
lemma upper_word32:
  fixes a b :: u32
  shows "ucast (drop_bit 32 (ucast a * ucast b :: u64)) = (word_of_int (uint a * uint b div 2 ^ 32) :: u32)"
proof -
  have lt: "uint a * uint b < 2 ^ 64"
  proof -
    have "uint a < 2 ^ 32" "uint b < 2 ^ 32" by (rule order_less_le_trans [OF uint_lt2p], simp)+
    then have "uint a * uint b < 2 ^ 32 * 2 ^ 32" by (intro mult_strict_mono') simp_all
    then show ?thesis by simp
  qed
  have "uint (ucast a :: u64) = uint a" "uint (ucast b :: u64) = uint b"
    by (simp_all add: uint_up_ucast is_up)
  then have "uint (ucast a * ucast b :: u64) = uint a * uint b"
    using lt by (simp add: uint_word_ariths)
  then have "uint (drop_bit 32 (ucast a * ucast b :: u64)) = uint a * uint b div 2 ^ 32"
    by (simp add: drop_bit_eq_div uint_div)
  then show ?thesis by (metis of_int_uint ucast_eq word_of_int_uint)
qed

lemma uppermul64_val:
  "uppermul64 s1 s2 a b = word_of_int (val_of s1 a * val_of s2 b div 2 ^ 64)"
proof -
  have "word_of_int (val_of s1 a * val_of s2 b div 2 ^ 64) =
     (word_of_int (uint a * uint b div 2 ^ 64) - of_bool (s1 \<and> bit a 63) * b - of_bool (s2 \<and> bit b 63) * a :: u64)"
  proof -
    have "val_of s1 a * val_of s2 b div 2 ^ 64 = uint a * uint b div 2 ^ 64 -
        of_bool (s1 \<and> bit a 63) * uint b - of_bool (s2 \<and> bit b 63) * uint a +
        2 ^ 64 * (of_bool (s1 \<and> bit a 63) * of_bool (s2 \<and> bit b 63))"
      using upper_int [of "2 ^ 64" "uint a" "of_bool (s1 \<and> bit a 63)" "uint b" "of_bool (s2 \<and> bit b 63)"]
      by (simp add: val_of_msb)
    then show ?thesis by simp
  qed
  then show ?thesis
    unfolding uppermul64_def Let_def top_bit_test upper_word64 by auto
qed
lemma uppermul32_val:
  "uppermul32 s1 s2 a b = word_of_int (val_of s1 a * val_of s2 b div 2 ^ 32)"
proof -
  have "val_of s1 a * val_of s2 b div 2 ^ 32 = uint a * uint b div 2 ^ 32 -
      of_bool (s1 \<and> bit a 31) * uint b - of_bool (s2 \<and> bit b 31) * uint a +
      2 ^ 32 * (of_bool (s1 \<and> bit a 31) * of_bool (s2 \<and> bit b 31))"
    using upper_int [of "2 ^ 32" "uint a" "of_bool (s1 \<and> bit a 31)" "uint b" "of_bool (s2 \<and> bit b 31)"]
    by (simp add: val_of_msb)
  then have "word_of_int (val_of s1 a * val_of s2 b div 2 ^ 32) =
     (word_of_int (uint a * uint b div 2 ^ 32) - of_bool (s1 \<and> bit a 31) * b - of_bool (s2 \<and> bit b 31) * a :: u32)"
    by simp
  then show ?thesis
    unfolding uppermul32_def Let_def top_bit_test upper_word32 by auto
qed

lemma sint_word_of_int_range:
  assumes "- (2 ^ (LENGTH('a) - 1)) \<le> x" "x < 2 ^ (LENGTH('a) - 1)"
  shows "sint (word_of_int x :: 'a::len word) = x"
proof -
  obtain n where n: "LENGTH('a) = Suc n" by (metis len_gt_0 not0_implies_Suc less_not_refl)
  have "(x + 2 ^ n) mod 2 ^ Suc n = x + 2 ^ n" using assms n by (intro mod_pos_pos_trivial) simp_all
  then show ?thesis by (simp add: int_word_sint n)
qed

lemma sint_min: "sint (push_bit (LENGTH('a) - 1) 1 :: 'a::len word) = - (2 ^ (LENGTH('a) - 1))"
proof -
  obtain n where n: "LENGTH('a) = Suc n" by (metis len_gt_0 not0_implies_Suc less_not_refl)
  have b: "bit (push_bit n 1 :: 'a word) n" using n by (simp add: bit_simps)
  have "uint (push_bit n 1 :: 'a word) = 2 ^ n"
    using n by (simp add: push_bit_eq_mult uint_2p word_gt_0)
  then show ?thesis using b by (simp add: sint_uint_msb n)
qed

lemma sint_min_iff: "sint (a::'a::len word) = - (2 ^ (LENGTH('a) - 1)) \<longleftrightarrow> a = push_bit (LENGTH('a) - 1) 1"
  by (metis sint_min signed_word_eqI)

lemma sdiv_range:
  assumes "\<not> ((a::'a::len word) = push_bit (LENGTH('a) - 1) 1 \<and> b = -1)"
  shows "- (2 ^ (LENGTH('a) - 1)) \<le> sint a sdiv sint b" "sint a sdiv sint b < 2 ^ (LENGTH('a) - 1)"
proof -
  let ?n = "2 ^ (LENGTH('a) - 1) :: int"
  have r: "- \<bar>sint a\<bar> \<le> sint a sdiv sint b" "sint a sdiv sint b \<le> \<bar>sint a\<bar>"
    using sdiv_int_range [of "sint a" "sint b"] by auto
  have a: "- ?n \<le> sint a" "sint a < ?n" using sint_ge [of a] sint_lt [of a] by auto
  then show "- ?n \<le> sint a sdiv sint b" using r(1) by linarith
  show "sint a sdiv sint b < ?n"
  proof (rule ccontr)
    assume "\<not> sint a sdiv sint b < ?n"
    then have eq: "sint a = - ?n" "sint a sdiv sint b = - sint a" using r a by linarith+
    then have "sint b = -1" using int_sdiv_negated_is_minus1 [of "sint a" "sint b"] by simp
    then have "b = -1" by (metis signed_word_eqI signed_minus_1)
    then show False using assms eq(1) unfolding sint_min_iff by blast
  qed
qed

lemma smod_range:
  shows "- (2 ^ (LENGTH('a) - 1)) \<le> sint (a::'a::len word) smod sint b" "sint a smod sint b < 2 ^ (LENGTH('a) - 1)"
proof -
  have "sint a smod sint b = sgn (sint a) * (\<bar>sint a\<bar> mod \<bar>sint b\<bar>)" by (rule smod_int_alt_def)
  moreover have "0 \<le> \<bar>sint a\<bar> mod \<bar>sint b\<bar>" by (cases "sint b = 0") simp_all
  moreover have "\<bar>sint a\<bar> mod \<bar>sint b\<bar> \<le> \<bar>sint a\<bar>" by (rule zmod_le_nonneg_dividend) simp
  moreover have "- (2 ^ (LENGTH('a) - 1)) \<le> sint a" "sint a < 2 ^ (LENGTH('a) - 1)"
    using sint_ge [of a] sint_lt [of a] by auto
  ultimately show "- (2 ^ (LENGTH('a) - 1)) \<le> sint a smod sint b" "sint a smod sint b < 2 ^ (LENGTH('a) - 1)"
    by (auto simp: sgn_if)
qed

section \<open>Register-to-register instructions\<close>

text \<open>
  An arithmetic instruction writes one result, a function of the instruction and the registers, to its
  destination and goes to the next instruction.
\<close>

text \<open>The results of the three templates, as the ISA describes them.\<close>

definition oper_res :: "(u32 \<Rightarrow> u32 \<Rightarrow> u32) \<Rightarrow> (u64 \<Rightarrow> u64 \<Rightarrow> u64) \<Rightarrow> OpKind \<Rightarrow> bool \<Rightarrow> RevInst \<Rightarrow> RevRegFile \<Rightarrow> u64" where
  "oper_res op32 op64 kind W I R =
     (if W \<or> rf_IsRV32 R
      then scast (op32 (GetX R (i_rs1 I)) (if kind = Imm then ImmSignExt I 12 else GetX R (i_rs2 I)))
      else op64 (GetX R (i_rs1 I)) (if kind = Imm then scast (ImmSignExt I 12) else GetX R (i_rs2 I)))"

lemma SetX_narrow:
  "SetX_s rd (v :: u32) R = SetX_u rd (scast v :: u64) R"
  "rf_IsRV32 R \<Longrightarrow> SetX_u rd (v :: u32) R = SetX_u rd (scast v :: u64) R"
  by (simp_all add: SetX_s_def SetX_u_def)

lemma oper_runs:
  "oper op32 op64 kind W F I C = Inr (True, C\<lparr>c_R := AdvancePC I (SetX_u (i_rd I) (oper_res op32 op64 kind W I (c_R C)) (c_R C))\<rparr>)"
  by (simp add: oper_def oper_res_def Let_def SetX_narrow)

definition uppermul_res :: "bool \<Rightarrow> bool \<Rightarrow> RevInst \<Rightarrow> RevRegFile \<Rightarrow> u64" where
  "uppermul_res s1 s2 I R =
     (if rf_IsRV32 R
      then scast (word_of_int (val_of s1 (GetX R (i_rs1 I) :: u32) * val_of s2 (GetX R (i_rs2 I) :: u32) div 2 ^ 32) :: u32)
      else word_of_int (val_of s1 (GetX R (i_rs1 I) :: u64) * val_of s2 (GetX R (i_rs2 I) :: u64) div 2 ^ 64))"

lemma uppermul_runs:
  "uppermul s1 s2 F I C = Inr (True, C\<lparr>c_R := AdvancePC I (SetX_u (i_rd I) (uppermul_res s1 s2 I (c_R C)) (c_R C))\<rparr>)"
  by (simp add: uppermul_def uppermul_res_def Let_def SetX_narrow uppermul32_val uppermul64_val)

definition divrem_op :: "DivRem \<Rightarrow> bool \<Rightarrow> 'a::len word \<Rightarrow> 'a word \<Rightarrow> 'a word" where
  "divrem_op dr sg a b = (if sg then divrem_s dr a b else divrem_u dr a b)"

definition divrem_res :: "DivRem \<Rightarrow> bool \<Rightarrow> bool \<Rightarrow> RevInst \<Rightarrow> RevRegFile \<Rightarrow> u64" where
  "divrem_res dr sg W I R =
     (if W \<or> rf_IsRV32 R then scast (divrem_op dr sg (GetX R (i_rs1 I) :: u32) (GetX R (i_rs2 I)))
      else divrem_op dr sg (GetX R (i_rs1 I)) (GetX R (i_rs2 I)))"

lemma divrem_runs:
  "divrem dr sg W F I C = Inr (True, C\<lparr>c_R := AdvancePC I (SetX_u (i_rd I) (divrem_res dr sg W I (c_R C)) (c_R C))\<rparr>)"
  by (simp add: divrem_def divrem_res_def divrem_op_def Let_def SetX_narrow)

lemma divrem_s_val:
  fixes a b :: "'a::len word"
  assumes "b \<noteq> 0" "\<not> (a = push_bit (LENGTH('a) - 1) 1 \<and> b = - 1)"
  shows "sint (divrem_s Div a b) = sint a sdiv sint b"
    and "sint (divrem_s Rem a b) = sint a smod sint b"
proof -
  show "sint (divrem_s Div a b) = sint a sdiv sint b"
    using assms sint_word_of_int_range [OF sdiv_range [OF assms(2)]] by (auto simp: divrem_s_def)
  show "sint (divrem_s Rem a b) = sint a smod sint b"
    using assms sint_word_of_int_range [OF smod_range, of a b] by (auto simp: divrem_s_def)
qed

section \<open>Lemmas on loads and stores\<close>

lemma cell_value_store:
  assumes "length bs = n" "0 < n" "n \<le> 8"
  shows "cell_value n sg (cell_store bs w) = cell_value n sg (le_word bs)"
  by (rule bit_word_eqI)
    (use assms in \<open>auto simp: cell_value_def cell_store_def bit_simps min_def\<close>)

lemma cell_value_low:
  assumes "0 < n" "n \<le> 4"
  shows "cell_value n sg (ucast (ucast w :: u32)) = cell_value n sg w"
  by (rule bit_word_eqI) (use assms in \<open>auto simp: cell_value_def bit_simps min_def\<close>)

definition eff_addr :: "RevInst \<Rightarrow> RevRegFile \<Rightarrow> u64" where
  "eff_addr I R = GetX R (i_rs1 I) + scast (ImmSignExt I 12)"

definition no_load :: "u64 \<Rightarrow> RevRegClass \<Rightarrow> RevCore \<Rightarrow> bool" where
  "no_load rd cls C \<longleftrightarrow> LSQ_count (LSQHash rd cls (c_hart C)) C = 0"

lemma mk_MemReq_hash: "rd < 32 \<Longrightarrow> req_LSQHash (mk_MemReq a rd cls h op b) = LSQHash rd cls h"
proof -
  assume "rd < 32"
  then have "ucast (ucast rd :: u16) = rd"
    by (simp add: word_unat_eq_iff unsigned_ucast_eq unsigned_take_bit_eq take_bit_nat_eq_self word_less_nat_alt)
  then show ?thesis by (simp add: req_LSQHash_def mk_MemReq_def)
qed

lemma add_cost_frame [frame_simps, simp]:
  "c_M (add_cost F C) = c_M C" "c_LSQueue (add_cost F C) = c_LSQueue C" "c_hart (add_cost F C) = c_hart C"
  "GetX (c_R (add_cost F C)) j = GetX (c_R C) j" "GetPC (c_R (add_cost F C)) = GetPC (c_R C)"
  "rf_IsRV32 (c_R (add_cost F C)) = rf_IsRV32 (c_R C)"
  by (simp_all add: add_cost_def RandCost_def GetPC_def)


text \<open>Poking the cell of \<open>rd\<close> is not seen by other registers.\<close>

lemma GetX_poke:
  assumes "rd < 32" "j < 32" "j \<noteq> rd"
  shows "\<not> rf_IsRV32 R \<Longrightarrow> GetX (R\<lparr>rf_RV := (rf_RV R)(unat rd := v)\<rparr>) j = GetX R j"
    and "rf_IsRV32 R \<Longrightarrow> GetX (R\<lparr>rf_RV := half_set (unat rd) w (rf_RV R)\<rparr>) j = GetX R j"
  using assms by (auto simp: GetX_def half_get_set word_unat_eq_iff)

text \<open>The part of a load after the read: clear the hazard, write back, charge and advance.\<close>

lemma load_writeback:
  assumes "i_rd I < 32" "mr_Hart req = c_hart C" "LSQ_count (req_LSQHash req) C = 0"
    and "mr_RegType req = RegGPR"
    and "\<And>j. j < 32 \<Longrightarrow> j \<noteq> i_rd I \<Longrightarrow> (GetX R1 j :: u64) = GetX (c_R C) j"
    and "rf_IsRV32 R1 = rf_IsRV32 (c_R C)" "rf_PC R1 = rf_PC (c_R C)"
  shows "\<exists>C3. MarkLoadComplete req ((LSQ_insert req C)\<lparr>c_M := M, c_R := R1\<rparr>) = Inr C3 \<and> rf_RV (c_R C3) = rf_RV R1 \<and>
    (let C4 = add_cost F (C3\<lparr>c_R := SetX_u (i_rd I) (v :: u64) (c_R C3)\<rparr>);
         C5 = C4\<lparr>c_R := AdvancePC I (c_R C4)\<rparr>
     in (\<forall>j<32. (GetX (c_R C5) j :: u64) = (if j = i_rd I \<and> j \<noteq> 0
           then (if rf_IsRV32 (c_R C) then ucast (ucast v :: u32) else v) else GetX (c_R C) j)) \<and>
        c_M C5 = M \<and> c_LSQueue C5 = c_LSQueue C \<and> GetPC (c_R C5) = GetPC (AdvancePC I (c_R C)))"
proof -
  let ?C2 = "(LSQ_insert req C)\<lparr>c_M := M, c_R := R1\<rparr>"
  have "MarkLoadComplete req ?C2 = Inr (?C2\<lparr>
    c_R := DependencySet (ucast (mr_DestReg req)) False False R1,
    c_OutstandingFetchQ := erase_first (\<lambda>q. mr_Addr q = mr_Addr req) (c_OutstandingFetchQ ?C2),
    c_LSQueue := c_LSQueue C\<rparr>)"
    using MarkLoadComplete_insert [OF assms(3,2), of ?C2] assms(4) by (simp add: LSQ_insert_def)
  moreover have "GetPC R1 = GetPC (c_R C)" using assms(6,7) by (simp add: GetPC_def)
  ultimately show ?thesis
    using assms(1,5,6) by (auto simp: AdvancePC_def GetX_SetX_u Let_def)
qed

lemma load_ok:
  assumes "mem_inv (c_M C)" "mem_accessible (eff_addr I (c_R C)) n (c_M C)" "mem_room (Suc (Suc k)) (c_M C)"
    and "n \<le> 8" "rf_IsRV32 (c_R C) \<Longrightarrow> n \<le> 4" "i_rd I < 32"
    and "c_hart C = GetHartToExecID F" "no_load (i_rd I) RegGPR C"
    and v: "v = cell_value n sg (le_word (vread (vmem (c_M C)) (eff_addr I (c_R C)) n))"
  shows "\<exists>C'. load n sg F I C = Inr (True, C') \<and>
    (\<forall>j<32. (GetX (c_R C') j :: u64) = (if j = i_rd I \<and> j \<noteq> 0
       then (if rf_IsRV32 (c_R C) then ucast (ucast v :: u32) else v) else GetX (c_R C) j)) \<and>
    vmem (c_M C') = vmem (c_M C) \<and> mem_inv (c_M C') \<and> mem_room k (c_M C') \<and>
    c_LSQueue C' = c_LSQueue C \<and> GetPC (c_R C') = GetPC (AdvancePC I (c_R C))"
proof -
  let ?h = "GetHartToExecID F" and ?a = "eff_addr I (c_R C)" and ?rd = "unat (i_rd I)" and ?R = "c_R C"
  let ?req = "mk_MemReq ?a (i_rd I) RegGPR ?h MemOpREAD True"
  let ?bs = "vread (vmem (c_M C)) ?a n"
  obtain M where M: "ReadMem ?h ?a n (c_M C) = Inr (?bs, M)" "mem_inv M" "vmem M = vmem (c_M C)" "mem_room k M"
    using ReadMem_ok [OF assms(1-3), of ?h] by blast
  have n: "0 < n" using assms(2) by (simp add: mem_accessible_def)
  have len: "length ?bs = n" by (simp add: vread_def)
  have cell: "cell_value n sg (cell_store ?bs w) = v" for w
    using cell_value_store [OF len n assms(4)] by (simp add: v)
  have cell32: "cell_value n sg (ucast (ucast (cell_store ?bs w) :: u32)) = v" if "n \<le> 4" for w
    using cell [of w] cell_value_low [OF n that] by simp
  have req: "mr_Hart ?req = c_hart C" "LSQ_count (req_LSQHash ?req) C = 0" "mr_RegType ?req = RegGPR"
    using assms(6-8) by (simp_all add: no_load_def mk_MemReq_hash) (simp_all add: mk_MemReq_def)
  have ad: "GetX ?R (i_rs1 I) + scast (ImmSignExt I 12) = ?a" by (simp add: eff_addr_def)
  let ?fin = "\<lambda>C3. let C4 = add_cost F (C3\<lparr>c_R := SetX_u (i_rd I) v (c_R C3)\<rparr>)
        in C4\<lparr>c_R := AdvancePC I (c_R C4)\<rparr>"
  let ?post = "\<lambda>C3. let C4 = add_cost F (C3\<lparr>c_R := SetX_u (i_rd I) v (c_R C3)\<rparr>);
           C5 = C4\<lparr>c_R := AdvancePC I (c_R C4)\<rparr>
       in (\<forall>j<32. (GetX (c_R C5) j :: u64) = (if j = i_rd I \<and> j \<noteq> 0
           then (if rf_IsRV32 (c_R C) then ucast (ucast v :: u32) else v) else GetX (c_R C) j)) \<and>
        c_M C5 = M \<and> c_LSQueue C5 = c_LSQueue C \<and> GetPC (c_R C5) = GetPC (AdvancePC I (c_R C))"
  show ?thesis
  proof (cases "rf_IsRV32 (c_R C)")
    case True
    let ?R1 = "?R\<lparr>rf_RV := half_set ?rd (ucast (cell_store ?bs (ucast (rf_RV32 ?R ?rd)))) (rf_RV ?R)\<rparr>"
    obtain C3 where C3: "MarkLoadComplete ?req ((LSQ_insert ?req C)\<lparr>c_M := M, c_R := ?R1\<rparr>) = Inr C3"
      "rf_RV (c_R C3) = rf_RV ?R1" and C5: "?post C3"
      using load_writeback [OF assms(6) req, where ?R1.0 = ?R1 and F = F and v = v and M = M] GetX_poke(2) [OF assms(6) _ _ True] by auto
    have "load n sg F I C = Inr (True, ?fin C3)"
      using M(1) C3 cell32 True assms(5) unfolding load_def Let_def ad
      by (simp add: LSQ_insert_def half_get_set)
    then show ?thesis using C5 M by (auto simp: Let_def)
  next
    case False
    let ?R1 = "?R\<lparr>rf_RV := (rf_RV ?R)(?rd := cell_store ?bs (rf_RV ?R ?rd))\<rparr>"
    obtain C3 where C3: "MarkLoadComplete ?req ((LSQ_insert ?req C)\<lparr>c_M := M, c_R := ?R1\<rparr>) = Inr C3"
      "rf_RV (c_R C3) = rf_RV ?R1" and C5: "?post C3"
      using load_writeback [OF assms(6) req, where ?R1.0 = ?R1 and F = F and v = v and M = M] GetX_poke(1) [OF assms(6) _ _ False] by auto
    have "load n sg F I C = Inr (True, ?fin C3)"
      using M(1) C3 cell False unfolding load_def Let_def ad by (simp add: LSQ_insert_def)
    then show ?thesis using C5 M by (auto simp: Let_def)
  qed
qed

lemma store_ok:
  assumes "mem_inv (c_M C)" "mem_accessible (eff_addr I (c_R C)) n (c_M C)" "mem_room (Suc (Suc k)) (c_M C)"
  shows "\<exists>C'. store n F I C = Inr (True, C') \<and> c_R C' = AdvancePC I (c_R C) \<and>
    c_LSQueue C' = c_LSQueue C \<and> c_hart C' = c_hart C \<and> mem_inv (c_M C') \<and> mem_room k (c_M C') \<and>
    m_segs (c_M C') = m_segs (c_M C) \<and>
    vmem (c_M C') = upd_bytes (eff_addr I (c_R C)) (le_bytes n (GetX (c_R C) (i_rs2 I))) (vmem (c_M C))"
  using WriteMem_ok [of "c_M C" "eff_addr I (c_R C)" "le_bytes n (GetX (c_R C) (i_rs2 I))" k "GetHartToExecID F"]
    assms by (auto simp: store_def Mem_Write_def eff_addr_def)

lemma cell_value_bytes:
  assumes "0 < n" "n \<le> 8"
  shows "cell_value n sg (le_word (le_bytes n w)) = cell_value n sg w"
  by (rule bit_word_eqI) (use assms in \<open>auto simp: le_word_le_bytes cell_value_def bit_simps min_def\<close>)

section \<open>Properties\<close>

text \<open>
  C33: \<^verbatim>\<open>uppermul\<close>, which corrects an unsigned product by two subtractions, computes the high
  half of the exact product of its operands, each read as signed or as unsigned as the
  template parameters say (\<^verbatim>\<open>mulh\<close>, \<^verbatim>\<open>mulhsu\<close>, \<^verbatim>\<open>mulhu\<close>), at both register widths.
\<close>

theorem uppermul_high_half:
  "uppermul32 s1 s2 a b = word_of_int (val_of s1 a * val_of s2 b div 2 ^ 32) \<and>
   uppermul64 s1 s2 c d = word_of_int (val_of s1 c * val_of s2 d div 2 ^ 64)"
  by (simp only: uppermul32_val uppermul64_val simp_thms)

text \<open>
  C32: division and remainder follow the ISA in every case. Dividing by zero gives all ones
  and the dividend, the signed overflow gives the dividend and zero, and otherwise quotient
  and remainder are the truncating ones: they satisfy the division equation, the remainder is
  smaller in magnitude than the divisor and has the sign of the dividend.
\<close>

theorem divrem_isa:
  fixes a b :: "'a::len word"
  shows "(b = 0 \<longrightarrow> divrem_s Div a b = - 1 \<and> divrem_s Rem a b = a \<and>
      divrem_u Div a b = - 1 \<and> divrem_u Rem a b = a) \<and>
    (a = push_bit (LENGTH('a) - 1) 1 \<and> b = - 1 \<longrightarrow> divrem_s Div a b = a \<and> divrem_s Rem a b = 0) \<and>
    (b \<noteq> 0 \<and> \<not> (a = push_bit (LENGTH('a) - 1) 1 \<and> b = - 1) \<longrightarrow>
      sint a = sint (divrem_s Div a b) * sint b + sint (divrem_s Rem a b) \<and>
      \<bar>sint (divrem_s Rem a b)\<bar> < \<bar>sint b\<bar> \<and>
      (sint (divrem_s Rem a b) \<noteq> 0 \<longrightarrow> sgn (sint (divrem_s Rem a b)) = sgn (sint a))) \<and>
    (b \<noteq> 0 \<longrightarrow> uint a = uint (divrem_u Div a b) * uint b + uint (divrem_u Rem a b) \<and>
      uint (divrem_u Rem a b) < uint b)"
proof (intro conjI)
  show "b = 0 \<longrightarrow> divrem_s Div a b = - 1 \<and> divrem_s Rem a b = a \<and>
      divrem_u Div a b = - 1 \<and> divrem_u Rem a b = a"
    by (simp add: divrem_s_def divrem_u_def)
  show "a = push_bit (LENGTH('a) - 1) 1 \<and> b = - 1 \<longrightarrow> divrem_s Div a b = a \<and> divrem_s Rem a b = 0"
    by (simp add: divrem_s_def)
  show "b \<noteq> 0 \<and> \<not> (a = push_bit (LENGTH('a) - 1) 1 \<and> b = - 1) \<longrightarrow>
      sint a = sint (divrem_s Div a b) * sint b + sint (divrem_s Rem a b) \<and>
      \<bar>sint (divrem_s Rem a b)\<bar> < \<bar>sint b\<bar> \<and>
      (sint (divrem_s Rem a b) \<noteq> 0 \<longrightarrow> sgn (sint (divrem_s Rem a b)) = sgn (sint a))"
  proof
    assume "b \<noteq> 0 \<and> \<not> (a = push_bit (LENGTH('a) - 1) 1 \<and> b = - 1)"
    then have b: "b \<noteq> 0" and ov: "\<not> (a = push_bit (LENGTH('a) - 1) 1 \<and> b = - 1)" by blast+
    have "sint b \<noteq> 0" using b by (metis signed_0 signed_word_eqI)
    then have "\<bar>sint a smod sint b\<bar> < \<bar>sint b\<bar>" using smod_int_range [of "sint b" "sint a"] by auto
    moreover have "sint a smod sint b \<noteq> 0 \<longrightarrow> sgn (sint a smod sint b) = sgn (sint a)"
      using \<open>sint b \<noteq> 0\<close> by (auto simp: smod_int_alt_def sgn_mult sgn_if not_less)
        (meson abs_ge_zero abs_of_pos less_le pos_mod_sign zero_less_abs_iff not_less)+
    ultimately show "sint a = sint (divrem_s Div a b) * sint b + sint (divrem_s Rem a b) \<and>
      \<bar>sint (divrem_s Rem a b)\<bar> < \<bar>sint b\<bar> \<and>
      (sint (divrem_s Rem a b) \<noteq> 0 \<longrightarrow> sgn (sint (divrem_s Rem a b)) = sgn (sint a))"
      unfolding divrem_s_val [OF b ov] by (simp add: sdiv_mult_smod_eq)
  qed
  show "b \<noteq> 0 \<longrightarrow> uint a = uint (divrem_u Div a b) * uint b + uint (divrem_u Rem a b) \<and>
      uint (divrem_u Rem a b) < uint b"
    by (simp add: divrem_u_def uint_div uint_mod word_neq_0_conv word_less_def)
qed

theorem divrem_isa_witness:
  "sint (-7 :: u32) = sint (divrem_s Div (-7 :: u32) 2) * sint (2 :: u32) + sint (divrem_s Rem (-7 :: u32) 2)"
  using divrem_isa [of 2 "-7 :: u32"] by simp

text \<open>
  a conditional branch either adds the sign-extended 13-bit offset to the program counter
  or goes to the next instruction, according to the comparison of its two registers at the
  width of the core; registers and memory stay as they are and it never fails.
\<close>

theorem bcond_behaviour:
  "bcond op32 op64 F I C = Inr (True, C\<lparr>c_R :=
     (if (if rf_IsRV32 (c_R C) then op32 (GetX (c_R C) (i_rs1 I)) (GetX (c_R C) (i_rs2 I))
          else op64 (GetX (c_R C) (i_rs1 I)) (GetX (c_R C) (i_rs2 I)))
      then SetPC (GetPC (c_R C) + scast (ImmSignExt I 13)) (c_R C)
      else AdvancePC_size (i_instSize I) (c_R C))\<rparr>) \<and>
   (GetX (SetPC pc (c_R C)) j :: u64) = GetX (c_R C) j \<and>
   (GetX (AdvancePC_size (i_instSize I) (c_R C)) j :: u64) = GetX (c_R C) j"
  by (simp add: bcond_def AdvancePC_def Let_def)

text \<open>
  A hart of an RV64GC core with two registers set, over the example memory, on a host whose
  floating-point operations return their last operand.
\<close>

definition host_example :: HostFP where
  "host_example = \<lparr>h_add32 = (\<lambda>r x y. y), h_sub32 = (\<lambda>r x y. y), h_mul32 = (\<lambda>r x y. y),
     h_div32 = (\<lambda>r x y. y), h_fmin32 = (\<lambda>r x y. y), h_fmax32 = (\<lambda>r x y. y),
     h_fma32 = (\<lambda>r x y z. z), h_sqrt32 = (\<lambda>r x. x), h_of_int32 = (\<lambda>r i. of_int i),
     h_add64 = (\<lambda>r x y. y), h_sub64 = (\<lambda>r x y. y), h_mul64 = (\<lambda>r x y. y),
     h_div64 = (\<lambda>r x y. y), h_fmin64 = (\<lambda>r x y. y), h_fmax64 = (\<lambda>r x y. y),
     h_fma64 = (\<lambda>r x y z. z), h_sqrt64 = (\<lambda>r x. x), h_of_int64 = (\<lambda>r i. of_int i),
     h_narrow = (\<lambda>r x. ucast x), h_widen = ucast\<rparr>"

definition core_example :: RevCore where
  "core_example = \<lparr>c_hart = 0,
     c_R = SetX_u 1 (0x3F010 :: u64) (SetX_u 2 (0xFFFFFFFFFFFFFF80 :: u64) (mk_RevRegFile feature_RV64GC)),
     c_M = mem_example, c_LSQueue = [], c_OutstandingFetchQ = [],
     c_rand = (\<lambda>mn mx n. mn), c_draws = 0, c_fp = host_example, c_round = 0\<rparr>"

definition inst_example :: RevInst where
  "inst_example = RevInst_default\<lparr>i_rd := 3, i_rs1 := 1, i_rs2 := 2, i_instSize := 4\<rparr>"

lemma core_example_simps [simp]:
  "c_M core_example = mem_example" "c_LSQueue core_example = []" "c_hart core_example = 0"
  "rf_IsRV32 (c_R core_example) = False"
  by (simp_all add: core_example_def mk_RevRegFile_def IsRV32_def feature_RV64GC_def)

lemma core_example_regs [simp]:
  "(GetX (c_R core_example) 1 :: u64) = 0x3F010"
  "(GetX (c_R core_example) 2 :: u64) = 0xFFFFFFFFFFFFFF80"
  by (simp_all add: core_example_def GetX_SetX_u mk_RevRegFile_def IsRV32_def feature_RV64GC_def)

lemma inst_example_simps [simp]:
  "i_rd inst_example = 3" "i_rs1 inst_example = 1" "i_rs2 inst_example = 2"
  "i_imm inst_example = 0" "i_instSize inst_example = 4" "ImmSignExt inst_example n = 0"
  by (simp_all add: inst_example_def RevInst_default_def ImmSignExt_def SignExt_def ZeroExt_def)

text \<open>
  C11: a load returns what a store to the same address wrote. Executing \<^verbatim>\<open>store<T>\<close> and then
  \<^verbatim>\<open>load<T>\<close> on valid memory succeeds, the destination register receives the low bytes of the
  stored register, sign or zero extended to the width of the core, and every other register
  keeps its value, for every access size and across page boundaries.
\<close>

theorem store_load_roundtrip:
  assumes "mem_inv (c_M C)" "mem_accessible (eff_addr IS (c_R C)) n (c_M C)" "mem_room 4 (c_M C)"
    and "n \<le> 8" "rf_IsRV32 (c_R C) \<Longrightarrow> n \<le> 4" "i_rd IL < 32"
    and "eff_addr IL (c_R C) = eff_addr IS (c_R C)"
    and "c_hart C = GetHartToExecID F" "no_load (i_rd IL) RegGPR C"
  shows "\<exists>C1 C2. store n F IS C = Inr (True, C1) \<and> load n sg F IL C1 = Inr (True, C2) \<and>
    (\<forall>j<32. (GetX (c_R C2) j :: u64) = (if j = i_rd IL \<and> j \<noteq> 0
       then (let v = cell_value n sg (GetX (c_R C) (i_rs2 IS))
             in if rf_IsRV32 (c_R C) then ucast (ucast v :: u32) else v)
       else GetX (c_R C) j))"
proof -
  let ?a = "eff_addr IS (c_R C)" and ?w = "GetX (c_R C) (i_rs2 IS) :: u64"
  have n: "0 < n" "unat ?a + n \<le> 2 ^ 50" using assms(2) by (simp_all add: mem_accessible_def)
  have r4: "mem_room (Suc (Suc 2)) (c_M C)" using assms(3) by (simp add: numeral_eq_Suc)
  obtain C1 where C1: "store n F IS C = Inr (True, C1)" "c_R C1 = AdvancePC IS (c_R C)"
    "c_LSQueue C1 = c_LSQueue C" "c_hart C1 = c_hart C" "mem_inv (c_M C1)" "mem_room 2 (c_M C1)"
    "m_segs (c_M C1) = m_segs (c_M C)" "vmem (c_M C1) = upd_bytes ?a (le_bytes n ?w) (vmem (c_M C))"
    using store_ok [OF assms(1,2) r4, of F] by blast
  have x: "(GetX (c_R C1) j :: u64) = GetX (c_R C) j" for j by (simp add: C1(2) AdvancePC_def)
  have rv: "rf_IsRV32 (c_R C1) = rf_IsRV32 (c_R C)" by (simp add: C1(2) AdvancePC_def)
  have a: "eff_addr IL (c_R C1) = ?a" using assms(7) x by (simp add: eff_addr_def)
  have acc: "mem_accessible (eff_addr IL (c_R C1)) n (c_M C1)"
    using assms(2) C1(7) a by (simp add: mem_accessible_def)
  have r2: "mem_room (Suc (Suc 0)) (c_M C1)" using C1(6) by (simp add: numeral_2_eq_2)
  have nl: "no_load (i_rd IL) RegGPR C1" using assms(9) C1(3,4) by (simp add: no_load_def LSQ_count_def)
  have "vread (vmem (c_M C1)) ?a n = le_bytes n ?w"
    using mem.vread_upd_same [of ?a "le_bytes n ?w"] C1(8) n(2) by simp
  then have "cell_value n sg ?w = cell_value n sg (le_word (vread (vmem (c_M C1)) (eff_addr IL (c_R C1)) n))"
    using cell_value_bytes [OF n(1) assms(4)] a by simp
  from load_ok [OF C1(5) acc r2 assms(4) _ assms(6) _ nl this, of F] show ?thesis
    using C1(1,4) assms(5,8) rv x by (auto simp: Let_def)
qed

theorem store_load_roundtrip_witness:
  "\<exists>C1 C2. store 1 feature_RV64GC inst_example core_example = Inr (True, C1) \<and>
     load 1 True feature_RV64GC inst_example C1 = Inr (True, C2) \<and>
     (GetX (c_R C2) 3 :: u64) = 0xFFFFFFFFFFFFFF80"
proof -
  have acc: "mem_accessible (eff_addr inst_example (c_R core_example)) 1 (c_M core_example)"
    by (simp add: eff_addr_def mem_accessible_def mem_example_def isValidVirtAddr_def RevSegs_init_def
        AddMemSegAt_def mk_MemSegment_def seg_contains_def)
  have "GetHartToExecID feature_RV64GC = 0" by (simp add: GetHartToExecID_def feature_RV64GC_def)
  moreover have "no_load 3 RegGPR core_example" by (simp add: no_load_def LSQ_count_def)
  moreover have "cell_value 1 True 0xFFFFFFFFFFFFFF80 = 0xFFFFFFFFFFFFFF80"
    by (simp add: cell_value_def)
  ultimately show ?thesis
    using store_load_roundtrip [of core_example inst_example 1 inst_example feature_RV64GC True]
      mem_example_inv acc by fastforce
qed

end
