(* ===== verification/Rev_RV_I.thy ===== *)
theory Rev_RV_I
  imports Rev_InstHelpers
begin

text \<open>
  \<^verbatim>\<open>include/insns/RV32I.h\<close> and \<^verbatim>\<open>include/insns/RV64I.h\<close>: the base integer instructions, their
  compressed forms and the tables that describe their encodings. In a table, setters that
  restate the default of \<^verbatim>\<open>RevInstDefaults\<close> are left out.
\<close>

section \<open>Standard instructions\<close>

definition lui :: inst_fun where
  "lui F I C = (let R = SetX_s (i_rd I) (ucast (push_bit 12 (i_imm I)) :: u32) (c_R C)
     in Inr (True, C\<lparr>c_R := AdvancePC I R\<rparr>))"

definition auipc :: inst_fun where
  "auipc F I C =
     (let ui = (ucast (push_bit 12 (i_imm I)) :: u32);
          R = SetX_u (i_rd I) (scast ui + GetPC (c_R C) :: u64) (c_R C)
      in Inr (True, C\<lparr>c_R := AdvancePC I R\<rparr>))"

definition jal :: inst_fun where
  "jal F I C =
     (let R1 = SetX_u (i_rd I) (GetPC (c_R C) + ucast (i_instSize I) :: u64) (c_R C)
      in Inr (True, C\<lparr>c_R := SetPC (GetPC R1 + scast (ImmSignExt I 21)) R1\<rparr>))"

definition jalr :: inst_fun where
  "jalr F I C =
     (let R = c_R C;
          ret = (GetPC R + ucast (i_instSize I) :: u64);
          R1 = SetPC ((GetX R (i_rs1 I) + scast (ImmSignExt I 12)) AND - 2) R
      in Inr (True, C\<lparr>c_R := SetX_u (i_rd I) ret R1\<rparr>))"

definition beq :: inst_fun where "beq = bcond (=) (=)"
definition bne :: inst_fun where "bne = bcond (\<noteq>) (\<noteq>)"
definition blt :: inst_fun where "blt = bcond (\<lambda>a b. sint a < sint b) (\<lambda>a b. sint a < sint b)"
definition bltu :: inst_fun where "bltu = bcond (<) (<)"
definition bge :: inst_fun where "bge = bcond (\<lambda>a b. sint a \<ge> sint b) (\<lambda>a b. sint a \<ge> sint b)"
definition bgeu :: inst_fun where "bgeu = bcond (\<ge>) (\<ge>)"

definition lb :: inst_fun where "lb = load 1 True"
definition lh :: inst_fun where "lh = load 2 True"
definition lw :: inst_fun where "lw = load 4 True"
definition lbu :: inst_fun where "lbu = load 1 False"
definition lhu :: inst_fun where "lhu = load 2 False"

definition sb :: inst_fun where "sb = store 1"
definition sh :: inst_fun where "sh = store 2"
definition sw :: inst_fun where "sw = store 4"

definition add :: inst_fun where "add = oper (+) (+) Reg False"
definition addi :: inst_fun where "addi = oper (+) (+) Imm False"
definition sub_inst :: inst_fun where "sub_inst = oper (-) (-) Reg False"
definition f_xor :: inst_fun where "f_xor = oper (XOR) (XOR) Reg False"
definition xori :: inst_fun where "xori = oper (XOR) (XOR) Imm False"
definition f_or :: inst_fun where "f_or = oper (OR) (OR) Reg False"
definition ori :: inst_fun where "ori = oper (OR) (OR) Imm False"
definition f_and :: inst_fun where "f_and = oper (AND) (AND) Reg False"
definition andi :: inst_fun where "andi = oper (AND) (AND) Imm False"

definition slt :: inst_fun where "slt = oper less_s less_s Reg False"
definition slti :: inst_fun where "slti = oper less_s less_s Imm False"
definition sltu :: inst_fun where "sltu = oper less_u less_u Reg False"
definition sltiu :: inst_fun where "sltiu = oper less_u less_u Imm False"

definition slli :: inst_fun where "slli = oper ShiftLeft ShiftLeft Imm False"
definition srli :: inst_fun where "srli = oper ShiftRight_u ShiftRight_u Imm False"
definition srai :: inst_fun where "srai = oper ShiftRight_s ShiftRight_s Imm False"
definition sll :: inst_fun where "sll = oper ShiftLeft ShiftLeft Reg False"
definition srl :: inst_fun where "srl = oper ShiftRight_u ShiftRight_u Reg False"
definition sra :: inst_fun where "sra = oper ShiftRight_s ShiftRight_s Reg False"

definition fence :: inst_fun where
  "fence F I C = (let (_, M) = FenceMem (GetHartToExecID F) (c_M C)
     in Inr (True, C\<lparr>c_M := M, c_R := AdvancePC I (c_R C)\<rparr>))"

definition fencei :: inst_fun where
  "fencei F I C = (let (_, M) = FenceMem (GetHartToExecID F) (c_M C)
     in Inr (True, C\<lparr>c_M := M, c_R := AdvancePC I (c_R C)\<rparr>))"

definition ecall :: inst_fun where
  "ecall F I C = (let R = SetSCAUSE ECALL_USER_MODE (SetSTVAL 0 (SetSEPC (c_R C)))
     in Inr (True, C\<lparr>c_R := AdvancePC I R\<rparr>))"

definition ebreak :: inst_fun where
  "ebreak F I C = Inr (True, C\<lparr>c_R := AdvancePC I (c_R C)\<rparr>)"

text \<open>The CSR instructions have the same body: they do nothing yet.\<close>

definition csrrw :: inst_fun where
  "csrrw F I C = Inr (True, C\<lparr>c_R := AdvancePC I (c_R C)\<rparr>)"
definition csrrs :: inst_fun where
  "csrrs F I C = Inr (True, C\<lparr>c_R := AdvancePC I (c_R C)\<rparr>)"
definition csrrc :: inst_fun where
  "csrrc F I C = Inr (True, C\<lparr>c_R := AdvancePC I (c_R C)\<rparr>)"
definition csrrwi :: inst_fun where
  "csrrwi F I C = Inr (True, C\<lparr>c_R := AdvancePC I (c_R C)\<rparr>)"
definition csrrsi :: inst_fun where
  "csrrsi F I C = Inr (True, C\<lparr>c_R := AdvancePC I (c_R C)\<rparr>)"
definition csrrci :: inst_fun where
  "csrrci F I C = Inr (True, C\<lparr>c_R := AdvancePC I (c_R C)\<rparr>)"

text \<open>The instructions of RV64I.\<close>

definition ld :: inst_fun where "ld = load 8 True"
definition lwu :: inst_fun where "lwu = load 4 False"
definition sd :: inst_fun where "sd = store 8"
definition addw :: inst_fun where "addw = oper (+) (+) Reg True"
definition subw :: inst_fun where "subw = oper (-) (-) Reg True"
definition addiw :: inst_fun where "addiw = oper (+) (+) Imm True"
definition slliw :: inst_fun where "slliw = oper ShiftLeft ShiftLeft Imm True"
definition srliw :: inst_fun where "srliw = oper ShiftRight_u ShiftRight_u Imm True"
definition sraiw :: inst_fun where "sraiw = oper ShiftRight_s ShiftRight_s Imm True"
definition sllw :: inst_fun where "sllw = oper ShiftLeft ShiftLeft Reg True"
definition srlw :: inst_fun where "srlw = oper ShiftRight_u ShiftRight_u Reg True"
definition sraw :: inst_fun where "sraw = oper ShiftRight_s ShiftRight_s Reg True"

section \<open>Compressed instructions\<close>

definition caddi4spn :: inst_fun where
  "caddi4spn F I C =
     (if i_imm I = 0 then Inr (True, C\<lparr>c_R := AdvancePC I (c_R C)\<rparr>)
      else addi F (I\<lparr>i_imm := (i_imm I AND 0b11111111) * 4\<rparr>) C)"

definition clwsp :: inst_fun where
  "clwsp F I C = lw F (I\<lparr>i_imm := i_imm I AND 0b11111111\<rparr>) C"

definition cswsp :: inst_fun where
  "cswsp F I C = sw F (I\<lparr>i_imm := i_imm I AND 0b11111111\<rparr>) C"

definition clw :: inst_fun where
  "clw F I C = lw F (I\<lparr>i_imm := i_imm I AND 0b1111111\<rparr>) C"

definition csw :: inst_fun where
  "csw F I C = sw F (I\<lparr>i_imm := i_imm I AND 0b1111111\<rparr>) C"

definition cj :: inst_fun where
  "cj F I C =
     (let I1 = I\<lparr>i_rd := 0, i_imm := ucast (i_jumpTarget I)\<rparr>
      in jal F (I1\<lparr>i_imm := scast (ImmSignExt I1 12)\<rparr>) C)"

definition cjal :: inst_fun where
  "cjal F I C = jal F (I\<lparr>i_imm := ucast (i_jumpTarget I)\<rparr>) C"

definition cmv :: inst_fun where
  "cmv F I C = add F I C"

definition cjr :: inst_fun where
  "cjr F I C = jalr F (I\<lparr>i_rs2 := 0\<rparr>) C"

definition CRFUNC_1000 :: inst_fun where
  "CRFUNC_1000 F I C = (if i_rs2 I \<noteq> 0 then cmv F I C else cjr F I C)"

definition CRFUNC_1001 :: inst_fun where
  "CRFUNC_1001 F I C =
     (if i_rs1 I = 0 \<and> i_rd I = 0 then ebreak F I C
      else if i_rs2 I = 0 \<and> i_rd I \<noteq> 0 then jalr F (I\<lparr>i_rd := 1\<rparr>) C
      else add F I C)"

definition cadd :: inst_fun where
  "cadd F I C = add F (I\<lparr>i_rs1 := i_rd I\<rparr>) C"

definition cjalr :: inst_fun where
  "cjalr F I C = jalr F (I\<lparr>i_rs2 := 1\<rparr>) C"

definition cbeqz :: inst_fun where
  "cbeqz F I C =
     (let I1 = I\<lparr>i_rs2 := 0, i_imm := ucast (i_offset I)\<rparr>
      in beq F (I1\<lparr>i_imm := scast (ImmSignExt I1 9)\<rparr>) C)"

definition cbnez :: inst_fun where
  "cbnez F I C =
     (let I1 = I\<lparr>i_imm := ucast (i_offset I)\<rparr>
      in bne F (I1\<lparr>i_imm := scast (ImmSignExt I1 9)\<rparr>) C)"

definition cli :: inst_fun where
  "cli F I C = addi F (I\<lparr>i_imm := scast (ImmSignExt I 6)\<rparr>) C"

definition CIFUNC :: inst_fun where
  "CIFUNC F I C =
     (if i_rd I = 2 then addi F (I\<lparr>i_imm := scast (ImmSignExt I 10)\<rparr>) C
      else lui F (I\<lparr>i_imm := scast (ImmSignExt I 17)\<rparr>) C)"

definition caddi :: inst_fun where
  "caddi F I C = addi F (I\<lparr>i_imm := scast (ImmSignExt I 6)\<rparr>) C"

definition cslli :: inst_fun where
  "cslli F I C = slli F I C"

definition csrli :: inst_fun where
  "csrli F I C = srli F (I\<lparr>i_rs1 := i_rd I\<rparr>) C"

definition csrai :: inst_fun where
  "csrai F I C = srai F I C"

definition candi :: inst_fun where
  "candi F I C = andi F (I\<lparr>i_imm := scast (ImmSignExt I 6)\<rparr>) C"

definition cand :: inst_fun where "cand F I C = f_and F I C"
definition cor :: inst_fun where "cor F I C = f_or F I C"
definition cxor :: inst_fun where "cxor F I C = f_xor F I C"
definition csub :: inst_fun where "csub F I C = sub_inst F I C"

definition cldsp :: inst_fun where
  "cldsp F I C = ld F (I\<lparr>i_imm := i_imm I AND 0b111111111\<rparr>) C"

definition csdsp :: inst_fun where
  "csdsp F I C = sd F (I\<lparr>i_imm := i_imm I AND 0b1111111111\<rparr>) C"

definition cld :: inst_fun where
  "cld F I C = ld F (I\<lparr>i_imm := i_imm I AND 0b11111111\<rparr>) C"

definition csd :: inst_fun where
  "csd F I C = sd F (I\<lparr>i_imm := i_imm I AND 0b11111111\<rparr>) C"

definition caddiw :: inst_fun where
  "caddiw F I C = addiw F (I\<lparr>i_imm := scast (ImmSignExt I 6)\<rparr>) C"

definition caddw :: inst_fun where "caddw F I C = addw F I C"
definition csubw :: inst_fun where "csubw F I C = subw F I C"

section \<open>Tables\<close>

definition RV32ITable :: "RevInstEntry list" where
  "RV32ITable =
    [RevInstDefaults\<lparr>e_mnemonic := ''lui %rd, $imm'', e_opcode := 0b0110111,
       e_rs1Class := RegUNKNOWN, e_rs2Class := RegUNKNOWN, e_format := RVTypeU,
       e_func := Some lui\<rparr>,
     RevInstDefaults\<lparr>e_mnemonic := ''auipc %rd, $imm'', e_opcode := 0b0010111,
       e_rs1Class := RegUNKNOWN, e_rs2Class := RegUNKNOWN, e_format := RVTypeU,
       e_func := Some auipc\<rparr>,
     RevInstDefaults\<lparr>e_mnemonic := ''jal %rd, $imm'', e_opcode := 0b1101111,
       e_rs1Class := RegUNKNOWN, e_rs2Class := RegUNKNOWN, e_format := RVTypeJ,
       e_func := Some jal\<rparr>,
     RevInstDefaults\<lparr>e_mnemonic := ''jalr %rd, %rs1, $imm'', e_opcode := 0b1100111,
       e_rs2Class := RegUNKNOWN, e_imm := FImm, e_format := RVTypeI, e_func := Some jalr\<rparr>,
     RevInstDefaults\<lparr>e_mnemonic := ''beq %rs1, %rs2, $imm'', e_opcode := 0b1100011,
       e_rdClass := RegIMM, e_format := RVTypeB, e_func := Some beq\<rparr>,
     RevInstDefaults\<lparr>e_mnemonic := ''bne %rs1, %rs2, $imm'', e_opcode := 0b1100011,
       e_funct3 := 1, e_rdClass := RegIMM, e_format := RVTypeB, e_func := Some bne\<rparr>,
     RevInstDefaults\<lparr>e_mnemonic := ''blt %rs1, %rs2, $imm'', e_opcode := 0b1100011,
       e_funct3 := 0b100, e_rdClass := RegIMM, e_format := RVTypeB, e_func := Some blt\<rparr>,
     RevInstDefaults\<lparr>e_mnemonic := ''bge %rs1, %rs2, $imm'', e_opcode := 0b1100011,
       e_funct3 := 0b101, e_rdClass := RegIMM, e_format := RVTypeB, e_func := Some bge\<rparr>,
     RevInstDefaults\<lparr>e_mnemonic := ''bltu %rs1, %rs2, $imm'', e_opcode := 0b1100011,
       e_funct3 := 0b110, e_rdClass := RegIMM, e_format := RVTypeB, e_func := Some bltu\<rparr>,
     RevInstDefaults\<lparr>e_mnemonic := ''bgeu %rs1, %rs2, $imm'', e_opcode := 0b1100011,
       e_funct3 := 0b111, e_rdClass := RegIMM, e_format := RVTypeB, e_func := Some bgeu\<rparr>,
     RevInstDefaults\<lparr>e_mnemonic := ''lb %rd, $imm(%rs1)'', e_opcode := 0b0000011,
       e_rs2Class := RegUNKNOWN, e_imm := FImm, e_format := RVTypeI, e_func := Some lb\<rparr>,
     RevInstDefaults\<lparr>e_mnemonic := ''lh %rd, $imm(%rs1)'', e_opcode := 0b0000011,
       e_funct3 := 1, e_rs2Class := RegUNKNOWN, e_imm := FImm, e_format := RVTypeI,
       e_func := Some lh\<rparr>,
     RevInstDefaults\<lparr>e_mnemonic := ''lw %rd, $imm(%rs1)'', e_opcode := 0b0000011,
       e_funct3 := 0b010, e_rs2Class := RegUNKNOWN, e_imm := FImm, e_format := RVTypeI,
       e_func := Some lw\<rparr>,
     RevInstDefaults\<lparr>e_mnemonic := ''lbu %rd, $imm(%rs1)'', e_opcode := 0b0000011,
       e_funct3 := 0b100, e_rs2Class := RegUNKNOWN, e_imm := FImm, e_format := RVTypeI,
       e_func := Some lbu\<rparr>,
     RevInstDefaults\<lparr>e_mnemonic := ''lhu %rd, $imm(%rs1)'', e_opcode := 0b0000011,
       e_funct3 := 0b101, e_rs2Class := RegUNKNOWN, e_imm := FImm, e_format := RVTypeI,
       e_func := Some lhu\<rparr>,
     RevInstDefaults\<lparr>e_mnemonic := ''sb %rs2, $imm(%rs1)'', e_opcode := 0b0100011,
       e_rdClass := RegIMM, e_format := RVTypeS, e_func := Some sb\<rparr>,
     RevInstDefaults\<lparr>e_mnemonic := ''sh %rs2, $imm(%rs1)'', e_opcode := 0b0100011,
       e_funct3 := 1, e_rdClass := RegIMM, e_format := RVTypeS, e_func := Some sh\<rparr>,
     RevInstDefaults\<lparr>e_mnemonic := ''sw %rs2, $imm(%rs1)'', e_opcode := 0b0100011,
       e_funct3 := 0b010, e_rdClass := RegIMM, e_format := RVTypeS, e_func := Some sw\<rparr>,
     RevInstDefaults\<lparr>e_mnemonic := ''addi %rd, %rs1, $imm'', e_opcode := 0b0010011,
       e_rs2Class := RegUNKNOWN, e_imm := FImm, e_format := RVTypeI, e_func := Some addi\<rparr>,
     RevInstDefaults\<lparr>e_mnemonic := ''slti %rd, %rs1, $imm'', e_opcode := 0b0010011,
       e_funct3 := 0b010, e_rs2Class := RegUNKNOWN, e_imm := FImm, e_format := RVTypeI,
       e_func := Some slti\<rparr>,
     RevInstDefaults\<lparr>e_mnemonic := ''sltiu %rd, %rs1, $imm'', e_opcode := 0b0010011,
       e_funct3 := 0b011, e_rs2Class := RegUNKNOWN, e_imm := FImm, e_format := RVTypeI,
       e_func := Some sltiu\<rparr>,
     RevInstDefaults\<lparr>e_mnemonic := ''xori %rd, %rs1, $imm'', e_opcode := 0b0010011,
       e_funct3 := 0b100, e_rs2Class := RegUNKNOWN, e_imm := FImm, e_format := RVTypeI,
       e_func := Some xori\<rparr>,
     RevInstDefaults\<lparr>e_mnemonic := ''ori %rd, %rs1, $imm'', e_opcode := 0b0010011,
       e_funct3 := 0b110, e_rs2Class := RegUNKNOWN, e_imm := FImm, e_format := RVTypeI,
       e_func := Some ori\<rparr>,
     RevInstDefaults\<lparr>e_mnemonic := ''andi %rd, %rs1, $imm'', e_opcode := 0b0010011,
       e_funct3 := 0b111, e_rs2Class := RegUNKNOWN, e_imm := FImm, e_format := RVTypeI,
       e_func := Some andi\<rparr>,
     RevInstDefaults\<lparr>e_mnemonic := ''slli %rd, %rs1, $imm'', e_opcode := 0b0010011,
       e_funct3 := 1, e_rs2Class := RegUNKNOWN, e_imm := FImm, e_format := RVTypeI,
       e_func := Some slli\<rparr>,
     RevInstDefaults\<lparr>e_mnemonic := ''srli %rd, %rs1, $imm'', e_opcode := 0b0010011,
       e_funct3 := 0b101, e_rs2Class := RegUNKNOWN, e_imm := FImm, e_format := RVTypeI,
       e_func := Some srli\<rparr>,
     RevInstDefaults\<lparr>e_mnemonic := ''srai %rd, %rs1, $imm'', e_opcode := 0b0010011,
       e_funct3 := 0b101, e_funct2or7 := 0b0010000, e_rs2Class := RegUNKNOWN, e_imm := FImm,
       e_format := RVTypeI, e_func := Some srai\<rparr>,
     RevInstDefaults\<lparr>e_mnemonic := ''add %rd, %rs1, %rs2'', e_opcode := 0b0110011,
       e_func := Some add\<rparr>,
     RevInstDefaults\<lparr>e_mnemonic := ''sub %rd, %rs1, %rs2'', e_opcode := 0b0110011,
       e_funct2or7 := 0b0100000, e_func := Some sub_inst\<rparr>,
     RevInstDefaults\<lparr>e_mnemonic := ''sll %rd, %rs1, %rs2'', e_opcode := 0b0110011,
       e_funct3 := 1, e_func := Some sll\<rparr>,
     RevInstDefaults\<lparr>e_mnemonic := ''slt %rd, %rs1, %rs2'', e_opcode := 0b0110011,
       e_funct3 := 0b010, e_func := Some slt\<rparr>,
     RevInstDefaults\<lparr>e_mnemonic := ''sltu %rd, %rs1, %rs2'', e_opcode := 0b0110011,
       e_funct3 := 0b011, e_func := Some sltu\<rparr>,
     RevInstDefaults\<lparr>e_mnemonic := ''xor %rd, %rs1, %rs2'', e_opcode := 0b0110011,
       e_funct3 := 0b100, e_func := Some f_xor\<rparr>,
     RevInstDefaults\<lparr>e_mnemonic := ''srl %rd, %rs1, %rs2'', e_opcode := 0b0110011,
       e_funct3 := 0b101, e_func := Some srl\<rparr>,
     RevInstDefaults\<lparr>e_mnemonic := ''sra %rd, %rs1, %rs2'', e_opcode := 0b0110011,
       e_funct3 := 0b101, e_funct2or7 := 0b0100000, e_func := Some sra\<rparr>,
     RevInstDefaults\<lparr>e_mnemonic := ''or %rd, %rs1, %rs2'', e_opcode := 0b0110011,
       e_funct3 := 0b110, e_func := Some f_or\<rparr>,
     RevInstDefaults\<lparr>e_mnemonic := ''and %rd, %rs1, %rs2'', e_opcode := 0b0110011,
       e_funct3 := 0b111, e_func := Some f_and\<rparr>,
     RevInstDefaults\<lparr>e_mnemonic := ''fence'', e_opcode := 0b0001111,
       e_rdClass := RegUNKNOWN, e_rs1Class := RegUNKNOWN, e_rs2Class := RegUNKNOWN, e_imm := FVal,
       e_format := RVTypeI, e_func := Some fence\<rparr>,
     RevInstDefaults\<lparr>e_mnemonic := ''fence.i'', e_opcode := 0b0001111, e_funct3 := 1,
       e_rdClass := RegUNKNOWN, e_rs1Class := RegUNKNOWN, e_rs2Class := RegUNKNOWN,
       e_format := RVTypeI, e_func := Some fencei\<rparr>,
     RevInstDefaults\<lparr>e_mnemonic := ''ecall'', e_opcode := 0b1110011,
       e_rdClass := RegUNKNOWN, e_rs1Class := RegUNKNOWN, e_rs2Class := RegUNKNOWN, e_imm := FEnc,
       e_format := RVTypeI, e_func := Some ecall\<rparr>,
     RevInstDefaults\<lparr>e_mnemonic := ''ebreak'', e_opcode := 0b1110011,
       e_rdClass := RegUNKNOWN, e_rs1Class := RegUNKNOWN, e_rs2Class := RegUNKNOWN, e_imm12 := 1,
       e_imm := FEnc, e_format := RVTypeI, e_func := Some ebreak\<rparr>,
     RevInstDefaults\<lparr>e_mnemonic := ''csrrw %rd, %rs1, $imm'', e_opcode := 0b1110011,
       e_funct3 := 1, e_rs2Class := RegUNKNOWN, e_imm := FVal, e_format := RVTypeU,
       e_func := Some csrrw\<rparr>,
     RevInstDefaults\<lparr>e_mnemonic := ''csrrs %rd, %rs1, $imm'', e_opcode := 0b1110011,
       e_funct3 := 0b010, e_rs2Class := RegUNKNOWN, e_imm := FVal, e_format := RVTypeU,
       e_func := Some csrrs\<rparr>,
     RevInstDefaults\<lparr>e_mnemonic := ''csrrc %rd, %rs1, $imm'', e_opcode := 0b1110011,
       e_funct3 := 0b011, e_rs2Class := RegUNKNOWN, e_imm := FVal, e_format := RVTypeU,
       e_func := Some csrrc\<rparr>,
     RevInstDefaults\<lparr>e_mnemonic := ''csrrwi %rd, %rs1, $imm'', e_opcode := 0b1110011,
       e_funct3 := 0b101, e_rs2Class := RegUNKNOWN, e_imm := FVal, e_format := RVTypeU,
       e_func := Some csrrwi\<rparr>,
     RevInstDefaults\<lparr>e_mnemonic := ''csrrsi %rd, %rs1, $imm'', e_opcode := 0b1110011,
       e_funct3 := 0b110, e_rs2Class := RegUNKNOWN, e_imm := FVal, e_format := RVTypeU,
       e_func := Some csrrsi\<rparr>,
     RevInstDefaults\<lparr>e_mnemonic := ''csrrci %rd, %rs1, $imm'', e_opcode := 0b1110011,
       e_funct3 := 0b111, e_rs2Class := RegUNKNOWN, e_imm := FVal, e_format := RVTypeU,
       e_func := Some csrrci\<rparr>]"

definition RV32ICTable :: "RevInstEntry list" where
  "RV32ICTable =
    [RevInstDefaults\<lparr>e_mnemonic := ''c.addi4spn %rd, $imm'', e_imm := FVal,
       e_format := RVCTypeCIW, e_compressed := True, e_func := Some caddi4spn\<rparr>,
     RevInstDefaults\<lparr>e_mnemonic := ''c.lwsp %rd, $imm'', e_opcode := 0b10,
       e_funct3 := 0b010, e_imm := FVal, e_format := RVCTypeCI, e_compressed := True,
       e_func := Some clwsp\<rparr>,
     RevInstDefaults\<lparr>e_mnemonic := ''c.swsp %rs2, $imm'', e_opcode := 0b10,
       e_funct3 := 0b110, e_imm := FVal, e_format := RVCTypeCSS, e_compressed := True,
       e_func := Some cswsp\<rparr>,
     RevInstDefaults\<lparr>e_mnemonic := ''c.lw %rd, $rs1, $imm'', e_funct3 := 0b010,
       e_imm := FVal, e_format := RVCTypeCL, e_compressed := True, e_func := Some clw\<rparr>,
     RevInstDefaults\<lparr>e_mnemonic := ''c.sw %rs2, %rs1, $imm'', e_funct3 := 0b110,
       e_imm := FVal, e_format := RVCTypeCS, e_compressed := True, e_func := Some csw\<rparr>,
     RevInstDefaults\<lparr>e_mnemonic := ''c.j $imm'', e_opcode := 1, e_funct3 := 0b101,
       e_imm := FVal, e_format := RVCTypeCJ, e_compressed := True, e_func := Some cj\<rparr>,
     RevInstDefaults\<lparr>e_mnemonic := ''c.jr %rs1'', e_opcode := 0b10, e_funct4 := 0b1000,
       e_format := RVCTypeCR, e_compressed := True, e_func := Some CRFUNC_1000\<rparr>,
     RevInstDefaults\<lparr>e_mnemonic := ''c.jalr %rs1'', e_opcode := 0b10, e_funct4 := 0b1001,
       e_format := RVCTypeCR, e_compressed := True, e_func := Some CRFUNC_1001\<rparr>,
     RevInstDefaults\<lparr>e_mnemonic := ''c.beqz %rs1, $imm'', e_opcode := 1, e_funct3 := 0b110,
       e_imm := FVal, e_format := RVCTypeCB, e_compressed := True, e_func := Some cbeqz\<rparr>,
     RevInstDefaults\<lparr>e_mnemonic := ''c.bnez %rs1, $imm'', e_opcode := 1, e_funct3 := 0b111,
       e_imm := FVal, e_format := RVCTypeCB, e_compressed := True, e_func := Some cbnez\<rparr>,
     RevInstDefaults\<lparr>e_mnemonic := ''c.li %rd, $imm'', e_opcode := 1, e_funct3 := 0b010,
       e_imm := FVal, e_format := RVCTypeCI, e_compressed := True, e_func := Some cli\<rparr>,
     RevInstDefaults\<lparr>e_mnemonic := ''c.lui %rd, $imm'', e_opcode := 1, e_funct3 := 0b011,
       e_imm := FVal, e_format := RVCTypeCI, e_compressed := True, e_func := Some CIFUNC\<rparr>,
     RevInstDefaults\<lparr>e_mnemonic := ''c.addi %rd, $imm'', e_opcode := 1, e_imm := FVal,
       e_format := RVCTypeCI, e_compressed := True, e_func := Some caddi\<rparr>,
     RevInstDefaults\<lparr>e_mnemonic := ''c.slli %rd, $imm'', e_opcode := 0b10, e_imm := FVal,
       e_format := RVCTypeCI, e_compressed := True, e_func := Some cslli\<rparr>,
     RevInstDefaults\<lparr>e_mnemonic := ''c.srli %rd, $imm'', e_opcode := 1, e_funct3 := 0b100,
       e_imm := FVal, e_format := RVCTypeCB, e_compressed := True, e_func := Some csrli\<rparr>,
     RevInstDefaults\<lparr>e_mnemonic := ''c.srai %rd, $imm'', e_opcode := 1, e_funct2 := 1,
       e_funct3 := 0b100, e_imm := FVal, e_format := RVCTypeCB, e_compressed := True,
       e_func := Some csrai\<rparr>,
     RevInstDefaults\<lparr>e_mnemonic := ''c.andi %rd, $imm'', e_opcode := 1, e_funct2 := 0b10,
       e_funct3 := 0b100, e_imm := FVal, e_format := RVCTypeCB, e_compressed := True,
       e_func := Some candi\<rparr>,
     RevInstDefaults\<lparr>e_mnemonic := ''c.and %rd, %rs1'', e_opcode := 1, e_funct2 := 0b11,
       e_funct6 := 0b100011, e_format := RVCTypeCA, e_compressed := True,
       e_func := Some cand\<rparr>,
     RevInstDefaults\<lparr>e_mnemonic := ''c.or %rd, %rs1'', e_opcode := 1, e_funct2 := 0b10,
       e_funct6 := 0b100011, e_format := RVCTypeCA, e_compressed := True, e_func := Some cor\<rparr>,
     RevInstDefaults\<lparr>e_mnemonic := ''c.xor %rd, %rs1'', e_opcode := 1, e_funct2 := 1,
       e_funct6 := 0b100011, e_format := RVCTypeCA, e_compressed := True,
       e_func := Some cxor\<rparr>,
     RevInstDefaults\<lparr>e_mnemonic := ''c.sub %rd, %rs1'', e_opcode := 1, e_funct6 := 0b100011,
       e_format := RVCTypeCA, e_compressed := True, e_func := Some csub\<rparr>]"

definition RV32ICOTable :: "RevInstEntry list" where
  "RV32ICOTable =
    [RevInstDefaults\<lparr>e_mnemonic := ''c.jal $imm'', e_opcode := 1, e_funct3 := 1,
       e_format := RVCTypeCJ, e_compressed := True, e_func := Some cjal\<rparr>]"

definition RV64ITable :: "RevInstEntry list" where
  "RV64ITable =
    [RevInstDefaults\<lparr>e_mnemonic := ''lwu %rd, $imm(%rs1)'', e_opcode := 0b0000011,
       e_funct3 := 0b110, e_rs2Class := RegUNKNOWN, e_imm := FImm, e_format := RVTypeI,
       e_func := Some lwu\<rparr>,
     RevInstDefaults\<lparr>e_mnemonic := ''ld %rd, $imm(%rs1)'', e_opcode := 0b0000011,
       e_funct3 := 0b011, e_rs2Class := RegUNKNOWN, e_imm := FImm, e_format := RVTypeI,
       e_func := Some ld\<rparr>,
     RevInstDefaults\<lparr>e_mnemonic := ''sd %rs2, $imm(%rs1)'', e_opcode := 0b0100011,
       e_funct3 := 0b011, e_rdClass := RegIMM, e_format := RVTypeS, e_func := Some sd\<rparr>,
     RevInstDefaults\<lparr>e_mnemonic := ''addiw %rd, %rs1, $imm'', e_opcode := 0b0011011,
       e_rs2Class := RegUNKNOWN, e_imm := FImm, e_format := RVTypeI, e_func := Some addiw\<rparr>,
     RevInstDefaults\<lparr>e_mnemonic := ''slliw %rd, %rs1, $imm'', e_opcode := 0b0011011,
       e_funct3 := 1, e_rs2Class := RegUNKNOWN, e_imm := FImm, e_format := RVTypeI,
       e_func := Some slliw\<rparr>,
     RevInstDefaults\<lparr>e_mnemonic := ''srliw %rd, %rs1, $imm'', e_opcode := 0b0011011,
       e_funct3 := 0b101, e_rs2Class := RegUNKNOWN, e_imm := FImm, e_format := RVTypeI,
       e_func := Some srliw\<rparr>,
     RevInstDefaults\<lparr>e_mnemonic := ''sraiw %rd, %rs1, $imm'', e_opcode := 0b0011011,
       e_funct3 := 0b101, e_funct2or7 := 0b0100000, e_rs2Class := RegUNKNOWN, e_imm := FImm,
       e_format := RVTypeI, e_func := Some sraiw\<rparr>,
     RevInstDefaults\<lparr>e_mnemonic := ''addw %rd, %rs1, %rs2'', e_opcode := 0b0111011,
       e_func := Some addw\<rparr>,
     RevInstDefaults\<lparr>e_mnemonic := ''subw %rd, %rs1, %rs2'', e_opcode := 0b0111011,
       e_funct2or7 := 0b0100000, e_func := Some subw\<rparr>,
     RevInstDefaults\<lparr>e_mnemonic := ''sllw %rd, %rs1, %rs2'', e_opcode := 0b0111011,
       e_funct3 := 1, e_func := Some sllw\<rparr>,
     RevInstDefaults\<lparr>e_mnemonic := ''srlw %rd, %rs1, %rs2'', e_opcode := 0b0111011,
       e_funct3 := 0b101, e_func := Some srlw\<rparr>,
     RevInstDefaults\<lparr>e_mnemonic := ''sraw %rd, %rs1, %rs2'', e_opcode := 0b0111011,
       e_funct3 := 0b101, e_funct2or7 := 0b0100000, e_func := Some sraw\<rparr>]"

definition RV64ICTable :: "RevInstEntry list" where
  "RV64ICTable =
    [RevInstDefaults\<lparr>e_mnemonic := ''c.ldsp %rd, $imm'', e_opcode := 0b10,
       e_funct3 := 0b011, e_imm := FVal, e_format := RVCTypeCI, e_compressed := True,
       e_func := Some cldsp\<rparr>,
     RevInstDefaults\<lparr>e_mnemonic := ''c.sdsp %rs2, $imm'', e_opcode := 0b10,
       e_funct3 := 0b111, e_imm := FVal, e_format := RVCTypeCSS, e_compressed := True,
       e_func := Some csdsp\<rparr>,
     RevInstDefaults\<lparr>e_mnemonic := ''c.ld %rd, %rs1, $imm'', e_funct3 := 0b011,
       e_imm := FVal, e_format := RVCTypeCL, e_compressed := True, e_func := Some cld\<rparr>,
     RevInstDefaults\<lparr>e_mnemonic := ''c.sd %rs2, %rs1, $imm'', e_funct3 := 0b111,
       e_imm := FVal, e_format := RVCTypeCS, e_compressed := True, e_func := Some csd\<rparr>,
     RevInstDefaults\<lparr>e_mnemonic := ''c.addiw %rd, $imm'', e_opcode := 1, e_funct3 := 1,
       e_imm := FVal, e_format := RVCTypeCI, e_compressed := True, e_func := Some caddiw\<rparr>,
     RevInstDefaults\<lparr>e_mnemonic := ''c.addw %rd, %rs1'', e_opcode := 1, e_funct2 := 1,
       e_funct6 := 0b100111, e_format := RVCTypeCA, e_compressed := True,
       e_func := Some caddw\<rparr>,
     RevInstDefaults\<lparr>e_mnemonic := ''c.subw %rd, %rs1'', e_opcode := 1,
       e_funct6 := 0b100111, e_format := RVCTypeCA, e_compressed := True,
       e_func := Some csubw\<rparr>]"

end
