(* ===== verification/Rev_RV_M.thy ===== *)
theory Rev_RV_M
  imports Rev_InstHelpers
begin

text \<open>\<^verbatim>\<open>include/insns/RV32M.h\<close> and \<^verbatim>\<open>include/insns/RV64M.h\<close>: multiplication and division.\<close>

section \<open>Instructions\<close>

definition mulh :: inst_fun where "mulh = uppermul True True"
definition mulhu :: inst_fun where "mulhu = uppermul False False"
definition mulhsu :: inst_fun where "mulhsu = uppermul True False"
definition mul :: inst_fun where "mul = oper (*) (*) Reg False"
definition div_inst :: inst_fun where "div_inst = divrem Div True False"
definition divu :: inst_fun where "divu = divrem Div False False"
definition rem_inst :: inst_fun where "rem_inst = divrem Rem True False"
definition remu :: inst_fun where "remu = divrem Rem False False"

definition mulw :: inst_fun where "mulw = oper (*) (*) Reg True"
definition divw :: inst_fun where "divw = divrem Div True True"
definition divuw :: inst_fun where "divuw = divrem Div False True"
definition remw :: inst_fun where "remw = divrem Rem True True"
definition remuw :: inst_fun where "remuw = divrem Rem False True"

section \<open>Tables\<close>

text \<open>
  The defaults of the two tables (\<^verbatim>\<open>RevMInstDefaults\<close>, \<^verbatim>\<open>Rev64MInstDefaults\<close>) set the opcode
  and the funct7 field; they are written out in the entries.
\<close>

definition RV32MTable :: "RevInstEntry list" where
  "RV32MTable =
    [RevInstDefaults\<lparr>e_mnemonic := ''mul %rd, %rs1, %rs2'', e_opcode := 0b0110011,
       e_funct2or7 := 1, e_func := Some mul\<rparr>,
     RevInstDefaults\<lparr>e_mnemonic := ''mulh %rd, %rs1, %rs2'', e_opcode := 0b0110011,
       e_funct3 := 1, e_funct2or7 := 1, e_func := Some mulh\<rparr>,
     RevInstDefaults\<lparr>e_mnemonic := ''mulhsu %rd, %rs1, %rs2'', e_opcode := 0b0110011,
       e_funct3 := 0b010, e_funct2or7 := 1, e_func := Some mulhsu\<rparr>,
     RevInstDefaults\<lparr>e_mnemonic := ''mulhu %rd, %rs1, %rs2'', e_opcode := 0b0110011,
       e_funct3 := 0b011, e_funct2or7 := 1, e_func := Some mulhu\<rparr>,
     RevInstDefaults\<lparr>e_mnemonic := ''div %rd, %rs1, %rs2'', e_opcode := 0b0110011,
       e_funct3 := 0b100, e_funct2or7 := 1, e_func := Some div_inst\<rparr>,
     RevInstDefaults\<lparr>e_mnemonic := ''divu %rd, %rs1, %rs2'', e_opcode := 0b0110011,
       e_funct3 := 0b101, e_funct2or7 := 1, e_func := Some divu\<rparr>,
     RevInstDefaults\<lparr>e_mnemonic := ''rem %rd, %rs1, %rs2'', e_opcode := 0b0110011,
       e_funct3 := 0b110, e_funct2or7 := 1, e_func := Some rem_inst\<rparr>,
     RevInstDefaults\<lparr>e_mnemonic := ''remu %rd, %rs1, %rs20'', e_opcode := 0b0110011,
       e_funct3 := 0b111, e_funct2or7 := 1, e_func := Some remu\<rparr>]"

definition RV64MTable :: "RevInstEntry list" where
  "RV64MTable =
    [RevInstDefaults\<lparr>e_mnemonic := ''mulw %rd, %rs1, %rs2'', e_opcode := 0b0111011,
       e_funct2or7 := 1, e_func := Some mulw\<rparr>,
     RevInstDefaults\<lparr>e_mnemonic := ''divw %rd, %rs1, %rs2'', e_opcode := 0b0111011,
       e_funct3 := 0b100, e_funct2or7 := 1, e_func := Some divw\<rparr>,
     RevInstDefaults\<lparr>e_mnemonic := ''divuw %rd, %rs1, %rs2'', e_opcode := 0b0111011,
       e_funct3 := 0b101, e_funct2or7 := 1, e_func := Some divuw\<rparr>,
     RevInstDefaults\<lparr>e_mnemonic := ''remw %rd, %rs1, %rs2'', e_opcode := 0b0111011,
       e_funct3 := 0b110, e_funct2or7 := 1, e_func := Some remw\<rparr>,
     RevInstDefaults\<lparr>e_mnemonic := ''remuw %rd, %rs1, %rs2'', e_opcode := 0b0111011,
       e_funct3 := 0b111, e_funct2or7 := 1, e_func := Some remuw\<rparr>]"

end
