(* ===== verification/Rev_ALU.thy ===== *)
theory Rev_ALU
  imports Rev_RV_I Rev_RV_M
begin

text \<open>
  The integer computational instructions of RV64I and RV64M against the ISA manual: what each of them
  computes, as an integer expression in its operands, and that it changes nothing else.
\<close>

section \<open>The manual\<close>

text \<open>
  The result of an instruction on its two operands; it is taken modulo \<open>2 ^ 64\<close>. Shifts use the low six
  bits of the second operand. The instructions on words use the low 32 bits of the operands (five for a
  shift amount) and sign-extend their result. Division rounds towards zero; a division by zero gives all
  ones, its remainder the dividend.
\<close>

definition sx :: "u64 \<Rightarrow> int" where "sx a = signed_take_bit 31 (uint a)"
definition zx :: "u64 \<Rightarrow> int" where "zx a = uint a mod 2 ^ 32"
definition sext32 :: "int \<Rightarrow> int" where "sext32 i = signed_take_bit 31 i"

definition isa_add :: "u64 \<Rightarrow> u64 \<Rightarrow> int" where "isa_add a b = uint a + uint b"
definition isa_sub :: "u64 \<Rightarrow> u64 \<Rightarrow> int" where "isa_sub a b = uint a - uint b"
definition isa_slt :: "u64 \<Rightarrow> u64 \<Rightarrow> int" where "isa_slt a b = (if sint a < sint b then 1 else 0)"
definition isa_sltu :: "u64 \<Rightarrow> u64 \<Rightarrow> int" where "isa_sltu a b = (if uint a < uint b then 1 else 0)"
definition isa_sll :: "u64 \<Rightarrow> u64 \<Rightarrow> int" where "isa_sll a b = uint a * 2 ^ (unat b mod 64)"
definition isa_srl :: "u64 \<Rightarrow> u64 \<Rightarrow> int" where "isa_srl a b = uint a div 2 ^ (unat b mod 64)"
definition isa_sra :: "u64 \<Rightarrow> u64 \<Rightarrow> int" where "isa_sra a b = sint a div 2 ^ (unat b mod 64)"
definition isa_addw :: "u64 \<Rightarrow> u64 \<Rightarrow> int" where "isa_addw a b = sext32 (uint a + uint b)"
definition isa_subw :: "u64 \<Rightarrow> u64 \<Rightarrow> int" where "isa_subw a b = sext32 (uint a - uint b)"
definition isa_sllw :: "u64 \<Rightarrow> u64 \<Rightarrow> int" where "isa_sllw a b = sext32 (uint a * 2 ^ (unat b mod 32))"
definition isa_srlw :: "u64 \<Rightarrow> u64 \<Rightarrow> int" where "isa_srlw a b = sext32 (zx a div 2 ^ (unat b mod 32))"
definition isa_sraw :: "u64 \<Rightarrow> u64 \<Rightarrow> int" where "isa_sraw a b = sx a div 2 ^ (unat b mod 32)"
definition isa_mul :: "u64 \<Rightarrow> u64 \<Rightarrow> int" where "isa_mul a b = uint a * uint b"
definition isa_mulh :: "u64 \<Rightarrow> u64 \<Rightarrow> int" where "isa_mulh a b = sint a * sint b div 2 ^ 64"
definition isa_mulhu :: "u64 \<Rightarrow> u64 \<Rightarrow> int" where "isa_mulhu a b = uint a * uint b div 2 ^ 64"
definition isa_mulhsu :: "u64 \<Rightarrow> u64 \<Rightarrow> int" where "isa_mulhsu a b = sint a * uint b div 2 ^ 64"
definition isa_mulw :: "u64 \<Rightarrow> u64 \<Rightarrow> int" where "isa_mulw a b = sext32 (uint a * uint b)"
definition isa_div :: "u64 \<Rightarrow> u64 \<Rightarrow> int" where "isa_div a b = (if sint b = 0 then - 1 else sint a sdiv sint b)"
definition isa_divu :: "u64 \<Rightarrow> u64 \<Rightarrow> int" where "isa_divu a b = (if uint b = 0 then - 1 else uint a div uint b)"
definition isa_rem :: "u64 \<Rightarrow> u64 \<Rightarrow> int" where "isa_rem a b = (if sint b = 0 then sint a else sint a smod sint b)"
definition isa_remu :: "u64 \<Rightarrow> u64 \<Rightarrow> int" where "isa_remu a b = (if uint b = 0 then uint a else uint a mod uint b)"
definition isa_divw :: "u64 \<Rightarrow> u64 \<Rightarrow> int" where "isa_divw a b = sext32 (if sx b = 0 then - 1 else sx a sdiv sx b)"
definition isa_divuw :: "u64 \<Rightarrow> u64 \<Rightarrow> int" where "isa_divuw a b = sext32 (if zx b = 0 then - 1 else zx a div zx b)"
definition isa_remw :: "u64 \<Rightarrow> u64 \<Rightarrow> int" where "isa_remw a b = sext32 (if sx b = 0 then sx a else sx a smod sx b)"
definition isa_remuw :: "u64 \<Rightarrow> u64 \<Rightarrow> int" where "isa_remuw a b = sext32 (if zx b = 0 then zx a else zx a mod zx b)"

definition alu64_isa :: "(inst_fun \<times> OpKind \<times> (u64 \<Rightarrow> u64 \<Rightarrow> int)) list" where
  "alu64_isa =
    [(add, Reg, isa_add), (addi, Imm, isa_add), (sub_inst, Reg, isa_sub),
     (f_xor, Reg, \<lambda>a b. uint (a XOR b)), (xori, Imm, \<lambda>a b. uint (a XOR b)),
     (f_or, Reg, \<lambda>a b. uint (a OR b)), (ori, Imm, \<lambda>a b. uint (a OR b)),
     (f_and, Reg, \<lambda>a b. uint (a AND b)), (andi, Imm, \<lambda>a b. uint (a AND b)),
     (slt, Reg, isa_slt), (slti, Imm, isa_slt), (sltu, Reg, isa_sltu), (sltiu, Imm, isa_sltu),
     (sll, Reg, isa_sll), (slli, Imm, isa_sll), (srl, Reg, isa_srl), (srli, Imm, isa_srl), (sra, Reg, isa_sra), (srai, Imm, isa_sra),
     (addw, Reg, isa_addw), (addiw, Imm, isa_addw), (subw, Reg, isa_subw),
     (sllw, Reg, isa_sllw), (slliw, Imm, isa_sllw), (srlw, Reg, isa_srlw), (srliw, Imm, isa_srlw), (sraw, Reg, isa_sraw), (sraiw, Imm, isa_sraw),
     (mul, Reg, isa_mul), (mulh, Reg, isa_mulh), (mulhu, Reg, isa_mulhu), (mulhsu, Reg, isa_mulhsu), (mulw, Reg, isa_mulw),
     (div_inst, Reg, isa_div), (divu, Reg, isa_divu), (rem_inst, Reg, isa_rem), (remu, Reg, isa_remu),
     (divw, Reg, isa_divw), (divuw, Reg, isa_divuw), (remw, Reg, isa_remw), (remuw, Reg, isa_remuw)]"

text \<open>The value of a register, and the second operand: a register or the sign-extended 12-bit immediate.\<close>

definition xreg :: "RevRegFile \<Rightarrow> u64 \<Rightarrow> u64" where
  "xreg R r = (if r = 0 then 0 else rf_RV R (unat r))"

definition alu_operand :: "OpKind \<Rightarrow> RevInst \<Rightarrow> RevRegFile \<Rightarrow> u64" where
  "alu_operand kind I R = (case kind of Imm \<Rightarrow> word_of_int (signed_take_bit 11 (uint (i_imm I))) | Reg \<Rightarrow> xreg R (i_rs2 I))"

text \<open>The state after an instruction with a result: rd, unless it is x0, and the program counter.\<close>

definition alu_post :: "RevInst \<Rightarrow> int \<Rightarrow> RevCore \<Rightarrow> RevCore" where
  "alu_post I v C = C\<lparr>c_R := (c_R C)
     \<lparr>rf_RV := (rf_RV (c_R C))(unat (i_rd I) := if i_rd I = 0 then 0 else word_of_int v),
      rf_PC := rf_PC (c_R C) + ucast (i_instSize I)\<rparr>\<rparr>"

section \<open>Lemmas: the templates\<close>

lemma post_SetX:
  "\<not> rf_IsRV32 (c_R C) \<Longrightarrow> i_rd I < 32 \<Longrightarrow>
    C\<lparr>c_R := AdvancePC I (SetX_u (i_rd I) (word_of_int v :: u64) (c_R C))\<rparr> = alu_post I v C"
  by (simp add: alu_post_def AdvancePC_def AdvancePC_size_def SetX_u_def is_zero_reg_iff)

lemma GetX_xreg: "\<not> rf_IsRV32 R \<Longrightarrow> r < 32 \<Longrightarrow> (GetX R r :: 'a::len word) = ucast (xreg R r)"
  by (simp add: GetX_def xreg_def is_zero_reg_iff)

lemma imm_operand:
  "ImmSignExt I 12 = (ucast (alu_operand Imm I R) :: u32)" "scast (ImmSignExt I 12) = alu_operand Imm I R"
proof -
  have s: "SignExt (i_imm I) 12 = (word_of_int (signed_take_bit 11 (uint (i_imm I))) :: u64)"
    by (simp add: SignExt_signed_take_bit) (rule bit_word_eqI; auto simp: bit_simps)
  then show "ImmSignExt I 12 = (ucast (alu_operand Imm I R) :: u32)" by (simp add: ImmSignExt_def alu_operand_def)
  show "scast (ImmSignExt I 12) = alu_operand Imm I R"
    unfolding ImmSignExt_def s alu_operand_def OpKind.case by (rule bit_word_eqI) (auto simp: bit_simps min_def)
qed

lemma operands:
  assumes "\<not> rf_IsRV32 R" "i_rs2 I < 32"
  shows "(if kind = Imm then scast (ImmSignExt I 12) else GetX R (i_rs2 I)) = alu_operand kind I R"
    and "(if kind = Imm then ImmSignExt I 12 else GetX R (i_rs2 I)) = (ucast (alu_operand kind I R) :: u32)"
  using assms imm_operand [of I R] by (cases kind; simp add: GetX_xreg alu_operand_def)+

text \<open>An instruction computes what the manual says, in terms of the operation of its template.\<close>

definition computes :: "inst_fun \<Rightarrow> OpKind \<Rightarrow> (u64 \<Rightarrow> u64 \<Rightarrow> int) \<Rightarrow> bool" where
  "computes f kind sem \<longleftrightarrow> (\<forall>F I C. \<not> rf_IsRV32 (c_R C) \<longrightarrow> i_rd I < 32 \<longrightarrow> i_rs1 I < 32 \<longrightarrow> i_rs2 I < 32 \<longrightarrow>
     f F I C = Inr (True, alu_post I (sem (xreg (c_R C) (i_rs1 I)) (alu_operand kind I (c_R C))) C))"

lemma oper_computes:
  assumes "\<And>a b. op64 a b = word_of_int (sem a b)"
  shows "computes (oper op32 op64 kind False) kind sem"
  unfolding computes_def oper_runs
  by (auto simp: oper_res_def operands GetX_xreg assms post_SetX)

lemma operw_computes:
  assumes "\<And>a b. scast (op32 (ucast a) (ucast b)) = (word_of_int (sem a b) :: u64)"
  shows "computes (oper op32 op64 kind True) kind sem"
  unfolding computes_def oper_runs
  by (auto simp: oper_res_def operands GetX_xreg assms post_SetX)

lemma uppermul_computes:
  assumes "\<And>a b. val_of s1 a * val_of s2 b div 2 ^ 64 = sem a b"
  shows "computes (uppermul s1 s2) Reg sem"
  unfolding computes_def uppermul_runs
  by (auto simp: uppermul_res_def alu_operand_def GetX_xreg assms [simplified] post_SetX)

lemma divrem_computes:
  assumes "\<And>a b. divrem_op dr sg a b = (word_of_int (sem a b) :: u64)"
  shows "computes (divrem dr sg False) Reg sem"
  unfolding computes_def divrem_runs
  by (auto simp: divrem_res_def alu_operand_def GetX_xreg assms post_SetX)

lemma divremw_computes:
  assumes "\<And>a b. scast (divrem_op dr sg (ucast a :: u32) (ucast b)) = (word_of_int (sem a b) :: u64)"
  shows "computes (divrem dr sg True) Reg sem"
  unfolding computes_def divrem_runs
  by (auto simp: divrem_res_def alu_operand_def GetX_xreg assms post_SetX)

section \<open>Lemmas: arithmetic\<close>

lemma shift_amount_64: "shift_amount (b :: u64) = unat b mod 64"
proof -
  have "(ucast b :: u32) AND 0x3F = take_bit 6 (ucast b)" by (simp add: take_bit_eq_mask mask_eq_exp_minus_1)
  then show ?thesis
    by (simp add: shift_amount_def unsigned_take_bit_eq unsigned_ucast_eq) (simp add: take_bit_eq_mod min_def)
qed

lemma shift_amount_32: "shift_amount (ucast (b :: u64) :: u32) = unat b mod 32"
proof -
  have "(ucast b :: u32) AND 0x1F = take_bit 5 (ucast b)" by (simp add: take_bit_eq_mask mask_eq_exp_minus_1)
  then show ?thesis
    by (simp add: shift_amount_def unsigned_take_bit_eq unsigned_ucast_eq) (simp add: take_bit_eq_mod min_def)
qed

lemma scast_word: "(scast (word_of_int i :: u32) :: u64) = word_of_int (sext32 i)"
  by (rule bit_word_eqI) (auto simp: sext32_def bit_simps min_def)

lemma ucast_word: "(ucast (a :: u64) :: u32) = word_of_int (uint a)"
  by (rule bit_word_eqI) (simp add: bit_simps)

lemma sint_ucast: "sint (ucast a :: u32) = sx a"
  by (rule bit_eqI) (auto simp: sx_def bit_simps min_def)

lemma uint_ucast: "uint (ucast a :: u32) = zx a"
  by (simp add: zx_def unsigned_ucast_eq take_bit_eq_mod)

lemma zero_ucast: "(ucast (b :: u64) :: u32) = 0 \<longleftrightarrow> zx b = 0" "(ucast (b :: u64) :: u32) = 0 \<longleftrightarrow> sx b = 0"
  using uint_ucast [of b] sint_ucast [of b] by (metis uint_0_iff) (metis signed_eq_0_iff sint_ucast)

lemma word_div_mod:
  "a div b = (word_of_int (uint a div uint b) :: 'a::len word)" "a mod b = (word_of_int (uint a mod uint b) :: 'a::len word)"
  by (simp_all add: word_div_def word_mod_def)

lemma divrem_s_word:
  fixes a b :: "'a::len word"
  assumes "- push_bit (LENGTH('a) - 1) 1 = (push_bit (LENGTH('a) - 1) 1 :: 'a word)"
  shows "divrem_s Div a b = word_of_int (if sint b = 0 then - 1 else sint a sdiv sint b)"
    and "divrem_s Rem a b = word_of_int (if sint b = 0 then sint a else sint a smod sint b)"
proof -
  have z: "sint b = 0 \<longleftrightarrow> b = 0" by (metis signed_eq_0_iff)
  have "sint (- 1 :: 'a word) = - 1" by simp
  moreover have "x sdiv (- 1) = - x" "x smod (- 1) = 0" for x :: int
    by (simp_all add: signed_divide_int_def signed_modulo_int_def sgn_if)
  ultimately show "divrem_s Div a b = word_of_int (if sint b = 0 then - 1 else sint a sdiv sint b)"
    "divrem_s Rem a b = word_of_int (if sint b = 0 then sint a else sint a smod sint b)"
    using assms z by (auto simp: divrem_s_def)
qed

lemmas divrem_s_words = divrem_s_word [where 'a = 32, simplified] divrem_s_word [where 'a = 64, simplified]

lemma divrem_u_word:
  "divrem_u Div a b = word_of_int (if uint b = 0 then - 1 else uint a div uint b)"
  "divrem_u Rem a b = word_of_int (if uint b = 0 then uint a else uint a mod uint b)"
  by (auto simp: divrem_u_def word_div_mod uint_0_iff)

lemma shift_words:
  "push_bit n a = word_of_int (uint a * 2 ^ n)" "drop_bit n a = word_of_int (uint a div 2 ^ n)"
  "signed_drop_bit n a = word_of_int (sint a div 2 ^ n)" for a :: "'a::len word"
proof -
  show "push_bit n a = word_of_int (uint a * 2 ^ n)" by (simp add: push_bit_eq_mult)
  have "drop_bit n a = word_of_int (drop_bit n (uint a))"
    by (rule bit_word_eqI) (auto simp: bit_simps dest: bit_imp_le_length)
  then show "drop_bit n a = word_of_int (uint a div 2 ^ n)" by (simp add: drop_bit_eq_div)
  have "signed_drop_bit n a = word_of_int (drop_bit n (sint a))"
    unfolding sint_signed_drop_bit_eq [symmetric] by simp
  then show "signed_drop_bit n a = word_of_int (sint a div 2 ^ n)" by (simp add: drop_bit_eq_div)
qed

text \<open>The operations of the templates, at 64 bits and at 32.\<close>

lemma ops64:
  "a + b = word_of_int (isa_add a b)" "a - b = word_of_int (isa_sub a b)" "a * b = word_of_int (isa_mul a b)"
  "less_s a b = word_of_int (isa_slt a b)" "less_u a b = word_of_int (isa_sltu a b)"
  "ShiftLeft a b = word_of_int (isa_sll a b)" "ShiftRight_u a b = word_of_int (isa_srl a b)"
  "ShiftRight_s a b = word_of_int (isa_sra a b)"
  unfolding ShiftLeft_def ShiftRight_u_def ShiftRight_s_def shift_words shift_amount_64
  by (simp_all add: isa_add_def isa_sub_def isa_mul_def less_s_def isa_slt_def less_u_def isa_sltu_def word_less_def
      isa_sll_def isa_srl_def isa_sra_def)

lemma ops32:
  "scast (ucast a + ucast b :: u32) = (word_of_int (isa_addw a b) :: u64)"
  "scast (ucast a - ucast b :: u32) = (word_of_int (isa_subw a b) :: u64)"
  "scast (ucast a * ucast b :: u32) = (word_of_int (isa_mulw a b) :: u64)"
  "scast (ShiftLeft (ucast a :: u32) (ucast b)) = (word_of_int (isa_sllw a b) :: u64)"
  "scast (ShiftRight_u (ucast a :: u32) (ucast b)) = (word_of_int (isa_srlw a b) :: u64)"
  "scast (ShiftRight_s (ucast a :: u32) (ucast b)) = (word_of_int (isa_sraw a b) :: u64)"
proof -
  have "(ucast a + ucast b :: u32) = word_of_int (uint a + uint b)" "(ucast a - ucast b :: u32) = word_of_int (uint a - uint b)"
    "(ucast a * ucast b :: u32) = word_of_int (uint a * uint b)"
    by (simp_all only: ucast_word of_int_add of_int_diff of_int_mult)
  then show "scast (ucast a + ucast b :: u32) = (word_of_int (isa_addw a b) :: u64)"
    "scast (ucast a - ucast b :: u32) = (word_of_int (isa_subw a b) :: u64)"
    "scast (ucast a * ucast b :: u32) = (word_of_int (isa_mulw a b) :: u64)"
    by (simp_all only: scast_word isa_addw_def isa_subw_def isa_mulw_def)
  have "ShiftLeft (ucast a :: u32) (ucast b) = word_of_int (uint a * 2 ^ (unat b mod 32))"
    by (simp add: ShiftLeft_def shift_amount_32 push_bit_eq_mult)
  then show "scast (ShiftLeft (ucast a :: u32) (ucast b)) = (word_of_int (isa_sllw a b) :: u64)"
    by (simp only: scast_word isa_sllw_def)
  show "scast (ShiftRight_u (ucast a :: u32) (ucast b)) = (word_of_int (isa_srlw a b) :: u64)"
    unfolding ShiftRight_u_def shift_words shift_amount_32 uint_ucast scast_word isa_srlw_def ..
  have "signed_take_bit 31 (sx a div 2 ^ n) = sx a div 2 ^ n" for n
  proof -
    have "signed_take_bit 31 (drop_bit n (sx a)) = drop_bit n (sx a)"
      by (rule bit_eqI) (auto simp: sx_def bit_simps min_def)
    then show ?thesis by (simp add: drop_bit_eq_div)
  qed
  then show "scast (ShiftRight_s (ucast a :: u32) (ucast b)) = (word_of_int (isa_sraw a b) :: u64)"
    unfolding ShiftRight_s_def shift_words shift_amount_32 sint_ucast scast_word isa_sraw_def sext32_def by simp
qed

lemma ops_divrem:
  "divrem_op Div True a b = word_of_int (isa_div a b)" "divrem_op Div False a b = word_of_int (isa_divu a b)"
  "divrem_op Rem True a b = word_of_int (isa_rem a b)" "divrem_op Rem False a b = word_of_int (isa_remu a b)"
  "scast (divrem_op Div True (ucast a :: u32) (ucast b)) = (word_of_int (isa_divw a b) :: u64)"
  "scast (divrem_op Div False (ucast a :: u32) (ucast b)) = (word_of_int (isa_divuw a b) :: u64)"
  "scast (divrem_op Rem True (ucast a :: u32) (ucast b)) = (word_of_int (isa_remw a b) :: u64)"
  "scast (divrem_op Rem False (ucast a :: u32) (ucast b)) = (word_of_int (isa_remuw a b) :: u64)"
  unfolding divrem_op_def if_True if_False divrem_s_words divrem_u_word sint_ucast uint_ucast scast_word
    isa_div_def isa_divu_def isa_rem_def isa_remu_def isa_divw_def isa_divuw_def isa_remw_def isa_remuw_def
  by (rule refl)+

lemma uppermul_ops:
  "val_of True a * val_of True b div 2 ^ 64 = isa_mulh a b" "val_of False a * val_of False b div 2 ^ 64 = isa_mulhu a b"
  "val_of True a * val_of False b div 2 ^ 64 = isa_mulhsu a b"
  by (simp_all add: val_of_def isa_mulh_def isa_mulhu_def isa_mulhsu_def)

lemma alu64_computes: "list_all (\<lambda>(f, kind, sem). computes f kind sem) alu64_isa"
  unfolding alu64_isa_def list.pred_inject prod.case
    add_def addi_def sub_inst_def f_xor_def xori_def f_or_def ori_def f_and_def andi_def slt_def slti_def sltu_def sltiu_def
    slli_def srli_def srai_def sll_def srl_def sra_def addw_def subw_def addiw_def slliw_def srliw_def sraiw_def sllw_def srlw_def sraw_def
    mulh_def mulhu_def mulhsu_def mul_def div_inst_def divu_def rem_inst_def remu_def mulw_def divw_def divuw_def remw_def remuw_def
  by (intro conjI list.pred_inject(1) oper_computes operw_computes uppermul_computes divrem_computes divremw_computes)
    (simp_all only: ops64 ops32 ops_divrem uppermul_ops word_of_int_uint)

section \<open>Properties\<close>

text \<open>
  C31: Every integer computational instruction of RV64I and RV64M with two operands (all but lui and auipc),
  with a register or an immediate as second operand, returns normally on an RV64 core and leaves exactly
  the state in which rd holds the result that the ISA manual gives for its operands, x0 stays zero and
  the program counter has moved by the size of the instruction; all else (the other integer registers,
  floating-point registers, scoreboards, trap registers, cost, memory, queues) is as before.
\<close>

theorem alu_isa:
  assumes "(f, kind, sem) \<in> set alu64_isa" "\<not> rf_IsRV32 (c_R C)" "i_rd I < 32" "i_rs1 I < 32" "i_rs2 I < 32"
  shows "f F I C = Inr (True, alu_post I (sem (xreg (c_R C) (i_rs1 I)) (alu_operand kind I (c_R C))) C)"
  using assms alu64_computes by (auto simp: list_all_iff computes_def)

text \<open>The quotient of \<open>0x3F010\<close> by \<open>- 128\<close>.\<close>

theorem alu_isa_witness:
  "div_inst feature_RV64GC inst_example core_example = Inr (True, alu_post inst_example (- 2016) core_example)"
proof -
  have m: "(div_inst, Reg, isa_div) \<in> set alu64_isa" by (simp add: alu64_isa_def)
  have x: "xreg (c_R core_example) 1 = 0x3F010" "xreg (c_R core_example) 2 = 0xFFFFFFFFFFFFFF80"
    using core_example_regs GetX_xreg [of "c_R core_example" 1, where 'a = 64] GetX_xreg [of "c_R core_example" 2, where 'a = 64] by simp_all
  have "isa_div 0x3F010 0xFFFFFFFFFFFFFF80 = - 2016" by (simp add: isa_div_def signed_divide_int_def)
  then show ?thesis using alu_isa [OF m, of core_example inst_example feature_RV64GC] x by (simp add: alu_operand_def)
qed

end
