(* ===== verification/Rev_RV_A.thy ===== *)
theory Rev_RV_A
  imports Rev_InstHelpers
begin

text \<open>
  Atomics: \<^verbatim>\<open>ApplyAMO\<close> of \<^verbatim>\<open>include/RevMemCtrl.h\<close>, the operations \<^verbatim>\<open>LRBase\<close>, \<^verbatim>\<open>SCBase\<close> and
  \<^verbatim>\<open>AMOMem\<close> of \<^verbatim>\<open>src/RevMem.cc\<close> without a memory controller, and the instructions of
  \<^verbatim>\<open>include/insns/RV32A.h\<close> and \<^verbatim>\<open>include/insns/RV64A.h\<close>. The operations get pointers into the
  register file; a pointer is a byte offset into it, and an access beyond its 256 bytes is
  undefined.
\<close>

section \<open>Flags\<close>

definition F_NONE :: u32 where "F_NONE = 0"
definition F_SEXT32 :: u32 where "F_SEXT32 = push_bit 17 1"
definition F_SEXT64 :: u32 where "F_SEXT64 = push_bit 18 1"
definition F_AMOADD :: u32 where "F_AMOADD = push_bit 21 1"
definition F_AMOXOR :: u32 where "F_AMOXOR = push_bit 22 1"
definition F_AMOAND :: u32 where "F_AMOAND = push_bit 23 1"
definition F_AMOOR :: u32 where "F_AMOOR = push_bit 24 1"
definition F_AMOMIN :: u32 where "F_AMOMIN = push_bit 25 1"
definition F_AMOMAX :: u32 where "F_AMOMAX = push_bit 26 1"
definition F_AMOMINU :: u32 where "F_AMOMINU = push_bit 27 1"
definition F_AMOMAXU :: u32 where "F_AMOMAXU = push_bit 28 1"
definition F_AMOSWAP :: u32 where "F_AMOSWAP = push_bit 29 1"
definition F_AQ :: u32 where "F_AQ = push_bit 30 1"
definition F_RL :: u32 where "F_RL = push_bit 31 1"

definition RevFlagHas :: "u32 \<Rightarrow> u32 \<Rightarrow> bool" where
  "RevFlagHas flag has = (flag AND has \<noteq> 0)"

lemmas RevFlag_defs = F_NONE_def F_SEXT32_def F_SEXT64_def F_AMOADD_def F_AMOXOR_def F_AMOAND_def
  F_AMOOR_def F_AMOMIN_def F_AMOMAX_def F_AMOMINU_def F_AMOMAXU_def F_AMOSWAP_def F_AQ_def F_RL_def
  RevFlagHas_def

section \<open>The atomic operation\<close>

text \<open>
  The table of operations, in its order, and the entry for the flags. The table is a static local whose
  closures refer to the locals of the call that built it, the first one for the type: they see the
  target and the value of that call, and from the second call on variables that no longer exist, which
  is undefined. \<open>built\<close> tells whether an earlier call has built the table.
\<close>

definition amo_ops :: "u32 list" where
  "amo_ops = [F_AMOADD, F_AMOXOR, F_AMOAND, F_AMOOR, F_AMOSWAP, F_AMOMIN, F_AMOMAX, F_AMOMINU, F_AMOMAXU]"

definition amo_table :: "u32 \<Rightarrow> 'a::len word \<Rightarrow> 'a word \<Rightarrow> 'a word" where
  "amo_table flags Target val =
     (if RevFlagHas flags F_AMOADD then Target + val
      else if RevFlagHas flags F_AMOXOR then Target XOR val
      else if RevFlagHas flags F_AMOAND then Target AND val
      else if RevFlagHas flags F_AMOOR then Target OR val
      else if RevFlagHas flags F_AMOSWAP then val
      else if RevFlagHas flags F_AMOMIN then (if sint val < sint Target then val else Target)
      else if RevFlagHas flags F_AMOMAX then (if sint Target < sint val then val else Target)
      else if RevFlagHas flags F_AMOMINU then (if val < Target then val else Target)
      else if RevFlagHas flags F_AMOMAXU then (if Target < val then val else Target)
      else Target)"

definition ApplyAMO :: "bool \<Rightarrow> u32 \<Rightarrow> 'a::len word \<Rightarrow> 'a word \<Rightarrow> 'a word result" where
  "ApplyAMO built flags Target val =
     (if built \<and> list_ex (RevFlagHas flags) amo_ops then Inl (Undefined ''ApplyAMO: locals of an earlier call'')
      else Inr (amo_table flags Target val))"

text \<open>
  The two uses of the template, for 32 and for 64 bits: the bytes of the target after the call.
  \<open>amo_T\<close> is the size of the type, under which the memory records that its table exists.
\<close>

definition amo_T :: "nat \<Rightarrow> nat" where
  "amo_T Len = (if Len = 4 then 4 else 8)"

definition apply_amo :: "bool \<Rightarrow> u32 \<Rightarrow> nat \<Rightarrow> u8 list \<Rightarrow> u64 \<Rightarrow> u8 list result" where
  "apply_amo built flags Len Target val =
     (if Len = 4
      then res_bind (ApplyAMO built flags (ucast (le_word Target) :: u32) (ucast val)) (\<lambda>w. Inr (le_bytes 4 (ucast w)))
      else res_bind (ApplyAMO built flags (le_word Target) val) (\<lambda>w. Inr (le_bytes 8 w)))"

section \<open>Pointers into the register file\<close>

definition reg_ptr :: "RevRegFile \<Rightarrow> u64 \<Rightarrow> nat" where
  "reg_ptr R r = (if rf_IsRV32 R then 4 * unat r else 8 * unat r)"

definition reg_read64 :: "nat \<Rightarrow> RevRegFile \<Rightarrow> u64 result" where
  "reg_read64 off R =
     (if off + 8 \<le> 256
      then Inr (ucast (rf_RV32 R (off div 4)) OR push_bit 32 (ucast (rf_RV32 R (off div 4 + 1))))
      else Inl (Undefined ''register file: read out of bounds''))"

definition reg_write32 :: "nat \<Rightarrow> u32 \<Rightarrow> RevRegFile \<Rightarrow> RevRegFile result" where
  "reg_write32 off v R =
     (if off + 4 \<le> 256 then Inr (R\<lparr>rf_RV := half_set (off div 4) v (rf_RV R)\<rparr>)
      else Inl (Undefined ''register file: write out of bounds''))"

definition reg_write64 :: "nat \<Rightarrow> u64 \<Rightarrow> RevRegFile \<Rightarrow> RevRegFile result" where
  "reg_write64 off v R =
     (if off + 8 \<le> 256
      then Inr (R\<lparr>rf_RV := half_set (off div 4 + 1) (ucast (drop_bit 32 v))
                            (half_set (off div 4) (ucast v) (rf_RV R))\<rparr>)
      else Inl (Undefined ''register file: write out of bounds''))"

text \<open>\<^verbatim>\<open>memcpy\<close> of 4 or 8 bytes into a register cell.\<close>

definition reg_store :: "nat \<Rightarrow> u8 list \<Rightarrow> RevRegFile \<Rightarrow> RevRegFile result" where
  "reg_store off bs R =
     (if length bs = 4 then reg_write32 off (ucast (le_word bs)) R
      else reg_write64 off (le_word bs) R)"

section \<open>Load reserve, store conditional, atomic memory operation\<close>

definition LRBase :: "u32 \<Rightarrow> u64 \<Rightarrow> nat \<Rightarrow> nat \<Rightarrow> u8 \<Rightarrow> u8 \<Rightarrow> MemReq \<Rightarrow> RevCore \<Rightarrow> (bool \<times> RevCore) result" where
  "LRBase Hart Addr Len Target aq rl req C =
     (if list_ex (\<lambda>(h, a, _, _). a = Addr) (m_LRSC (c_M C)) then
        res_bind (reg_write32 Target 1 (c_R C)) (\<lambda>R. Inr (False, C\<lparr>c_R := R\<rparr>))
      else
        let M1 = (c_M C)\<lparr>m_LRSC := m_LRSC (c_M C) @
                    [(Hart, Addr, ucast (aq OR push_bit 1 rl), Target)]\<rparr>
        in res_bind (CalcPhysAddr (drop_bit addrShift Addr) Addr M1) (\<lambda>(physAddr, M2).
           res_bind (phys_read physAddr Len M2) (\<lambda>bs.
           res_bind (reg_store Target bs (c_R C)) (\<lambda>R.
           res_bind (MarkLoadComplete req (C\<lparr>c_M := M2, c_R := R\<rparr>)) (\<lambda>C1.
           Inr (True, C1))))))"

text \<open>
  \<^verbatim>\<open>A |= TmpTarget[i] << i\<close> over \<open>Len\<close> consecutive 64-bit cells. (The branch for a length of 32
  is not reachable: \<^verbatim>\<open>SC\<close> passes the size of the type in bytes.)
\<close>

fun fold_cells :: "nat \<Rightarrow> nat \<Rightarrow> nat \<Rightarrow> RevRegFile \<Rightarrow> u64 \<Rightarrow> u64 result" where
  "fold_cells off i 0 R A = Inr A"
| "fold_cells off i (Suc n) R A =
     res_bind (reg_read64 (off + 8 * i) R) (\<lambda>v. fold_cells off (Suc i) n R (A OR push_bit i v))"

fun zero_cells :: "nat \<Rightarrow> nat \<Rightarrow> RevRegFile \<Rightarrow> RevRegFile result" where
  "zero_cells off 0 R = Inr R"
| "zero_cells off (Suc n) R = res_bind (reg_write64 off 0 R) (zero_cells (off + 8) n)"

text \<open>
  A store conditional. The reservation points into the register file that executed the load reserve,
  which is the one of the hart unless the thread was moved in between.
\<close>

definition SCBase :: "u32 \<Rightarrow> u64 \<Rightarrow> nat \<Rightarrow> nat \<Rightarrow> nat \<Rightarrow> u32 \<Rightarrow> RevCore \<Rightarrow> (bool \<times> RevCore) result" where
  "SCBase Hart Addr Len Data Target flags C =
     (case find (\<lambda>(h, a, _, _). Hart = h \<and> Addr = a) (m_LRSC (c_M C)) of
        Some (_, _, _, TmpTarget) \<Rightarrow>
          res_bind (fold_cells TmpTarget 0 Len (c_R C) 0) (\<lambda>A.
          res_bind (fold_cells Data 0 Len (c_R C) 0) (\<lambda>B.
          if A AND B = 0 then
            res_bind (reg_write64 Target 1 (c_R C)) (\<lambda>R. Inr (False, C\<lparr>c_R := R\<rparr>))
          else
            res_bind (reg_read64 Data (c_R C)) (\<lambda>d.
            res_bind (WriteMem_flags Hart Addr (le_bytes Len d) flags (c_M C)) (\<lambda>(_, M1).
            res_bind (zero_cells Target Len (c_R C)) (\<lambda>R.
            Inr (True, C\<lparr>c_R := R, c_M := M1\<lparr>m_LRSC :=
              erase_first (\<lambda>(h, a, _, _). Hart = h \<and> Addr = a) (m_LRSC M1)\<rparr>\<rparr>))))))
      | None \<Rightarrow> res_bind (reg_write32 Target 1 (c_R C)) (\<lambda>R. Inr (False, C\<lparr>c_R := R\<rparr>)))"

definition AMOMem :: "u32 \<Rightarrow> u64 \<Rightarrow> nat \<Rightarrow> nat \<Rightarrow> nat \<Rightarrow> MemReq \<Rightarrow> u32 \<Rightarrow> RevCore \<Rightarrow> (bool \<times> RevCore) result" where
  "AMOMem Hart Addr Len Data Target req flags C =
     res_bind (CalcPhysAddr (drop_bit addrShift Addr) Addr (c_M C)) (\<lambda>(_, M1).
     res_bind (if Len = 4 then Inr (ucast (rf_RV32 (c_R C) (Data div 4))) else reg_read64 Data (c_R C)) (\<lambda>TmpD.
     res_bind (ReadMem Hart Addr Len M1) (\<lambda>(TmpT, M2).
     res_bind (apply_amo (amo_T Len \<in> set (m_ApplyAMO M2)) flags Len TmpT TmpD) (\<lambda>new.
     let M2a = M2\<lparr>m_ApplyAMO := amo_T Len # m_ApplyAMO M2\<rparr>
     in res_bind (WriteMem_flags Hart Addr new flags M2a) (\<lambda>(_, M3).
     res_bind (reg_store Target TmpT (c_R C)) (\<lambda>R.
     res_bind (MarkLoadComplete req (C\<lparr>c_M := M3, c_R := R\<rparr>)) (\<lambda>C1.
     Inr (True, C1))))))))"

section \<open>Instructions\<close>

text \<open>The raw address register: unlike \<^verbatim>\<open>GetX\<close>, x0 is not special.\<close>

definition raw_reg :: "RevRegFile \<Rightarrow> u64 \<Rightarrow> u64" where
  "raw_reg R r = (if rf_IsRV32 R then ucast (rf_RV32 R (unat r)) else rf_RV R (unat r))"

definition lrw :: inst_fun where
  "lrw F I C =
     (let h = GetHartToExecID F; addr = raw_reg (c_R C) (i_rs1 I);
          req = mk_MemReq addr (i_rd I) RegGPR h MemOpAMO True
      in res_bind (LRBase h addr 4 (reg_ptr (c_R C) (i_rd I)) (i_aq I) (i_rl I) req (LSQ_insert req C)) (\<lambda>(_, C1).
         let C2 = add_cost F C1 in Inr (True, C2\<lparr>c_R := AdvancePC I (c_R C2)\<rparr>)))"

definition scw :: inst_fun where
  "scw F I C =
     res_bind (SCBase (GetHartToExecID F) (raw_reg (c_R C) (i_rs1 I)) 4
        (reg_ptr (c_R C) (i_rs2 I)) (reg_ptr (c_R C) (i_rd I))
        (if rf_IsRV32 (c_R C) then F_SEXT32 else F_SEXT64) C) (\<lambda>(_, C1).
     Inr (True, C1\<lparr>c_R := AdvancePC I (c_R C1)\<rparr>))"

definition amo_flags :: "u32 \<Rightarrow> RevInst \<Rightarrow> u32" where
  "amo_flags F_AMO I =
     (if i_aq I \<noteq> 0 \<and> i_rl I \<noteq> 0 then F_AMO OR (F_AQ OR F_RL)
      else if i_aq I \<noteq> 0 then F_AMO OR F_AQ
      else if i_rl I \<noteq> 0 then F_AMO OR F_RL
      else F_AMO)"

definition amooper :: "u32 \<Rightarrow> inst_fun" where
  "amooper F_AMO F I C =
     (let h = GetHartToExecID F; addr = raw_reg (c_R C) (i_rs1 I);
          flags = (if rf_IsRV32 (c_R C) then amo_flags F_AMO I else amo_flags F_AMO I OR F_SEXT64);
          req = mk_MemReq addr (i_rd I) RegGPR h MemOpAMO True
      in res_bind (AMOMem h addr 4 (reg_ptr (c_R C) (i_rs2 I)) (reg_ptr (c_R C) (i_rd I)) req flags
           (LSQ_insert req C)) (\<lambda>(_, C1).
         let C2 = add_cost F C1 in Inr (True, C2\<lparr>c_R := AdvancePC I (c_R C2)\<rparr>)))"

definition amoswapw :: inst_fun where "amoswapw = amooper F_AMOSWAP"
definition amoaddw :: inst_fun where "amoaddw = amooper F_AMOADD"
definition amoxorw :: inst_fun where "amoxorw = amooper F_AMOXOR"
definition amoandw :: inst_fun where "amoandw = amooper F_AMOAND"
definition amoorw :: inst_fun where "amoorw = amooper F_AMOOR"
definition amominw :: inst_fun where "amominw = amooper F_AMOMIN"
definition amomaxw :: inst_fun where "amomaxw = amooper F_AMOMAX"
definition amominuw :: inst_fun where "amominuw = amooper F_AMOMINU"
definition amomaxuw :: inst_fun where "amomaxuw = amooper F_AMOMAXU"

definition lrd :: inst_fun where
  "lrd F I C =
     (let h = GetHartToExecID F; addr = rf_RV (c_R C) (unat (i_rs1 I));
          req = mk_MemReq addr (i_rd I) RegGPR h MemOpAMO True
      in res_bind (LRBase h addr 8 (8 * unat (i_rd I)) (i_aq I) (i_rl I) req (LSQ_insert req C)) (\<lambda>(_, C1).
         Inr (True, C1\<lparr>c_R := AdvancePC I (c_R C1)\<rparr>)))"

definition scd :: inst_fun where
  "scd F I C =
     res_bind (SCBase (GetHartToExecID F) (rf_RV (c_R C) (unat (i_rs1 I))) 8
        (8 * unat (i_rs2 I)) (8 * unat (i_rd I)) F_SEXT64 C) (\<lambda>(_, C1).
     Inr (True, C1\<lparr>c_R := AdvancePC I (c_R C1)\<rparr>))"

definition amooperd :: "u32 \<Rightarrow> inst_fun" where
  "amooperd F_AMO F I C =
     (let h = GetHartToExecID F; addr = rf_RV (c_R C) (unat (i_rs1 I));
          req = mk_MemReq addr (i_rd I) RegGPR h MemOpAMO True
      in res_bind (AMOMem h addr 8 (8 * unat (i_rs2 I)) (8 * unat (i_rd I)) req (amo_flags F_AMO I)
           (LSQ_insert req C)) (\<lambda>(_, C1).
         let C2 = C1\<lparr>c_R := AdvancePC I (c_R C1)\<rparr> in Inr (True, add_cost F C2)))"

definition amoaddd :: inst_fun where "amoaddd = amooperd F_AMOADD"
definition amoswapd :: inst_fun where "amoswapd = amooperd F_AMOSWAP"
definition amoxord :: inst_fun where "amoxord = amooperd F_AMOXOR"
definition amoandd :: inst_fun where "amoandd = amooperd F_AMOAND"
definition amoord :: inst_fun where "amoord = amooperd F_AMOOR"
definition amomind :: inst_fun where "amomind = amooperd F_AMOMIN"
definition amomaxd :: inst_fun where "amomaxd = amooperd F_AMOMAX"
definition amominud :: inst_fun where "amominud = amooperd F_AMOMINU"
definition amomaxud :: inst_fun where "amomaxud = amooperd F_AMOMAXU"

section \<open>Tables\<close>

definition RV32ATable :: "RevInstEntry list" where
  "RV32ATable =
    [RevInstDefaults\<lparr>e_mnemonic := ''lr.w %rd, (%rs1)'', e_opcode := 0b0101111,
       e_funct3 := 0b010, e_funct2or7 := 0b00010, e_rs2Class := RegUNKNOWN,
       e_func := Some lrw\<rparr>,
     RevInstDefaults\<lparr>e_mnemonic := ''sc.w %rd, %rs1, %rs2'', e_opcode := 0b0101111,
       e_funct3 := 0b010, e_funct2or7 := 0b00011, e_func := Some scw\<rparr>,
     RevInstDefaults\<lparr>e_mnemonic := ''amoswap.w %rd, %rs1, %rs2'', e_opcode := 0b0101111,
       e_funct3 := 0b010, e_funct2or7 := 1, e_func := Some amoswapw\<rparr>,
     RevInstDefaults\<lparr>e_mnemonic := ''amoadd.w %rd, %rs1, %rs2'', e_opcode := 0b0101111,
       e_funct3 := 0b010, e_func := Some amoaddw\<rparr>,
     RevInstDefaults\<lparr>e_mnemonic := ''amoxor.w %rd, %rs1, %rs2'', e_opcode := 0b0101111,
       e_funct3 := 0b010, e_funct2or7 := 0b00100, e_func := Some amoxorw\<rparr>,
     RevInstDefaults\<lparr>e_mnemonic := ''amoand.w %rd, %rs1, %rs2'', e_opcode := 0b0101111,
       e_funct3 := 0b010, e_funct2or7 := 0b01100, e_func := Some amoandw\<rparr>,
     RevInstDefaults\<lparr>e_mnemonic := ''amoor.w %rd, %rs1, %rs2'', e_opcode := 0b0101111,
       e_funct3 := 0b010, e_funct2or7 := 0b01000, e_func := Some amoorw\<rparr>,
     RevInstDefaults\<lparr>e_mnemonic := ''amomin.w %rd, %rs1, %rs2'', e_opcode := 0b0101111,
       e_funct3 := 0b010, e_funct2or7 := 0b10000, e_func := Some amominw\<rparr>,
     RevInstDefaults\<lparr>e_mnemonic := ''amomax.w %rd, %rs1, %rs2'', e_opcode := 0b0101111,
       e_funct3 := 0b010, e_funct2or7 := 0b10100, e_func := Some amomaxw\<rparr>,
     RevInstDefaults\<lparr>e_mnemonic := ''amominu.w %rd, %rs1, %rs2'', e_opcode := 0b0101111,
       e_funct3 := 0b010, e_funct2or7 := 0b11000, e_func := Some amominuw\<rparr>,
     RevInstDefaults\<lparr>e_mnemonic := ''amomaxu.w %rd, %rs1, %rs2'', e_opcode := 0b0101111,
       e_funct3 := 0b010, e_funct2or7 := 0b11100, e_func := Some amomaxuw\<rparr>]"

definition RV64ATable :: "RevInstEntry list" where
  "RV64ATable =
    [RevInstDefaults\<lparr>e_mnemonic := ''lr.d %rd, (%rs1)'', e_opcode := 0b0101111,
       e_funct3 := 0b011, e_funct2or7 := 0b00010, e_rs2Class := RegUNKNOWN,
       e_func := Some lrd\<rparr>,
     RevInstDefaults\<lparr>e_mnemonic := ''sc.d %rd, %rs1, %rs2'', e_opcode := 0b0101111,
       e_funct3 := 0b011, e_funct2or7 := 0b00011, e_rs2Class := RegUNKNOWN,
       e_func := Some scd\<rparr>,
     RevInstDefaults\<lparr>e_mnemonic := ''amoswap.d %rd, %rs1, %rs2'', e_opcode := 0b0101111,
       e_funct3 := 0b011, e_funct2or7 := 1, e_func := Some amoswapd\<rparr>,
     RevInstDefaults\<lparr>e_mnemonic := ''amoadd.w %rd, %rs1, %rs2'', e_opcode := 0b0101111,
       e_funct3 := 0b011, e_func := Some amoaddd\<rparr>,
     RevInstDefaults\<lparr>e_mnemonic := ''amoxor.w %rd, %rs1, %rs2'', e_opcode := 0b0101111,
       e_funct3 := 0b011, e_funct2or7 := 0b00100, e_func := Some amoxord\<rparr>,
     RevInstDefaults\<lparr>e_mnemonic := ''amoand.w %rd, %rs1, %rs2'', e_opcode := 0b0101111,
       e_funct3 := 0b011, e_funct2or7 := 0b01100, e_func := Some amoandd\<rparr>,
     RevInstDefaults\<lparr>e_mnemonic := ''amoor.w %rd, %rs1, %rs2'', e_opcode := 0b0101111,
       e_funct3 := 0b011, e_funct2or7 := 0b01000, e_func := Some amoord\<rparr>,
     RevInstDefaults\<lparr>e_mnemonic := ''amomin.w %rd, %rs1, %rs2'', e_opcode := 0b0101111,
       e_funct3 := 0b011, e_funct2or7 := 0b10000, e_func := Some amomind\<rparr>,
     RevInstDefaults\<lparr>e_mnemonic := ''amomax.w %rd, %rs1, %rs2'', e_opcode := 0b0101111,
       e_funct3 := 0b011, e_funct2or7 := 0b10100, e_func := Some amomaxd\<rparr>,
     RevInstDefaults\<lparr>e_mnemonic := ''amominu.w %rd, %rs1, %rs2'', e_opcode := 0b0101111,
       e_funct3 := 0b011, e_funct2or7 := 0b11000, e_func := Some amominud\<rparr>,
     RevInstDefaults\<lparr>e_mnemonic := ''amomaxu.w %rd, %rs1, %rs2'', e_opcode := 0b0101111,
       e_funct3 := 0b011, e_funct2or7 := 0b11100, e_func := Some amomaxud\<rparr>]"

section \<open>Lemmas\<close>

lemma reg_write64_cell:
  "r < 32 \<Longrightarrow> reg_write64 (8 * r) v R = Inr (R\<lparr>rf_RV := (rf_RV R)(r := v)\<rparr>)"
proof -
  assume r: "r < 32"
  have "8 * r div 4 = 2 * r" by simp
  moreover have "half_set (2 * r + 1) (ucast (drop_bit 32 v)) (half_set (2 * r) (ucast v) X) = X(r := v)" for X
    by (rule ext) (auto simp: half_set_def word_enum bit_simps)
  ultimately show ?thesis using r by (simp add: reg_write64_def)
qed

lemma reg_read64_cell: "r < 32 \<Longrightarrow> reg_read64 (8 * r) R = Inr (rf_RV R r)"
proof -
  assume r: "r < 32"
  have "8 * r div 4 = 2 * r" by simp
  moreover have "ucast (rf_RV32 R (2 * r)) OR push_bit 32 (ucast (rf_RV32 R (2 * r + 1))) = rf_RV R r"
    by (simp add: half_get_def word_enum bit_simps)
  ultimately show ?thesis using r by (simp add: reg_read64_def)
qed

lemma reg_write32_cell:
  "r < 32 \<Longrightarrow> reg_write32 (8 * r) v R = Inr (R\<lparr>rf_RV := (rf_RV R)(r := low_set v (rf_RV R r))\<rparr>)"
proof -
  assume r: "r < 32"
  have "8 * r div 4 = 2 * r" by simp
  then show ?thesis using r by (simp add: reg_write32_def half_set_def low_set_def)
qed

text \<open>The flag tests see exactly the operation of the instruction, whatever its ordering bits.\<close>

definition amo_spec :: "u32 \<Rightarrow> 'a::len word \<Rightarrow> 'a word \<Rightarrow> 'a word" where
  "amo_spec op old v =
     (if op = F_AMOADD then old + v else if op = F_AMOXOR then old XOR v
      else if op = F_AMOAND then old AND v else if op = F_AMOOR then old OR v
      else if op = F_AMOSWAP then v
      else if op = F_AMOMIN then (if sint old \<le> sint v then old else v)
      else if op = F_AMOMAX then (if sint old \<le> sint v then v else old)
      else if op = F_AMOMINU then min old v
      else if op = F_AMOMAXU then max old v else old)"

lemma amo_flags_cases:
  "amo_flags op I \<in> {op, op OR F_AQ, op OR F_RL, op OR (F_AQ OR F_RL)}"
  by (simp add: amo_flags_def)

lemma amo_ops_disjoint:
  "list_all (\<lambda>g. g AND F_AQ = 0 \<and> g AND F_RL = 0 \<and> g AND F_SEXT64 = 0) amo_ops"
  "list_all (\<lambda>f. list_all (\<lambda>g. (f AND g \<noteq> 0) = (f = g)) amo_ops) amo_ops"
  by (simp_all add: amo_ops_def RevFlag_defs)

lemma RevFlagHas_amo:
  assumes "op \<in> set amo_ops" "g \<in> set amo_ops" "x = 0 \<or> x = F_SEXT64"
  shows "RevFlagHas (amo_flags op I OR x) g \<longleftrightarrow> op = g"
proof -
  have z: "g AND F_AQ = 0" "g AND F_RL = 0" "g AND F_SEXT64 = 0"
    using amo_ops_disjoint(1) assms(2) by (simp_all add: list_all_iff)
  have "(amo_flags op I OR x) AND g = op AND g"
    using amo_flags_cases [of op I] assms(3) z
    by (auto simp: bit.conj_disj_distrib2 and.commute [of _ g] bit.conj_disj_distrib)
  moreover have "(op AND g \<noteq> 0) = (op = g)"
    using amo_ops_disjoint(2) assms(1,2) by (simp add: list_all_iff)
  ultimately show ?thesis by (simp add: RevFlagHas_def)
qed

lemma amo_ops_members:
  "F_AMOADD \<in> set amo_ops" "F_AMOXOR \<in> set amo_ops" "F_AMOAND \<in> set amo_ops" "F_AMOOR \<in> set amo_ops"
  "F_AMOSWAP \<in> set amo_ops" "F_AMOMIN \<in> set amo_ops" "F_AMOMAX \<in> set amo_ops"
  "F_AMOMINU \<in> set amo_ops" "F_AMOMAXU \<in> set amo_ops"
  by (simp_all add: amo_ops_def)

lemma amo_table_spec:
  assumes "op \<in> set amo_ops" "x = 0 \<or> x = F_SEXT64"
  shows "amo_table (amo_flags op I OR x) old v = amo_spec op old v"
proof -
  have "(if v < old then v else old) = min old v" "(if old < v then v else old) = max old v"
    "(if sint v < sint old then v else old) = (if sint old \<le> sint v then old else v)"
    "(if sint old < sint v then v else old) = (if sint old \<le> sint v then v else old)"
    by (auto simp: min_def max_def dest: signed_word_eqI)
  then show ?thesis
    unfolding amo_table_def amo_spec_def
    using RevFlagHas_amo [OF assms(1) _ assms(2)] by (simp only: amo_ops_members)
qed

lemma le_word_bits: "bit (le_word bs) k \<Longrightarrow> k < 8 * length bs"
proof (induction bs arbitrary: k)
  case (Cons b bs)
  then show ?case by (fastforce simp: bit_simps dest: bit_imp_le_length)
qed simp

lemma cell_store_word:
  "length bs = 8 \<Longrightarrow> cell_store bs w = le_word bs"
  "length bs = 4 \<Longrightarrow> cell_store bs w = low_set (ucast (le_word bs)) w"
proof -
  show "cell_store bs w = le_word bs" if "length bs = 8"
    using that by (simp add: cell_store_def mask_eq_exp_minus_1 word_enum bit_simps)
  assume len: "length bs = 4"
  show "cell_store bs w = low_set (ucast (le_word bs)) w"
  proof -
    have m: "(0xFFFFFFFF00000000 :: u64) = NOT (mask 32)" by (simp add: mask_eq_exp_minus_1)
    show ?thesis
      using len le_word_bits [of bs]
      by (auto simp: cell_store_def low_set_def m bit_simps intro!: bit_word_eqI)
  qed
qed

text \<open>What an atomic operation has read before it applies the operation.\<close>

lemma AMOMem_read:
  assumes "mem_inv M" "mem_accessible a n M" "mem_room 5 M"
  obtains pa M1 M2 where "CalcPhysAddr (drop_bit 18 a) a M = Inr (pa, M1)" "ReadMem h a n M1 = Inr (vread (vmem M) a n, M2)"
    "mem_inv M2" "vmem M2 = vmem M" "mem_room 2 M2" "mem_accessible a n M2" "m_ApplyAMO M2 = m_ApplyAMO M"
proof -
  have room: "mem_room (Suc 4) M" using assms(3) by (simp add: numeral_eq_Suc)
  obtain f b M1 where M1: "CalcPhysAddr (drop_bit 18 a) a M = Inr (page_paddr f a, M1)" "mem_ext M M1" "mem_room 4 M1"
    using translate_first [OF assms(1,2) room] by blast
  have e1: "mem_inv M1" "vmem M1 = vmem M" "mem_accessible a n M1"
    using M1(2) assms(2) by (simp_all add: mem_ext_def mem_accessible_def)
  have "mem_room (Suc (Suc 2)) M1" using M1(3) by (simp add: numeral_eq_Suc)
  then obtain M2 where M2: "ReadMem h a n M1 = Inr (vread (vmem M) a n, M2)" "mem_inv M2" "vmem M2 = vmem M" "mem_room 2 M2"
    "m_segs M2 = m_segs M1"
    using ReadMem_ok [OF e1(1,3), of 2 h] e1(2) by auto
  have "mem_accessible a n M2" using e1(3) M2(5) by (simp add: mem_accessible_def)
  then show ?thesis using that M1(1) M2 access_AMO_tables(1) [OF M1(1)] access_AMO_tables(2) [OF M2(1)] by simp
qed

lemma AMOMem_operand:
  assumes "n = 4 \<or> n = 8" "rs2 < (32 :: u64)"
  shows "\<exists>w. (if n = 4 then Inr (ucast (rf_RV32 R (8 * unat rs2 div 4))) else reg_read64 (8 * unat rs2) R) = Inr w \<and>
    apply_amo b flags n bs w = apply_amo b flags n bs (rf_RV R (unat rs2))"
  using assms by (auto simp: word_less_nat_alt reg_read64_cell half_get_def apply_amo_def)

lemma AMOMem_ok:
  assumes "mem_inv (c_M C)" "mem_accessible a n (c_M C)" "mem_room 5 (c_M C)" "n = 4 \<or> n = 8"
    and "\<not> rf_IsRV32 (c_R C)" "rd < 32" "rs2 < (32 :: u64)"
    and "req = mk_MemReq a rd RegGPR (c_hart C) MemOpAMO True"
    and "no_load rd RegGPR C" "amo_T n \<notin> set (m_ApplyAMO (c_M C))"
    and "old = le_word (vread (vmem (c_M C)) a n)" "v = rf_RV (c_R C) (unat rs2)"
    and "new = (if n = 4 then ucast (amo_table flags (ucast old :: u32) (ucast v)) else amo_table flags old v)"
  shows "\<exists>C'. AMOMem (c_hart C) a n (8 * unat rs2) (8 * unat rd) req flags (LSQ_insert req C) = Inr (True, C') \<and>
    rf_RV (c_R C') = (rf_RV (c_R C))(unat rd := cell_store (vread (vmem (c_M C)) a n) (rf_RV (c_R C) (unat rd))) \<and>
    rf_PC (c_R C') = rf_PC (c_R C) \<and> rf_IsRV32 (c_R C') = False \<and>
    vmem (c_M C') = upd_bytes a (le_bytes n new) (vmem (c_M C)) \<and> mem_inv (c_M C') \<and>
    c_LSQueue C' = c_LSQueue C \<and> m_ApplyAMO (c_M C') = amo_T n # m_ApplyAMO (c_M C)"
proof -
  let ?C = "LSQ_insert req C" and ?h = "c_hart C"
  let ?bs = "vread (vmem (c_M C)) a n"
  have r: "unat rd < 32" using assms(6) by (simp add: word_less_nat_alt)
  obtain pa M1 M2 where M: "CalcPhysAddr (drop_bit 18 a) a (c_M C) = Inr (pa, M1)" "ReadMem ?h a n M1 = Inr (?bs, M2)"
    "mem_inv M2" "vmem M2 = vmem (c_M C)" "mem_room 2 M2" "mem_accessible a n M2" "m_ApplyAMO M2 = m_ApplyAMO (c_M C)"
    by (rule AMOMem_read [OF assms(1-3), of ?h])
  let ?M2 = "M2\<lparr>m_ApplyAMO := amo_T n # m_ApplyAMO (c_M C)\<rparr>"
  have room2: "mem_room (Suc (Suc 0)) ?M2" using M(5) by (simp add: mem_room_def numeral_2_eq_2)
  have acc2: "mem_accessible a (length (le_bytes n new)) ?M2"
    using M(6) by (simp add: mem_accessible_def)
  obtain M3 where M3: "WriteMem ?h a (le_bytes n new) ?M2 = Inr (True, M3)" "mem_inv M3"
    "vmem M3 = upd_bytes a (le_bytes n new) (vmem (c_M C))"
    using WriteMem_ok [OF _ acc2 room2, of ?h] M(3,4) by auto
  have t3: "m_ApplyAMO M3 = amo_T n # m_ApplyAMO (c_M C)" using access_AMO_tables(3) [OF M3(1)] by simp
  let ?R = "(c_R C)\<lparr>rf_RV := (rf_RV (c_R C))(unat rd := cell_store ?bs (rf_RV (c_R C) (unat rd)))\<rparr>"
  have len: "length ?bs = n" by (simp add: vread_def)
  have st: "reg_store (8 * unat rd) ?bs (c_R C) = Inr ?R"
  proof (cases "n = 4")
    case True
    then have "length ?bs = 4" using len by simp
    from cell_store_word(2) [OF this] this r show ?thesis by (simp only: reg_store_def reg_write32_cell simp_thms if_True)
  next
    case False
    then have l: "length ?bs = 8" using len assms(4) by simp
    from cell_store_word(1) [OF this] r show ?thesis by (simp only: reg_store_def reg_write64_cell l) simp
  qed
  have cnt: "LSQ_count (req_LSQHash req) C = 0" "mr_Hart req = c_hart C"
    using assms(6,8,9) by (simp_all add: no_load_def mk_MemReq_hash) (simp add: mk_MemReq_def)
  let ?C2 = "?C\<lparr>c_M := M3, c_R := ?R\<rparr>"
  have mark: "MarkLoadComplete req ?C2 = Inr (?C2\<lparr>
    c_R := DependencySet (ucast (mr_DestReg req)) (mr_RegType req = RegFLOAT) False ?R,
    c_OutstandingFetchQ := erase_first (\<lambda>q. mr_Addr q = mr_Addr req) (c_OutstandingFetchQ ?C2),
    c_LSQueue := c_LSQueue C\<rparr>)"
    using MarkLoadComplete_insert [OF cnt, of ?C2] by (simp add: LSQ_insert_def)
  obtain w where w: "(if n = 4 then Inr (ucast (rf_RV32 (c_R C) (8 * unat rs2 div 4))) else reg_read64 (8 * unat rs2) (c_R C)) = Inr w"
    "apply_amo False flags n ?bs w = apply_amo False flags n ?bs v"
    using AMOMem_operand [OF assms(4,7)] assms(12) by blast
  have "apply_amo False flags n ?bs v = Inr (le_bytes n new)" using assms(4,11,13) by (auto simp: apply_amo_def ApplyAMO_def)
  then have "AMOMem ?h a n (8 * unat rs2) (8 * unat rd) req flags ?C =
      res_bind (MarkLoadComplete req ?C2) (\<lambda>C1. Inr (True, C1))"
    using M(1,2,7) M3(1) st w assms(10) by (cases "n = 4") (simp_all add: AMOMem_def LSQ_insert_def WriteMem_flags_def Let_def)
  then show ?thesis using mark M3 assms(5) t3 by simp
qed

text \<open>Once the table for the size exists, an operation that it has is undefined.\<close>

lemma AMOMem_later:
  assumes "mem_inv (c_M C)" "mem_accessible a n (c_M C)" "mem_room 5 (c_M C)" "n = 4 \<or> n = 8" "rs2 < (32 :: u64)"
    and "amo_T n \<in> set (m_ApplyAMO (c_M C))" "list_ex (RevFlagHas flags) amo_ops"
  shows "AMOMem (c_hart C) a n (8 * unat rs2) tgt req flags (LSQ_insert req C) = Inl (Undefined ''ApplyAMO: locals of an earlier call'')"
proof -
  let ?bs = "vread (vmem (c_M C)) a n"
  obtain pa M1 M2 where M: "CalcPhysAddr (drop_bit 18 a) a (c_M C) = Inr (pa, M1)" "ReadMem (c_hart C) a n M1 = Inr (?bs, M2)"
    "m_ApplyAMO M2 = m_ApplyAMO (c_M C)"
    by (rule AMOMem_read [OF assms(1-3)])
  obtain w where w: "(if n = 4 then Inr (ucast (rf_RV32 (c_R C) (8 * unat rs2 div 4))) else reg_read64 (8 * unat rs2) (c_R C)) = Inr w"
    using AMOMem_operand [OF assms(4,5)] by blast
  have "apply_amo True flags n ?bs w = Inl (Undefined ''ApplyAMO: locals of an earlier call'')"
    using assms(7) by (simp add: apply_amo_def ApplyAMO_def)
  then show ?thesis using M w assms(6) by (cases "n = 4") (simp_all add: AMOMem_def LSQ_insert_def)
qed

lemma amo_flags_listed: "op \<in> set amo_ops \<Longrightarrow> x = 0 \<or> x = F_SEXT64 \<Longrightarrow> list_ex (RevFlagHas (amo_flags op I OR x)) amo_ops"
  using RevFlagHas_amo [of op op x I] by (auto simp: list_ex_iff)

lemma reg_cells:
  "r + i < 32 \<Longrightarrow> reg_read64 (8 * r + 8 * i) R = Inr (rf_RV R (r + i))"
  "r + i < 32 \<Longrightarrow> reg_write64 (8 * r + 8 * i) v R = Inr (R\<lparr>rf_RV := (rf_RV R)(r + i := v)\<rparr>)"
  using reg_read64_cell [of "r + i" R] reg_write64_cell [of "r + i" v R] by (simp_all add: algebra_simps)

text \<open>What the comparison of a store conditional reads: four registers, each shifted by its index.\<close>

definition sc_mix :: "RevRegFile \<Rightarrow> nat \<Rightarrow> u64" where
  "sc_mix R r = rf_RV R r OR push_bit 1 (rf_RV R (r + 1)) OR push_bit 2 (rf_RV R (r + 2)) OR push_bit 3 (rf_RV R (r + 3))"

lemma fold_cells_numeral:
  "fold_cells off i (numeral k) R A =
     res_bind (reg_read64 (off + 8 * i) R) (\<lambda>v. fold_cells off (Suc i) (pred_numeral k) R (A OR push_bit i v))"
  by (simp add: numeral_eq_Suc)

lemma fold_cells_4: "r + 4 \<le> 32 \<Longrightarrow> fold_cells (8 * r) 0 4 R 0 = Inr (sc_mix R r)"
  using reg_cells(1) [of r 0 R] reg_cells(1) [of r 1 R] reg_cells(1) [of r 2 R] reg_cells(1) [of r 3 R]
  by (simp add: fold_cells_numeral sc_mix_def or.assoc numeral_2_eq_2 [symmetric] numeral_3_eq_3 [symmetric])

lemma zero_cells_run:
  "r + n \<le> 32 \<Longrightarrow> zero_cells (8 * r) n R = Inr (R\<lparr>rf_RV := (\<lambda>k. if r \<le> k \<and> k < r + n then 0 else rf_RV R k)\<rparr>)"
proof (induction n arbitrary: r R)
  case (Suc n)
  have "zero_cells (8 * r + 8) n X = zero_cells (8 + 8 * r) n X" for X by (simp add: add.commute)
  moreover have "(\<lambda>k. if Suc r \<le> k \<and> k < Suc r + n then 0 else ((rf_RV R)(r := 0)) k) =
      (\<lambda>k. if r \<le> k \<and> k < r + Suc n then 0 else rf_RV R k)" by (rule ext) auto
  ultimately show ?case using Suc.IH [of "Suc r" "R\<lparr>rf_RV := (rf_RV R)(r := 0)\<rparr>"] Suc.prems
    by (simp add: reg_write64_cell cong: if_cong)
next
  case 0
  have "(\<lambda>k. if r \<le> k \<and> k < r + 0 then 0 else rf_RV R k) = rf_RV R" by (rule ext) auto
  then show ?case by (simp only: zero_cells.simps) simp
qed

text \<open>A store conditional by a hart that holds no reservation of the address fails and writes nothing.\<close>

lemma sc_without_reservation:
  assumes "find (\<lambda>(h, a, _, _). GetHartToExecID F = h \<and> raw_reg (c_R C) (i_rs1 I) = a) (m_LRSC (c_M C)) = None"
    and "\<not> rf_IsRV32 (c_R C)" "i_rd I < 32"
  shows "\<exists>C'. scw F I C = Inr (True, C') \<and> c_M C' = c_M C \<and>
    rf_RV (c_R C') = (rf_RV (c_R C))(unat (i_rd I) := low_set 1 (rf_RV (c_R C) (unat (i_rd I))))"
proof -
  have "unat (i_rd I) < 32" using assms(3) by (simp add: word_less_nat_alt)
  then show ?thesis
    using assms(1,2) by (simp add: scw_def SCBase_def reg_ptr_def reg_write32_cell AdvancePC_def)
qed

section \<open>Examples\<close>

lemma mem_example_room: "mem_room 5 mem_example"
  by (simp add: mem_example_def mem_room_def RevMem_init_def RevSegs_init_def AddMemSegAt_def)

lemma core_example_rf [simp]:
  "rf_RV (c_R core_example) (Suc 0) = 0x3F010" "rf_RV (c_R core_example) 2 = 0xFFFFFFFFFFFFFF80"
  "rf_RV (c_R core_example) 3 = 0"
  by (simp_all add: core_example_def SetX_u_def mk_RevRegFile_def IsRV32_def feature_RV64GC_def is_zero_reg_def)

lemma amo_example_access:
  "mem_accessible 0x3F010 8 mem_example" "GetHartToExecID feature_RV64GC = 0" "no_load 3 RegGPR core_example"
  "vread (vmem mem_example) 0x3F010 4 = [0, 0, 0, 0]" "vread (vmem mem_example) 0x3F010 8 = [0, 0, 0, 0, 0, 0, 0, 0]"
  by (simp_all add: mem_accessible_def mem_example_def isValidVirtAddr_def RevSegs_init_def all_less_8
        AddMemSegAt_def mk_MemSegment_def seg_contains_def GetHartToExecID_def feature_RV64GC_def no_load_def 
     LSQ_count_def RevMem_init_def vread_def vmem_def upt_rec)

lemma amo_example_premises:
  "mem_inv (c_M core_example)" "mem_accessible 0x3F010 4 (c_M core_example)"
  "mem_accessible 0x3F010 8 (c_M core_example)" "mem_room 5 (c_M core_example)"
  "\<not> rf_IsRV32 (c_R core_example)" "i_rd inst_example < 32" "i_rs2 inst_example < 32"
  "0x3F010 = rf_RV (c_R core_example) (unat (i_rs1 inst_example))"
  "c_hart core_example = GetHartToExecID feature_RV64GC"
  "no_load (i_rd inst_example) RegGPR core_example" "F_AMOADD \<in> set amo_ops"
  "0 = le_word (vread (vmem (c_M core_example)) 0x3F010 8)"
  "0 = (ucast (le_word (vread (vmem (c_M core_example)) 0x3F010 4)) :: u32)"
  using mem_example_inv(1) mem_example_room mem_example_accessible(2) amo_example_access
  by (simp_all add: amo_ops_members)

lemma amo_example_first: "m_ApplyAMO mem_example = []"
  by (simp add: mem_example_def RevMem_init_def)

section \<open>Properties\<close>

text \<open>
  C30: The first 64-bit atomic operation of a simulation does what the ISA says. On an RV64 core, whatever
  the acquire and release bits, \<^verbatim>\<open>amo<op>.d\<close> on valid memory returns normally; rd receives the double
  word that was at the address in rs1, the double word there becomes the operation of the old value and
  rs2, no other byte and no other register changes, and no load is left outstanding. Every later one is
  undefined: it runs closures that refer to the locals of the first call.
\<close>

theorem amo_d_behaviour:
  assumes "mem_inv (c_M C)" "mem_accessible a 8 (c_M C)" "mem_room 5 (c_M C)"
    and "\<not> rf_IsRV32 (c_R C)" "i_rd I < 32" "i_rs2 I < 32" "a = rf_RV (c_R C) (unat (i_rs1 I))"
    and "c_hart C = GetHartToExecID F" "no_load (i_rd I) RegGPR C" "op \<in> set amo_ops"
    and "old = le_word (vread (vmem (c_M C)) a 8)"
  shows "if 8 \<in> set (m_ApplyAMO (c_M C)) then amooperd op F I C = Inl (Undefined ''ApplyAMO: locals of an earlier call'')
    else \<exists>C'. amooperd op F I C = Inr (True, C') \<and>
      rf_RV (c_R C') = (rf_RV (c_R C))(unat (i_rd I) := old) \<and>
      vmem (c_M C') = upd_bytes a (le_bytes 8 (amo_spec op old (rf_RV (c_R C) (unat (i_rs2 I))))) (vmem (c_M C)) \<and>
      mem_inv (c_M C') \<and> c_LSQueue C' = c_LSQueue C \<and> m_ApplyAMO (c_M C') = 8 # m_ApplyAMO (c_M C)"
proof -
  let ?req = "mk_MemReq a (i_rd I) RegGPR (c_hart C) MemOpAMO True"
  have len: "length (vread (vmem (c_M C)) a 8) = 8" by (simp add: vread_def)
  have sp: "amo_table (amo_flags op I) old v = amo_spec op old v" for v :: u64
    using amo_table_spec [OF assms(10), of 0] by simp
  have later: "amooperd op F I C = Inl (Undefined ''ApplyAMO: locals of an earlier call'')" if "8 \<in> set (m_ApplyAMO (c_M C))"
    using AMOMem_later [OF assms(1-3) _ assms(6) _ amo_flags_listed [OF assms(10), of 0 I], of "8 * unat (i_rd I)" ?req] that assms(7,8)
    by (simp add: amooperd_def Let_def amo_T_def)
  have "\<exists>C'. amooperd op F I C = Inr (True, C') \<and> rf_RV (c_R C') = (rf_RV (c_R C))(unat (i_rd I) := old) \<and>
      vmem (c_M C') = upd_bytes a (le_bytes 8 (amo_spec op old (rf_RV (c_R C) (unat (i_rs2 I))))) (vmem (c_M C)) \<and>
      mem_inv (c_M C') \<and> c_LSQueue C' = c_LSQueue C \<and> m_ApplyAMO (c_M C') = 8 # m_ApplyAMO (c_M C)"
    if first: "8 \<notin> set (m_ApplyAMO (c_M C))"
  proof -
    have t: "amo_T 8 \<notin> set (m_ApplyAMO (c_M C))" using first by (simp add: amo_T_def)
    obtain C1 where C1: "AMOMem (c_hart C) a 8 (8 * unat (i_rs2 I)) (8 * unat (i_rd I)) ?req (amo_flags op I)
        (LSQ_insert ?req C) = Inr (True, C1)"
      "rf_RV (c_R C1) = (rf_RV (c_R C))(unat (i_rd I) := old)"
      "vmem (c_M C1) = upd_bytes a (le_bytes 8 (amo_spec op old (rf_RV (c_R C) (unat (i_rs2 I))))) (vmem (c_M C))"
      "mem_inv (c_M C1)" "c_LSQueue C1 = c_LSQueue C" "m_ApplyAMO (c_M C1) = 8 # m_ApplyAMO (c_M C)"
      using AMOMem_ok [OF assms(1,2,3) _ assms(4,5,6) refl assms(9) t assms(11) refl refl, of "amo_flags op I"]
        cell_store_word(1) [OF len] assms(11) sp by (auto simp: amo_T_def)
    then show ?thesis
      using assms(7,8) by (simp add: amooperd_def Let_def AdvancePC_def add_cost_def RandCost_def)
  qed
  then show ?thesis using later by simp
qed

theorem amo_d_behaviour_witness:
  "\<exists>C'. amooperd F_AMOADD feature_RV64GC inst_example core_example = Inr (True, C') \<and>
     vmem (c_M C') = upd_bytes 0x3F010 (le_bytes 8 0xFFFFFFFFFFFFFF80) (vmem mem_example)"
proof -
  have v: "amo_spec F_AMOADD 0 (rf_RV (c_R core_example) (unat (i_rs2 inst_example))) = 0xFFFFFFFFFFFFFF80"
    by (simp add: amo_spec_def)
  show ?thesis
    using amo_d_behaviour [OF amo_example_premises(1,3-12)] amo_example_first unfolding v core_example_simps by auto
qed

text \<open>
  C38: The first 32-bit atomic operation of a simulation, on an RV64 core, updates memory as the ISA says,
  but rd keeps the upper half it had: only its low 32 bits receive the old word, although the
  instruction asks for a sign extension with \<^verbatim>\<open>F_SEXT64\<close> and the ISA requires one. Every later one
  is undefined: it runs closures that refer to the locals of the first call.
\<close>

theorem amo_w_behaviour:
  assumes "mem_inv (c_M C)" "mem_accessible a 4 (c_M C)" "mem_room 5 (c_M C)"
    and "\<not> rf_IsRV32 (c_R C)" "i_rd I < 32" "i_rs2 I < 32" "a = rf_RV (c_R C) (unat (i_rs1 I))"
    and "c_hart C = GetHartToExecID F" "no_load (i_rd I) RegGPR C" "op \<in> set amo_ops"
    and "old = (ucast (le_word (vread (vmem (c_M C)) a 4)) :: u32)"
  shows "if 4 \<in> set (m_ApplyAMO (c_M C)) then amooper op F I C = Inl (Undefined ''ApplyAMO: locals of an earlier call'')
    else \<exists>C'. amooper op F I C = Inr (True, C') \<and>
      rf_RV (c_R C') = (rf_RV (c_R C))(unat (i_rd I) := low_set old (rf_RV (c_R C) (unat (i_rd I)))) \<and>
      vmem (c_M C') = upd_bytes a
        (le_bytes 4 (ucast (amo_spec op old (ucast (rf_RV (c_R C) (unat (i_rs2 I))))))) (vmem (c_M C)) \<and>
      mem_inv (c_M C') \<and> c_LSQueue C' = c_LSQueue C \<and> m_ApplyAMO (c_M C') = 4 # m_ApplyAMO (c_M C)"
proof -
  let ?req = "mk_MemReq a (i_rd I) RegGPR (c_hart C) MemOpAMO True"
  let ?fl = "amo_flags op I OR F_SEXT64"
  have len: "length (vread (vmem (c_M C)) a 4) = 4" by (simp add: vread_def)
  have sp: "amo_table ?fl old v = amo_spec op old v" for v :: u32
    using amo_table_spec [OF assms(10)] by blast
  have later: "amooper op F I C = Inl (Undefined ''ApplyAMO: locals of an earlier call'')" if "4 \<in> set (m_ApplyAMO (c_M C))"
    using AMOMem_later [OF assms(1-3) _ assms(6) _ amo_flags_listed [OF assms(10), of F_SEXT64 I], of "8 * unat (i_rd I)" ?req]
      that assms(4,7,8)
    by (simp add: amooper_def raw_reg_def reg_ptr_def Let_def amo_T_def)
  have "\<exists>C'. amooper op F I C = Inr (True, C') \<and>
      rf_RV (c_R C') = (rf_RV (c_R C))(unat (i_rd I) := low_set old (rf_RV (c_R C) (unat (i_rd I)))) \<and>
      vmem (c_M C') = upd_bytes a
        (le_bytes 4 (ucast (amo_spec op old (ucast (rf_RV (c_R C) (unat (i_rs2 I))))))) (vmem (c_M C)) \<and>
      mem_inv (c_M C') \<and> c_LSQueue C' = c_LSQueue C \<and> m_ApplyAMO (c_M C') = 4 # m_ApplyAMO (c_M C)"
    if first: "4 \<notin> set (m_ApplyAMO (c_M C))"
  proof -
    have t: "amo_T 4 \<notin> set (m_ApplyAMO (c_M C))" using first by (simp add: amo_T_def)
    obtain C1 where C1: "AMOMem (c_hart C) a 4 (8 * unat (i_rs2 I)) (8 * unat (i_rd I)) ?req ?fl
        (LSQ_insert ?req C) = Inr (True, C1)"
      "rf_RV (c_R C1) = (rf_RV (c_R C))(unat (i_rd I) := low_set old (rf_RV (c_R C) (unat (i_rd I))))"
      "vmem (c_M C1) = upd_bytes a (le_bytes 4 (ucast (amo_spec op old (ucast (rf_RV (c_R C) (unat (i_rs2 I))))))) (vmem (c_M C))"
      "mem_inv (c_M C1)" "c_LSQueue C1 = c_LSQueue C" "m_ApplyAMO (c_M C1) = 4 # m_ApplyAMO (c_M C)"
      using AMOMem_ok [OF assms(1,2,3) _ assms(4,5,6) refl assms(9) t refl refl refl, of ?fl]
        cell_store_word(2) [OF len] assms(11) sp by (auto simp: amo_T_def)
    then show ?thesis
      using assms(4,7,8)
      by (simp add: amooper_def raw_reg_def reg_ptr_def Let_def AdvancePC_def add_cost_def RandCost_def)
  qed
  then show ?thesis using later by simp
qed

theorem amo_w_behaviour_witness:
  "\<exists>C'. amooper F_AMOADD feature_RV64GC inst_example core_example = Inr (True, C') \<and>
     vmem (c_M C') = upd_bytes 0x3F010 (le_bytes 4 0xFFFFFF80) (vmem mem_example)"
proof -
  have v: "ucast (amo_spec F_AMOADD 0 (ucast (rf_RV (c_R core_example) (unat (i_rs2 inst_example))) :: u32)) = 0xFFFFFF80"
    by (simp add: amo_spec_def)
  show ?thesis
    using amo_w_behaviour [OF amo_example_premises(1,2,4-11,13)] amo_example_first unfolding v core_example_simps by auto
qed

definition lrsc_example :: RevCore where
  "lrsc_example = core_example\<lparr>c_M := mem_example\<lparr>m_LRSC := [(0, 0x3F010, 0, 40)]\<rparr>\<rparr>"


text \<open>
  a load reserve of an address that any hart has already reserved never completes: it
  returns normally without reading memory, and leaves its entry in the load queue, with no
  request that could clear it.
\<close>

theorem lr_collision_leaves_load:
  assumes "(h, raw_reg (c_R C) (i_rs1 I), x, y) \<in> set (m_LRSC (c_M C))"
    and "\<not> rf_IsRV32 (c_R C)" "i_rd I < 32"
  shows "\<exists>C'. lrw F I C = Inr (True, C') \<and> c_M C' = c_M C \<and>
    LSQ_count (LSQHash (i_rd I) RegGPR (GetHartToExecID F)) C' =
      Suc (LSQ_count (LSQHash (i_rd I) RegGPR (GetHartToExecID F)) C)"
proof -
  have "list_ex (\<lambda>(h, a, _, _). a = raw_reg (c_R C) (i_rs1 I)) (m_LRSC (c_M C))"
    using assms(1) by (force simp: list_ex_iff)
  moreover have "unat (i_rd I) < 32" using assms(3) by (simp add: word_less_nat_alt)
  ultimately show ?thesis
    using assms(2,3)
    by (simp add: lrw_def LRBase_def reg_ptr_def reg_write32_cell AdvancePC_def LSQ_insert_def
        LSQ_count_def LSQHashPair_def mk_MemReq_hash Let_def)
qed

theorem lr_collision_leaves_load_witness:
  "\<exists>C'. lrw feature_RV64GC inst_example lrsc_example = Inr (True, C') \<and>
     LSQ_count (LSQHash 3 RegGPR 0) C' = Suc 0"
  using lr_collision_leaves_load [of 0 lrsc_example inst_example 0 40 feature_RV64GC] amo_example_access(2,3)
  by (auto simp: lrsc_example_def raw_reg_def LSQ_count_def)

end
