(* ===== verification/Rev_RV_F.thy ===== *)
theory Rev_RV_F
  imports Rev_InstHelpers
begin

text \<open>
  Floating point and cache management: the floating-point templates of
  \<^verbatim>\<open>include/RevInstHelpers.h\<close> and the instructions and tables of \<^verbatim>\<open>RV32F.h\<close>, \<^verbatim>\<open>RV64F.h\<close>,
  \<^verbatim>\<open>RV32D.h\<close>, \<^verbatim>\<open>RV64D.h\<close> and \<^verbatim>\<open>Zicbom.h\<close>. Values are bit patterns. Rounded arithmetic is the
  host's (\<^typ>\<open>HostFP\<close>); what is exact (classification, comparison, signs, truncation) is
  defined on the bits, with \<open>mb\<close> the number of fraction bits (23 or 52).
\<close>

section \<open>Bit patterns\<close>

definition fp_frac :: "nat \<Rightarrow> 'a::len word \<Rightarrow> 'a word" where
  "fp_frac mb x = take_bit mb x"

definition fp_exp :: "nat \<Rightarrow> 'a::len word \<Rightarrow> 'a word" where
  "fp_exp mb x = take_bit (LENGTH('a) - 1 - mb) (drop_bit mb x)"

definition fp_exp_max :: "nat \<Rightarrow> 'a::len word" where
  "fp_exp_max mb = mask (LENGTH('a) - 1 - mb)"

definition signbit :: "'a::len word \<Rightarrow> bool" where
  "signbit x = bit x (LENGTH('a) - 1)"

definition fp_neg :: "'a::len word \<Rightarrow> 'a word" where
  "fp_neg x = x XOR push_bit (LENGTH('a) - 1) 1"

definition copysign :: "'a::len word \<Rightarrow> 'a word \<Rightarrow> 'a word" where
  "copysign x y = (if signbit x = signbit y then x else fp_neg x)"

definition isnan :: "nat \<Rightarrow> 'a::len word \<Rightarrow> bool" where
  "isnan mb x = (fp_exp mb x = fp_exp_max mb \<and> fp_frac mb x \<noteq> 0)"

text \<open>Numbers compare like their magnitude bits, with the sign; both zeros are zero.\<close>

definition fp_key :: "'a::len word \<Rightarrow> int" where
  "fp_key x = (let m = uint (take_bit (LENGTH('a) - 1) x) in if signbit x then - m else m)"

definition fp_eq :: "nat \<Rightarrow> 'a::len word \<Rightarrow> 'a word \<Rightarrow> bool" where
  "fp_eq mb x y = (\<not> isnan mb x \<and> \<not> isnan mb y \<and> fp_key x = fp_key y)"

definition fp_lt :: "nat \<Rightarrow> 'a::len word \<Rightarrow> 'a word \<Rightarrow> bool" where
  "fp_lt mb x y = (\<not> isnan mb x \<and> \<not> isnan mb y \<and> fp_key x < fp_key y)"

definition fp_le :: "nat \<Rightarrow> 'a::len word \<Rightarrow> 'a word \<Rightarrow> bool" where
  "fp_le mb x y = (\<not> isnan mb x \<and> \<not> isnan mb y \<and> fp_key x \<le> fp_key y)"

text \<open>
  The integer part of a finite number: the significand times a power of two, truncated. The
  exponent bias plus the number of fraction bits is \<open>2 ^ (w - 2 - mb) - 1 + mb\<close>.
\<close>

definition fp_trunc :: "nat \<Rightarrow> 'a::len word \<Rightarrow> int" where
  "fp_trunc mb x =
     (let e = uint (fp_exp mb x); f = uint (fp_frac mb x);
          sig = (if e = 0 then f else f + 2 ^ mb);
          sc = max e 1 - (2 ^ (LENGTH('a) - 2 - mb) - 1 + int mb);
          m = (if 0 \<le> sc then sig * 2 ^ nat sc else sig div 2 ^ nat (- sc))
      in if signbit x then - m else m)"

text \<open>\<^verbatim>\<open>std::fpclassify\<close> and \<^verbatim>\<open>fclass\<close>.\<close>

definition fclass :: "nat \<Rightarrow> 'a::len word \<Rightarrow> bool \<Rightarrow> u32" where
  "fclass mb val quietNaN =
     (let e = fp_exp mb val; f = fp_frac mb val; s = signbit val in
      if e = fp_exp_max mb \<and> f = 0 then (if s then 1 else push_bit 7 1)
      else if e = fp_exp_max mb then (if quietNaN then push_bit 9 1 else push_bit 8 1)
      else if e \<noteq> 0 then (if s then push_bit 1 1 else push_bit 6 1)
      else if f \<noteq> 0 then (if s then push_bit 2 1 else push_bit 5 1)
      else (if s then push_bit 3 1 else push_bit 4 1))"

section \<open>Templates\<close>

text \<open>Set the register file and go to the next instruction.\<close>

definition finish :: "RevInst \<Rightarrow> RevRegFile \<Rightarrow> RevCore \<Rightarrow> (bool \<times> RevCore) result" where
  "finish I R C = Inr (True, C\<lparr>c_R := AdvancePC I R\<rparr>)"

text \<open>
  \<^verbatim>\<open>CvtFpToInt<FP, INT>\<close> once the value is read: \<open>mx\<close> and \<open>mn\<close> are the limits of \<^verbatim>\<open>INT\<close> and \<open>conv\<close>
  is the conversion \<^verbatim>\<open>FP(...)\<close>. Converting a number whose integer part does not fit \<^verbatim>\<open>INT\<close> is
  undefined in C++.
\<close>

definition CvtFpToInt_val :: "nat \<Rightarrow> 'a::len word \<Rightarrow> (int \<Rightarrow> 'a word) \<Rightarrow> int \<Rightarrow> int \<Rightarrow> int result" where
  "CvtFpToInt_val mb fp conv mn mx =
     (if isnan mb fp \<or> fp_lt mb (conv mx) fp then Inr mx
      else if fp_lt mb fp (conv mn) then Inr mn
      else if mn \<le> fp_trunc mb fp \<and> fp_trunc mb fp \<le> mx then Inr (fp_trunc mb fp)
      else Inl (Undefined ''conversion of an out-of-range floating-point value''))"

definition CvtFpToInt_s32 :: "int \<Rightarrow> int \<Rightarrow> inst_fun" where
  "CvtFpToInt_s32 mn mx F I C =
     res_bind (CvtFpToInt_val 23 (GetFP_float False (c_R C) (i_rs1 I)) (h_of_int32 (c_fp C) (c_round C)) mn mx)
       (\<lambda>res. finish I (SetX_s (i_rd I) (of_int res :: u32) (c_R C)) C)"

definition CvtFpToInt_s64 :: "int \<Rightarrow> int \<Rightarrow> inst_fun" where
  "CvtFpToInt_s64 mn mx F I C =
     res_bind (CvtFpToInt_val 23 (GetFP_float False (c_R C) (i_rs1 I)) (h_of_int32 (c_fp C) (c_round C)) mn mx)
       (\<lambda>res. finish I (SetX_s (i_rd I) (of_int res :: u64) (c_R C)) C)"

definition CvtFpToInt_d32 :: "int \<Rightarrow> int \<Rightarrow> inst_fun" where
  "CvtFpToInt_d32 mn mx F I C =
     res_bind (CvtFpToInt_val 52 (GetFP_double (c_R C) (i_rs1 I)) (h_of_int64 (c_fp C) (c_round C)) mn mx)
       (\<lambda>res. finish I (SetX_s (i_rd I) (of_int res :: u32) (c_R C)) C)"

definition CvtFpToInt_d64 :: "int \<Rightarrow> int \<Rightarrow> inst_fun" where
  "CvtFpToInt_d64 mn mx F I C =
     res_bind (CvtFpToInt_val 52 (GetFP_double (c_R C) (i_rs1 I)) (h_of_int64 (c_fp C) (c_round C)) mn mx)
       (\<lambda>res. finish I (SetX_s (i_rd I) (of_int res :: u64) (c_R C)) C)"

text \<open>
  \<^verbatim>\<open>fload<T>\<close>: with \<^verbatim>\<open>double\<close> registers the bytes go to the low end of the 64-bit register, which
  is then boxed for \<^verbatim>\<open>float\<close>; without them they go to the \<^verbatim>\<open>SPF\<close> element.
\<close>

definition fload :: "bool \<Rightarrow> inst_fun" where
  "fload is_double F I C =
     (let h = GetHartToExecID F;
          addr = GetX (c_R C) (i_rs1 I) + scast (ImmSignExt I 12);
          req = mk_MemReq addr (i_rd I) RegFLOAT h MemOpREAD True;
          rd = unat (i_rd I);
          n = (if is_double then 8 else 4);
          C1 = LSQ_insert req C
      in res_bind (ReadMem h addr n (c_M C1)) (\<lambda>(bs, M).
         let R1 = c_R C1;
             R2 = (if is_double \<or> HasD F
                   then R1\<lparr>rf_FP := (rf_FP R1)(rd := cell_store bs (rf_FP R1 rd))\<rparr>
                   else R1\<lparr>rf_FP := half_set rd (ucast (le_word bs)) (rf_FP R1)\<rparr>)
         in res_bind (MarkLoadComplete req (C1\<lparr>c_M := M, c_R := R2\<rparr>)) (\<lambda>C2.
            let R3 = (if HasD F \<and> \<not> is_double
                      then SetFP_double (i_rd I) (BoxNaN (ucast (GetFP_double (c_R C2) (i_rd I)))) (c_R C2)
                      else c_R C2);
                C3 = add_cost F (C2\<lparr>c_R := R3\<rparr>)
            in Inr (True, C3\<lparr>c_R := AdvancePC I (c_R C3)\<rparr>))))"

definition fstore :: "bool \<Rightarrow> inst_fun" where
  "fstore is_double F I C =
     (let bs = (if is_double then le_bytes 8 (GetFP_double (c_R C) (i_rs2 I))
                else le_bytes 4 (ucast (GetFP_float True (c_R C) (i_rs2 I))))
      in res_bind (Mem_Write (GetHartToExecID F) (GetX (c_R C) (i_rs1 I) + scast (ImmSignExt I 12)) bs (c_M C)) (\<lambda>M.
         Inr (True, C\<lparr>c_M := M, c_R := AdvancePC I (c_R C)\<rparr>)))"

definition foper_s :: "(HostFP \<Rightarrow> u8 \<Rightarrow> u32 \<Rightarrow> u32 \<Rightarrow> u32) \<Rightarrow> inst_fun" where
  "foper_s OP F I C = finish I (SetFP_float (i_rd I)
     (OP (c_fp C) (c_round C) (GetFP_float False (c_R C) (i_rs1 I)) (GetFP_float False (c_R C) (i_rs2 I))) (c_R C)) C"

definition foper_d :: "(HostFP \<Rightarrow> u8 \<Rightarrow> u64 \<Rightarrow> u64 \<Rightarrow> u64) \<Rightarrow> inst_fun" where
  "foper_d OP F I C = finish I (SetFP_double (i_rd I)
     (OP (c_fp C) (c_round C) (GetFP_double (c_R C) (i_rs1 I)) (GetFP_double (c_R C) (i_rs2 I))) (c_R C)) C"

definition fcondop_s :: "(u32 \<Rightarrow> u32 \<Rightarrow> bool) \<Rightarrow> inst_fun" where
  "fcondop_s OP F I C =
     (let res = OP (GetFP_float False (c_R C) (i_rs1 I)) (GetFP_float False (c_R C) (i_rs2 I))
      in finish I (SetX_u (i_rd I) (of_bool res :: u64) (c_R C)) C)"

definition fcondop_d :: "(u64 \<Rightarrow> u64 \<Rightarrow> bool) \<Rightarrow> inst_fun" where
  "fcondop_d OP F I C =
     (let res = OP (GetFP_double (c_R C) (i_rs1 I)) (GetFP_double (c_R C) (i_rs2 I))
      in finish I (SetX_u (i_rd I) (of_bool res :: u64) (c_R C)) C)"

text \<open>
  The fused multiply-adds: \<open>n1\<close> negates rs1 and \<open>n3\<close> rs3 before, \<open>nr\<close> the result after
  \<^verbatim>\<open>std::fma\<close>.
\<close>

definition fma_s :: "bool \<Rightarrow> bool \<Rightarrow> bool \<Rightarrow> inst_fun" where
  "fma_s n1 n3 nr F I C =
     (let x = GetFP_float False (c_R C) (i_rs1 I); y = GetFP_float False (c_R C) (i_rs2 I);
          z = GetFP_float False (c_R C) (i_rs3 I);
          r = h_fma32 (c_fp C) (c_round C) (if n1 then fp_neg x else x) y (if n3 then fp_neg z else z)
      in finish I (SetFP_float (i_rd I) (if nr then fp_neg r else r) (c_R C)) C)"

definition fma_d :: "bool \<Rightarrow> bool \<Rightarrow> bool \<Rightarrow> inst_fun" where
  "fma_d n1 n3 nr F I C =
     (let x = GetFP_double (c_R C) (i_rs1 I); y = GetFP_double (c_R C) (i_rs2 I);
          z = GetFP_double (c_R C) (i_rs3 I);
          r = h_fma64 (c_fp C) (c_round C) (if n1 then fp_neg x else x) y (if n3 then fp_neg z else z)
      in finish I (SetFP_double (i_rd I) (if nr then fp_neg r else r) (c_R C)) C)"

definition fmadd_s :: inst_fun where "fmadd_s = fma_s False False False"
definition fmsub_s :: inst_fun where "fmsub_s = fma_s False True False"
definition fnmsub_s :: inst_fun where "fnmsub_s = fma_s True False False"
definition fnmadd_s :: inst_fun where "fnmadd_s = fma_s False False True"
definition fmadd_d :: inst_fun where "fmadd_d = fma_d False False False"
definition fmsub_d :: inst_fun where "fmsub_d = fma_d False True False"
definition fnmsub_d :: inst_fun where "fnmsub_d = fma_d True False False"
definition fnmadd_d :: inst_fun where "fnmadd_d = fma_d False False True"

section \<open>RV32F\<close>

definition flw :: inst_fun where "flw = fload False"
definition fsw :: inst_fun where "fsw = fstore False"

definition cflwsp :: inst_fun where "cflwsp F I C = flw F I C"
definition cfswsp :: inst_fun where "cfswsp F I C = fsw F I C"
definition cflw :: inst_fun where "cflw F I C = flw F I C"
definition cfsw :: inst_fun where "cfsw F I C = fsw F I C"

definition fmadds :: inst_fun where "fmadds = fmadd_s"
definition fmsubs :: inst_fun where "fmsubs = fmsub_s"
definition fnmsubs :: inst_fun where "fnmsubs = fnmsub_s"
definition fnmadds :: inst_fun where "fnmadds = fnmadd_s"
definition fadds :: inst_fun where "fadds = foper_s h_add32"
definition fsubs :: inst_fun where "fsubs = foper_s h_sub32"
definition fmuls :: inst_fun where "fmuls = foper_s h_mul32"
definition fdivs :: inst_fun where "fdivs = foper_s h_div32"
definition fmins :: inst_fun where "fmins = foper_s h_fmin32"
definition fmaxs :: inst_fun where "fmaxs = foper_s h_fmax32"
definition feqs :: inst_fun where "feqs = fcondop_s (fp_eq 23)"
definition flts :: inst_fun where "flts = fcondop_s (fp_lt 23)"
definition fles :: inst_fun where "fles = fcondop_s (fp_le 23)"
definition fcvtws :: inst_fun where "fcvtws = CvtFpToInt_s32 (- (2 ^ 31)) (2 ^ 31 - 1)"
definition fcvtwus :: inst_fun where "fcvtwus = CvtFpToInt_s32 0 (2 ^ 32 - 1)"

definition fsqrts :: inst_fun where
  "fsqrts F I C = finish I (SetFP_float (i_rd I)
     (h_sqrt32 (c_fp C) (c_round C) (GetFP_float False (c_R C) (i_rs1 I))) (c_R C)) C"

definition fsgnjs :: inst_fun where
  "fsgnjs F I C = finish I (SetFP_float (i_rd I)
     (copysign (GetFP_float False (c_R C) (i_rs1 I)) (GetFP_float False (c_R C) (i_rs2 I))) (c_R C)) C"

definition fsgnjns :: inst_fun where
  "fsgnjns F I C = finish I (SetFP_float (i_rd I)
     (copysign (GetFP_float False (c_R C) (i_rs1 I)) (fp_neg (GetFP_float False (c_R C) (i_rs2 I)))) (c_R C)) C"

definition fsgnjxs :: inst_fun where
  "fsgnjxs F I C =
     (let rs1 = GetFP_float False (c_R C) (i_rs1 I); rs2 = GetFP_float False (c_R C) (i_rs2 I)
      in finish I (SetFP_float (i_rd I) (copysign rs1 (if signbit rs1 then fp_neg rs2 else rs2)) (c_R C)) C)"

definition fmvxw :: inst_fun where
  "fmvxw F I C = finish I (SetX_s (i_rd I) (GetFP_float True (c_R C) (i_rs1 I)) (c_R C)) C"

definition fmvwx :: inst_fun where
  "fmvwx F I C = finish I (SetFP_float (i_rd I) (GetX (c_R C) (i_rs1 I)) (c_R C)) C"

definition fclasss :: inst_fun where
  "fclasss F I C =
     (let fp32 = GetFP_float False (c_R C) (i_rs1 I)
      in finish I (SetX_u (i_rd I) (fclass 23 fp32 (bit fp32 22)) (c_R C)) C)"

definition fcvtsw :: inst_fun where
  "fcvtsw F I C = finish I (SetFP_float (i_rd I)
     (h_of_int32 (c_fp C) (c_round C) (sint (GetX (c_R C) (i_rs1 I) :: u32))) (c_R C)) C"

definition fcvtswu :: inst_fun where
  "fcvtswu F I C = finish I (SetFP_float (i_rd I)
     (h_of_int32 (c_fp C) (c_round C) (uint (GetX (c_R C) (i_rs1 I) :: u32))) (c_R C)) C"

section \<open>RV64F\<close>

definition fcvtls :: inst_fun where "fcvtls = CvtFpToInt_s64 (- (2 ^ 63)) (2 ^ 63 - 1)"
definition fcvtlus :: inst_fun where "fcvtlus = CvtFpToInt_s64 0 (2 ^ 64 - 1)"

definition fcvtsl :: inst_fun where
  "fcvtsl F I C = finish I (SetFP_float (i_rd I)
     (h_of_int32 (c_fp C) (c_round C) (sint (GetX (c_R C) (i_rs1 I) :: u64))) (c_R C)) C"

definition fcvtslu :: inst_fun where
  "fcvtslu F I C = finish I (SetFP_float (i_rd I)
     (h_of_int32 (c_fp C) (c_round C) (uint (GetX (c_R C) (i_rs1 I) :: u64))) (c_R C)) C"

section \<open>RV32D\<close>

definition fld :: inst_fun where "fld = fload True"
definition fsd :: inst_fun where "fsd = fstore True"

definition cfldsp :: inst_fun where "cfldsp F I C = fld F I C"
definition cfsdsp :: inst_fun where "cfsdsp F I C = fsd F I C"
definition cfld :: inst_fun where "cfld F I C = fld F I C"
definition cfsd :: inst_fun where "cfsd F I C = fsd F I C"

definition fmaddd :: inst_fun where "fmaddd = fmadd_d"
definition fmsubd :: inst_fun where "fmsubd = fmsub_d"
definition fnmsubd :: inst_fun where "fnmsubd = fnmsub_d"
definition fnmaddd :: inst_fun where "fnmaddd = fnmadd_d"
definition faddd :: inst_fun where "faddd = foper_d h_add64"
definition fsubd :: inst_fun where "fsubd = foper_d h_sub64"
definition fmuld :: inst_fun where "fmuld = foper_d h_mul64"
definition fdivd :: inst_fun where "fdivd = foper_d h_div64"
definition fmind :: inst_fun where "fmind = foper_d h_fmin64"
definition fmaxd :: inst_fun where "fmaxd = foper_d h_fmax64"
definition feqd :: inst_fun where "feqd = fcondop_d (fp_eq 52)"
definition fltd :: inst_fun where "fltd = fcondop_d (fp_lt 52)"
definition fled :: inst_fun where "fled = fcondop_d (fp_le 52)"
definition fcvtwd :: inst_fun where "fcvtwd = CvtFpToInt_d32 (- (2 ^ 31)) (2 ^ 31 - 1)"
definition fcvtwud :: inst_fun where "fcvtwud = CvtFpToInt_d32 0 (2 ^ 32 - 1)"

definition fsqrtd :: inst_fun where
  "fsqrtd F I C = finish I (SetFP_double (i_rd I)
     (h_sqrt64 (c_fp C) (c_round C) (GetFP_double (c_R C) (i_rs1 I))) (c_R C)) C"

definition fsgnjd :: inst_fun where
  "fsgnjd F I C = finish I (SetFP_double (i_rd I)
     (copysign (GetFP_double (c_R C) (i_rs1 I)) (GetFP_double (c_R C) (i_rs2 I))) (c_R C)) C"

definition fsgnjnd :: inst_fun where
  "fsgnjnd F I C = finish I (SetFP_double (i_rd I)
     (copysign (GetFP_double (c_R C) (i_rs1 I)) (fp_neg (GetFP_double (c_R C) (i_rs2 I)))) (c_R C)) C"

definition fsgnjxd :: inst_fun where
  "fsgnjxd F I C =
     (let rs1 = GetFP_double (c_R C) (i_rs1 I); rs2 = GetFP_double (c_R C) (i_rs2 I)
      in finish I (SetFP_double (i_rd I) (copysign rs1 (if signbit rs1 then fp_neg rs2 else rs2)) (c_R C)) C)"

definition fcvtsd :: inst_fun where
  "fcvtsd F I C = finish I (SetFP_float (i_rd I)
     (h_narrow (c_fp C) (c_round C) (GetFP_double (c_R C) (i_rs1 I))) (c_R C)) C"

definition fcvtds :: inst_fun where
  "fcvtds F I C = finish I (SetFP_double (i_rd I)
     (h_widen (c_fp C) (GetFP_float False (c_R C) (i_rs1 I))) (c_R C)) C"

definition fclassd :: inst_fun where
  "fclassd F I C =
     (let fp64 = GetFP_double (c_R C) (i_rs1 I)
      in finish I (SetX_u (i_rd I) (fclass 52 fp64 (bit fp64 51)) (c_R C)) C)"

definition fcvtdw :: inst_fun where
  "fcvtdw F I C = finish I (SetFP_double (i_rd I)
     (h_of_int64 (c_fp C) (c_round C) (sint (GetX (c_R C) (i_rs1 I) :: u32))) (c_R C)) C"

definition fcvtdwu :: inst_fun where
  "fcvtdwu F I C = finish I (SetFP_double (i_rd I)
     (h_of_int64 (c_fp C) (c_round C) (uint (GetX (c_R C) (i_rs1 I) :: u32))) (c_R C)) C"

section \<open>RV64D\<close>

definition fcvtld :: inst_fun where "fcvtld = CvtFpToInt_d64 (- (2 ^ 63)) (2 ^ 63 - 1)"
definition fcvtlud :: inst_fun where "fcvtlud = CvtFpToInt_d64 0 (2 ^ 64 - 1)"

definition fcvtdl :: inst_fun where
  "fcvtdl F I C = finish I (SetFP_double (i_rd I)
     (h_of_int64 (c_fp C) (c_round C) (sint (GetX (c_R C) (i_rs1 I) :: u64))) (c_R C)) C"

definition fcvtdlu :: inst_fun where
  "fcvtdlu F I C = finish I (SetFP_double (i_rd I)
     (h_of_int64 (c_fp C) (c_round C) (uint (GetX (c_R C) (i_rs1 I) :: u64))) (c_R C)) C"

definition fmvxd :: inst_fun where
  "fmvxd F I C = finish I (SetX_u (i_rd I) (GetFP_double (c_R C) (i_rs1 I)) (c_R C)) C"

definition fmvdx :: inst_fun where
  "fmvdx F I C = finish I (SetFP_double (i_rd I) (GetX (c_R C) (i_rs1 I)) (c_R C)) C"

section \<open>Zicbom\<close>

definition CBO_INVAL_IMM :: u64 where "CBO_INVAL_IMM = 0"
definition CBO_FLUSH_IMM :: u64 where "CBO_FLUSH_IMM = 1"
definition CBO_CLEAN_IMM :: u64 where "CBO_CLEAN_IMM = 2"

definition cmo :: inst_fun where
  "cmo F I C =
     (let line = (if i_imm I = CBO_INVAL_IMM then Some InvLine
                  else if i_imm I = CBO_FLUSH_IMM then Some FlushLine
                  else if i_imm I = CBO_CLEAN_IMM then Some CleanLine else None)
      in case line of
           None \<Rightarrow> Inr (False, C)
         | Some f \<Rightarrow> res_bind (f (GetHartToExecID F) (GetX (c_R C) (i_rs1 I)) (c_M C)) (\<lambda>(_, M).
             Inr (True, C\<lparr>c_M := M, c_R := AdvancePC I (c_R C)\<rparr>)))"

section \<open>Tables\<close>

definition RV32FTable :: "RevInstEntry list" where
  "RV32FTable =
    [RevInstDefaults\<lparr>e_mnemonic := ''flw %rd, $imm(%rs1)'', e_opcode := 0b0000111,
       e_funct3 := 0b010, e_rdClass := RegFLOAT, e_rs2Class := RegUNKNOWN, e_format := RVTypeI,
       e_func := Some flw\<rparr>,
     RevInstDefaults\<lparr>e_mnemonic := ''fsw %rs2, $imm(%rs1)'', e_opcode := 0b0100111,
       e_funct3 := 0b010, e_rdClass := RegIMM, e_rs2Class := RegFLOAT, e_format := RVTypeS,
       e_func := Some fsw\<rparr>,
     RevInstDefaults\<lparr>e_mnemonic := ''fmadd.s %rd, %rs1, %rs2, %rs3'', e_opcode := 0b1000011,
       e_rdClass := RegFLOAT, e_rs1Class := RegFLOAT, e_rs2Class := RegFLOAT,
       e_rs3Class := RegFLOAT, e_format := RVTypeR4, e_func := Some fmadds\<rparr>,
     RevInstDefaults\<lparr>e_mnemonic := ''fmsub.s %rd, %rs1, %rs2, %rs3'', e_opcode := 0b1000111,
       e_rdClass := RegFLOAT, e_rs1Class := RegFLOAT, e_rs2Class := RegFLOAT,
       e_rs3Class := RegFLOAT, e_format := RVTypeR4, e_func := Some fmsubs\<rparr>,
     RevInstDefaults\<lparr>e_mnemonic := ''fnmsub.s %rd, %rs1, %rs2, %rs3'',
       e_opcode := 0b1001011, e_rdClass := RegFLOAT, e_rs1Class := RegFLOAT,
       e_rs2Class := RegFLOAT, e_rs3Class := RegFLOAT, e_format := RVTypeR4,
       e_func := Some fnmsubs\<rparr>,
     RevInstDefaults\<lparr>e_mnemonic := ''fnmadd.s %rd, %rs1, %rs2, %rs3'',
       e_opcode := 0b1001111, e_rdClass := RegFLOAT, e_rs1Class := RegFLOAT,
       e_rs2Class := RegFLOAT, e_rs3Class := RegFLOAT, e_format := RVTypeR4,
       e_func := Some fnmadds\<rparr>,
     RevInstDefaults\<lparr>e_mnemonic := ''fadd.s %rd, %rs1, %rs2'', e_opcode := 0b1010011,
       e_rdClass := RegFLOAT, e_rs1Class := RegFLOAT, e_rs2Class := RegFLOAT,
       e_func := Some fadds\<rparr>,
     RevInstDefaults\<lparr>e_mnemonic := ''fsub.s %rd, %rs1, %rs2'', e_opcode := 0b1010011,
       e_funct2or7 := 0b0000100, e_rdClass := RegFLOAT, e_rs1Class := RegFLOAT,
       e_rs2Class := RegFLOAT, e_func := Some fsubs\<rparr>,
     RevInstDefaults\<lparr>e_mnemonic := ''fmul.s %rd, %rs1, %rs2'', e_opcode := 0b1010011,
       e_funct2or7 := 0b0001000, e_rdClass := RegFLOAT, e_rs1Class := RegFLOAT,
       e_rs2Class := RegFLOAT, e_func := Some fmuls\<rparr>,
     RevInstDefaults\<lparr>e_mnemonic := ''fdiv.s %rd, %rs1, %rs2'', e_opcode := 0b1010011,
       e_funct2or7 := 0b0001100, e_rdClass := RegFLOAT, e_rs1Class := RegFLOAT,
       e_rs2Class := RegFLOAT, e_func := Some fdivs\<rparr>,
     RevInstDefaults\<lparr>e_mnemonic := ''fsqrt.s %rd, %rs1'', e_opcode := 0b1010011,
       e_funct2or7 := 0b0101100, e_rdClass := RegFLOAT, e_rs1Class := RegFLOAT,
       e_rs2Class := RegUNKNOWN, e_func := Some fsqrts\<rparr>,
     RevInstDefaults\<lparr>e_mnemonic := ''fmin.s %rd, %rs1, %rs2'', e_opcode := 0b1010011,
       e_funct2or7 := 0b0010100, e_rdClass := RegFLOAT, e_rs1Class := RegFLOAT,
       e_rs2Class := RegFLOAT, e_func := Some fmins\<rparr>,
     RevInstDefaults\<lparr>e_mnemonic := ''fmax.s %rd, %rs1, %rs2'', e_opcode := 0b1010011,
       e_funct3 := 1, e_funct2or7 := 0b0010100, e_rdClass := RegFLOAT, e_rs1Class := RegFLOAT,
       e_rs2Class := RegFLOAT, e_func := Some fmaxs\<rparr>,
     RevInstDefaults\<lparr>e_mnemonic := ''fsgnj.s %rd, %rs1, %rs2'', e_opcode := 0b1010011,
       e_funct2or7 := 0b0010000, e_rdClass := RegFLOAT, e_rs1Class := RegFLOAT,
       e_rs2Class := RegFLOAT, e_func := Some fsgnjs\<rparr>,
     RevInstDefaults\<lparr>e_mnemonic := ''fsgnjn.s %rd, %rs1, %rs2'', e_opcode := 0b1010011,
       e_funct3 := 1, e_funct2or7 := 0b0010000, e_rdClass := RegFLOAT, e_rs1Class := RegFLOAT,
       e_rs2Class := RegFLOAT, e_func := Some fsgnjns\<rparr>,
     RevInstDefaults\<lparr>e_mnemonic := ''fsgnjx.s %rd, %rs1, %rs2'', e_opcode := 0b1010011,
       e_funct3 := 0b010, e_funct2or7 := 0b0010000, e_rdClass := RegFLOAT, e_rs1Class := RegFLOAT,
       e_rs2Class := RegFLOAT, e_func := Some fsgnjxs\<rparr>,
     RevInstDefaults\<lparr>e_mnemonic := ''fcvt.w.s %rd, %rs1'', e_opcode := 0b1010011,
       e_funct2or7 := 0b1100000, e_rs1Class := RegFLOAT, e_rs2Class := RegUNKNOWN,
       e_func := Some fcvtws\<rparr>,
     RevInstDefaults\<lparr>e_mnemonic := ''fcvt.wu.s %rd, %rs1'', e_opcode := 0b1010011,
       e_funct2or7 := 0b1100000, e_rs1Class := RegFLOAT, e_rs2Class := RegUNKNOWN, e_fpcvtOp := 1,
       e_func := Some fcvtwus\<rparr>,
     RevInstDefaults\<lparr>e_mnemonic := ''fmv.x.w %rd, %rs1'', e_opcode := 0b1010011,
       e_funct2or7 := 0b1110000, e_rs1Class := RegFLOAT, e_rs2Class := RegUNKNOWN,
       e_func := Some fmvxw\<rparr>,
     RevInstDefaults\<lparr>e_mnemonic := ''feq.s %rd, %rs1, %rs2'', e_opcode := 0b1010011,
       e_funct3 := 0b010, e_funct2or7 := 0b1010000, e_rs1Class := RegFLOAT, e_rs2Class := RegFLOAT,
       e_func := Some feqs\<rparr>,
     RevInstDefaults\<lparr>e_mnemonic := ''flt.s %rd, %rs1, %rs2'', e_opcode := 0b1010011,
       e_funct3 := 1, e_funct2or7 := 0b1010000, e_rs1Class := RegFLOAT, e_rs2Class := RegFLOAT,
       e_func := Some flts\<rparr>,
     RevInstDefaults\<lparr>e_mnemonic := ''fle.s %rd, %rs1, %rs2'', e_opcode := 0b1010011,
       e_funct2or7 := 0b1010000, e_rs1Class := RegFLOAT, e_rs2Class := RegFLOAT,
       e_func := Some fles\<rparr>,
     RevInstDefaults\<lparr>e_mnemonic := ''fclass.s %rd, %rs1'', e_opcode := 0b1010011,
       e_funct3 := 1, e_funct2or7 := 0b1110000, e_rs1Class := RegFLOAT, e_rs2Class := RegUNKNOWN,
       e_func := Some fclasss\<rparr>,
     RevInstDefaults\<lparr>e_mnemonic := ''fcvt.s.w %rd, %rs1'', e_opcode := 0b1010011,
       e_funct2or7 := 0b1101000, e_rdClass := RegFLOAT, e_rs2Class := RegUNKNOWN,
       e_func := Some fcvtsw\<rparr>,
     RevInstDefaults\<lparr>e_mnemonic := ''fcvt.s.wu %rd, %rs1'', e_opcode := 0b1010011,
       e_funct2or7 := 0b1101000, e_rdClass := RegFLOAT, e_rs2Class := RegUNKNOWN, e_fpcvtOp := 1,
       e_func := Some fcvtswu\<rparr>,
     RevInstDefaults\<lparr>e_mnemonic := ''fmv.w.x %rd, %rs1'', e_opcode := 0b1010011,
       e_funct2or7 := 0b1111000, e_rdClass := RegFLOAT, e_rs2Class := RegUNKNOWN,
       e_func := Some fmvwx\<rparr>]"

definition RV32FCOTable :: "RevInstEntry list" where
  "RV32FCOTable =
    [RevInstDefaults\<lparr>e_mnemonic := ''c.flwsp %rd, $imm'', e_opcode := 0b10,
       e_funct3 := 0b011, e_rdClass := RegFLOAT, e_imm := FVal, e_format := RVCTypeCI,
       e_compressed := True, e_func := Some cflwsp\<rparr>,
     RevInstDefaults\<lparr>e_mnemonic := ''c.fswsp %rs2, $imm'', e_opcode := 0b10,
       e_funct3 := 0b111, e_rs2Class := RegFLOAT, e_imm := FVal, e_format := RVCTypeCSS,
       e_compressed := True, e_func := Some cfswsp\<rparr>,
     RevInstDefaults\<lparr>e_mnemonic := ''c.flw %rd, %rs1, $imm'', e_funct3 := 0b011,
       e_rdClass := RegFLOAT, e_imm := FVal, e_format := RVCTypeCL, e_compressed := True,
       e_func := Some cflw\<rparr>,
     RevInstDefaults\<lparr>e_mnemonic := ''c.fsw %rs2, %rs1, $imm'', e_funct3 := 0b111,
       e_rs2Class := RegFLOAT, e_imm := FVal, e_format := RVCTypeCS, e_compressed := True,
       e_func := Some cfsw\<rparr>]"

definition RV64FTable :: "RevInstEntry list" where
  "RV64FTable =
    [RevInstDefaults\<lparr>e_mnemonic := ''fcvt.l.s  %rd, %rs1'', e_opcode := 0b1010011,
       e_funct2or7 := 0b1100000, e_rs1Class := RegFLOAT, e_rs2Class := RegUNKNOWN,
       e_fpcvtOp := 0b10, e_func := Some fcvtls\<rparr>,
     RevInstDefaults\<lparr>e_mnemonic := ''fcvt.lu.s %rd, %rs1'', e_opcode := 0b1010011,
       e_funct2or7 := 0b1100000, e_rs1Class := RegFLOAT, e_rs2Class := RegUNKNOWN,
       e_fpcvtOp := 0b11, e_func := Some fcvtlus\<rparr>,
     RevInstDefaults\<lparr>e_mnemonic := ''fcvt.s.l %rd, %rs1'', e_opcode := 0b1010011,
       e_funct2or7 := 0b1101000, e_rdClass := RegFLOAT, e_rs2Class := RegUNKNOWN,
       e_fpcvtOp := 0b10, e_func := Some fcvtsl\<rparr>,
     RevInstDefaults\<lparr>e_mnemonic := ''fcvt.s.lu %rd, %rs1'', e_opcode := 0b1010011,
       e_funct2or7 := 0b1101000, e_rdClass := RegFLOAT, e_rs2Class := RegUNKNOWN,
       e_fpcvtOp := 0b11, e_func := Some fcvtslu\<rparr>]"

definition RV32DTable :: "RevInstEntry list" where
  "RV32DTable =
    [RevInstDefaults\<lparr>e_mnemonic := ''fld %rd, $imm(%rs1)'', e_opcode := 0b0000111,
       e_funct3 := 0b011, e_rdClass := RegFLOAT, e_format := RVTypeI, e_func := Some fld\<rparr>,
     RevInstDefaults\<lparr>e_mnemonic := ''fsd %rs2, $imm(%rs1)'', e_opcode := 0b0100111,
       e_funct3 := 0b011, e_rdClass := RegIMM, e_rs1Class := RegFLOAT, e_rs2Class := RegFLOAT,
       e_format := RVTypeS, e_func := Some fsd\<rparr>,
     RevInstDefaults\<lparr>e_mnemonic := ''fmadd.d %rd, %rs1, %rs2, %rs3'', e_opcode := 0b1000011,
       e_funct2or7 := 1, e_rdClass := RegFLOAT, e_rs1Class := RegFLOAT, e_rs2Class := RegFLOAT,
       e_rs3Class := RegFLOAT, e_format := RVTypeR4, e_func := Some fmaddd\<rparr>,
     RevInstDefaults\<lparr>e_mnemonic := ''fmsub.d %rd, %rs1, %rs2, %rs3'', e_opcode := 0b1000111,
       e_funct2or7 := 1, e_rdClass := RegFLOAT, e_rs1Class := RegFLOAT, e_rs2Class := RegFLOAT,
       e_rs3Class := RegFLOAT, e_format := RVTypeR4, e_func := Some fmsubd\<rparr>,
     RevInstDefaults\<lparr>e_mnemonic := ''fnmsub.d %rd, %rs1, %rs2, %rs3'',
       e_opcode := 0b1001011, e_funct2or7 := 1, e_rdClass := RegFLOAT, e_rs1Class := RegFLOAT,
       e_rs2Class := RegFLOAT, e_rs3Class := RegFLOAT, e_format := RVTypeR4,
       e_func := Some fnmsubd\<rparr>,
     RevInstDefaults\<lparr>e_mnemonic := ''fnmadd.d %rd, %rs1, %rs2, %rs3'',
       e_opcode := 0b1001111, e_funct2or7 := 1, e_rdClass := RegFLOAT, e_rs1Class := RegFLOAT,
       e_rs2Class := RegFLOAT, e_rs3Class := RegFLOAT, e_format := RVTypeR4,
       e_func := Some fnmaddd\<rparr>,
     RevInstDefaults\<lparr>e_mnemonic := ''fadd.d %rd, %rs1, %rs2'', e_opcode := 0b1010011,
       e_funct2or7 := 1, e_rdClass := RegFLOAT, e_rs1Class := RegFLOAT, e_rs2Class := RegFLOAT,
       e_func := Some faddd\<rparr>,
     RevInstDefaults\<lparr>e_mnemonic := ''fsub.d %rd, %rs1, %rs2'', e_opcode := 0b1010011,
       e_funct2or7 := 0b0000101, e_rdClass := RegFLOAT, e_rs1Class := RegFLOAT,
       e_rs2Class := RegFLOAT, e_func := Some fsubd\<rparr>,
     RevInstDefaults\<lparr>e_mnemonic := ''fmul.d %rd, %rs1, %rs2'', e_opcode := 0b1010011,
       e_funct2or7 := 0b0001001, e_rdClass := RegFLOAT, e_rs1Class := RegFLOAT,
       e_rs2Class := RegFLOAT, e_func := Some fmuld\<rparr>,
     RevInstDefaults\<lparr>e_mnemonic := ''fdiv.d %rd, %rs1, %rs2'', e_opcode := 0b1010011,
       e_funct2or7 := 0b0001101, e_rdClass := RegFLOAT, e_rs1Class := RegFLOAT,
       e_rs2Class := RegFLOAT, e_func := Some fdivd\<rparr>,
     RevInstDefaults\<lparr>e_mnemonic := ''fsqrt.d %rd, %rs1'', e_opcode := 0b1010011,
       e_funct2or7 := 0b0101101, e_rdClass := RegFLOAT, e_rs1Class := RegFLOAT,
       e_rs2Class := RegUNKNOWN, e_func := Some fsqrtd\<rparr>,
     RevInstDefaults\<lparr>e_mnemonic := ''fmin.d %rd, %rs1, %rs2'', e_opcode := 0b1010011,
       e_funct2or7 := 0b0010101, e_rdClass := RegFLOAT, e_rs1Class := RegFLOAT,
       e_rs2Class := RegFLOAT, e_func := Some fmind\<rparr>,
     RevInstDefaults\<lparr>e_mnemonic := ''fmax.d %rd, %rs1, %rs2'', e_opcode := 0b1010011,
       e_funct3 := 1, e_funct2or7 := 0b0010101, e_rdClass := RegFLOAT, e_rs1Class := RegFLOAT,
       e_rs2Class := RegFLOAT, e_func := Some fmaxd\<rparr>,
     RevInstDefaults\<lparr>e_mnemonic := ''fsgnj.d %rd, %rs1, %rs2'', e_opcode := 0b1010011,
       e_funct2or7 := 0b0010001, e_rdClass := RegFLOAT, e_rs1Class := RegFLOAT,
       e_rs2Class := RegFLOAT, e_func := Some fsgnjd\<rparr>,
     RevInstDefaults\<lparr>e_mnemonic := ''fsgnjn.d %rd, %rs1, %rs2'', e_opcode := 0b1010011,
       e_funct3 := 1, e_funct2or7 := 0b0010001, e_rdClass := RegFLOAT, e_rs1Class := RegFLOAT,
       e_rs2Class := RegFLOAT, e_func := Some fsgnjnd\<rparr>,
     RevInstDefaults\<lparr>e_mnemonic := ''fsgnjx.d %rd, %rs1, %rs2'', e_opcode := 0b1010011,
       e_funct3 := 0b010, e_funct2or7 := 0b0010001, e_rdClass := RegFLOAT, e_rs1Class := RegFLOAT,
       e_rs2Class := RegFLOAT, e_func := Some fsgnjxd\<rparr>,
     RevInstDefaults\<lparr>e_mnemonic := ''fcvt.s.d %rd, %rs1'', e_opcode := 0b1010011,
       e_funct2or7 := 0b0100000, e_rdClass := RegFLOAT, e_rs1Class := RegFLOAT,
       e_rs2Class := RegUNKNOWN, e_fpcvtOp := 1, e_func := Some fcvtsd\<rparr>,
     RevInstDefaults\<lparr>e_mnemonic := ''fcvt.d.s %rd, %rs1'', e_opcode := 0b1010011,
       e_funct2or7 := 0b0100001, e_rdClass := RegFLOAT, e_rs1Class := RegFLOAT,
       e_rs2Class := RegUNKNOWN, e_func := Some fcvtds\<rparr>,
     RevInstDefaults\<lparr>e_mnemonic := ''feq.d %rd, %rs1, %rs2'', e_opcode := 0b1010011,
       e_funct3 := 0b010, e_funct2or7 := 0b1010001, e_rs1Class := RegFLOAT, e_rs2Class := RegFLOAT,
       e_func := Some feqd\<rparr>,
     RevInstDefaults\<lparr>e_mnemonic := ''flt.d %rd, %rs1, %rs2'', e_opcode := 0b1010011,
       e_funct3 := 1, e_funct2or7 := 0b1010001, e_rs1Class := RegFLOAT, e_rs2Class := RegFLOAT,
       e_func := Some fltd\<rparr>,
     RevInstDefaults\<lparr>e_mnemonic := ''fle.d %rd, %rs1, %rs2'', e_opcode := 0b1010011,
       e_funct2or7 := 0b1010001, e_rs1Class := RegFLOAT, e_rs2Class := RegFLOAT,
       e_func := Some fled\<rparr>,
     RevInstDefaults\<lparr>e_mnemonic := ''fclass.d %rd, %rs1'', e_opcode := 0b1010011,
       e_funct3 := 1, e_funct2or7 := 0b1110001, e_rs1Class := RegFLOAT, e_rs2Class := RegUNKNOWN,
       e_func := Some fclassd\<rparr>,
     RevInstDefaults\<lparr>e_mnemonic := ''fcvt.w.d %rd, %rs1'', e_opcode := 0b1010011,
       e_funct2or7 := 0b1100001, e_rs1Class := RegFLOAT, e_rs2Class := RegUNKNOWN,
       e_func := Some fcvtwd\<rparr>,
     RevInstDefaults\<lparr>e_mnemonic := ''fcvt.wu.d %rd, %rs1'', e_opcode := 0b1010011,
       e_funct2or7 := 0b1100001, e_rs1Class := RegFLOAT, e_rs2Class := RegUNKNOWN, e_fpcvtOp := 1,
       e_func := Some fcvtwud\<rparr>,
     RevInstDefaults\<lparr>e_mnemonic := ''fcvt.d.w %rd, %rs1'', e_opcode := 0b1010011,
       e_funct2or7 := 0b1101001, e_rdClass := RegFLOAT, e_rs2Class := RegUNKNOWN,
       e_func := Some fcvtdw\<rparr>,
     RevInstDefaults\<lparr>e_mnemonic := ''fcvt.d.wu %rd, %rs1'', e_opcode := 0b1010011,
       e_funct2or7 := 0b1101001, e_rdClass := RegFLOAT, e_rs2Class := RegUNKNOWN, e_fpcvtOp := 1,
       e_func := Some fcvtdwu\<rparr>]"

definition RV32DCTable :: "RevInstEntry list" where
  "RV32DCTable =
    [RevInstDefaults\<lparr>e_mnemonic := ''c.fldsp %rd, $imm'', e_opcode := 0b10, e_funct3 := 1,
       e_rdClass := RegFLOAT, e_imm := FVal, e_format := RVCTypeCI, e_compressed := True,
       e_func := Some cfldsp\<rparr>,
     RevInstDefaults\<lparr>e_mnemonic := ''c.fsdsp %rs1, $imm'', e_opcode := 0b10,
       e_funct3 := 0b101, e_rs2Class := RegFLOAT, e_imm := FVal, e_format := RVCTypeCSS,
       e_compressed := True, e_func := Some cfsdsp\<rparr>,
     RevInstDefaults\<lparr>e_mnemonic := ''c.fld %rd, %rs1, $imm'', e_funct3 := 1,
       e_rdClass := RegFLOAT, e_imm := FVal, e_format := RVCTypeCL, e_compressed := True,
       e_func := Some cfld\<rparr>,
     RevInstDefaults\<lparr>e_mnemonic := ''c.fsd %rs2, %rs1, $imm'', e_funct3 := 0b101,
       e_imm := FVal, e_format := RVCTypeCS, e_compressed := True, e_func := Some cfsd\<rparr>]"

definition RV64DTable :: "RevInstEntry list" where
  "RV64DTable =
    [RevInstDefaults\<lparr>e_mnemonic := ''fcvt.l.d %rd, %rs1'', e_opcode := 0b1010011,
       e_funct2or7 := 0b1100001, e_rs1Class := RegFLOAT, e_rs2Class := RegUNKNOWN,
       e_fpcvtOp := 0b10, e_func := Some fcvtld\<rparr>,
     RevInstDefaults\<lparr>e_mnemonic := ''fcvt.lu.d %rd, %rs1'', e_opcode := 0b1010011,
       e_funct2or7 := 0b1100001, e_rs1Class := RegFLOAT, e_rs2Class := RegUNKNOWN,
       e_fpcvtOp := 0b11, e_func := Some fcvtlud\<rparr>,
     RevInstDefaults\<lparr>e_mnemonic := ''fcvt.d.l %rd, %rs1'', e_opcode := 0b1010011,
       e_funct2or7 := 0b1101001, e_rdClass := RegFLOAT, e_rs2Class := RegUNKNOWN,
       e_fpcvtOp := 0b10, e_func := Some fcvtdl\<rparr>,
     RevInstDefaults\<lparr>e_mnemonic := ''fcvt.d.lu %rd, %rs1'', e_opcode := 0b1010011,
       e_funct2or7 := 0b1101001, e_rdClass := RegFLOAT, e_rs2Class := RegUNKNOWN,
       e_fpcvtOp := 0b11, e_func := Some fcvtdlu\<rparr>,
     RevInstDefaults\<lparr>e_mnemonic := ''fmv.x.d %rd, %rs1'', e_opcode := 0b1010011,
       e_funct2or7 := 0b1110001, e_rs1Class := RegFLOAT, e_rs2Class := RegUNKNOWN,
       e_func := Some fmvxd\<rparr>,
     RevInstDefaults\<lparr>e_mnemonic := ''fmv.d.x %rd, %rs1'', e_opcode := 0b1010011,
       e_funct2or7 := 0b1111001, e_rdClass := RegFLOAT, e_rs2Class := RegUNKNOWN,
       e_func := Some fmvdx\<rparr>]"

definition ZicbomTable :: "RevInstEntry list" where
  "ZicbomTable =
    [RevInstDefaults\<lparr>e_mnemonic := ''cbo.clean'', e_opcode := 0b0001111, e_funct3 := 0b010,
       e_rdClass := RegUNKNOWN, e_rs2Class := RegUNKNOWN, e_imm12 := 1, e_imm := FEnc,
       e_format := RVTypeI, e_func := Some cmo\<rparr>,
     RevInstDefaults\<lparr>e_mnemonic := ''cbo.flush'', e_opcode := 0b0001111, e_funct3 := 0b010,
       e_rdClass := RegUNKNOWN, e_rs2Class := RegUNKNOWN, e_imm12 := 0b000000000010, e_imm := FEnc,
       e_format := RVTypeI, e_func := Some cmo\<rparr>,
     RevInstDefaults\<lparr>e_mnemonic := ''cbo.inval'', e_opcode := 0b0001111, e_funct3 := 0b010,
       e_rdClass := RegUNKNOWN, e_rs2Class := RegUNKNOWN, e_imm := FEnc, e_format := RVTypeI,
       e_func := Some cmo\<rparr>]"

end
