(* ===== verification/Rev_Decode.thy ===== *)
theory Rev_Decode
  imports Rev_RV_I Rev_RV_M Rev_RV_A Rev_RV_F
begin

text \<open>
  The front end of \<^verbatim>\<open>src/RevProc.cc\<close>: building the instruction tables of a core from its features
  (\<^verbatim>\<open>SeedInstTable\<close>, \<^verbatim>\<open>InitTableMapping\<close>), decoding 32-bit and compressed instructions, and
  \<^verbatim>\<open>RevExt::Execute\<close> of \<^verbatim>\<open>src/RevExt.cc\<close>, which runs the function of a decoded instruction. The
  coprocessor that may claim an undecodable instruction is a parameter.
\<close>

section \<open>Extensions\<close>

record RevExt =
  x_name :: string
  x_table :: "RevInstEntry list"
  x_ctable :: "RevInstEntry list"
  x_otable :: "RevInstEntry list"

definition RV32I :: RevExt where
  "RV32I = \<lparr>x_name = ''RV32I'', x_table = RV32ITable, x_ctable = RV32ICTable, x_otable = RV32ICOTable\<rparr>"

definition RV64I :: RevExt where
  "RV64I = \<lparr>x_name = ''RV64I'', x_table = RV64ITable, x_ctable = RV64ICTable, x_otable = []\<rparr>"

definition RV32M :: RevExt where
  "RV32M = \<lparr>x_name = ''RV32M'', x_table = RV32MTable, x_ctable = [], x_otable = []\<rparr>"

definition RV64M :: RevExt where
  "RV64M = \<lparr>x_name = ''RV64M'', x_table = RV64MTable, x_ctable = [], x_otable = []\<rparr>"

definition RV32A :: RevExt where
  "RV32A = \<lparr>x_name = ''RV32A'', x_table = RV32ATable, x_ctable = [], x_otable = []\<rparr>"

definition RV64A :: RevExt where
  "RV64A = \<lparr>x_name = ''RV64A'', x_table = RV64ATable, x_ctable = [], x_otable = []\<rparr>"

definition RV32F :: RevExt where
  "RV32F = \<lparr>x_name = ''RV32F'', x_table = RV32FTable, x_ctable = [], x_otable = RV32FCOTable\<rparr>"

definition RV64F :: RevExt where
  "RV64F = \<lparr>x_name = ''RV64F'', x_table = RV64FTable, x_ctable = [], x_otable = []\<rparr>"

definition RV32D :: RevExt where
  "RV32D = \<lparr>x_name = ''RV32D'', x_table = RV32DTable, x_ctable = RV32DCTable, x_otable = []\<rparr>"

definition RV64D :: RevExt where
  "RV64D = \<lparr>x_name = ''RV64D'', x_table = RV64DTable, x_ctable = [], x_otable = []\<rparr>"

definition Zicbom :: RevExt where
  "Zicbom = \<lparr>x_name = ''Zicbom'', x_table = ZicbomTable, x_ctable = [], x_otable = []\<rparr>"

section \<open>Tables of a core\<close>

record RevTables =
  p_Extensions :: "RevExt list"
  p_InstTable :: "RevInstEntry list"
  p_EntryToExt :: "nat \<rightharpoonup> nat \<times> nat"
  p_NameToEntry :: "string \<rightharpoonup> nat"
  p_EncToEntry :: "u32 \<rightharpoonup> nat"
  p_CEncToEntry :: "u32 \<rightharpoonup> nat"

definition RevTables_empty :: RevTables where
  "RevTables_empty = \<lparr>p_Extensions = [], p_InstTable = [], p_EntryToExt = Map.empty,
     p_NameToEntry = Map.empty, p_EncToEntry = Map.empty, p_CEncToEntry = Map.empty\<rparr>"

text \<open>\<^verbatim>\<open>insert\<close> of a standard map keeps an entry that is already there.\<close>

definition map_insert :: "'k \<Rightarrow> 'v \<Rightarrow> ('k \<rightharpoonup> 'v) \<Rightarrow> 'k \<rightharpoonup> 'v" where
  "map_insert k v m = (if m k = None then m(k \<mapsto> v) else m)"

text \<open>The loops of \<^verbatim>\<open>EnableExt\<close>: append the entries of one table and record where they came from.\<close>

fun push_entries :: "nat \<Rightarrow> nat \<Rightarrow> RevInstEntry list \<Rightarrow> RevTables \<Rightarrow> RevTables" where
  "push_entries ext i [] P = P"
| "push_entries ext i (e # es) P =
     push_entries ext (Suc i) es (P\<lparr>p_InstTable := p_InstTable P @ [e],
       p_EntryToExt := map_insert (length (p_InstTable P)) (ext, i) (p_EntryToExt P)\<rparr>)"

definition EnableExt :: "RevFeature \<Rightarrow> RevExt \<Rightarrow> bool \<Rightarrow> RevTables \<Rightarrow> RevTables" where
  "EnableExt F Ext Opt P =
     (let P0 = P\<lparr>p_Extensions := p_Extensions P @ [Ext]\<rparr>;
          n = length (p_Extensions P0) - 1;
          P1 = push_entries n 0 (x_table Ext) P0
      in if IsModeEnabled F RV_C then
           let P2 = push_entries n 0 (x_ctable Ext) P1
           in if Opt then push_entries n 0 (x_otable Ext) P2 else P2
         else P1)"

definition SeedInstTable :: "RevFeature \<Rightarrow> RevTables \<Rightarrow> RevTables" where
  "SeedInstTable F P =
     (let P1 = (if IsModeEnabled F RV_I then
                  (if IsRV64 F then EnableExt F RV64I False (EnableExt F RV32I False P)
                   else EnableExt F RV32I True P)
                else P);
          P2 = (if IsModeEnabled F RV_M then
                  (let Q = EnableExt F RV32M False P1
                   in if IsRV64 F then EnableExt F RV64M False Q else Q)
                else P1);
          P3 = (if IsModeEnabled F RV_A then
                  (let Q = EnableExt F RV32A False P2
                   in if IsRV64 F then EnableExt F RV64A False Q else Q)
                else P2);
          P4 = (if IsModeEnabled F RV_F then
                  (if \<not> IsModeEnabled F RV_D \<and> IsRV32 F then EnableExt F RV32F True P3
                   else EnableExt F RV64F False (EnableExt F RV32F False P3))
                else P3);
          P5 = (if IsModeEnabled F RV_D then
                  (let Q = EnableExt F RV32D False P4
                   in if IsRV64 F then EnableExt F RV64D False Q else Q)
                else P4)
      in if IsModeEnabled F RV_ZICBOM then EnableExt F Zicbom False P5 else P5)"

definition CompressCEncoding :: "RevInstEntry \<Rightarrow> u32" where
  "CompressCEncoding E = ucast (e_opcode E) OR push_bit 2 (ucast (e_funct2 E))
     OR push_bit 4 (ucast (e_funct3 E)) OR push_bit 8 (ucast (e_funct4 E))
     OR push_bit 12 (ucast (e_funct6 E))"

definition CompressEncoding :: "RevInstEntry \<Rightarrow> u32" where
  "CompressEncoding E = ucast (e_opcode E) OR push_bit 8 (ucast (e_funct3 E))
     OR push_bit 11 (ucast (e_funct2or7 E)) OR push_bit 18 (ucast (e_imm12 E))
     OR push_bit 30 (ucast (e_fpcvtOp E))"

text \<open>\<^verbatim>\<open>splitStr\<close> and the mnemonic, the text before the first blank.\<close>

function splitStr :: "string \<Rightarrow> char \<Rightarrow> string list" where
  "splitStr s c =
     (case dropWhile (\<lambda>x. x \<noteq> c) s of
        [] \<Rightarrow> [s]
      | _ # t \<Rightarrow> takeWhile (\<lambda>x. x \<noteq> c) s # splitStr t c)"
  by pat_completeness auto
termination
proof (relation "measure (\<lambda>(s, c). length s)")
  fix s :: string and c x t
  assume "dropWhile (\<lambda>x. x \<noteq> c) s = x # t"
  then have "length (x # t) \<le> length s" by (metis length_dropWhile_le)
  then show "((t, c), (s, c)) \<in> measure (\<lambda>(s, c). length s)" by simp
qed simp

definition ExtractMnemonic :: "RevInstEntry \<Rightarrow> string" where
  "ExtractMnemonic E = hd (splitStr (e_mnemonic E) CHR '' '')"

fun init_mapping :: "nat \<Rightarrow> RevInstEntry list \<Rightarrow> RevTables \<Rightarrow> RevTables" where
  "init_mapping i [] P = P"
| "init_mapping i (e # es) P =
     (let P1 = P\<lparr>p_NameToEntry := map_insert (ExtractMnemonic e) i (p_NameToEntry P)\<rparr>
      in init_mapping (Suc i) es
          (if \<not> e_compressed e
           then P1\<lparr>p_EncToEntry := map_insert (CompressEncoding e) i (p_EncToEntry P1)\<rparr>
           else P1\<lparr>p_CEncToEntry := map_insert (CompressCEncoding e) i (p_CEncToEntry P1)\<rparr>))"

definition InitTableMapping :: "RevTables \<Rightarrow> RevTables" where
  "InitTableMapping P = init_mapping 0 (p_InstTable P) P"

text \<open>
  The overrides of \<^verbatim>\<open>ReadOverrideTables\<close>, as the name and cost pairs read from the file (the
  built-in table has none): an unknown name is fatal.
\<close>

fun apply_overrides :: "(string \<times> u32) list \<Rightarrow> RevTables \<Rightarrow> RevTables result" where
  "apply_overrides [] P = Inr P"
| "apply_overrides ((Inst, Cost) # os) P =
     (case p_NameToEntry P Inst of
        None \<Rightarrow> Inl (Fatal ''could not find instruction in table'')
      | Some Entry \<Rightarrow> apply_overrides os
          (P\<lparr>p_InstTable := (p_InstTable P)[Entry := (p_InstTable P ! Entry)\<lparr>e_cost := Cost\<rparr>]\<rparr>))"

definition LoadInstructionTable :: "RevFeature \<Rightarrow> (string \<times> u32) list \<Rightarrow> RevTables result" where
  "LoadInstructionTable F overrides =
     apply_overrides overrides (InitTableMapping (SeedInstTable F RevTables_empty))"

section \<open>Field decoding\<close>

definition DECODE_RD :: "u32 \<Rightarrow> u32" where "DECODE_RD x = drop_bit 7 x AND 0b11111"
definition DECODE_RS1 :: "u32 \<Rightarrow> u32" where "DECODE_RS1 x = drop_bit 15 x AND 0b11111"
definition DECODE_RS2 :: "u32 \<Rightarrow> u32" where "DECODE_RS2 x = drop_bit 20 x AND 0b11111"
definition DECODE_RS3 :: "u32 \<Rightarrow> u32" where "DECODE_RS3 x = drop_bit 27 x AND 0b11111"
definition DECODE_IMM12 :: "u32 \<Rightarrow> u32" where "DECODE_IMM12 x = drop_bit 20 x AND 0b111111111111"
definition DECODE_IMM20 :: "u32 \<Rightarrow> u32" where "DECODE_IMM20 x = drop_bit 12 x AND 0b11111111111111111111"
definition DECODE_LOWER_CRS2 :: "u32 \<Rightarrow> u32" where "DECODE_LOWER_CRS2 x = drop_bit 2 x AND 0b11111"
definition DECODE_FUNCT7 :: "u32 \<Rightarrow> u32" where "DECODE_FUNCT7 x = drop_bit 25 x AND 0b1111111"
definition DECODE_FUNCT2 :: "u32 \<Rightarrow> u32" where "DECODE_FUNCT2 x = drop_bit 25 x AND 0b11"
definition DECODE_FUNCT3 :: "u32 \<Rightarrow> u32" where "DECODE_FUNCT3 x = drop_bit 12 x AND 0b111"
definition DECODE_RM :: "u32 \<Rightarrow> u8" where "DECODE_RM x = ucast (DECODE_FUNCT3 x)"
definition DECODE_RL :: "u32 \<Rightarrow> u32" where "DECODE_RL x = drop_bit 25 x AND 0b1"
definition DECODE_AQ :: "u32 \<Rightarrow> u32" where "DECODE_AQ x = drop_bit 26 x AND 0b1"

lemmas DECODE_defs = DECODE_RD_def DECODE_RS1_def DECODE_RS2_def DECODE_RS3_def DECODE_IMM12_def
  DECODE_IMM20_def DECODE_LOWER_CRS2_def DECODE_FUNCT7_def DECODE_FUNCT2_def DECODE_FUNCT3_def
  DECODE_RM_def DECODE_RL_def DECODE_AQ_def

definition IsFloat :: "RevInstEntry \<Rightarrow> bool" where
  "IsFloat E = (e_rdClass E = RegFLOAT \<or> e_rs1Class E = RegFLOAT \<or> e_rs2Class E = RegFLOAT
     \<or> e_rs3Class E = RegFLOAT)"

section \<open>32-bit formats\<close>

text \<open>The functions take the table entry; registers and operands are widened to 64 bits.\<close>

definition DecodeRInst :: "u32 \<Rightarrow> RevInstEntry \<Rightarrow> RevInst" where
  "DecodeRInst Inst E = RevInst_default\<lparr>
     i_cost := e_cost E, i_opcode := e_opcode E, i_funct3 := e_funct3 E, i_funct2or7 := e_funct2or7 E,
     i_rd := (if e_rdClass E \<noteq> RegUNKNOWN then ucast (DECODE_RD Inst) else 0),
     i_rs1 := (if e_rs1Class E \<noteq> RegUNKNOWN then ucast (DECODE_RS1 Inst) else 0),
     i_rs2 := (if e_rs2Class E \<noteq> RegUNKNOWN then ucast (DECODE_RS2 Inst) else 0),
     i_rs3 := 0,
     i_imm := (if e_imm E = FImm \<and> e_rs2Class E = RegUNKNOWN
               then ucast (DECODE_IMM12 Inst AND 0b011111) else 0),
     i_instSize := 4,
     i_rl := (if e_opcode E = 0b0101111 then ucast (DECODE_RL Inst) else 0),
     i_aq := (if e_opcode E = 0b0101111 then ucast (DECODE_AQ Inst) else 0),
     i_rm := (if IsFloat E then DECODE_RM Inst else FRMode_None),
     i_compressed := False\<rparr>"

definition DecodeIInst :: "u32 \<Rightarrow> RevInstEntry \<Rightarrow> RevInst" where
  "DecodeIInst Inst E = RevInst_default\<lparr>
     i_cost := e_cost E, i_opcode := e_opcode E, i_funct3 := e_funct3 E, i_funct2or7 := 0,
     i_rd := (if e_rdClass E \<noteq> RegUNKNOWN then ucast (DECODE_RD Inst) else 0),
     i_rs1 := (if e_rs1Class E \<noteq> RegUNKNOWN then ucast (DECODE_RS1 Inst) else 0),
     i_rs2 := 0, i_rs3 := 0,
     i_imm := ucast (DECODE_IMM12 Inst), i_instSize := 4,
     i_rm := (if IsFloat E then DECODE_RM Inst else FRMode_None),
     i_compressed := False\<rparr>"

definition DecodeSInst :: "u32 \<Rightarrow> RevInstEntry \<Rightarrow> RevInst" where
  "DecodeSInst Inst E = RevInst_default\<lparr>
     i_cost := e_cost E, i_opcode := e_opcode E, i_funct3 := e_funct3 E, i_funct2or7 := 0,
     i_rd := 0,
     i_rs1 := (if e_rs1Class E \<noteq> RegUNKNOWN then ucast (DECODE_RS1 Inst) else 0),
     i_rs2 := (if e_rs2Class E \<noteq> RegUNKNOWN then ucast (DECODE_RS2 Inst) else 0),
     i_rs3 := 0,
     i_imm := ucast (DECODE_RD Inst OR push_bit 5 (DECODE_FUNCT7 Inst)), i_instSize := 4,
     i_rm := (if IsFloat E then DECODE_RM Inst else FRMode_None),
     i_compressed := False\<rparr>"

definition DecodeUInst :: "u32 \<Rightarrow> RevInstEntry \<Rightarrow> RevInst" where
  "DecodeUInst Inst E = RevInst_default\<lparr>
     i_cost := e_cost E, i_opcode := e_opcode E, i_funct3 := 0, i_funct2or7 := 0,
     i_rd := (if e_rdClass E \<noteq> RegUNKNOWN then ucast (DECODE_RD Inst) else 0),
     i_rs1 := 0, i_rs2 := 0, i_rs3 := 0,
     i_imm := ucast (DECODE_IMM20 Inst), i_instSize := 4, i_compressed := False\<rparr>"

definition DecodeBInst :: "u32 \<Rightarrow> RevInstEntry \<Rightarrow> RevInst" where
  "DecodeBInst Inst E = RevInst_default\<lparr>
     i_cost := e_cost E, i_opcode := e_opcode E, i_funct3 := e_funct3 E, i_funct2or7 := 0,
     i_rd := 0,
     i_rs1 := (if e_rs1Class E \<noteq> RegUNKNOWN then ucast (DECODE_RS1 Inst) else 0),
     i_rs2 := (if e_rs2Class E \<noteq> RegUNKNOWN then ucast (DECODE_RS2 Inst) else 0),
     i_rs3 := 0,
     i_imm := ucast ((drop_bit 19 Inst AND 0b1000000000000) OR (push_bit 4 Inst AND 0b100000000000)
       OR (drop_bit 20 Inst AND 0b11111100000) OR (drop_bit 7 Inst AND 0b11110)),
     i_instSize := 4, i_compressed := False\<rparr>"

definition DecodeJInst :: "u32 \<Rightarrow> RevInstEntry \<Rightarrow> RevInst" where
  "DecodeJInst Inst E = RevInst_default\<lparr>
     i_cost := e_cost E, i_opcode := e_opcode E, i_funct3 := e_funct3 E, i_funct2or7 := 0,
     i_rd := (if e_rdClass E \<noteq> RegUNKNOWN then ucast (DECODE_RD Inst) else 0),
     i_rs1 := 0, i_rs2 := 0, i_rs3 := 0,
     i_imm := ucast ((drop_bit 11 Inst AND 0b100000000000000000000) OR (Inst AND 0b11111111000000000000)
       OR (drop_bit 9 Inst AND 0b100000000000) OR (drop_bit 20 Inst AND 0b11111111110)),
     i_instSize := 4, i_compressed := False\<rparr>"

definition DecodeR4Inst :: "u32 \<Rightarrow> RevInstEntry \<Rightarrow> RevInst" where
  "DecodeR4Inst Inst E = RevInst_default\<lparr>
     i_cost := e_cost E, i_opcode := e_opcode E, i_funct3 := e_funct3 E,
     i_funct2or7 := ucast (DECODE_FUNCT2 Inst),
     i_rd := (if e_rdClass E \<noteq> RegUNKNOWN then ucast (DECODE_RD Inst) else 0),
     i_rs1 := (if e_rs1Class E \<noteq> RegUNKNOWN then ucast (DECODE_RS1 Inst) else 0),
     i_rs2 := (if e_rs2Class E \<noteq> RegUNKNOWN then ucast (DECODE_RS2 Inst) else 0),
     i_rs3 := (if e_rs3Class E \<noteq> RegUNKNOWN then ucast (DECODE_RS3 Inst) else 0),
     i_imm := 0, i_instSize := 4, i_compressed := False\<rparr>"

section \<open>Compressed formats\<close>

text \<open>A \<^verbatim>\<open>std::bitset\<close> filled bit by bit, from bit 0.\<close>

definition bitset :: "bool list \<Rightarrow> 'a::len word" where
  "bitset bs = horner_sum of_bool 2 bs"

text \<open>Bits \<open>m\<close> of the instruction, which is promoted before it is shifted.\<close>

definition cbits :: "u16 \<Rightarrow> u32 \<Rightarrow> u32" where
  "cbits Inst m = ucast Inst AND m"

definition DecodeCRInst :: "u16 \<Rightarrow> RevInstEntry \<Rightarrow> RevInst" where
  "DecodeCRInst Inst E =
     (let rd = ucast (DECODE_RD (ucast Inst)); rs2 = ucast (DECODE_LOWER_CRS2 (ucast Inst))
      in RevInst_default\<lparr>i_cost := e_cost E, i_opcode := e_opcode E, i_funct4 := e_funct4 E,
           i_rd := rd,
           i_rs1 := (if e_opcode E = 0b10 \<and> e_funct4 E = 0b1000 \<and> rs2 \<noteq> 0 then 0 else rd),
           i_rs2 := rs2, i_imm := 0, i_instSize := 2, i_compressed := True\<rparr>)"

definition DecodeCIInst :: "RevFeature \<Rightarrow> u16 \<Rightarrow> RevInstEntry \<Rightarrow> RevInst" where
  "DecodeCIInst F Inst E =
     (let op = e_opcode E; f3 = e_funct3 E;
          rd = ucast (DECODE_RD (ucast Inst)) :: u64;
          imm0 = ucast (DECODE_LOWER_CRS2 (ucast Inst) OR drop_bit 7 (cbits Inst 0b1000000000000)) :: u64;
          word_off = ucast (drop_bit 2 (cbits Inst 0b1110000) OR drop_bit 7 (cbits Inst 0b1000000000000)
            OR push_bit 4 (cbits Inst 1100)) :: u64;
          dword_off = ucast (drop_bit 2 (cbits Inst 0b1100000) OR drop_bit 7 (cbits Inst 0b1000000000000)
            OR push_bit 4 (cbits Inst 0b11100)) :: u64;
          addi16sp = ucast (drop_bit 2 (cbits Inst 0b1000000) OR push_bit 3 (cbits Inst 0b100)
            OR push_bit 1 (cbits Inst 0b100000) OR push_bit 4 (cbits Inst 0b11000)
            OR drop_bit 3 (cbits Inst 0b1000000000000)) :: u64;
          lui0 = ucast (push_bit 10 (cbits Inst 0b1111100) OR push_bit 5 (cbits Inst 0b1000000000000)) :: u64;
          li0 = ucast (drop_bit 2 (cbits Inst 0b1111100) OR drop_bit 7 (cbits Inst 0b1000000000000)) :: u64;
          (rs1, imm) =
            (if op = 0b10 \<and> f3 = 0b001 then (2, dword_off)
             else if op = 0b10 \<and> f3 = 0b010 then (2, word_off)
             else if op = 0b10 \<and> f3 = 0b011 then (2, if IsRV64 F then dword_off else word_off)
             else if op = 0b01 \<and> f3 = 0b011 \<and> rd = 2 then
               (2, if 0 < addi16sp AND 0b1000000000 then addi16sp OR 0b11111111111111111111111000000000 else addi16sp)
             else if op = 0b01 \<and> f3 = 0b011 \<and> rd \<noteq> 0 \<and> rd \<noteq> 2 then
               (rd, drop_bit 12 (if 0 < lui0 AND 0b100000000000000000
                                 then lui0 OR 0b11111111111111000000000000000000 else lui0))
             else if op = 0b01 \<and> f3 = 0b010 \<and> rd \<noteq> 0 then
               (0, if 0 < li0 AND 0b100000 then li0 OR 0b11111111111111111111111111000000 else li0)
             else if 0 < imm0 AND 0b100000 then (rd, imm0 OR 0b11111111111111111111111111100000)
             else (rd, imm0))
      in RevInst_default\<lparr>i_cost := e_cost E, i_opcode := op, i_funct3 := f3, i_rd := rd,
           i_rs1 := (if op = 0b01 \<and> f3 = 0b000 \<or> op = 0b10 \<and> f3 = 0b000 \<or> op = 0b01 \<and> f3 = 0b001
                     then rd else rs1),
           i_imm := imm, i_instSize := 2, i_compressed := True\<rparr>)"

definition DecodeCSSInst :: "RevFeature \<Rightarrow> u16 \<Rightarrow> RevInstEntry \<Rightarrow> RevInst" where
  "DecodeCSSInst F Inst E =
     (let f3 = e_funct3 E;
          dword_off = ucast (drop_bit 7 (cbits Inst 0b1110000000000) OR drop_bit 1 (cbits Inst 0b1110000000)) :: u64;
          word_off = ucast (drop_bit 7 (cbits Inst 0b1111000000000) OR drop_bit 1 (cbits Inst 0b110000000)) :: u64;
          (rs1, imm) =
            (if f3 = 0b101 then (2, dword_off)
             else if f3 = 0b110 then (2, word_off)
             else if f3 = 0b111 then (2, if IsRV64 F then dword_off else word_off)
             else (i_rs1 RevInst_default, ucast (drop_bit 7 (cbits Inst 0b1111110000000))))
      in RevInst_default\<lparr>i_cost := e_cost E, i_opcode := e_opcode E, i_funct3 := f3,
           i_rs2 := ucast (DECODE_LOWER_CRS2 (ucast Inst)), i_rs1 := rs1, i_imm := imm,
           i_instSize := 2, i_compressed := True\<rparr>)"

definition DecodeCIWInst :: "u16 \<Rightarrow> RevInstEntry \<Rightarrow> RevInst" where
  "DecodeCIWInst Inst E =
     (let imm = drop_bit 5 (cbits Inst 0b1111111100000);
          tmp = bitset [bit imm 1, bit imm 0, bit imm 6, bit imm 7, bit imm 2, bit imm 3, bit imm 4, bit imm 5] :: u64
      in RevInst_default\<lparr>i_cost := e_cost E, i_opcode := e_opcode E, i_funct3 := e_funct3 E,
           i_rd := CRegIdx (ucast (drop_bit 2 (cbits Inst 0b11100))),
           i_rs1 := (if e_opcode E = 0 \<and> e_funct3 E = 0 then 2 else i_rs1 RevInst_default),
           i_imm := tmp, i_instSize := 2, i_compressed := True\<rparr>)"

definition DecodeCLInst :: "RevFeature \<Rightarrow> u16 \<Rightarrow> RevInstEntry \<Rightarrow> RevInst" where
  "DecodeCLInst F Inst E =
     (let f3 = e_funct3 E;
          dword_off = ucast (push_bit 1 (cbits Inst 0b1100000) OR drop_bit 7 (cbits Inst 0b1110000000000)) :: u64;
          word_off = ucast (push_bit 1 (cbits Inst 0b100000) OR drop_bit 4 (cbits Inst 0b1000000)
            OR drop_bit 7 (cbits Inst 0b1110000000000)) :: u64;
          imm = (if f3 = 0b001 then dword_off
                 else if f3 = 0b010 then word_off
                 else if f3 = 0b011 then (if IsRV64 F then dword_off else word_off)
                 else if f3 = 0b101 then dword_off
                 else if f3 = 0b110 then word_off
                 else if f3 = 0b111 then (if IsRV64 F then dword_off else word_off)
                 else 0)
      in RevInst_default\<lparr>i_cost := e_cost E, i_opcode := e_opcode E, i_funct3 := f3,
           i_rd := CRegIdx (ucast (drop_bit 2 (cbits Inst 0b11100))),
           i_rs1 := CRegIdx (ucast (drop_bit 7 (cbits Inst 0b1110000000))),
           i_imm := imm, i_instSize := 2, i_compressed := True\<rparr>)"

definition DecodeCSInst :: "RevFeature \<Rightarrow> u16 \<Rightarrow> RevInstEntry \<Rightarrow> RevInst" where
  "DecodeCSInst F Inst E =
     RevInst_default\<lparr>i_cost := e_cost E, i_opcode := e_opcode E, i_funct3 := e_funct3 E,
       i_rs2 := CRegIdx (ucast (drop_bit 2 (cbits Inst 0b011100))),
       i_rs1 := CRegIdx (ucast (drop_bit 7 (cbits Inst 0b01110000000))),
       i_imm := ucast (
         if e_funct3 E = 0b110 then
           push_bit 1 (cbits Inst 0b0100000) OR drop_bit 6 (cbits Inst 0b01110000000000)
             OR drop_bit 4 (cbits Inst 0b01000000)
         else if IsRV32 F then
           push_bit 4 (cbits Inst 0b01000000) OR drop_bit 7 (cbits Inst 0b01110000000000)
         else
           push_bit 1 (cbits Inst 0b01100000) OR drop_bit 7 (cbits Inst 0b01110000000000)),
       i_instSize := 2, i_compressed := True\<rparr>"

definition DecodeCAInst :: "u16 \<Rightarrow> RevInstEntry \<Rightarrow> RevInst" where
  "DecodeCAInst Inst E =
     (let rd = CRegIdx (ucast (drop_bit 7 (cbits Inst 0b1110000000)))
      in RevInst_default\<lparr>i_cost := e_cost E, i_opcode := e_opcode E, i_funct2 := e_funct2 E,
           i_funct6 := e_funct6 E, i_rs2 := CRegIdx (ucast (drop_bit 2 (cbits Inst 0b11100))),
           i_rd := rd, i_rs1 := rd, i_instSize := 2, i_compressed := True\<rparr>)"

definition DecodeCBInst :: "u16 \<Rightarrow> RevInstEntry \<Rightarrow> RevInst" where
  "DecodeCBInst Inst E =
     (let op = e_opcode E; f3 = e_funct3 E;
          raw = ucast (drop_bit 7 (cbits Inst 0b1110000000)) :: u64;
          ofs = drop_bit 2 (cbits Inst 0b1111100) OR drop_bit 5 (cbits Inst 0b1110000000000);
          rs1 = CRegIdx raw;
          tmp = (if op = 0b01 \<and> 0b110 \<le> f3
                 then bitset [bit ofs 1, bit ofs 2, bit ofs 5, bit ofs 6, bit ofs 0, bit ofs 3, bit ofs 4, bit ofs 7]
                 else 0) :: u16
      in RevInst_default\<lparr>i_cost := e_cost E, i_opcode := op, i_funct3 := f3,
           i_rd := (if op = 0b01 \<and> f3 = 0b100 then rs1 else raw), i_rs1 := rs1,
           i_rs2 := (if op = 0b01 \<and> (f3 = 0b110 \<or> f3 = 0b111) then 0 else i_rs2 RevInst_default),
           i_offset := push_bit 1 tmp,
           i_imm := ucast (drop_bit 2 (cbits Inst 0b01111100) OR drop_bit 7 (cbits Inst 0b01000000000000)),
           i_instSize := 2, i_compressed := True\<rparr>)"

definition DecodeCJInst :: "u16 \<Rightarrow> RevInstEntry \<Rightarrow> RevInst" where
  "DecodeCJInst Inst E =
     (let offset = drop_bit 2 (cbits Inst 0b1111111111100);
          target = bitset [bit offset 1, bit offset 2, bit offset 3, bit offset 9, bit offset 0,
            bit offset 5, bit offset 4, bit offset 7, bit offset 8, bit offset 6, bit offset 10] :: u16
      in RevInst_default\<lparr>i_cost := e_cost E, i_opcode := e_opcode E, i_funct3 := e_funct3 E,
           i_jumpTarget := push_bit 1 target,
           i_rd := (if e_opcode E = 0b01 \<and> e_funct3 E = 0b001 then 1 else i_rd RevInst_default),
           i_instSize := 2, i_compressed := True\<rparr>)"

section \<open>Decoding\<close>

text \<open>The lookup key of a compressed instruction: its opcode and the fields its quadrant has.\<close>

definition CEnc :: "u16 \<Rightarrow> u32" where
  "CEnc Inst =
     (let opc = cbits Inst 0b11;
          l3 = drop_bit 13 (cbits Inst 0b1110000000000000);
          opSelect = drop_bit 10 (cbits Inst 0b110000000000);
          (funct2, funct3, funct4, funct6) =
            (if opc = 0b00 then (0, l3, 0, 0)
             else if opc = 0b01 then
               (if l3 \<le> 0b011 then (0, l3, 0, 0)
                else if l3 > 0b011 \<and> l3 < 0b101 then
                  (if opSelect = 0b11
                   then (drop_bit 5 (cbits Inst 0b01100000), 0, 0, drop_bit 10 (cbits Inst 0b1111110000000000))
                   else (opSelect, l3, 0, 0))
                else (0, l3, 0, 0))
             else if opc = 0b10 then
               (if l3 = 0b100 then (0, 0, drop_bit 12 (cbits Inst 0b1111000000000000), 0) else (0, l3, 0, 0))
             else (0, 0, 0, 0))
      in opc OR push_bit 2 funct2 OR push_bit 4 funct3 OR push_bit 8 funct4 OR push_bit 12 funct6)"

definition decode_cformat :: "RevFeature \<Rightarrow> u16 \<Rightarrow> RevInstEntry \<Rightarrow> RevInst result" where
  "decode_cformat F Inst E =
     (case e_format E of
        RVCTypeCR \<Rightarrow> Inr (DecodeCRInst Inst E)
      | RVCTypeCI \<Rightarrow> Inr (DecodeCIInst F Inst E)
      | RVCTypeCSS \<Rightarrow> Inr (DecodeCSSInst F Inst E)
      | RVCTypeCIW \<Rightarrow> Inr (DecodeCIWInst Inst E)
      | RVCTypeCL \<Rightarrow> Inr (DecodeCLInst F Inst E)
      | RVCTypeCS \<Rightarrow> Inr (DecodeCSInst F Inst E)
      | RVCTypeCA \<Rightarrow> Inr (DecodeCAInst Inst E)
      | RVCTypeCB \<Rightarrow> Inr (DecodeCBInst Inst E)
      | RVCTypeCJ \<Rightarrow> Inr (DecodeCJInst Inst E)
      | _ \<Rightarrow> Inl (Fatal ''failed to decode instruction format''))"

text \<open>
  \<open>coProc Inst\<close> tells whether a coprocessor is present and accepts the instruction. A
  compressed instruction it accepts is decoded with the entry of \<^verbatim>\<open>c.addi\<close>, from its own bits.
\<close>

definition DecodeCompressed :: "RevFeature \<Rightarrow> RevTables \<Rightarrow> (u32 \<Rightarrow> bool) \<Rightarrow> u32 \<Rightarrow> RevInst result" where
  "DecodeCompressed F P coProc Inst =
     (let TmpInst = ucast (Inst AND 0b1111111111111111) :: u16;
          it0 = p_CEncToEntry P (CEnc TmpInst);
          isCoProcInst = (it0 = None \<and> coProc Inst);
          it = (if isCoProcInst then p_CEncToEntry P 0b01 else it0)
      in if \<not> HasCompressed F then Inl (Fatal ''Compressed instructions not enabled'')
         else case it of
           None \<Rightarrow> Inl (Fatal ''failed to decode instruction'')
         | Some Entry \<Rightarrow>
             if length (p_InstTable P) \<le> Entry then Inl (Fatal ''no entry in table for instruction'')
             else res_bind (decode_cformat F TmpInst (p_InstTable P ! Entry)) (\<lambda>I.
               Inr (I\<lparr>i_entry := of_nat Entry, i_isCoProcInst := isCoProcInst\<rparr>)))"

text \<open>Stages 2 to 6 of \<^verbatim>\<open>DecodeInst\<close>: the fields and the lookup key of a 32-bit instruction.\<close>

definition inst42 :: "u32 \<Rightarrow> u32" where
  "inst42 Inst = drop_bit 2 (Inst AND 0b1111111) AND 0b111"

definition inst65 :: "u32 \<Rightarrow> u32" where
  "inst65 Inst = drop_bit 5 (Inst AND 0b1111111) AND 0b11"

definition enc_Funct3 :: "u32 \<Rightarrow> u32" where
  "enc_Funct3 Inst =
     (if inst42 Inst = 0b011 \<and> inst65 Inst = 0b11 then 0
      else if inst42 Inst = 0b101 \<and> inst65 Inst = 0b00 then 0
      else if inst42 Inst = 0b101 \<and> inst65 Inst = 0b01 then 0
      else drop_bit 12 (Inst AND 0b111000000000000))"

definition enc_Funct2or7 :: "u32 \<Rightarrow> u32" where
  "enc_Funct2or7 Inst =
     (let Funct3 = enc_Funct3 Inst; i42 = inst42 Inst; i65 = inst65 Inst in
      if i65 = 0b01 then
        (if i42 = 0b011 \<or> i42 = 0b100 \<or> i42 = 0b110 then
           (if Inst AND 0b1111111 = 0b0101111
            then drop_bit 2 (drop_bit 25 Inst AND 0b1111111 AND 0b01111100)
            else drop_bit 25 Inst AND 0b1111111)
         else 0)
      else if i65 = 0b10 \<and> i42 < 0b100 then DECODE_FUNCT2 Inst
      else if i65 = 0b10 \<and> i42 = 0b100 then drop_bit 25 Inst AND 0b1111111
      else if i65 = 0b00 \<and> i42 = 0b110 \<and> Funct3 \<noteq> 0 then drop_bit 25 Inst AND 0b1111111
      else if i65 = 0b00 \<and> i42 = 0b100 \<and> Funct3 = 0b101 then drop_bit 26 Inst AND 0b1111111
      else 0)"

definition enc_fcvtOp :: "u32 \<Rightarrow> u32" where
  "enc_fcvtOp Inst =
     (if Inst AND 0b1111111 = 0b1010011 \<and>
         enc_Funct2or7 Inst \<in> {0b1100000, 0b1101000, 0b0100000, 0b0100001, 0b1100001, 0b1101001}
      then DECODE_RS2 Inst else 0)"

definition enc_Imm12 :: "u32 \<Rightarrow> u32" where
  "enc_Imm12 Inst =
     (if inst42 Inst = 0b100 \<and> inst65 Inst = 0b11 \<and> enc_Funct3 Inst = 0
      then drop_bit 19 Inst AND 0b111111111111 else 0)"

definition Enc :: "u32 \<Rightarrow> u32" where
  "Enc Inst = (Inst AND 0b1111111) OR push_bit 8 (enc_Funct3 Inst) OR push_bit 11 (enc_Funct2or7 Inst)
     OR push_bit 18 (enc_Imm12 Inst) OR push_bit 30 (enc_fcvtOp Inst)"

text \<open>Stage 7: the lookup, with the second try that ignores a rounding mode.\<close>

definition find_entry :: "RevTables \<Rightarrow> u32 \<Rightarrow> nat option" where
  "find_entry P Inst =
     (case p_EncToEntry P (Enc Inst) of
        Some e \<Rightarrow> Some e
      | None \<Rightarrow>
          if inst65 Inst = 0b10 \<and> enc_Funct3 Inst \<noteq> 0b101 \<and> enc_Funct3 Inst \<noteq> 0b110
          then p_EncToEntry P (Enc Inst AND 0xfffff8ff) else None)"

definition decode_format :: "u32 \<Rightarrow> RevInstEntry \<Rightarrow> RevInst result" where
  "decode_format Inst E =
     (case e_format E of
        RVTypeR \<Rightarrow> Inr (DecodeRInst Inst E)
      | RVTypeI \<Rightarrow> Inr (DecodeIInst Inst E)
      | RVTypeS \<Rightarrow> Inr (DecodeSInst Inst E)
      | RVTypeU \<Rightarrow> Inr (DecodeUInst Inst E)
      | RVTypeB \<Rightarrow> Inr (DecodeBInst Inst E)
      | RVTypeJ \<Rightarrow> Inr (DecodeJInst Inst E)
      | RVTypeR4 \<Rightarrow> Inr (DecodeR4Inst Inst E)
      | _ \<Rightarrow> Inl (Fatal ''failed to decode instruction format''))"

text \<open>
  An instruction the coprocessor accepts is replaced by the encoding of \<^verbatim>\<open>addi x0, x0, 0\<close> with
  all other bits zero.
\<close>

definition DecodeInst :: "RevFeature \<Rightarrow> RevTables \<Rightarrow> (u32 \<Rightarrow> bool) \<Rightarrow> u32 \<Rightarrow> RevInst result" where
  "DecodeInst F P coProc Inst =
     (if NOT Inst AND 0b11 \<noteq> 0 then DecodeCompressed F P coProc Inst
      else
        let it0 = find_entry P Inst;
            claimed0 = (it0 = None \<and> coProc Inst);
            Inst1 = (if claimed0 then 0 else Inst)
        in case (if claimed0 then p_EncToEntry P 0b0010011 else it0) of
             None \<Rightarrow> Inl (Fatal ''failed to decode instruction'')
           | Some Entry0 \<Rightarrow>
               let claimed1 = (length (p_InstTable P) \<le> Entry0 \<and> coProc Inst1);
                   Inst2 = (if claimed1 then 0 else Inst1)
               in case (if claimed1 then p_EncToEntry P 0b0010011 else Some Entry0) of
                    None \<Rightarrow> Inl (Undefined ''no entry for addi'')
                  | Some Entry \<Rightarrow>
                      if length (p_InstTable P) \<le> Entry then Inl (Fatal ''no entry in table for instruction'')
                      else res_bind (decode_format Inst2 (p_InstTable P ! Entry)) (\<lambda>I.
                        Inr (I\<lparr>i_entry := of_nat Entry, i_isCoProcInst := (claimed0 \<or> claimed1)\<rparr>)))"

section \<open>Execution of a decoded instruction\<close>

definition FRMode_DYN :: u8 where
  "FRMode_DYN = 7"

text \<open>\<^verbatim>\<open>SetFPEnv\<close>: the rounding mode of the host while the instruction runs.\<close>

definition SetFPEnv :: "RevInst \<Rightarrow> RevRegFile \<Rightarrow> u8 result" where
  "SetFPEnv payload R =
     (let m = (if i_rm payload = FRMode_DYN then rf_frm R else i_rm payload) in
      if m \<le> 3 then Inr m
      else if m = 4 then Inl (Fatal ''Round to nearest Max Magnitude not implemented'')
      else Inl (Fatal ''Illegal instruction: Bad FP rounding mode''))"

definition Execute :: "RevExt \<Rightarrow> nat \<Rightarrow> RevInst \<Rightarrow> RevFeature \<Rightarrow> RevCore \<Rightarrow> (bool \<times> RevCore) result" where
  "Execute Ext Inst payload F C =
     (let func = (if i_compressed payload
                  then (if Inst < length (x_ctable Ext) then e_func (x_ctable Ext ! Inst) else None)
                  else (if Inst < length (x_table Ext) then e_func (x_table Ext ! Inst) else None))
      in case func of
           None \<Rightarrow> Inl (Fatal ''instruction does not exist in extension'')
         | Some f \<Rightarrow>
             if i_rm payload = FRMode_None then f F payload C
             else res_bind (SetFPEnv payload (c_R C)) (\<lambda>m.
               res_bind (f F payload (C\<lparr>c_round := m\<rparr>)) (\<lambda>(ret, C1).
               Inr (ret, C1\<lparr>c_round := c_round C\<rparr>))))"

section \<open>Lemmas: tables and their indices\<close>

lemma map_insert_apply [simp]:
  "map_insert k v m x = (case m x of Some y \<Rightarrow> Some y | None \<Rightarrow> if x = k then Some v else None)"
  by (auto simp: map_insert_def split: option.splits)

lemma push_entries_simps [simp]:
  "p_InstTable (push_entries ext i es P) = p_InstTable P @ es"
  "p_Extensions (push_entries ext i es P) = p_Extensions P"
  "p_EncToEntry (push_entries ext i es P) = p_EncToEntry P"
  "p_CEncToEntry (push_entries ext i es P) = p_CEncToEntry P"
  "p_NameToEntry (push_entries ext i es P) = p_NameToEntry P"
  by (induction es arbitrary: i P) simp_all

lemma EnableExt_simps [simp]:
  "p_InstTable (EnableExt F X Opt P) = p_InstTable P @ x_table X @
     (if IsModeEnabled F RV_C then x_ctable X @ (if Opt then x_otable X else []) else [])"
  "p_Extensions (EnableExt F X Opt P) = p_Extensions P @ [X]"
  "p_EncToEntry (EnableExt F X Opt P) = p_EncToEntry P"
  "p_CEncToEntry (EnableExt F X Opt P) = p_CEncToEntry P"
  "p_NameToEntry (EnableExt F X Opt P) = p_NameToEntry P"
  by (simp_all add: EnableExt_def Let_def)

lemma SeedInstTable_maps [simp]:
  "p_EncToEntry (SeedInstTable F P) = p_EncToEntry P"
  "p_CEncToEntry (SeedInstTable F P) = p_CEncToEntry P"
  by (simp_all add: SeedInstTable_def Let_def)

text \<open>The index of the first entry of a table with a property.\<close>

fun first_index :: "('a \<Rightarrow> bool) \<Rightarrow> nat \<Rightarrow> 'a list \<Rightarrow> nat option" where
  "first_index Q i [] = None"
| "first_index Q i (x # xs) = (if Q x then Some i else first_index Q (Suc i) xs)"

lemma init_mapping_simps [simp]:
  "p_InstTable (init_mapping i es P) = p_InstTable P"
  "p_Extensions (init_mapping i es P) = p_Extensions P"
  "p_EntryToExt (init_mapping i es P) = p_EntryToExt P"
  by (induction es arbitrary: i P) (simp_all add: Let_def)

lemma init_mapping_enc:
  "p_EncToEntry (init_mapping i es P) k = (case p_EncToEntry P k of Some v \<Rightarrow> Some v
     | None \<Rightarrow> first_index (\<lambda>e. \<not> e_compressed e \<and> CompressEncoding e = k) i es)"
  "p_CEncToEntry (init_mapping i es P) k = (case p_CEncToEntry P k of Some v \<Rightarrow> Some v
     | None \<Rightarrow> first_index (\<lambda>e. e_compressed e \<and> CompressCEncoding e = k) i es)"
  by (induction es arbitrary: i P) (auto simp: Let_def split: option.splits)

lemma first_index_SomeD:
  "first_index Q i xs = Some j \<Longrightarrow> i \<le> j \<and> j < i + length xs \<and> Q (xs ! (j - i))"
proof (induction xs arbitrary: i)
  case (Cons x xs)
  show ?case
  proof (cases "Q x")
    case False
    with Cons.prems have "first_index Q (Suc i) xs = Some j" by simp
    from Cons.IH [OF this] show ?thesis by (auto simp: nth_Cons' Suc_diff_le not_less_eq_eq Suc_diff_Suc)
  qed (use Cons.prems in auto)
qed simp

definition tables :: "RevFeature \<Rightarrow> RevTables" where
  "tables F = InitTableMapping (SeedInstTable F RevTables_empty)"

lemma first_index_distinct:
  assumes "distinct (map g (filter U xs))" "j < length xs" "U (xs ! j)"
  shows "first_index (\<lambda>e. U e \<and> g e = g (xs ! j)) i xs = Some (i + j)"
  using assms
proof (induction xs arbitrary: i j)
  case (Cons x xs)
  show ?case
  proof (cases j)
    case (Suc k)
    have "xs ! k \<in> set (filter U xs)" using Cons.prems Suc by auto
    then have "\<not> (U x \<and> g x = g (xs ! k))" using Cons.prems(1) by (auto split: if_splits)
    moreover have "distinct (map g (filter U xs))" using Cons.prems(1) by (simp split: if_splits)
    ultimately show ?thesis using Cons.IH [of k "Suc i"] Cons.prems(2,3) Suc by auto
  qed (use Cons.prems in simp)
qed simp

text \<open>
  What a decoder relies on from an index over a table: it returns the first selected entry with a
  key, and no two selected entries share one.
\<close>

locale entry_index =
  fixes tab :: "RevInstEntry list" and sel :: "RevInstEntry \<Rightarrow> bool" and key :: "RevInstEntry \<Rightarrow> u32"
    and idx :: "u32 \<Rightarrow> nat option"
  assumes idx_first: "idx k = first_index (\<lambda>e. sel e \<and> key e = k) 0 tab"
    and keys_unique: "distinct (map key (filter sel tab))"
begin

lemma entry_found:
  assumes "j < length tab" "sel (tab ! j)"
  shows "idx (key (tab ! j)) = Some j"
  using first_index_distinct [OF keys_unique assms, of 0] by (simp add: idx_first)

lemma key_absent: "idx k = None \<longleftrightarrow> k \<notin> set (map key (filter sel tab))"
proof -
  have "first_index Q n xs = None \<longleftrightarrow> (\<forall>x\<in>set xs. \<not> Q x)" for Q n and xs :: "RevInstEntry list"
    by (induction xs arbitrary: n) auto
  then show ?thesis by (auto simp: idx_first)
qed

lemma found_by_member:
  assumes "e \<in> set (filter sel tab)" "key e = k"
  shows "\<exists>j. j < length tab \<and> idx k = Some j \<and> tab ! j = e"
  using assms entry_found by (auto simp: in_set_conv_nth)

end

section \<open>Lemmas: from a decoded instruction to its function\<close>

text \<open>
  \<open>dispatch_ok P\<close>: the extension and index recorded for an entry of the table lead back to that
  entry, through the table \<^verbatim>\<open>Execute\<close> looks into.
\<close>

definition ext_entry :: "RevExt list \<Rightarrow> nat \<times> nat \<Rightarrow> RevInstEntry \<Rightarrow> bool" where
  "ext_entry Xs = (\<lambda>(x, j) e. x < length Xs \<and>
     (let T = (if e_compressed e then x_ctable (Xs ! x) else x_table (Xs ! x)) in j < length T \<and> T ! j = e))"

definition dispatch_ok :: "RevTables \<Rightarrow> bool" where
  "dispatch_ok P = (dom (p_EntryToExt P) = {..<length (p_InstTable P)} \<and>
     (\<forall>i<length (p_InstTable P). \<exists>xj. p_EntryToExt P i = Some xj \<and> ext_entry (p_Extensions P) xj (p_InstTable P ! i)))"

lemma ext_entry_mono: "ext_entry Xs xj e \<Longrightarrow> ext_entry (Xs @ Ys) xj e"
  by (auto simp: ext_entry_def nth_append Let_def)

lemma map_insert_fresh: "k \<notin> dom m \<Longrightarrow> map_insert k v m = m(k \<mapsto> v)"
  by (auto simp: map_insert_def)

lemma push_entries_dispatch:
  assumes "dispatch_ok P"
    and "\<And>k. k < length es \<Longrightarrow> ext_entry (p_Extensions P) (x, i + k) (es ! k)"
  shows "dispatch_ok (push_entries x i es P)"
  using assms
proof (induction es arbitrary: i P)
  case (Cons e es)
  let ?n = "length (p_InstTable P)"
  let ?Q = "P\<lparr>p_InstTable := p_InstTable P @ [e], p_EntryToExt := map_insert ?n (x, i) (p_EntryToExt P)\<rparr>"
  have d: "dom (p_EntryToExt P) = {..<?n}" using Cons.prems(1) by (simp add: dispatch_ok_def)
  have e: "ext_entry (p_Extensions P) (x, i) e" using Cons.prems(2) [of 0] by simp
  have "dispatch_ok ?Q"
    using Cons.prems(1) d e
    by (auto simp: dispatch_ok_def map_insert_fresh nth_append less_Suc_eq)
  moreover have "ext_entry (p_Extensions ?Q) (x, Suc i + k) (es ! k)" if "k < length es" for k
    using Cons.prems(2) [of "Suc k"] that by simp
  ultimately show ?case using Cons.IH [of ?Q "Suc i"] by simp
qed simp

definition ext_wf :: "RevExt \<Rightarrow> bool" where
  "ext_wf X = (list_all (\<lambda>e. \<not> e_compressed e) (x_table X) \<and> list_all e_compressed (x_ctable X))"

lemma EnableExt_dispatch:
  assumes "dispatch_ok P" "ext_wf X"
  shows "dispatch_ok (EnableExt F X False P)"
proof -
  let ?P0 = "P\<lparr>p_Extensions := p_Extensions P @ [X]\<rparr>" and ?n = "length (p_Extensions P)"
  have 0: "dispatch_ok ?P0"
    using assms(1) by (simp add: dispatch_ok_def) (metis ext_entry_mono)
  have t: "ext_entry (p_Extensions P @ [X]) (?n, 0 + k) (x_table X ! k)" if "k < length (x_table X)" for k
    using that assms(2) by (auto simp: ext_entry_def ext_wf_def list_all_length)
  have c: "ext_entry (p_Extensions P @ [X]) (?n, 0 + k) (x_ctable X ! k)" if "k < length (x_ctable X)" for k
    using that assms(2) by (auto simp: ext_entry_def ext_wf_def list_all_length)
  have 1: "dispatch_ok (push_entries ?n 0 (x_table X) ?P0)"
    by (rule push_entries_dispatch [OF 0]) (use t in simp)
  have 2: "dispatch_ok (push_entries ?n 0 (x_ctable X) (push_entries ?n 0 (x_table X) ?P0))"
    by (rule push_entries_dispatch [OF 1]) (use c in simp)
  show ?thesis using 1 2 by (simp add: EnableExt_def Let_def)
qed

lemma dispatch_empty: "dispatch_ok RevTables_empty"
  by (simp add: dispatch_ok_def RevTables_empty_def)

text \<open>How \<^verbatim>\<open>Execute\<close> calls a function: with the rounding mode of the instruction, restored afterwards.\<close>

definition call_rounded :: "inst_fun \<Rightarrow> RevInst \<Rightarrow> RevFeature \<Rightarrow> RevCore \<Rightarrow> (bool \<times> RevCore) result" where
  "call_rounded f I F C =
     (if i_rm I = FRMode_None then f F I C
      else res_bind (SetFPEnv I (c_R C)) (\<lambda>m. res_bind (f F I (C\<lparr>c_round := m\<rparr>))
        (\<lambda>(ret, C1). Inr (ret, C1\<lparr>c_round := c_round C\<rparr>))))"

lemma Execute_dispatch:
  assumes "dispatch_ok P" "i < length (p_InstTable P)" "e_func (p_InstTable P ! i) = Some f"
    "i_compressed I = e_compressed (p_InstTable P ! i)"
  shows "\<exists>x j. p_EntryToExt P i = Some (x, j) \<and> x < length (p_Extensions P) \<and>
    Execute (p_Extensions P ! x) j I F C = call_rounded f I F C"
proof -
  obtain x j where xj: "p_EntryToExt P i = Some (x, j)" "ext_entry (p_Extensions P) (x, j) (p_InstTable P ! i)"
    using assms(1,2) unfolding dispatch_ok_def by (metis surj_pair)
  then have "x < length (p_Extensions P)" by (simp add: ext_entry_def)
  moreover have "Execute (p_Extensions P ! x) j I F C = call_rounded f I F C"
    using xj(2) assms(3,4) by (simp add: ext_entry_def Execute_def call_rounded_def Let_def split: if_splits)
  ultimately show ?thesis using xj(1) by blast
qed

lemma push_entries_ext:
  assumes "dom (p_EntryToExt P) = {..<length (p_InstTable P)}"
  shows "p_EntryToExt (push_entries x i es P) = (\<lambda>n. if n < length (p_InstTable P) then p_EntryToExt P n
    else if n < length (p_InstTable P) + length es then Some (x, i + (n - length (p_InstTable P))) else None)"
  using assms
proof (induction es arbitrary: i P)
  case Nil
  then show ?case by (auto simp: dom_def fun_eq_iff) 
next
  case (Cons e es)
  let ?n = "length (p_InstTable P)"
  let ?Q = "P\<lparr>p_InstTable := p_InstTable P @ [e], p_EntryToExt := map_insert ?n (x, i) (p_EntryToExt P)\<rparr>"
  have f: "p_EntryToExt ?Q = (p_EntryToExt P)(?n \<mapsto> (x, i))" using Cons.prems by (simp add: map_insert_fresh)
  then have "dom (p_EntryToExt ?Q) = {..<length (p_InstTable ?Q)}" using Cons.prems by auto
  from Cons.IH [OF this, of "Suc i"] f show ?case by (auto simp: fun_eq_iff)
qed

definition ext_dom :: "RevTables \<Rightarrow> bool" where
  "ext_dom P = (dom (p_EntryToExt P) = {..<length (p_InstTable P)})"

definition tables_le :: "RevTables \<Rightarrow> RevTables \<Rightarrow> bool" where
  "tables_le P Q = (ext_dom Q \<and> (\<exists>es. p_InstTable Q = p_InstTable P @ es) \<and> (\<exists>Xs. p_Extensions Q = p_Extensions P @ Xs) \<and>
     (\<forall>n<length (p_InstTable P). p_EntryToExt Q n = p_EntryToExt P n))"

lemma tables_le_trans: "tables_le P Q \<Longrightarrow> tables_le Q R \<Longrightarrow> tables_le P R"
  unfolding tables_le_def by (metis append.assoc length_append trans_less_add1)

lemma push_entries_le: "ext_dom P \<Longrightarrow> tables_le P (push_entries x i es P)"
proof -
  assume d: "ext_dom P"
  then have "n \<in> dom (p_EntryToExt P) \<longleftrightarrow> n < length (p_InstTable P)" for n by (simp add: ext_dom_def)
  with d show ?thesis
    by (auto simp: tables_le_def ext_dom_def push_entries_ext dom_def set_eq_iff)
qed

lemma EnableExt_le:
  assumes "ext_dom P" shows "tables_le P (EnableExt F X Opt P)"
proof -
  let ?P0 = "P\<lparr>p_Extensions := p_Extensions P @ [X]\<rparr>"
  have 0: "tables_le P ?P0" "ext_dom ?P0" using assms by (simp_all add: tables_le_def ext_dom_def)
  have step: "tables_le P (push_entries x i es Q)" if "tables_le P Q" for x i es Q
    using tables_le_trans [OF that push_entries_le] that by (simp add: tables_le_def)
  show ?thesis using 0 step by (simp add: EnableExt_def Let_def)
qed

lemma EnableExt_le_step: "tables_le P Q \<Longrightarrow> tables_le P (EnableExt F X Opt Q)"
proof -
  assume "tables_le P Q"
  moreover from this have "ext_dom Q" by (simp add: tables_le_def)
  ultimately show ?thesis by (blast intro: tables_le_trans EnableExt_le)
qed

lemma tables_le_refl: "ext_dom P \<Longrightarrow> tables_le P P"
  by (simp add: tables_le_def)

section \<open>Lemmas: operands\<close>

text \<open>
  Where the ISA manual puts the bits of an immediate: pairs of a position in the instruction and
  the bit of the immediate it carries. \<open>gather\<close> is the immediate an instruction encodes.
\<close>

definition gather :: "(nat \<times> nat) list \<Rightarrow> 'a::len word \<Rightarrow> u64" where
  "gather fs w = foldr (\<lambda>(d, s) x. push_bit s (of_bool (bit w d)) OR x) fs 0"

definition imm_I :: "(nat \<times> nat) list" where
  "imm_I = [(20, 0), (21, 1), (22, 2), (23, 3), (24, 4), (25, 5), (26, 6), (27, 7), (28, 8), (29, 9), (30, 10), (31, 11)]"

definition imm_S :: "(nat \<times> nat) list" where
  "imm_S = [(7, 0), (8, 1), (9, 2), (10, 3), (11, 4), (25, 5), (26, 6), (27, 7), (28, 8), (29, 9), (30, 10), (31, 11)]"

definition imm_B :: "(nat \<times> nat) list" where
  "imm_B = [(8, 1), (9, 2), (10, 3), (11, 4), (25, 5), (26, 6), (27, 7), (28, 8), (29, 9), (30, 10), (7, 11), (31, 12)]"

definition imm_U :: "(nat \<times> nat) list" where
  "imm_U = [(12, 0), (13, 1), (14, 2), (15, 3), (16, 4), (17, 5), (18, 6), (19, 7), (20, 8), (21, 9), (22, 10),
     (23, 11), (24, 12), (25, 13), (26, 14), (27, 15), (28, 16), (29, 17), (30, 18), (31, 19)]"

definition imm_J :: "(nat \<times> nat) list" where
  "imm_J = [(21, 1), (22, 2), (23, 3), (24, 4), (25, 5), (26, 6), (27, 7), (28, 8), (29, 9), (30, 10), (20, 11),
     (12, 12), (13, 13), (14, 14), (15, 15), (16, 16), (17, 17), (18, 18), (19, 19), (31, 20)]"

lemmas imm_formats = imm_I_def imm_U_def imm_S_def imm_B_def imm_J_def

lemma gather_Nil: "gather [] w = 0" 
  and gather_Cons: "gather ((d, s) # fs) w = push_bit s (of_bool (bit w d)) OR gather fs w"
  by (simp_all add: gather_def)

lemma DecodeBInst_imm: "i_imm (DecodeBInst w E) = gather imm_B w"
  by (simp add: gather_Nil gather_Cons imm_formats DecodeBInst_def word_enum bit_simps)

lemma DecodeJInst_imm: "i_imm (DecodeJInst w E) = gather imm_J w"
  by (simp add: gather_Nil gather_Cons imm_formats DecodeJInst_def word_enum bit_simps)

lemma DecodeSInst_imm: "i_imm (DecodeSInst w E) = gather imm_S w"
  by (simp add: gather_Nil gather_Cons imm_formats DecodeSInst_def DECODE_defs word_enum bit_simps)

lemma DecodeIInst_imm: "i_imm (DecodeIInst w E) = gather imm_I w"
  by (simp add: gather_Nil gather_Cons imm_formats DecodeIInst_def DECODE_defs word_enum bit_simps)

lemma DecodeUInst_imm: "i_imm (DecodeUInst w E) = gather imm_U w"
  by (simp add: gather_Nil gather_Cons imm_formats DecodeUInst_def DECODE_defs word_enum bit_simps)

lemma field_bound: "ucast (x AND 0b11111 :: u32) < (32 :: u64)"
proof -
  have "ucast (x AND 0b11111 :: u32) = take_bit 5 (ucast x :: u64)"
    by (simp add: word_enum bit_simps)
  moreover have "unat (take_bit 5 (ucast x :: u64)) < 32"
    using take_bit_nat_less_exp [of 5 "unat (ucast x :: u64)"] by (simp add: unsigned_take_bit_eq)
  ultimately show ?thesis by (simp add: word_less_nat_alt)
qed

lemmas field_bounds = field_bound [of "drop_bit 7 w" for w] field_bound [of "drop_bit 15 w" for w] field_bound [of "drop_bit 20 w" for w]
  field_bound [of "drop_bit 27 w" for w]

lemma decode_format_size:
  assumes "decode_format w E = Inr I"
  shows "i_instSize I = 4" "\<not> i_compressed I" "i_cost I = e_cost E" "i_rd I < 32"
    "i_rm I = DECODE_RM w \<or> i_rm I = FRMode_None"
  using assms field_bounds [folded DECODE_RD_def DECODE_RS1_def DECODE_RS2_def DECODE_RS3_def]
  by (auto simp: decode_format_def DecodeRInst_def DecodeIInst_def DecodeSInst_def DecodeUInst_def DecodeBInst_def
      DecodeJInst_def DecodeR4Inst_def RevInst_default_def Let_def split: RevInstF.splits if_splits)

text \<open>
  C14: Every 32-bit format is decoded into the operands the ISA manual lays out: the immediate of an
  I, S, B, U or J instruction is gathered from exactly the bits of that format, a register index is
  its field when the format and the table entry have that register and zero otherwise, every index
  is below 32 (so the register file is never indexed out of range), and the size is four bytes.
\<close>

theorem decode_format_operands:
  assumes "decode_format w E = Inr I"
  shows "(e_format E = RVTypeI \<longrightarrow> i_imm I = gather imm_I w) \<and>
    (e_format E = RVTypeS \<longrightarrow> i_imm I = gather imm_S w) \<and>
    (e_format E = RVTypeB \<longrightarrow> i_imm I = gather imm_B w) \<and>
    (e_format E = RVTypeU \<longrightarrow> i_imm I = gather imm_U w) \<and>
    (e_format E = RVTypeJ \<longrightarrow> i_imm I = gather imm_J w) \<and>
    i_rd I = (if e_format E \<in> {RVTypeR, RVTypeI, RVTypeU, RVTypeJ, RVTypeR4} \<and> e_rdClass E \<noteq> RegUNKNOWN
      then ucast (DECODE_RD w) else 0) \<and>
    i_rs1 I = (if e_format E \<in> {RVTypeR, RVTypeI, RVTypeS, RVTypeB, RVTypeR4} \<and> e_rs1Class E \<noteq> RegUNKNOWN
      then ucast (DECODE_RS1 w) else 0) \<and>
    i_rs2 I = (if e_format E \<in> {RVTypeR, RVTypeS, RVTypeB, RVTypeR4} \<and> e_rs2Class E \<noteq> RegUNKNOWN
      then ucast (DECODE_RS2 w) else 0) \<and>
    i_rs3 I = (if e_format E = RVTypeR4 \<and> e_rs3Class E \<noteq> RegUNKNOWN then ucast (DECODE_RS3 w) else 0) \<and>
    i_rd I < 32 \<and> i_rs1 I < 32 \<and> i_rs2 I < 32 \<and> i_rs3 I < 32 \<and> i_instSize I = 4 \<and> \<not> i_compressed I"
proof -
  note b = field_bounds [folded DECODE_RD_def DECODE_RS1_def DECODE_RS2_def DECODE_RS3_def]
  consider "e_format E = RVTypeR" "I = DecodeRInst w E" | "e_format E = RVTypeI" "I = DecodeIInst w E"
    | "e_format E = RVTypeS" "I = DecodeSInst w E" | "e_format E = RVTypeU" "I = DecodeUInst w E"
    | "e_format E = RVTypeB" "I = DecodeBInst w E" | "e_format E = RVTypeJ" "I = DecodeJInst w E"
    | "e_format E = RVTypeR4" "I = DecodeR4Inst w E"
    using assms by (simp add: decode_format_def split: RevInstF.splits)
  then show ?thesis
  proof cases
    case 1 then show ?thesis by (simp add: DecodeRInst_def b)
  next
    case 2 then show ?thesis by (simp add: DecodeIInst_imm) (simp add: DecodeIInst_def b RevInst_default_def)
  next
    case 3 then show ?thesis by (simp add: DecodeSInst_imm) (simp add: DecodeSInst_def b)
  next
    case 4 then show ?thesis by (simp add: DecodeUInst_imm) (simp add: DecodeUInst_def b)
  next
    case 5 then show ?thesis by (simp add: DecodeBInst_imm) (simp add: DecodeBInst_def b)
  next
    case 6 then show ?thesis by (simp add: DecodeJInst_imm) (simp add: DecodeJInst_def b)
  next
    case 7 then show ?thesis by (simp add: DecodeR4Inst_def b)
  qed
qed

theorem decode_format_operands_witness:
  "\<exists>I. decode_format 0xFE208EE3 (RV32ITable ! 4) = Inr I \<and> i_imm I = 0x1FFC \<and> i_rs1 I = 1 \<and> i_rs2 I = 2 \<and> i_rd I < 32"
proof -
  let ?E = "RV32ITable ! 4"
  have E: "e_format ?E = RVTypeB" "e_rs1Class ?E = RegGPR" "e_rs2Class ?E = RegGPR"
    by (simp_all add: RV32ITable_def RevInstDefaults_def)
  then obtain I where I: "decode_format 0xFE208EE3 ?E = Inr I" by (simp add: decode_format_def)
  show ?thesis using decode_format_operands [OF I] I E
    by (simp add: gather_Nil gather_Cons imm_B_def DECODE_defs)
qed

definition imm_CLW :: "(nat \<times> nat) list" where "imm_CLW = [(6, 2), (10, 3), (11, 4), (12, 5), (5, 6)]"
definition imm_CLD :: "(nat \<times> nat) list" where "imm_CLD = [(10, 3), (11, 4), (12, 5), (5, 6), (6, 7)]"
definition imm_CLWSP :: "(nat \<times> nat) list" where "imm_CLWSP = [(4, 2), (5, 3), (6, 4), (12, 5), (2, 6), (3, 7)]"
definition imm_CLDSP :: "(nat \<times> nat) list" where "imm_CLDSP = [(5, 3), (6, 4), (12, 5), (2, 6), (3, 7), (4, 8)]"
definition imm_CSWSP :: "(nat \<times> nat) list" where "imm_CSWSP = [(9, 2), (10, 3), (11, 4), (12, 5), (7, 6), (8, 7)]"
definition imm_CSDSP :: "(nat \<times> nat) list" where "imm_CSDSP = [(10, 3), (11, 4), (12, 5), (7, 6), (8, 7), (9, 8)]"
definition imm_CIW :: "(nat \<times> nat) list" where
  "imm_CIW = [(6, 2), (5, 3), (11, 4), (12, 5), (7, 6), (8, 7), (9, 8), (10, 9)]"
definition imm_CB :: "(nat \<times> nat) list" where
  "imm_CB = [(3, 1), (4, 2), (10, 3), (11, 4), (2, 5), (5, 6), (6, 7), (12, 8)]"
definition imm_CJ :: "(nat \<times> nat) list" where
  "imm_CJ = [(3, 1), (4, 2), (5, 3), (11, 4), (2, 5), (7, 6), (6, 7), (9, 8), (10, 9), (8, 10), (12, 11)]"

lemmas imm_cformats = imm_CLW_def imm_CLD_def imm_CLWSP_def imm_CLDSP_def imm_CSWSP_def imm_CSDSP_def
  imm_CIW_def imm_CB_def imm_CJ_def

lemma bit_bitset: "bit (bitset bs :: 'a::len word) n \<longleftrightarrow> n < LENGTH('a) \<and> n < length bs \<and> bs ! n"
  by (simp add: bitset_def bit_horner_sum_bit_word_iff)

lemma bit_times_2: "bit (x * 2) n \<longleftrightarrow> 0 < n \<and> n < LENGTH('a) \<and> bit x (n - 1)" for x :: "'a::len word"
  by (simp add: bit_double_iff mult.commute [of _ 2]) auto

lemmas gather_eval = bit_times_2 gather_Nil gather_Cons imm_cformats cbits_def bit_bitset word_enum bit_simps

lemma clw_imm: "e_funct3 E = 0b010 \<Longrightarrow> i_imm (DecodeCLInst F w E) = gather imm_CLW w"
  by (simp add: DecodeCLInst_def Let_def) (simp add: gather_eval)

lemma cld_imm: "e_funct3 E = 0b011 \<Longrightarrow> IsRV64 F \<Longrightarrow> i_imm (DecodeCLInst F w E) = gather imm_CLD w"
  by (simp add: DecodeCLInst_def Let_def) (simp add: gather_eval)

lemma csd_imm: "e_funct3 E = 0b111 \<Longrightarrow> IsRV64 F \<Longrightarrow> i_imm (DecodeCSInst F w E) = gather imm_CLD w"
  by (simp add: DecodeCSInst_def Let_def IsRV32_def IsRV64_def) (simp add: gather_eval)

lemma cswsp_imm: "e_funct3 E = 0b110 \<Longrightarrow> i_imm (DecodeCSSInst F w E) = gather imm_CSWSP w"
  by (simp add: DecodeCSSInst_def Let_def) (simp add: gather_eval)

lemma csdsp_imm: "e_funct3 E = 0b111 \<Longrightarrow> IsRV64 F \<Longrightarrow> i_imm (DecodeCSSInst F w E) = gather imm_CSDSP w"
  by (simp add: DecodeCSSInst_def Let_def) (simp add: gather_eval)

lemma clwsp_imm: "e_opcode E = 0b10 \<Longrightarrow> e_funct3 E = 0b010 \<Longrightarrow>
    i_imm (DecodeCIInst F w E) AND 0xFF = gather imm_CLWSP w"
  by (simp add: DecodeCIInst_def Let_def) (simp add: gather_eval)

lemma cldsp_imm: "e_opcode E = 0b10 \<Longrightarrow> e_funct3 E = 0b011 \<Longrightarrow> IsRV64 F \<Longrightarrow>
    i_imm (DecodeCIInst F w E) = gather imm_CLDSP w"
  by (simp add: DecodeCIInst_def Let_def) (simp add: gather_eval)

lemma ciw_imm: "i_imm (DecodeCIWInst w E) = drop_bit 2 (gather imm_CIW w)"
  by (simp add: DecodeCIWInst_def Let_def) (simp add: gather_eval)

lemma cb_imm: "e_opcode E = 0b01 \<Longrightarrow> 0b110 \<le> e_funct3 E \<Longrightarrow>
    ucast (i_offset (DecodeCBInst w E)) = gather imm_CB w"
  by (simp add: DecodeCBInst_def Let_def) (simp add: gather_eval)

lemma cj_imm: "ucast (i_jumpTarget (DecodeCJInst w E)) = gather imm_CJ w"
  by (simp add: DecodeCJInst_def Let_def) (simp add: gather_eval)

text \<open>
  The offset of c.sw is decoded one bit too high: it is the offset the ISA manual gives exactly
  when offset bits 5 to 3 are zero, so a c.sw with an offset of 8 or more stores at the wrong address.
\<close>

lemma csw_offset_wrong:
  "e_funct3 E = 0b110 \<Longrightarrow>
    i_imm (DecodeCSInst F w E) = gather imm_CLW w \<longleftrightarrow> \<not> bit w 10 \<and> \<not> bit w 11 \<and> \<not> bit w 12"
  by (simp add: DecodeCSInst_def, simp add: gather_eval) blast

lemma csw_offset_wrong_witness:
  "i_imm (DecodeCSInst feature_RV64GC 0xC400 (RV32ICTable ! 4)) \<noteq> gather imm_CLW (0xC400 :: u16)"
proof -
  have "e_funct3 (RV32ICTable ! 4) = 0b110" by (simp add: RV32ICTable_def RevInstDefaults_def)
  from csw_offset_wrong [OF this, of feature_RV64GC "0xC400"] show ?thesis by simp
qed


lemma cfld_imm: "e_funct3 E = 0b001 \<Longrightarrow> i_imm (DecodeCLInst F w E) = gather imm_CLD w"
  by (simp add: DecodeCLInst_def Let_def) (simp add: gather_eval)

lemma cfsd_imm: "e_funct3 E = 0b101 \<Longrightarrow> IsRV64 F \<Longrightarrow> i_imm (DecodeCSInst F w E) = gather imm_CLD w"
  by (simp add: DecodeCSInst_def Let_def IsRV32_def IsRV64_def) (simp add: gather_eval)

lemma cfldsp_imm: "e_opcode E = 0b10 \<Longrightarrow> e_funct3 E = 0b001 \<Longrightarrow> i_imm (DecodeCIInst F w E) = gather imm_CLDSP w"
  by (simp add: DecodeCIInst_def Let_def) (simp add: gather_eval)

lemma cfsdsp_imm: "e_funct3 E = 0b101 \<Longrightarrow> i_imm (DecodeCSSInst F w E) = gather imm_CSDSP w"
  by (simp add: DecodeCSSInst_def Let_def) (simp add: gather_eval)

text \<open>The formats with three registers to read take no rounding mode from the instruction.\<close>

lemma R4_rounding_mode: "i_rm (DecodeR4Inst w E) = FRMode_None"
  by (simp add: DecodeR4Inst_def RevInst_default_def)

text \<open>
  C15: On an RV64 core the decoders of the compressed loads and stores of words and double words (c.lw, c.ld,
  c.fld, c.sd, c.fsd), of the accesses relative to the stack pointer (c.swsp, c.sdsp, c.fsdsp, c.ldsp,
  c.fldsp), of branches and of jumps gather the offset from the bits the ISA manual gives, already
  scaled. Three differ: the offset of c.sw is the one of the manual exactly when its bits 5 to 3 are
  zero, the offset of c.lwsp is right in its low eight bits, which are the ones its function keeps, and
  the immediate of c.addi4spn is decoded unscaled.
\<close>

theorem compressed_immediates:
  assumes "IsRV64 F" and "decode_cformat F w E = Inr I"
  shows "(e_format E = RVCTypeCL \<and> e_funct3 E = 0b010 \<longrightarrow> i_imm I = gather imm_CLW w) \<and>
    (e_format E = RVCTypeCL \<and> e_funct3 E \<in> {0b001, 0b011} \<longrightarrow> i_imm I = gather imm_CLD w) \<and>
    (e_format E = RVCTypeCS \<and> e_funct3 E \<in> {0b101, 0b111} \<longrightarrow> i_imm I = gather imm_CLD w) \<and>
    (e_format E = RVCTypeCS \<and> e_funct3 E = 0b110 \<longrightarrow>
      i_imm I = gather imm_CLW w \<longleftrightarrow> \<not> bit w 10 \<and> \<not> bit w 11 \<and> \<not> bit w 12) \<and>
    (e_format E = RVCTypeCSS \<and> e_funct3 E = 0b110 \<longrightarrow> i_imm I = gather imm_CSWSP w) \<and>
    (e_format E = RVCTypeCSS \<and> e_funct3 E \<in> {0b101, 0b111} \<longrightarrow> i_imm I = gather imm_CSDSP w) \<and>
    (e_format E = RVCTypeCI \<and> e_opcode E = 0b10 \<and> e_funct3 E = 0b010 \<longrightarrow> i_imm I AND 0xFF = gather imm_CLWSP w) \<and>
    (e_format E = RVCTypeCI \<and> e_opcode E = 0b10 \<and> e_funct3 E \<in> {0b001, 0b011} \<longrightarrow> i_imm I = gather imm_CLDSP w) \<and>
    (e_format E = RVCTypeCIW \<longrightarrow> i_imm I = drop_bit 2 (gather imm_CIW w)) \<and>
    (e_format E = RVCTypeCB \<and> e_opcode E = 0b01 \<and> 0b110 \<le> e_funct3 E \<longrightarrow> ucast (i_offset I) = gather imm_CB w) \<and>
    (e_format E = RVCTypeCJ \<longrightarrow> ucast (i_jumpTarget I) = gather imm_CJ w)"
  using assms clw_imm cld_imm cfld_imm csd_imm cfsd_imm csw_offset_wrong cswsp_imm csdsp_imm cfsdsp_imm clwsp_imm cldsp_imm cfldsp_imm
    ciw_imm cb_imm cj_imm
  by (auto simp: decode_cformat_def)

text \<open>A branch forward by 12 bytes.\<close>

theorem compressed_immediates_witness:
  "\<exists>I. decode_cformat feature_RV64GC 0xE411 (RV32ICTable ! 9) = Inr I \<and> ucast (i_offset I) = (12 :: u64)"
proof -
  let ?E = "RV32ICTable ! 9"
  have E: "e_format ?E = RVCTypeCB" "e_opcode ?E = 1" "e_funct3 ?E = 7" "IsRV64 feature_RV64GC"
    by (simp_all add: RV32ICTable_def RevInstDefaults_def IsRV64_def feature_RV64GC_def)
  then obtain I where I: "decode_cformat feature_RV64GC 0xE411 ?E = Inr I" by (simp add: decode_cformat_def)
  have "gather imm_CB (0xE411 :: u16) = (12 :: u64)" by (simp add: gather_Nil gather_Cons imm_CB_def)
  then show ?thesis using compressed_immediates [OF E(4) I] I E by simp
qed

end
