(* ===== verification/Rev_ISA.thy ===== *)
theory Rev_ISA
  imports Rev_Decode
begin

text \<open>
  The decoder against the ISA manual. The theory lists the 32-bit and compressed instructions of
  RV64GC with their fixed bits, their format and the function that implements them, and shows that
  every word that carries these bits is decoded to, and executed by, that function. The encodings
  that the decoder misses or sends to another function are stated at the end.
\<close>

section \<open>The lookup key of a 32-bit instruction\<close>

text \<open>The bits of an instruction that its lookup key depends on, by field.\<close>

definition mask_f3 :: "u32 \<Rightarrow> u32" where
  "mask_f3 c = (let i42 = inst42 c; i65 = inst65 c in
     if i42 = 3 \<and> i65 = 3 \<or> i42 = 5 \<and> i65 = 0 \<or> i42 = 5 \<and> i65 = 1 then 0 else 0x7000)"

definition mask_f7 :: "u32 \<Rightarrow> u32" where
  "mask_f7 c = (let i42 = inst42 c; i65 = inst65 c; f3 = enc_Funct3 c in
     if i65 = 1 \<and> (i42 = 3 \<or> i42 = 4 \<or> i42 = 6) then (if c AND 0x7F = 0x2F then 0xF8000000 else 0xFE000000)
     else if i65 = 2 \<and> i42 < 4 then 0x06000000
     else if i65 = 2 \<and> i42 = 4 \<or> i65 = 0 \<and> i42 = 6 \<and> f3 \<noteq> 0 then 0xFE000000
     else if i65 = 0 \<and> i42 = 4 \<and> f3 = 5 then 0xFC000000
     else 0)"

definition mask_rs2 :: "u32 \<Rightarrow> u32" where
  "mask_rs2 c = (if c AND 0x7F = 0x53 \<and> enc_Funct2or7 c \<in> {0x60, 0x68, 0x20, 0x21, 0x61, 0x69}
     then 0x01F00000 else 0)"

definition mask_imm :: "u32 \<Rightarrow> u32" where
  "mask_imm c = (if inst42 c = 4 \<and> inst65 c = 3 \<and> enc_Funct3 c = 0 then 0x7FF80000 else 0)"

definition enc_mask :: "u32 \<Rightarrow> u32" where
  "enc_mask c = 0x7F OR mask_f3 c OR mask_f7 c OR mask_rs2 c OR mask_imm c"

lemma and_submask:
  fixes w c m n :: "'a::len word"
  assumes "w AND m = c AND m" "n AND m = n" shows "w AND n = c AND n"
  using assms by (metis and.assoc and.commute)

lemma masked_field:
  fixes w c :: u32
  assumes "w AND m = c AND m" "drop_bit n m = k"
  shows "drop_bit n w AND k = drop_bit n c AND k"
  using arg_cong [OF assms(1), of "drop_bit n"] assms(2) by simp

lemma enc_Funct2or7_cases:
  "enc_Funct2or7 c =
     (if inst65 c = 1 then
        (if inst42 c = 3 \<or> inst42 c = 4 \<or> inst42 c = 6 then
           (if c AND 0x7F = 0x2F then drop_bit 27 c AND 0x1F else drop_bit 25 c AND 0x7F) else 0)
      else if inst65 c = 2 \<and> inst42 c < 4 then drop_bit 25 c AND 3
      else if inst65 c = 2 \<and> inst42 c = 4 \<or> inst65 c = 0 \<and> inst42 c = 6 \<and> enc_Funct3 c \<noteq> 0
        then drop_bit 25 c AND 0x7F
      else if inst65 c = 0 \<and> inst42 c = 4 \<and> enc_Funct3 c = 5 then drop_bit 26 c AND 0x3F else 0)"
proof -
  have "drop_bit 2 (drop_bit 25 c AND 0x7F AND 0x7C) = drop_bit 27 c AND 0x1F"
    "drop_bit 26 c AND 0x7F = drop_bit 26 c AND 0x3F"
    by (simp_all add: word_enum bit_simps)
  then show ?thesis unfolding enc_Funct2or7_def Let_def DECODE_FUNCT2_def by simp
qed

lemma mask_f7_cong:
  assumes "w AND mask_f7 c = c AND mask_f7 c" "inst65 w = inst65 c" "inst42 w = inst42 c"
    "enc_Funct3 w = enc_Funct3 c" "w AND 0x7F = c AND 0x7F"
  shows "enc_Funct2or7 w = enc_Funct2or7 c"
proof -
  have d: "w AND 0xF8000000 = c AND 0xF8000000 \<Longrightarrow> drop_bit 27 w AND 0x1F = drop_bit 27 c AND 0x1F"
    "w AND 0xFE000000 = c AND 0xFE000000 \<Longrightarrow> drop_bit 25 w AND 0x7F = drop_bit 25 c AND 0x7F"
    "w AND 0x06000000 = c AND 0x06000000 \<Longrightarrow> drop_bit 25 w AND 3 = drop_bit 25 c AND 3"
    "w AND 0xFC000000 = c AND 0xFC000000 \<Longrightarrow> drop_bit 26 w AND 0x3F = drop_bit 26 c AND 0x3F"
    by (rule masked_field, assumption, simp)+
  consider "inst65 c = 1" | "inst65 c = 2" | "inst65 c = 0" | "inst65 c \<noteq> 0" "inst65 c \<noteq> 1" "inst65 c \<noteq> 2"
    by blast
  then show ?thesis
    using assms(1) d unfolding enc_Funct2or7_cases [of w] enc_Funct2or7_cases [of c] assms(2-5) mask_f7_def Let_def
    by cases (auto split: if_splits)
qed

lemma Enc_cong:
  assumes "w AND enc_mask c = c AND enc_mask c"
  shows "Enc w = Enc c" "inst65 w = inst65 c" "enc_Funct3 w = enc_Funct3 c"
proof -
  have sub: "w AND n = c AND n" if "n AND enc_mask c = n" for n using and_submask [OF assms that] .
  have op: "w AND 0x7F = c AND 0x7F" and m3: "w AND mask_f3 c = c AND mask_f3 c"
    and m7: "w AND mask_f7 c = c AND mask_f7 c" and mr: "w AND mask_rs2 c = c AND mask_rs2 c"
    and mi: "w AND mask_imm c = c AND mask_imm c"
    by (rule sub; auto simp: enc_mask_def bit_simps intro!: bit_word_eqI)+
  have i: "inst42 w = inst42 c" "inst65 w = inst65 c" using op by (simp_all add: inst42_def inst65_def)
  have "drop_bit 12 w AND 7 = drop_bit 12 c AND 7" if "w AND 0x7000 = c AND 0x7000"
    using arg_cong [OF that, of "drop_bit 12"] by simp
  then have f3: "enc_Funct3 w = enc_Funct3 c"
    using m3 i unfolding enc_Funct3_def mask_f3_def Let_def by (simp split: if_splits) blast
  have f7: "enc_Funct2or7 w = enc_Funct2or7 c" by (rule mask_f7_cong [OF m7 i(2,1) f3 op])
  have r: "drop_bit 20 w AND 0x1F = drop_bit 20 c AND 0x1F" if "w AND 0x01F00000 = c AND 0x01F00000"
    using masked_field [OF that, of 20 "0x1F"] by simp
  have fc: "enc_fcvtOp w = enc_fcvtOp c"
    using mr r unfolding enc_fcvtOp_def mask_rs2_def DECODE_RS2_def op f7
    by (cases "c AND 0x7F = 0x53 \<and> enc_Funct2or7 c \<in> {0x60, 0x68, 0x20, 0x21, 0x61, 0x69}") (simp_all only: if_True if_False simp_thms)
  have r: "drop_bit 19 w AND 0xFFF = drop_bit 19 c AND 0xFFF" if "w AND 0x7FF80000 = c AND 0x7FF80000"
    using masked_field [OF that, of 19 "0xFFF"] by simp
  have im: "enc_Imm12 w = enc_Imm12 c"
    using mi r unfolding enc_Imm12_def mask_imm_def i f3
    by (cases "inst42 c = 4 \<and> inst65 c = 3 \<and> enc_Funct3 c = 0") (simp_all only: if_True if_False simp_thms)
  show "Enc w = Enc c" by (simp add: Enc_def op f3 f7 fc im)
  show "inst65 w = inst65 c" by (rule i)
  show "enc_Funct3 w = enc_Funct3 c" by (rule f3)
qed

text \<open>
  The lookup key and its mask for a given word, with the fields that select the format computed
  once.
\<close>

lemma Enc_eval:
  assumes "c AND 0x7F = op" "drop_bit 2 op AND 7 = i42" "drop_bit 5 op AND 3 = i65" "enc_Funct3 c = f3"
    "enc_Funct2or7 c = f7"
  shows "Enc c = op OR push_bit 8 f3 OR push_bit 11 f7 OR
    push_bit 18 (if i42 = 4 then if i65 = 3 \<and> f3 = 0 then drop_bit 19 c AND 0xFFF else 0 else 0) OR
    push_bit 30 (if op = 0x53 then if f7 \<in> {0x60, 0x68, 0x20, 0x21, 0x61, 0x69} then drop_bit 20 c AND 31 else 0 else 0)"
  using assms by (simp add: Enc_def enc_Imm12_def enc_fcvtOp_def inst42_def inst65_def DECODE_RS2_def)

lemma enc_mask_eval:
  assumes "c AND 0x7F = op" "drop_bit 2 op AND 7 = i42" "drop_bit 5 op AND 3 = i65" "enc_Funct3 c = f3"
  shows "enc_mask c = 0x7F OR
    (if i42 = 3 then if i65 = 3 then 0 else 0x7000
     else if i42 = 5 then if i65 = 0 \<or> i65 = 1 then 0 else 0x7000 else 0x7000) OR
    (if i65 = 1 then if i42 = 3 \<or> i42 = 4 \<or> i42 = 6 then if op = 0x2F then 0xF8000000 else 0xFE000000 else 0
     else if i65 = 2 then if i42 < 4 then 0x06000000 else if i42 = 4 then 0xFE000000 else 0
     else if i65 = 0 then if i42 = 6 then if f3 \<noteq> 0 then 0xFE000000 else 0
       else if i42 = 4 then if f3 = 5 then 0xFC000000 else 0 else 0
     else 0) OR
    (if op = 0x53 then if enc_Funct2or7 c \<in> {0x60, 0x68, 0x20, 0x21, 0x61, 0x69} then 0x01F00000 else 0 else 0) OR
    (if i42 = 4 then if i65 = 3 \<and> f3 = 0 then 0x7FF80000 else 0 else 0)"
proof -
  have "inst42 c = i42" "inst65 c = i65" using assms by (simp_all add: inst42_def inst65_def)
  then have "mask_f3 c = (if i42 = 3 then if i65 = 3 then 0 else 0x7000
      else if i42 = 5 then if i65 = 0 \<or> i65 = 1 then 0 else 0x7000 else 0x7000)"
    "mask_f7 c = (if i65 = 1 then if i42 = 3 \<or> i42 = 4 \<or> i42 = 6 then if op = 0x2F then 0xF8000000 else 0xFE000000 else 0
     else if i65 = 2 then if i42 < 4 then 0x06000000 else if i42 = 4 then 0xFE000000 else 0
     else if i65 = 0 then if i42 = 6 then if f3 \<noteq> 0 then 0xFE000000 else 0
       else if i42 = 4 then if f3 = 5 then 0xFC000000 else 0 else 0
     else 0)"
    "mask_rs2 c = (if op = 0x53 then if enc_Funct2or7 c \<in> {0x60, 0x68, 0x20, 0x21, 0x61, 0x69} then 0x01F00000 else 0 else 0)"
    "mask_imm c = (if i42 = 4 then if i65 = 3 \<and> f3 = 0 then 0x7FF80000 else 0 else 0)"
    using assms(1,4) by (auto simp: mask_f3_def mask_f7_def mask_rs2_def mask_imm_def)
  then show ?thesis by (simp only: enc_mask_def)
qed

lemma enc_Funct2or7_eval:
  assumes "c AND 0x7F = op" "drop_bit 2 op AND 7 = i42" "drop_bit 5 op AND 3 = i65" "enc_Funct3 c = f3"
  shows "enc_Funct2or7 c = (if i65 = 1 then
      (if i42 = 3 \<or> i42 = 4 \<or> i42 = 6 then
         (if op = 0x2F then drop_bit 27 c AND 0x1F else drop_bit 25 c AND 0x7F) else 0)
    else if i65 = 2 \<and> i42 < 4 then drop_bit 25 c AND 3
    else if i65 = 2 \<and> i42 = 4 \<or> i65 = 0 \<and> i42 = 6 \<and> f3 \<noteq> 0 then drop_bit 25 c AND 0x7F
    else if i65 = 0 \<and> i42 = 4 \<and> f3 = 5 then drop_bit 26 c AND 0x3F else 0)"
  using assms by (simp only: enc_Funct2or7_cases inst42_def inst65_def)

lemma enc_Funct3_eval:
  assumes "c AND 0x7F = op" "drop_bit 2 op AND 7 = i42" "drop_bit 5 op AND 3 = i65"
  shows "enc_Funct3 c = (if i42 = 3 then if i65 = 3 then 0 else drop_bit 12 (c AND 0x7000)
     else if i42 = 5 then if i65 = 0 then 0 else if i65 = 1 then 0 else drop_bit 12 (c AND 0x7000)
     else drop_bit 12 (c AND 0x7000))"
  using assms by (simp add: enc_Funct3_def inst42_def inst65_def)

lemmas enc_eval = Enc_eval enc_mask_eval enc_Funct2or7_eval enc_Funct3_eval inst65_def

section \<open>The table of an RV64GC core\<close>

lemma features_RV64GC [simp]:
  "IsRV64 feature_RV64GC" "\<not> IsRV32 feature_RV64GC" "HasCompressed feature_RV64GC"
  "IsModeEnabled feature_RV64GC RV_I" "IsModeEnabled feature_RV64GC RV_M" "IsModeEnabled feature_RV64GC RV_A"
  "IsModeEnabled feature_RV64GC RV_F" "IsModeEnabled feature_RV64GC RV_D" "IsModeEnabled feature_RV64GC RV_C"
  "\<not> IsModeEnabled feature_RV64GC RV_ZICBOM"
  by code_simp+

definition table_RV64GC :: "RevInstEntry list" where
  "table_RV64GC = RV32ITable @ RV32ICTable @ RV64ITable @ RV64ICTable @ RV32MTable @ RV64MTable
     @ RV32ATable @ RV64ATable @ RV32FTable @ RV64FTable @ RV32DTable @ RV32DCTable @ RV64DTable"

lemma InstTable_RV64GC: "p_InstTable (tables feature_RV64GC) = table_RV64GC"
  by (simp add: tables_def InitTableMapping_def SeedInstTable_def Let_def RevTables_empty_def
      RV32I_def RV64I_def RV32M_def RV64M_def RV32A_def RV64A_def RV32F_def RV64F_def RV32D_def RV64D_def table_RV64GC_def)

lemmas inst_tables = RV32ITable_def RV32ICTable_def RV64ITable_def RV64ICTable_def RV32MTable_def RV64MTable_def
  RV32ATable_def RV64ATable_def RV32FTable_def RV64FTable_def RV32DTable_def RV32DCTable_def RV64DTable_def

lemma ZicbomTable_wf: "list_all (\<lambda>e. \<not> e_compressed e) ZicbomTable"
  by (simp add: ZicbomTable_def RevInstDefaults_def)

section \<open>The 32-bit instructions of RV64GC\<close>

text \<open>
  The 32-bit instructions of RV64GC as the ISA manual encodes them: the function and format that
  belong to an instruction, whether it has a rounding-mode field, its fixed bits and their values.
  The CSR instructions, whose functions are empty, have format U in the table. The second list of a
  table holds its lookup keys.
\<close>

record isa_inst =
  isa_func :: inst_fun
  isa_format :: RevInstF
  isa_rm :: bool
  isa_mask :: u32
  isa_match :: u32

definition isa :: "inst_fun \<Rightarrow> RevInstF \<Rightarrow> u32 \<Rightarrow> u32 \<Rightarrow> isa_inst" where
  "isa f fmt m c = \<lparr>isa_func = f, isa_format = fmt, isa_rm = False, isa_mask = m, isa_match = c\<rparr>"

definition isa_fp :: "inst_fun \<Rightarrow> RevInstF \<Rightarrow> u32 \<Rightarrow> u32 \<Rightarrow> isa_inst" where
  "isa_fp f fmt m c = \<lparr>isa_func = f, isa_format = fmt, isa_rm = True, isa_mask = m, isa_match = c\<rparr>"

lemma isa_simps [simp]:
  "isa_func (isa f fmt m c) = f" "isa_format (isa f fmt m c) = fmt" "\<not> isa_rm (isa f fmt m c)"
  "isa_mask (isa f fmt m c) = m" "isa_match (isa f fmt m c) = c"
  "isa_func (isa_fp f fmt m c) = f" "isa_format (isa_fp f fmt m c) = fmt" "isa_rm (isa_fp f fmt m c)"
  "isa_mask (isa_fp f fmt m c) = m" "isa_match (isa_fp f fmt m c) = c"
  by (simp_all add: isa_def isa_fp_def)

definition isa_RV32I :: "isa_inst list" where
  "isa_RV32I =
    [isa lui RVTypeU 0x7F 0x37, isa auipc RVTypeU 0x7F 0x17,
     isa jal RVTypeJ 0x7F 0x6F, isa jalr RVTypeI 0x707F 0x67,
     isa beq RVTypeB 0x707F 0x63, isa bne RVTypeB 0x707F 0x1063,
     isa blt RVTypeB 0x707F 0x4063, isa bge RVTypeB 0x707F 0x5063,
     isa bltu RVTypeB 0x707F 0x6063, isa bgeu RVTypeB 0x707F 0x7063,
     isa lb RVTypeI 0x707F 0x3, isa lh RVTypeI 0x707F 0x1003,
     isa lw RVTypeI 0x707F 0x2003, isa lbu RVTypeI 0x707F 0x4003,
     isa lhu RVTypeI 0x707F 0x5003, isa sb RVTypeS 0x707F 0x23,
     isa sh RVTypeS 0x707F 0x1023, isa sw RVTypeS 0x707F 0x2023,
     isa addi RVTypeI 0x707F 0x13, isa slti RVTypeI 0x707F 0x2013,
     isa sltiu RVTypeI 0x707F 0x3013, isa xori RVTypeI 0x707F 0x4013,
     isa ori RVTypeI 0x707F 0x6013, isa andi RVTypeI 0x707F 0x7013,
     isa slli RVTypeI 0xFC00707F 0x1013, isa srli RVTypeI 0xFC00707F 0x5013,
     isa srai RVTypeI 0xFC00707F 0x40005013, isa add RVTypeR 0xFE00707F 0x33,
     isa sub_inst RVTypeR 0xFE00707F 0x40000033, isa sll RVTypeR 0xFE00707F 0x1033,
     isa slt RVTypeR 0xFE00707F 0x2033, isa sltu RVTypeR 0xFE00707F 0x3033,
     isa f_xor RVTypeR 0xFE00707F 0x4033, isa srl RVTypeR 0xFE00707F 0x5033,
     isa sra RVTypeR 0xFE00707F 0x40005033, isa f_or RVTypeR 0xFE00707F 0x6033,
     isa f_and RVTypeR 0xFE00707F 0x7033, isa fence RVTypeI 0x707F 0xF,
     isa fencei RVTypeI 0x707F 0x100F, isa ecall RVTypeI 0xFFFFFFFF 0x73,
     isa csrrw RVTypeU 0x707F 0x1073, isa csrrs RVTypeU 0x707F 0x2073,
     isa csrrc RVTypeU 0x707F 0x3073, isa csrrwi RVTypeU 0x707F 0x5073,
     isa csrrsi RVTypeU 0x707F 0x6073, isa csrrci RVTypeU 0x707F 0x7073]"

definition isa_RV64I :: "isa_inst list" where
  "isa_RV64I =
    [isa lwu RVTypeI 0x707F 0x6003, isa ld RVTypeI 0x707F 0x3003,
     isa sd RVTypeS 0x707F 0x3023, isa addiw RVTypeI 0x707F 0x1B,
     isa slliw RVTypeI 0xFE00707F 0x101B, isa srliw RVTypeI 0xFE00707F 0x501B,
     isa sraiw RVTypeI 0xFE00707F 0x4000501B, isa addw RVTypeR 0xFE00707F 0x3B,
     isa subw RVTypeR 0xFE00707F 0x4000003B, isa sllw RVTypeR 0xFE00707F 0x103B,
     isa srlw RVTypeR 0xFE00707F 0x503B, isa sraw RVTypeR 0xFE00707F 0x4000503B]"

definition isa_RV32M :: "isa_inst list" where
  "isa_RV32M =
    [isa mul RVTypeR 0xFE00707F 0x2000033, isa mulh RVTypeR 0xFE00707F 0x2001033,
     isa mulhsu RVTypeR 0xFE00707F 0x2002033, isa mulhu RVTypeR 0xFE00707F 0x2003033,
     isa div_inst RVTypeR 0xFE00707F 0x2004033, isa divu RVTypeR 0xFE00707F 0x2005033,
     isa rem_inst RVTypeR 0xFE00707F 0x2006033, isa remu RVTypeR 0xFE00707F 0x2007033]"

definition isa_RV64M :: "isa_inst list" where
  "isa_RV64M =
    [isa mulw RVTypeR 0xFE00707F 0x200003B, isa divw RVTypeR 0xFE00707F 0x200403B,
     isa divuw RVTypeR 0xFE00707F 0x200503B, isa remw RVTypeR 0xFE00707F 0x200603B,
     isa remuw RVTypeR 0xFE00707F 0x200703B]"

definition isa_RV32A :: "isa_inst list" where
  "isa_RV32A =
    [isa lrw RVTypeR 0xF9F0707F 0x1000202F, isa scw RVTypeR 0xF800707F 0x1800202F,
     isa amoswapw RVTypeR 0xF800707F 0x800202F, isa amoaddw RVTypeR 0xF800707F 0x202F,
     isa amoxorw RVTypeR 0xF800707F 0x2000202F,
     isa amoandw RVTypeR 0xF800707F 0x6000202F,
     isa amoorw RVTypeR 0xF800707F 0x4000202F,
     isa amominw RVTypeR 0xF800707F 0x8000202F,
     isa amomaxw RVTypeR 0xF800707F 0xA000202F,
     isa amominuw RVTypeR 0xF800707F 0xC000202F,
     isa amomaxuw RVTypeR 0xF800707F 0xE000202F]"

definition isa_RV64A :: "isa_inst list" where
  "isa_RV64A =
    [isa lrd RVTypeR 0xF9F0707F 0x1000302F, isa scd RVTypeR 0xF800707F 0x1800302F,
     isa amoswapd RVTypeR 0xF800707F 0x800302F, isa amoaddd RVTypeR 0xF800707F 0x302F,
     isa amoxord RVTypeR 0xF800707F 0x2000302F,
     isa amoandd RVTypeR 0xF800707F 0x6000302F,
     isa amoord RVTypeR 0xF800707F 0x4000302F,
     isa amomind RVTypeR 0xF800707F 0x8000302F,
     isa amomaxd RVTypeR 0xF800707F 0xA000302F,
     isa amominud RVTypeR 0xF800707F 0xC000302F,
     isa amomaxud RVTypeR 0xF800707F 0xE000302F]"

definition isa_RV32F :: "isa_inst list" where
  "isa_RV32F =
    [isa flw RVTypeI 0x707F 0x2007, isa fsw RVTypeS 0x707F 0x2027,
     isa_fp fmadds RVTypeR4 0x600007F 0x43, isa_fp fmsubs RVTypeR4 0x600007F 0x47,
     isa_fp fnmsubs RVTypeR4 0x600007F 0x4B, isa_fp fnmadds RVTypeR4 0x600007F 0x4F,
     isa_fp fadds RVTypeR 0xFE00007F 0x53, isa_fp fsubs RVTypeR 0xFE00007F 0x8000053,
     isa_fp fmuls RVTypeR 0xFE00007F 0x10000053, isa_fp fdivs RVTypeR 0xFE00007F 0x18000053,
     isa_fp fsqrts RVTypeR 0xFFF0007F 0x58000053, isa fmins RVTypeR 0xFE00707F 0x28000053,
     isa fmaxs RVTypeR 0xFE00707F 0x28001053, isa fsgnjs RVTypeR 0xFE00707F 0x20000053,
     isa fsgnjns RVTypeR 0xFE00707F 0x20001053,
     isa fsgnjxs RVTypeR 0xFE00707F 0x20002053, isa_fp fcvtws RVTypeR 0xFFF0007F 0xC0000053,
     isa_fp fcvtwus RVTypeR 0xFFF0007F 0xC0100053, isa fmvxw RVTypeR 0xFFF0707F 0xE0000053,
     isa feqs RVTypeR 0xFE00707F 0xA0002053, isa flts RVTypeR 0xFE00707F 0xA0001053,
     isa fles RVTypeR 0xFE00707F 0xA0000053, isa fclasss RVTypeR 0xFFF0707F 0xE0001053,
     isa_fp fcvtsw RVTypeR 0xFFF0007F 0xD0000053, isa_fp fcvtswu RVTypeR 0xFFF0007F 0xD0100053,
     isa fmvwx RVTypeR 0xFFF0707F 0xF0000053]"

definition isa_RV64F :: "isa_inst list" where
  "isa_RV64F =
    [isa_fp fcvtls RVTypeR 0xFFF0007F 0xC0200053, isa_fp fcvtlus RVTypeR 0xFFF0007F 0xC0300053,
     isa_fp fcvtsl RVTypeR 0xFFF0007F 0xD0200053, isa_fp fcvtslu RVTypeR 0xFFF0007F 0xD0300053]"

definition isa_RV32D :: "isa_inst list" where
  "isa_RV32D =
    [isa fld RVTypeI 0x707F 0x3007, isa fsd RVTypeS 0x707F 0x3027,
     isa_fp fmaddd RVTypeR4 0x600007F 0x2000043, isa_fp fmsubd RVTypeR4 0x600007F 0x2000047,
     isa_fp fnmsubd RVTypeR4 0x600007F 0x200004B, isa_fp fnmaddd RVTypeR4 0x600007F 0x200004F,
     isa_fp faddd RVTypeR 0xFE00007F 0x2000053, isa_fp fsubd RVTypeR 0xFE00007F 0xA000053,
     isa_fp fmuld RVTypeR 0xFE00007F 0x12000053, isa_fp fdivd RVTypeR 0xFE00007F 0x1A000053,
     isa_fp fsqrtd RVTypeR 0xFFF0007F 0x5A000053, isa fmind RVTypeR 0xFE00707F 0x2A000053,
     isa fmaxd RVTypeR 0xFE00707F 0x2A001053, isa fsgnjd RVTypeR 0xFE00707F 0x22000053,
     isa fsgnjnd RVTypeR 0xFE00707F 0x22001053,
     isa fsgnjxd RVTypeR 0xFE00707F 0x22002053, isa_fp fcvtsd RVTypeR 0xFFF0007F 0x40100053,
     isa_fp fcvtds RVTypeR 0xFFF0007F 0x42000053, isa feqd RVTypeR 0xFE00707F 0xA2002053,
     isa fltd RVTypeR 0xFE00707F 0xA2001053, isa fled RVTypeR 0xFE00707F 0xA2000053,
     isa fclassd RVTypeR 0xFFF0707F 0xE2001053, isa_fp fcvtwd RVTypeR 0xFFF0007F 0xC2000053,
     isa_fp fcvtwud RVTypeR 0xFFF0007F 0xC2100053, isa_fp fcvtdw RVTypeR 0xFFF0007F 0xD2000053,
     isa_fp fcvtdwu RVTypeR 0xFFF0007F 0xD2100053]"

definition isa_RV64D :: "isa_inst list" where
  "isa_RV64D =
    [isa_fp fcvtld RVTypeR 0xFFF0007F 0xC2200053, isa_fp fcvtlud RVTypeR 0xFFF0007F 0xC2300053,
     isa_fp fcvtdl RVTypeR 0xFFF0007F 0xD2200053, isa_fp fcvtdlu RVTypeR 0xFFF0007F 0xD2300053,
     isa fmvxd RVTypeR 0xFFF0707F 0xE2000053, isa fmvdx RVTypeR 0xFFF0707F 0xF2000053]"

definition isa_RV64GC :: "isa_inst list" where
  "isa_RV64GC = isa_RV32I @ isa_RV64I @ isa_RV32M @ isa_RV64M @ isa_RV32A @ isa_RV64A
     @ isa_RV32F @ isa_RV64F @ isa_RV32D @ isa_RV64D"

definition isa_entry :: "RevInstEntry \<Rightarrow> bool" where
  "isa_entry e = (\<not> e_compressed e \<and> CompressEncoding e \<noteq> 0x40073)"

definition isa_key :: "isa_inst \<Rightarrow> u32" where
  "isa_key i = Enc (isa_match i)"

definition isa_mask_ok :: "isa_inst \<Rightarrow> bool" where
  "isa_mask_ok i = (let m = isa_mask i; c = isa_match i in
     c AND m = c \<and> m AND 3 = 3 \<and> c AND 3 = 3 \<and>
     enc_mask c AND (if isa_rm i then m OR 0x7000 else m) = enc_mask c \<and>
     (isa_rm i \<longrightarrow> inst65 c = 2 \<and> c AND 0x7000 = 0))"

definition entry_agrees :: "isa_inst \<Rightarrow> RevInstEntry \<Rightarrow> bool" where
  "entry_agrees i e = (e_func e = Some (isa_func i) \<and> e_format e = isa_format i \<and> CompressEncoding e = isa_key i)"

lemma entry_agreesI:
  assumes k: "map CompressEncoding T = ks" and u: "list_all (\<lambda>e. \<not> e_compressed e) T"
    and f: "map e_func (filter isa_entry T) = map (Some \<circ> isa_func) I"
    and g: "map e_format (filter isa_entry T) = map isa_format I"
    and i: "map isa_key I = filter (\<lambda>k. k \<noteq> 0x40073) ks"
  shows "list_all2 entry_agrees I (filter isa_entry T)"
proof -
  have "map CompressEncoding (filter isa_entry T) = filter (\<lambda>k. k \<noteq> 0x40073) (map CompressEncoding T)"
    using u by (induction T) (auto simp: isa_entry_def)
  then have h: "map CompressEncoding (filter isa_entry T) = map isa_key I" by (simp add: k i)
  have l: "length I = length (filter isa_entry T)" using arg_cong [OF g, of length] by simp
  show ?thesis
  proof (rule list_all2_all_nthI [OF l])
    fix n assume "n < length I"
    with l h f g show "entry_agrees (I ! n) (filter isa_entry T ! n)"
      unfolding entry_agrees_def by (metis comp_apply length_map nth_map)
  qed
qed

lemmas entry_eval = isa_entry_def RevInstDefaults_def CompressEncoding_def

definition keys_RV32I :: "u32 list" where
  "keys_RV32I =
    [0x37, 0x17, 0x6F, 0x67, 0x63, 0x163, 0x463, 0x563, 0x663, 0x763, 0x3, 0x103, 0x203, 0x403,
     0x503, 0x23, 0x123, 0x223, 0x13, 0x213, 0x313, 0x413, 0x613, 0x713, 0x113, 0x513, 0x8513,
     0x33, 0x10033, 0x133, 0x233, 0x333, 0x433, 0x533, 0x10533, 0x633, 0x733, 0xF, 0x10F, 0x73,
     0x40073, 0x173, 0x273, 0x373, 0x573, 0x673, 0x773]"

definition keys_RV64I :: "u32 list" where
  "keys_RV64I =
    [0x603, 0x303, 0x323, 0x1B, 0x11B, 0x51B, 0x1051B, 0x3B, 0x1003B, 0x13B, 0x53B, 0x1053B]"

definition keys_RV32M :: "u32 list" where
  "keys_RV32M =
    [0x833, 0x933, 0xA33, 0xB33, 0xC33, 0xD33, 0xE33, 0xF33]"

definition keys_RV64M :: "u32 list" where
  "keys_RV64M =
    [0x83B, 0xC3B, 0xD3B, 0xE3B, 0xF3B]"

definition keys_RV32A :: "u32 list" where
  "keys_RV32A =
    [0x122F, 0x1A2F, 0xA2F, 0x22F, 0x222F, 0x622F, 0x422F, 0x822F, 0xA22F, 0xC22F, 0xE22F]"

definition keys_RV64A :: "u32 list" where
  "keys_RV64A =
    [0x132F, 0x1B2F, 0xB2F, 0x32F, 0x232F, 0x632F, 0x432F, 0x832F, 0xA32F, 0xC32F, 0xE32F]"

definition keys_RV32F :: "u32 list" where
  "keys_RV32F =
    [0x207, 0x227, 0x43, 0x47, 0x4B, 0x4F, 0x53, 0x2053, 0x4053, 0x6053, 0x16053, 0xA053, 0xA153,
     0x8053, 0x8153, 0x8253, 0x30053, 0x40030053, 0x38053, 0x28253, 0x28153, 0x28053, 0x38153,
     0x34053, 0x40034053, 0x3C053]"

definition keys_RV64F :: "u32 list" where
  "keys_RV64F =
    [0x80030053, 0xC0030053, 0x80034053, 0xC0034053]"

definition keys_RV32D :: "u32 list" where
  "keys_RV32D =
    [0x307, 0x327, 0x843, 0x847, 0x84B, 0x84F, 0x853, 0x2853, 0x4853, 0x6853, 0x16853, 0xA853,
     0xA953, 0x8853, 0x8953, 0x8A53, 0x40010053, 0x10853, 0x28A53, 0x28953, 0x28853, 0x38953,
     0x30853, 0x40030853, 0x34853, 0x40034853]"

definition keys_RV64D :: "u32 list" where
  "keys_RV64D =
    [0x80030853, 0xC0030853, 0x80034853, 0xC0034853, 0x38853, 0x3C853]"

lemma isa_keys_RV32I: "map isa_key isa_RV32I = filter (\<lambda>k. k \<noteq> 0x40073) keys_RV32I"
  by (simp add: isa_RV32I_def keys_RV32I_def isa_key_def enc_eval)

lemma isa_keys_RV64I: "map isa_key isa_RV64I = filter (\<lambda>k. k \<noteq> 0x40073) keys_RV64I"
  by (simp add: isa_RV64I_def keys_RV64I_def isa_key_def enc_eval)

lemma isa_keys_RV32M: "map isa_key isa_RV32M = filter (\<lambda>k. k \<noteq> 0x40073) keys_RV32M"
  by (simp add: isa_RV32M_def keys_RV32M_def isa_key_def enc_eval)

lemma isa_keys_RV64M: "map isa_key isa_RV64M = filter (\<lambda>k. k \<noteq> 0x40073) keys_RV64M"
  by (simp add: isa_RV64M_def keys_RV64M_def isa_key_def enc_eval)

lemma isa_keys_RV32A: "map isa_key isa_RV32A = filter (\<lambda>k. k \<noteq> 0x40073) keys_RV32A"
  by (simp add: isa_RV32A_def keys_RV32A_def isa_key_def enc_eval)

lemma isa_keys_RV64A: "map isa_key isa_RV64A = filter (\<lambda>k. k \<noteq> 0x40073) keys_RV64A"
  by (simp add: isa_RV64A_def keys_RV64A_def isa_key_def enc_eval)

lemma isa_keys_RV32F: "map isa_key isa_RV32F = filter (\<lambda>k. k \<noteq> 0x40073) keys_RV32F"
  by (simp add: isa_RV32F_def keys_RV32F_def isa_key_def enc_eval)

lemma isa_keys_RV64F: "map isa_key isa_RV64F = filter (\<lambda>k. k \<noteq> 0x40073) keys_RV64F"
  by (simp add: isa_RV64F_def keys_RV64F_def isa_key_def enc_eval)

lemma isa_keys_RV32D: "map isa_key isa_RV32D = filter (\<lambda>k. k \<noteq> 0x40073) keys_RV32D"
  by (simp add: isa_RV32D_def keys_RV32D_def isa_key_def enc_eval)

lemma isa_keys_RV64D: "map isa_key isa_RV64D = filter (\<lambda>k. k \<noteq> 0x40073) keys_RV64D"
  by (simp add: isa_RV64D_def keys_RV64D_def isa_key_def enc_eval)

lemma table_keys_RV32I: "map CompressEncoding RV32ITable = keys_RV32I" "list_all (\<lambda>e. \<not> e_compressed e) RV32ITable"
    "map e_func (filter isa_entry RV32ITable) = map (Some \<circ> isa_func) isa_RV32I"
    "map e_format (filter isa_entry RV32ITable) = map isa_format isa_RV32I"
  by (simp_all add: RV32ITable_def keys_RV32I_def isa_RV32I_def entry_eval)

lemma table_keys_RV64I: "map CompressEncoding RV64ITable = keys_RV64I" "list_all (\<lambda>e. \<not> e_compressed e) RV64ITable"
    "map e_func (filter isa_entry RV64ITable) = map (Some \<circ> isa_func) isa_RV64I"
    "map e_format (filter isa_entry RV64ITable) = map isa_format isa_RV64I"
  by (simp_all add: RV64ITable_def keys_RV64I_def isa_RV64I_def entry_eval)

lemma table_keys_RV32M: "map CompressEncoding RV32MTable = keys_RV32M" "list_all (\<lambda>e. \<not> e_compressed e) RV32MTable"
    "map e_func (filter isa_entry RV32MTable) = map (Some \<circ> isa_func) isa_RV32M"
    "map e_format (filter isa_entry RV32MTable) = map isa_format isa_RV32M"
  by (simp_all add: RV32MTable_def keys_RV32M_def isa_RV32M_def entry_eval)

lemma table_keys_RV64M: "map CompressEncoding RV64MTable = keys_RV64M" "list_all (\<lambda>e. \<not> e_compressed e) RV64MTable"
    "map e_func (filter isa_entry RV64MTable) = map (Some \<circ> isa_func) isa_RV64M"
    "map e_format (filter isa_entry RV64MTable) = map isa_format isa_RV64M"
  by (simp_all add: RV64MTable_def keys_RV64M_def isa_RV64M_def entry_eval)

lemma table_keys_RV32A: "map CompressEncoding RV32ATable = keys_RV32A" "list_all (\<lambda>e. \<not> e_compressed e) RV32ATable"
    "map e_func (filter isa_entry RV32ATable) = map (Some \<circ> isa_func) isa_RV32A"
    "map e_format (filter isa_entry RV32ATable) = map isa_format isa_RV32A"
  by (simp_all add: RV32ATable_def keys_RV32A_def isa_RV32A_def entry_eval)

lemma table_keys_RV64A: "map CompressEncoding RV64ATable = keys_RV64A" "list_all (\<lambda>e. \<not> e_compressed e) RV64ATable"
    "map e_func (filter isa_entry RV64ATable) = map (Some \<circ> isa_func) isa_RV64A"
    "map e_format (filter isa_entry RV64ATable) = map isa_format isa_RV64A"
  by (simp_all add: RV64ATable_def keys_RV64A_def isa_RV64A_def entry_eval)

lemma table_keys_RV32F: "map CompressEncoding RV32FTable = keys_RV32F" "list_all (\<lambda>e. \<not> e_compressed e) RV32FTable"
    "map e_func (filter isa_entry RV32FTable) = map (Some \<circ> isa_func) isa_RV32F"
    "map e_format (filter isa_entry RV32FTable) = map isa_format isa_RV32F"
  by (simp_all add: RV32FTable_def keys_RV32F_def isa_RV32F_def entry_eval)

lemma table_keys_RV64F: "map CompressEncoding RV64FTable = keys_RV64F" "list_all (\<lambda>e. \<not> e_compressed e) RV64FTable"
    "map e_func (filter isa_entry RV64FTable) = map (Some \<circ> isa_func) isa_RV64F"
    "map e_format (filter isa_entry RV64FTable) = map isa_format isa_RV64F"
  by (simp_all add: RV64FTable_def keys_RV64F_def isa_RV64F_def entry_eval)

lemma table_keys_RV32D: "map CompressEncoding RV32DTable = keys_RV32D" "list_all (\<lambda>e. \<not> e_compressed e) RV32DTable"
    "map e_func (filter isa_entry RV32DTable) = map (Some \<circ> isa_func) isa_RV32D"
    "map e_format (filter isa_entry RV32DTable) = map isa_format isa_RV32D"
  by (simp_all add: RV32DTable_def keys_RV32D_def isa_RV32D_def entry_eval)

lemma table_keys_RV64D: "map CompressEncoding RV64DTable = keys_RV64D" "list_all (\<lambda>e. \<not> e_compressed e) RV64DTable"
    "map e_func (filter isa_entry RV64DTable) = map (Some \<circ> isa_func) isa_RV64D"
    "map e_format (filter isa_entry RV64DTable) = map isa_format isa_RV64D"
  by (simp_all add: RV64DTable_def keys_RV64D_def isa_RV64D_def entry_eval)

lemma agree_RV32I: "list_all2 entry_agrees isa_RV32I (filter isa_entry RV32ITable)"
  by (rule entry_agreesI [OF table_keys_RV32I isa_keys_RV32I])

lemma agree_RV64I: "list_all2 entry_agrees isa_RV64I (filter isa_entry RV64ITable)"
  by (rule entry_agreesI [OF table_keys_RV64I isa_keys_RV64I])

lemma agree_RV32M: "list_all2 entry_agrees isa_RV32M (filter isa_entry RV32MTable)"
  by (rule entry_agreesI [OF table_keys_RV32M isa_keys_RV32M])

lemma agree_RV64M: "list_all2 entry_agrees isa_RV64M (filter isa_entry RV64MTable)"
  by (rule entry_agreesI [OF table_keys_RV64M isa_keys_RV64M])

lemma agree_RV32A: "list_all2 entry_agrees isa_RV32A (filter isa_entry RV32ATable)"
  by (rule entry_agreesI [OF table_keys_RV32A isa_keys_RV32A])

lemma agree_RV64A: "list_all2 entry_agrees isa_RV64A (filter isa_entry RV64ATable)"
  by (rule entry_agreesI [OF table_keys_RV64A isa_keys_RV64A])

lemma agree_RV32F: "list_all2 entry_agrees isa_RV32F (filter isa_entry RV32FTable)"
  by (rule entry_agreesI [OF table_keys_RV32F isa_keys_RV32F])

lemma agree_RV64F: "list_all2 entry_agrees isa_RV64F (filter isa_entry RV64FTable)"
  by (rule entry_agreesI [OF table_keys_RV64F isa_keys_RV64F])

lemma agree_RV32D: "list_all2 entry_agrees isa_RV32D (filter isa_entry RV32DTable)"
  by (rule entry_agreesI [OF table_keys_RV32D isa_keys_RV32D])

lemma agree_RV64D: "list_all2 entry_agrees isa_RV64D (filter isa_entry RV64DTable)"
  by (rule entry_agreesI [OF table_keys_RV64D isa_keys_RV64D])

lemma masks_RV32I: "list_all isa_mask_ok isa_RV32I"
  by (simp add: isa_RV32I_def isa_mask_ok_def enc_eval)

lemma masks_RV64I: "list_all isa_mask_ok isa_RV64I"
  by (simp add: isa_RV64I_def isa_mask_ok_def enc_eval)

lemma masks_RV32M: "list_all isa_mask_ok isa_RV32M"
  by (simp add: isa_RV32M_def isa_mask_ok_def enc_eval)

lemma masks_RV64M: "list_all isa_mask_ok isa_RV64M"
  by (simp add: isa_RV64M_def isa_mask_ok_def enc_eval)

lemma masks_RV32A: "list_all isa_mask_ok isa_RV32A"
  by (simp add: isa_RV32A_def isa_mask_ok_def enc_eval)

lemma masks_RV64A: "list_all isa_mask_ok isa_RV64A"
  by (simp add: isa_RV64A_def isa_mask_ok_def enc_eval)

lemma masks_RV32F: "list_all isa_mask_ok isa_RV32F"
  by (simp add: isa_RV32F_def isa_mask_ok_def enc_eval)

lemma masks_RV64F: "list_all isa_mask_ok isa_RV64F"
  by (simp add: isa_RV64F_def isa_mask_ok_def enc_eval)

lemma masks_RV32D: "list_all isa_mask_ok isa_RV32D"
  by (simp add: isa_RV32D_def isa_mask_ok_def enc_eval)

lemma masks_RV64D: "list_all isa_mask_ok isa_RV64D"
  by (simp add: isa_RV64D_def isa_mask_ok_def enc_eval)

lemma ctables_compressed: "list_all e_compressed RV32ICTable" "list_all e_compressed RV64ICTable"
  "list_all e_compressed RV32DCTable"
  by (simp_all add: RV32ICTable_def RV64ICTable_def RV32DCTable_def RevInstDefaults_def)

definition keys_RV64GC :: "u32 list" where
  "keys_RV64GC = keys_RV32I @ keys_RV64I @ keys_RV32M @ keys_RV64M @ keys_RV32A @ keys_RV64A
     @ keys_RV32F @ keys_RV64F @ keys_RV32D @ keys_RV64D"

lemmas keys_defs = keys_RV64GC_def keys_RV32I_def keys_RV64I_def keys_RV32M_def keys_RV64M_def keys_RV32A_def
  keys_RV64A_def keys_RV32F_def keys_RV64F_def keys_RV32D_def keys_RV64D_def

lemma filter_const [simp]:
  "list_all Q xs \<Longrightarrow> filter (\<lambda>x. \<not> Q x) xs = []" "list_all (\<lambda>x. \<not> Q x) xs \<Longrightarrow> filter (\<lambda>x. \<not> Q x) xs = xs"
  by (auto simp: list_all_iff filter_empty_conv)

lemmas table_keys = table_keys_RV32I table_keys_RV64I table_keys_RV32M table_keys_RV64M table_keys_RV32A
  table_keys_RV64A table_keys_RV32F table_keys_RV64F table_keys_RV32D table_keys_RV64D

lemma keys_of_table: "map CompressEncoding (filter (\<lambda>e. \<not> e_compressed e) table_RV64GC) = keys_RV64GC"
  by (simp add: table_RV64GC_def keys_RV64GC_def table_keys ctables_compressed)

lemma keys_distinct: "distinct keys_RV64GC"
proof -
  have "distinct (map unat keys_RV64GC)" by (simp add: keys_defs)
  then show ?thesis by (simp add: distinct_map)
qed

lemma isa_agree: "list_all2 entry_agrees isa_RV64GC (filter isa_entry table_RV64GC)"
proof -
  have "filter isa_entry T = []" if "list_all e_compressed T" for T
    using that by (induction T) (auto simp: isa_entry_def)
  then show ?thesis unfolding isa_RV64GC_def table_RV64GC_def
    by (auto simp: ctables_compressed
      intro!: list_all2_appendI agree_RV32I agree_RV64I agree_RV32M agree_RV64M agree_RV32A
      agree_RV64A agree_RV32F agree_RV64F agree_RV32D agree_RV64D)
qed

lemma isa_masks: "i \<in> set isa_RV64GC \<Longrightarrow> isa_mask_ok i"
  using masks_RV32I masks_RV64I masks_RV32M masks_RV64M masks_RV32A masks_RV64A masks_RV32F masks_RV64F
    masks_RV32D masks_RV64D
  by (auto simp: isa_RV64GC_def list_all_iff)

lemma tables_enc:
  "p_EncToEntry (tables feature_RV64GC) k = first_index (\<lambda>e. \<not> e_compressed e \<and> CompressEncoding e = k) 0 table_RV64GC"
proof -
  have "p_InstTable (SeedInstTable feature_RV64GC RevTables_empty) = table_RV64GC"
    using InstTable_RV64GC by (simp add: tables_def InitTableMapping_def)
  then show ?thesis
    by (simp add: tables_def InitTableMapping_def init_mapping_enc) (simp add: RevTables_empty_def)
qed

interpretation enc: entry_index table_RV64GC "\<lambda>e. \<not> e_compressed e" CompressEncoding
  "p_EncToEntry (tables feature_RV64GC)"
  by unfold_locales (simp_all add: tables_enc keys_of_table keys_distinct)

lemma isa_lookup:
  assumes "i \<in> set isa_RV64GC"
  shows "\<exists>j. j < length table_RV64GC \<and> p_EncToEntry (tables feature_RV64GC) (isa_key i) = Some j \<and>
    entry_agrees i (table_RV64GC ! j) \<and> \<not> e_compressed (table_RV64GC ! j)"
proof -
  obtain e where "e \<in> set (filter isa_entry table_RV64GC)" and e: "entry_agrees i e"
    using isa_agree assms by (metis in_set_conv_nth list_all2_conv_all_nth)
  then obtain j where j: "j < length table_RV64GC" "e = table_RV64GC ! j" "\<not> e_compressed e"
    by (auto simp: in_set_conv_nth isa_entry_def)
  from enc.entry_found [of j] j e show ?thesis by (auto simp: entry_agrees_def)
qed

definition rm_keys :: "u32 list" where
  "rm_keys = map isa_key (filter isa_rm isa_RV64GC)"

definition rm_key_numbers :: "nat list" where
  "rm_key_numbers =
    [67, 71, 75, 79, 83, 8275, 16467, 24659, 90195, 196691, 1073938515, 213075, 1073954899,
     2147680339, 3221422163, 2147696723, 3221438547, 2115, 2119, 2123, 2127, 2131, 10323, 18515,
     26707, 92243, 1073807443, 67667, 198739, 1073940563, 215123, 1073956947, 2147682387,
     3221424211, 2147698771, 3221440595]"

lemma rm_keys_eval: "map unat rm_keys = rm_key_numbers"
proof -
  have "filter isa_rm (isa_RV32I @ isa_RV64I @ isa_RV32M @ isa_RV64M @ isa_RV32A @ isa_RV64A) = []"
    by (simp add: isa_RV32I_def isa_RV64I_def isa_RV32M_def isa_RV64M_def isa_RV32A_def isa_RV64A_def)
  then have "rm_keys = map isa_key (filter isa_rm (isa_RV32F @ isa_RV64F @ isa_RV32D @ isa_RV64D))"
    by (simp add: rm_keys_def isa_RV64GC_def)
  also have "map unat \<dots> = rm_key_numbers"
    by (simp add: isa_RV32F_def isa_RV64F_def isa_RV32D_def isa_RV64D_def isa_key_def enc_eval rm_key_numbers_def)
  finally show ?thesis .
qed

text \<open>An instruction with fixed \<^verbatim>\<open>funct3\<close> never shares its other fields with one that has a rounding mode.\<close>

lemma rm_keys_free:
  "list_all (\<lambda>n. n \<notin> set rm_key_numbers) (map (\<lambda>k. unat (k AND 0xfffff8ff)) (filter (\<lambda>k. k AND 0x700 \<noteq> 0) keys_RV64GC))"
  by (simp add: keys_defs) (simp add: rm_key_numbers_def)

lemma rm_key_unique:
  assumes "i \<in> set isa_RV64GC" "isa_rm i" "k AND 0xfffff8ff = isa_key i" "k AND 0x700 \<noteq> 0"
  shows "p_EncToEntry (tables feature_RV64GC) k = None"
proof -
  have "isa_key i \<in> set rm_keys" using assms by (auto simp: rm_keys_def)
  then have "unat (k AND 0xfffff8ff) \<in> set rm_key_numbers" using assms(3) by (auto simp flip: rm_keys_eval)
  then show ?thesis using rm_keys_free assms(4) by (auto simp: enc.key_absent keys_of_table list_all_iff)
qed

text \<open>Clearing the rounding mode of a floating-point instruction clears it in the key and nowhere else.\<close>

lemma Enc_clear_rm:
  assumes "inst65 w = 2"
  shows "Enc (w AND 0xFFFF8FFF) = Enc w AND 0xfffff8ff"
    and "Enc w AND 0x700 = push_bit 8 (enc_Funct3 w)"
proof -
  let ?v = "w AND 0xFFFF8FFF"
  have op: "?v AND 0x7F = w AND 0x7F" by (simp add: and.assoc)
  have i: "inst65 ?v = inst65 w" "inst42 ?v = inst42 w" by (simp_all only: inst65_def inst42_def op)
  have f3: "enc_Funct3 ?v = 0" "enc_Funct3 w = drop_bit 12 w AND 7"
    using assms i by (simp_all add: enc_Funct3_def and.assoc)
  have d: "drop_bit 25 ?v = drop_bit 25 w" "drop_bit 20 ?v = drop_bit 20 w"
    by (simp_all add: word_enum bit_simps)
  have f7: "enc_Funct2or7 ?v = enc_Funct2or7 w"
    unfolding enc_Funct2or7_cases i op using assms d by simp
  have le: "enc_Funct2or7 w AND 0x7F = enc_Funct2or7 w" "enc_Imm12 w = 0" "enc_Imm12 ?v = 0"
    using assms i by (auto simp: enc_Funct2or7_cases enc_Imm12_def and.assoc)
  have fc: "enc_fcvtOp ?v = enc_fcvtOp w"
    unfolding enc_fcvtOp_def op f7 DECODE_RS2_def d by (rule refl)
  have x: "(w AND 0x7F OR push_bit 8 (drop_bit 12 w AND 7) OR push_bit 11 a OR push_bit 30 b) AND 0xfffff8ff =
    w AND 0x7F OR push_bit 11 a OR push_bit 30 b"
    "(w AND 0x7F OR push_bit 8 (drop_bit 12 w AND 7) OR push_bit 11 a OR push_bit 30 b) AND 0x700 =
    push_bit 8 (drop_bit 12 w AND 7)" for a b :: u32
    by (simp_all add: word_enum bit_simps)
  show "Enc ?v = Enc w AND 0xfffff8ff" "Enc w AND 0x700 = push_bit 8 (enc_Funct3 w)"
    unfolding Enc_def op f3 f7 le fc using x by simp_all
qed

lemma and_full: "x AND 0xFFFFFFFF = x" for x :: u32
proof -
  have "(0xFFFFFFFF :: u32) = -1" by simp
  then show ?thesis by (simp only: and.right_neutral)
qed

lemma clear_rm:
  fixes w m c :: u32
  assumes "w AND m = c" "c AND m = c" "c AND 0x7000 = 0"
  shows "(w AND 0xFFFF8FFF) AND (m OR 0x7000) = c AND (m OR 0x7000)"
proof -
  have "c AND 0xFFFF8FFF OR c AND 0x7000 = c"
    unfolding bit.conj_disj_distrib [symmetric] by (simp add: and_full)
  then have c: "c AND 0xFFFF8FFF = c" using assms(3) by simp
  have "(w AND 0xFFFF8FFF) AND (m OR 0x7000) = (w AND m) AND 0xFFFF8FFF"
    by (simp add: bit.conj_disj_distrib and.assoc) (simp add: and.commute)
  with assms c show ?thesis by (simp add: bit.conj_disj_distrib)
qed

lemma and_complement: "x AND 0x700 = 0 \<Longrightarrow> x AND 0xfffff8ff = x" for x :: u32
proof -
  assume "x AND 0x700 = 0"
  moreover have "x AND 0xfffff8ff OR x AND 0x700 = x"
    unfolding bit.conj_disj_distrib [symmetric] by (simp add: and_full)
  ultimately show ?thesis by simp
qed

lemma find_entry_isa:
  assumes i: "i \<in> set isa_RV64GC" and w: "w AND isa_mask i = isa_match i"
    and r: "isa_rm i \<Longrightarrow> DECODE_RM w \<noteq> 5 \<and> DECODE_RM w \<noteq> 6"
  shows "find_entry (tables feature_RV64GC) w = p_EncToEntry (tables feature_RV64GC) (isa_key i)"
proof -
  let ?m = "isa_mask i" and ?c = "isa_match i"
  have ok: "?c AND ?m = ?c" "enc_mask ?c AND (if isa_rm i then ?m OR 0x7000 else ?m) = enc_mask ?c"
    "isa_rm i \<Longrightarrow> inst65 ?c = 2 \<and> ?c AND 0x7000 = 0"
    using isa_masks [OF i] by (auto simp: isa_mask_ok_def Let_def)
  obtain j where j: "p_EncToEntry (tables feature_RV64GC) (isa_key i) = Some j"
    using isa_lookup [OF i] by blast
  show ?thesis
  proof (cases "isa_rm i")
    case False
    then have "Enc w = Enc ?c"
      using ok w and_submask [of w ?m ?c "enc_mask ?c"] by (intro Enc_cong(1)) simp
    then show ?thesis using j by (simp add: find_entry_def isa_key_def)
  next
    case True
    let ?v = "w AND 0xFFFF8FFF"
    have "?v AND (?m OR 0x7000) = ?c AND (?m OR 0x7000)"
      using clear_rm [OF w ok(1)] ok(3) True by simp
    then have v: "Enc ?v = Enc ?c" "inst65 ?v = inst65 ?c"
      using ok(2) True Enc_cong [of ?v ?c] and_submask [of ?v "?m OR 0x7000" ?c "enc_mask ?c"] by auto
    then have i2: "inst65 w = 2" using ok(3) True by (simp add: inst65_def and.assoc)
    note E = Enc_clear_rm [OF i2, unfolded v]
    have f3: "enc_Funct3 w \<noteq> 5" "enc_Funct3 w \<noteq> 6"
      using r [OF True] i2 by (auto simp: DECODE_RM_def DECODE_FUNCT3_def enc_Funct3_def)
    show ?thesis
    proof (cases "Enc w AND 0x700 = 0")
      case True
      then have "Enc w = Enc ?c" using E(1) and_complement [of "Enc w"] by simp
      then show ?thesis using j by (simp add: find_entry_def isa_key_def)
    next
      case False
      have "p_EncToEntry (tables feature_RV64GC) (Enc w) = None"
        by (rule rm_key_unique [OF i True _ False]) (simp add: isa_key_def E)
      then show ?thesis using f3 i2 by (simp add: find_entry_def isa_key_def E)
    qed
  qed
qed

lemma DecodeInst_found:
  assumes "w AND 3 = 3" "find_entry P w = Some j" "j < length (p_InstTable P)"
  shows "DecodeInst F P cp w = res_bind (decode_format w (p_InstTable P ! j))
    (\<lambda>I. Inr (I\<lparr>i_entry := of_nat j, i_isCoProcInst := False\<rparr>))"
proof -
  have "NOT w AND (w AND 3) = NOT w AND 3" using assms(1) by simp
  then have "NOT w AND 3 = 0" by (simp add: and.assoc [symmetric])
  with assms(2,3) show ?thesis by (simp add: DecodeInst_def)
qed

lemma decode_RV64GC:
  assumes i: "i \<in> set isa_RV64GC" and w: "w AND isa_mask i = isa_match i"
    and r: "isa_rm i \<Longrightarrow> DECODE_RM w \<noteq> 5 \<and> DECODE_RM w \<noteq> 6"
  shows "\<exists>j E. j < length (p_InstTable (tables feature_RV64GC)) \<and> E = p_InstTable (tables feature_RV64GC) ! j \<and>
    e_func E = Some (isa_func i) \<and> e_format E = isa_format i \<and> \<not> e_compressed E \<and>
    DecodeInst F (tables feature_RV64GC) cp w =
      res_bind (decode_format w E) (\<lambda>I. Inr (I\<lparr>i_entry := of_nat j, i_isCoProcInst := False\<rparr>))"
proof -
  obtain j where j: "j < length table_RV64GC" "p_EncToEntry (tables feature_RV64GC) (isa_key i) = Some j"
    "entry_agrees i (table_RV64GC ! j)" "\<not> e_compressed (table_RV64GC ! j)"
    using isa_lookup [OF i] by blast
  have "isa_mask i AND 3 = 3" "isa_match i AND 3 = 3"
    using isa_masks [OF i] by (auto simp: isa_mask_ok_def Let_def)
  then have "w AND 3 = 3" using arg_cong [OF w, of "\<lambda>v. v AND 3"] by (simp add: and.assoc)
  from DecodeInst_found [OF this, of "tables feature_RV64GC" j] find_entry_isa [OF i w r] j show ?thesis
    by (intro exI [of _ j] exI [of _ "table_RV64GC ! j"]) (simp add: InstTable_RV64GC entry_agrees_def)
qed

lemma extensions_wf: "ext_wf RV32I" "ext_wf RV64I" "ext_wf RV32M" "ext_wf RV64M" "ext_wf RV32A" "ext_wf RV64A"
  "ext_wf RV32F" "ext_wf RV64F" "ext_wf RV32D" "ext_wf RV64D" "ext_wf Zicbom"
  by (simp_all add: ext_wf_def RV32I_def RV64I_def RV32M_def RV64M_def RV32A_def RV64A_def RV32F_def RV64F_def
      RV32D_def RV64D_def Zicbom_def table_keys ctables_compressed ZicbomTable_wf)

lemma tables_dispatch:
  assumes "IsRV64 F" shows "dispatch_ok (tables F)"
proof -
  have "\<not> IsRV32 F" using assms by (simp add: IsRV32_def IsRV64_def)
  then have "dispatch_ok (SeedInstTable F RevTables_empty)"
    using assms by (simp add: SeedInstTable_def Let_def EnableExt_dispatch extensions_wf dispatch_empty)
  then show ?thesis by (simp add: tables_def InitTableMapping_def dispatch_ok_def)
qed

lemma decode_format_isa:
  "e_format E \<in> {RVTypeR, RVTypeI, RVTypeS, RVTypeU, RVTypeB, RVTypeJ, RVTypeR4} \<Longrightarrow> \<exists>I. decode_format w E = Inr I"
  by (auto simp: decode_format_def)

lemma table_small: "length table_RV64GC < 2 ^ 32"
  by (simp add: table_RV64GC_def inst_tables)

lemma isa_formats: "i \<in> set isa_RV64GC \<Longrightarrow> isa_format i \<in> {RVTypeR, RVTypeI, RVTypeS, RVTypeU, RVTypeB, RVTypeJ, RVTypeR4}"
proof -
  have "list_all (\<lambda>i. isa_format i \<in> {RVTypeR, RVTypeI, RVTypeS, RVTypeU, RVTypeB, RVTypeJ, RVTypeR4}) isa_RV64GC"
    by (simp add: isa_RV64GC_def isa_RV32I_def isa_RV64I_def isa_RV32M_def isa_RV64M_def isa_RV32A_def
        isa_RV64A_def isa_RV32F_def isa_RV64F_def isa_RV32D_def isa_RV64D_def)
  then show "i \<in> set isa_RV64GC \<Longrightarrow> ?thesis" by (simp add: list_all_iff)
qed

lemma table_costs: "list_all (\<lambda>e. e_cost e = 1) table_RV64GC"
  by (simp add: table_RV64GC_def inst_tables RevInstDefaults_def)

text \<open>What decoding gives a processor to run, in any of its harts.\<close>

lemma decode_RV64GC_runs:
  assumes i: "i \<in> set isa_RV64GC" and w: "w AND isa_mask i = isa_match i"
    and r: "isa_rm i \<Longrightarrow> DECODE_RM w \<noteq> 5 \<and> DECODE_RM w \<noteq> 6"
  obtains I x j where "DecodeInst F (tables feature_RV64GC) cp w = Inr I"
    "p_EntryToExt (tables feature_RV64GC) (unat (i_entry I)) = Some (x, j)" "x < length (p_Extensions (tables feature_RV64GC))"
    "\<And>F C. Execute (p_Extensions (tables feature_RV64GC) ! x) j I F C = call_rounded (isa_func i) I F C"
    "unat (i_entry I) < length (p_InstTable (tables feature_RV64GC))" "i_cost I = 1" "i_instSize I = 4"
    "i_rm I = DECODE_RM w \<or> i_rm I = FRMode_None"
proof -
  let ?T = "tables feature_RV64GC"
  obtain n E where n: "n < length (p_InstTable ?T)" "E = p_InstTable ?T ! n" "e_func E = Some (isa_func i)"
    "e_format E = isa_format i" "\<not> e_compressed E"
    "DecodeInst F ?T cp w = res_bind (decode_format w E)
      (\<lambda>I. Inr (I\<lparr>i_entry := of_nat n, i_isCoProcInst := False\<rparr>))"
    using decode_RV64GC [OF i w r] by metis
  obtain I where I: "decode_format w E = Inr I"
    using decode_format_isa [of E] isa_formats [OF i] n(4) by metis
  let ?I = "I\<lparr>i_entry := of_nat n, i_isCoProcInst := False\<rparr>"
  have "n < 2 ^ 32" using n(1) table_small by (simp add: InstTable_RV64GC)
  then have e: "unat (i_entry ?I) = n" by (simp add: unat_of_nat)
  have c: "i_compressed ?I = e_compressed (p_InstTable ?T ! n)"
    using decode_format_size [OF I] n(2,5) by simp
  have f: "e_func (p_InstTable ?T ! n) = Some (isa_func i)" using n(2,3) by simp
  note d = tables_dispatch [of feature_RV64GC, simplified]
  obtain x j where x: "p_EntryToExt ?T n = Some (x, j)" "x < length (p_Extensions ?T)"
    using Execute_dispatch [OF d n(1) f c] by blast
  have "Execute (p_Extensions ?T ! x) j ?I F' C = call_rounded (isa_func i) ?I F' C" for F' C
    using Execute_dispatch [OF d n(1) f c, of F' C] x by auto
  moreover have "e_cost E = 1" using table_costs n(1,2) by (simp add: list_all_length InstTable_RV64GC)
  ultimately show ?thesis
    using that [of ?I x j] n(1,6) I e x decode_format_size(1,3,5) [OF I] by simp
qed
text \<open>
  C12: Every word that carries the fixed bits of an instruction of \<open>isa_RV64GC\<close>, the 32-bit instructions
  of RV64GC but ebreak, with any operands and, for the instructions with a rounding mode, any mode but
  the two reserved ones, is decoded to a table entry whose extension and index make Execute run exactly
  that instruction's function (under the rounding mode that the decoder has put into the instruction).
\<close>

theorem decode_execute_RV64GC:
  assumes i: "i \<in> set isa_RV64GC" and w: "w AND isa_mask i = isa_match i"
    and r: "isa_rm i \<Longrightarrow> DECODE_RM w \<noteq> 5 \<and> DECODE_RM w \<noteq> 6"
  shows "\<exists>I x j. DecodeInst feature_RV64GC (tables feature_RV64GC) cp w = Inr I \<and>
    p_EntryToExt (tables feature_RV64GC) (unat (i_entry I)) = Some (x, j) \<and>
    x < length (p_Extensions (tables feature_RV64GC)) \<and>
    Execute (p_Extensions (tables feature_RV64GC) ! x) j I feature_RV64GC C = call_rounded (isa_func i) I feature_RV64GC C"
  by (rule decode_RV64GC_runs [OF i w r, of feature_RV64GC cp]) auto

theorem decode_execute_RV64GC_witness:
  "\<exists>I x j. DecodeInst feature_RV64GC (tables feature_RV64GC) (\<lambda>_. False) 0x00500093 = Inr I \<and>
    p_EntryToExt (tables feature_RV64GC) (unat (i_entry I)) = Some (x, j) \<and>
    x < length (p_Extensions (tables feature_RV64GC)) \<and>
    Execute (p_Extensions (tables feature_RV64GC) ! x) j I feature_RV64GC core_example = call_rounded addi I feature_RV64GC core_example"
proof -
  have "isa addi RVTypeI 0x707F 0x13 \<in> set isa_RV64GC" by (simp add: isa_RV64GC_def isa_RV32I_def)
  from decode_execute_RV64GC [OF this, of "0x00500093" "\<lambda>_. False" core_example] show ?thesis by simp
qed

section \<open>The compressed instructions of RV64GC\<close>

definition ckeys_RV64GC :: "nat list" where
  "ckeys_RV64GC = [0, 34, 98, 32, 96, 81, 2050, 2306, 97, 113, 33, 49, 1, 2, 65, 69, 73, 143373, 143369, 143365, 143361,
     50, 114, 48, 112, 17, 159749, 159745, 18, 82, 16, 80]"

lemma filter_const2 [simp]:
  "list_all Q xs \<Longrightarrow> filter Q xs = xs" "list_all (\<lambda>x. \<not> Q x) xs \<Longrightarrow> filter Q xs = []"
  by (auto simp: list_all_iff filter_empty_conv)

lemma ckeys_of_table: "map (\<lambda>e. unat (CompressCEncoding e)) (filter e_compressed table_RV64GC) = ckeys_RV64GC"
proof -
  have "filter e_compressed table_RV64GC = RV32ICTable @ RV64ICTable @ RV32DCTable"
    by (simp add: table_RV64GC_def table_keys ctables_compressed)
  then show ?thesis
    by (simp add: RV32ICTable_def RV64ICTable_def RV32DCTable_def RevInstDefaults_def CompressCEncoding_def ckeys_RV64GC_def)
qed

lemma tables_cenc:
  "p_CEncToEntry (tables feature_RV64GC) k = first_index (\<lambda>e. e_compressed e \<and> CompressCEncoding e = k) 0 table_RV64GC"
proof -
  have "p_InstTable (SeedInstTable feature_RV64GC RevTables_empty) = table_RV64GC"
    using InstTable_RV64GC by (simp add: tables_def InitTableMapping_def)
  then show ?thesis
    by (simp add: tables_def InitTableMapping_def init_mapping_enc) (simp add: RevTables_empty_def)
qed

interpretation cenc: entry_index table_RV64GC e_compressed CompressCEncoding "p_CEncToEntry (tables feature_RV64GC)"
proof
  have "distinct (map unat (map CompressCEncoding (filter e_compressed table_RV64GC)))"
    using ckeys_of_table by (simp add: ckeys_RV64GC_def comp_def)
  then show "distinct (map CompressCEncoding (filter e_compressed table_RV64GC))"
    by (auto simp: distinct_map dest: inj_on_imageI2)
qed (simp add: tables_cenc)

text \<open>The bits of a compressed instruction its lookup key depends on.\<close>

definition cmask :: "u16 \<Rightarrow> u16" where
  "cmask c = (let opc = cbits c 0b11; l3 = drop_bit 13 (cbits c 0b1110000000000000) in
     if opc = 1 \<and> l3 = 4 then if drop_bit 10 (cbits c 0b110000000000) = 3 then 0xFC63 else 0xEC03
     else if opc = 2 \<and> l3 = 4 then 0xF003 else 0xE003)"

lemma cbits_cong:
  assumes "w AND M = c AND M" "ucast m AND M = ucast m" "ucast (ucast m :: u16) = m"
  shows "cbits w m = cbits c m"
proof -
  have "w AND ucast m = c AND ucast m" by (rule and_submask [OF assms(1,2)])
  then have "ucast (w AND ucast m) = (ucast (c AND ucast m) :: u32)" by simp
  then show ?thesis using assms(3) by (simp add: cbits_def unsigned_and_eq)
qed

lemma CEnc_cong:
  assumes "w AND cmask c = c AND cmask c" shows "CEnc w = CEnc c"
proof -
  let ?opc = "cbits c 0b11" and ?l3 = "drop_bit 13 (cbits c 0b1110000000000000)"
  have sub: "cbits w m = cbits c m" if "ucast m AND cmask c = ucast m" "ucast (ucast m :: u16) = m" for m
    by (rule cbits_cong [OF assms that])
  have 1: "cbits w 0b11 = ?opc" "cbits w 0b1110000000000000 = cbits c 0b1110000000000000"
    by (rule sub; simp add: cmask_def Let_def)+
  have 2: "cbits w 0b110000000000 = cbits c 0b110000000000" if "?opc = 1" "?l3 = 4"
    by (rule sub; simp add: cmask_def Let_def that)
  have 3: "cbits w 0b01100000 = cbits c 0b01100000" "cbits w 0b1111110000000000 = cbits c 0b1111110000000000"
    if "?opc = 1" "?l3 = 4" "drop_bit 10 (cbits c 0b110000000000) = 3"
    by (rule sub; simp add: cmask_def Let_def that)+
  have 4: "cbits w 0b1111000000000000 = cbits c 0b1111000000000000" if "?opc = 2" "?l3 = 4"
    by (rule sub; simp add: cmask_def Let_def that)
  have l3: "3 < ?l3 \<and> ?l3 < 5 \<longleftrightarrow> ?l3 = 4"
    by (auto simp: word_less_nat_alt word_unat_eq_iff)
  consider "?opc = 1" "?l3 = 4" | "?opc = 2" "?l3 = 4" | "?opc \<noteq> 1 \<and> ?opc \<noteq> 2 \<or> ?l3 \<noteq> 4" by blast
  then show ?thesis
  proof cases
    case 1
    with 2 3 show ?thesis unfolding CEnc_def Let_def \<open>cbits w 0b11 = ?opc\<close>
      \<open>cbits w 0b1110000000000000 = cbits c 0b1110000000000000\<close> by simp
  next
    case 2
    with 4 show ?thesis unfolding CEnc_def Let_def \<open>cbits w 0b11 = ?opc\<close>
      \<open>cbits w 0b1110000000000000 = cbits c 0b1110000000000000\<close> by simp
  next
    case 3
    then show ?thesis unfolding CEnc_def Let_def \<open>cbits w 0b11 = ?opc\<close>
      \<open>cbits w 0b1110000000000000 = cbits c 0b1110000000000000\<close> l3 by auto
  qed
qed

text \<open>The compressed instructions of RV64GC.\<close>

definition isa_RV64C :: "(inst_fun \<times> RevInstF \<times> u16 \<times> u16) list" where
  "isa_RV64C =
    [(caddi4spn, RVCTypeCIW, 0xE003, 0x0000), (clwsp, RVCTypeCI, 0xE003, 0x4002), (cswsp, RVCTypeCSS, 0xE003, 0xC002),
     (clw, RVCTypeCL, 0xE003, 0x4000), (csw, RVCTypeCS, 0xE003, 0xC000), (cj, RVCTypeCJ, 0xE003, 0xA001),
     (CRFUNC_1000, RVCTypeCR, 0xF003, 0x8002), (CRFUNC_1001, RVCTypeCR, 0xF003, 0x9002),
     (cbeqz, RVCTypeCB, 0xE003, 0xC001), (cbnez, RVCTypeCB, 0xE003, 0xE001), (cli, RVCTypeCI, 0xE003, 0x4001),
     (CIFUNC, RVCTypeCI, 0xE003, 0x6001), (caddi, RVCTypeCI, 0xE003, 0x0001), (cslli, RVCTypeCI, 0xE003, 0x0002),
     (csrli, RVCTypeCB, 0xEC03, 0x8001), (csrai, RVCTypeCB, 0xEC03, 0x8401), (candi, RVCTypeCB, 0xEC03, 0x8801),
     (cand, RVCTypeCA, 0xFC63, 0x8C61), (cor, RVCTypeCA, 0xFC63, 0x8C41), (cxor, RVCTypeCA, 0xFC63, 0x8C21),
     (csub, RVCTypeCA, 0xFC63, 0x8C01), (cldsp, RVCTypeCI, 0xE003, 0x6002), (csdsp, RVCTypeCSS, 0xE003, 0xE002),
     (cld, RVCTypeCL, 0xE003, 0x6000), (csd, RVCTypeCS, 0xE003, 0xE000), (caddiw, RVCTypeCI, 0xE003, 0x2001),
     (caddw, RVCTypeCA, 0xFC63, 0x9C21), (csubw, RVCTypeCA, 0xFC63, 0x9C01), (cfldsp, RVCTypeCI, 0xE003, 0x2002),
     (cfsdsp, RVCTypeCSS, 0xE003, 0xA002), (cfld, RVCTypeCL, 0xE003, 0x2000), (cfsd, RVCTypeCS, 0xE003, 0xA000)]"

lemma isa_RV64C_masks:
  "list_all (\<lambda>(f, fmt, m, c). c AND m = c \<and> cmask c AND m = cmask c \<and> NOT c AND 3 \<noteq> 0 \<and> m AND 3 = 3) isa_RV64C"
  by (simp add: isa_RV64C_def cmask_def cbits_def)

lemma isa_RV64C_keys: "map (\<lambda>(f, fmt, m, c). unat (CEnc c)) isa_RV64C = ckeys_RV64GC"
  by (simp add: isa_RV64C_def ckeys_RV64GC_def CEnc_def cbits_def)

lemma isa_RV64C_entries:
  "map (\<lambda>(f, fmt, m, c). (Some f, fmt)) isa_RV64C = map (\<lambda>e. (e_func e, e_format e)) (filter e_compressed table_RV64GC)"
proof -
  have "filter e_compressed table_RV64GC = RV32ICTable @ RV64ICTable @ RV32DCTable"
    by (simp add: table_RV64GC_def table_keys ctables_compressed)
  then show ?thesis
    by (simp add: RV32ICTable_def RV64ICTable_def RV32DCTable_def RevInstDefaults_def isa_RV64C_def)
qed

lemma isa_RV64C_lookup:
  assumes "(f, fmt, m, c) \<in> set isa_RV64C"
  shows "\<exists>j. j < length table_RV64GC \<and> p_CEncToEntry (tables feature_RV64GC) (CEnc c) = Some j \<and>
    e_func (table_RV64GC ! j) = Some f \<and> e_format (table_RV64GC ! j) = fmt \<and> e_compressed (table_RV64GC ! j)"
proof -
  let ?T = "filter e_compressed table_RV64GC"
  obtain n where n: "n < length isa_RV64C" "isa_RV64C ! n = (f, fmt, m, c)"
    using assms by (auto simp: in_set_conv_nth)
  have l: "length isa_RV64C = length ?T" using arg_cong [OF isa_RV64C_entries, of length] by simp
  have k: "unat (CEnc c) = unat (CompressCEncoding (?T ! n))"
    using arg_cong [OF isa_RV64C_keys [folded ckeys_of_table], of "\<lambda>xs. xs ! n"] n l by simp
  have e: "(Some f, fmt) = (e_func (?T ! n), e_format (?T ! n))"
    using arg_cong [OF isa_RV64C_entries, of "\<lambda>xs. xs ! n"] n l by simp
  have m: "?T ! n \<in> set ?T" using n l by (metis nth_mem)
  have "CompressCEncoding (?T ! n) = CEnc c" using k by (simp add: word_unat_eq_iff)
  from cenc.found_by_member [OF m this] obtain j where "j < length table_RV64GC" "p_CEncToEntry (tables feature_RV64GC) (CEnc c) = Some j"
    "table_RV64GC ! j = ?T ! n" by blast
  with e m show ?thesis by auto
qed

lemma isa_RV64C_formats:
  "list_all (\<lambda>(f, fmt, m, c). fmt \<in> {RVCTypeCR, RVCTypeCI, RVCTypeCSS, RVCTypeCIW, RVCTypeCL, RVCTypeCS, RVCTypeCA,
     RVCTypeCB, RVCTypeCJ}) isa_RV64C"
  by (simp add: isa_RV64C_def)

lemma decode_cformat_ok:
  "e_format E \<in> {RVCTypeCR, RVCTypeCI, RVCTypeCSS, RVCTypeCIW, RVCTypeCL, RVCTypeCS, RVCTypeCA, RVCTypeCB, RVCTypeCJ} \<Longrightarrow>
    \<exists>I. decode_cformat F w E = Inr I \<and> i_compressed I"
  by (auto simp: decode_cformat_def DecodeCRInst_def DecodeCIInst_def DecodeCSSInst_def DecodeCIWInst_def DecodeCLInst_def
      DecodeCSInst_def DecodeCAInst_def DecodeCBInst_def DecodeCJInst_def Let_def)

lemma low_bits_quadrant:
  fixes w :: u32 and m c :: u16
  assumes "ucast w AND m = c" "m AND 3 = 3" "NOT c AND 3 \<noteq> 0"
  shows "NOT w AND 3 \<noteq> 0"
proof
  assume "NOT w AND 3 = 0"
  then have "bit w 0" "bit w 1" by (simp_all add: word_enum bit_simps)
  moreover have "bit m 0" "bit m 1" using assms(2) by (simp_all add: word_enum bit_simps)
  ultimately have "bit c 0" "bit c 1" unfolding assms(1) [symmetric] by (simp_all add: bit_simps)
  then have "NOT c AND 3 = 0" by (simp add: word_enum bit_simps)
  with assms(3) show False by simp
qed

text \<open>
  C13: Every halfword that carries the fixed bits of a compressed RV64GC instruction is decoded, whatever
  follows it in memory, to the table entry whose function Execute runs for it.
\<close>

theorem decode_execute_RV64C:
  assumes i: "(f, fmt, m, c) \<in> set isa_RV64C" and w: "ucast w AND m = c"
  shows "\<exists>I x j. DecodeInst feature_RV64GC (tables feature_RV64GC) cp w = Inr I \<and>
    p_EntryToExt (tables feature_RV64GC) (unat (i_entry I)) = Some (x, j) \<and>
    x < length (p_Extensions (tables feature_RV64GC)) \<and>
    Execute (p_Extensions (tables feature_RV64GC) ! x) j I feature_RV64GC C = call_rounded f I feature_RV64GC C"
proof -
  let ?T = "tables feature_RV64GC"
  have ok: "c AND m = c" "cmask c AND m = cmask c" "NOT c AND 3 \<noteq> 0" "m AND 3 = 3"
    using isa_RV64C_masks i by (auto simp: list_all_iff)
  have "ucast w AND m = c AND m" using w ok(1) by simp
  then have key: "CEnc (ucast w) = CEnc c" by (intro CEnc_cong and_submask [OF _ ok(2)])
  have tmp: "ucast (w AND 0xFFFF) = (ucast w :: u16)" by (simp add: word_enum bit_simps)
  obtain n where n: "n < length table_RV64GC" "p_CEncToEntry ?T (CEnc c) = Some n"
    "e_func (table_RV64GC ! n) = Some f" "e_format (table_RV64GC ! n) = fmt" "e_compressed (table_RV64GC ! n)"
    using isa_RV64C_lookup [OF i] by blast
  let ?E = "table_RV64GC ! n"
  obtain I where I: "decode_cformat feature_RV64GC (ucast w) ?E = Inr I" "i_compressed I"
    using decode_cformat_ok [of ?E] isa_RV64C_formats i n(4) unfolding list_all_iff by fastforce
  let ?I = "I\<lparr>i_entry := of_nat n, i_isCoProcInst := False\<rparr>"
  have "NOT w AND 3 \<noteq> 0"
    by (rule low_bits_quadrant [OF w ok(4,3)])
  then have d: "DecodeInst feature_RV64GC ?T cp w = Inr ?I"
    using n(1,2) I(1) by (simp add: DecodeInst_def DecodeCompressed_def InstTable_RV64GC key tmp)
  have "n < 2 ^ 32" using n(1) table_small by simp
  then have e: "unat (i_entry ?I) = n" by (simp add: unat_of_nat)
  from Execute_dispatch [OF tables_dispatch [of feature_RV64GC], of n f ?I feature_RV64GC C] n I(2) d e
  show ?thesis by (auto simp: InstTable_RV64GC)
qed

theorem decode_execute_RV64C_witness:
  "\<exists>I x j. DecodeInst feature_RV64GC (tables feature_RV64GC) (\<lambda>_. False) 0xFFFF0085 = Inr I \<and>
    p_EntryToExt (tables feature_RV64GC) (unat (i_entry I)) = Some (x, j) \<and>
    x < length (p_Extensions (tables feature_RV64GC)) \<and>
    Execute (p_Extensions (tables feature_RV64GC) ! x) j I feature_RV64GC core_example = call_rounded caddi I feature_RV64GC core_example"
proof -
  have "(caddi, RVCTypeCI, 0xE003, 0x0001) \<in> set isa_RV64C" by (simp add: isa_RV64C_def)
  from decode_execute_RV64C [OF this, of "0xFFFF0085" "\<lambda>_. False" core_example] show ?thesis by simp
qed

section \<open>Encodings that go elsewhere\<close>

text \<open>
  The word of ebreak is not decoded: the immediate of a system instruction is taken one bit too low,
  so its key is that of no entry, and without a coprocessor the simulation stops with a fatal error.
\<close>

theorem ebreak_undecodable:
  "DecodeInst feature_RV64GC (tables feature_RV64GC) (\<lambda>_. False) 0x00100073 = Inl (Fatal ''failed to decode instruction'')"
proof -
  have "Enc 0x00100073 = 0x80073" by (simp add: enc_eval)
  moreover have "0x80073 \<notin> unat ` set keys_RV64GC"
    by (simp add: keys_defs)
  then have "p_EncToEntry (tables feature_RV64GC) 0x80073 = None"
    unfolding enc.key_absent keys_of_table by force
  ultimately have "find_entry (tables feature_RV64GC) 0x00100073 = None"
    by (simp add: find_entry_def inst65_def)
  then show ?thesis by (simp add: DecodeInst_def)
qed

lemma tables_RV32_le:
  assumes "IsRV32 F" "IsModeEnabled F RV_I"
  shows "tables_le (EnableExt F RV32I True RevTables_empty) (SeedInstTable F RevTables_empty)"
proof -
  let ?P = "EnableExt F RV32I True RevTables_empty"
  have "\<not> IsRV64 F" using assms(1) by (simp add: IsRV32_def IsRV64_def)
  moreover have "ext_dom RevTables_empty" by (simp add: ext_dom_def RevTables_empty_def)
  then have "tables_le ?P ?P" using EnableExt_le tables_le_refl tables_le_def by blast
  ultimately show ?thesis
    using assms unfolding SeedInstTable_def Let_def by (simp add: EnableExt_le_step)
qed

text \<open>
  C40: On an RV32 core with compressed instructions the entry of c.jal, which comes from the optional
  table, is recorded with its index in that table, but Execute looks the index up in the table of
  compressed instructions: c.jal runs the function of c.addi4spn.
\<close>

theorem cjal_runs_caddi4spn:
  assumes "IsRV32 F" "IsModeEnabled F RV_I" "IsModeEnabled F RV_C"
  shows "let n = length RV32ITable + length RV32ICTable in
    e_func (p_InstTable (tables F) ! n) = Some cjal \<and> p_EntryToExt (tables F) n = Some (0, 0) \<and>
    (\<forall>I C. i_compressed I \<longrightarrow> i_rm I = FRMode_None \<longrightarrow>
      Execute (p_Extensions (tables F) ! 0) 0 I F C = caddi4spn F I C)"
proof -
  let ?n = "length RV32ITable + length RV32ICTable" and ?P = "EnableExt F RV32I True RevTables_empty"
  have P: "p_InstTable ?P = RV32ITable @ RV32ICTable @ RV32ICOTable" "p_Extensions ?P = [RV32I]"
    using assms(3) by (simp_all add: RevTables_empty_def RV32I_def)
  have ext: "p_EntryToExt ?P ?n = Some (0, 0)"
    using assms(3) by (simp add: EnableExt_def Let_def push_entries_ext RevTables_empty_def RV32I_def RV32ICOTable_def
        dom_def lessThan_def) 
  have le: "tables_le ?P (SeedInstTable F RevTables_empty)" by (rule tables_RV32_le [OF assms(1,2)])
  then obtain es Xs where Q: "p_InstTable (tables F) = RV32ITable @ RV32ICTable @ RV32ICOTable @ es"
    "p_Extensions (tables F) = RV32I # Xs"
    unfolding tables_le_def P by (auto simp: tables_def InitTableMapping_def)
  have "?n < length (p_InstTable ?P)" unfolding P by (simp add: RV32ICOTable_def)
  with le ext have "p_EntryToExt (tables F) ?n = Some (0, 0)"
    by (simp add: tables_le_def tables_def InitTableMapping_def)
  moreover have "e_func (p_InstTable (tables F) ! ?n) = Some cjal"
    by (simp add: Q nth_append RV32ICOTable_def)
  moreover have "Execute (p_Extensions (tables F) ! 0) 0 I F C = caddi4spn F I C"
    if "i_compressed I" "i_rm I = FRMode_None" for I C
    using that by (simp add: Q Execute_def RV32I_def RV32ICTable_def)
  ultimately show ?thesis by (simp add: Let_def)
qed

theorem cjal_runs_caddi4spn_witness:
  "p_EntryToExt (tables feature_RV32GC) (length RV32ITable + length RV32ICTable) = Some (0, 0)"
proof -
  have "IsRV32 feature_RV32GC" "IsModeEnabled feature_RV32GC RV_I" "IsModeEnabled feature_RV32GC RV_C"
    by code_simp+
  from cjal_runs_caddi4spn [OF this] show ?thesis by (simp add: Let_def)
qed

end
