(* ===== verification/Rev_Prefetcher.thy ===== *)
theory Rev_Prefetcher
  imports Rev_InstHelpers
begin

text \<open>
  The instruction prefetcher of \<^verbatim>\<open>src/RevPrefetcher.cc\<close>. Each stream holds \<^verbatim>\<open>depth\<close> consecutive words
  from a base address; a stream is filled by reads of the memory, which complete at once when there
  is no memory controller. \<^verbatim>\<open>baseAddr\<close> and \<^verbatim>\<open>iStack\<close>, two vectors that are always changed together,
  are one list of pairs; \<^verbatim>\<open>OutstandingFetchQ\<close> and \<^verbatim>\<open>LSQueue\<close> are fields of the core.
\<close>

section \<open>State\<close>

definition REVPREF_INIT_ADDR :: u32 where
  "REVPREF_INIT_ADDR = 0xDEADBEEF"

record RevPrefetcher =
  pf_depth :: u32
  pf_streams :: "(u64 \<times> u32 list) list"

definition mk_RevPrefetcher :: "u32 \<Rightarrow> RevPrefetcher" where
  "mk_RevPrefetcher Depth = \<lparr>pf_depth = Depth, pf_streams = []\<rparr>"

section \<open>Filling and deleting streams\<close>

text \<open>The loop of \<^verbatim>\<open>Fill\<close>: every word is requested, recorded as outstanding and read.\<close>

fun fill_words :: "RevFeature \<Rightarrow> u64 \<Rightarrow> nat \<Rightarrow> RevCore \<Rightarrow> (u32 list \<times> RevCore) result" where
  "fill_words F Addr 0 C = Inr ([], C)"
| "fill_words F Addr (Suc n) C =
     (let h = GetHartToExecID F;
          req = mk_MemReq Addr 0 RegGPR h MemOpREAD True;
          C1 = LSQ_insert req C;
          C2 = C1\<lparr>c_OutstandingFetchQ := c_OutstandingFetchQ C1 @ [req]\<rparr>
      in res_bind (ReadMem h Addr 4 (c_M C2)) (\<lambda>(bs, M).
         res_bind (MarkLoadComplete req (C2\<lparr>c_M := M\<rparr>)) (\<lambda>C3.
         res_bind (fill_words F (Addr + 4) n C3) (\<lambda>(ws, C4).
         Inr (ucast (le_word bs :: u64) # ws, C4)))))"

definition Fill :: "RevFeature \<Rightarrow> u64 \<Rightarrow> RevPrefetcher \<Rightarrow> RevCore \<Rightarrow> (RevPrefetcher \<times> RevCore) result" where
  "Fill F Addr S C =
     (let A = Addr AND 0xFFFFFFFFFFFFFFFC
      in res_bind (fill_words F A (unat (pf_depth S)) C) (\<lambda>(ws, C1).
         Inr (S\<lparr>pf_streams := pf_streams S @ [(A, ws)]\<rparr>, C1)))"

definition DeleteStream :: "nat \<Rightarrow> RevPrefetcher \<Rightarrow> RevPrefetcher" where
  "DeleteStream i S =
     (if i < length (pf_streams S)
      then S\<lparr>pf_streams := take i (pf_streams S) @ drop (Suc i) (pf_streams S)\<rparr> else S)"

section \<open>Looking up\<close>

text \<open>The test of every scan, and the word offset in a stream.\<close>

definition in_stream :: "u32 \<Rightarrow> u64 \<Rightarrow> u64 \<Rightarrow> bool" where
  "in_stream depth Addr base = (base \<le> Addr \<and> Addr < base + ucast (depth * 4))"

definition stream_off :: "u64 \<Rightarrow> u64 \<Rightarrow> u32" where
  "stream_off Addr base = ucast ((Addr - base) div 4)"

text \<open>
  \<^verbatim>\<open>FetchUpper\<close>: the scan looks at every stream that holds the address, until one has it on a word
  boundary. The result is the return value and, when \<^verbatim>\<open>Fetched\<close> is set, the upper half.
\<close>

fun fetch_upper_scan :: "u32 \<Rightarrow> u64 \<Rightarrow> (u64 \<times> u32 list) list \<Rightarrow> (bool \<times> u32 option) result option" where
  "fetch_upper_scan depth Addr [] = None"
| "fetch_upper_scan depth Addr ((base, ws) # ss) =
     (if in_stream depth Addr base then
        let Off = stream_off Addr base in
        if Off > depth - 1 then Some (Inr (False, None))
        else if length ws \<le> unat Off then Some (Inl (Undefined ''iStack out of bounds''))
        else if ws ! unat Off = REVPREF_INIT_ADDR then Some (Inr (True, None))
        else if Addr = base + ucast (Off * 4) then Some (Inr (True, Some (push_bit 16 (ws ! unat Off))))
        else fetch_upper_scan depth Addr ss
      else fetch_upper_scan depth Addr ss)"

definition FetchUpper ::
  "RevFeature \<Rightarrow> u64 \<Rightarrow> RevPrefetcher \<Rightarrow> RevCore \<Rightarrow> (bool \<times> u32 option \<times> RevPrefetcher \<times> RevCore) result" where
  "FetchUpper F Addr S C =
     (case fetch_upper_scan (pf_depth S) Addr (pf_streams S) of
        Some r \<Rightarrow> res_bind r (\<lambda>(ok, inst). Inr (ok, inst, S, C))
      | None \<Rightarrow> res_bind (Fill F Addr S C) (\<lambda>(S1, C1). Inr (True, None, S1, C1)))"

fun find_stream :: "u32 \<Rightarrow> u64 \<Rightarrow> (u64 \<times> u32 list) list \<Rightarrow> nat option" where
  "find_stream depth Addr [] = None"
| "find_stream depth Addr ((base, ws) # ss) =
     (if in_stream depth Addr base then Some 0 else map_option Suc (find_stream depth Addr ss))"

text \<open>Whether the last outstanding fetch is still in the load queue.\<close>

definition fetch_pending :: "RevCore \<Rightarrow> bool" where
  "fetch_pending C =
     (c_OutstandingFetchQ C \<noteq> [] \<and>
      list_ex (\<lambda>(h, r). h = req_LSQHash (last (c_OutstandingFetchQ C)) \<and>
        mr_Addr r = mr_Addr (last (c_OutstandingFetchQ C))) (c_LSQueue C))"

definition IsAvail :: "RevFeature \<Rightarrow> u64 \<Rightarrow> RevPrefetcher \<Rightarrow> RevCore \<Rightarrow> (bool \<times> RevPrefetcher \<times> RevCore) result" where
  "IsAvail F Addr S C =
     (case find_stream (pf_depth S) Addr (pf_streams S) of
        None \<Rightarrow> res_bind (Fill F Addr S C) (\<lambda>(S1, C1). Inr (False, S1, C1))
      | Some i \<Rightarrow>
          let (base, ws) = pf_streams S ! i;
              lastAddr = base + ucast (pf_depth S * 4);
              Off = stream_off Addr base
          in if Off > pf_depth S - 1 then Inr (False, S, C)
             else if length ws \<le> unat Off then Inl (Undefined ''iStack out of bounds'')
             else if ws ! unat Off = REVPREF_INIT_ADDR then Inr (False, S, C)
             else if lastAddr - Addr < 4 \<or> Addr AND 3 \<noteq> 0 then
               res_bind (FetchUpper F (Addr + 2) S C) (\<lambda>(ok, inst, S1, C1).
               if \<not> ok \<or> inst = None then Inr (False, S1, C1) else Inr (\<not> fetch_pending C1, S1, C1))
             else Inr (\<not> fetch_pending C, S, C))"

text \<open>
  \<^verbatim>\<open>InstFetch\<close>, with the value of its output \<^verbatim>\<open>Inst\<close> before the call: the return value, \<^verbatim>\<open>Fetched\<close>
  and \<^verbatim>\<open>Inst\<close>, which is also set to the low half when the upper half is not there.
\<close>

definition InstFetch ::
  "RevFeature \<Rightarrow> u64 \<Rightarrow> u32 \<Rightarrow> RevPrefetcher \<Rightarrow> RevCore \<Rightarrow> (bool \<times> bool \<times> u32 \<times> RevPrefetcher \<times> RevCore) result" where
  "InstFetch F Addr Inst0 S C =
     (case find_stream (pf_depth S) Addr (pf_streams S) of
        None \<Rightarrow> res_bind (Fill F Addr S C) (\<lambda>(S1, C1). Inr (True, False, Inst0, S1, C1))
      | Some i \<Rightarrow>
          let (base, ws) = pf_streams S ! i;
              Off = stream_off Addr base
          in if Off > pf_depth S - 1 then Inr (False, False, Inst0, S, C)
             else if length ws \<le> unat Off then Inl (Undefined ''iStack out of bounds'')
             else if ws ! unat Off = REVPREF_INIT_ADDR then Inr (True, False, Inst0, S, C)
             else res_bind
               (if Addr = base + ucast (Off * 4) then Inr (True, Some 0, ws ! unat Off, S, C)
                else res_bind (FetchUpper F (Addr + 2) S C) (\<lambda>(ok, up, S1, C1).
                  Inr (ok, up, drop_bit 16 (ws ! unat Off), S1, C1)))
               (\<lambda>(ok, up, Inst, S1, C1).
               case up of
                 None \<Rightarrow> Inr (ok, False, Inst, S1, C1)
               | Some u \<Rightarrow>
                   if Off = pf_depth S1 - 1 then
                     res_bind (Fill F (Addr + 2) (DeleteStream i S1) C1) (\<lambda>(S2, C2).
                     Inr (True, True, Inst OR u, S2, C2))
                   else Inr (True, True, Inst OR u, S1, C1)))"

section \<open>Lemmas: filling a stream\<close>

definition mword :: "(u64 \<Rightarrow> u8) \<Rightarrow> u64 \<Rightarrow> u32" where
  "mword m a = ucast (le_word (vread m a 4))"

definition mem_same :: "nat \<Rightarrow> RevMem \<Rightarrow> RevMem \<Rightarrow> bool" where
  "mem_same k M M' \<longleftrightarrow> mem_inv M' \<and> vmem M' = vmem M \<and> mem_room k M' \<and>
     (\<forall>b n. mem_accessible b n M' = mem_accessible b n M)"

text \<open>A core whose fetches complete at once: no load of x0 and no fetch is outstanding.\<close>

definition fetch_ready :: "RevFeature \<Rightarrow> RevCore \<Rightarrow> bool" where
  "fetch_ready F C \<longleftrightarrow> c_hart C = GetHartToExecID F \<and> c_OutstandingFetchQ C = [] \<and>
     LSQ_count (LSQHash 0 RegGPR (GetHartToExecID F)) C = 0"

lemma fetch_ready_mem [simp]: "fetch_ready F (C\<lparr>c_M := M\<rparr>) = fetch_ready F C"
  by (simp add: fetch_ready_def LSQ_count_def)

lemma fill_word_complete:
  assumes "fetch_ready F C"
  shows "MarkLoadComplete (mk_MemReq a 0 RegGPR (GetHartToExecID F) MemOpREAD True)
     ((LSQ_insert (mk_MemReq a 0 RegGPR (GetHartToExecID F) MemOpREAD True) C)\<lparr>c_OutstandingFetchQ :=
        c_OutstandingFetchQ (LSQ_insert (mk_MemReq a 0 RegGPR (GetHartToExecID F) MemOpREAD True) C) @
        [mk_MemReq a 0 RegGPR (GetHartToExecID F) MemOpREAD True], c_M := M\<rparr>) = Inr (C\<lparr>c_M := M\<rparr>)"
  (is "MarkLoadComplete ?r ?C = _")
proof -
  have h: "req_LSQHash ?r = LSQHash 0 RegGPR (GetHartToExecID F)" by (simp add: mk_MemReq_hash)
  have "MarkLoadComplete ?r ?C = Inr (?C\<lparr>
    c_R := DependencySet (ucast (mr_DestReg ?r)) (mr_RegType ?r = RegFLOAT) False (c_R ?C),
    c_OutstandingFetchQ := erase_first (\<lambda>q. mr_Addr q = mr_Addr ?r) (c_OutstandingFetchQ ?C),
    c_LSQueue := c_LSQueue C\<rparr>)"
    using assms h by (intro MarkLoadComplete_insert) (simp_all add: fetch_ready_def LSQ_insert_def mk_MemReq_def)
  then show ?thesis
    using assms by (simp add: fetch_ready_def LSQ_insert_def mk_MemReq_def DependencySet_def)
qed

lemma fill_words_ok:
  assumes "fetch_ready F C" "mem_inv (c_M C)" "mem_room (2 * n + k) (c_M C)"
    and "\<And>y. y < n \<Longrightarrow> mem_accessible (Addr + of_nat (4 * y)) 4 (c_M C)"
  shows "\<exists>M. fill_words F Addr n C = Inr (map (\<lambda>y. mword (vmem (c_M C)) (Addr + of_nat (4 * y))) [0..<n], C\<lparr>c_M := M\<rparr>) \<and>
    mem_same k (c_M C) M"
  using assms
proof (induction n arbitrary: Addr C)
  case 0
  then show ?case by (auto simp: mem_same_def intro: exI [of _ "c_M C"])
next
  case (Suc n)
  have "mem_room (Suc (Suc (2 * n + k))) (c_M C)" using Suc.prems(3) by simp
  moreover have "mem_accessible Addr 4 (c_M C)" using Suc.prems(4) [of 0] by simp
  ultimately obtain M where M: "ReadMem (GetHartToExecID F) Addr 4 (c_M C) = Inr (vread (vmem (c_M C)) Addr 4, M)"
    "mem_same (2 * n + k) (c_M C) M"
    using mem.read_law [OF Suc.prems(2)] unfolding mem_same_def by blast
  let ?C = "C\<lparr>c_M := M\<rparr>"
  have acc: "mem_accessible (Addr + 4 + of_nat (4 * y)) 4 (c_M ?C)" if "y < n" for y
    using Suc.prems(4) [of "Suc y"] that M(2) by (simp add: mem_same_def algebra_simps)
  from Suc.IH [of ?C "Addr + 4", OF _ _ _ acc] Suc.prems(1) M(2) obtain M' where
    M': "fill_words F (Addr + 4) n ?C = Inr (map (\<lambda>y. mword (vmem (c_M C)) (Addr + 4 + of_nat (4 * y))) [0..<n], C\<lparr>c_M := M'\<rparr>)"
    "mem_same k M M'"
    by (auto simp: mem_same_def)
  have "map (\<lambda>y. mword (vmem (c_M C)) (Addr + of_nat (4 * y))) [0..<Suc n] =
      mword (vmem (c_M C)) Addr # map (\<lambda>y. mword (vmem (c_M C)) (Addr + 4 + of_nat (4 * y))) [0..<n]"
    by (simp add: upt_conv_Cons map_Suc_upt [symmetric] comp_def algebra_simps del: upt_Suc)
  moreover have "c_M (LSQ_insert r C) = c_M C" for r by (simp add: LSQ_insert_def)
  ultimately have "fill_words F Addr (Suc n) C = Inr (map (\<lambda>y. mword (vmem (c_M C)) (Addr + of_nat (4 * y))) [0..<Suc n], C\<lparr>c_M := M'\<rparr>)"
    using M(1) M'(1) fill_word_complete [OF Suc.prems(1), of Addr M]
    by (simp add: Let_def mword_def del: upt_Suc)
  moreover have "mem_same k (c_M C) M'" using M(2) M'(2) by (simp add: mem_same_def)
  ultimately show ?case by blast
qed

section \<open>Lemmas: streams agree with memory\<close>

definition stream_ok :: "u32 \<Rightarrow> (u64 \<Rightarrow> u8) \<Rightarrow> u64 \<times> u32 list \<Rightarrow> bool" where
  "stream_ok d m = (\<lambda>(b, ws). unat b mod 4 = 0 \<and> length ws = unat d \<and> unat b + 4 * unat d \<le> 2 ^ 50 \<and>
     (\<forall>y<unat d. ws ! y = mword m (b + of_nat (4 * y))))"

definition pf_inv :: "RevPrefetcher \<Rightarrow> (u64 \<Rightarrow> u8) \<Rightarrow> bool" where
  "pf_inv S m \<longleftrightarrow> 0 < pf_depth S \<and> unat (pf_depth S) \<le> 2 ^ 20 \<and> list_all (stream_ok (pf_depth S) m) (pf_streams S)"

lemma depth_times_4: "unat d \<le> 2 ^ 20 \<Longrightarrow> unat (ucast (d * 4 :: u32) :: u64) = 4 * unat d"
proof -
  assume "unat d \<le> 2 ^ 20"
  then have "unat (d * 4) = 4 * unat d" by (simp add: unat_word_ariths)
  moreover have "4 * unat d < 2 ^ 64" using \<open>unat d \<le> 2 ^ 20\<close> by simp
  ultimately show ?thesis by (simp add: unsigned_ucast_eq take_bit_nat_eq_self)
qed

lemma in_stream_unat:
  assumes "unat d \<le> 2 ^ 20" "unat b + 4 * unat d \<le> 2 ^ 50"
  shows "in_stream d A b \<longleftrightarrow> unat b \<le> unat A \<and> unat A < unat b + 4 * unat d"
proof -
  have "unat (b + ucast (d * 4)) = unat b + 4 * unat d"
    using assms depth_times_4 [OF assms(1)] by (simp add: unat_word_ariths)
  then show ?thesis by (simp add: in_stream_def word_le_nat_alt word_less_nat_alt)
qed

lemma stream_off_unat:
  assumes "unat d \<le> 2 ^ 20" "unat b \<le> unat A" "unat A < unat b + 4 * unat d"
  shows "unat (stream_off A b) = (unat A - unat b) div 4" "unat (stream_off A b) < unat d"
    "unat (ucast (stream_off A b * 4) :: u64) = 4 * ((unat A - unat b) div 4)"
proof -
  have "unat ((A - b) div 4) = (unat A - unat b) div 4"
    using assms(2) by (simp add: unat_div unat_sub word_le_nat_alt)
  moreover have lt: "(unat A - unat b) div 4 < unat d" using assms(2,3) by (simp add: div_less_iff_less_mult)
  ultimately show off: "unat (stream_off A b) = (unat A - unat b) div 4"
    using assms(1) by (simp add: stream_off_def unsigned_ucast_eq unsigned_take_bit_eq take_bit_nat_eq_self)
  then show "unat (stream_off A b) < unat d" using lt by simp
  then show "unat (ucast (stream_off A b * 4) :: u64) = 4 * ((unat A - unat b) div 4)"
    using depth_times_4 [of "stream_off A b"] assms(1) off by simp
qed

lemma vread_4: "vread m b 4 = [m b, m (b + 1), m (b + 2), m (b + 3)]"
  by (simp add: vread_def upt_rec numeral_2_eq_2 numeral_3_eq_3)

lemma mword_halves: "drop_bit 16 (mword m a) OR push_bit 16 (mword m (a + 4)) = mword m (a + 2)"
  by (simp add: mword_def vread_4 add.assoc word_enum bit_simps)

text \<open>A stream word found for an address, and what it holds.\<close>

lemma stream_word:
  assumes "stream_ok d m (b, ws)" "unat d \<le> 2 ^ 20" "in_stream d A b"
  shows "\<not> stream_off A b > d - 1" "unat (stream_off A b) < length ws"
    "ws ! unat (stream_off A b) = mword m (A - of_nat (unat A mod 4))"
    "A = b + ucast (stream_off A b * 4) \<longleftrightarrow> unat A mod 4 = 0"
    "unat A + (4 - unat A mod 4) \<le> unat b + 4 * unat d"
    "d - 1 = stream_off A b \<longleftrightarrow> unat b + 4 * unat d - 4 \<le> unat A"
proof -
  have s: "unat b mod 4 = 0" "length ws = unat d" "unat b + 4 * unat d \<le> 2 ^ 50"
    "\<And>y. y < unat d \<Longrightarrow> ws ! y = mword m (b + of_nat (4 * y))"
    using assms(1) by (auto simp: stream_ok_def)
  have r: "unat b \<le> unat A" "unat A < unat b + 4 * unat d"
    using in_stream_unat [OF assms(2) s(3)] assms(3) by auto
  note o = stream_off_unat [OF assms(2) r]
  have "0 < d" using r by (auto simp: word_less_nat_alt)
  then have d1: "unat (d - 1) = unat d - 1" by (simp add: unat_minus_one)
  show "\<not> stream_off A b > d - 1" using o(2) d1 by (simp add: word_less_nat_alt)
  show "unat (stream_off A b) < length ws" using o(2) s(2) by simp
  have m: "unat A mod 4 = (unat A - unat b) mod 4"
    using s(1) r(1) by (metis add.right_neutral le_add_diff_inverse2 mod_add_right_eq mod_diff_right_eq)
  have q: "unat b + 4 * ((unat A - unat b) div 4) = unat A - unat A mod 4"
    using m r(1) by (simp add: minus_mod_eq_mult_div [symmetric])
  have e: "b + of_nat (4 * unat (stream_off A b)) = A - of_nat (unat A mod 4)"
  proof -
    have "unat (b + of_nat (4 * unat (stream_off A b))) = unat A - unat A mod 4"
      using o(1) q r s(3) by (simp add: unat_word_ariths unat_of_nat)
    moreover have "unat (A - of_nat (unat A mod 4)) = unat A - unat A mod 4"
      by (simp add: unat_sub word_le_nat_alt unat_of_nat)
    ultimately show ?thesis by (simp add: word_unat_eq_iff)
  qed
  then show "ws ! unat (stream_off A b) = mword m (A - of_nat (unat A mod 4))"
    using s(4) [OF o(2)] by simp
  have "unat (b + ucast (stream_off A b * 4)) = unat A - unat A mod 4"
    using o(3) q r s(3) by (simp add: unat_word_ariths)
  then show "A = b + ucast (stream_off A b * 4) \<longleftrightarrow> unat A mod 4 = 0"
    using mod_less_eq_dividend [of "unat A" 4] by (auto simp: word_unat_eq_iff)
  have k: "unat A = unat b + 4 * unat (stream_off A b) + unat A mod 4"
    using q o(1) mod_less_eq_dividend [of "unat A" 4] by linarith
  have l: "unat A mod 4 < 4" by simp
  show "unat A + (4 - unat A mod 4) \<le> unat b + 4 * unat d" using k l o(2) by linarith
  have "d - 1 = stream_off A b \<longleftrightarrow> unat d = Suc (unat (stream_off A b))"
    using d1 o(2) by (auto simp: word_unat_eq_iff)
  also have "\<dots> \<longleftrightarrow> unat b + 4 * unat d - 4 \<le> unat A" using k l o(2) by linarith
  finally show "d - 1 = stream_off A b \<longleftrightarrow> unat b + 4 * unat d - 4 \<le> unat A" .
qed

lemma and_all_ones: "A AND 0xFFFFFFFFFFFFFFFF = A" for A :: u64
proof -
  have "(0xFFFFFFFFFFFFFFFF :: u64) = -1" by simp
  then show ?thesis by (simp only: and.right_neutral)
qed

lemma unat_and_3: "unat (A AND 3) = unat A mod 4" for A :: u64
proof -
  have "A AND 3 = take_bit 2 A" by (simp add: take_bit_eq_mask mask_eq_exp_minus_1)
  then have "unat (A AND 3) = take_bit 2 (unat A)" by (simp only: unsigned_take_bit_eq)
  then show ?thesis by (simp add: take_bit_eq_mod)
qed

lemma find_stream_SomeD:
  "find_stream d A ss = Some i \<Longrightarrow> i < length ss \<and> in_stream d A (fst (ss ! i))"
proof (induction ss arbitrary: i)
  case (Cons s ss)
  then show ?case by (cases s) (auto split: if_splits)
qed simp

lemma fetch_upper_scan_ok:
  assumes "list_all (stream_ok d m) ss" "unat d \<le> 2 ^ 20"
    and "fetch_upper_scan d A ss = Some r"
  shows "\<exists>up. r = Inr (True, up) \<and> (up = None \<or> up = Some (push_bit 16 (mword m A)))"
  using assms
proof (induction ss)
  case (Cons s ss)
  obtain b ws where s: "s = (b, ws)" by (cases s)
  have ok: "stream_ok d m (b, ws)" using Cons.prems(1) s by simp
  show ?case
  proof (cases "in_stream d A b")
    case True
    note w = stream_word [OF ok assms(2) True]
    show ?thesis using Cons s True w(1-4)
      by (auto simp: Let_def split: if_splits)
  next
    case False
    then show ?thesis using Cons s by auto
  qed
qed simp

lemma pf_inv_stream:
  assumes "pf_inv S m" "find_stream (pf_depth S) A (pf_streams S) = Some i"
  obtains b ws where "pf_streams S ! i = (b, ws)" "stream_ok (pf_depth S) m (b, ws)" "in_stream (pf_depth S) A b"
  using assms find_stream_SomeD [OF assms(2)] by (cases "pf_streams S ! i") (auto simp: pf_inv_def list_all_length)

lemma FetchUpper_SomeD:
  assumes "pf_inv S (vmem (c_M C))" "FetchUpper F A S C = Inr (ok, Some up, S1, C1)"
  shows "ok \<and> up = push_bit 16 (mword (vmem (c_M C)) A) \<and> S1 = S \<and> C1 = C"
proof -
  have "\<exists>r. fetch_upper_scan (pf_depth S) A (pf_streams S) = Some r"
    using assms(2) by (auto simp: FetchUpper_def res_bind_def split: option.splits sum.splits)
  then show ?thesis
    using assms fetch_upper_scan_ok [of "pf_depth S" "vmem (c_M C)" "pf_streams S" A]
    by (auto simp: FetchUpper_def pf_inv_def res_bind_def)
qed

lemma Fill_ok:
  assumes "fetch_ready F C" "mem_inv (c_M C)" "pf_inv S (vmem (c_M C))" "mem_room (2 * unat (pf_depth S) + k) (c_M C)"
    and "mem_accessible (A AND 0xFFFFFFFFFFFFFFFC) (4 * unat (pf_depth S)) (c_M C)"
  shows "\<exists>M ws. Fill F A S C = Inr (S\<lparr>pf_streams := pf_streams S @ [(A AND 0xFFFFFFFFFFFFFFFC, ws)]\<rparr>, C\<lparr>c_M := M\<rparr>) \<and>
    mem_same k (c_M C) M \<and> stream_ok (pf_depth S) (vmem (c_M C)) (A AND 0xFFFFFFFFFFFFFFFC, ws)"
proof -
  let ?A = "A AND 0xFFFFFFFFFFFFFFFC" and ?d = "unat (pf_depth S)"
  have acc: "mem_accessible (?A + of_nat (4 * y)) 4 (c_M C)" if "y < ?d" for y
  proof -
    have b: "unat ?A + 4 * ?d \<le> 2 ^ 50" "\<And>i. i < 4 * ?d \<Longrightarrow> isValidVirtAddr (?A + of_nat i) (m_segs (c_M C))"
      using assms(5) by (auto simp: mem_accessible_def)
    have u: "unat (?A + of_nat (4 * y)) = unat ?A + 4 * y"
      using b(1) that by (simp add: unat_word_ariths unat_of_nat)
    have "isValidVirtAddr (?A + of_nat (4 * y) + of_nat i) (m_segs (c_M C))" if "i < 4" for i
      using b(2) [of "4 * y + i"] that \<open>y < ?d\<close> by (simp add: add.assoc)
    then show ?thesis using b(1) u that by (simp add: mem_accessible_def)
  qed
  from fill_words_ok [OF assms(1,2,4) acc] obtain M where M:
    "fill_words F ?A ?d C = Inr (map (\<lambda>y. mword (vmem (c_M C)) (?A + of_nat (4 * y))) [0..<?d], C\<lparr>c_M := M\<rparr>)"
    "mem_same k (c_M C) M" by auto
  have "?A AND 3 = 0" by (simp add: and.assoc)
  then have "unat ?A mod 4 = 0" using unat_and_3 [of ?A] by simp
  then have "stream_ok (pf_depth S) (vmem (c_M C)) (?A, map (\<lambda>y. mword (vmem (c_M C)) (?A + of_nat (4 * y))) [0..<?d])"
    using assms(5) by (simp add: stream_ok_def mem_accessible_def)
  with M show ?thesis by (auto simp: Fill_def Let_def)
qed

lemma InstFetch_word:
  assumes "pf_inv S (vmem (c_M C))" "unat Addr mod 2 = 0"
    and "InstFetch F Addr Inst0 S C = Inr (ok, True, Inst, S', C')"
  shows "ok \<and> Inst = mword (vmem (c_M C)) Addr"
proof -
  let ?m = "vmem (c_M C)"
  have d: "unat (pf_depth S) \<le> 2 ^ 20" "list_all (stream_ok (pf_depth S) ?m) (pf_streams S)"
    using assms(1) by (simp_all add: pf_inv_def)
  obtain i where i: "find_stream (pf_depth S) Addr (pf_streams S) = Some i"
    using assms(3) by (auto simp: InstFetch_def res_bind_def split: option.splits sum.splits)
  obtain b ws where s: "pf_streams S ! i = (b, ws)" "stream_ok (pf_depth S) ?m (b, ws)" "in_stream (pf_depth S) Addr b"
    by (rule pf_inv_stream [OF assms(1) i])
  note w = stream_word [OF s(2) d(1) s(3)]
  show ?thesis
  proof (cases "unat Addr mod 4 = 0")
    case True
    then show ?thesis using assms(3) i s(1) w
      by (auto simp: InstFetch_def Let_def res_bind_def split: if_splits sum.splits)
  next
    case False
    then have r: "unat Addr mod 4 = 2" using assms(2) by presburger
    then have h: "drop_bit 16 (mword ?m (Addr - 2)) OR push_bit 16 (mword ?m (Addr + 2)) = mword ?m Addr"
      using mword_halves [of ?m "Addr - 2"] by (simp add: add.commute)
    have "\<exists>a up S1 C1. FetchUpper F (Addr + 2) S C = Inr (a, Some up, S1, C1) \<and> ok \<and>
      Inst = drop_bit 16 (mword ?m (Addr - 2)) OR up"
      using assms(3) i s(1) w(1-4) r False
      by (auto simp: InstFetch_def Let_def res_bind_def split: if_splits sum.splits option.splits)
    then obtain a up S1 C1 where up: "FetchUpper F (Addr + 2) S C = Inr (a, Some up, S1, C1)" "ok"
      "Inst = drop_bit 16 (mword ?m (Addr - 2)) OR up" by blast
    then have "up = push_bit 16 (mword ?m (Addr + 2))" using FetchUpper_SomeD [OF assms(1)] by blast
    with up h show ?thesis by simp
  qed
qed


lemma in_stream_base: "stream_ok d m (b, ws) \<Longrightarrow> 0 < d \<Longrightarrow> unat d \<le> 2 ^ 20 \<Longrightarrow> in_stream d b b"
  by (simp add: in_stream_unat stream_ok_def word_less_nat_alt)

lemma find_stream_append:
  "find_stream d A (ss @ ts) = (case find_stream d A ss of Some i \<Rightarrow> Some i
     | None \<Rightarrow> map_option (\<lambda>i. length ss + i) (find_stream d A ts))"
proof (induction ss)
  case Nil
  show ?case by (cases "find_stream d A ts") simp_all
next
  case (Cons s ss)
  then show ?case by (cases s; cases "find_stream d A ts") (auto split: option.splits)
qed

definition pf_example :: RevPrefetcher where
  "pf_example = \<lparr>pf_depth = 2, pf_streams = [(0x3F010, [0, 0])]\<rparr>"

definition mem_deadbeef :: RevMem where
  "mem_deadbeef = mem_example\<lparr>m_pageMap := [0 \<mapsto> (0, True)],
     m_physMem := (\<lambda>a. if a = 0x3F010 then 0xEF else if a = 0x3F011 then 0xBE else if a = 0x3F012 then 0xAD
       else if a = 0x3F013 then 0xDE else 0)\<rparr>"

lemma mword_example: "mword (vmem mem_example) a = 0"
proof -
  have "vmem mem_example b = 0" for b by (simp add: vmem_def mem_example_def RevMem_init_def)
  then show ?thesis by (simp add: mword_def vread_4)
qed

lemma mword_deadbeef: "mword (vmem mem_deadbeef) 0x3F010 = 0xDEADBEEF"
  by (simp add: mword_def vread_4 vmem_def mem_deadbeef_def page_paddr_def addrShift_def pageSize_def)

lemma fetch_ready_example: "fetch_ready feature_RV64GC core_example"
  by (simp add: fetch_ready_def core_example_def GetHartToExecID_def feature_RV64GC_def LSQ_count_def)

section \<open>Properties\<close>

text \<open>
  C17: A word-aligned address that no stream holds becomes available by one fill, unless its word is
  0xDEADBEEF, the mark of an unfilled entry: the call that misses appends a stream with the words that
  memory holds from the address on, and the next call finds the instruction there. Nothing else of the
  core changes, registers, load queue and fetch queue included, and memory holds the same bytes.
\<close>

theorem fetch_after_fill:
  assumes "fetch_ready F C" "mem_inv (c_M C)" "pf_inv S (vmem (c_M C))" "mem_room (2 * unat (pf_depth S)) (c_M C)"
    and "unat Addr mod 4 = 0" "mem_accessible Addr (4 * unat (pf_depth S)) (c_M C)"
    and "find_stream (pf_depth S) Addr (pf_streams S) = None" "mword (vmem (c_M C)) Addr \<noteq> REVPREF_INIT_ADDR"
  shows "\<exists>S' C'. IsAvail F Addr S C = Inr (False, S', C') \<and> IsAvail F Addr S' C' = Inr (True, S', C') \<and>
    S' = S\<lparr>pf_streams := pf_streams S @ [(Addr, map (\<lambda>y. mword (vmem (c_M C)) (Addr + of_nat (4 * y))) [0..<unat (pf_depth S)])]\<rparr> \<and>
    C' = C\<lparr>c_M := c_M C'\<rparr> \<and> vmem (c_M C') = vmem (c_M C) \<and> mem_inv (c_M C')"
proof -
  let ?m = "vmem (c_M C)" and ?d = "pf_depth S"
  have "Addr AND 3 = 0" using unat_and_3 [of Addr] assms(5) by (simp add: word_unat_eq_iff)
  moreover have "Addr = (Addr AND 0xFFFFFFFFFFFFFFFC) OR (Addr AND 3)"
    unfolding bit.conj_disj_distrib [symmetric] using and_all_ones by simp
  ultimately have al: "Addr AND 0xFFFFFFFFFFFFFFFC = Addr" by simp
  have d: "0 < ?d" "unat ?d \<le> 2 ^ 20" "list_all (stream_ok ?d ?m) (pf_streams S)"
    using assms(3) by (simp_all add: pf_inv_def)
  from Fill_ok [OF assms(1-3), of 0 Addr] assms(4,6) al obtain M ws where f:
    "Fill F Addr S C = Inr (S\<lparr>pf_streams := pf_streams S @ [(Addr, ws)]\<rparr>, C\<lparr>c_M := M\<rparr>)"
    "mem_same 0 (c_M C) M" "stream_ok ?d ?m (Addr, ws)" by auto
  let ?S = "S\<lparr>pf_streams := pf_streams S @ [(Addr, ws)]\<rparr>" and ?C = "C\<lparr>c_M := M\<rparr>"
  have b: "in_stream ?d Addr Addr" by (rule in_stream_base [OF f(3) d(1,2)])
  note w = stream_word [OF f(3) d(2) b]
  have "lastAddr - Addr < 4 \<longleftrightarrow> False" if "lastAddr = Addr + ucast (?d * 4)" for lastAddr :: u64
    using that depth_times_4 [OF d(2)] d(1) by (simp add: word_less_nat_alt)
  moreover have "\<not> fetch_pending ?C" using assms(1) by (simp add: fetch_pending_def fetch_ready_def)
  ultimately have "IsAvail F Addr ?S ?C = Inr (True, ?S, ?C)"
    using b w assms(5,8) assms(7) \<open>Addr AND 3 = 0\<close>
    by (simp add: IsAvail_def find_stream_append Let_def)
  moreover have "IsAvail F Addr S C = Inr (False, ?S, ?C)" by (simp add: IsAvail_def assms(7) f(1))
  moreover have "ws = map (\<lambda>y. mword ?m (Addr + of_nat (4 * y))) [0..<unat ?d]"
    using f(3) by (intro nth_equalityI) (simp_all add: stream_ok_def)
  ultimately show ?thesis using f(2) by (intro exI [of _ ?S] exI [of _ ?C]) (simp add: mem_same_def)
qed

theorem fetch_after_fill_witness:
  "\<exists>S' C'. IsAvail feature_RV64GC 0x3F010 (mk_RevPrefetcher 2) core_example = Inr (False, S', C') \<and>
    IsAvail feature_RV64GC 0x3F010 S' C' = Inr (True, S', C')"
proof -
  have "mem_accessible 0x3F010 8 mem_example"
    by (simp add: mem_accessible_def mem_example_def isValidVirtAddr_def RevSegs_init_def AddMemSegAt_def
        mk_MemSegment_def seg_contains_def all_less_8)
  moreover have "mword (vmem mem_example) 0x3F010 = 0"
    by (simp add: mword_example)
  ultimately show ?thesis
    using fetch_after_fill [of feature_RV64GC core_example "mk_RevPrefetcher 2" "0x3F010"] mem_example_inv fetch_ready_example
    by (fastforce simp: mk_RevPrefetcher_def pf_inv_def REVPREF_INIT_ADDR_def)
qed

text \<open>
  An instruction word equal to the mark of an unfilled entry, 0xDEADBEEF, is never available: the
  call changes nothing, so the hart that fetches it stalls for ever.
\<close>

theorem deadbeef_stalls:
  assumes "pf_inv S (vmem (c_M C))" "find_stream (pf_depth S) Addr (pf_streams S) = Some i"
    and "mword (vmem (c_M C)) (Addr - of_nat (unat Addr mod 4)) = 0xDEADBEEF"
  shows "IsAvail F Addr S C = Inr (False, S, C)"
proof -
  obtain b ws where s: "pf_streams S ! i = (b, ws)" "stream_ok (pf_depth S) (vmem (c_M C)) (b, ws)" "in_stream (pf_depth S) Addr b"
    by (rule pf_inv_stream [OF assms(1,2)])
  have "unat (pf_depth S) \<le> 2 ^ 20" using assms(1) by (simp add: pf_inv_def)
  from stream_word [OF s(2) this s(3)] show ?thesis
    using assms(2,3) s(1) by (simp add: IsAvail_def Let_def REVPREF_INIT_ADDR_def)
qed

theorem deadbeef_stalls_witness:
  "IsAvail feature_RV64GC 0x3F010 (mk_RevPrefetcher 1 \<lparr>pf_streams := [(0x3F010, [0xDEADBEEF])]\<rparr>)
     (core_example\<lparr>c_M := mem_deadbeef\<rparr>) =
   Inr (False, mk_RevPrefetcher 1 \<lparr>pf_streams := [(0x3F010, [0xDEADBEEF])]\<rparr>, core_example\<lparr>c_M := mem_deadbeef\<rparr>)"
proof (rule deadbeef_stalls)
  show "pf_inv (mk_RevPrefetcher 1\<lparr>pf_streams := [(0x3F010, [0xDEADBEEF])]\<rparr>) (vmem (c_M (core_example\<lparr>c_M := mem_deadbeef\<rparr>)))"
    by (simp add: pf_inv_def stream_ok_def mk_RevPrefetcher_def mword_deadbeef)
  show "find_stream (pf_depth (mk_RevPrefetcher 1\<lparr>pf_streams := [(0x3F010, [0xDEADBEEF])]\<rparr>)) 0x3F010
      (pf_streams (mk_RevPrefetcher 1\<lparr>pf_streams := [(0x3F010, [0xDEADBEEF])]\<rparr>)) = Some 0"
    by (simp add: mk_RevPrefetcher_def in_stream_def)
  show "mword (vmem (c_M (core_example\<lparr>c_M := mem_deadbeef\<rparr>))) (0x3F010 - of_nat (unat (0x3F010 :: u64) mod 4)) = 0xDEADBEEF"
    by (simp add: mword_deadbeef)
qed

text \<open>
  The states of a prefetcher that starts empty and is asked for instructions, while the core does other
  things in between that leave the bytes held in streams alone: there is no invalidation, so the code
  depends on a program not storing into instructions that are prefetched. The words after the addresses
  asked for are readable.
\<close>

definition fill_ok :: "u64 \<Rightarrow> RevPrefetcher \<Rightarrow> RevCore \<Rightarrow> bool" where
  "fill_ok A S C \<longleftrightarrow> mem_room (2 * unat (pf_depth S)) (c_M C) \<and>
     mem_accessible (A AND 0xFFFFFFFFFFFFFFFC) (4 * unat (pf_depth S)) (c_M C)"

definition streams_kept :: "RevPrefetcher \<Rightarrow> RevCore \<Rightarrow> RevCore \<Rightarrow> bool" where
  "streams_kept S C C' \<longleftrightarrow> (\<forall>(b, ws) \<in> set (pf_streams S). \<forall>i < 4 * unat (pf_depth S).
     vmem (c_M C') (b + of_nat i) = vmem (c_M C) (b + of_nat i))"

inductive pf_reach :: "RevFeature \<Rightarrow> RevPrefetcher \<Rightarrow> RevCore \<Rightarrow> bool" for F where
  start: "pf_reach F (mk_RevPrefetcher d) C" if "0 < d" "unat d \<le> 2 ^ 20" "fetch_ready F C" "mem_inv (c_M C)"
| avail: "pf_reach F S' C'" if "pf_reach F S C" "fill_ok Addr S C" "fill_ok (Addr + 2) S C" "IsAvail F Addr S C = Inr (b, S', C')"
| fetch: "pf_reach F S' C'" if "pf_reach F S C" "fill_ok Addr S C" "fill_ok (Addr + 2) S C"
    "InstFetch F Addr Inst0 S C = Inr (ok, fetched, Inst, S', C')"
| other: "pf_reach F S C'" if "pf_reach F S C" "streams_kept S C C'" "fetch_ready F C'" "mem_inv (c_M C')"

definition pf_good :: "RevFeature \<Rightarrow> RevPrefetcher \<Rightarrow> RevCore \<Rightarrow> bool" where
  "pf_good F S C \<longleftrightarrow> fetch_ready F C \<and> mem_inv (c_M C) \<and> pf_inv S (vmem (c_M C))"

lemma Fill_good:
  assumes "pf_good F S C" "fill_ok A S C" "Fill F A S C = Inr (S', C')"
  shows "pf_good F S' C'"
proof -
  have "mem_room (2 * unat (pf_depth S) + 0) (c_M C)" using assms(2) by (simp add: fill_ok_def)
  from Fill_ok [OF _ _ _ this, of F A] assms(1,2) obtain M ws where
    f: "Fill F A S C = Inr (S\<lparr>pf_streams := pf_streams S @ [(A AND 0xFFFFFFFFFFFFFFFC, ws)]\<rparr>, C\<lparr>c_M := M\<rparr>)"
      "mem_same 0 (c_M C) M" "stream_ok (pf_depth S) (vmem (c_M C)) (A AND 0xFFFFFFFFFFFFFFFC, ws)"
    by (auto simp: pf_good_def fill_ok_def)
  then show ?thesis using assms(1,3) by (auto simp: pf_good_def pf_inv_def mem_same_def)
qed

lemma DeleteStream_good:
  assumes "pf_good F S C"
  shows "pf_good F (DeleteStream i S) C" "fill_ok A (DeleteStream i S) C = fill_ok A S C"
proof -
  have "set (take i ss @ drop (Suc i) ss) \<subseteq> set ss" for ss :: "(u64 \<times> u32 list) list"
    using set_take_subset [of i ss] set_drop_subset [of "Suc i" ss] by auto
  then show "pf_good F (DeleteStream i S) C" "fill_ok A (DeleteStream i S) C = fill_ok A S C"
    using assms by (auto simp: pf_good_def pf_inv_def DeleteStream_def fill_ok_def list_all_iff)
qed

lemma FetchUpper_cases:
  assumes "FetchUpper F A S C = Inr (ok, up, S', C')"
  shows "S' = S \<and> C' = C \<or> up = None \<and> Fill F A S C = Inr (S', C')"
  using assms by (auto simp: FetchUpper_def res_bind_eq_Inr split: option.splits)

lemma IsAvail_good:
  assumes "pf_good F S C" "fill_ok Addr S C" "fill_ok (Addr + 2) S C" "IsAvail F Addr S C = Inr (b, S', C')"
  shows "pf_good F S' C'"
proof (cases "find_stream (pf_depth S) Addr (pf_streams S)")
  case None
  then show ?thesis using assms(4) Fill_good [OF assms(1,2)] by (auto simp: IsAvail_def res_bind_eq_Inr)
next
  case (Some i)
  then have "S' = S \<and> C' = C \<or> (\<exists>ok up. FetchUpper F (Addr + 2) S C = Inr (ok, up, S', C'))"
    using assms(4) by (auto simp: IsAvail_def Let_def case_prod_beta res_bind_eq_Inr split: if_splits)
  then show ?thesis using assms(1) Fill_good [OF assms(1,3)] FetchUpper_cases by metis
qed

lemma InstFetch_good:
  assumes "pf_good F S C" "fill_ok Addr S C" "fill_ok (Addr + 2) S C" "InstFetch F Addr Inst0 S C = Inr (ok, fetched, Inst, S', C')"
  shows "pf_good F S' C'"
proof (cases "find_stream (pf_depth S) Addr (pf_streams S)")
  case None
  then show ?thesis using assms(4) Fill_good [OF assms(1,2)] by (auto simp: InstFetch_def res_bind_eq_Inr)
next
  case (Some i)
  obtain base ws where s: "pf_streams S ! i = (base, ws)" by fastforce
  have refill: "pf_good F S2 C2" if "Fill F (Addr + 2) (DeleteStream i S) C = Inr (S2, C2)" for S2 C2
    using Fill_good [OF DeleteStream_good(1) [OF assms(1)] _ that] DeleteStream_good(2) [OF assms(1)] assms(3) by blast
  show ?thesis
  proof (cases "Addr = base + ucast (stream_off Addr base * 4)")
    case True
    then have "S' = S \<and> C' = C \<or> Fill F (Addr + 2) (DeleteStream i S) C = Inr (S', C')"
      using assms(4) Some s by (simp add: InstFetch_def Let_def res_bind_eq_Inr split: if_splits)
    then show ?thesis using assms(1) refill by blast
  next
    case False
    then consider "S' = S \<and> C' = C"
      | ok' up S1 C1 where "FetchUpper F (Addr + 2) S C = Inr (ok', up, S1, C1)"
          "S' = S1 \<and> C' = C1 \<or> up \<noteq> None \<and> Fill F (Addr + 2) (DeleteStream i S1) C1 = Inr (S', C')"
      using assms(4) Some s by (simp add: InstFetch_def Let_def res_bind_eq_Inr split: if_splits option.splits) fastforce+
    then show ?thesis
    proof cases
      case 2
      then show ?thesis using FetchUpper_cases [OF 2(1)] Fill_good [OF assms(1,3)] assms(1) refill by blast
    qed (use assms(1) in simp)
  qed
qed

lemma streams_kept_good:
  assumes "pf_good F S C" "streams_kept S C C'" "fetch_ready F C'" "mem_inv (c_M C')"
  shows "pf_good F S C'"
proof -
  let ?m = "vmem (c_M C)" and ?m' = "vmem (c_M C')"
  have "stream_ok (pf_depth S) ?m' (b, ws)" if s: "(b, ws) \<in> set (pf_streams S)" for b ws
  proof -
    have ok: "stream_ok (pf_depth S) ?m (b, ws)" using assms(1) s by (auto simp: pf_good_def pf_inv_def list_all_iff)
    have byte: "?m' (b + of_nat i) = ?m (b + of_nat i)" if "i < 4 * unat (pf_depth S)" for i
      using assms(2) s that by (auto simp: streams_kept_def)
    have "mword ?m' (b + of_nat (4 * y)) = mword ?m (b + of_nat (4 * y))" if "y < unat (pf_depth S)" for y
      using byte [of "4 * y"] byte [of "4 * y + 1"] byte [of "4 * y + 2"] byte [of "4 * y + 3"] that
      by (simp add: mword_def vread_4 ac_simps)
    then show ?thesis using ok by (simp add: stream_ok_def)
  qed
  then show ?thesis using assms by (auto simp: pf_good_def pf_inv_def list_all_iff)
qed

lemma pf_reach_good: "pf_reach F S C \<Longrightarrow> pf_good F S C"
proof (induction rule: pf_reach.induct)
  case (start d C)
  then show ?case by (simp add: pf_good_def pf_inv_def mk_RevPrefetcher_def)
qed (blast intro: IsAvail_good InstFetch_good streams_kept_good)+

lemma available_same:
  assumes "pf_reach F S C" "unat Addr mod 2 = 0" "IsAvail F Addr S C = Inr (True, S1, C1)"
  shows "S1 = S \<and> C1 = C"
proof -
  let ?m = "vmem (c_M C)"
  have inv: "pf_inv S ?m" using pf_reach_good [OF assms(1)] by (simp add: pf_good_def)
  then have d: "unat (pf_depth S) \<le> 2 ^ 20" "list_all (stream_ok (pf_depth S) ?m) (pf_streams S)"
    by (simp_all add: pf_inv_def)
  obtain i where i: "find_stream (pf_depth S) Addr (pf_streams S) = Some i"
    using assms(3) by (auto simp: IsAvail_def res_bind_def split: option.splits sum.splits)
  obtain b ws where s: "pf_streams S ! i = (b, ws)" "stream_ok (pf_depth S) ?m (b, ws)" "in_stream (pf_depth S) Addr b"
    by (rule pf_inv_stream [OF inv i])
  note w = stream_word [OF s(2) d(1) s(3)]
  have up: "\<exists>a u. FetchUpper F (Addr + 2) S C = Inr (a, Some u, S1, C1)" if "unat Addr mod 4 \<noteq> 0"
  proof -
    have "Addr AND 3 \<noteq> 0" using that unat_and_3 [of Addr] by auto
    then show ?thesis using assms(3) i s(1) w(1-4)
      by (auto simp: IsAvail_def Let_def res_bind_def split: if_splits sum.splits)
  qed
  show ?thesis
  proof (cases "unat Addr mod 4 = 0")
    case True
    then have "Addr AND 3 = 0" using unat_and_3 [of Addr] by (simp add: word_unat_eq_iff)
    moreover have "\<not> b + ucast (pf_depth S * 4) - Addr < 4"
    proof -
      have "unat (b + ucast (pf_depth S * 4)) = unat b + 4 * unat (pf_depth S)"
        using s(2) depth_times_4 [OF d(1)] by (simp add: stream_ok_def unat_word_ariths)
      then show ?thesis using w(5) True by (simp add: word_less_nat_alt unat_sub word_le_nat_alt)
    qed
    ultimately show ?thesis using assms(3) i s(1) w(1-4)
      by (auto simp: IsAvail_def Let_def split: if_splits)
  qed (use up FetchUpper_SomeD [OF inv] in blast)
qed

lemma available_word:
  assumes "pf_reach F S C" "unat Addr mod 2 = 0" "IsAvail F Addr S C = Inr (True, S1, C1)"
    and "InstFetch F Addr Inst0 S1 C1 = Inr (ok, fetched, Inst, S2, C2)"
  shows "S1 = S \<and> C1 = C \<and> ok \<and> fetched \<and> Inst = mword (vmem (c_M C)) Addr"
proof -
  let ?m = "vmem (c_M C)"
  have inv: "pf_inv S ?m" using pf_reach_good [OF assms(1)] by (simp add: pf_good_def)
  then have d: "unat (pf_depth S) \<le> 2 ^ 20" "list_all (stream_ok (pf_depth S) ?m) (pf_streams S)"
    by (simp_all add: pf_inv_def)
  obtain i where i: "find_stream (pf_depth S) Addr (pf_streams S) = Some i"
    using assms(3) by (auto simp: IsAvail_def res_bind_def split: option.splits sum.splits)
  obtain b ws where s: "pf_streams S ! i = (b, ws)" "stream_ok (pf_depth S) ?m (b, ws)" "in_stream (pf_depth S) Addr b"
    by (rule pf_inv_stream [OF inv i])
  note w = stream_word [OF s(2) d(1) s(3)]
  have up: "\<exists>a u. FetchUpper F (Addr + 2) S C = Inr (a, Some u, S1, C1)" if "unat Addr mod 4 \<noteq> 0"
  proof -
    have "Addr AND 3 \<noteq> 0" using that unat_and_3 [of Addr] by auto
    then show ?thesis using assms(3) i s(1) w(1-4)
      by (auto simp: IsAvail_def Let_def res_bind_def split: if_splits sum.splits)
  qed
  have eq: "S1 = S \<and> C1 = C" by (rule available_same [OF assms(1-3)])
  have "fetched"
  proof (cases "unat Addr mod 4 = 0")
    case True
    then show ?thesis using assms(3,4) i s(1) w(1-4) eq
      by (auto simp: IsAvail_def InstFetch_def Let_def res_bind_def split: if_splits sum.splits)
  next
    case False
    with up eq obtain a u where "FetchUpper F (Addr + 2) S C = Inr (a, Some u, S, C)" by blast
    then show ?thesis using assms(3,4) i s(1) w(1-4) eq False
      by (auto simp: IsAvail_def InstFetch_def Let_def res_bind_def split: if_splits sum.splits)
  qed
  with assms(4) eq have "InstFetch F Addr Inst0 S C = Inr (ok, True, Inst, S2, C2)" by simp
  from InstFetch_word [OF inv assms(2) this] \<open>fetched\<close> eq show ?thesis by blast
qed

lemma available_total:
  assumes "pf_reach F S C" "IsAvail F Addr S C = Inr (True, S, C)" "fill_ok (Addr + 2) S C"
  shows "\<exists>r. InstFetch F Addr Inst0 S C = Inr r"
proof -
  have g: "pf_good F S C" using pf_reach_good [OF assms(1)] .
  then have inv: "pf_inv S (vmem (c_M C))" and d: "unat (pf_depth S) \<le> 2 ^ 20" by (simp_all add: pf_good_def pf_inv_def)
  obtain i where i: "find_stream (pf_depth S) Addr (pf_streams S) = Some i"
    using assms(2) by (auto simp: IsAvail_def res_bind_def split: option.splits sum.splits)
  obtain b ws where s: "pf_streams S ! i = (b, ws)" "stream_ok (pf_depth S) (vmem (c_M C)) (b, ws)" "in_stream (pf_depth S) Addr b"
    by (rule pf_inv_stream [OF inv i])
  note w = stream_word [OF s(2) d s(3)]
  have "pf_good F (DeleteStream i S) C" "fill_ok (Addr + 2) (DeleteStream i S) C" using DeleteStream_good [OF g] assms(3) by simp_all
  then obtain x where x: "Fill F (Addr + 2) (DeleteStream i S) C = Inr x"
    using Fill_ok [of F C "DeleteStream i S" 0 "Addr + 2"] by (auto simp: pf_good_def fill_ok_def)
  show ?thesis
  proof (cases "unat Addr mod 4 = 0")
    case True
    then show ?thesis using i s(1) w(1-4) x by (auto simp: InstFetch_def Let_def case_prod_beta)
  next
    case False
    then have "Addr AND 3 \<noteq> 0" using unat_and_3 [of Addr] by auto
    then obtain ok u where "FetchUpper F (Addr + 2) S C = Inr (ok, Some u, S, C)" using assms(2) i s(1) w(1-4)
      by (auto simp: IsAvail_def Let_def res_bind_def split: if_splits sum.splits)
    then show ?thesis using i s(1) w(1-4) x by (auto simp: InstFetch_def Let_def case_prod_beta)
  qed
qed

text \<open>
  C16: In every state that a prefetcher reaches from its start, with stores in between that leave the bytes
  of its streams alone: when it says that an even address is available, and the words that a refill
  would read are readable, fetching there succeeds with the 32 bits that memory holds at that moment,
  also when the instruction straddles two words or two streams.
\<close>

theorem IsAvail_InstFetch:
  assumes "pf_reach F S C" "unat Addr mod 2 = 0" "IsAvail F Addr S C = Inr (True, S1, C1)" "fill_ok (Addr + 2) S C"
  shows "S1 = S \<and> C1 = C \<and> (\<exists>S2 C2. InstFetch F Addr Inst0 S C = Inr (True, True, mword (vmem (c_M C)) Addr, S2, C2))"
proof -
  note eq = available_same [OF assms(1-3)]
  then obtain ok fetched Inst S2 C2 where f: "InstFetch F Addr Inst0 S C = Inr (ok, fetched, Inst, S2, C2)"
    using available_total [OF assms(1) _ assms(4), of Inst0] assms(3) by auto
  then have "InstFetch F Addr Inst0 S1 C1 = Inr (ok, fetched, Inst, S2, C2)" using eq by simp
  from available_word [OF assms(1-3) this] have "ok" "fetched" "Inst = mword (vmem (c_M C)) Addr" by simp_all
  then show ?thesis using eq f by simp
qed

text \<open>A prefetcher of two words per stream, after it was asked for the instruction at 0x3F010.\<close>

lemma pf_example_reach: "pf_reach feature_RV64GC pf_example core_example"
proof -
  let ?S = "mk_RevPrefetcher 2" and ?C = "core_example"
  have acc: "mem_accessible 0x3F010 8 mem_example"
    by (simp add: mem_accessible_def mem_example_def isValidVirtAddr_def RevSegs_init_def AddMemSegAt_def
        mk_MemSegment_def seg_contains_def all_less_8)
  have fill: "fill_ok 0x3F010 ?S ?C" "fill_ok (0x3F010 + 2) ?S ?C" using acc mem_example_inv(2) by (simp_all add: fill_ok_def mk_RevPrefetcher_def)
  have start: "pf_reach feature_RV64GC ?S ?C" using mem_example_inv(1) fetch_ready_example by (auto intro: pf_reach.start)
  from pf_reach_good [OF this] Fill_ok [of feature_RV64GC ?C ?S 0 "0x3F010"] fill obtain M ws where
    f: "Fill feature_RV64GC 0x3F010 ?S ?C = Inr (?S\<lparr>pf_streams := [(0x3F010, ws)]\<rparr>, ?C\<lparr>c_M := M\<rparr>)" "mem_same 0 mem_example M"
      "stream_ok 2 (vmem mem_example) (0x3F010, ws)"
    by (auto simp: pf_good_def fill_ok_def mk_RevPrefetcher_def)
  have "length ws = 2" "ws ! 0 = 0" "ws ! 1 = 0" using f(3) by (simp_all add: stream_ok_def mword_example)
  then have "ws = [0, 0]" by (intro nth_equalityI) (auto simp: less_2_cases_iff)
  then have "?S\<lparr>pf_streams := [(0x3F010, ws)]\<rparr> = pf_example" by (simp add: pf_example_def mk_RevPrefetcher_def)
  then have "IsAvail feature_RV64GC 0x3F010 ?S ?C = Inr (False, pf_example, ?C\<lparr>c_M := M\<rparr>)"
    using f(1) by (simp add: IsAvail_def mk_RevPrefetcher_def)
  then have "pf_reach feature_RV64GC pf_example (?C\<lparr>c_M := M\<rparr>)" by (rule pf_reach.avail [OF start fill])
  then show ?thesis
    by (rule pf_reach.other) (use f(2) mem_example_inv(1) fetch_ready_example in \<open>simp_all add: streams_kept_def mem_same_def\<close>)
qed

theorem IsAvail_InstFetch_witness:
  "IsAvail feature_RV64GC 0x3F012 pf_example core_example = Inr (True, pf_example, core_example) \<and>
   (\<exists>S2 C2. InstFetch feature_RV64GC 0x3F012 1 pf_example core_example = Inr (True, True, 0, S2, C2))"
proof -
  have a: "IsAvail feature_RV64GC 0x3F012 pf_example core_example = Inr (True, pf_example, core_example)"
    by (simp add: IsAvail_def FetchUpper_def pf_example_def in_stream_def stream_off_def REVPREF_INIT_ADDR_def fetch_pending_def core_example_def)
  have "mem_accessible 0x3F014 8 mem_example"
    by (simp add: mem_accessible_def mem_example_def isValidVirtAddr_def RevSegs_init_def AddMemSegAt_def
        mk_MemSegment_def seg_contains_def all_less_8)
  then have f: "fill_ok (0x3F012 + 2) pf_example core_example" using mem_example_inv(2) by (simp add: fill_ok_def pf_example_def)
  show ?thesis using IsAvail_InstFetch [OF pf_example_reach _ a f, of 1] a by (simp add: mword_example)
qed

end
