(* ===== verification/Rev_Proc.thy ===== *)
theory Rev_Proc
  imports Rev_Decode Rev_Prefetcher
begin

text \<open>
  The processor of \<^verbatim>\<open>src/RevProc.cc\<close> and \<^verbatim>\<open>include/RevProc.h\<close>, with its harts (\<^verbatim>\<open>RevHart.h\<close>) and software
  threads (\<^verbatim>\<open>RevThread.h\<close>): scheduling of harts, hazards, assignment of threads, fault injection and
  the clock tick that fetches, decodes, executes and retires. Register files are objects that harts
  and threads own in turn while the processor keeps a pointer to the one it decodes for, so they
  live in a store and are referred to by number. The coprocessor and the system calls are parameters.
\<close>

section \<open>Threads and harts\<close>

record RevThread =
  th_ID :: u32
  th_ParentID :: u32
  th_ThreadMem :: MemSegment
  th_State :: ThreadState
  th_VirtRegState :: "nat option"
  th_ChildrenIDs :: "u32 set"
  th_fildes :: "int set"
  th_WaitingToJoinTID :: u32

definition mk_RevThread :: "u32 \<Rightarrow> u32 \<Rightarrow> MemSegment \<Rightarrow> nat \<Rightarrow> RevThread" where
  "mk_RevThread ID ParentID ThreadMem VirtRegState =
     \<lparr>th_ID = ID, th_ParentID = ParentID, th_ThreadMem = ThreadMem, th_State = START,
      th_VirtRegState = Some VirtRegState, th_ChildrenIDs = {}, th_fildes = {0, 1, 2},
      th_WaitingToJoinTID = INVALID_TID\<rparr>"

definition SetState :: "ThreadState \<Rightarrow> RevThread \<Rightarrow> RevThread" where
  "SetState s T = T\<lparr>th_State := s\<rparr>"

text \<open>The state of a system call that takes several cycles (\<^verbatim>\<open>RevSysCalls.h\<close>).\<close>

record EcallState =
  ec_buf :: "u8 list"
  ec_string :: "u8 list"
  ec_path_string :: "u8 list"
  ec_bytesRead :: nat

definition EcallState_init :: EcallState where
  "EcallState_init = \<lparr>ec_buf = replicate 64 0, ec_string = [], ec_path_string = [], ec_bytesRead = 0\<rparr>"

definition EcallState_clear :: "EcallState \<Rightarrow> EcallState" where
  "EcallState_clear E = E\<lparr>ec_string := [], ec_path_string := [], ec_bytesRead := 0, ec_buf := (ec_buf E)[0 := 0]\<rparr>"

record RevHart =
  ha_ID :: u32
  ha_Ecall :: EcallState
  ha_Thread :: "RevThread option"
  ha_RegFile :: "nat option"

definition mk_RevHart :: "u32 \<Rightarrow> RevHart" where
  "mk_RevHart ID = \<lparr>ha_ID = ID, ha_Ecall = EcallState_init, ha_Thread = None, ha_RegFile = None\<rparr>"

definition GetAssignedThreadID :: "RevHart \<Rightarrow> u32" where
  "GetAssignedThreadID H = (case ha_Thread H of Some T \<Rightarrow> th_ID T | None \<Rightarrow> INVALID_TID)"

text \<open>\<^verbatim>\<open>TransferVirtRegState\<close> and \<^verbatim>\<open>UpdateVirtRegState\<close> move the register file.\<close>

definition hart_AssignThread :: "RevThread \<Rightarrow> RevHart \<Rightarrow> RevHart result" where
  "hart_AssignThread ThreadToAssign H =
     (case th_VirtRegState ThreadToAssign of
        None \<Rightarrow> Inl (Undefined ''thread without a register file'')
      | Some R \<Rightarrow> Inr (H\<lparr>ha_Thread := Some ((SetState RUNNING ThreadToAssign)\<lparr>th_VirtRegState := None\<rparr>),
                         ha_RegFile := Some R\<rparr>))"

definition hart_PopThread :: "RevHart \<Rightarrow> (RevThread \<times> RevHart) result" where
  "hart_PopThread H =
     (case ha_Thread H of
        None \<Rightarrow> Inl (Undefined ''hart without a thread'')
      | Some T \<Rightarrow> Inr (T\<lparr>th_VirtRegState := ha_RegFile H\<rparr>, H\<lparr>ha_Thread := None, ha_RegFile := None\<rparr>))"

section \<open>The processor\<close>

record RevProcStats =
  st_totalCycles :: u64
  st_cyclesBusy :: u64
  st_cyclesIdle_Total :: u64
  st_cyclesStalled :: u64
  st_floatsExec :: u64
  st_cyclesIdle_Pipeline :: u64
  st_cyclesIdle_MemoryFetch :: u64
  st_retired :: u64

definition RevProcStats_zero :: RevProcStats where
  "RevProcStats_zero = \<lparr>st_totalCycles = 0, st_cyclesBusy = 0, st_cyclesIdle_Total = 0, st_cyclesStalled = 0,
     st_floatsExec = 0, st_cyclesIdle_Pipeline = 0, st_cyclesIdle_MemoryFetch = 0, st_retired = 0\<rparr>"

text \<open>
  What the processor has from outside: the random number generator at both widths, the host's
  floating point and system calls, the clock of the simulation, the options and the global pointer
  of the loaded program. A host call gives a return value and, for a read, bytes; the answer may
  depend on the calls made before.
\<close>

datatype HostCall =
    Host_getcwd
  | Host_mkdirat u32 "u8 list" u16
  | Host_chdir "u8 list"
  | Host_open_cwd u32
  | Host_openat u32 "u8 list" u32
  | Host_close u32
  | Host_read u32 u64
  | Host_write u32 "u8 list"

record RevEnv =
  env_rand :: "u32 \<Rightarrow> u32 \<Rightarrow> nat \<Rightarrow> u32"
  env_rand64 :: "u64 \<Rightarrow> u64 \<Rightarrow> nat \<Rightarrow> u64"
  env_fp :: HostFP
  env_host :: "HostCall \<Rightarrow> HostCall list \<Rightarrow> u32 \<times> u8 list"
  env_timeConverter :: "(u64 \<Rightarrow> u64) option"
  env_numCores :: u32
  env_numHarts :: u32
  env_gp :: u64

text \<open>
  Bitsets over harts are sets of hart numbers. \<open>q_regs\<close> is the store of register files and \<open>q_nregs\<close>
  its next free number; \<open>q_RegFile\<close> is the pointer \<^verbatim>\<open>RegFile\<close>, null at first. \<open>q_hostlog\<close> is the
  list of host calls made so far.
\<close>

record RevProc =
  q_Halted :: bool
  q_Stalled :: bool
  q_SingleStep :: bool
  q_CrackFault :: bool
  q_ALUFault :: bool
  q_fault_width :: u32
  q_ExecPC :: u64
  q_HartToDecodeID :: u32
  q_HartToExecID :: u32
  q_Harts :: "RevHart list"
  q_IdleHarts :: "nat set"
  q_ValidHarts :: "nat set"
  q_HartsClearToDecode :: "nat set"
  q_HartsClearToExecute :: "nat set"
  q_CoProcStallReq :: "nat set"
  q_numHarts :: u32
  q_ThreadsThatChangedState :: "RevThread list"
  q_feature :: RevFeature
  q_tables :: RevTables
  q_Stats :: RevProcStats
  q_StatsTotal :: RevProcStats
  q_sfetch :: RevPrefetcher
  q_Pipeline :: "(u16 \<times> RevInst) list"
  q_RegFile :: "nat option"
  q_ActiveThreadID :: u32
  q_regs :: "nat \<Rightarrow> RevRegFile"
  q_nregs :: nat
  q_mem :: RevMem
  q_LSQueue :: "(u64 \<times> MemReq) list"
  q_OutstandingFetchQ :: "MemReq list"
  q_env :: RevEnv
  q_draws :: nat
  q_round :: u8
  q_hostlog :: "HostCall list"

text \<open>The view of the processor that an executing instruction has, and its way back.\<close>

definition core_of :: "u32 \<Rightarrow> nat \<Rightarrow> RevProc \<Rightarrow> RevCore" where
  "core_of h r P = \<lparr>c_hart = h, c_R = q_regs P r, c_M = q_mem P, c_LSQueue = q_LSQueue P,
     c_OutstandingFetchQ = q_OutstandingFetchQ P, c_rand = env_rand (q_env P), c_draws = q_draws P,
     c_fp = env_fp (q_env P), c_round = q_round P\<rparr>"

definition core_back :: "nat \<Rightarrow> RevCore \<Rightarrow> RevProc \<Rightarrow> RevProc" where
  "core_back r C P = P\<lparr>q_regs := (q_regs P)(r := c_R C), q_mem := c_M C, q_LSQueue := c_LSQueue C,
     q_OutstandingFetchQ := c_OutstandingFetchQ C, q_draws := c_draws C, q_round := c_round C\<rparr>"

definition Reset :: "RevProc \<Rightarrow> RevProc" where
  "Reset P = P\<lparr>q_IdleHarts := {..<unat (q_numHarts P)},
     q_ValidHarts := q_ValidHarts P \<union> {..<unat (q_numHarts P)}, q_Pipeline := [], q_CoProcStallReq := {}\<rparr>"

text \<open>The constructor, with the features and tables that were loaded for the core.\<close>

definition mk_RevProc :: "u32 \<Rightarrow> u32 \<Rightarrow> RevFeature \<Rightarrow> RevTables \<Rightarrow> RevMem \<Rightarrow> RevEnv \<Rightarrow> RevProc" where
  "mk_RevProc NumHarts PrefetchDepth F T Mem Env =
     Reset \<lparr>q_Halted = False, q_Stalled = False, q_SingleStep = False, q_CrackFault = False, q_ALUFault = False,
       q_fault_width = 0, q_ExecPC = 0, q_HartToDecodeID = 0, q_HartToExecID = 0,
       q_Harts = map (\<lambda>i. mk_RevHart (of_nat i)) [0..<unat NumHarts],
       q_IdleHarts = {}, q_ValidHarts = {..<unat NumHarts}, q_HartsClearToDecode = {}, q_HartsClearToExecute = {},
       q_CoProcStallReq = {}, q_numHarts = NumHarts, q_ThreadsThatChangedState = [], q_feature = F, q_tables = T,
       q_Stats = RevProcStats_zero, q_StatsTotal = RevProcStats_zero,
       q_sfetch = mk_RevPrefetcher (if PrefetchDepth = 0 then 16 else PrefetchDepth),
       q_Pipeline = [], q_RegFile = None, q_ActiveThreadID = INVALID_TID, q_regs = (\<lambda>_. mk_RevRegFile F), q_nregs = 0,
       q_mem = Mem, q_LSQueue = [], q_OutstandingFetchQ = [], q_env = Env, q_draws = 0,
       q_round = 0, q_hostlog = []\<rparr>"

section \<open>Control\<close>

definition Halt :: "RevProc \<Rightarrow> bool \<times> RevProc" where
  "Halt P = (if q_Halted P then (False, P) else (True, P\<lparr>q_Halted := True, q_SingleStep := False\<rparr>))"

definition Resume :: "RevProc \<Rightarrow> bool \<times> RevProc" where
  "Resume P = (if q_Halted P then (True, P\<lparr>q_Halted := False, q_SingleStep := False\<rparr>) else (False, P))"

definition SingleStepHart :: "RevProc \<Rightarrow> bool \<times> RevProc" where
  "SingleStepHart P =
     (if q_SingleStep P then (True, P)
      else if q_Halted P then (True, P\<lparr>q_Halted := False, q_SingleStep := True\<rparr>)
      else (False, P))"

text \<open>The register file of a hart: \<^verbatim>\<open>GetRegFile\<close>, and a use of the pointer it returns.\<close>

definition hart_regs :: "u32 \<Rightarrow> RevProc \<Rightarrow> nat result" where
  "hart_regs HartID P =
     (if length (q_Harts P) \<le> unat HartID then Inl (Fatal ''tried to get RegFile'')
      else case ha_RegFile (q_Harts P ! unat HartID) of
        None \<Rightarrow> Inl (Undefined ''hart without a register file'')
      | Some r \<Rightarrow> Inr r)"

definition DebugReadReg :: "u32 \<Rightarrow> RevProc \<Rightarrow> u64 option result" where
  "DebugReadReg Idx P =
     (if \<not> q_Halted P then Inr None
      else if 32 \<le> Idx then Inr None
      else res_bind (hart_regs (q_HartToExecID P) P) (\<lambda>r. Inr (Some (GetX (q_regs P r) (ucast Idx)))))"

definition DebugWriteReg :: "u32 \<Rightarrow> u64 \<Rightarrow> RevProc \<Rightarrow> (bool \<times> RevProc) result" where
  "DebugWriteReg Idx Value P =
     (if length (q_Harts P) \<le> unat (q_HartToExecID P) then Inl (Fatal ''tried to get RegFile'')
      else if \<not> q_Halted P then Inr (False, P)
      else if 32 \<le> Idx then Inr (False, P)
      else res_bind (hart_regs (q_HartToExecID P) P) (\<lambda>r.
        Inr (True, P\<lparr>q_regs := (q_regs P)(r := SetX_u (ucast Idx) Value (q_regs P r))\<rparr>)))"

definition ExternalStallHart :: "u16 \<Rightarrow> RevProc \<Rightarrow> RevProc result" where
  "ExternalStallHart HartID P =
     (if unat HartID < length (q_Harts P) then Inr (P\<lparr>q_CoProcStallReq := insert (unat HartID) (q_CoProcStallReq P)\<rparr>)
      else Inl (Fatal ''CoProc Request: Cannot stall Hart''))"

definition ExternalReleaseHart :: "u16 \<Rightarrow> RevProc \<Rightarrow> RevProc result" where
  "ExternalReleaseHart HartID P =
     (if unat HartID < length (q_Harts P) then Inr (P\<lparr>q_CoProcStallReq := q_CoProcStallReq P - {unat HartID}\<rparr>)
      else Inl (Fatal ''CoProc Request: Cannot release Hart''))"

section \<open>Hazards\<close>

definition LSQCheck :: "u32 \<Rightarrow> (u64 \<times> MemReq) list \<Rightarrow> u16 \<Rightarrow> RevRegClass \<Rightarrow> bool" where
  "LSQCheck HartID Q reg regClass =
     ((reg \<noteq> 0 \<or> regClass \<noteq> RegGPR) \<and> list_ex (\<lambda>e. fst e = LSQHash (ucast reg) regClass HartID) Q)"

definition ScoreboardCheck :: "RevRegFile \<Rightarrow> u16 \<Rightarrow> RevRegClass \<Rightarrow> bool" where
  "ScoreboardCheck R reg regClass =
     (ucast reg < REV_NUM_REGS \<and>
      (regClass = RegFLOAT \<and> rf_FP_Scoreboard R (unat reg) \<or>
       regClass = RegGPR \<and> reg \<noteq> 0 \<and> rf_RV_Scoreboard R (unat reg)))"

text \<open>\<^verbatim>\<open>DependencyCheck\<close>; the register numbers are narrowed to 16 bits by the calls.\<close>

definition DependencyCheck :: "u32 \<Rightarrow> RevInst \<Rightarrow> RevProc \<Rightarrow> bool result" where
  "DependencyCheck HartID I P =
     res_bind (hart_regs HartID P) (\<lambda>r.
     if length (p_InstTable (q_tables P)) \<le> unat (i_entry I) then Inl (Undefined ''InstTable out of bounds'')
     else let R = q_regs P r; E = p_InstTable (q_tables P) ! unat (i_entry I); Q = q_LSQueue P
       in Inr (LSQCheck HartID Q (ucast (i_rs1 I)) (e_rs1Class E) \<or> LSQCheck HartID Q (ucast (i_rs2 I)) (e_rs2Class E) \<or>
               LSQCheck HartID Q (ucast (i_rs3 I)) (e_rs3Class E) \<or> LSQCheck HartID Q (ucast (i_rd I)) (e_rdClass E) \<or>
               ScoreboardCheck R (ucast (i_rs1 I)) (e_rs1Class E) \<or> ScoreboardCheck R (ucast (i_rs2 I)) (e_rs2Class E) \<or>
               ScoreboardCheck R (ucast (i_rs3 I)) (e_rs3Class E)))"

definition AnyDependency :: "RevRegFile \<Rightarrow> bool" where
  "AnyDependency R = (list_ex (rf_FP_Scoreboard R) [0..<32] \<or> list_ex (rf_RV_Scoreboard R) [0..<32])"

text \<open>
  \<^verbatim>\<open>DependencySet(HartID, RegNum, isFloat, value)\<close>, which leaves the pointer to the register file
  alone for x0, and its use for the destination of an instruction, by the class its entry gives it.
\<close>

definition DependencySet_hart :: "u32 \<Rightarrow> u64 \<Rightarrow> bool \<Rightarrow> bool \<Rightarrow> RevProc \<Rightarrow> RevProc result" where
  "DependencySet_hart HartID RegNum isFloat val P =
     (if RegNum < REV_NUM_REGS then
        if length (q_Harts P) \<le> unat HartID then Inl (Fatal ''tried to get RegFile'')
        else if \<not> isFloat \<and> RegNum = 0 then Inr P
        else res_bind (hart_regs HartID P) (\<lambda>r.
          Inr (P\<lparr>q_regs := (q_regs P)(r := DependencySet RegNum isFloat val (q_regs P r))\<rparr>))
      else Inr P)"

definition DependencySet_inst :: "u32 \<Rightarrow> RevInst \<Rightarrow> bool \<Rightarrow> RevProc \<Rightarrow> RevProc result" where
  "DependencySet_inst HartID I val P =
     (if length (p_InstTable (q_tables P)) \<le> unat (i_entry I) then Inl (Undefined ''InstTable out of bounds'')
      else DependencySet_hart HartID (i_rd I)
        (e_rdClass (p_InstTable (q_tables P) ! unat (i_entry I)) = RegFLOAT) val P)"

section \<open>Scheduling\<close>

definition UpdateStatusOfHarts :: "RevProc \<Rightarrow> RevProc result" where
  "UpdateStatusOfHarts P =
     (if list_ex (\<lambda>i. i \<notin> q_IdleHarts P \<and> ha_RegFile (q_Harts P ! i) = None) [0..<length (q_Harts P)]
      then Inl (Undefined ''hart without a register file'')
      else Inr (P\<lparr>q_HartsClearToDecode :=
        (q_HartsClearToDecode P - {..<length (q_Harts P)}) \<union>
        set (filter (\<lambda>i. i \<notin> q_IdleHarts P \<and> rf_cost (q_regs P (the (ha_RegFile (q_Harts P ! i)))) = 0)
          [0..<length (q_Harts P)])\<rparr>))"

text \<open>The loop of \<^verbatim>\<open>GetNextHartToDecodeID\<close>: at most as many steps as there are harts.\<close>

fun next_clear :: "nat \<Rightarrow> nat \<Rightarrow> nat set \<Rightarrow> nat \<Rightarrow> nat" where
  "next_clear n nh clear nextID =
     (if n = 0 then nextID
      else let k = (if nh \<le> Suc nextID then 0 else Suc nextID)
           in if k \<in> clear then k else next_clear (n - 1) nh clear k)"

definition GetNextHartToDecodeID :: "RevProc \<Rightarrow> u32" where
  "GetNextHartToDecodeID P =
     (if q_HartsClearToDecode P = {} then q_HartToDecodeID P
      else if unat (q_HartToDecodeID P) \<in> q_HartsClearToDecode P then q_HartToDecodeID P
      else of_nat (next_clear (length (q_Harts P)) (length (q_Harts P)) (q_HartsClearToDecode P)
             (unat (q_HartToDecodeID P))))"

definition FindIdleHartID :: "RevProc \<Rightarrow> u32 result" where
  "FindIdleHartID P =
     (case find (\<lambda>i. i \<in> q_IdleHarts P) [0..<length (q_Harts P)] of
        None \<Rightarrow> Inl (Fatal ''Attempted to find an idle hart but none were found'')
      | Some i \<Rightarrow> Inr (of_nat i))"

definition AssignThread :: "RevThread \<Rightarrow> RevProc \<Rightarrow> RevProc result" where
  "AssignThread T P =
     res_bind (FindIdleHartID P) (\<lambda>h.
     res_bind (hart_AssignThread T (q_Harts P ! unat h)) (\<lambda>H.
     Inr (P\<lparr>q_Harts := (q_Harts P)[unat h := H], q_IdleHarts := q_IdleHarts P - {unat h}\<rparr>)))"

definition PopThreadFromHart :: "u32 \<Rightarrow> RevProc \<Rightarrow> (RevThread \<times> RevProc) result" where
  "PopThreadFromHart HartID P =
     (if q_numHarts P \<le> HartID then Inl (Fatal ''tried to pop thread from hart'')
      else res_bind (hart_PopThread (q_Harts P ! unat HartID)) (\<lambda>(T, H).
        Inr (T, P\<lparr>q_Harts := (q_Harts P)[unat HartID := H], q_IdleHarts := insert (unat HartID) (q_IdleHarts P)\<rparr>)))"

definition AddThreadsThatChangedState :: "RevThread \<Rightarrow> RevProc \<Rightarrow> RevProc" where
  "AddThreadsThatChangedState T P = P\<lparr>q_ThreadsThatChangedState := q_ThreadsThatChangedState P @ [T]\<rparr>"

definition TransferThreadsThatChangedState :: "RevProc \<Rightarrow> RevThread list \<times> RevProc" where
  "TransferThreadsThatChangedState P = (q_ThreadsThatChangedState P, P\<lparr>q_ThreadsThatChangedState := []\<rparr>)"

definition HasNoBusyHarts :: "RevProc \<Rightarrow> bool" where
  "HasNoBusyHarts P = (q_IdleHarts P = q_ValidHarts P)"

definition HasIdleHart :: "RevProc \<Rightarrow> bool" where
  "HasIdleHart P = (q_IdleHarts P \<noteq> {})"

text \<open>\<open>coProcDone\<close> tells that there is no coprocessor or that it is done.\<close>

definition HasNoWork :: "bool \<Rightarrow> RevProc \<Rightarrow> bool" where
  "HasNoWork coProcDone P = (HasNoBusyHarts P \<and> coProcDone)"

definition CreateThread :: "u32 \<Rightarrow> u64 \<Rightarrow> u64 \<Rightarrow> RevProc \<Rightarrow> RevProc result" where
  "CreateThread NewTID firstPC arg P =
     (if length (q_Harts P) \<le> unat (q_HartToExecID P) then Inl (Undefined ''Harts.at: out of range'')
      else let ParentThreadID = GetAssignedThreadID (q_Harts P ! unat (q_HartToExecID P));
               (NewThreadMem, segs) = AddThreadMem (m_segs (q_mem P));
               R0 = mk_RevRegFile (q_feature P);
               R1 = SetX_u 10 arg R0;
               R2 = SetX_u 4 (getTopAddr NewThreadMem) R1;
               R3 = SetX_u 2 (getTopAddr NewThreadMem - s_TLSSize segs) R2;
               R4 = SetX_u 8 (env_gp (q_env P)) (SetX_u 3 (env_gp (q_env P)) R3);
               R5 = SetPC firstPC R4;
               r = q_nregs P;
               P1 = P\<lparr>q_mem := (q_mem P)\<lparr>m_segs := segs\<rparr>, q_regs := (q_regs P)(r := R5), q_nregs := Suc r\<rparr>
           in Inr (AddThreadsThatChangedState (mk_RevThread NewTID ParentThreadID NewThreadMem r) P1))"

section \<open>Fault injection\<close>

definition HandleCrackFault :: "u32 \<Rightarrow> RevProc \<Rightarrow> RevProc" where
  "HandleCrackFault width P = P\<lparr>q_CrackFault := True, q_fault_width := width\<rparr>"

text \<open>The width is assigned the value \<^verbatim>\<open>true\<close>.\<close>

definition HandleALUFault :: "u32 \<Rightarrow> RevProc \<Rightarrow> RevProc" where
  "HandleALUFault width P = P\<lparr>q_ALUFault := True, q_fault_width := 1\<rparr>"

definition draw64 :: "u64 \<Rightarrow> u64 \<Rightarrow> RevProc \<Rightarrow> u64 \<times> RevProc" where
  "draw64 mn mx P = (env_rand64 (q_env P) mn mx (q_draws P), P\<lparr>q_draws := Suc (q_draws P)\<rparr>)"

definition draw32 :: "u32 \<Rightarrow> u32 \<Rightarrow> RevProc \<Rightarrow> u32 \<times> RevProc" where
  "draw32 mn mx P = (env_rand (q_env P) mn mx (q_draws P), P\<lparr>q_draws := Suc (q_draws P)\<rparr>)"

text \<open>
  \<^verbatim>\<open>HandleRegFault\<close>: a random register of a random file gets random bits. The mask of a double has
  32 bits and the mask of a float 64, of which the upper half is dropped.
\<close>

definition HandleRegFault :: "u32 \<Rightarrow> RevProc \<Rightarrow> RevProc result" where
  "HandleRegFault width P =
     res_bind (hart_regs (q_HartToExecID P) P) (\<lambda>r.
     let (RegIdx, P1) = draw32 0 31 P;
         (useX, P2) = (if \<not> HasF (q_feature P1) then (True, P1) else let (b, Q) = draw32 0 1 P1 in (b \<noteq> 0, Q));
         R = q_regs P2 r; i = unat RegIdx; w = unat width;
         upd = (\<lambda>R' Q. Inr (Q\<lparr>q_regs := (q_regs Q)(r := R')\<rparr>))
     in if 32 \<le> i then Inl (Undefined ''register file: write out of bounds'')
        else if useX then
          if IsRV32 (q_feature P2) then
            (if 32 \<le> w then Inl (Undefined ''shift too large'')
             else let (v, Q) = draw32 0 (NOT (push_bit w (NOT 0))) P2
               in upd (R\<lparr>rf_RV := half_set i (half_get (rf_RV R) i OR v) (rf_RV R)\<rparr>) Q)
          else
            (if 64 \<le> w then Inl (Undefined ''shift too large'')
             else let (v, Q) = draw64 0 (NOT (push_bit w (NOT 0))) P2
               in upd (R\<lparr>rf_RV := (rf_RV R)(i := rf_RV R i OR v)\<rparr>) Q)
        else if HasD (q_feature P2) then
          (if 32 \<le> w then Inl (Undefined ''shift too large'')
           else let (v, Q) = draw32 0 (NOT (push_bit w (NOT 0))) P2
             in upd (R\<lparr>rf_FP := (rf_FP R)(i := rf_FP R i OR ucast v)\<rparr>) Q)
        else
          (if 64 \<le> w then Inl (Undefined ''shift too large'')
           else let (v, Q) = draw64 0 (NOT (push_bit w (NOT 0))) P2
             in upd (R\<lparr>rf_FP := half_set i (half_get (rf_FP R) i OR ucast v) (rf_FP R)\<rparr>) Q))"

definition InjectALUFault :: "RevExt \<Rightarrow> RevInst \<Rightarrow> nat \<Rightarrow> RevProc \<Rightarrow> RevProc result" where
  "InjectALUFault Ext I r P =
     (let R = q_regs P r; w = unat (q_fault_width P); rd = unat (i_rd I);
          upd = (\<lambda>R' Q. Inr (Q\<lparr>q_regs := (q_regs Q)(r := R'), q_ALUFault := False\<rparr>)) in
      if x_name Ext = ''RV64F'' \<or> x_name Ext = ''RV64D'' then
        (if 64 \<le> w then Inl (Undefined ''shift too large'')
         else if 32 \<le> rd then Inl (Undefined ''register file: write out of bounds'')
         else let (v, Q) = draw64 0 (NOT (push_bit w (NOT 0))) P
           in upd (R\<lparr>rf_FP := (rf_FP R)(rd := rf_FP R rd OR v)\<rparr>) Q)
      else if x_name Ext = ''RV32F'' \<or> x_name Ext = ''RV32D'' then
        (if 32 \<le> w then Inl (Undefined ''shift too large'')
         else if 32 \<le> rd then Inl (Undefined ''register file: write out of bounds'')
         else let (v, Q) = draw64 0 (ucast (NOT (push_bit w 0) :: u32)) P
           in upd (R\<lparr>rf_FP := half_set rd (half_get (rf_FP R) rd OR ucast v) (rf_FP R)\<rparr>) Q)
      else
        (if 64 \<le> w then Inl (Undefined ''shift too large'')
         else let (v, Q) = draw64 0 (NOT (push_bit w (NOT 0))) P
           in upd (SetX_u (i_rd I) (v OR GetX R (i_rd I)) R) Q))"

section \<open>System calls\<close>

datatype EcallStatus = SUCCESS | CONTINUE | ERROR

fun EcallStatus_val :: "EcallStatus \<Rightarrow> u64" where
  "EcallStatus_val SUCCESS = 0"
| "EcallStatus_val CONTINUE = ECALL_USER_MODE"
| "EcallStatus_val ERROR = 255"

type_synonym ecall_fun = "RevInst \<Rightarrow> RevProc \<Rightarrow> (EcallStatus \<times> RevProc) result"

text \<open>The keys of the table are 32-bit numbers, so the code is narrowed by the lookup.\<close>

definition ExecEcall :: "(u32 \<rightharpoonup> ecall_fun) \<Rightarrow> RevInst \<Rightarrow> nat \<Rightarrow> RevProc \<Rightarrow> RevProc result" where
  "ExecEcall Ecalls I r P =
     res_bind (hart_regs (q_HartToDecodeID P) P) (\<lambda>d.
     case Ecalls (ucast (GetX (q_regs P d) 17 :: u64)) of
       None \<Rightarrow> Inl (Fatal ''Ecall Code not found'')
     | Some f \<Rightarrow> res_bind (f I P) (\<lambda>(status, P1).
         let R1 = (q_regs P1 r)\<lparr>rf_SCAUSE := EcallStatus_val status\<rparr>;
             R2 = (if status \<noteq> SUCCESS then SetPC (GetPC R1 - ucast (i_instSize I)) R1 else R1)
         in Inr (P1\<lparr>q_regs := (q_regs P1)(r := R2)\<rparr>)))"

section \<open>The clock tick\<close>

definition PrefetchInst :: "nat \<Rightarrow> RevProc \<Rightarrow> (bool \<times> RevProc) result" where
  "PrefetchInst r P =
     (let PC = GetPC (q_regs P r) in
      if PC = 0 then Inr (False, P)
      else res_bind (IsAvail (q_feature P) PC (q_sfetch P) (core_of (q_HartToDecodeID P) r P)) (\<lambda>(a, S, C).
        Inr (a, (core_back r C P)\<lparr>q_sfetch := S\<rparr>)))"

definition FetchAndDecodeInst :: "(u32 \<Rightarrow> bool) \<Rightarrow> nat \<Rightarrow> RevProc \<Rightarrow> (RevInst \<times> RevProc) result" where
  "FetchAndDecodeInst coProc r P =
     (let PC = GetPC (q_regs P r) in
      res_bind (InstFetch (q_feature P) PC 0 (q_sfetch P) (core_of (q_HartToDecodeID P) r P)) (\<lambda>(ok, fetched, Inst, S, C).
      if \<not> ok then Inl (Fatal ''failed to retrieve prefetched instruction'')
      else if Inst = 0 then Inl (Fatal ''failed to decode instruction'')
      else if q_CrackFault P \<and> 32 \<le> q_fault_width P then Inl (Undefined ''shift too large'')
      else
        let P1 = (core_back r C P)\<lparr>q_sfetch := S\<rparr>;
            (Inst1, P2) =
              (if q_CrackFault P1 then
                 let (v, Q) = draw64 0 (ucast (push_bit (unat (q_fault_width P1)) 1 - 1 :: u32)) P1
                 in (Inst OR ucast v, Q\<lparr>q_CrackFault := False\<rparr>)
               else (Inst, P1))
        in res_bind (DecodeInst (q_feature P2) (q_tables P2) coProc Inst1) (\<lambda>I.
           Inr (I, P2\<lparr>q_regs := (q_regs P2)(r := (q_regs P2 r)\<lparr>rf_Entry := i_entry I, rf_cost := i_cost I,
             rf_trigger := False\<rparr>)\<rparr>))))"

definition stat :: "(RevProcStats \<Rightarrow> RevProcStats) \<Rightarrow> RevProc \<Rightarrow> RevProc" where
  "stat f P = P\<lparr>q_Stats := f (q_Stats P)\<rparr>"

text \<open>The first part of \<^verbatim>\<open>ClockTick\<close>: fetch, decode and hazards, when a hart is clear to decode.\<close>

definition tick_decode :: "(u32 \<Rightarrow> bool) \<Rightarrow> RevProc \<Rightarrow> (RevInst \<times> RevProc) result" where
  "tick_decode coProc P =
     (let h = GetNextHartToDecodeID P in
      if length (q_Harts P) \<le> unat h then Inl (Undefined ''Harts.at: out of range'')
      else res_bind (hart_regs h P) (\<lambda>r.
      let P1 = P\<lparr>q_HartToDecodeID := h, q_ActiveThreadID := GetAssignedThreadID (q_Harts P ! unat h),
                 q_RegFile := Some r, q_feature := SetHartToExecID h (q_feature P)\<rparr>
      in res_bind (PrefetchInst r P1) (\<lambda>(avail, P2).
      let P3 = (if avail then P2\<lparr>q_Stalled := False\<rparr>
                else stat (\<lambda>s. s\<lparr>st_cyclesStalled := st_cyclesStalled s + 1\<rparr>) (P2\<lparr>q_Stalled := True\<rparr>));
          stallReq = (unat h \<in> q_CoProcStallReq P3)
      in res_bind (if \<not> q_Stalled P3 \<and> \<not> stallReq
                   then res_bind (FetchAndDecodeInst coProc r P3) (\<lambda>(I, Q). Inr (I\<lparr>i_entry := rf_Entry (q_regs Q r)\<rparr>, Q))
                   else Inr (RevInst_default, P3)) (\<lambda>(I, P4).
      res_bind (if q_Stalled P4 then Inr True else res_bind (DependencyCheck h I P4) (\<lambda>d. Inr (d \<or> stallReq))) (\<lambda>hazard.
      let P5 = (if hazard
                then stat (\<lambda>s. s\<lparr>st_cyclesIdle_Pipeline := st_cyclesIdle_Pipeline s + 1\<rparr>)
                  (P4\<lparr>q_regs := (q_regs P4)(r := (q_regs P4 r)\<lparr>rf_cost := 0\<rparr>),
                      q_HartsClearToExecute := q_HartsClearToExecute P4 - {unat h}, q_HartToExecID := REV_INVALID_HART_ID\<rparr>)
                else stat (\<lambda>s. s\<lparr>st_cyclesBusy := st_cyclesBusy s + 1\<rparr>)
                  (P4\<lparr>q_HartsClearToExecute := insert (unat h) (q_HartsClearToExecute P4), q_HartToExecID := h\<rparr>))
      in Inr (I\<lparr>i_cost := rf_cost (q_regs P5 r), i_entry := rf_Entry (q_regs P5 r)\<rparr>,
              P5\<lparr>q_ExecPC := GetPC (q_regs P5 r)\<rparr>))))))"

text \<open>What follows the execution of an instruction: the trap of \<^verbatim>\<open>ecall\<close>, a pending fault, a single step.\<close>

definition tick_trap :: "(u32 \<rightharpoonup> ecall_fun) \<Rightarrow> RevExt \<Rightarrow> RevInst \<Rightarrow> nat \<Rightarrow> RevProc \<Rightarrow> RevProc result" where
  "tick_trap Ecalls Ext I r P =
     (let R = q_regs P r in
      res_bind (if rf_SCAUSE R = ECALL_USER_MODE \<or> ucast (rf_SCAUSE R) = (ucast ECALL_USER_MODE :: u32)
                then ExecEcall Ecalls I r P else Inr P) (\<lambda>P1.
      res_bind (if q_ALUFault P1 then InjectALUFault Ext I r P1 else Inr P1) (\<lambda>P2.
      Inr (if q_SingleStep P2 then P2\<lparr>q_SingleStep := False, q_Halted := True\<rparr> else P2))))"

text \<open>Execution of the decoded instruction on the register file \<open>r\<close> that \<^verbatim>\<open>RegFile\<close> points to.\<close>

definition tick_execute :: "(u32 \<rightharpoonup> ecall_fun) \<Rightarrow> RevInst \<Rightarrow> nat \<Rightarrow> RevProc \<Rightarrow> RevProc result" where
  "tick_execute Ecalls I r P =
     (let h = q_HartToExecID P;
          P1 = P\<lparr>q_regs := (q_regs P)(r := (q_regs P r)\<lparr>rf_trigger := True\<rparr>)\<rparr>
      in case p_EntryToExt (q_tables P1) (unat (rf_Entry (q_regs P1 r))) of
           None \<Rightarrow> Inl (Fatal ''failed to find the instruction extension'')
         | Some (x, j) \<Rightarrow>
             if length (p_Extensions (q_tables P1)) \<le> x then Inl (Undefined ''Extensions out of bounds'')
             else
               let Ext = p_Extensions (q_tables P1) ! x;
                   P2 = P1\<lparr>q_Pipeline := q_Pipeline P1 @ [(ucast h, I)]\<rparr>;
                   P3 = (if x_name Ext \<in> {''RV32F'', ''RV32D'', ''RV64F'', ''RV64D''}
                         then stat (\<lambda>s. s\<lparr>st_floatsExec := st_floatsExec s + 1\<rparr>) P2 else P2)
               in res_bind (DependencySet_inst h I True P3) (\<lambda>P4.
                  res_bind (Execute Ext j I (q_feature P4) (core_of h r P4)) (\<lambda>(ret, C).
                  if \<not> ret then Inl (Fatal ''failed to execute instruction'')
                  else tick_trap Ecalls Ext I r (core_back r C P4))))"

text \<open>
  Retirement of the instruction at the front of the pipeline. An instruction whose cost is not
  used up has its cost put back to what it was.
\<close>

definition tick_retire :: "nat \<Rightarrow> RevProc \<Rightarrow> RevProc result" where
  "tick_retire r P =
     (case q_Pipeline P of
        [] \<Rightarrow> Inr P
      | (HartID, I) # rest \<Rightarrow>
          if 0 < i_cost I then
            let c = i_cost I - 1 in
            if c = 0 then
              let P1 = stat (\<lambda>s. s\<lparr>st_retired := st_retired s + 1\<rparr>) (P\<lparr>q_Pipeline := (HartID, I\<lparr>i_cost := c\<rparr>) # rest\<rparr>) in
              if length (p_InstTable (q_tables P1)) \<le> unat (i_entry I) then Inl (Undefined ''InstTable out of bounds'')
              else
                res_bind
                  (if list_ex (\<lambda>e. fst e = LSQHash (i_rd I) (e_rdClass (p_InstTable (q_tables P1) ! unat (i_entry I))) (ucast HartID))
                        (q_LSQueue P1)
                   then Inr P1 else DependencySet_inst (ucast HartID) I False P1) (\<lambda>P2.
                Inr (P2\<lparr>q_Pipeline := rest, q_regs := (q_regs P2)(r := (q_regs P2 r)\<lparr>rf_cost := 0\<rparr>)\<rparr>))
            else Inr (P\<lparr>q_Pipeline := (HartID, I\<lparr>i_cost := c + 1\<rparr>) # rest\<rparr>)
          else Inr P)"

text \<open>A thread whose program counter is zero is done and leaves its hart.\<close>

definition retire_thread :: "u32 \<Rightarrow> u32 \<Rightarrow> RevProc \<Rightarrow> RevProc result" where
  "retire_thread h pop P =
     res_bind (PopThreadFromHart pop P) (\<lambda>(T, P1).
     Inr (AddThreadsThatChangedState (SetState DONE T)
       (P1\<lparr>q_HartsClearToExecute := q_HartsClearToExecute P1 - {unat h},
           q_HartsClearToDecode := q_HartsClearToDecode P1 - {unat h}, q_IdleHarts := insert (unat h) (q_IdleHarts P1)\<rparr>)))"

definition tick_complete :: "nat \<Rightarrow> RevProc \<Rightarrow> RevProc result" where
  "tick_complete r P =
     (if GetPC (q_regs P r) = 0 then
        res_bind (hart_regs (q_HartToDecodeID P) P) (\<lambda>d.
        res_bind (if \<not> AnyDependency (q_regs P d) then retire_thread (q_HartToDecodeID P) (q_HartToDecodeID P) P else Inr P) (\<lambda>P1.
        if q_HartToExecID P1 \<noteq> REV_INVALID_HART_ID \<and> unat (q_HartToExecID P1) \<notin> q_IdleHarts P1 then
          res_bind (hart_regs (q_HartToExecID P1) P1) (\<lambda>e.
          if \<not> AnyDependency (q_regs P1 e) then retire_thread (q_HartToExecID P1) (q_HartToDecodeID P1) P1 else Inr P1)
        else Inr P1))
      else Inr P)"

definition ClockTick :: "(u32 \<Rightarrow> bool) \<Rightarrow> (u32 \<rightharpoonup> ecall_fun) \<Rightarrow> RevProc \<Rightarrow> (bool \<times> RevProc) result" where
  "ClockTick coProc Ecalls P0 =
     res_bind (UpdateStatusOfHarts (stat (\<lambda>s. s\<lparr>st_totalCycles := st_totalCycles s + 1\<rparr>) P0)) (\<lambda>P1.
     res_bind (if q_HartsClearToDecode P1 \<noteq> {} \<and> \<not> q_Halted P1 then tick_decode coProc P1 else Inr (RevInst_default, P1))
       (\<lambda>(I, P2).
     case q_RegFile P2 of
       None \<Rightarrow> Inl (Undefined ''null register file'')
     | Some r \<Rightarrow>
         res_bind
           (if q_HartToExecID P2 \<noteq> REV_INVALID_HART_ID \<and> \<not> rf_trigger (q_regs P2 r) \<and> \<not> q_Halted P2 \<and>
               unat (q_HartToExecID P2) \<in> q_HartsClearToExecute P2
            then tick_execute Ecalls I r P2
            else Inr (stat (\<lambda>s. s\<lparr>st_cyclesIdle_Total := st_cyclesIdle_Total s + 1,
                   st_cyclesIdle_MemoryFetch := st_cyclesIdle_MemoryFetch s +
                     (if q_HartsClearToExecute P2 \<noteq> {} then 1 else 0)\<rparr>) P2)) (\<lambda>P3.
         res_bind (tick_retire r P3) (\<lambda>P4.
         res_bind (tick_complete r P4) (\<lambda>P5.
         Inr (True, P5))))))"

text \<open>
  The counters of the memory that the model keeps start again at zero; \<^verbatim>\<open>GetAndClearStats\<close> does not add
  the cycles that wait for memory to the totals of the processor.
\<close>

definition mem_ClearStats :: "RevMem \<Rightarrow> RevMem" where
  "mem_ClearStats M = M\<lparr>m_bytesRead := 0, m_bytesWritten := 0, m_tlb := (m_tlb M)\<lparr>t_TLBHits := 0, t_TLBMisses := 0\<rparr>\<rparr>"

definition GetAndClearStats :: "RevProc \<Rightarrow> RevProcStats \<times> RevProc" where
  "GetAndClearStats P =
     (let s = q_Stats P; t = q_StatsTotal P in
      (s, P\<lparr>q_StatsTotal := t\<lparr>st_totalCycles := st_totalCycles t + st_totalCycles s,
               st_cyclesBusy := st_cyclesBusy t + st_cyclesBusy s,
               st_cyclesIdle_Total := st_cyclesIdle_Total t + st_cyclesIdle_Total s,
               st_cyclesStalled := st_cyclesStalled t + st_cyclesStalled s,
               st_floatsExec := st_floatsExec t + st_floatsExec s,
               st_cyclesIdle_Pipeline := st_cyclesIdle_Pipeline t + st_cyclesIdle_Pipeline s,
               st_retired := st_retired t + st_retired s\<rparr>,
            q_Stats := RevProcStats_zero, q_mem := mem_ClearStats (q_mem P)\<rparr>))"

section \<open>Lemmas: scheduling\<close>

declare next_clear.simps [simp del]

lemma next_clear_step: "c < n \<Longrightarrow> (if n \<le> Suc c then 0 else Suc c) = Suc c mod n"
  by (auto simp: mod_Suc)

lemma next_clear_first:
  assumes "c < n" "0 < d" "d \<le> m" "(c + d) mod n \<in> S" "\<And>e. 0 < e \<Longrightarrow> e < d \<Longrightarrow> (c + e) mod n \<notin> S"
  shows "next_clear m n S c = (c + d) mod n"
  using assms
proof (induction m arbitrary: c d)
  case (Suc m)
  have k: "(if n \<le> Suc c then 0 else Suc c) = Suc c mod n" by (rule next_clear_step [OF Suc.prems(1)])
  show ?case
  proof (cases "d = 1")
    case True
    then show ?thesis using Suc.prems k by (subst next_clear.simps) (simp add: Let_def)
  next
    case False
    then obtain d' where d: "d = Suc d'" "0 < d'" using Suc.prems(2) by (cases d) auto
    have "Suc c mod n \<notin> S" using Suc.prems(5) [of 1] d by simp
    moreover have "next_clear m n S (Suc c mod n) = (Suc c mod n + d') mod n"
    proof (rule Suc.IH)
      show "(Suc c mod n + e) mod n \<notin> S" if "0 < e" "e < d'" for e
        using Suc.prems(5) [of "Suc e"] that d by (simp add: mod_add_left_eq)
    qed (use Suc.prems d in \<open>auto simp: mod_add_left_eq\<close>)
    ultimately show ?thesis using k d by (subst next_clear.simps) (simp add: Let_def mod_add_left_eq)
  qed
qed simp

lemma cyclic_distance:
  assumes "c < n" "k < n" "k \<noteq> c"
  shows "\<exists>d. 0 < d \<and> d \<le> n \<and> (c + d) mod n = (k::nat)"
proof (cases "c < k")
  case True
  then show ?thesis using assms by (intro exI [of _ "k - c"]) auto
next
  case False
  then have "(c + (n - c + k)) mod n = k" using assms by simp
  then show ?thesis using assms False by (intro exI [of _ "n - c + k"]) auto
qed

lemma next_hart_round_robin:
  assumes "q_HartsClearToDecode P \<noteq> {}" "q_HartsClearToDecode P \<subseteq> {..<length (q_Harts P)}"
    and "unat (q_HartToDecodeID P) < length (q_Harts P)" "length (q_Harts P) \<le> 4096"
  shows "\<exists>d<length (q_Harts P).
    unat (GetNextHartToDecodeID P) = (unat (q_HartToDecodeID P) + d) mod length (q_Harts P) \<and>
    unat (GetNextHartToDecodeID P) \<in> q_HartsClearToDecode P \<and>
    (\<forall>e<d. (unat (q_HartToDecodeID P) + e) mod length (q_Harts P) \<notin> q_HartsClearToDecode P)"
proof (cases "unat (q_HartToDecodeID P) \<in> q_HartsClearToDecode P")
  case True
  then show ?thesis using assms(1,3) by (intro exI [of _ 0]) (auto simp: GetNextHartToDecodeID_def)
next
  case False
  let ?n = "length (q_Harts P)" and ?c = "unat (q_HartToDecodeID P)" and ?S = "q_HartsClearToDecode P"
  let ?Q = "\<lambda>d. 0 < d \<and> d \<le> ?n \<and> (?c + d) mod ?n \<in> ?S"
  obtain k where k: "k \<in> ?S" "k < ?n" using assms(1,2) by blast
  then have "\<exists>d. ?Q d" using cyclic_distance [OF assms(3) k(2)] False by metis
  then obtain d where "?Q d" and min: "\<forall>e<d. \<not> ?Q e" using exists_least_iff [of ?Q] by blast
  then have d: "0 < d" "d \<le> ?n" "(?c + d) mod ?n \<in> ?S" by simp_all
  have m: "(?c + e) mod ?n \<notin> ?S" if "0 < e" "e < d" for e using min that d(2) by auto
  have "d \<noteq> ?n" using d(3) False assms(3) by auto
  have "next_clear ?n ?n ?S ?c = (?c + d) mod ?n" by (rule next_clear_first [OF assms(3) d(1,2,3) m])
  moreover have "(?c + d) mod ?n < 4096" using assms(3,4) mod_less_divisor [of ?n "?c + d"] by linarith
  ultimately have g: "unat (GetNextHartToDecodeID P) = (?c + d) mod ?n"
    using False assms(1) by (simp add: GetNextHartToDecodeID_def unat_of_nat)
  have "(?c + e) mod ?n \<notin> ?S" if "e < d" for e
    using m [of e] that False assms(3) by (cases "e = 0") auto
  then show ?thesis using g d \<open>d \<noteq> ?n\<close> by (intro exI [of _ d]) auto
qed

section \<open>Lemmas: threads and harts\<close>

definition hart_ok :: "RevProc \<Rightarrow> nat \<Rightarrow> bool" where
  "hart_ok P i = (let H = q_Harts P ! i in
     (i \<in> q_IdleHarts P \<longleftrightarrow> ha_Thread H = None) \<and> (ha_Thread H = None \<longleftrightarrow> ha_RegFile H = None) \<and>
     (case ha_Thread H of None \<Rightarrow> True | Some T \<Rightarrow> th_VirtRegState T = None \<and> th_State T = RUNNING))"

definition proc_inv :: "RevProc \<Rightarrow> bool" where
  "proc_inv P \<longleftrightarrow> length (q_Harts P) = unat (q_numHarts P) \<and> q_numHarts P \<le> 4096 \<and>
     q_IdleHarts P \<subseteq> {..<length (q_Harts P)} \<and> q_ValidHarts P = {..<length (q_Harts P)} \<and>
     (\<forall>i<length (q_Harts P). hart_ok P i) \<and>
     (\<forall>i<length (q_Harts P). \<forall>j<length (q_Harts P). i \<noteq> j \<longrightarrow> ha_RegFile (q_Harts P ! i) \<noteq> None \<longrightarrow>
        ha_RegFile (q_Harts P ! i) \<noteq> ha_RegFile (q_Harts P ! j))"

lemma find_upt_least:
  "find Q [0..<n] = Some i \<longleftrightarrow> i < n \<and> Q i \<and> (\<forall>j<i. \<not> Q j)"
  by (auto simp: find_Some_iff)

end
