(* ===== verification/Rev_Pipeline.thy ===== *)
theory Rev_Pipeline
  imports Rev_Proc
begin

text \<open>
  What the clock tick of \<^verbatim>\<open>RevProc::ClockTick\<close> does, stage by stage: the invariant of the scheduler that
  every step of a processor keeps (given system calls that keep it, a locale), the runs of a
  processor, the whole of a tick that fetches, executes and retires one instruction, and what
  happens to an instruction whose cost is not one cycle.
\<close>

section \<open>Lemmas: what a clock tick keeps\<close>

definition harts_same :: "RevProc \<Rightarrow> RevProc \<Rightarrow> bool" where
  "harts_same P Q \<longleftrightarrow> q_Harts Q = q_Harts P \<and> q_IdleHarts Q = q_IdleHarts P \<and> q_ValidHarts Q = q_ValidHarts P \<and>
     q_numHarts Q = q_numHarts P \<and> q_HartsClearToDecode Q \<subseteq> q_HartsClearToDecode P \<union> {..<length (q_Harts P)} \<and>
     q_ThreadsThatChangedState Q = q_ThreadsThatChangedState P \<and> q_nregs Q = q_nregs P"

definition sched_inv :: "RevProc \<Rightarrow> bool" where
  "sched_inv P \<longleftrightarrow> proc_inv P \<and> unat (q_HartToDecodeID P) < length (q_Harts P) \<and>
     (q_HartToExecID P = REV_INVALID_HART_ID \<or> q_HartToExecID P = q_HartToDecodeID P) \<and>
     q_HartsClearToDecode P \<subseteq> {..<length (q_Harts P)}"

lemma sched_inv_cong:
  assumes "q_Harts Q = q_Harts P" "q_IdleHarts Q = q_IdleHarts P" "q_ValidHarts Q = q_ValidHarts P" "q_numHarts Q = q_numHarts P"
    and "q_HartToDecodeID Q = q_HartToDecodeID P" "q_HartToExecID Q = q_HartToExecID P" "q_HartsClearToDecode Q = q_HartsClearToDecode P"
  shows "sched_inv Q = sched_inv P"
  using assms by (simp add: sched_inv_def proc_inv_def hart_ok_def)

lemma harts_same_refl [simp]: "harts_same P P" by (simp add: harts_same_def)

lemma harts_same_trans: "harts_same P Q \<Longrightarrow> harts_same Q R \<Longrightarrow> harts_same P R" by (auto simp: harts_same_def)

lemma proc_inv_frame: "harts_same P Q \<Longrightarrow> proc_inv P \<Longrightarrow> proc_inv Q"
proof -
  assume "harts_same P Q"
  then have "proc_inv Q = proc_inv P" by (simp add: harts_same_def proc_inv_def hart_ok_def)
  then show "proc_inv P \<Longrightarrow> proc_inv Q" by simp
qed

definition ids_same :: "RevProc \<Rightarrow> RevProc \<Rightarrow> bool" where
  "ids_same P Q \<longleftrightarrow> harts_same P Q \<and> q_HartToDecodeID Q = q_HartToDecodeID P \<and> q_HartToExecID Q = q_HartToExecID P"

lemma ids_same_refl [simp]: "ids_same P P" by (simp add: ids_same_def)

lemma sched_inv_frame: "ids_same P Q \<Longrightarrow> sched_inv P \<Longrightarrow> sched_inv Q"
  using proc_inv_frame by (auto simp: ids_same_def sched_inv_def harts_same_def)

lemma ids_same_trans: "ids_same P Q \<Longrightarrow> ids_same Q R \<Longrightarrow> ids_same P R"
  by (auto simp: ids_same_def intro: harts_same_trans)

lemma ids_same_simps [simp]:
  "ids_same P (stat f P)" "ids_same P (core_back r C P)"
  by (simp_all add: ids_same_def harts_same_def stat_def core_back_def)

lemmas ids_defs = ids_same_def harts_same_def stat_def core_back_def draw64_def

lemma UpdateStatusOfHarts_ids: "UpdateStatusOfHarts P = Inr Q \<Longrightarrow> ids_same P Q"
  by (auto simp: UpdateStatusOfHarts_def ids_defs split: if_splits)

lemma PrefetchInst_ids: "PrefetchInst r P = Inr (a, Q) \<Longrightarrow> ids_same P Q"
  by (auto simp: PrefetchInst_def Let_def res_bind_def ids_defs split: if_splits sum.splits)

lemma FetchAndDecodeInst_ids: "FetchAndDecodeInst cp r P = Inr (I, Q) \<Longrightarrow> ids_same P Q"
  by (auto simp: FetchAndDecodeInst_def Let_def res_bind_def ids_defs split: if_splits sum.splits prod.splits)

lemma DependencySet_inst_ids: "DependencySet_inst h I v P = Inr Q \<Longrightarrow> ids_same P Q"
  by (auto simp: DependencySet_inst_def DependencySet_hart_def res_bind_def ids_defs split: if_splits sum.splits)

lemma InjectALUFault_ids: "InjectALUFault X I r P = Inr Q \<Longrightarrow> ids_same P Q"
  by (auto simp: InjectALUFault_def Let_def ids_defs split: if_splits)

lemma tick_retire_ids: "tick_retire r P = Inr Q \<Longrightarrow> ids_same P Q"
  using DependencySet_inst_ids
  by (fastforce simp: tick_retire_def Let_def res_bind_def ids_defs split: list.splits if_splits sum.splits prod.splits)


lemma tick_decode_same:
  assumes "tick_decode cp P = Inr (I, Q)"
  shows "harts_same P Q" "q_HartToDecodeID Q = GetNextHartToDecodeID P" "unat (GetNextHartToDecodeID P) < length (q_Harts P)"
    "q_HartToExecID Q = REV_INVALID_HART_ID \<or> q_HartToExecID Q = GetNextHartToDecodeID P"
proof -
  let ?h = "GetNextHartToDecodeID P"
  obtain r where h: "unat ?h < length (q_Harts P)" and r: "hart_regs ?h P = Inr r"
    using assms by (auto simp: tick_decode_def Let_def res_bind_eq_Inr not_le split: if_splits)
  let ?P1 = "P\<lparr>q_HartToDecodeID := ?h, q_ActiveThreadID := GetAssignedThreadID (q_Harts P ! unat ?h),
    q_RegFile := Some r, q_feature := SetHartToExecID ?h (q_feature P)\<rparr>"
  have 1: "harts_same P ?P1" "q_HartToDecodeID ?P1 = ?h" by (simp_all add: harts_same_def)
  obtain a P2 where p2: "PrefetchInst r ?P1 = Inr (a, P2)"
    using assms h r by (auto simp: tick_decode_def Let_def res_bind_eq_Inr split: if_splits)
  define P3 where "P3 = (if a then P2\<lparr>q_Stalled := False\<rparr>
    else stat (\<lambda>s. s\<lparr>st_cyclesStalled := st_cyclesStalled s + 1\<rparr>) (P2\<lparr>q_Stalled := True\<rparr>))"
  have 3: "harts_same P P3" "q_HartToDecodeID P3 = ?h"
    using PrefetchInst_ids [OF p2] by (simp_all add: P3_def ids_defs)
  obtain I1 P4 where p4: "(if \<not> q_Stalled P3 \<and> unat ?h \<notin> q_CoProcStallReq P3
      then res_bind (FetchAndDecodeInst cp r P3) (\<lambda>(I, Q). Inr (I\<lparr>i_entry := rf_Entry (q_regs Q r)\<rparr>, Q))
      else Inr (RevInst_default, P3)) = Inr (I1, P4)"
    and Q: "harts_same P4 Q" "q_HartToDecodeID Q = q_HartToDecodeID P4"
      "q_HartToExecID Q = REV_INVALID_HART_ID \<or> q_HartToExecID Q = ?h"
    using assms h r p2
    by (auto simp: tick_decode_def Let_def res_bind_eq_Inr P3_def stat_def harts_same_def split: if_splits prod.splits)
  have 4: "harts_same P P4" "q_HartToDecodeID P4 = ?h"
    using p4 3 FetchAndDecodeInst_ids by (auto simp: res_bind_eq_Inr ids_same_def intro: harts_same_trans split: if_splits)
  then show "harts_same P Q" "q_HartToDecodeID Q = ?h" using Q harts_same_trans by auto
  show "unat ?h < length (q_Harts P)" "q_HartToExecID Q = REV_INVALID_HART_ID \<or> q_HartToExecID Q = ?h" using h Q by auto
qed

lemma tick_decode_inv:
  assumes "sched_inv P" "tick_decode cp P = Inr (I, Q)" shows "sched_inv Q"
  using tick_decode_same [OF assms(2)] assms(1) proc_inv_frame by (auto simp: sched_inv_def harts_same_def)

lemma retire_thread_inv:
  assumes "proc_inv P" "unat h < length (q_Harts P)" "retire_thread h h P = Inr Q"
  shows "proc_inv Q" "q_Harts Q = (q_Harts P)[unat h := (q_Harts P ! unat h)\<lparr>ha_Thread := None, ha_RegFile := None\<rparr>]"
    "unat h \<in> q_IdleHarts Q" "q_HartToDecodeID Q = q_HartToDecodeID P" "q_HartToExecID Q = q_HartToExecID P"
    "q_HartsClearToDecode Q = q_HartsClearToDecode P - {unat h}"
proof -
  obtain T where T: "ha_Thread (q_Harts P ! unat h) = Some T"
    and Q: "Q = AddThreadsThatChangedState (SetState DONE (T\<lparr>th_VirtRegState := ha_RegFile (q_Harts P ! unat h)\<rparr>))
      (P\<lparr>q_Harts := (q_Harts P)[unat h := (q_Harts P ! unat h)\<lparr>ha_Thread := None, ha_RegFile := None\<rparr>],
         q_HartsClearToExecute := q_HartsClearToExecute P - {unat h},
         q_HartsClearToDecode := q_HartsClearToDecode P - {unat h}, q_IdleHarts := insert (unat h) (q_IdleHarts P)\<rparr>)"
    using assms(3) by (auto simp: retire_thread_def PopThreadFromHart_def hart_PopThread_def res_bind_eq_Inr split: if_splits option.splits)
  have "hart_ok Q i" if "i < length (q_Harts P)" for i
    using assms(1) that by (cases "i = unat h") (auto simp: Q proc_inv_def hart_ok_def Let_def AddThreadsThatChangedState_def)
  then show "proc_inv Q" using assms(1,2) by (auto simp: Q proc_inv_def nth_list_update AddThreadsThatChangedState_def)
  show "q_Harts Q = (q_Harts P)[unat h := (q_Harts P ! unat h)\<lparr>ha_Thread := None, ha_RegFile := None\<rparr>]"
    "unat h \<in> q_IdleHarts Q" "q_HartToDecodeID Q = q_HartToDecodeID P" "q_HartToExecID Q = q_HartToExecID P"
    "q_HartsClearToDecode Q = q_HartsClearToDecode P - {unat h}"
    by (simp_all add: Q AddThreadsThatChangedState_def)
qed

text \<open>The hart to execute is the one that was decoded, so that at most one thread is taken away.\<close>

lemma tick_complete_cases:
  assumes "sched_inv P" "tick_complete r P = Inr Q"
  shows "Q = P \<or> retire_thread (q_HartToDecodeID P) (q_HartToDecodeID P) P = Inr Q"
proof (cases "GetPC (q_regs P r) = 0")
  case True
  let ?h = "q_HartToDecodeID P"
  have inv: "proc_inv P" "unat ?h < length (q_Harts P)" "q_HartToExecID P = REV_INVALID_HART_ID \<or> q_HartToExecID P = ?h"
    using assms(1) by (auto simp: sched_inv_def)
  obtain d where d: "hart_regs ?h P = Inr d" using assms(2) True by (auto simp: tick_complete_def res_bind_eq_Inr)
  show ?thesis
  proof (cases "AnyDependency (q_regs P d)")
    case dep: True
    then show ?thesis using assms(2) True d inv(3) by (auto simp: tick_complete_def split: if_splits)
  next
    case False
    then obtain P1 where p1: "retire_thread ?h ?h P = Inr P1"
      using assms(2) True d by (auto simp: tick_complete_def res_bind_eq_Inr)
    then have "Q = P1"
      using retire_thread_inv(3-5) [OF inv(1,2) p1] assms(2) True d False inv(3) by (auto simp: tick_complete_def split: if_splits)
    then show ?thesis using p1 by simp
  qed
qed (use assms in \<open>simp add: tick_complete_def\<close>)

lemma tick_complete_inv:
  assumes "sched_inv P" "tick_complete r P = Inr Q" shows "sched_inv Q"
proof -
  have inv: "proc_inv P" "unat (q_HartToDecodeID P) < length (q_Harts P)" using assms(1) by (simp_all add: sched_inv_def)
  show ?thesis
    using tick_complete_cases [OF assms] retire_thread_inv [OF inv, of Q] assms(1) by (auto simp: sched_inv_def)
qed

lemma tick_execute_trap:
  assumes "tick_execute Ecalls I r P = Inr Q"
  shows "\<exists>X P4. ids_same P P4 \<and> tick_trap Ecalls X I r P4 = Inr Q"
proof -
  let ?P1 = "P\<lparr>q_regs := (q_regs P)(r := (q_regs P r)\<lparr>rf_trigger := True\<rparr>)\<rparr>"
  let ?P2 = "?P1\<lparr>q_Pipeline := q_Pipeline ?P1 @ [(ucast (q_HartToExecID P), I)]\<rparr>"
  obtain x j where x: "p_EntryToExt (q_tables ?P1) (unat (rf_Entry (q_regs ?P1 r))) = Some (x, j)"
    using assms by (auto simp: tick_execute_def Let_def split: option.splits)
  define P3 where "P3 = (if x_name (p_Extensions (q_tables ?P1) ! x) \<in> {''RV32F'', ''RV32D'', ''RV64F'', ''RV64D''}
    then stat (\<lambda>s. s\<lparr>st_floatsExec := st_floatsExec s + 1\<rparr>) ?P2 else ?P2)"
  have p3: "ids_same P P3" by (simp add: P3_def ids_defs)
  obtain X C P4 where p4: "DependencySet_inst (q_HartToExecID P) I True P3 = Inr P4"
    and t: "tick_trap Ecalls X I r (core_back r C P4) = Inr Q"
    using assms unfolding tick_execute_def Let_def x option.case prod.case P3_def [symmetric]
    by (auto simp: res_bind_eq_Inr split: if_splits)
  have "ids_same P (core_back r C P4)"
    using ids_same_trans [OF p3 DependencySet_inst_ids [OF p4]] ids_same_trans ids_same_simps(2) by blast
  then show ?thesis using t by blast
qed

text \<open>The stages of a clock tick: each leaves harts and threads alone or is one of the operations above.\<close>

lemma ClockTick_stages:
  assumes "ClockTick cp Ecalls P = Inr (b, Q)"
  shows "\<exists>P1 I P2 r P3 P4. ids_same P P1 \<and> (P2 = P1 \<or> tick_decode cp P1 = Inr (I, P2)) \<and>
    (ids_same P2 P3 \<or> tick_execute Ecalls I r P2 = Inr P3) \<and> tick_retire r P3 = Inr P4 \<and> tick_complete r P4 = Inr Q"
proof -
  obtain P1 where p1: "UpdateStatusOfHarts (stat (\<lambda>s. s\<lparr>st_totalCycles := st_totalCycles s + 1\<rparr>) P) = Inr P1"
    using assms by (auto simp: ClockTick_def res_bind_eq_Inr)
  obtain I P2 where p2: "(if q_HartsClearToDecode P1 \<noteq> {} \<and> \<not> q_Halted P1 then tick_decode cp P1 else Inr (RevInst_default, P1)) = Inr (I, P2)"
    using assms p1 by (auto simp: ClockTick_def res_bind_eq_Inr)
  obtain r P3 P4 where p3: "(if q_HartToExecID P2 \<noteq> REV_INVALID_HART_ID \<and> \<not> rf_trigger (q_regs P2 r) \<and> \<not> q_Halted P2 \<and>
        unat (q_HartToExecID P2) \<in> q_HartsClearToExecute P2
      then tick_execute Ecalls I r P2
      else Inr (stat (\<lambda>s. s\<lparr>st_cyclesIdle_Total := st_cyclesIdle_Total s + 1,
        st_cyclesIdle_MemoryFetch := st_cyclesIdle_MemoryFetch s + (if q_HartsClearToExecute P2 \<noteq> {} then 1 else 0)\<rparr>) P2)) = Inr P3"
    and p4: "tick_retire r P3 = Inr P4" "tick_complete r P4 = Inr Q"
    using assms unfolding ClockTick_def p1 res_bind_simps p2 prod.case
    by (cases "q_RegFile P2") (auto simp only: option.case res_bind_eq_Inr prod.inject sum.inject sum.distinct)
  have "ids_same P P1" using ids_same_trans UpdateStatusOfHarts_ids [OF p1] ids_same_simps(1) by blast
  moreover have "P2 = P1 \<or> tick_decode cp P1 = Inr (I, P2)" using p2 by (auto split: if_splits)
  moreover have "ids_same P2 P3 \<or> tick_execute Ecalls I r P2 = Inr P3" using p3 by (auto split: if_splits)
  ultimately show ?thesis using p4 by blast
qed

text \<open>
  What the clock tick relies on from the system calls: each keeps the invariant of the scheduler.
\<close>

locale ecall_table =
  fixes Ecalls :: "u32 \<rightharpoonup> ecall_fun"
  assumes keeps_sched: "Ecalls n = Some f \<Longrightarrow> sched_inv P \<Longrightarrow> f I P = Inr (s, Q) \<Longrightarrow> sched_inv Q"
begin

lemma tick_trap_inv:
  assumes "sched_inv P" "tick_trap Ecalls X I r P = Inr Q"
  shows "sched_inv Q"
proof -
  obtain P1 P2 where x1: "(if rf_SCAUSE (q_regs P r) = ECALL_USER_MODE \<or> ucast (rf_SCAUSE (q_regs P r)) = (ucast ECALL_USER_MODE :: u32)
      then ExecEcall Ecalls I r P else Inr P) = Inr P1"
    and x2: "(if q_ALUFault P1 then InjectALUFault X I r P1 else Inr P1) = Inr P2"
    and x3: "Q = (if q_SingleStep P2 then P2\<lparr>q_SingleStep := False, q_Halted := True\<rparr> else P2)"
    using assms(2) by (auto simp only: tick_trap_def Let_def res_bind_eq_Inr sum.inject)
  have p1: "P1 = P \<or> ExecEcall Ecalls I r P = Inr P1" using x1 by (simp split: if_splits)
  have p2: "P2 = P1 \<or> InjectALUFault X I r P1 = Inr P2" using x2 by (simp split: if_splits)
  have q: "ids_same P2 Q" using x3 by (simp add: ids_defs)
  have "sched_inv P1" if e: "ExecEcall Ecalls I r P = Inr P1"
  proof -
    obtain n f s P' where f: "Ecalls n = Some f" "f I P = Inr (s, P')" "ids_same P' P1"
      using e by (auto simp: ExecEcall_def res_bind_eq_Inr Let_def ids_defs split: option.splits)
    show ?thesis by (rule sched_inv_frame [OF f(3) keeps_sched [OF f(1) assms(1) f(2)]])
  qed
  then have "sched_inv P1" using p1 assms(1) by blast
  moreover have "ids_same P1 P2" using p2 InjectALUFault_ids by auto
  ultimately show ?thesis using q sched_inv_frame by blast
qed

lemma tick_execute_inv:
  assumes "sched_inv P" "tick_execute Ecalls I r P = Inr Q"
  shows "sched_inv Q"
  using tick_execute_trap [OF assms(2)] tick_trap_inv sched_inv_frame assms(1) by blast

lemma ClockTick_inv:
  assumes "sched_inv P" "ClockTick cp Ecalls P = Inr (b, Q)"
  shows "sched_inv Q"
proof -
  obtain P1 I P2 r P3 P4 where s: "ids_same P P1" "P2 = P1 \<or> tick_decode cp P1 = Inr (I, P2)"
    "ids_same P2 P3 \<or> tick_execute Ecalls I r P2 = Inr P3" "tick_retire r P3 = Inr P4" "tick_complete r P4 = Inr Q"
    using ClockTick_stages [OF assms(2)] by metis
  have "sched_inv P1" using s(1) assms(1) sched_inv_frame by blast
  then have "sched_inv P2" using s(2) tick_decode_inv by blast
  then have "sched_inv P3" using s(3) tick_execute_inv sched_inv_frame by blast
  then show ?thesis using s(4,5) tick_retire_ids sched_inv_frame tick_complete_inv by blast
qed

end

section \<open>Runs of a processor\<close>

text \<open>
  What happens to a processor over time: clock ticks, and between them the calls of the CPU (new
  threads, threads taken away, statistics), of the debugger, of the coprocessor and of the fault
  injector. A thread that is assigned brings a register file that no hart has.
\<close>

inductive proc_step :: "(u32 \<Rightarrow> bool) \<Rightarrow> (u32 \<rightharpoonup> ecall_fun) \<Rightarrow> RevProc \<Rightarrow> RevProc \<Rightarrow> bool" for cp Ecalls where
  tick: "ClockTick cp Ecalls P = Inr (b, Q) \<Longrightarrow> proc_step cp Ecalls P Q"
| assign: "\<lbrakk>HasIdleHart P; th_VirtRegState T = Some r; \<forall>i<length (q_Harts P). ha_RegFile (q_Harts P ! i) \<noteq> Some r;
     AssignThread T P = Inr Q\<rbrakk> \<Longrightarrow> proc_step cp Ecalls P Q"
| transfer: "TransferThreadsThatChangedState P = (Ts, Q) \<Longrightarrow> proc_step cp Ecalls P Q"
| stats: "GetAndClearStats P = (s, Q) \<Longrightarrow> proc_step cp Ecalls P Q"
| halt: "Halt P = (b, Q) \<Longrightarrow> proc_step cp Ecalls P Q"
| resume: "Resume P = (b, Q) \<Longrightarrow> proc_step cp Ecalls P Q"
| single: "SingleStepHart P = (b, Q) \<Longrightarrow> proc_step cp Ecalls P Q"
| write_reg: "DebugWriteReg i v P = Inr (b, Q) \<Longrightarrow> proc_step cp Ecalls P Q"
| stall: "ExternalStallHart h P = Inr Q \<Longrightarrow> proc_step cp Ecalls P Q"
| release: "ExternalReleaseHart h P = Inr Q \<Longrightarrow> proc_step cp Ecalls P Q"
| crack: "proc_step cp Ecalls P (HandleCrackFault w P)"
| reg: "HandleRegFault w P = Inr Q \<Longrightarrow> proc_step cp Ecalls P Q"
| alu: "proc_step cp Ecalls P (HandleALUFault w P)"

inductive proc_reachable :: "(u32 \<Rightarrow> bool) \<Rightarrow> (u32 \<rightharpoonup> ecall_fun) \<Rightarrow> RevProc \<Rightarrow> bool" for cp Ecalls where
  start: "\<lbrakk>0 < n; n \<le> 4096\<rbrakk> \<Longrightarrow> proc_reachable cp Ecalls (mk_RevProc n d F T M Env)"
| step: "\<lbrakk>proc_reachable cp Ecalls P; proc_step cp Ecalls P Q\<rbrakk> \<Longrightarrow> proc_reachable cp Ecalls Q"

lemma mk_RevProc_inv:
  assumes "0 < n" "n \<le> 4096" shows "sched_inv (mk_RevProc n d F T M Env)"
  using assms by (auto simp: sched_inv_def proc_inv_def hart_ok_def mk_RevProc_def Reset_def mk_RevHart_def word_less_nat_alt)

lemma AssignThread_inv:
  assumes "proc_inv P" "HasIdleHart P" "th_VirtRegState T = Some r"
    and "\<forall>i<length (q_Harts P). ha_RegFile (q_Harts P ! i) \<noteq> Some r"
  shows "\<exists>h P'. AssignThread T P = Inr P' \<and> h \<in> q_IdleHarts P \<and> (\<forall>i<h. i \<notin> q_IdleHarts P) \<and> proc_inv P' \<and>
    q_IdleHarts P' = q_IdleHarts P - {h} \<and> ha_RegFile (q_Harts P' ! h) = Some r \<and>
    PopThreadFromHart (of_nat h) P' = Inr (SetState RUNNING T, P) \<and> length (q_Harts P') = length (q_Harts P) \<and>
    q_HartToDecodeID P' = q_HartToDecodeID P \<and> q_HartToExecID P' = q_HartToExecID P \<and>
    q_HartsClearToDecode P' = q_HartsClearToDecode P"
proof -
  let ?n = "length (q_Harts P)"
  have n: "?n = unat (q_numHarts P)" "?n \<le> 4096" "q_IdleHarts P \<subseteq> {..<?n}"
    using assms(1) by (auto simp: proc_inv_def word_le_nat_alt)
  have "\<exists>h. h \<in> q_IdleHarts P" using assms(2) by (auto simp: HasIdleHart_def)
  then obtain h where h: "h \<in> q_IdleHarts P" "\<forall>i<h. i \<notin> q_IdleHarts P"
    using exists_least_iff [of "\<lambda>i. i \<in> q_IdleHarts P"] by auto
  then have hn: "h < ?n" using n(3) by auto
  have u: "unat (of_nat h :: u32) = h" using hn n(2) by (simp add: unat_of_nat)
  have f: "FindIdleHartID P = Inr (of_nat h)"
    using h hn by (simp add: FindIdleHartID_def find_upt_least [THEN iffD2])
  have ok: "hart_ok P h" using assms(1) hn by (simp add: proc_inv_def)
  then have H: "ha_Thread (q_Harts P ! h) = None" "ha_RegFile (q_Harts P ! h) = None"
    using h(1) by (auto simp: hart_ok_def Let_def)
  let ?H = "(q_Harts P ! h)\<lparr>ha_Thread := Some ((SetState RUNNING T)\<lparr>th_VirtRegState := None\<rparr>), ha_RegFile := Some r\<rparr>"
  let ?P = "P\<lparr>q_Harts := (q_Harts P)[h := ?H], q_IdleHarts := q_IdleHarts P - {h}\<rparr>"
  have a: "AssignThread T P = Inr ?P"
    using f u assms(3) by (simp add: AssignThread_def hart_AssignThread_def)
  have "hart_ok ?P i" if "i < ?n" for i
    using assms(1) that hn by (cases "i = h") (auto simp: proc_inv_def hart_ok_def Let_def SetState_def)
  then have inv: "proc_inv ?P"
    using assms(1,4) hn by (auto simp: proc_inv_def nth_list_update)
  have "of_nat h < q_numHarts P" using u hn n(1) by (simp add: word_less_nat_alt)
  moreover have "(q_Harts P ! h)\<lparr>ha_Thread := None, ha_RegFile := None\<rparr> = q_Harts P ! h"
    using H by (cases "q_Harts P ! h") simp
  ultimately have "PopThreadFromHart (of_nat h) ?P = Inr (SetState RUNNING T, P)"
    using u hn h(1) assms(3) by (simp add: PopThreadFromHart_def hart_PopThread_def SetState_def insert_absorb not_le)
  then show ?thesis using a h inv hn by (intro exI [of _ h] exI [of _ ?P]) simp
qed

lemma AssignThread_sched:
  assumes "sched_inv P" "HasIdleHart P" "th_VirtRegState T = Some r"
    and "\<forall>i<length (q_Harts P). ha_RegFile (q_Harts P ! i) \<noteq> Some r" "AssignThread T P = Inr Q"
  shows "sched_inv Q"
  using AssignThread_inv [of P T r] assms by (auto simp: sched_inv_def)

lemma HandleRegFault_ids: "HandleRegFault w P = Inr Q \<Longrightarrow> ids_same P Q"
  by (auto simp: HandleRegFault_def draw32_def Let_def res_bind_eq_Inr ids_defs split: if_splits)

context ecall_table
begin

lemma proc_step_inv:
  assumes "proc_step cp Ecalls P Q" "sched_inv P" shows "sched_inv Q"
  using assms
proof (induction rule: proc_step.induct)
  case (tick P b Q)
  then show ?case using ClockTick_inv by blast
next
  case (assign P T r Q)
  then show ?case using AssignThread_sched by blast
next
  case (reg w P Q)
  then show ?case using HandleRegFault_ids sched_inv_frame by blast
next
  case (transfer P Ts Q)
  then show ?case using sched_inv_cong [of Q P] by (auto simp: TransferThreadsThatChangedState_def)
qed (auto elim!: sched_inv_frame [rotated] simp: ids_defs GetAndClearStats_def Let_def
  Halt_def Resume_def SingleStepHart_def DebugWriteReg_def res_bind_eq_Inr ExternalStallHart_def ExternalReleaseHart_def
  HandleCrackFault_def HandleALUFault_def split: if_splits)

lemma reachable_sched_inv: "proc_reachable cp Ecalls P \<Longrightarrow> sched_inv P"
  by (induction rule: proc_reachable.induct) (auto simp: mk_RevProc_inv proc_step_inv)

end

section \<open>An instruction that costs more than one cycle\<close>

lemma ClockTick_waits:
  assumes "UpdateStatusOfHarts (stat (\<lambda>s. s\<lparr>st_totalCycles := st_totalCycles s + 1\<rparr>) P) = Inr P1"
    and "q_HartsClearToDecode P1 = {}" "q_RegFile P1 = Some r" "rf_trigger (q_regs P1 r)"
    and "tick_retire r (stat (\<lambda>s. s\<lparr>st_cyclesIdle_Total := st_cyclesIdle_Total s + 1, st_cyclesIdle_MemoryFetch :=
      st_cyclesIdle_MemoryFetch s + (if q_HartsClearToExecute P1 \<noteq> {} then 1 else 0)\<rparr>) P1) = Inr P4"
    and "tick_complete r P4 = Inr P5"
  shows "ClockTick cp Ecalls P = Inr (True, P5)"
  using assms by (simp add: ClockTick_def split del: if_split)

lemma tick_retire_slow:
  assumes "q_Pipeline P = (h, I) # rest" "1 < i_cost I" shows "tick_retire r P = Inr P"
proof -
  have "0 < i_cost I" "i_cost I - 1 \<noteq> 0" "I\<lparr>i_cost := i_cost I - 1 + 1\<rparr> = I"
    using assms(2) by (auto simp: word_gt_0)
  moreover have "P\<lparr>q_Pipeline := (h, I) # rest\<rparr> = P" using assms(1) by simp
  ultimately show ?thesis
    unfolding tick_retire_def assms(1) list.case prod.case Let_def by presburger
qed

definition stuck :: "RevProc \<Rightarrow> bool" where
  "stuck P \<longleftrightarrow> q_HartsClearToDecode P \<subseteq> {..<length (q_Harts P)} \<and>
     (\<forall>i<length (q_Harts P). i \<notin> q_IdleHarts P \<longrightarrow>
        (\<exists>r. ha_RegFile (q_Harts P ! i) = Some r \<and> rf_cost (q_regs P r) \<noteq> 0)) \<and>
     (\<exists>r. q_RegFile P = Some r \<and> rf_trigger (q_regs P r) \<and> GetPC (q_regs P r) \<noteq> 0) \<and>
     (\<exists>h I rest. q_Pipeline P = (h, I) # rest \<and> 1 < i_cost I)"

lemma stuck_ClockTick:
  assumes "stuck P"
  shows "\<exists>Q. ClockTick cp Ecalls P = Inr (True, Q) \<and> stuck Q \<and> q_regs Q = q_regs P \<and> q_Pipeline Q = q_Pipeline P \<and>
    q_mem Q = q_mem P \<and> st_retired (q_Stats Q) = st_retired (q_Stats P)"
proof -
  obtain r h I rest where s: "q_RegFile P = Some r" "rf_trigger (q_regs P r)" "GetPC (q_regs P r) \<noteq> 0"
    "q_Pipeline P = (h, I) # rest" "1 < i_cost I"
    using assms by (auto simp: stuck_def)
  let ?P = "stat (\<lambda>s. s\<lparr>st_totalCycles := st_totalCycles s + 1\<rparr>) P"
  have no: "\<not> list_ex (\<lambda>i. i \<notin> q_IdleHarts ?P \<and> ha_RegFile (q_Harts ?P ! i) = None) [0..<length (q_Harts ?P)]"
    using assms by (auto simp: stuck_def list_ex_iff stat_def)
  have c: "(q_HartsClearToDecode ?P - {..<length (q_Harts ?P)}) \<union>
        set (filter (\<lambda>i. i \<notin> q_IdleHarts ?P \<and> rf_cost (q_regs ?P (the (ha_RegFile (q_Harts ?P ! i)))) = 0)
          [0..<length (q_Harts ?P)]) = {}"
    using assms by (auto simp: stuck_def stat_def)
  let ?P1 = "?P\<lparr>q_HartsClearToDecode := {}\<rparr>"
  have u: "UpdateStatusOfHarts ?P = Inr ?P1" unfolding UpdateStatusOfHarts_def c using no by simp
  define P3 where "P3 = stat (\<lambda>s. s\<lparr>st_cyclesIdle_Total := st_cyclesIdle_Total s + 1, st_cyclesIdle_MemoryFetch :=
    st_cyclesIdle_MemoryFetch s + (if q_HartsClearToExecute ?P1 \<noteq> {} then 1 else 0)\<rparr>) ?P1"
  have p3: "q_RegFile P3 = Some r" "rf_trigger (q_regs P3 r)" "GetPC (q_regs P3 r) \<noteq> 0" "q_Pipeline P3 = (h, I) # rest"
    using s by (simp_all add: P3_def stat_def)
  have t: "tick_retire r P3 = Inr P3" by (rule tick_retire_slow [OF p3(4) s(5)])
  have "ClockTick cp Ecalls P = Inr (True, P3)"
  proof (rule ClockTick_waits [OF u])
    show "tick_retire r (stat (\<lambda>s. s\<lparr>st_cyclesIdle_Total := st_cyclesIdle_Total s + 1, st_cyclesIdle_MemoryFetch :=
      st_cyclesIdle_MemoryFetch s + (if q_HartsClearToExecute ?P1 \<noteq> {} then 1 else 0)\<rparr>) ?P1) = Inr P3"
      using t unfolding P3_def .
  qed (use s p3 in \<open>simp_all add: stat_def tick_complete_def\<close>)
  moreover have "stuck P3" using assms by (auto simp: P3_def stuck_def stat_def)
  ultimately show ?thesis by (auto simp: P3_def stat_def)
qed

text \<open>An aligned word in a stream that is not the last one of it: fetching it needs no refill.\<close>

definition fetch_plain :: "RevPrefetcher \<Rightarrow> (u64 \<Rightarrow> u8) \<Rightarrow> u64 \<Rightarrow> bool" where
  "fetch_plain S m PC \<longleftrightarrow> pf_inv S m \<and> unat PC mod 4 = 0 \<and> mword m PC \<noteq> REVPREF_INIT_ADDR \<and>
     (\<exists>i b ws. find_stream (pf_depth S) PC (pf_streams S) = Some i \<and> pf_streams S ! i = (b, ws) \<and>
        stream_off PC b \<noteq> pf_depth S - 1)"

lemma fetch_plain_ok:
  assumes "fetch_plain S (vmem (c_M C)) PC" "\<not> fetch_pending C"
  shows "IsAvail F PC S C = Inr (True, S, C)"
    and "InstFetch F PC Inst0 S C = Inr (True, True, mword (vmem (c_M C)) PC, S, C)"
proof -
  let ?m = "vmem (c_M C)"
  have p: "pf_inv S ?m" "unat PC mod 4 = 0" "mword ?m PC \<noteq> REVPREF_INIT_ADDR" "unat (pf_depth S) \<le> 2 ^ 20"
    using assms(1) by (simp_all add: fetch_plain_def pf_inv_def)
  obtain i b ws where i: "find_stream (pf_depth S) PC (pf_streams S) = Some i"
    and s: "pf_streams S ! i = (b, ws)" and o: "stream_off PC b \<noteq> pf_depth S - 1"
    using assms(1) by (auto simp: fetch_plain_def)
  have k: "stream_ok (pf_depth S) ?m (b, ws)" "in_stream (pf_depth S) PC b"
    using pf_inv_stream [OF p(1) i] s by auto
  note w = stream_word [OF k(1) p(4) k(2)]
  have a: "PC AND 3 = 0" using p(2) unat_and_3 [of PC] by (simp add: word_unat_eq_iff)
  have "unat (b + ucast (pf_depth S * 4)) = unat b + 4 * unat (pf_depth S)"
    using k(1) depth_times_4 [OF p(4)] by (simp add: stream_ok_def unat_word_ariths)
  then have l: "\<not> b + ucast (pf_depth S * 4) - PC < 4"
    using w(5) p(2) by (simp add: word_less_nat_alt unat_sub word_le_nat_alt)
  show "IsAvail F PC S C = Inr (True, S, C)"
    using i s w(1-3) p a l assms(2) by (simp add: IsAvail_def Let_def)
  show "InstFetch F PC Inst0 S C = Inr (True, True, mword ?m PC, S, C)"
    using i s w(1-4) p o by (simp add: InstFetch_def Let_def)
qed

text \<open>The harts that are ready to decode after \<^verbatim>\<open>UpdateStatusOfHarts\<close>, and the one that is chosen.\<close>

definition ready_harts :: "RevProc \<Rightarrow> nat set" where
  "ready_harts P = {i. i < length (q_Harts P) \<and> i \<notin> q_IdleHarts P \<and>
     rf_cost (q_regs P (the (ha_RegFile (q_Harts P ! i)))) = 0}"

definition next_hart :: "RevProc \<Rightarrow> u32" where
  "next_hart P = GetNextHartToDecodeID (P\<lparr>q_HartsClearToDecode := ready_harts P\<rparr>)"

lemma UpdateStatusOfHarts_ready:
  assumes "sched_inv P" shows "UpdateStatusOfHarts P = Inr (P\<lparr>q_HartsClearToDecode := ready_harts P\<rparr>)"
proof -
  have "\<not> list_ex (\<lambda>i. i \<notin> q_IdleHarts P \<and> ha_RegFile (q_Harts P ! i) = None) [0..<length (q_Harts P)]"
    using assms by (auto simp: sched_inv_def proc_inv_def hart_ok_def Let_def list_ex_iff)
  moreover have "(q_HartsClearToDecode P - {..<length (q_Harts P)}) \<union>
      set (filter (\<lambda>i. i \<notin> q_IdleHarts P \<and> rf_cost (q_regs P (the (ha_RegFile (q_Harts P ! i)))) = 0)
        [0..<length (q_Harts P)]) = ready_harts P"
    using assms by (auto simp: sched_inv_def ready_harts_def)
  ultimately show ?thesis by (simp add: UpdateStatusOfHarts_def)
qed

lemma core_of_back [simp]:
  "core_back r (core_of h r P) P = P" "c_M (core_of h r P) = q_mem P" "c_R (core_of h r P) = q_regs P r"
  "c_LSQueue (core_of h r P) = q_LSQueue P" "c_OutstandingFetchQ (core_of h r P) = q_OutstandingFetchQ P"
  by (simp_all add: core_of_def core_back_def)

lemma hart_regs_iff: "hart_regs h P = Inr r \<longleftrightarrow> unat h < length (q_Harts P) \<and> ha_RegFile (q_Harts P ! unat h) = Some r"
  by (auto simp: hart_regs_def not_le split: option.splits)

lemma RevInst_update_same [simp]: "I\<lparr>i_entry := i_entry I\<rparr> = I" "I\<lparr>i_cost := i_cost I\<rparr> = I" for I :: RevInst
  by simp_all

definition decoded_regs :: "RevInst \<Rightarrow> RevRegFile \<Rightarrow> RevRegFile" where
  "decoded_regs I R = R\<lparr>rf_Entry := i_entry I, rf_cost := i_cost I, rf_trigger := False\<rparr>"

lemma decoded_regs_frame [simp]:
  "ScoreboardCheck (decoded_regs I R) = ScoreboardCheck R" "GetPC (decoded_regs I R) = GetPC R"
  "rf_Entry (decoded_regs I R) = i_entry I" "rf_cost (decoded_regs I R) = i_cost I" "\<not> rf_trigger (decoded_regs I R)"
  by (simp_all add: decoded_regs_def ScoreboardCheck_def fun_eq_iff GetPC_def)

lemma tick_decode_plain:
  assumes h: "h = GetNextHartToDecodeID P" "hart_regs h P = Inr r"
    and q: "\<not> q_CrackFault P" "q_CoProcStallReq P = {}" "q_OutstandingFetchQ P = []"
    and pc: "GetPC (q_regs P r) \<noteq> 0" "fetch_plain (q_sfetch P) (vmem (q_mem P)) (GetPC (q_regs P r))"
      "mword (vmem (q_mem P)) (GetPC (q_regs P r)) \<noteq> 0"
    and I: "DecodeInst (SetHartToExecID h (q_feature P)) (q_tables P) cp (mword (vmem (q_mem P)) (GetPC (q_regs P r))) = Inr I"
      "DependencyCheck h I P = Inr False"
  shows "tick_decode cp P = Inr (I, P\<lparr>q_HartToDecodeID := h, q_ActiveThreadID := GetAssignedThreadID (q_Harts P ! unat h),
    q_RegFile := Some r, q_feature := SetHartToExecID h (q_feature P), q_Stalled := False,
    q_regs := (q_regs P)(r := decoded_regs I (q_regs P r)), q_HartsClearToExecute := insert (unat h) (q_HartsClearToExecute P),
    q_HartToExecID := h, q_Stats := (q_Stats P)\<lparr>st_cyclesBusy := st_cyclesBusy (q_Stats P) + 1\<rparr>,
    q_ExecPC := GetPC (q_regs P r)\<rparr>)" (is "_ = Inr (I, ?Q)")
proof -
  have len: "unat h < length (q_Harts P)" using h(2) by (auto simp: hart_regs_def split: if_splits)
  let ?P1 = "P\<lparr>q_HartToDecodeID := h, q_ActiveThreadID := GetAssignedThreadID (q_Harts P ! unat h),
    q_RegFile := Some r, q_feature := SetHartToExecID h (q_feature P)\<rparr>"
  let ?P3 = "?P1\<lparr>q_Stalled := False\<rparr>"
  let ?P4 = "?P3\<lparr>q_regs := (q_regs P)(r := decoded_regs I (q_regs P r))\<rparr>"
  have np: "\<not> fetch_pending (core_of h r ?P1)" "\<not> fetch_pending (core_of h r ?P3)"
    using q(3) by (simp_all add: fetch_pending_def)
  have "PrefetchInst r ?P1 = Inr (True, ?P1)"
    using fetch_plain_ok(1) [OF _ np(1)] pc by (simp add: PrefetchInst_def)
  moreover have "FetchAndDecodeInst cp r ?P3 = Inr (I, ?P4)"
    using fetch_plain_ok(2) [OF _ np(2)] pc I(1) q(1) by (simp add: FetchAndDecodeInst_def decoded_regs_def)
  moreover have "DependencyCheck h I ?P4 = DependencyCheck h I P"
    using h(2) by (simp add: DependencyCheck_def hart_regs_def Let_def split: if_splits option.splits)
  ultimately show ?thesis
    using len h I(2) q(2) by (simp add: tick_decode_def stat_def Let_def hart_regs_def)
qed

text \<open>
  The core as an instruction finds it, its destination marked as pending, and the register file
  after the instruction has been retired in the same cycle.
\<close>

definition rd_class :: "RevProc \<Rightarrow> RevInst \<Rightarrow> RevRegClass" where
  "rd_class P I = e_rdClass (p_InstTable (q_tables P) ! unat (i_entry I))"

definition issued :: "u32 \<Rightarrow> nat \<Rightarrow> RevInst \<Rightarrow> RevProc \<Rightarrow> RevCore" where
  "issued h r I P = (core_of h r P)\<lparr>c_R := DependencySet (i_rd I) (rd_class P I = RegFLOAT) True
     ((decoded_regs I (q_regs P r))\<lparr>rf_trigger := True\<rparr>)\<rparr>"

definition retired_regs :: "u32 \<Rightarrow> RevInst \<Rightarrow> RevProc \<Rightarrow> RevCore \<Rightarrow> RevRegFile" where
  "retired_regs h I P C =
     (if list_ex (\<lambda>e. fst e = LSQHash (i_rd I) (rd_class P I) h) (c_LSQueue C) then c_R C
      else DependencySet (i_rd I) (rd_class P I = RegFLOAT) False (c_R C))\<lparr>rf_cost := 0\<rparr>"

lemma DependencySet_inst_ok:
  assumes "hart_regs h P = Inr r" "unat (i_entry I) < length (p_InstTable (q_tables P))"
  shows "DependencySet_inst h I v P =
    Inr (P\<lparr>q_regs := (q_regs P)(r := DependencySet (i_rd I) (rd_class P I = RegFLOAT) v (q_regs P r))\<rparr>)"
  using assms assms(1) [unfolded hart_regs_iff]
  by (auto simp: DependencySet_inst_def DependencySet_hart_def rd_class_def DependencySet_def)

lemma tick_execute_plain:
  assumes h: "q_HartToExecID P = h" "hart_regs h P = Inr r" "\<not> q_SingleStep P" "\<not> q_ALUFault P"
    and I: "rf_Entry (q_regs P r) = i_entry I" "unat (i_entry I) < length (p_InstTable (q_tables P))"
      "p_EntryToExt (q_tables P) (unat (i_entry I)) = Some (x, j)" "x < length (p_Extensions (q_tables P))"
    and C: "Execute (p_Extensions (q_tables P) ! x) j I (q_feature P) ((core_of h r P)\<lparr>c_R :=
        DependencySet (i_rd I) (rd_class P I = RegFLOAT) True ((q_regs P r)\<lparr>rf_trigger := True\<rparr>)\<rparr>) = Inr (True, C)"
      "ucast (rf_SCAUSE (c_R C)) \<noteq> (ucast ECALL_USER_MODE :: u32)"
  shows "\<exists>s. tick_execute Ecalls I r P = Inr ((core_back r C P)\<lparr>q_Pipeline := q_Pipeline P @ [(ucast h, I)], q_Stats := s\<rparr>) \<and>
    st_retired s = st_retired (q_Stats P)"
proof -
  let ?P1 = "P\<lparr>q_regs := (q_regs P)(r := (q_regs P r)\<lparr>rf_trigger := True\<rparr>), q_Pipeline := q_Pipeline P @ [(ucast h, I)]\<rparr>"
  define s where "s = (if x_name (p_Extensions (q_tables P) ! x) \<in> {''RV32F'', ''RV32D'', ''RV64F'', ''RV64D''}
    then (q_Stats P)\<lparr>st_floatsExec := st_floatsExec (q_Stats P) + 1\<rparr> else q_Stats P)"
  let ?P3 = "?P1\<lparr>q_Stats := s\<rparr>"
  let ?P4 = "?P3\<lparr>q_regs := (q_regs P)(r := DependencySet (i_rd I) (rd_class P I = RegFLOAT) True
    ((q_regs P r)\<lparr>rf_trigger := True\<rparr>))\<rparr>"
  have hr: "hart_regs h ?P3 = Inr r" using h(2) by (simp add: hart_regs_iff)
  have d: "DependencySet_inst h I True ?P3 = Inr ?P4"
    using DependencySet_inst_ok [OF hr, of I True] I(2) by (simp add: rd_class_def)
  have c: "core_of h r ?P4 = (core_of h r P)\<lparr>c_R :=
      DependencySet (i_rd I) (rd_class P I = RegFLOAT) True ((q_regs P r)\<lparr>rf_trigger := True\<rparr>)\<rparr>"
    by (simp add: core_of_def)
  have p3: "(if x_name (p_Extensions (q_tables P) ! x) \<in> {''RV32F'', ''RV32D'', ''RV64F'', ''RV64D''}
    then stat (\<lambda>s. s\<lparr>st_floatsExec := st_floatsExec s + 1\<rparr>) ?P1 else ?P1) = ?P3"
    by (simp add: s_def stat_def)
  have t: "tick_trap Ecalls X I r (core_back r C ?P4) = Inr (core_back r C ?P4)" for X
    using C(2) h(3,4) by (auto simp: tick_trap_def core_back_def Let_def)
  have "core_back r C ?P4 = (core_back r C P)\<lparr>q_Pipeline := q_Pipeline P @ [(ucast h, I)], q_Stats := s\<rparr>"
    by (simp add: core_back_def)
  then have "tick_execute Ecalls I r P = Inr ((core_back r C P)\<lparr>q_Pipeline := q_Pipeline P @ [(ucast h, I)], q_Stats := s\<rparr>)"
    using h(1) I C(1) d c p3 t unfolding tick_execute_def Let_def by (simp split del: if_split cong: if_cong)
  moreover have "st_retired s = st_retired (q_Stats P)" by (simp add: s_def)
  ultimately show ?thesis by blast
qed


lemma tick_retire_plain:
  assumes p: "q_Pipeline P = [(ucast h, I)]" "i_cost I = 1" "unat h < 4096" "hart_regs h P = Inr r"
    and I: "unat (i_entry I) < length (p_InstTable (q_tables P))"
  shows "tick_retire r P = Inr (P\<lparr>q_Pipeline := [], q_Stats := (q_Stats P)\<lparr>st_retired := st_retired (q_Stats P) + 1\<rparr>,
    q_regs := (q_regs P)(r := retired_regs h I P (core_of h r P))\<rparr>)"
proof -
  have "unat (ucast (ucast h :: u16) :: u32) = unat h"
    using p(3) by (simp add: unsigned_ucast_eq unsigned_take_bit_eq take_bit_nat_eq_self)
  then have u: "ucast (ucast h :: u16) = h" by (simp add: word_unat_eq_iff)
  define P1 where "P1 = stat (\<lambda>s. s\<lparr>st_retired := st_retired s + 1\<rparr>) (P\<lparr>q_Pipeline := [(ucast h, I\<lparr>i_cost := 0\<rparr>)]\<rparr>)"
  let ?out = "list_ex (\<lambda>e. fst e = LSQHash (i_rd I) (rd_class P I) h) (q_LSQueue P)"
  have f: "q_tables P1 = q_tables P" "q_LSQueue P1 = q_LSQueue P" "q_regs P1 = q_regs P" by (simp_all add: P1_def stat_def)
  have "hart_regs h P1 = Inr r" using p(4) by (simp add: hart_regs_iff P1_def stat_def)
  then have d: "DependencySet_inst h I False P1 = Inr (P1\<lparr>q_regs := (q_regs P)(r :=
      DependencySet (i_rd I) (rd_class P I = RegFLOAT) False (q_regs P r))\<rparr>)"
    using DependencySet_inst_ok [of h P1 r I False] I f by (simp add: rd_class_def)
  have "tick_retire r P = res_bind (if ?out then Inr P1 else DependencySet_inst h I False P1) (\<lambda>P2.
      Inr (P2\<lparr>q_Pipeline := [], q_regs := (q_regs P2)(r := (q_regs P2 r)\<lparr>rf_cost := 0\<rparr>)\<rparr>))"
    using p(2) I f u unfolding tick_retire_def p(1) list.case prod.case rd_class_def by (simp add: P1_def [symmetric])
  also have "\<dots> = Inr (P1\<lparr>q_Pipeline := [], q_regs := (q_regs P)(r := retired_regs h I P (core_of h r P))\<rparr>)"
    using f unfolding d by (simp add: retired_regs_def)
  finally show ?thesis by (simp add: P1_def stat_def)
qed

text \<open>What has to hold for a hart to complete the instruction at its program counter in one cycle.\<close>

definition can_run :: "u32 \<Rightarrow> nat \<Rightarrow> RevProc \<Rightarrow> bool" where
  "can_run h r P \<longleftrightarrow> sched_inv P \<and> ready_harts P \<noteq> {} \<and> h = next_hart P \<and> ha_RegFile (q_Harts P ! unat h) = Some r \<and>
     \<not> q_Halted P \<and> \<not> q_SingleStep P \<and> \<not> q_CrackFault P \<and> \<not> q_ALUFault P \<and> q_CoProcStallReq P = {} \<and>
     q_OutstandingFetchQ P = [] \<and> q_Pipeline P = [] \<and> GetPC (q_regs P r) \<noteq> 0 \<and>
     fetch_plain (q_sfetch P) (vmem (q_mem P)) (GetPC (q_regs P r))"

lemma GetNextHartToDecodeID_clear:
  assumes "q_HartsClearToDecode P \<noteq> {}" "q_HartsClearToDecode P \<subseteq> {..<length (q_Harts P)}"
    and "unat (q_HartToDecodeID P) < length (q_Harts P)" "length (q_Harts P) \<le> 4096"
  shows "unat (GetNextHartToDecodeID P) \<in> q_HartsClearToDecode P"
  using next_hart_round_robin [OF assms] by blast

lemma next_hart_ready:
  assumes "sched_inv P" "ready_harts P \<noteq> {}"
  shows "unat (next_hart P) \<in> ready_harts P" "unat (next_hart P) < length (q_Harts P)" "unat (next_hart P) < 4096"
proof -
  let ?P = "P\<lparr>q_HartsClearToDecode := ready_harts P\<rparr>"
  have n: "length (q_Harts P) \<le> 4096" "unat (q_HartToDecodeID P) < length (q_Harts P)"
    using assms(1) by (auto simp: sched_inv_def proc_inv_def word_le_nat_alt)
  have sub: "ready_harts P \<subseteq> {..<length (q_Harts P)}" by (auto simp: ready_harts_def)
  show "unat (next_hart P) \<in> ready_harts P"
    using GetNextHartToDecodeID_clear [of ?P] assms(2) sub n by (simp add: next_hart_def)
  then show "unat (next_hart P) < length (q_Harts P)" using sub by blast
  then show "unat (next_hart P) < 4096" using n(1) by simp
qed

lemma ClockTick_issues:
  assumes run: "can_run h r P" and w: "w = mword (vmem (q_mem P)) (GetPC (q_regs P r))" "w \<noteq> 0"
    and F: "F = SetHartToExecID h (q_feature P)"
    and I: "DecodeInst F (q_tables P) cp w = Inr I" "DependencyCheck h I P = Inr False"
      "unat (i_entry I) < length (p_InstTable (q_tables P))"
      "p_EntryToExt (q_tables P) (unat (i_entry I)) = Some (x, j)" "x < length (p_Extensions (q_tables P))"
    and C: "Execute (p_Extensions (q_tables P) ! x) j I F (issued h r I P) = Inr (True, C)"
      "ucast (rf_SCAUSE (c_R C)) \<noteq> (ucast ECALL_USER_MODE :: u32)"
  obtains P3 where "ClockTick cp Ecalls P = res_bind (tick_retire r P3) (\<lambda>P4. res_bind (tick_complete r P4) (\<lambda>P5. Inr (True, P5)))"
    "q_regs P3 = (q_regs P)(r := c_R C)" "q_mem P3 = c_M C" "q_LSQueue P3 = c_LSQueue C" "q_Pipeline P3 = [(ucast h, I)]"
    "st_retired (q_Stats P3) = st_retired (q_Stats P)" "q_Harts P3 = q_Harts P" "q_IdleHarts P3 = q_IdleHarts P"
    "q_tables P3 = q_tables P" "q_RegFile P3 = Some r" "q_HartsClearToDecode P3 = ready_harts P"
    "unat h < 4096" "hart_regs h P3 = Inr r"
proof -
  let ?P1 = "P\<lparr>q_Stats := (q_Stats P)\<lparr>st_totalCycles := st_totalCycles (q_Stats P) + 1\<rparr>, q_HartsClearToDecode := ready_harts P\<rparr>"
  have run': "sched_inv P" "ready_harts P \<noteq> {}" "ha_RegFile (q_Harts P ! unat h) = Some r" "\<not> q_Halted P" "\<not> q_SingleStep P"
    "\<not> q_CrackFault P" "\<not> q_ALUFault P" "q_CoProcStallReq P = {}" "q_OutstandingFetchQ P = []" "q_Pipeline P = []"
    "GetPC (q_regs P r) \<noteq> 0" "fetch_plain (q_sfetch P) (vmem (q_mem P)) (GetPC (q_regs P r))" and hn: "h = next_hart P"
    using run unfolding can_run_def by blast+
  have "sched_inv (stat (\<lambda>s. s\<lparr>st_totalCycles := st_totalCycles s + 1\<rparr>) P)"
    using run' sched_inv_frame ids_same_simps(1) by blast
  from UpdateStatusOfHarts_ready [OF this]
  have u: "UpdateStatusOfHarts (stat (\<lambda>s. s\<lparr>st_totalCycles := st_totalCycles s + 1\<rparr>) P) = Inr ?P1"
    by (simp add: stat_def ready_harts_def)
  have h1: "h = GetNextHartToDecodeID ?P1" using hn by (simp add: next_hart_def GetNextHartToDecodeID_def)
  have hl: "unat h < length (q_Harts P)" "unat h < 4096" using next_hart_ready [OF run'(1,2)] hn by auto
  have hr: "hart_regs h ?P1 = Inr r" using hl run' by (simp add: hart_regs_iff)
  have dc: "DependencyCheck h I ?P1 = Inr False" using I(2,3) hr hl run'(3) hart_regs_iff [of h P r] by (simp add: DependencyCheck_def Let_def)
  define P2 where "P2 = ?P1\<lparr>q_HartToDecodeID := h, q_ActiveThreadID := GetAssignedThreadID (q_Harts P ! unat h),
    q_RegFile := Some r, q_feature := F, q_Stalled := False,
    q_regs := (q_regs P)(r := decoded_regs I (q_regs P r)), q_HartsClearToExecute := insert (unat h) (q_HartsClearToExecute P),
    q_HartToExecID := h, q_Stats := (q_Stats ?P1)\<lparr>st_cyclesBusy := st_cyclesBusy (q_Stats ?P1) + 1\<rparr>,
    q_ExecPC := GetPC (q_regs P r)\<rparr>"
  have d: "tick_decode cp ?P1 = Inr (I, P2)"
    using tick_decode_plain [OF h1 hr, of cp I] run' w I(1) F dc by (simp add: P2_def)
  have hr2: "hart_regs h P2 = Inr r" using hr by (simp add: hart_regs_iff P2_def)
  have x: "\<exists>s. tick_execute Ecalls I r P2 = Inr ((core_back r C P2)\<lparr>q_Pipeline := [(ucast h, I)], q_Stats := s\<rparr>) \<and>
      st_retired s = st_retired (q_Stats P)"
    using tick_execute_plain [of P2 h r I x j C Ecalls] hr2 I C(1,2) run'
    by (simp add: P2_def issued_def core_of_def rd_class_def)
  then obtain s where s: "tick_execute Ecalls I r P2 = Inr ((core_back r C P2)\<lparr>q_Pipeline := [(ucast h, I)], q_Stats := s\<rparr>)"
    "st_retired s = st_retired (q_Stats P)" by blast
  let ?P3 = "(core_back r C P2)\<lparr>q_Pipeline := [(ucast h, I)], q_Stats := s\<rparr>"
  have hr3: "hart_regs h ?P3 = Inr r" using hr2 by (simp add: hart_regs_iff core_back_def)
  have g: "q_RegFile P2 = Some r" "q_HartToExecID P2 = h" "\<not> rf_trigger (q_regs P2 r)" "\<not> q_Halted P2"
    "unat h \<in> q_HartsClearToExecute P2"
    using run' by (auto simp: P2_def)
  have "unat REV_INVALID_HART_ID = 4294967295"
    by (simp add: REV_INVALID_HART_ID_def unsigned_minus_1_eq_mask mask_eq_exp_minus_1)
  then have "unat h \<noteq> unat REV_INVALID_HART_ID" using hl(2) by simp
  then have "h \<noteq> REV_INVALID_HART_ID" by blast
  note g = g this
  have "ClockTick cp Ecalls P = res_bind (tick_retire r ?P3) (\<lambda>P4. res_bind (tick_complete r P4) (\<lambda>P5. Inr (True, P5)))"
    using u d g s(1) run' by (simp add: ClockTick_def)
  then show ?thesis using that [of ?P3] s(2) hr3 hl by (simp add: core_back_def P2_def)
qed

lemma ClockTick_runs:
  assumes run: "can_run h r P" and w: "w = mword (vmem (q_mem P)) (GetPC (q_regs P r))" "w \<noteq> 0"
    and F: "F = SetHartToExecID h (q_feature P)"
    and I: "DecodeInst F (q_tables P) cp w = Inr I" "DependencyCheck h I P = Inr False"
      "unat (i_entry I) < length (p_InstTable (q_tables P))"
      "p_EntryToExt (q_tables P) (unat (i_entry I)) = Some (x, j)" "x < length (p_Extensions (q_tables P))"
    and C: "Execute (p_Extensions (q_tables P) ! x) j I F (issued h r I P) = Inr (True, C)"
      "ucast (rf_SCAUSE (c_R C)) \<noteq> (ucast ECALL_USER_MODE :: u32)"
    and more: "i_cost I = 1" "GetPC (c_R C) \<noteq> 0"
  shows "\<exists>Q. ClockTick cp Ecalls P = Inr (True, Q) \<and> q_regs Q = (q_regs P)(r := retired_regs h I P C) \<and> q_mem Q = c_M C \<and>
    q_LSQueue Q = c_LSQueue C \<and> q_Pipeline Q = [] \<and> st_retired (q_Stats Q) = st_retired (q_Stats P) + 1 \<and>
    q_Harts Q = q_Harts P \<and> q_IdleHarts Q = q_IdleHarts P"
proof -
  obtain P3 where t: "ClockTick cp Ecalls P = res_bind (tick_retire r P3) (\<lambda>P4. res_bind (tick_complete r P4) (\<lambda>P5. Inr (True, P5)))"
    and f: "q_regs P3 = (q_regs P)(r := c_R C)" "q_mem P3 = c_M C" "q_LSQueue P3 = c_LSQueue C" "q_Pipeline P3 = [(ucast h, I)]"
    "st_retired (q_Stats P3) = st_retired (q_Stats P)" "q_Harts P3 = q_Harts P" "q_IdleHarts P3 = q_IdleHarts P"
    "q_tables P3 = q_tables P" "q_RegFile P3 = Some r" "q_HartsClearToDecode P3 = ready_harts P"
    "unat h < 4096" "hart_regs h P3 = Inr r"
    by (rule ClockTick_issues [OF run w F I C])
  let ?P4 = "P3\<lparr>q_Pipeline := [], q_Stats := (q_Stats P3)\<lparr>st_retired := st_retired (q_Stats P3) + 1\<rparr>,
    q_regs := (q_regs P3)(r := retired_regs h I P3 (core_of h r P3))\<rparr>"
  have r: "tick_retire r P3 = Inr ?P4"
    using tick_retire_plain [OF f(4) more(1) f(11,12)] I(3) f(8) by simp
  have rr: "retired_regs h I P3 (core_of h r P3) = retired_regs h I P C"
    using f by (simp add: retired_regs_def rd_class_def)
  have "GetPC (retired_regs h I P C) \<noteq> 0" using more(2) by (simp add: retired_regs_def GetPC_def split: if_splits)
  then have "tick_complete r ?P4 = Inr ?P4" by (simp add: tick_complete_def rr)
  then have "ClockTick cp Ecalls P = Inr (True, ?P4)" using t r by simp
  moreover have "q_regs ?P4 = (q_regs P)(r := retired_regs h I P C)" using f(1) by (simp add: rr)
  ultimately show ?thesis using f by auto
qed

section \<open>Instructions that cost more than one cycle\<close>

text \<open>Repeated clock ticks.\<close>

fun ticks :: "(u32 \<Rightarrow> bool) \<Rightarrow> (u32 \<rightharpoonup> ecall_fun) \<Rightarrow> nat \<Rightarrow> RevProc \<Rightarrow> RevProc result" where
  "ticks cp Ecalls 0 P = Inr P"
| "ticks cp Ecalls (Suc n) P = res_bind (ClockTick cp Ecalls P) (\<lambda>(_, Q). ticks cp Ecalls n Q)"

lemma ticks_stuck:
  "stuck P \<Longrightarrow> \<exists>Q. ticks cp Ecalls n P = Inr Q \<and> stuck Q \<and> q_regs Q = q_regs P \<and> q_Pipeline Q = q_Pipeline P \<and>
    q_mem Q = q_mem P \<and> st_retired (q_Stats Q) = st_retired (q_Stats P)"
proof (induction n arbitrary: P)
  case (Suc n)
  obtain R where R: "ClockTick cp Ecalls P = Inr (True, R)" "stuck R" "q_regs R = q_regs P" "q_Pipeline R = q_Pipeline P"
    "q_mem R = q_mem P" "st_retired (q_Stats R) = st_retired (q_Stats P)"
    using stuck_ClockTick [OF Suc.prems] by blast
  then show ?case using Suc.IH [OF R(2)] by simp
qed simp

text \<open>
  C29: An instruction whose table entry gives it a cost of more than one cycle never retires: the retirement
  stage puts the cost back that it has just counted down. A core on which only one hart is busy
  does nothing from then on, however long it is clocked.
\<close>

theorem slow_instruction_deadlock:
  assumes run: "can_run h r P" and w: "w = mword (vmem (q_mem P)) (GetPC (q_regs P r))" "w \<noteq> 0"
    and F: "F = SetHartToExecID h (q_feature P)"
    and I: "DecodeInst F (q_tables P) cp w = Inr I" "DependencyCheck h I P = Inr False"
      "unat (i_entry I) < length (p_InstTable (q_tables P))"
      "p_EntryToExt (q_tables P) (unat (i_entry I)) = Some (x, j)" "x < length (p_Extensions (q_tables P))"
    and C: "Execute (p_Extensions (q_tables P) ! x) j I F (issued h r I P) = Inr (True, C)"
      "ucast (rf_SCAUSE (c_R C)) \<noteq> (ucast ECALL_USER_MODE :: u32)"
    and slow: "1 < i_cost I" "rf_cost (c_R C) \<noteq> 0" "rf_trigger (c_R C)" "GetPC (c_R C) \<noteq> 0" "q_IdleHarts P = {..<length (q_Harts P)} - {unat h}"
  shows "\<exists>Q. ticks cp Ecalls (Suc n) P = Inr Q \<and> q_regs Q = (q_regs P)(r := c_R C) \<and> q_Pipeline Q = [(ucast h, I)] \<and>
    st_retired (q_Stats Q) = st_retired (q_Stats P)"
proof -
  obtain P3 where t: "ClockTick cp Ecalls P = res_bind (tick_retire r P3) (\<lambda>P4. res_bind (tick_complete r P4) (\<lambda>P5. Inr (True, P5)))"
    and f: "q_regs P3 = (q_regs P)(r := c_R C)" "q_mem P3 = c_M C" "q_LSQueue P3 = c_LSQueue C" "q_Pipeline P3 = [(ucast h, I)]"
    "st_retired (q_Stats P3) = st_retired (q_Stats P)" "q_Harts P3 = q_Harts P" "q_IdleHarts P3 = q_IdleHarts P"
    "q_tables P3 = q_tables P" "q_RegFile P3 = Some r" "q_HartsClearToDecode P3 = ready_harts P"
    "unat h < 4096" "hart_regs h P3 = Inr r"
    by (rule ClockTick_issues [OF run w F I C])
  have "tick_retire r P3 = Inr P3" using tick_retire_slow [OF f(4) slow(1)] .
  moreover have "tick_complete r P3 = Inr P3" using slow(4) f(1) by (simp add: tick_complete_def)
  ultimately have c: "ClockTick cp Ecalls P = Inr (True, P3)" using t by simp
  have "stuck P3"
    using f slow by (auto simp: stuck_def ready_harts_def hart_regs_iff)
  from ticks_stuck [OF this, of cp Ecalls n] show ?thesis using c f by auto
qed

section \<open>Examples\<close>

text \<open>A core with one hart that is about to run \<open>addi x1, x0, 5\<close> at 0x3F010.\<close>

definition mem_addi :: RevMem where
  "mem_addi = mem_example\<lparr>m_pageMap := [0 \<mapsto> (0, True)],
     m_physMem := (\<lambda>a. if a = 0x3F010 then 0x93 else if a = 0x3F012 then 0x50 else 0)\<rparr>"

definition env_example :: RevEnv where
  "env_example = \<lparr>env_rand = (\<lambda>mn mx n. mn), env_rand64 = (\<lambda>mn mx n. mn), env_fp = host_example,
     env_host = (\<lambda>c l. (0, [])), env_timeConverter = None, env_numCores = 1, env_numHarts = 1, env_gp = 0\<rparr>"

definition thread_example :: RevThread where
  "thread_example = mk_RevThread 1 INVALID_TID (mk_MemSegment 0x40000 0x1000) 0"

definition proc_example :: "RevTables \<Rightarrow> RevProc" where
  "proc_example T = (mk_RevProc 1 3 feature_RV64GC T mem_addi env_example)
     \<lparr>q_Harts := [(mk_RevHart 0)\<lparr>ha_Thread := Some ((SetState RUNNING thread_example)\<lparr>th_VirtRegState := None\<rparr>), ha_RegFile := Some 0\<rparr>],
      q_IdleHarts := {}, q_regs := (\<lambda>_. (mk_RevRegFile feature_RV64GC)\<lparr>rf_PC := 0x3F010\<rparr>),
      q_sfetch := \<lparr>pf_depth = 3, pf_streams = [(0x3F010, [0x00500093, 0, 0])]\<rparr>\<rparr>"

lemma mword_addi: "mword (vmem mem_addi) 0x3F010 = 0x00500093" "mword (vmem mem_addi) 0x3F014 = 0" "mword (vmem mem_addi) 0x3F018 = 0"
  by (simp_all add: mword_def vread_4 vmem_def mem_addi_def page_paddr_def addrShift_def pageSize_def)

lemma IsRV32_RV64GC [simp]: "IsRV32 feature_RV64GC = False" by (simp add: IsRV32_def feature_RV64GC_def)

lemma proc_example_simps [simp]:
  "q_mem (proc_example T) = mem_addi" "q_tables (proc_example T) = T" "q_feature (proc_example T) = feature_RV64GC"
  "q_LSQueue (proc_example T) = []" "q_env (proc_example T) = env_example" "length (q_Harts (proc_example T)) = 1"
  "ha_RegFile (q_Harts (proc_example T) ! 0) = Some 0" "q_IdleHarts (proc_example T) = {}"
  "q_regs (proc_example T) r = (mk_RevRegFile feature_RV64GC)\<lparr>rf_PC := 0x3F010\<rparr>"
  "GetPC ((mk_RevRegFile feature_RV64GC)\<lparr>rf_PC := a\<rparr>) = a"
  "q_draws (proc_example T) = 0" "q_round (proc_example T) = 0" "q_OutstandingFetchQ (proc_example T) = []"
  by (simp_all add: proc_example_def mk_RevProc_def Reset_def mk_RevRegFile_def GetPC_def)

lemma proc_example_inv: "sched_inv (proc_example T)"
  by (simp add: sched_inv_def proc_inv_def hart_ok_def proc_example_def mk_RevProc_def Reset_def thread_example_def SetState_def mk_RevThread_def)

lemma ready_example: "ready_harts (proc_example T) = {0}"
  by (auto simp: ready_harts_def mk_RevRegFile_def)

lemma next_example: "next_hart (proc_example T) = 0"
  by (simp add: next_hart_def ready_example GetNextHartToDecodeID_def) (simp add: proc_example_def mk_RevProc_def Reset_def)

lemma can_run_example: "can_run 0 0 (proc_example T)"
proof -
  have "fetch_plain (q_sfetch (proc_example T)) (vmem mem_addi) 0x3F010"
    by (simp add: fetch_plain_def pf_inv_def stream_ok_def proc_example_def all_less_3 mword_addi REVPREF_INIT_ADDR_def
        in_stream_def stream_off_def)
  then show ?thesis
    by (simp add: can_run_def proc_example_inv ready_example next_example) (simp add: proc_example_def mk_RevProc_def Reset_def)
qed

text \<open>A table whose only instruction is \<^verbatim>\<open>addi\<close>, at a cost of two cycles.\<close>

definition entry_slow :: RevInstEntry where
  "entry_slow = RevInstDefaults\<lparr>e_mnemonic := ''addi'', e_cost := 2, e_opcode := 0b0010011, e_funct3 := 0,
     e_rdClass := RegGPR, e_rs1Class := RegGPR, e_rs2Class := RegUNKNOWN, e_format := RVTypeI, e_func := Some addi\<rparr>"

definition tables_slow :: RevTables where
  "tables_slow = RevTables_empty\<lparr>p_Extensions := [\<lparr>x_name = ''RV32I'', x_table = [entry_slow], x_ctable = [], x_otable = []\<rparr>],
     p_InstTable := [entry_slow], p_EntryToExt := [0 \<mapsto> (0, 0)], p_EncToEntry := [0b0010011 \<mapsto> 0]\<rparr>"


definition addi_slow :: RevInst where
  "addi_slow = (DecodeIInst 0x00500093 entry_slow)\<lparr>i_entry := 0, i_isCoProcInst := False\<rparr>"

lemma decode_slow: "DecodeInst F tables_slow cp 0x00500093 = Inr addi_slow"
proof -
  have "Enc 0x00500093 = 0b0010011" by (simp add: Enc_def Let_def enc_Funct3_def enc_Funct2or7_def enc_Imm12_def enc_fcvtOp_def inst42_def inst65_def)
  then show ?thesis
    by (simp add: DecodeInst_def find_entry_def tables_slow_def RevTables_empty_def decode_format_def addi_slow_def)
      (simp add: entry_slow_def)
qed

lemma addi_slow_simps [simp]:
  "i_entry addi_slow = 0" "i_cost addi_slow = 2" "i_rd addi_slow = 1" "i_rs1 addi_slow = 0" "i_rs2 addi_slow = 0" "i_rs3 addi_slow = 0"
  "i_imm addi_slow = 5" "i_instSize addi_slow = 4" "\<not> i_compressed addi_slow" "i_rm addi_slow = FRMode_None"
  by (simp_all add: addi_slow_def DecodeIInst_def entry_slow_def RevInstDefaults_def DECODE_defs IsFloat_def RevInst_default_def)


text \<open>The core after the instruction.\<close>

definition core_slow :: RevCore where
  "core_slow = snd (projr (addi feature_RV64GC addi_slow (issued 0 0 addi_slow (proc_example tables_slow))))"

lemma execute_slow:
  "addi feature_RV64GC addi_slow (issued 0 0 addi_slow (proc_example tables_slow)) = Inr (True, core_slow)"
  "rf_SCAUSE (c_R core_slow) = 0" "rf_cost (c_R core_slow) = 2" "rf_trigger (c_R core_slow)" "GetPC (c_R core_slow) = 0x3F014"
  by (simp_all add: core_slow_def addi_def oper_def Let_def issued_def core_of_def decoded_regs_def mk_RevRegFile_def
      DependencySet_def REV_NUM_REGS_def GetX_def SetX_u_def is_zero_reg_def ImmSignExt_def SignExt_def ZeroExt_def AdvancePC_def AdvancePC_size_def GetPC_def SetPC_def)


theorem slow_instruction_deadlock_witness:
  "\<exists>Q. ticks (\<lambda>_. False) Map.empty (Suc 1000000) (proc_example tables_slow) = Inr Q \<and>
     GetPC (q_regs Q 0) = 0x3F014 \<and> q_Pipeline Q = [(0, addi_slow)] \<and> st_retired (q_Stats Q) = 0"
proof -
  let ?P = "proc_example tables_slow"
  have F: "SetHartToExecID 0 feature_RV64GC = feature_RV64GC" by (simp add: SetHartToExecID_def feature_RV64GC_def)
  have D: "DependencyCheck 0 addi_slow ?P = Inr False"
    by (simp add: DependencyCheck_def hart_regs_def LSQCheck_def ScoreboardCheck_def tables_slow_def mk_RevRegFile_def)
  have t: "unat (i_entry addi_slow) < length (p_InstTable (q_tables ?P))" "p_EntryToExt (q_tables ?P) (unat (i_entry addi_slow)) = Some (0, 0)"
    "0 < length (p_Extensions (q_tables ?P))" by (simp_all add: tables_slow_def)
  have x: "Execute (p_Extensions (q_tables ?P) ! 0) 0 addi_slow feature_RV64GC (issued 0 0 addi_slow ?P) = Inr (True, core_slow)"
    using execute_slow(1) by (simp add: Execute_def tables_slow_def entry_slow_def)
  have r: "st_retired (q_Stats ?P) = 0" by (simp add: proc_example_def mk_RevProc_def Reset_def RevProcStats_zero_def)
  show ?thesis
    using slow_instruction_deadlock [OF can_run_example refl, of tables_slow feature_RV64GC "\<lambda>_. False" addi_slow 0 0 core_slow Map.empty 1000000]
      decode_slow D t x execute_slow F r by (auto simp: mword_addi ECALL_USER_MODE_def lessThan_Suc)
qed


text \<open>
  C25: The next hart to decode is the first one in cyclic order, from the current one on, that is ready to
  decode; so no ready hart is passed over.
\<close>

theorem GetNextHartToDecodeID_round_robin:
  assumes "q_HartsClearToDecode P \<noteq> {}" "q_HartsClearToDecode P \<subseteq> {..<length (q_Harts P)}"
    and "unat (q_HartToDecodeID P) < length (q_Harts P)" "length (q_Harts P) \<le> 4096"
  shows "\<exists>d<length (q_Harts P).
    unat (GetNextHartToDecodeID P) = (unat (q_HartToDecodeID P) + d) mod length (q_Harts P) \<and>
    unat (GetNextHartToDecodeID P) \<in> q_HartsClearToDecode P \<and>
    (\<forall>e<d. (unat (q_HartToDecodeID P) + e) mod length (q_Harts P) \<notin> q_HartsClearToDecode P)"
  by (rule next_hart_round_robin [OF assms])

definition proc_idle :: RevProc where
  "proc_idle = mk_RevProc 4 3 feature_RV64GC RevTables_empty mem_addi env_example"

lemma proc_idle_simps [simp]:
  "length (q_Harts proc_idle) = 4" "q_HartToDecodeID proc_idle = 0" "q_IdleHarts proc_idle = {..<4}"
  by (simp_all add: proc_idle_def mk_RevProc_def Reset_def)

lemma proc_idle_ready:
  "HasIdleHart proc_idle" "th_VirtRegState thread_example = Some 0"
  "\<forall>i<length (q_Harts proc_idle). ha_RegFile (q_Harts proc_idle ! i) \<noteq> Some 0"
proof -
  show "HasIdleHart proc_idle" by (simp add: HasIdleHart_def) (metis lessThan_iff empty_iff zero_less_numeral)
qed (simp_all add: thread_example_def mk_RevThread_def proc_idle_def mk_RevProc_def Reset_def mk_RevHart_def)

lemma assign_example: "\<exists>P'. AssignThread thread_example proc_idle = Inr P' \<and> q_IdleHarts P' = {1, 2, 3}"
proof -
  have inv: "proc_inv proc_idle" using mk_RevProc_inv [of 4] by (simp add: proc_idle_def sched_inv_def)
  obtain h P' where h: "AssignThread thread_example proc_idle = Inr P'" "h \<in> q_IdleHarts proc_idle" "\<forall>i<h. i \<notin> q_IdleHarts proc_idle"
    "q_IdleHarts P' = q_IdleHarts proc_idle - {h}"
    using AssignThread_inv [OF inv proc_idle_ready] by blast
  have "h = 0" using h(2,3) by (cases h) auto
  moreover have "{..<4} - {0} = {1, 2, 3 :: nat}" by auto
  ultimately show ?thesis using h by auto
qed

theorem GetNextHartToDecodeID_round_robin_witness:
  "unat (GetNextHartToDecodeID (proc_idle\<lparr>q_HartToDecodeID := 2, q_HartsClearToDecode := {1, 3}\<rparr>)) = 3"
proof -
  let ?P = "proc_idle\<lparr>q_HartToDecodeID := 2, q_HartsClearToDecode := {1, 3}\<rparr>"
  have "\<exists>d<4. unat (GetNextHartToDecodeID ?P) = (2 + d) mod 4 \<and> unat (GetNextHartToDecodeID ?P) \<in> {1, 3} \<and>
    (\<forall>e<d. (2 + e) mod 4 \<notin> {1, 3 :: nat})"
    using GetNextHartToDecodeID_round_robin [of ?P] by simp
  then obtain d where d: "d < 4" "unat (GetNextHartToDecodeID ?P) = (2 + d) mod 4" "unat (GetNextHartToDecodeID ?P) \<in> {1, 3}"
    "\<forall>e<d. (2 + e) mod 4 \<notin> {1, 3 :: nat}" by blast
  have "\<not> 1 < d" using d(4) by (auto dest!: spec [of _ 1])
  then show ?thesis using d by (cases "d = 0") auto
qed

text \<open>
  C24: A thread is assigned to the idle hart with the lowest number, which runs it from then on with the
  register file of the thread; the invariant of harts and threads is kept, and taking the thread
  away again gives it back, marked as running, and leaves the processor as it was.
\<close>

theorem AssignThread_first_idle:
  assumes "proc_inv P" "HasIdleHart P" "th_VirtRegState T = Some r"
    and "\<forall>i<length (q_Harts P). ha_RegFile (q_Harts P ! i) \<noteq> Some r"
  shows "\<exists>h P'. AssignThread T P = Inr P' \<and> h \<in> q_IdleHarts P \<and> (\<forall>i<h. i \<notin> q_IdleHarts P) \<and> proc_inv P' \<and>
    q_IdleHarts P' = q_IdleHarts P - {h} \<and> ha_RegFile (q_Harts P' ! h) = Some r \<and>
    PopThreadFromHart (of_nat h) P' = Inr (SetState RUNNING T, P)"
  using AssignThread_inv [OF assms] by blast

theorem AssignThread_first_idle_witness:
  "\<exists>P'. AssignThread thread_example proc_idle = Inr P' \<and> q_IdleHarts P' = {1, 2, 3} \<and>
    PopThreadFromHart 0 P' = Inr (SetState RUNNING thread_example, proc_idle)"
proof -
  have inv: "proc_inv proc_idle" using mk_RevProc_inv [of 4] by (simp add: proc_idle_def sched_inv_def)
  obtain h P' where h: "AssignThread thread_example proc_idle = Inr P'" "h \<in> q_IdleHarts proc_idle" "\<forall>i<h. i \<notin> q_IdleHarts proc_idle"
    "q_IdleHarts P' = q_IdleHarts proc_idle - {h}" "PopThreadFromHart (of_nat h) P' = Inr (SetState RUNNING thread_example, proc_idle)"
    using AssignThread_first_idle [OF inv proc_idle_ready] by blast
  have "h = 0" using h(2,3) by (cases h) auto
  moreover have "{..<4} - {0} = {1, 2, 3 :: nat}" by auto
  ultimately show ?thesis using h by auto
qed

end
