(* ===== verification/Rev_SysCallStubs.thy ===== *)
theory Rev_SysCallStubs
  imports Rev_Proc
begin

text \<open>
  The handlers of \<^verbatim>\<open>src/RevSysCalls.cc\<close> that only write a message and report success, one definition
  each. They leave every register as it is, so the caller finds its own first argument in a0.
\<close>

definition ecall_stub :: ecall_fun where
  "ecall_stub I P = Inr (SUCCESS, P)"

definition ECALL_io_setup :: ecall_fun where "ECALL_io_setup = ecall_stub"
definition ECALL_io_destroy :: ecall_fun where "ECALL_io_destroy = ecall_stub"
definition ECALL_io_submit :: ecall_fun where "ECALL_io_submit = ecall_stub"
definition ECALL_io_cancel :: ecall_fun where "ECALL_io_cancel = ecall_stub"
definition ECALL_io_getevents :: ecall_fun where "ECALL_io_getevents = ecall_stub"
definition ECALL_setxattr :: ecall_fun where "ECALL_setxattr = ecall_stub"
definition ECALL_lsetxattr :: ecall_fun where "ECALL_lsetxattr = ecall_stub"
definition ECALL_fsetxattr :: ecall_fun where "ECALL_fsetxattr = ecall_stub"
definition ECALL_getxattr :: ecall_fun where "ECALL_getxattr = ecall_stub"
definition ECALL_lgetxattr :: ecall_fun where "ECALL_lgetxattr = ecall_stub"
definition ECALL_fgetxattr :: ecall_fun where "ECALL_fgetxattr = ecall_stub"
definition ECALL_listxattr :: ecall_fun where "ECALL_listxattr = ecall_stub"
definition ECALL_llistxattr :: ecall_fun where "ECALL_llistxattr = ecall_stub"
definition ECALL_flistxattr :: ecall_fun where "ECALL_flistxattr = ecall_stub"
definition ECALL_removexattr :: ecall_fun where "ECALL_removexattr = ecall_stub"
definition ECALL_lremovexattr :: ecall_fun where "ECALL_lremovexattr = ecall_stub"
definition ECALL_fremovexattr :: ecall_fun where "ECALL_fremovexattr = ecall_stub"
definition ECALL_lookup_dcookie :: ecall_fun where "ECALL_lookup_dcookie = ecall_stub"
definition ECALL_eventfd2 :: ecall_fun where "ECALL_eventfd2 = ecall_stub"
definition ECALL_epoll_create1 :: ecall_fun where "ECALL_epoll_create1 = ecall_stub"
definition ECALL_epoll_ctl :: ecall_fun where "ECALL_epoll_ctl = ecall_stub"
definition ECALL_epoll_pwait :: ecall_fun where "ECALL_epoll_pwait = ecall_stub"
definition ECALL_dup :: ecall_fun where "ECALL_dup = ecall_stub"
definition ECALL_dup3 :: ecall_fun where "ECALL_dup3 = ecall_stub"
definition ECALL_fcntl64 :: ecall_fun where "ECALL_fcntl64 = ecall_stub"
definition ECALL_inotify_init1 :: ecall_fun where "ECALL_inotify_init1 = ecall_stub"
definition ECALL_inotify_add_watch :: ecall_fun where "ECALL_inotify_add_watch = ecall_stub"
definition ECALL_inotify_rm_watch :: ecall_fun where "ECALL_inotify_rm_watch = ecall_stub"
definition ECALL_ioctl :: ecall_fun where "ECALL_ioctl = ecall_stub"
definition ECALL_ioprio_set :: ecall_fun where "ECALL_ioprio_set = ecall_stub"
definition ECALL_ioprio_get :: ecall_fun where "ECALL_ioprio_get = ecall_stub"
definition ECALL_flock :: ecall_fun where "ECALL_flock = ecall_stub"
definition ECALL_mknodat :: ecall_fun where "ECALL_mknodat = ecall_stub"
definition ECALL_unlinkat :: ecall_fun where "ECALL_unlinkat = ecall_stub"
definition ECALL_symlinkat :: ecall_fun where "ECALL_symlinkat = ecall_stub"
definition ECALL_linkat :: ecall_fun where "ECALL_linkat = ecall_stub"
definition ECALL_renameat :: ecall_fun where "ECALL_renameat = ecall_stub"
definition ECALL_umount :: ecall_fun where "ECALL_umount = ecall_stub"
definition ECALL_mount :: ecall_fun where "ECALL_mount = ecall_stub"
definition ECALL_pivot_root :: ecall_fun where "ECALL_pivot_root = ecall_stub"
definition ECALL_ni_syscall :: ecall_fun where "ECALL_ni_syscall = ecall_stub"
definition ECALL_statfs64 :: ecall_fun where "ECALL_statfs64 = ecall_stub"
definition ECALL_fstatfs64 :: ecall_fun where "ECALL_fstatfs64 = ecall_stub"
definition ECALL_truncate64 :: ecall_fun where "ECALL_truncate64 = ecall_stub"
definition ECALL_ftruncate64 :: ecall_fun where "ECALL_ftruncate64 = ecall_stub"
definition ECALL_fallocate :: ecall_fun where "ECALL_fallocate = ecall_stub"
definition ECALL_faccessat :: ecall_fun where "ECALL_faccessat = ecall_stub"
definition ECALL_fchdir :: ecall_fun where "ECALL_fchdir = ecall_stub"
definition ECALL_chroot :: ecall_fun where "ECALL_chroot = ecall_stub"
definition ECALL_fchmod :: ecall_fun where "ECALL_fchmod = ecall_stub"
definition ECALL_fchmodat :: ecall_fun where "ECALL_fchmodat = ecall_stub"
definition ECALL_fchownat :: ecall_fun where "ECALL_fchownat = ecall_stub"
definition ECALL_fchown :: ecall_fun where "ECALL_fchown = ecall_stub"
definition ECALL_vhangup :: ecall_fun where "ECALL_vhangup = ecall_stub"
definition ECALL_pipe2 :: ecall_fun where "ECALL_pipe2 = ecall_stub"
definition ECALL_quotactl :: ecall_fun where "ECALL_quotactl = ecall_stub"
definition ECALL_getdents64 :: ecall_fun where "ECALL_getdents64 = ecall_stub"
definition ECALL_lseek :: ecall_fun where "ECALL_lseek = ecall_stub"
definition ECALL_readv :: ecall_fun where "ECALL_readv = ecall_stub"
definition ECALL_writev :: ecall_fun where "ECALL_writev = ecall_stub"
definition ECALL_pread64 :: ecall_fun where "ECALL_pread64 = ecall_stub"
definition ECALL_pwrite64 :: ecall_fun where "ECALL_pwrite64 = ecall_stub"
definition ECALL_preadv :: ecall_fun where "ECALL_preadv = ecall_stub"
definition ECALL_pwritev :: ecall_fun where "ECALL_pwritev = ecall_stub"
definition ECALL_sendfile64 :: ecall_fun where "ECALL_sendfile64 = ecall_stub"
definition ECALL_pselect6_time32 :: ecall_fun where "ECALL_pselect6_time32 = ecall_stub"
definition ECALL_ppoll_time32 :: ecall_fun where "ECALL_ppoll_time32 = ecall_stub"
definition ECALL_signalfd4 :: ecall_fun where "ECALL_signalfd4 = ecall_stub"
definition ECALL_vmsplice :: ecall_fun where "ECALL_vmsplice = ecall_stub"
definition ECALL_splice :: ecall_fun where "ECALL_splice = ecall_stub"
definition ECALL_tee :: ecall_fun where "ECALL_tee = ecall_stub"
definition ECALL_readlinkat :: ecall_fun where "ECALL_readlinkat = ecall_stub"
definition ECALL_newfstatat :: ecall_fun where "ECALL_newfstatat = ecall_stub"
definition ECALL_newfstat :: ecall_fun where "ECALL_newfstat = ecall_stub"
definition ECALL_sync :: ecall_fun where "ECALL_sync = ecall_stub"
definition ECALL_fsync :: ecall_fun where "ECALL_fsync = ecall_stub"
definition ECALL_fdatasync :: ecall_fun where "ECALL_fdatasync = ecall_stub"
definition ECALL_sync_file_range2 :: ecall_fun where "ECALL_sync_file_range2 = ecall_stub"
definition ECALL_sync_file_range :: ecall_fun where "ECALL_sync_file_range = ecall_stub"
definition ECALL_timerfd_create :: ecall_fun where "ECALL_timerfd_create = ecall_stub"
definition ECALL_timerfd_settime :: ecall_fun where "ECALL_timerfd_settime = ecall_stub"
definition ECALL_timerfd_gettime :: ecall_fun where "ECALL_timerfd_gettime = ecall_stub"
definition ECALL_utimensat :: ecall_fun where "ECALL_utimensat = ecall_stub"
definition ECALL_acct :: ecall_fun where "ECALL_acct = ecall_stub"
definition ECALL_capget :: ecall_fun where "ECALL_capget = ecall_stub"
definition ECALL_capset :: ecall_fun where "ECALL_capset = ecall_stub"
definition ECALL_personality :: ecall_fun where "ECALL_personality = ecall_stub"
definition ECALL_exit_group :: ecall_fun where "ECALL_exit_group = ecall_stub"
definition ECALL_waitid :: ecall_fun where "ECALL_waitid = ecall_stub"
definition ECALL_set_tid_address :: ecall_fun where "ECALL_set_tid_address = ecall_stub"
definition ECALL_unshare :: ecall_fun where "ECALL_unshare = ecall_stub"
definition ECALL_futex :: ecall_fun where "ECALL_futex = ecall_stub"
definition ECALL_set_robust_list :: ecall_fun where "ECALL_set_robust_list = ecall_stub"
definition ECALL_get_robust_list :: ecall_fun where "ECALL_get_robust_list = ecall_stub"
definition ECALL_nanosleep :: ecall_fun where "ECALL_nanosleep = ecall_stub"
definition ECALL_getitimer :: ecall_fun where "ECALL_getitimer = ecall_stub"
definition ECALL_setitimer :: ecall_fun where "ECALL_setitimer = ecall_stub"
definition ECALL_kexec_load :: ecall_fun where "ECALL_kexec_load = ecall_stub"
definition ECALL_init_module :: ecall_fun where "ECALL_init_module = ecall_stub"
definition ECALL_delete_module :: ecall_fun where "ECALL_delete_module = ecall_stub"
definition ECALL_timer_create :: ecall_fun where "ECALL_timer_create = ecall_stub"
definition ECALL_timer_gettime :: ecall_fun where "ECALL_timer_gettime = ecall_stub"
definition ECALL_timer_getoverrun :: ecall_fun where "ECALL_timer_getoverrun = ecall_stub"
definition ECALL_timer_settime :: ecall_fun where "ECALL_timer_settime = ecall_stub"
definition ECALL_timer_delete :: ecall_fun where "ECALL_timer_delete = ecall_stub"
definition ECALL_clock_settime :: ecall_fun where "ECALL_clock_settime = ecall_stub"
definition ECALL_clock_getres :: ecall_fun where "ECALL_clock_getres = ecall_stub"
definition ECALL_clock_nanosleep :: ecall_fun where "ECALL_clock_nanosleep = ecall_stub"
definition ECALL_syslog :: ecall_fun where "ECALL_syslog = ecall_stub"
definition ECALL_ptrace :: ecall_fun where "ECALL_ptrace = ecall_stub"
definition ECALL_sched_setparam :: ecall_fun where "ECALL_sched_setparam = ecall_stub"
definition ECALL_sched_setscheduler :: ecall_fun where "ECALL_sched_setscheduler = ecall_stub"
definition ECALL_sched_getscheduler :: ecall_fun where "ECALL_sched_getscheduler = ecall_stub"
definition ECALL_sched_getparam :: ecall_fun where "ECALL_sched_getparam = ecall_stub"
definition ECALL_sched_setaffinity :: ecall_fun where "ECALL_sched_setaffinity = ecall_stub"
definition ECALL_sched_getaffinity :: ecall_fun where "ECALL_sched_getaffinity = ecall_stub"
definition ECALL_sched_yield :: ecall_fun where "ECALL_sched_yield = ecall_stub"
definition ECALL_sched_get_priority_max :: ecall_fun where "ECALL_sched_get_priority_max = ecall_stub"
definition ECALL_sched_get_priority_min :: ecall_fun where "ECALL_sched_get_priority_min = ecall_stub"
definition ECALL_sched_rr_get_interval :: ecall_fun where "ECALL_sched_rr_get_interval = ecall_stub"
definition ECALL_restart_syscall :: ecall_fun where "ECALL_restart_syscall = ecall_stub"
definition ECALL_kill :: ecall_fun where "ECALL_kill = ecall_stub"
definition ECALL_tkill :: ecall_fun where "ECALL_tkill = ecall_stub"
definition ECALL_tgkill :: ecall_fun where "ECALL_tgkill = ecall_stub"
definition ECALL_sigaltstack :: ecall_fun where "ECALL_sigaltstack = ecall_stub"
definition ECALL_rt_sigsuspend :: ecall_fun where "ECALL_rt_sigsuspend = ecall_stub"
definition ECALL_rt_sigaction :: ecall_fun where "ECALL_rt_sigaction = ecall_stub"
definition ECALL_rt_sigprocmask :: ecall_fun where "ECALL_rt_sigprocmask = ecall_stub"
definition ECALL_rt_sigpending :: ecall_fun where "ECALL_rt_sigpending = ecall_stub"
definition ECALL_rt_sigtimedwait_time32 :: ecall_fun where "ECALL_rt_sigtimedwait_time32 = ecall_stub"
definition ECALL_rt_sigqueueinfo :: ecall_fun where "ECALL_rt_sigqueueinfo = ecall_stub"
definition ECALL_setpriority :: ecall_fun where "ECALL_setpriority = ecall_stub"
definition ECALL_getpriority :: ecall_fun where "ECALL_getpriority = ecall_stub"
definition ECALL_reboot :: ecall_fun where "ECALL_reboot = ecall_stub"
definition ECALL_setregid :: ecall_fun where "ECALL_setregid = ecall_stub"
definition ECALL_setgid :: ecall_fun where "ECALL_setgid = ecall_stub"
definition ECALL_setreuid :: ecall_fun where "ECALL_setreuid = ecall_stub"
definition ECALL_setuid :: ecall_fun where "ECALL_setuid = ecall_stub"
definition ECALL_setresuid :: ecall_fun where "ECALL_setresuid = ecall_stub"
definition ECALL_getresuid :: ecall_fun where "ECALL_getresuid = ecall_stub"
definition ECALL_setresgid :: ecall_fun where "ECALL_setresgid = ecall_stub"
definition ECALL_getresgid :: ecall_fun where "ECALL_getresgid = ecall_stub"
definition ECALL_setfsuid :: ecall_fun where "ECALL_setfsuid = ecall_stub"
definition ECALL_setfsgid :: ecall_fun where "ECALL_setfsgid = ecall_stub"
definition ECALL_times :: ecall_fun where "ECALL_times = ecall_stub"
definition ECALL_setpgid :: ecall_fun where "ECALL_setpgid = ecall_stub"
definition ECALL_getpgid :: ecall_fun where "ECALL_getpgid = ecall_stub"
definition ECALL_getsid :: ecall_fun where "ECALL_getsid = ecall_stub"
definition ECALL_setsid :: ecall_fun where "ECALL_setsid = ecall_stub"
definition ECALL_getgroups :: ecall_fun where "ECALL_getgroups = ecall_stub"
definition ECALL_setgroups :: ecall_fun where "ECALL_setgroups = ecall_stub"
definition ECALL_newuname :: ecall_fun where "ECALL_newuname = ecall_stub"
definition ECALL_sethostname :: ecall_fun where "ECALL_sethostname = ecall_stub"
definition ECALL_setdomainname :: ecall_fun where "ECALL_setdomainname = ecall_stub"
definition ECALL_getrlimit :: ecall_fun where "ECALL_getrlimit = ecall_stub"
definition ECALL_setrlimit :: ecall_fun where "ECALL_setrlimit = ecall_stub"
definition ECALL_getrusage :: ecall_fun where "ECALL_getrusage = ecall_stub"
definition ECALL_umask :: ecall_fun where "ECALL_umask = ecall_stub"
definition ECALL_prctl :: ecall_fun where "ECALL_prctl = ecall_stub"
definition ECALL_getcpu :: ecall_fun where "ECALL_getcpu = ecall_stub"
definition ECALL_gettimeofday :: ecall_fun where "ECALL_gettimeofday = ecall_stub"
definition ECALL_settimeofday :: ecall_fun where "ECALL_settimeofday = ecall_stub"
definition ECALL_adjtimex :: ecall_fun where "ECALL_adjtimex = ecall_stub"
definition ECALL_getpid :: ecall_fun where "ECALL_getpid = ecall_stub"
definition ECALL_getppid :: ecall_fun where "ECALL_getppid = ecall_stub"
definition ECALL_getuid :: ecall_fun where "ECALL_getuid = ecall_stub"
definition ECALL_geteuid :: ecall_fun where "ECALL_geteuid = ecall_stub"
definition ECALL_getgid :: ecall_fun where "ECALL_getgid = ecall_stub"
definition ECALL_getegid :: ecall_fun where "ECALL_getegid = ecall_stub"
definition ECALL_sysinfo :: ecall_fun where "ECALL_sysinfo = ecall_stub"
definition ECALL_mq_open :: ecall_fun where "ECALL_mq_open = ecall_stub"
definition ECALL_mq_unlink :: ecall_fun where "ECALL_mq_unlink = ecall_stub"
definition ECALL_mq_timedsend :: ecall_fun where "ECALL_mq_timedsend = ecall_stub"
definition ECALL_mq_timedreceive :: ecall_fun where "ECALL_mq_timedreceive = ecall_stub"
definition ECALL_mq_notify :: ecall_fun where "ECALL_mq_notify = ecall_stub"
definition ECALL_mq_getsetattr :: ecall_fun where "ECALL_mq_getsetattr = ecall_stub"
definition ECALL_msgget :: ecall_fun where "ECALL_msgget = ecall_stub"
definition ECALL_msgctl :: ecall_fun where "ECALL_msgctl = ecall_stub"
definition ECALL_msgrcv :: ecall_fun where "ECALL_msgrcv = ecall_stub"
definition ECALL_msgsnd :: ecall_fun where "ECALL_msgsnd = ecall_stub"
definition ECALL_semget :: ecall_fun where "ECALL_semget = ecall_stub"
definition ECALL_semctl :: ecall_fun where "ECALL_semctl = ecall_stub"
definition ECALL_semtimedop :: ecall_fun where "ECALL_semtimedop = ecall_stub"
definition ECALL_semop :: ecall_fun where "ECALL_semop = ecall_stub"
definition ECALL_shmget :: ecall_fun where "ECALL_shmget = ecall_stub"
definition ECALL_shmctl :: ecall_fun where "ECALL_shmctl = ecall_stub"
definition ECALL_shmat :: ecall_fun where "ECALL_shmat = ecall_stub"
definition ECALL_shmdt :: ecall_fun where "ECALL_shmdt = ecall_stub"
definition ECALL_socket :: ecall_fun where "ECALL_socket = ecall_stub"
definition ECALL_socketpair :: ecall_fun where "ECALL_socketpair = ecall_stub"
definition ECALL_bind :: ecall_fun where "ECALL_bind = ecall_stub"
definition ECALL_listen :: ecall_fun where "ECALL_listen = ecall_stub"
definition ECALL_accept :: ecall_fun where "ECALL_accept = ecall_stub"
definition ECALL_connect :: ecall_fun where "ECALL_connect = ecall_stub"
definition ECALL_getsockname :: ecall_fun where "ECALL_getsockname = ecall_stub"
definition ECALL_getpeername :: ecall_fun where "ECALL_getpeername = ecall_stub"
definition ECALL_sendto :: ecall_fun where "ECALL_sendto = ecall_stub"
definition ECALL_recvfrom :: ecall_fun where "ECALL_recvfrom = ecall_stub"
definition ECALL_setsockopt :: ecall_fun where "ECALL_setsockopt = ecall_stub"
definition ECALL_getsockopt :: ecall_fun where "ECALL_getsockopt = ecall_stub"
definition ECALL_shutdown :: ecall_fun where "ECALL_shutdown = ecall_stub"
definition ECALL_sendmsg :: ecall_fun where "ECALL_sendmsg = ecall_stub"
definition ECALL_recvmsg :: ecall_fun where "ECALL_recvmsg = ecall_stub"
definition ECALL_readahead :: ecall_fun where "ECALL_readahead = ecall_stub"
definition ECALL_mremap :: ecall_fun where "ECALL_mremap = ecall_stub"
definition ECALL_add_key :: ecall_fun where "ECALL_add_key = ecall_stub"
definition ECALL_request_key :: ecall_fun where "ECALL_request_key = ecall_stub"
definition ECALL_keyctl :: ecall_fun where "ECALL_keyctl = ecall_stub"
definition ECALL_clone :: ecall_fun where "ECALL_clone = ecall_stub"
definition ECALL_execve :: ecall_fun where "ECALL_execve = ecall_stub"
definition ECALL_fadvise64_64 :: ecall_fun where "ECALL_fadvise64_64 = ecall_stub"
definition ECALL_swapon :: ecall_fun where "ECALL_swapon = ecall_stub"
definition ECALL_swapoff :: ecall_fun where "ECALL_swapoff = ecall_stub"
definition ECALL_mprotect :: ecall_fun where "ECALL_mprotect = ecall_stub"
definition ECALL_msync :: ecall_fun where "ECALL_msync = ecall_stub"
definition ECALL_mlock :: ecall_fun where "ECALL_mlock = ecall_stub"
definition ECALL_munlock :: ecall_fun where "ECALL_munlock = ecall_stub"
definition ECALL_mlockall :: ecall_fun where "ECALL_mlockall = ecall_stub"
definition ECALL_munlockall :: ecall_fun where "ECALL_munlockall = ecall_stub"
definition ECALL_mincore :: ecall_fun where "ECALL_mincore = ecall_stub"
definition ECALL_madvise :: ecall_fun where "ECALL_madvise = ecall_stub"
definition ECALL_remap_file_pages :: ecall_fun where "ECALL_remap_file_pages = ecall_stub"
definition ECALL_mbind :: ecall_fun where "ECALL_mbind = ecall_stub"
definition ECALL_get_mempolicy :: ecall_fun where "ECALL_get_mempolicy = ecall_stub"
definition ECALL_set_mempolicy :: ecall_fun where "ECALL_set_mempolicy = ecall_stub"
definition ECALL_migrate_pages :: ecall_fun where "ECALL_migrate_pages = ecall_stub"
definition ECALL_move_pages :: ecall_fun where "ECALL_move_pages = ecall_stub"
definition ECALL_rt_tgsigqueueinfo :: ecall_fun where "ECALL_rt_tgsigqueueinfo = ecall_stub"
definition ECALL_perf_event_open :: ecall_fun where "ECALL_perf_event_open = ecall_stub"
definition ECALL_accept4 :: ecall_fun where "ECALL_accept4 = ecall_stub"
definition ECALL_recvmmsg_time32 :: ecall_fun where "ECALL_recvmmsg_time32 = ecall_stub"
definition ECALL_wait4 :: ecall_fun where "ECALL_wait4 = ecall_stub"
definition ECALL_prlimit64 :: ecall_fun where "ECALL_prlimit64 = ecall_stub"
definition ECALL_fanotify_init :: ecall_fun where "ECALL_fanotify_init = ecall_stub"
definition ECALL_fanotify_mark :: ecall_fun where "ECALL_fanotify_mark = ecall_stub"
definition ECALL_name_to_handle_at :: ecall_fun where "ECALL_name_to_handle_at = ecall_stub"
definition ECALL_open_by_handle_at :: ecall_fun where "ECALL_open_by_handle_at = ecall_stub"
definition ECALL_clock_adjtime :: ecall_fun where "ECALL_clock_adjtime = ecall_stub"
definition ECALL_syncfs :: ecall_fun where "ECALL_syncfs = ecall_stub"
definition ECALL_setns :: ecall_fun where "ECALL_setns = ecall_stub"
definition ECALL_sendmmsg :: ecall_fun where "ECALL_sendmmsg = ecall_stub"
definition ECALL_process_vm_readv :: ecall_fun where "ECALL_process_vm_readv = ecall_stub"
definition ECALL_process_vm_writev :: ecall_fun where "ECALL_process_vm_writev = ecall_stub"
definition ECALL_kcmp :: ecall_fun where "ECALL_kcmp = ecall_stub"
definition ECALL_finit_module :: ecall_fun where "ECALL_finit_module = ecall_stub"
definition ECALL_sched_setattr :: ecall_fun where "ECALL_sched_setattr = ecall_stub"
definition ECALL_sched_getattr :: ecall_fun where "ECALL_sched_getattr = ecall_stub"
definition ECALL_renameat2 :: ecall_fun where "ECALL_renameat2 = ecall_stub"
definition ECALL_seccomp :: ecall_fun where "ECALL_seccomp = ecall_stub"
definition ECALL_getrandom :: ecall_fun where "ECALL_getrandom = ecall_stub"
definition ECALL_memfd_create :: ecall_fun where "ECALL_memfd_create = ecall_stub"
definition ECALL_bpf :: ecall_fun where "ECALL_bpf = ecall_stub"
definition ECALL_execveat :: ecall_fun where "ECALL_execveat = ecall_stub"
definition ECALL_userfaultfd :: ecall_fun where "ECALL_userfaultfd = ecall_stub"
definition ECALL_membarrier :: ecall_fun where "ECALL_membarrier = ecall_stub"
definition ECALL_mlock2 :: ecall_fun where "ECALL_mlock2 = ecall_stub"
definition ECALL_copy_file_range :: ecall_fun where "ECALL_copy_file_range = ecall_stub"
definition ECALL_preadv2 :: ecall_fun where "ECALL_preadv2 = ecall_stub"
definition ECALL_pwritev2 :: ecall_fun where "ECALL_pwritev2 = ecall_stub"
definition ECALL_pkey_mprotect :: ecall_fun where "ECALL_pkey_mprotect = ecall_stub"
definition ECALL_pkey_alloc :: ecall_fun where "ECALL_pkey_alloc = ecall_stub"
definition ECALL_pkey_free :: ecall_fun where "ECALL_pkey_free = ecall_stub"
definition ECALL_statx :: ecall_fun where "ECALL_statx = ecall_stub"
definition ECALL_io_pgetevents :: ecall_fun where "ECALL_io_pgetevents = ecall_stub"
definition ECALL_rseq :: ecall_fun where "ECALL_rseq = ecall_stub"
definition ECALL_kexec_file_load :: ecall_fun where "ECALL_kexec_file_load = ecall_stub"
definition ECALL_pidfd_send_signal :: ecall_fun where "ECALL_pidfd_send_signal = ecall_stub"
definition ECALL_io_uring_setup :: ecall_fun where "ECALL_io_uring_setup = ecall_stub"
definition ECALL_io_uring_enter :: ecall_fun where "ECALL_io_uring_enter = ecall_stub"
definition ECALL_io_uring_register :: ecall_fun where "ECALL_io_uring_register = ecall_stub"
definition ECALL_open_tree :: ecall_fun where "ECALL_open_tree = ecall_stub"
definition ECALL_move_mount :: ecall_fun where "ECALL_move_mount = ecall_stub"
definition ECALL_fsopen :: ecall_fun where "ECALL_fsopen = ecall_stub"
definition ECALL_fsconfig :: ecall_fun where "ECALL_fsconfig = ecall_stub"
definition ECALL_fsmount :: ecall_fun where "ECALL_fsmount = ecall_stub"
definition ECALL_fspick :: ecall_fun where "ECALL_fspick = ecall_stub"
definition ECALL_pidfd_open :: ecall_fun where "ECALL_pidfd_open = ecall_stub"
definition ECALL_clone3 :: ecall_fun where "ECALL_clone3 = ecall_stub"
definition ECALL_close_range :: ecall_fun where "ECALL_close_range = ecall_stub"
definition ECALL_openat2 :: ecall_fun where "ECALL_openat2 = ecall_stub"
definition ECALL_pidfd_getfd :: ecall_fun where "ECALL_pidfd_getfd = ecall_stub"
definition ECALL_faccessat2 :: ecall_fun where "ECALL_faccessat2 = ecall_stub"
definition ECALL_process_madvise :: ecall_fun where "ECALL_process_madvise = ecall_stub"

lemmas ecall_stub_defs =
  ECALL_io_setup_def ECALL_io_destroy_def ECALL_io_submit_def ECALL_io_cancel_def ECALL_io_getevents_def
  ECALL_setxattr_def ECALL_lsetxattr_def ECALL_fsetxattr_def ECALL_getxattr_def ECALL_lgetxattr_def ECALL_fgetxattr_def
  ECALL_listxattr_def ECALL_llistxattr_def ECALL_flistxattr_def ECALL_removexattr_def ECALL_lremovexattr_def
  ECALL_fremovexattr_def ECALL_lookup_dcookie_def ECALL_eventfd2_def ECALL_epoll_create1_def ECALL_epoll_ctl_def
  ECALL_epoll_pwait_def ECALL_dup_def ECALL_dup3_def ECALL_fcntl64_def ECALL_inotify_init1_def ECALL_inotify_add_watch_def
  ECALL_inotify_rm_watch_def ECALL_ioctl_def ECALL_ioprio_set_def ECALL_ioprio_get_def ECALL_flock_def ECALL_mknodat_def
  ECALL_unlinkat_def ECALL_symlinkat_def ECALL_linkat_def ECALL_renameat_def ECALL_umount_def ECALL_mount_def
  ECALL_pivot_root_def ECALL_ni_syscall_def ECALL_statfs64_def ECALL_fstatfs64_def ECALL_truncate64_def
  ECALL_ftruncate64_def ECALL_fallocate_def ECALL_faccessat_def ECALL_fchdir_def ECALL_chroot_def ECALL_fchmod_def
  ECALL_fchmodat_def ECALL_fchownat_def ECALL_fchown_def ECALL_vhangup_def ECALL_pipe2_def ECALL_quotactl_def
  ECALL_getdents64_def ECALL_lseek_def ECALL_readv_def ECALL_writev_def ECALL_pread64_def ECALL_pwrite64_def
  ECALL_preadv_def ECALL_pwritev_def ECALL_sendfile64_def ECALL_pselect6_time32_def ECALL_ppoll_time32_def
  ECALL_signalfd4_def ECALL_vmsplice_def ECALL_splice_def ECALL_tee_def ECALL_readlinkat_def ECALL_newfstatat_def
  ECALL_newfstat_def ECALL_sync_def ECALL_fsync_def ECALL_fdatasync_def ECALL_sync_file_range2_def ECALL_sync_file_range_def
  ECALL_timerfd_create_def ECALL_timerfd_settime_def ECALL_timerfd_gettime_def ECALL_utimensat_def ECALL_acct_def
  ECALL_capget_def ECALL_capset_def ECALL_personality_def ECALL_exit_group_def ECALL_waitid_def ECALL_set_tid_address_def
  ECALL_unshare_def ECALL_futex_def ECALL_set_robust_list_def ECALL_get_robust_list_def ECALL_nanosleep_def
  ECALL_getitimer_def ECALL_setitimer_def ECALL_kexec_load_def ECALL_init_module_def ECALL_delete_module_def
  ECALL_timer_create_def ECALL_timer_gettime_def ECALL_timer_getoverrun_def ECALL_timer_settime_def ECALL_timer_delete_def
  ECALL_clock_settime_def ECALL_clock_getres_def ECALL_clock_nanosleep_def ECALL_syslog_def ECALL_ptrace_def
  ECALL_sched_setparam_def ECALL_sched_setscheduler_def ECALL_sched_getscheduler_def ECALL_sched_getparam_def
  ECALL_sched_setaffinity_def ECALL_sched_getaffinity_def ECALL_sched_yield_def ECALL_sched_get_priority_max_def
  ECALL_sched_get_priority_min_def ECALL_sched_rr_get_interval_def ECALL_restart_syscall_def ECALL_kill_def
  ECALL_tkill_def ECALL_tgkill_def ECALL_sigaltstack_def ECALL_rt_sigsuspend_def ECALL_rt_sigaction_def
  ECALL_rt_sigprocmask_def ECALL_rt_sigpending_def ECALL_rt_sigtimedwait_time32_def ECALL_rt_sigqueueinfo_def
  ECALL_setpriority_def ECALL_getpriority_def ECALL_reboot_def ECALL_setregid_def ECALL_setgid_def ECALL_setreuid_def
  ECALL_setuid_def ECALL_setresuid_def ECALL_getresuid_def ECALL_setresgid_def ECALL_getresgid_def ECALL_setfsuid_def
  ECALL_setfsgid_def ECALL_times_def ECALL_setpgid_def ECALL_getpgid_def ECALL_getsid_def ECALL_setsid_def
  ECALL_getgroups_def ECALL_setgroups_def ECALL_newuname_def ECALL_sethostname_def ECALL_setdomainname_def
  ECALL_getrlimit_def ECALL_setrlimit_def ECALL_getrusage_def ECALL_umask_def ECALL_prctl_def ECALL_getcpu_def
  ECALL_gettimeofday_def ECALL_settimeofday_def ECALL_adjtimex_def ECALL_getpid_def ECALL_getppid_def ECALL_getuid_def
  ECALL_geteuid_def ECALL_getgid_def ECALL_getegid_def ECALL_sysinfo_def ECALL_mq_open_def ECALL_mq_unlink_def
  ECALL_mq_timedsend_def ECALL_mq_timedreceive_def ECALL_mq_notify_def ECALL_mq_getsetattr_def ECALL_msgget_def
  ECALL_msgctl_def ECALL_msgrcv_def ECALL_msgsnd_def ECALL_semget_def ECALL_semctl_def ECALL_semtimedop_def
  ECALL_semop_def ECALL_shmget_def ECALL_shmctl_def ECALL_shmat_def ECALL_shmdt_def ECALL_socket_def ECALL_socketpair_def
  ECALL_bind_def ECALL_listen_def ECALL_accept_def ECALL_connect_def ECALL_getsockname_def ECALL_getpeername_def
  ECALL_sendto_def ECALL_recvfrom_def ECALL_setsockopt_def ECALL_getsockopt_def ECALL_shutdown_def ECALL_sendmsg_def
  ECALL_recvmsg_def ECALL_readahead_def ECALL_mremap_def ECALL_add_key_def ECALL_request_key_def ECALL_keyctl_def
  ECALL_clone_def ECALL_execve_def ECALL_fadvise64_64_def ECALL_swapon_def ECALL_swapoff_def ECALL_mprotect_def
  ECALL_msync_def ECALL_mlock_def ECALL_munlock_def ECALL_mlockall_def ECALL_munlockall_def ECALL_mincore_def
  ECALL_madvise_def ECALL_remap_file_pages_def ECALL_mbind_def ECALL_get_mempolicy_def ECALL_set_mempolicy_def
  ECALL_migrate_pages_def ECALL_move_pages_def ECALL_rt_tgsigqueueinfo_def ECALL_perf_event_open_def ECALL_accept4_def
  ECALL_recvmmsg_time32_def ECALL_wait4_def ECALL_prlimit64_def ECALL_fanotify_init_def ECALL_fanotify_mark_def
  ECALL_name_to_handle_at_def ECALL_open_by_handle_at_def ECALL_clock_adjtime_def ECALL_syncfs_def ECALL_setns_def
  ECALL_sendmmsg_def ECALL_process_vm_readv_def ECALL_process_vm_writev_def ECALL_kcmp_def ECALL_finit_module_def
  ECALL_sched_setattr_def ECALL_sched_getattr_def ECALL_renameat2_def ECALL_seccomp_def ECALL_getrandom_def
  ECALL_memfd_create_def ECALL_bpf_def ECALL_execveat_def ECALL_userfaultfd_def ECALL_membarrier_def ECALL_mlock2_def
  ECALL_copy_file_range_def ECALL_preadv2_def ECALL_pwritev2_def ECALL_pkey_mprotect_def ECALL_pkey_alloc_def
  ECALL_pkey_free_def ECALL_statx_def ECALL_io_pgetevents_def ECALL_rseq_def ECALL_kexec_file_load_def ECALL_pidfd_send_signal_def
  ECALL_io_uring_setup_def ECALL_io_uring_enter_def ECALL_io_uring_register_def ECALL_open_tree_def ECALL_move_mount_def
  ECALL_fsopen_def ECALL_fsconfig_def ECALL_fsmount_def ECALL_fspick_def ECALL_pidfd_open_def ECALL_clone3_def
  ECALL_close_range_def ECALL_openat2_def ECALL_pidfd_getfd_def ECALL_faccessat2_def ECALL_process_madvise_def
  

end
