(* ===== verification/Rev_SysCalls.thy ===== *)
theory Rev_SysCalls
  imports Rev_SysCallStubs Rev_Pipeline
begin

text \<open>
  The handlers of \<^verbatim>\<open>src/RevSysCalls.cc\<close> that do something, and the table of system calls of
  \<^verbatim>\<open>RevProc::InitEcallTable\<close>. A handler runs on the processor whose hart made the call; the host's
  system calls are the environment's. A call that has to read memory takes one access per clock
  tick: it reports \<^verbatim>\<open>CONTINUE\<close> and is executed again until its data are there.
\<close>

section \<open>Access to the calling hart\<close>

definition cur_regs :: "RevProc \<Rightarrow> nat result" where
  "cur_regs P = (case q_RegFile P of None \<Rightarrow> Inl (Undefined ''null register file'') | Some r \<Rightarrow> Inr r)"

definition cur_hart :: "RevProc \<Rightarrow> RevHart result" where
  "cur_hart P =
     (if length (q_Harts P) \<le> unat (q_HartToExecID P) then Inl (Undefined ''Harts.at: out of range'')
      else Inr (q_Harts P ! unat (q_HartToExecID P)))"

definition upd_hart :: "(RevHart \<Rightarrow> RevHart) \<Rightarrow> RevProc \<Rightarrow> RevProc" where
  "upd_hart f P = P\<lparr>q_Harts := (q_Harts P)[unat (q_HartToExecID P) := f (q_Harts P ! unat (q_HartToExecID P))]\<rparr>"

definition set_ecall :: "EcallState \<Rightarrow> RevProc \<Rightarrow> RevProc" where
  "set_ecall E = upd_hart (\<lambda>H. H\<lparr>ha_Ecall := E\<rparr>)"

definition upd_regs :: "nat \<Rightarrow> (RevRegFile \<Rightarrow> RevRegFile) \<Rightarrow> RevProc \<Rightarrow> RevProc" where
  "upd_regs r f P = P\<lparr>q_regs := (q_regs P)(r := f (q_regs P r))\<rparr>"

definition set_a0_int :: "nat \<Rightarrow> u32 \<Rightarrow> RevProc \<Rightarrow> RevProc" where
  "set_a0_int r rc = upd_regs r (SetX_s 10 rc)"

definition host_call :: "HostCall \<Rightarrow> RevProc \<Rightarrow> (u32 \<times> u8 list) \<times> RevProc" where
  "host_call c P = (env_host (q_env P) c (q_hostlog P), P\<lparr>q_hostlog := q_hostlog P @ [c]\<rparr>)"

definition write_mem :: "u64 \<Rightarrow> u8 list \<Rightarrow> RevProc \<Rightarrow> RevProc result" where
  "write_mem Addr Data P =
     res_bind (WriteMem (q_HartToExecID P) Addr Data (q_mem P)) (\<lambda>(_, M). Inr (P\<lparr>q_mem := M\<rparr>))"

text \<open>An outstanding load for a0 of the calling hart.\<close>

definition a0_hash :: "RevProc \<Rightarrow> u64" where
  "a0_hash P = LSQHash 10 RegGPR (q_HartToExecID P)"

definition a0_pending :: "RevProc \<Rightarrow> bool" where
  "a0_pending P = list_ex (\<lambda>e. fst e = a0_hash P) (q_LSQueue P)"

text \<open>A read of memory into the buffer of the call, recorded as a load of a0.\<close>

definition ecall_read :: "u64 \<Rightarrow> nat \<Rightarrow> nat \<Rightarrow> RevProc \<Rightarrow> (u8 list \<times> RevProc) result" where
  "ecall_read Addr n r P =
     (let h = q_HartToExecID P;
          req = mk_MemReq Addr 10 RegGPR h MemOpREAD True;
          C = LSQ_insert req (core_of h r P)
      in res_bind (ReadMem h Addr n (c_M C)) (\<lambda>(bs, M).
         res_bind (MarkLoadComplete req (C\<lparr>c_M := M\<rparr>)) (\<lambda>C1. Inr (bs, core_back r C1 P))))"

definition buf_store :: "u8 list \<Rightarrow> u8 list \<Rightarrow> u8 list" where
  "buf_store bs buf = bs @ drop (length bs) buf"

text \<open>What both string-reading calls do first: the bytes read in the cycle before join the string.\<close>

definition ecall_absorb :: "EcallState \<Rightarrow> EcallState" where
  "ecall_absorb E =
     (if ec_bytesRead E \<noteq> 0
      then E\<lparr>ec_string := ec_string E @ take (ec_bytesRead E) (ec_buf E), ec_bytesRead := 0\<rparr> else E)"

text \<open>The bytes a C string function sees.\<close>

definition c_str :: "u8 list \<Rightarrow> u8 list" where
  "c_str s = takeWhile (\<lambda>b. b \<noteq> 0) s"

section \<open>Strings from memory\<close>

definition EcallLoadAndParseString ::
  "u64 \<Rightarrow> (u8 list \<Rightarrow> RevProc \<Rightarrow> RevProc result) \<Rightarrow> RevProc \<Rightarrow> (EcallStatus \<times> RevProc) result" where
  "EcallLoadAndParseString straddr action P =
     res_bind (cur_hart P) (\<lambda>H.
     res_bind (cur_regs P) (\<lambda>r.
     if a0_pending P then Inr (CONTINUE, P)
     else
       let E = ecall_absorb (ha_Ecall H);
           P1 = set_ecall E P
       in if ec_string E \<noteq> [] \<and> last (ec_string E) = 0 then
            res_bind (action (ec_string E) P1) (\<lambda>P2.
            let P3 = upd_hart (\<lambda>H. H\<lparr>ha_Ecall := (ha_Ecall H)\<lparr>ec_string := [], ec_bytesRead := 0\<rparr>\<rparr>) P2
            in res_bind (DependencySet_hart (q_HartToExecID P3) 10 False False P3) (\<lambda>P4. Inr (SUCCESS, P4)))
          else
            res_bind (ecall_read (straddr + of_nat (length (ec_string E))) 1 r P1) (\<lambda>(bs, P2).
            let P3 = set_ecall (E\<lparr>ec_buf := buf_store bs (ec_buf E), ec_bytesRead := 1\<rparr>) P2
            in res_bind (DependencySet_hart (q_HartToExecID P3) 10 False True P3) (\<lambda>P4. Inr (CONTINUE, P4)))))"

section \<open>Files\<close>

text \<open>\<^verbatim>\<open>getcwd\<close> copies as many bytes as the caller asks for, whatever the length of the path.\<close>

definition ECALL_getcwd :: ecall_fun where
  "ECALL_getcwd I P =
     res_bind (cur_regs P) (\<lambda>r.
     let BufAddr = GetX (q_regs P r) 10; size = unat (GetX (q_regs P r) 11 :: u64);
         ((_, CWD), P1) = host_call Host_getcwd P
     in if Suc (length CWD) < size then Inl (Undefined ''read past the end of the path'')
        else res_bind (write_mem BufAddr (take size (CWD @ [0])) P1) (\<lambda>P2. Inr (SUCCESS, P2)))"

definition ECALL_mkdirat :: ecall_fun where
  "ECALL_mkdirat I P =
     res_bind (cur_regs P) (\<lambda>r.
     let dirfd = GetX (q_regs P r) 10; path = GetX (q_regs P r) 11; mode = GetX (q_regs P r) 12
     in EcallLoadAndParseString path (\<lambda>s Q.
       let ((rc, _), Q1) = host_call (Host_mkdirat dirfd (c_str s) mode) Q in Inr (set_a0_int r rc Q1)) P)"

definition ECALL_chdir :: ecall_fun where
  "ECALL_chdir I P =
     res_bind (cur_regs P) (\<lambda>r.
     let path = GetX (q_regs P r) 10
     in EcallLoadAndParseString path (\<lambda>s Q.
       let ((rc, _), Q1) = host_call (Host_chdir (c_str s)) Q in Inr (set_a0_int r rc Q1)) P)"

text \<open>
  \<^verbatim>\<open>openat\<close> opens the current directory and then the file in it, both with the caller's mode as
  flags. A hart that runs a call has a thread and a register file.
\<close>

definition openat_action :: "u32 \<Rightarrow> u8 list \<Rightarrow> RevProc \<Rightarrow> RevProc result" where
  "openat_action mode s P =
     (let ((dirfd, _), P1) = host_call (Host_open_cwd mode) P;
          ((fd, _), P2) = host_call (Host_openat dirfd (c_str s) mode) P1
      in res_bind (cur_hart P2) (\<lambda>H.
         case (ha_Thread H, ha_RegFile H) of
           (Some T, Some r') \<Rightarrow>
             Inr (set_a0_int r' fd (upd_hart (\<lambda>H. H\<lparr>ha_Thread := Some (T\<lparr>th_fildes := insert (sint fd) (th_fildes T)\<rparr>)\<rparr>) P2))
         | _ \<Rightarrow> Inl (Undefined ''hart without a thread'')))"

definition ECALL_openat :: ecall_fun where
  "ECALL_openat I P =
     res_bind (cur_regs P) (\<lambda>r.
     let pathname = GetX (q_regs P r) 11; mode = GetX (q_regs P r) 13
     in EcallLoadAndParseString pathname (openat_action mode) P)"

definition ECALL_close :: ecall_fun where
  "ECALL_close I P =
     res_bind (cur_regs P) (\<lambda>r.
     res_bind (cur_hart P) (\<lambda>H.
     let fd = GetX (q_regs P r) 10 :: u32
     in case ha_Thread H of
          None \<Rightarrow> Inl (Undefined ''hart without a thread'')
        | Some T \<Rightarrow>
            if sint fd \<notin> th_fildes T then Inl (Fatal ''tried to close file descriptor'')
            else
              let ((rc, _), P1) = host_call (Host_close fd) P;
                  P2 = upd_hart (\<lambda>H. H\<lparr>ha_Thread := Some (T\<lparr>th_fildes := th_fildes T - {sint fd}\<rparr>)\<rparr>) P1
              in Inr (SUCCESS, set_a0_int r rc P2)))"

text \<open>The buffer for the host is zero where the host wrote nothing; all of it goes to memory.\<close>

definition ECALL_read :: ecall_fun where
  "ECALL_read I P =
     res_bind (cur_regs P) (\<lambda>r.
     res_bind (cur_hart P) (\<lambda>H.
     let fd = GetX (q_regs P r) 10 :: u32; BufAddr = GetX (q_regs P r) 11; BufSize = GetX (q_regs P r) 12 :: u64
     in case ha_Thread H of
          None \<Rightarrow> Inl (Undefined ''hart without a thread'')
        | Some T \<Rightarrow>
            if sint fd \<notin> th_fildes T then Inl (Fatal ''tried to read from file descriptor'')
            else
              let ((rc, data), P1) = host_call (Host_read fd BufSize) P
              in res_bind (write_mem BufAddr (take (unat BufSize) (data @ replicate (unat BufSize) 0)) P1) (\<lambda>P2.
                 Inr (SUCCESS, set_a0_int r rc P2))))"

text \<open>The largest of 8, 4, 2 and 1 bytes that is left to read.\<close>

definition chunk :: "u64 \<Rightarrow> nat" where
  "chunk nleft = (if 8 \<le> nleft then 8 else if 4 \<le> nleft then 4 else if 2 \<le> nleft then 2 else 1)"

definition ECALL_write :: ecall_fun where
  "ECALL_write I P =
     res_bind (cur_hart P) (\<lambda>H.
     res_bind (cur_regs P) (\<lambda>r.
     let fd = GetX (q_regs P r) 10 :: u32; addr = GetX (q_regs P r) 11; nbytes = GetX (q_regs P r) 12;
         E = (if a0_pending P then ha_Ecall H else ecall_absorb (ha_Ecall H));
         P1 = set_ecall E P;
         nleft = nbytes - of_nat (length (ec_string E))
     in if a0_pending P then Inr (CONTINUE, P1)
        else if nleft = 0 then
          let ((rc, _), P2) = host_call (Host_write fd (ec_string E)) P1;
              P3 = set_ecall (EcallState_clear E) (set_a0_int r rc P2)
          in res_bind (DependencySet_hart (q_HartToExecID P3) 10 False False P3) (\<lambda>P4. Inr (SUCCESS, P4))
        else
          res_bind (ecall_read (addr + of_nat (length (ec_string E))) (chunk nleft) r P1) (\<lambda>(bs, P2).
          let P3 = set_ecall (E\<lparr>ec_buf := buf_store bs (ec_buf E), ec_bytesRead := chunk nleft\<rparr>) P2
          in res_bind (DependencySet_hart (q_HartToExecID P3) 10 False True P3) (\<lambda>P4. Inr (CONTINUE, P4)))))"

section \<open>Process, time and memory\<close>

definition ECALL_exit :: ecall_fun where
  "ECALL_exit I P = res_bind (cur_regs P) (\<lambda>r. Inl (Exited (GetX (q_regs P r) 10)))"

text \<open>A \<^verbatim>\<open>timespec\<close> is 16 bytes; the simulation counts picoseconds.\<close>

definition ECALL_clock_gettime :: ecall_fun where
  "ECALL_clock_gettime I P =
     res_bind (cur_regs P) (\<lambda>r.
     let tp = GetX (q_regs P r) 11
     in case env_timeConverter (q_env P) of
          None \<Rightarrow> Inr (SUCCESS, set_a0_int r 22 P)
        | Some conv \<Rightarrow>
            let x = conv (st_totalCycles (q_Stats P));
                tv_sec = x div 1000000000000; tv_nsec = (x div 1000) mod 1000000000
            in res_bind (write_mem tp (le_bytes 8 tv_sec @ le_bytes 8 tv_nsec) P) (\<lambda>P1.
               Inr (SUCCESS, set_a0_int r 0 P1)))"

definition ECALL_gettid :: ecall_fun where
  "ECALL_gettid I P = res_bind (cur_regs P) (\<lambda>r. Inr (SUCCESS, upd_regs r (SetX_u 10 (q_ActiveThreadID P)) P))"

definition upd_segs :: "RevSegs \<Rightarrow> RevProc \<Rightarrow> RevProc" where
  "upd_segs S P = P\<lparr>q_mem := (q_mem P)\<lparr>m_segs := S\<rparr>\<rparr>"

definition ECALL_brk :: ecall_fun where
  "ECALL_brk I P =
     res_bind (cur_regs P) (\<lambda>r.
     let Addr = GetX (q_regs P r) 10; heapend = s_heapend (m_segs (q_mem P))
     in if 0 < Addr \<and> heapend < Addr
        then res_bind (ExpandHeap (Addr - heapend) (m_segs (q_mem P))) (\<lambda>(_, S). Inr (SUCCESS, upd_segs S P))
        else Inl (Fatal ''Unable to expand system break''))"

text \<open>The result of the comparison, 0 or 1, is what is compared with -1 and returned.\<close>

definition ECALL_munmap :: ecall_fun where
  "ECALL_munmap I P =
     res_bind (cur_regs P) (\<lambda>r.
     let Addr = GetX (q_regs P r) 10; Size = GetX (q_regs P r) 11
     in res_bind (DeallocMem Addr Size (m_segs (q_mem P))) (\<lambda>(ret, S).
        let rc = (if ret = - 1 then 1 else 0 :: u32)
        in if rc = - 1 then Inl (Fatal ''Failed to perform munmap'')
           else Inr (SUCCESS, set_a0_int r rc (upd_segs S P))))"

definition ECALL_mmap :: ecall_fun where
  "ECALL_mmap I P =
     res_bind (cur_regs P) (\<lambda>r.
     let addr = GetX (q_regs P r) 10 :: u64; size = GetX (q_regs P r) 11
     in if addr = 0
        then res_bind (AllocMem size (m_segs (q_mem P))) (\<lambda>(a, S).
          Inr (SUCCESS, upd_regs r (SetX_u 10 a) (upd_segs S P)))
        else res_bind (AllocMemAt addr size (m_segs (q_mem P))) (\<lambda>(ret, S).
          if ret = 0 then Inl (Fatal ''Failed to add mem segment'')
          else Inr (SUCCESS, upd_regs r (SetX_u 10 addr) (upd_segs S P))))"

text \<open>The address is read as an \<^verbatim>\<open>int\<close>, so only its low half counts, sign extended.\<close>

definition ECALL_cpuinfo :: ecall_fun where
  "ECALL_cpuinfo I P =
     res_bind (cur_regs P) (\<lambda>r.
     let addr = scast (GetX (q_regs P r) 10 :: u32)
     in res_bind (write_mem addr (le_bytes 4 (ucast (env_numCores (q_env P))) @ le_bytes 4 (ucast (env_numHarts (q_env P)))) P) (\<lambda>P1.
        Inr (SUCCESS, set_a0_int r 0 P1)))"

definition ECALL_perf_stats :: ecall_fun where
  "ECALL_perf_stats I P =
     res_bind (cur_regs P) (\<lambda>r.
     res_bind (write_mem (GetX (q_regs P r) 10) (le_bytes 8 (st_totalCycles (q_Stats P)) @ le_bytes 8 (st_retired (q_Stats P))) P) (\<lambda>P1.
     Inr (SUCCESS, set_a0_int r 0 P1)))"

section \<open>Threads\<close>

text \<open>\<^verbatim>\<open>RevCPU::GetNewThreadID\<close> draws a random number.\<close>

definition GetNewThreadID :: "RevProc \<Rightarrow> u32 \<times> RevProc" where
  "GetNewThreadID P = draw32 0 0xFFFFFFFF P"

definition ECALL_pthread_create :: ecall_fun where
  "ECALL_pthread_create I P =
     res_bind (cur_regs P) (\<lambda>r.
     let tidAddr = GetX (q_regs P r) 10; NewThreadPC = GetX (q_regs P r) 12; ArgPtr = GetX (q_regs P r) 13;
         (NewTID, P1) = GetNewThreadID P
     in res_bind (CreateThread NewTID NewThreadPC ArgPtr P1) (\<lambda>P2.
        res_bind (write_mem tidAddr (le_bytes 8 (ucast NewTID)) P2) (\<lambda>P3. Inr (SUCCESS, P3))))"

definition ECALL_pthread_join :: ecall_fun where
  "ECALL_pthread_join I P =
     res_bind (cur_regs P) (\<lambda>r.
     let h = q_HartToExecID P in
     res_bind (hart_regs h P) (\<lambda>d.
     if \<not> AnyDependency (q_regs P d) then
       res_bind (PopThreadFromHart h P) (\<lambda>(T, P1).
       Inr (SUCCESS, AddThreadsThatChangedState
         ((SetState BLOCKED T)\<lparr>th_WaitingToJoinTID := ucast (GetX (q_regs P1 r) 10 :: u64)\<rparr>) P1))
     else Inr (CONTINUE, P)))"

section \<open>The table\<close>

text \<open>Number 84 is listed twice; the first entry counts.\<close>

definition EcallTable :: "(u32 \<times> ecall_fun) list" where
  "EcallTable = [
     (0, ECALL_io_setup), (1, ECALL_io_destroy), (2, ECALL_io_submit), (3, ECALL_io_cancel),
     (4, ECALL_io_getevents), (5, ECALL_setxattr), (6, ECALL_lsetxattr), (7, ECALL_fsetxattr), (8, ECALL_getxattr),
     (9, ECALL_lgetxattr), (10, ECALL_fgetxattr), (11, ECALL_listxattr), (12, ECALL_llistxattr),
     (13, ECALL_flistxattr), (14, ECALL_removexattr), (15, ECALL_lremovexattr), (16, ECALL_fremovexattr),
     (17, ECALL_getcwd), (18, ECALL_lookup_dcookie), (19, ECALL_eventfd2), (20, ECALL_epoll_create1),
     (21, ECALL_epoll_ctl), (22, ECALL_epoll_pwait), (23, ECALL_dup), (24, ECALL_dup3), (25, ECALL_fcntl64),
     (26, ECALL_inotify_init1), (27, ECALL_inotify_add_watch), (28, ECALL_inotify_rm_watch), (29, ECALL_ioctl),
     (30, ECALL_ioprio_set), (31, ECALL_ioprio_get), (32, ECALL_flock), (33, ECALL_mknodat), (34, ECALL_mkdirat),
     (35, ECALL_unlinkat), (36, ECALL_symlinkat), (37, ECALL_linkat), (38, ECALL_renameat), (39, ECALL_umount),
     (40, ECALL_mount), (41, ECALL_pivot_root), (42, ECALL_ni_syscall), (43, ECALL_statfs64),
     (44, ECALL_fstatfs64), (45, ECALL_truncate64), (46, ECALL_ftruncate64), (47, ECALL_fallocate),
     (48, ECALL_faccessat), (49, ECALL_chdir), (50, ECALL_fchdir), (51, ECALL_chroot), (52, ECALL_fchmod),
     (53, ECALL_fchmodat), (54, ECALL_fchownat), (55, ECALL_fchown), (56, ECALL_openat), (57, ECALL_close),
     (58, ECALL_vhangup), (59, ECALL_pipe2), (60, ECALL_quotactl), (61, ECALL_getdents64), (62, ECALL_lseek),
     (63, ECALL_read), (64, ECALL_write), (65, ECALL_readv), (66, ECALL_writev), (67, ECALL_pread64),
     (68, ECALL_pwrite64), (69, ECALL_preadv), (70, ECALL_pwritev), (71, ECALL_sendfile64),
     (72, ECALL_pselect6_time32), (73, ECALL_ppoll_time32), (74, ECALL_signalfd4), (75, ECALL_vmsplice),
     (76, ECALL_splice), (77, ECALL_tee), (78, ECALL_readlinkat), (79, ECALL_newfstatat), (80, ECALL_newfstat),
     (81, ECALL_sync), (82, ECALL_fsync), (83, ECALL_fdatasync), (84, ECALL_sync_file_range2),
     (84, ECALL_sync_file_range), (85, ECALL_timerfd_create), (86, ECALL_timerfd_settime),
     (87, ECALL_timerfd_gettime), (88, ECALL_utimensat), (89, ECALL_acct), (90, ECALL_capget), (91, ECALL_capset),
     (92, ECALL_personality), (93, ECALL_exit), (94, ECALL_exit_group), (95, ECALL_waitid),
     (96, ECALL_set_tid_address), (97, ECALL_unshare), (98, ECALL_futex), (99, ECALL_set_robust_list),
     (100, ECALL_get_robust_list), (101, ECALL_nanosleep), (102, ECALL_getitimer), (103, ECALL_setitimer),
     (104, ECALL_kexec_load), (105, ECALL_init_module), (106, ECALL_delete_module), (107, ECALL_timer_create),
     (108, ECALL_timer_gettime), (109, ECALL_timer_getoverrun), (110, ECALL_timer_settime),
     (111, ECALL_timer_delete), (112, ECALL_clock_settime), (113, ECALL_clock_gettime), (114, ECALL_clock_getres),
     (115, ECALL_clock_nanosleep), (116, ECALL_syslog), (117, ECALL_ptrace), (118, ECALL_sched_setparam),
     (119, ECALL_sched_setscheduler), (120, ECALL_sched_getscheduler), (121, ECALL_sched_getparam),
     (122, ECALL_sched_setaffinity), (123, ECALL_sched_getaffinity), (124, ECALL_sched_yield),
     (125, ECALL_sched_get_priority_max), (126, ECALL_sched_get_priority_min), (127, ECALL_sched_rr_get_interval),
     (128, ECALL_restart_syscall), (129, ECALL_kill), (130, ECALL_tkill), (131, ECALL_tgkill),
     (132, ECALL_sigaltstack), (133, ECALL_rt_sigsuspend), (134, ECALL_rt_sigaction), (135, ECALL_rt_sigprocmask),
     (136, ECALL_rt_sigpending), (137, ECALL_rt_sigtimedwait_time32), (138, ECALL_rt_sigqueueinfo),
     (140, ECALL_setpriority), (141, ECALL_getpriority), (142, ECALL_reboot), (143, ECALL_setregid),
     (144, ECALL_setgid), (145, ECALL_setreuid), (146, ECALL_setuid), (147, ECALL_setresuid),
     (148, ECALL_getresuid), (149, ECALL_setresgid), (150, ECALL_getresgid), (151, ECALL_setfsuid),
     (152, ECALL_setfsgid), (153, ECALL_times), (154, ECALL_setpgid), (155, ECALL_getpgid), (156, ECALL_getsid),
     (157, ECALL_setsid), (158, ECALL_getgroups), (159, ECALL_setgroups), (160, ECALL_newuname),
     (161, ECALL_sethostname), (162, ECALL_setdomainname), (163, ECALL_getrlimit), (164, ECALL_setrlimit),
     (165, ECALL_getrusage), (166, ECALL_umask), (167, ECALL_prctl), (168, ECALL_getcpu),
     (169, ECALL_gettimeofday), (170, ECALL_settimeofday), (171, ECALL_adjtimex), (172, ECALL_getpid),
     (173, ECALL_getppid), (174, ECALL_getuid), (175, ECALL_geteuid), (176, ECALL_getgid), (177, ECALL_getegid),
     (178, ECALL_gettid), (179, ECALL_sysinfo), (180, ECALL_mq_open), (181, ECALL_mq_unlink),
     (182, ECALL_mq_timedsend), (183, ECALL_mq_timedreceive), (184, ECALL_mq_notify), (185, ECALL_mq_getsetattr),
     (186, ECALL_msgget), (187, ECALL_msgctl), (188, ECALL_msgrcv), (189, ECALL_msgsnd), (190, ECALL_semget),
     (191, ECALL_semctl), (192, ECALL_semtimedop), (193, ECALL_semop), (194, ECALL_shmget), (195, ECALL_shmctl),
     (196, ECALL_shmat), (197, ECALL_shmdt), (198, ECALL_socket), (199, ECALL_socketpair), (200, ECALL_bind),
     (201, ECALL_listen), (202, ECALL_accept), (203, ECALL_connect), (204, ECALL_getsockname),
     (205, ECALL_getpeername), (206, ECALL_sendto), (207, ECALL_recvfrom), (208, ECALL_setsockopt),
     (209, ECALL_getsockopt), (210, ECALL_shutdown), (211, ECALL_sendmsg), (212, ECALL_recvmsg),
     (213, ECALL_readahead), (214, ECALL_brk), (215, ECALL_munmap), (216, ECALL_mremap), (217, ECALL_add_key),
     (218, ECALL_request_key), (219, ECALL_keyctl), (220, ECALL_clone), (221, ECALL_execve), (222, ECALL_mmap),
     (223, ECALL_fadvise64_64), (224, ECALL_swapon), (225, ECALL_swapoff), (226, ECALL_mprotect),
     (227, ECALL_msync), (228, ECALL_mlock), (229, ECALL_munlock), (230, ECALL_mlockall), (231, ECALL_munlockall),
     (232, ECALL_mincore), (233, ECALL_madvise), (234, ECALL_remap_file_pages), (235, ECALL_mbind),
     (236, ECALL_get_mempolicy), (237, ECALL_set_mempolicy), (238, ECALL_migrate_pages), (239, ECALL_move_pages),
     (240, ECALL_rt_tgsigqueueinfo), (241, ECALL_perf_event_open), (242, ECALL_accept4),
     (243, ECALL_recvmmsg_time32), (260, ECALL_wait4), (261, ECALL_prlimit64), (262, ECALL_fanotify_init),
     (263, ECALL_fanotify_mark), (264, ECALL_name_to_handle_at), (265, ECALL_open_by_handle_at),
     (266, ECALL_clock_adjtime), (267, ECALL_syncfs), (268, ECALL_setns), (269, ECALL_sendmmsg),
     (270, ECALL_process_vm_readv), (271, ECALL_process_vm_writev), (272, ECALL_kcmp), (273, ECALL_finit_module),
     (274, ECALL_sched_setattr), (275, ECALL_sched_getattr), (276, ECALL_renameat2), (277, ECALL_seccomp),
     (278, ECALL_getrandom), (279, ECALL_memfd_create), (280, ECALL_bpf), (281, ECALL_execveat),
     (282, ECALL_userfaultfd), (283, ECALL_membarrier), (284, ECALL_mlock2), (285, ECALL_copy_file_range),
     (286, ECALL_preadv2), (287, ECALL_pwritev2), (288, ECALL_pkey_mprotect), (289, ECALL_pkey_alloc),
     (290, ECALL_pkey_free), (291, ECALL_statx), (292, ECALL_io_pgetevents), (293, ECALL_rseq),
     (294, ECALL_kexec_file_load), (403, ECALL_clock_gettime), (404, ECALL_clock_settime),
     (405, ECALL_clock_adjtime), (406, ECALL_clock_getres), (407, ECALL_clock_nanosleep),
     (408, ECALL_timer_gettime), (409, ECALL_timer_settime), (410, ECALL_timerfd_gettime),
     (411, ECALL_timerfd_settime), (412, ECALL_utimensat), (416, ECALL_io_pgetevents), (418, ECALL_mq_timedsend),
     (419, ECALL_mq_timedreceive), (420, ECALL_semtimedop), (422, ECALL_futex), (423, ECALL_sched_rr_get_interval),
     (424, ECALL_pidfd_send_signal), (425, ECALL_io_uring_setup), (426, ECALL_io_uring_enter),
     (427, ECALL_io_uring_register), (428, ECALL_open_tree), (429, ECALL_move_mount), (430, ECALL_fsopen),
     (431, ECALL_fsconfig), (432, ECALL_fsmount), (433, ECALL_fspick), (434, ECALL_pidfd_open),
     (435, ECALL_clone3), (436, ECALL_close_range), (437, ECALL_openat2), (438, ECALL_pidfd_getfd),
     (439, ECALL_faccessat2), (440, ECALL_process_madvise), (500, ECALL_cpuinfo), (501, ECALL_perf_stats),
     (1000, ECALL_pthread_create), (1001, ECALL_pthread_join)]"

definition Ecalls :: "u32 \<rightharpoonup> ecall_fun" where
  "Ecalls = map_of EcallTable"

section \<open>Lemmas: system calls keep the scheduler's invariant\<close>

text \<open>What the invariant sees of a hart, and processors that agree on it.\<close>

definition hart_view :: "RevHart \<Rightarrow> nat option \<times> (nat option \<times> ThreadState) option" where
  "hart_view H = (ha_RegFile H, map_option (\<lambda>T. (th_VirtRegState T, th_State T)) (ha_Thread H))"

definition proc_like :: "RevProc \<Rightarrow> RevProc \<Rightarrow> bool" where
  "proc_like P Q \<longleftrightarrow> map hart_view (q_Harts Q) = map hart_view (q_Harts P) \<and> q_IdleHarts Q = q_IdleHarts P \<and>
     q_ValidHarts Q = q_ValidHarts P \<and> q_numHarts Q = q_numHarts P \<and> q_HartToDecodeID Q = q_HartToDecodeID P \<and>
     q_HartToExecID Q = q_HartToExecID P \<and> q_HartsClearToDecode Q = q_HartsClearToDecode P \<and> q_RegFile Q = q_RegFile P \<and>
     q_ThreadsThatChangedState Q = q_ThreadsThatChangedState P \<and> q_nregs Q = q_nregs P"

lemma hart_ok_view:
  "hart_ok P i = (case hart_view (q_Harts P ! i) of (R, V) \<Rightarrow>
     (i \<in> q_IdleHarts P \<longleftrightarrow> V = None) \<and> (V = None \<longleftrightarrow> R = None) \<and> (V = None \<or> V = Some (None, RUNNING)))"
  by (auto simp: hart_ok_def hart_view_def Let_def split: option.splits)

lemma proc_like_inv:
  assumes "proc_like P Q" "sched_inv P" shows "sched_inv Q"
proof -
  have len: "length (q_Harts Q) = length (q_Harts P)"
    using assms(1) unfolding proc_like_def by (metis length_map)
  have v: "hart_view (q_Harts Q ! i) = hart_view (q_Harts P ! i)" if "i < length (q_Harts P)" for i
    using assms(1) that len unfolding proc_like_def by (metis nth_map)
  then have r: "ha_RegFile (q_Harts Q ! i) = ha_RegFile (q_Harts P ! i)" if "i < length (q_Harts P)" for i
    using that by (simp add: hart_view_def)
  have "hart_ok Q i = hart_ok P i" if "i < length (q_Harts P)" for i
    using that v [OF that] assms(1) by (simp add: hart_ok_view proc_like_def)
  then show ?thesis using assms len r unfolding sched_inv_def proc_inv_def proc_like_def by (elim conjE, intro conjI) simp_all
qed

lemma proc_like_refl [simp]: "proc_like P P" by (simp add: proc_like_def)

lemma proc_like_trans [trans]: "proc_like P Q \<Longrightarrow> proc_like Q R \<Longrightarrow> proc_like P R" by (simp add: proc_like_def)

lemma upd_hart_like: "(\<And>H. hart_view (f H) = hart_view H) \<Longrightarrow> proc_like P (upd_hart f P)"
  by (auto simp: proc_like_def upd_hart_def map_update list_update_same_conv intro!: nth_equalityI)
     (metis (no_types, lifting) length_map list_update_id map_update nth_map nth_list_update)

lemma proc_like_simps [simp]:
  "proc_like P (set_ecall E P)" "proc_like P (upd_regs r g P)" "proc_like P (set_a0_int r rc P)"
  "proc_like P (core_back r C P)" "proc_like P (upd_segs S P)" "proc_like P (snd (host_call c P))"
  by (simp_all add: set_ecall_def upd_hart_like hart_view_def)
     (simp_all add: proc_like_def upd_regs_def set_a0_int_def core_back_def upd_segs_def host_call_def)

lemma write_mem_like: "write_mem a bs P = Inr Q \<Longrightarrow> proc_like P Q"
  by (auto simp: write_mem_def res_bind_eq_Inr proc_like_def)

lemma ecall_read_like: "ecall_read a n r P = Inr (bs, Q) \<Longrightarrow> proc_like P Q"
  by (auto simp: ecall_read_def Let_def res_bind_eq_Inr)

lemma DependencySet_hart_like: "DependencySet_hart h n f v P = Inr Q \<Longrightarrow> proc_like P Q"
  by (auto simp: DependencySet_hart_def res_bind_eq_Inr proc_like_def split: if_splits)

definition keeps :: "ecall_fun \<Rightarrow> bool" where
  "keeps f \<longleftrightarrow> (\<forall>I P s Q. sched_inv P \<longrightarrow> f I P = Inr (s, Q) \<longrightarrow> sched_inv Q)"

definition keeps_like :: "ecall_fun \<Rightarrow> bool" where
  "keeps_like f \<longleftrightarrow> (\<forall>I P s Q. f I P = Inr (s, Q) \<longrightarrow> proc_like P Q)"

lemma keeps_if_like: "keeps_like f \<Longrightarrow> keeps f"
  unfolding keeps_def keeps_like_def using proc_like_inv by blast

lemma host_call_like: "host_call c P = (x, Q) \<Longrightarrow> proc_like P Q"
  using proc_like_simps(6) [of P c] by simp

lemma proc_like_right [simp]:
  "proc_like P (set_ecall E Q) = proc_like P Q" "proc_like P (upd_regs r g Q) = proc_like P Q"
  "proc_like P (set_a0_int r rc Q) = proc_like P Q" "proc_like P (upd_segs S Q) = proc_like P Q"
  "proc_like P (Q\<lparr>q_hostlog := l\<rparr>) = proc_like P Q"
  "proc_like P (Q\<lparr>q_draws := d\<rparr>) = proc_like P Q" "proc_like (P\<lparr>q_hostlog := l\<rparr>) Q = proc_like P Q"
proof -
  have "proc_like Q Q' \<Longrightarrow> proc_like P Q' = proc_like P Q" for Q' by (simp add: proc_like_def)
  note e = this
  show "proc_like P (set_ecall E Q) = proc_like P Q" "proc_like P (upd_regs r g Q) = proc_like P Q"
    "proc_like P (set_a0_int r rc Q) = proc_like P Q" "proc_like P (upd_segs S Q) = proc_like P Q"
    by (rule e, simp)+
qed (simp_all add: proc_like_def)

lemma EcallLoadAndParseString_like:
  assumes act: "\<And>s P Q. action s P = Inr Q \<Longrightarrow> proc_like P Q"
    and e: "EcallLoadAndParseString a action P = Inr (s, Q)"
  shows "proc_like P Q"
proof -
  have v: "proc_like P' (upd_hart (\<lambda>H. H\<lparr>ha_Ecall := g (ha_Ecall H)\<rparr>) P')" for g P'
    by (rule upd_hart_like) (simp add: hart_view_def)
  obtain H r where hr: "cur_hart P = Inr H" "cur_regs P = Inr r" using e by (auto simp: EcallLoadAndParseString_def res_bind_eq_Inr)
  show ?thesis
  proof (cases "a0_pending P")
    case True
    then show ?thesis using e hr by (simp add: EcallLoadAndParseString_def)
  next
    case np: False
    let ?E = "ecall_absorb (ha_Ecall H)"
    show ?thesis
    proof (cases "ec_string ?E \<noteq> [] \<and> last (ec_string ?E) = 0")
      case True
      then obtain P2 P4 where "action (ec_string ?E) (set_ecall ?E P) = Inr P2"
        "DependencySet_hart (q_HartToExecID P2) 10 False False
           (upd_hart (\<lambda>H. H\<lparr>ha_Ecall := (ha_Ecall H)\<lparr>ec_string := [], ec_bytesRead := 0\<rparr>\<rparr>) P2) = Inr P4" "Q = P4"
        using e hr np by (auto simp: EcallLoadAndParseString_def Let_def res_bind_eq_Inr upd_hart_def)
      note x = this
      show ?thesis
        using proc_like_trans [OF proc_like_trans [OF act [OF x(1)] v] DependencySet_hart_like [OF x(2)]]
          proc_like_trans [OF proc_like_simps(1) [of P ?E]] x(3) by simp
    next
      case False
      then obtain bs P2 P4 E where "ecall_read (a + of_nat (length (ec_string ?E))) 1 r (set_ecall ?E P) = Inr (bs, P2)"
        "DependencySet_hart (q_HartToExecID (set_ecall E P2)) 10 False True (set_ecall E P2) = Inr P4" "Q = P4"
        using e hr np by (auto simp: EcallLoadAndParseString_def Let_def res_bind_eq_Inr)
      note x = this
      have "proc_like (set_ecall ?E P) (set_ecall E P2)" using ecall_read_like [OF x(1)] by simp
      then show ?thesis
        using proc_like_trans [OF proc_like_simps(1) [of P ?E]] proc_like_trans DependencySet_hart_like [OF x(2)] x(3) by blast
    qed
  qed
qed

lemma keeps_strings: "keeps_like ECALL_mkdirat" "keeps_like ECALL_chdir"
  unfolding keeps_like_def ECALL_mkdirat_def ECALL_chdir_def
  by (auto simp: res_bind_eq_Inr Let_def host_call_def case_prod_beta elim!: EcallLoadAndParseString_like [rotated])

lemma fildes_like:
  assumes "cur_hart P = Inr H" "ha_Thread H = Some T"
  shows "proc_like P (upd_hart (\<lambda>H. H\<lparr>ha_Thread := Some (T\<lparr>th_fildes := F\<rparr>)\<rparr>) P)"
  using assms by (auto simp: proc_like_def upd_hart_def map_update cur_hart_def hart_view_def list_update_same_conv split: if_splits)

lemma openat_action_like:
  assumes "openat_action mode s P = Inr Q" shows "proc_like P Q"
proof -
  obtain P2 H T r fd where x: "P2 = P\<lparr>q_hostlog := q_hostlog P2\<rparr>" "cur_hart P2 = Inr H" "ha_Thread H = Some T"
    "Q = set_a0_int r fd (upd_hart (\<lambda>H. H\<lparr>ha_Thread := Some (T\<lparr>th_fildes := insert (sint fd) (th_fildes T)\<rparr>)\<rparr>) P2)"
  proof -
    let ?c1 = "Host_open_cwd mode"
    let ?d = "fst (env_host (q_env P) ?c1 (q_hostlog P))"
    let ?c2 = "Host_openat ?d (c_str s) mode"
    let ?fd = "fst (env_host (q_env P) ?c2 (q_hostlog P @ [?c1]))"
    let ?P2 = "P\<lparr>q_hostlog := q_hostlog P @ [?c1, ?c2]\<rparr>"
    obtain H where H: "cur_hart ?P2 = Inr H" using assms by (auto simp: openat_action_def host_call_def case_prod_beta Let_def res_bind_eq_Inr)
    then obtain T r where "ha_Thread H = Some T" "ha_RegFile H = Some r"
      using assms by (auto simp: openat_action_def host_call_def case_prod_beta Let_def split: option.split_asm)
    then show ?thesis using assms H that [of ?P2 H T r ?fd] by (simp add: openat_action_def host_call_def case_prod_beta Let_def)
  qed
  have "proc_like P2 Q" using fildes_like [OF x(2,3)] x(4) by simp
  then show ?thesis by (subst (asm) x(1)) simp
qed

lemma keeps_openat: "keeps_like ECALL_openat"
  unfolding keeps_like_def ECALL_openat_def
  by (auto simp: res_bind_eq_Inr Let_def elim!: EcallLoadAndParseString_like [rotated] openat_action_like)

lemma keeps_close: "keeps_like ECALL_close"
proof -
  have "proc_like P (upd_hart (\<lambda>H. H\<lparr>ha_Thread := Some (T\<lparr>th_fildes := F\<rparr>)\<rparr>) (P\<lparr>q_hostlog := l\<rparr>))"
    if "cur_hart P = Inr H" "ha_Thread H = Some T" for P H T F l
    using fildes_like [OF that] by (simp add: proc_like_def upd_hart_def)
  then show ?thesis
    unfolding keeps_like_def ECALL_close_def
    by (auto simp: res_bind_eq_Inr Let_def host_call_def case_prod_beta split: option.splits if_splits)
qed

lemma keeps_write: "keeps_like ECALL_write"
proof -
  have "proc_like P Q" if e: "ECALL_write I P = Inr (s, Q)" for I P s Q
  proof -
    obtain H r where hr: "cur_hart P = Inr H" "cur_regs P = Inr r" using e by (auto simp: ECALL_write_def res_bind_eq_Inr)
    let ?E = "ecall_absorb (ha_Ecall H)"
    consider "proc_like P Q" | P3 where "DependencySet_hart (q_HartToExecID P3) 10 False False P3 = Inr Q" "proc_like P P3"
      | bs P2 E a n where "ecall_read a n r (set_ecall ?E P) = Inr (bs, P2)"
        "DependencySet_hart (q_HartToExecID (set_ecall E P2)) 10 False True (set_ecall E P2) = Inr Q"
      using e hr by (auto simp: ECALL_write_def res_bind_eq_Inr Let_def host_call_def case_prod_beta split: if_splits)
    then show ?thesis
    proof cases
      case (2 P3)
      then show ?thesis using DependencySet_hart_like proc_like_trans by blast
    next
      case (3 bs P2 E a n)
      then have "proc_like (set_ecall ?E P) P2" "proc_like (set_ecall E P2) Q"
        using ecall_read_like DependencySet_hart_like by blast+
      then show ?thesis using proc_like_simps(1) [of P ?E] proc_like_simps(1) [of P2 E] by (simp add: proc_like_def)
    qed
  qed
  then show ?thesis by (auto simp: keeps_like_def)
qed

lemma keeps_simple:
  "keeps_like ecall_stub" "keeps_like ECALL_getcwd" "keeps_like ECALL_exit" "keeps_like ECALL_clock_gettime"
  "keeps_like ECALL_gettid" "keeps_like ECALL_brk" "keeps_like ECALL_munmap" "keeps_like ECALL_mmap"
  "keeps_like ECALL_cpuinfo" "keeps_like ECALL_perf_stats" "keeps_like ECALL_read"
  unfolding keeps_like_def ecall_stub_def ECALL_getcwd_def ECALL_exit_def ECALL_clock_gettime_def ECALL_gettid_def
    ECALL_brk_def ECALL_munmap_def ECALL_mmap_def ECALL_cpuinfo_def ECALL_perf_stats_def ECALL_read_def
  by (auto simp: res_bind_eq_Inr Let_def host_call_def case_prod_beta split: if_splits option.splits dest!: write_mem_like)

text \<open>A new thread waits in the queue of the processor for the CPU to take it.\<close>

lemma CreateThread_adds:
  assumes "CreateThread t pc a P = Inr Q"
  shows "\<exists>T. th_VirtRegState T = Some (q_nregs P) \<and> th_State T = START \<and>
    proc_like (AddThreadsThatChangedState T (P\<lparr>q_nregs := Suc (q_nregs P)\<rparr>)) Q"
proof -
  obtain S where "proc_like (AddThreadsThatChangedState (mk_RevThread t (GetAssignedThreadID (q_Harts P ! unat (q_HartToExecID P))) S (q_nregs P))
      (P\<lparr>q_nregs := Suc (q_nregs P)\<rparr>)) Q"
    using assms by (auto simp: CreateThread_def Let_def case_prod_beta proc_like_def AddThreadsThatChangedState_def split: if_splits)
  moreover have "th_VirtRegState (mk_RevThread t i S n) = Some n" "th_State (mk_RevThread t i S n) = START" for i n
    by (simp_all add: mk_RevThread_def)
  ultimately show ?thesis by blast
qed

lemma pthread_create_adds:
  assumes "ECALL_pthread_create I P = Inr (s, Q)"
  shows "\<exists>T. th_VirtRegState T = Some (q_nregs P) \<and> th_State T = START \<and>
    proc_like (AddThreadsThatChangedState T (P\<lparr>q_nregs := Suc (q_nregs P)\<rparr>)) Q"
proof -
  obtain t pc a b bs P1 P2 where p: "CreateThread t pc a P1 = Inr P2" "write_mem b bs P2 = Inr Q" "P1 = P\<lparr>q_draws := Suc (q_draws P)\<rparr>"
    using assms by (auto simp: ECALL_pthread_create_def GetNewThreadID_def draw32_def res_bind_eq_Inr Let_def)
  obtain T where T: "th_VirtRegState T = Some (q_nregs P)" "th_State T = START"
    "proc_like (AddThreadsThatChangedState T (P1\<lparr>q_nregs := Suc (q_nregs P)\<rparr>)) P2"
    using CreateThread_adds [OF p(1)] p(3) by auto
  have "proc_like (AddThreadsThatChangedState T (P\<lparr>q_nregs := n\<rparr>)) (AddThreadsThatChangedState T (P1\<lparr>q_nregs := n\<rparr>))" for n
    by (simp add: p(3) proc_like_def AddThreadsThatChangedState_def)
  then show ?thesis using T proc_like_trans proc_like_trans [OF T(3) write_mem_like [OF p(2)]] by blast
qed

lemma keeps_create: "keeps ECALL_pthread_create"
proof -
  have "sched_inv (AddThreadsThatChangedState T (P\<lparr>q_nregs := n\<rparr>)) = sched_inv P" for T P n
    by (rule sched_inv_cong) (simp_all add: AddThreadsThatChangedState_def)
  then show ?thesis using pthread_create_adds proc_like_inv unfolding keeps_def by blast
qed

lemma keeps_join: "keeps ECALL_pthread_join"
proof -
  have "sched_inv Q" if inv: "sched_inv P" and e: "ECALL_pthread_join I P = Inr (s, Q)" for I P s Q
  proof (cases "Q = P")
    case False
    let ?h = "q_HartToExecID P"
    obtain T P1 W where p: "PopThreadFromHart ?h P = Inr (T, P1)" and Q: "Q = AddThreadsThatChangedState W P1"
      using e False by (auto simp: ECALL_pthread_join_def res_bind_eq_Inr Let_def split: if_splits)
    obtain d where "hart_regs ?h P = Inr d" using e by (auto simp: ECALL_pthread_join_def res_bind_eq_Inr Let_def)
    then have h: "unat ?h < length (q_Harts P)" by (simp add: hart_regs_iff)
    define R where "R = AddThreadsThatChangedState (SetState DONE T) (P1\<lparr>q_HartsClearToExecute := q_HartsClearToExecute P1 - {unat ?h},
      q_HartsClearToDecode := q_HartsClearToDecode P1 - {unat ?h}, q_IdleHarts := insert (unat ?h) (q_IdleHarts P1)\<rparr>)"
    have r: "retire_thread ?h ?h P = Inr R" using p by (simp add: retire_thread_def R_def)
    have pi: "proc_inv P" using inv by (simp add: sched_inv_def)
    note ri = retire_thread_inv [OF pi h r]
    have f: "q_Harts Q = q_Harts R" "q_IdleHarts Q = q_IdleHarts R" "q_ValidHarts Q = q_ValidHarts R" "q_numHarts Q = q_numHarts R"
      "q_HartToDecodeID Q = q_HartToDecodeID R" "q_HartToExecID Q = q_HartToExecID R" "q_HartsClearToDecode Q = q_HartsClearToDecode P"
      using p by (auto simp: Q R_def AddThreadsThatChangedState_def PopThreadFromHart_def res_bind_eq_Inr split: if_splits)
    have "proc_inv Q = proc_inv R" using f by (simp add: proc_inv_def hart_ok_def)
    then show ?thesis using ri f inv by (simp add: sched_inv_def)
  qed (use inv in simp)
  then show ?thesis by (auto simp: keeps_def)
qed

lemmas keeps_handlers = keeps_simple keeps_strings keeps_openat keeps_close keeps_write

lemma EcallTable_keeps: "list_all (\<lambda>(n, f). keeps f) EcallTable"
  unfolding EcallTable_def by (simp add: ecall_stub_defs keeps_if_like [OF keeps_handlers(1)] keeps_join keeps_create keeps_handlers [THEN keeps_if_like])

interpretation ecalls: ecall_table Ecalls
proof
  fix n f P I s Q
  assume "Ecalls n = Some f" and P: "sched_inv P" "f I P = Inr (s, Q)"
  then have "(n, f) \<in> set EcallTable" by (simp add: Ecalls_def map_of_SomeD)
  then have "keeps f" using EcallTable_keeps by (auto simp: list_all_iff)
  then show "sched_inv Q" using P by (auto simp: keeps_def)
qed

text \<open>
  C5: In every state a processor can reach from its construction, by clock ticks with the simulator's own
  system calls, assignments of threads and the calls of the debugger, the coprocessor and the fault
  injector, the harts are consistent: a hart is idle exactly if it has no thread, a thread on a hart
  is running and has given the hart its register file, no two harts share one, and the harts to
  decode and to execute exist.
\<close>

theorem reachable_scheduling:
  "proc_reachable cp Ecalls P \<Longrightarrow> sched_inv P"
  by (rule ecalls.reachable_sched_inv)

theorem reachable_scheduling_witness:
  "\<exists>P. AssignThread thread_example proc_idle = Inr P \<and> sched_inv P \<and> q_IdleHarts P = {1, 2, 3}"
proof -
  obtain P where P: "AssignThread thread_example proc_idle = Inr P" "q_IdleHarts P = {1, 2, 3}"
    using assign_example by blast
  have "proc_reachable (\<lambda>_. False) Ecalls proc_idle"
    unfolding proc_idle_def by (rule proc_reachable.start) simp_all
  moreover have "proc_step (\<lambda>_. False) Ecalls proc_idle P"
    by (rule proc_step.assign [OF proc_idle_ready(1,2) proc_idle_ready(3) P(1)])
  ultimately have "proc_reachable (\<lambda>_. False) Ecalls P" by (rule proc_reachable.step)
  then show ?thesis using reachable_scheduling P by blast
qed

end
