(* ===== verification/Rev_SysCallIO.thy ===== *)
theory Rev_SysCallIO
  imports Rev_SysCalls
begin

text \<open>
  The system calls that read the caller's memory, executed until they are done: the bytes a
  \<^verbatim>\<open>write\<close> sends to the host, and the path names that \<^verbatim>\<open>chdir\<close>, \<^verbatim>\<open>mkdirat\<close> and \<^verbatim>\<open>openat\<close> collect byte by byte.
\<close>

section \<open>Lemmas: system calls that read memory\<close>

text \<open>
  A processor whose hart can make a system call that reads memory: no load of a0 and no fetch is
  outstanding, and memory has room for the pages \<open>k\<close> more accesses may touch.
\<close>

definition io_ready :: "nat \<Rightarrow> nat \<Rightarrow> RevProc \<Rightarrow> bool" where
  "io_ready r k P \<longleftrightarrow> q_RegFile P = Some r \<and> hart_regs (q_HartToExecID P) P = Inr r \<and> \<not> a0_pending P \<and>
     q_OutstandingFetchQ P = [] \<and> mem_inv (q_mem P) \<and> mem_room k (q_mem P)"

lemma ecall_read_ok:
  assumes P: "io_ready r (Suc (Suc k)) P" and a: "mem_accessible a n (q_mem P)"
  shows "\<exists>M. ecall_read a n r P = Inr (vread (vmem (q_mem P)) a n,
      P\<lparr>q_mem := M, q_regs := (q_regs P)(r := DependencySet 10 False False (q_regs P r))\<rparr>) \<and> mem_same k (q_mem P) M"
proof -
  let ?h = "q_HartToExecID P"
  let ?req = "mk_MemReq a 10 RegGPR ?h MemOpREAD True" and ?C = "core_of ?h r P"
  have p: "\<not> a0_pending P" "q_OutstandingFetchQ P = []" "mem_inv (q_mem P)" "mem_room (Suc (Suc k)) (q_mem P)"
    using P by (simp_all add: io_ready_def)
  obtain M where M: "ReadMem ?h a n (q_mem P) = Inr (vread (vmem (q_mem P)) a n, M)" "mem_same k (q_mem P) M"
    using mem.read_law [OF p(3) a p(4)] unfolding mem_same_def by blast
  have hash: "req_LSQHash ?req = a0_hash P" by (simp add: mk_MemReq_hash a0_hash_def)
  have "LSQ_count (req_LSQHash ?req) ?C = 0"
    using p(1) by (auto simp: hash LSQ_count_def a0_pending_def list_ex_iff filter_empty_conv)
  then have "MarkLoadComplete ?req ((LSQ_insert ?req ?C)\<lparr>c_M := M\<rparr>) = Inr ((LSQ_insert ?req ?C)\<lparr>c_M := M,
      c_R := DependencySet 10 False False (q_regs P r), c_OutstandingFetchQ := [], c_LSQueue := q_LSQueue P\<rparr>)"
    using MarkLoadComplete_insert [of ?req ?C "(LSQ_insert ?req ?C)\<lparr>c_M := M\<rparr>"] p(2)
    by (simp add: LSQ_insert_def mk_MemReq_def core_of_def)
  then show ?thesis
    using M p(2) by (intro exI [of _ M]) (simp add: ecall_read_def LSQ_insert_def core_back_def core_of_def)
qed

lemma DependencySet_hart_a0:
  "hart_regs h P = Inr r \<Longrightarrow> DependencySet_hart h 10 False v P =
     Inr (P\<lparr>q_regs := (q_regs P)(r := DependencySet 10 False v (q_regs P r))\<rparr>)"
  by (simp add: DependencySet_hart_def REV_NUM_REGS_def) (auto simp: hart_regs_iff)

text \<open>The bytes that a call has collected.\<close>

definition got :: "RevProc \<Rightarrow> u8 list" where
  "got P = ec_string (ecall_absorb (ha_Ecall (q_Harts P ! unat (q_HartToExecID P))))"

text \<open>What the calling program sees of its registers, and what a step of a call keeps.\<close>

definition same_caller :: "nat \<Rightarrow> RevProc \<Rightarrow> RevProc \<Rightarrow> bool" where
  "same_caller r P Q \<longleftrightarrow> rf_RV (q_regs Q r) = rf_RV (q_regs P r) \<and> rf_IsRV32 (q_regs Q r) = rf_IsRV32 (q_regs P r) \<and>
     vmem (q_mem Q) = vmem (q_mem P) \<and> (\<forall>b n. mem_accessible b n (q_mem Q) = mem_accessible b n (q_mem P)) \<and>
     q_hostlog Q = q_hostlog P \<and> q_env Q = q_env P \<and> q_HartToExecID Q = q_HartToExecID P \<and>
     ha_Thread (q_Harts Q ! unat (q_HartToExecID P)) = ha_Thread (q_Harts P ! unat (q_HartToExecID P))"

lemma same_caller_trans: "same_caller r P Q \<Longrightarrow> same_caller r Q R \<Longrightarrow> same_caller r P R"
  by (simp add: same_caller_def)

lemma same_caller_GetX: "same_caller r P Q \<Longrightarrow> GetX (q_regs Q r) n = GetX (q_regs P r) n"
  by (simp add: same_caller_def GetX_def)

text \<open>The part of a call that reads: one access, whose bytes the next execution of the call absorbs.\<close>

lemma ecall_read_step:
  assumes P: "io_ready r (Suc (Suc k)) P" and h: "cur_hart P = Inr H" "E = ecall_absorb (ha_Ecall H)"
    and a: "mem_accessible a n (q_mem P)" "0 < n"
  shows "\<exists>Q. res_bind (ecall_read a n r (set_ecall E P)) (\<lambda>(bs, P2).
      let P3 = set_ecall (E\<lparr>ec_buf := buf_store bs (ec_buf E), ec_bytesRead := n\<rparr>) P2
      in res_bind (DependencySet_hart (q_HartToExecID P3) 10 False True P3) (\<lambda>P4. Inr (CONTINUE, P4))) = Inr (CONTINUE, Q) \<and>
    io_ready r k Q \<and> same_caller r P Q \<and> got Q = got P @ vread (vmem (q_mem P)) a n"
proof -
  let ?h = "unat (q_HartToExecID P)" and ?P1 = "set_ecall E P"
  have hl: "?h < length (q_Harts P)" "H = q_Harts P ! ?h" using h(1) by (auto simp: cur_hart_def split: if_splits)
  have r: "io_ready r (Suc (Suc k)) ?P1"
    using P hl by (simp add: io_ready_def set_ecall_def upd_hart_def hart_regs_iff a0_pending_def a0_hash_def)
  have m: "q_mem ?P1 = q_mem P" by (simp add: set_ecall_def upd_hart_def)
  obtain M where M: "ecall_read a n r ?P1 = Inr (vread (vmem (q_mem P)) a n,
      ?P1\<lparr>q_mem := M, q_regs := (q_regs ?P1)(r := DependencySet 10 False False (q_regs ?P1 r))\<rparr>)" "mem_same k (q_mem P) M"
    using ecall_read_ok [OF r, of a n] a(1) m by auto
  define P2 where "P2 = ?P1\<lparr>q_mem := M, q_regs := (q_regs ?P1)(r := DependencySet 10 False False (q_regs ?P1 r))\<rparr>"
  let ?bs = "vread (vmem (q_mem P)) a n"
  define P3 where "P3 = set_ecall (E\<lparr>ec_buf := buf_store ?bs (ec_buf E), ec_bytesRead := n\<rparr>) P2"
  have hr: "hart_regs (q_HartToExecID P3) P3 = Inr r"
    using P hl by (simp add: P3_def P2_def io_ready_def set_ecall_def upd_hart_def hart_regs_iff)
  define Q where "Q = P3\<lparr>q_regs := (q_regs P3)(r := DependencySet 10 False True (q_regs P3 r))\<rparr>"
  have d: "DependencySet_hart (q_HartToExecID P3) 10 False True P3 = Inr Q" using DependencySet_hart_a0 [OF hr] by (simp add: Q_def)
  have g: "got Q = got P @ ?bs"
    using hl h(2) a(2) by (simp add: got_def Q_def P3_def P2_def set_ecall_def upd_hart_def ecall_absorb_def buf_store_def vread_def)
  have "io_ready r k Q" "same_caller r P Q"
    using P hl M(2) by (simp_all add: Q_def P3_def P2_def io_ready_def same_caller_def set_ecall_def upd_hart_def hart_regs_iff
        a0_pending_def a0_hash_def mem_same_def)
  then show ?thesis using M(1) d g by (simp add: P2_def [symmetric] P3_def [symmetric])
qed

text \<open>
  Repeated execution of a call, as the program counter makes it happen while the call reports
  \<^verbatim>\<open>CONTINUE\<close>. The bound on the executions is an argument; \<open>None\<close> means it was too small.
\<close>

fun run_ecall :: "nat \<Rightarrow> (RevProc \<Rightarrow> (EcallStatus \<times> RevProc) result) \<Rightarrow> RevProc \<Rightarrow> RevProc result option" where
  "run_ecall 0 f P = None"
| "run_ecall (Suc n) f P =
     (case f P of Inl e \<Rightarrow> Some (Inl e) | Inr (s, Q) \<Rightarrow> if s = SUCCESS then Some (Inr Q) else run_ecall n f Q)"

lemma run_ecall_mono: "run_ecall n f P = Some x \<Longrightarrow> n \<le> m \<Longrightarrow> run_ecall m f P = Some x"
proof (induction n arbitrary: P m)
  case (Suc n)
  then obtain m' where "m = Suc m'" "n \<le> m'" by (cases m) auto
  then show ?case using Suc by (auto split: sum.splits if_splits prod.splits)
qed simp

lemma chunk_bounds: "0 < d \<Longrightarrow> d < 2 ^ 64 \<Longrightarrow> 0 < chunk (of_nat d) \<and> chunk (of_nat d) \<le> d"
  by (auto simp: chunk_def word_le_nat_alt unat_of_nat)

lemma mem_accessible_sub:
  assumes "mem_accessible a n M" "j + c \<le> n" "0 < c"
  shows "mem_accessible (a + of_nat j) c M"
proof -
  have "unat (a + of_nat j) = unat a + j" using assms by (simp add: mem_accessible_def unat_word_ariths unat_of_nat)
  moreover have "isValidVirtAddr (a + of_nat j + of_nat i) (m_segs M)" if "i < c" for i
    using assms that mem_accessibleD [OF assms(1), of "j + i"] by (simp add: add.assoc)
  ultimately show ?thesis using assms by (auto simp: mem_accessible_def)
qed

text \<open>What \<^verbatim>\<open>ECALL_write\<close> does once it has all bytes.\<close>

lemma ECALL_write_last:
  assumes P: "io_ready r k P" and g: "length (got P) = n"
    and x: "unat (GetX (q_regs P r) 12 :: u64) = n" "GetX (q_regs P r) 10 = (fd :: u32)"
  shows "\<exists>Q. ECALL_write I P = Inr (SUCCESS, Q) \<and> q_hostlog Q = q_hostlog P @ [Host_write fd (got P)] \<and>
    vmem (q_mem Q) = vmem (q_mem P) \<and> got Q = [] \<and>
    GetX (q_regs Q r) 10 = fst (env_host (q_env P) (Host_write fd (got P)) (q_hostlog P))"
proof -
  let ?h = "unat (q_HartToExecID P)"
  have p: "q_RegFile P = Some r" "?h < length (q_Harts P)" "ha_RegFile (q_Harts P ! ?h) = Some r" "\<not> a0_pending P"
    using P by (auto simp: io_ready_def hart_regs_iff)
  have c: "cur_hart P = Inr (q_Harts P ! ?h)" "cur_regs P = Inr r" using p by (simp_all add: cur_hart_def cur_regs_def)
  have n0: "GetX (q_regs P r) 12 - of_nat (length (got P)) = (0 :: u64)" using x(1) g by (metis right_minus_eq of_nat_unat ucast_id)
  let ?E = "ecall_absorb (ha_Ecall (q_Harts P ! ?h))"
  let ?c = "Host_write fd (got P)"
  let ?rc = "fst (env_host (q_env P) ?c (q_hostlog P))"
  define P3 where "P3 = set_ecall (EcallState_clear ?E) (set_a0_int r ?rc ((set_ecall ?E P)\<lparr>q_hostlog := q_hostlog P @ [?c]\<rparr>))"
  have hr: "hart_regs (q_HartToExecID P3) P3 = Inr r"
    using p by (simp add: P3_def set_ecall_def upd_hart_def set_a0_int_def upd_regs_def hart_regs_iff)
  have e: "ECALL_write I P = res_bind (DependencySet_hart (q_HartToExecID P3) 10 False False P3) (\<lambda>P4. Inr (SUCCESS, P4))"
    using c p(4) n0 x(2) unfolding got_def
    by (simp add: ECALL_write_def P3_def got_def host_call_def Let_def case_prod_beta set_ecall_def upd_hart_def)
  have "GetX (q_regs P3 r) 10 = ?rc"
    by (simp add: P3_def set_ecall_def upd_hart_def set_a0_int_def upd_regs_def GetX_SetX_s)
  moreover have "got P3 = []" "q_hostlog P3 = q_hostlog P @ [?c]" "vmem (q_mem P3) = vmem (q_mem P)"
    using p(2) by (simp_all add: P3_def got_def set_ecall_def upd_hart_def set_a0_int_def upd_regs_def EcallState_clear_def ecall_absorb_def)
  ultimately show ?thesis
    unfolding e DependencySet_hart_a0 [OF hr] by (simp add: got_def)
qed

lemma ECALL_write_runs:
  assumes "n - j = d" "io_ready r (2 * d + k) P" "got P = vread (vmem (q_mem P)) addr j" "j \<le> n" "0 < n \<longrightarrow> mem_accessible addr n (q_mem P)"
    and "GetX (q_regs P r) 11 = addr" "unat (GetX (q_regs P r) 12 :: u64) = n" "GetX (q_regs P r) 10 = (fd :: u32)"
  shows "\<exists>Q. run_ecall (Suc d) (ECALL_write I) P = Some (Inr Q) \<and>
    q_hostlog Q = q_hostlog P @ [Host_write fd (vread (vmem (q_mem P)) addr n)] \<and> vmem (q_mem Q) = vmem (q_mem P) \<and> got Q = [] \<and>
    GetX (q_regs Q r) 10 = fst (env_host (q_env P) (Host_write fd (vread (vmem (q_mem P)) addr n)) (q_hostlog P))"
  using assms
proof (induction d arbitrary: j P rule: less_induct)
  case (less d)
  show ?case
  proof (cases "d = 0")
    case True
    then have "j = n" using less.prems by simp
    moreover have "length (got P) = n" using less.prems(3) \<open>j = n\<close> by (simp add: vread_def)
    ultimately show ?thesis
      using ECALL_write_last [OF less.prems(2) _ less.prems(7,8), of I] less.prems(3) True by auto
  next
    case False
    let ?h = "unat (q_HartToExecID P)" and ?m = "vmem (q_mem P)"
    have p: "q_RegFile P = Some r" "?h < length (q_Harts P)" "\<not> a0_pending P"
      using less.prems(2) by (auto simp: io_ready_def hart_regs_iff)
    have c: "cur_hart P = Inr (q_Harts P ! ?h)" "cur_regs P = Inr r" using p by (simp_all add: cur_hart_def cur_regs_def)
    let ?E = "ecall_absorb (ha_Ecall (q_Harts P ! ?h))"
    have lj: "length (ec_string ?E) = j" using less.prems(3) by (simp add: got_def vread_def)
    have acc: "mem_accessible addr n (q_mem P)" using less.prems(1,5) False by simp
    then have n: "n \<le> 2 ^ 18" by (simp add: mem_accessible_def)
    have nl: "GetX (q_regs P r) 12 - of_nat j = (of_nat d :: u64)"
      using less.prems(1,4,7) by (metis of_nat_diff of_nat_unat ucast_id)
    have dn: "(of_nat d :: u64) \<noteq> 0" using less.prems(1) n False by (simp add: word_unat_eq_iff unat_of_nat)
    have ne: "GetX (q_regs P r) 12 \<noteq> (of_nat j :: u64)" using nl dn by auto
    let ?c = "chunk (of_nat d)"
    have ch: "0 < ?c" "?c \<le> d" using chunk_bounds [of d] False less.prems(1) n by auto
    have sub: "mem_accessible (addr + of_nat j) ?c (q_mem P)"
      using mem_accessible_sub [OF acc, of j ?c] ch less.prems(1,4) by simp
    have "Suc (Suc (2 * (d - ?c) + k)) \<le> 2 * d + k" using ch by simp
    then have ir: "io_ready r (Suc (Suc (2 * (d - ?c) + k))) P"
      using less.prems(2) by (auto simp: io_ready_def mem_room_def intro: order_trans)
    obtain Q where Q: "ECALL_write I P = Inr (CONTINUE, Q)" "io_ready r (2 * (d - ?c) + k) Q" "same_caller r P Q"
      "got Q = got P @ vread ?m (addr + of_nat j) ?c"
      using ecall_read_step [OF ir c(1) refl sub ch(1)] c p(3) nl ne less.prems(6)
      by (auto simp: ECALL_write_def Let_def lj)
    have sc: "vmem (q_mem Q) = ?m" "q_hostlog Q = q_hostlog P" "q_env Q = q_env P" "mem_accessible addr n (q_mem Q)"
      using Q(3) acc by (simp_all add: same_caller_def)
    have "got Q = vread (vmem (q_mem Q)) addr (j + ?c)" using Q(4) less.prems(3) sc(1) by (simp add: vread_append)
    then have "\<exists>R. run_ecall (Suc (d - ?c)) (ECALL_write I) Q = Some (Inr R) \<and>
      q_hostlog R = q_hostlog Q @ [Host_write fd (vread (vmem (q_mem Q)) addr n)] \<and> vmem (q_mem R) = vmem (q_mem Q) \<and> got R = [] \<and>
      GetX (q_regs R r) 10 = fst (env_host (q_env Q) (Host_write fd (vread (vmem (q_mem Q)) addr n)) (q_hostlog Q))"
    proof (intro less.IH [of "d - ?c" "j + ?c" Q])
      show "GetX (q_regs Q r) 11 = addr" using less.prems(6) by (simp add: same_caller_GetX [OF Q(3)])
      show "unat (GetX (q_regs Q r) 12 :: u64) = n" using less.prems(7) by (simp add: same_caller_GetX [OF Q(3)])
      show "GetX (q_regs Q r) 10 = fd" using less.prems(8) by (simp add: same_caller_GetX [OF Q(3)])
    qed (use ch less.prems(1,4) Q(2) sc in auto)
    then obtain R where R: "run_ecall (Suc (d - ?c)) (ECALL_write I) Q = Some (Inr R)"
      "q_hostlog R = q_hostlog P @ [Host_write fd (vread ?m addr n)]" "vmem (q_mem R) = ?m" "got R = []"
      "GetX (q_regs R r) 10 = fst (env_host (q_env P) (Host_write fd (vread ?m addr n)) (q_hostlog P))"
      using sc by auto
    have "run_ecall d (ECALL_write I) Q = Some (Inr R)" using run_ecall_mono [OF R(1)] ch by simp
    then have "run_ecall (Suc d) (ECALL_write I) P = Some (Inr R)" using Q(1) by simp
    then show ?thesis using R by blast
  qed
qed

text \<open>
  A \<^verbatim>\<open>write\<close> call is executed at most once for every byte and once more, and then it has sent the host
  exactly the bytes of the caller's buffer, whatever the alignment of its length, has put the
  host's result into a0 and is ready for the next call; memory is unchanged.
\<close>

theorem ECALL_write_sends:
  assumes "io_ready r (2 * n) P" "got P = []" "0 < n \<longrightarrow> mem_accessible addr n (q_mem P)"
    and "GetX (q_regs P r) 11 = addr" "unat (GetX (q_regs P r) 12 :: u64) = n" "GetX (q_regs P r) 10 = (fd :: u32)"
  shows "\<exists>Q. run_ecall (Suc n) (ECALL_write I) P = Some (Inr Q) \<and>
    q_hostlog Q = q_hostlog P @ [Host_write fd (vread (vmem (q_mem P)) addr n)] \<and> vmem (q_mem Q) = vmem (q_mem P) \<and> got Q = [] \<and>
    GetX (q_regs Q r) 10 = fst (env_host (q_env P) (Host_write fd (vread (vmem (q_mem P)) addr n)) (q_hostlog P))"
  using ECALL_write_runs [of n 0 n r 0 P addr fd I] assms by (simp add: vread_def)

text \<open>The processor of the example as it calls \<^verbatim>\<open>write(1, 0x3F010, 7)\<close>.\<close>

definition mem_msg :: RevMem where
  "mem_msg = mem_addi\<lparr>m_nextPage := 1\<rparr>"

definition proc_write :: RevProc where
  "proc_write = (proc_example RevTables_empty)\<lparr>q_RegFile := Some 0, q_mem := mem_msg,
     q_regs := (\<lambda>_. (mk_RevRegFile feature_RV64GC)\<lparr>rf_RV := (\<lambda>_. 0)(10 := 1, 11 := 0x3F010, 12 := 7)\<rparr>)\<rparr>"

lemma all_less_7: "(\<forall>y<7. P y) \<longleftrightarrow> P 0 \<and> P 1 \<and> P 2 \<and> P 3 \<and> P 4 \<and> P 5 \<and> P 6" for P :: "nat \<Rightarrow> bool"
  by (simp add: numeral_eq_Suc All_less_Suc2)

lemma mem_msg_ok: "mem_inv mem_msg" "mem_room 14 mem_msg" "mem_accessible 0x3F010 7 mem_msg"
proof -
  have "tlb_abs (SetTLBSize 8 RevTLB_init) = []" by (simp add: tlb_abs_def SetTLBSize_def RevTLB_init_def)
  then show "mem_inv mem_msg"
    using mem_example_inv(1) by (auto simp: mem_msg_def mem_addi_def mem_example_def RevMem_init_def mem_inv_def tlb_agrees_def pages_ok_def
        split: if_splits)
  show "mem_room 14 mem_msg"
    by (simp add: mem_msg_def mem_addi_def mem_example_def mem_room_def RevMem_init_def RevSegs_init_def AddMemSegAt_def)
  have "\<forall>i<7. isValidVirtAddr (0x3F010 + of_nat i) (m_segs mem_msg)"
    by (simp add: all_less_7 mem_msg_def mem_addi_def mem_example_def isValidVirtAddr_def RevSegs_init_def
      AddMemSegAt_def mk_MemSegment_def seg_contains_def)
  then show "mem_accessible 0x3F010 7 mem_msg"
    by (simp add: mem_accessible_def)
qed


lemma proc_write_call:
  "io_ready 0 14 proc_write" "q_mem proc_write = mem_msg" "got proc_write = []" "q_hostlog proc_write = []"
  "vread (vmem mem_msg) 0x3F010 7 = [0x93, 0, 0x50, 0, 0, 0, 0]"
  "GetX (q_regs proc_write 0) 11 = (0x3F010 :: u64)" "unat (GetX (q_regs proc_write 0) 12 :: u64) = 7"
  "GetX (q_regs proc_write 0) 10 = (1 :: u32)"
proof -
  show "io_ready 0 14 proc_write"
    using mem_msg_ok by (simp add: io_ready_def proc_write_def)
      (simp add: proc_example_def mk_RevProc_def Reset_def hart_regs_def a0_pending_def)
  show "vread (vmem mem_msg) 0x3F010 7 = [0x93, 0, 0x50, 0, 0, 0, 0]"
    by (simp add: vread_def upt_rec vmem_def mem_msg_def mem_addi_def page_paddr_def addrShift_def pageSize_def)
  show "got proc_write = []" "q_hostlog proc_write = []"
    by (simp_all add: got_def proc_write_def proc_example_def mk_RevProc_def Reset_def mk_RevHart_def ecall_absorb_def EcallState_init_def)
  show "q_mem proc_write = mem_msg" by (simp add: proc_write_def)
  show "GetX (q_regs proc_write 0) 11 = (0x3F010 :: u64)" "unat (GetX (q_regs proc_write 0) 12 :: u64) = 7"
    "GetX (q_regs proc_write 0) 10 = (1 :: u32)"
    by (simp_all add: proc_write_def GetX_def is_zero_reg_def mk_RevRegFile_def)
qed

theorem ECALL_write_sends_witness:
  "\<exists>Q. run_ecall 8 (ECALL_write addi_slow) proc_write = Some (Inr Q) \<and>
     q_hostlog Q = [Host_write 1 [0x93, 0, 0x50, 0, 0, 0, 0]]"
  using ECALL_write_sends [of 0 7 proc_write "0x3F010" 1 addi_slow] proc_write_call mem_msg_ok(3) by auto

section \<open>Strings\<close>

lemma io_ready_cur:
  assumes "io_ready r k P"
  shows "cur_hart P = Inr (q_Harts P ! unat (q_HartToExecID P))" "cur_regs P = Inr r" "\<not> a0_pending P"
    "unat (q_HartToExecID P) < length (q_Harts P)" "ha_RegFile (q_Harts P ! unat (q_HartToExecID P)) = Some r"
  using assms by (auto simp: io_ready_def hart_regs_iff cur_hart_def cur_regs_def)

lemma EcallLoadAndParseString_step:
  assumes P: "io_ready r (Suc (Suc k)) P" and g: "got P = [] \<or> last (got P) \<noteq> 0"
    and a: "mem_accessible (a + of_nat (length (got P))) 1 (q_mem P)"
  shows "\<exists>Q. EcallLoadAndParseString a act P = Inr (CONTINUE, Q) \<and> io_ready r k Q \<and> same_caller r P Q \<and>
    got Q = got P @ vread (vmem (q_mem P)) (a + of_nat (length (got P))) 1"
proof -
  note c = io_ready_cur [OF P]
  let ?E = "ecall_absorb (ha_Ecall (q_Harts P ! unat (q_HartToExecID P)))"
  have e: "got P = ec_string ?E" by (simp add: got_def)
  have "\<not> (ec_string ?E \<noteq> [] \<and> last (ec_string ?E) = 0)" using g e by auto
  then show ?thesis
    using ecall_read_step [OF P c(1) refl a] c unfolding e
    by (cases "ec_string ?E = []") (simp_all add: EcallLoadAndParseString_def Let_def)
qed

lemma EcallLoadAndParseString_last:
  assumes P: "io_ready r k P" and g: "got P \<noteq> []" "last (got P) = 0"
    and act: "act (got P) (set_ecall (ecall_absorb (ha_Ecall (q_Harts P ! unat (q_HartToExecID P)))) P) = Inr P2"
      "q_HartToExecID P2 = q_HartToExecID P" "hart_regs (q_HartToExecID P) P2 = Inr r"
  shows "\<exists>Q. EcallLoadAndParseString a act P = Inr (SUCCESS, Q) \<and> q_hostlog Q = q_hostlog P2 \<and>
    vmem (q_mem Q) = vmem (q_mem P2) \<and> got Q = [] \<and> GetX (q_regs Q r) 10 = (GetX (q_regs P2 r) 10 :: u32) \<and>
    ha_Thread (q_Harts Q ! unat (q_HartToExecID P)) = ha_Thread (q_Harts P2 ! unat (q_HartToExecID P))"
proof -
  note p = io_ready_cur [OF P]
  let ?E = "ecall_absorb (ha_Ecall (q_Harts P ! unat (q_HartToExecID P)))"
  have e: "got P = ec_string ?E" by (simp add: got_def)
  define P3 where "P3 = upd_hart (\<lambda>H. H\<lparr>ha_Ecall := (ha_Ecall H)\<lparr>ec_string := [], ec_bytesRead := 0\<rparr>\<rparr>) P2"
  have l: "unat (q_HartToExecID P) < length (q_Harts P2)" "ha_RegFile (q_Harts P2 ! unat (q_HartToExecID P)) = Some r"
    using act(3) by (auto simp: hart_regs_iff)
  have hr: "hart_regs (q_HartToExecID P3) P3 = Inr r"
    using l act(2) by (simp add: P3_def upd_hart_def hart_regs_iff)
  have x: "EcallLoadAndParseString a act P = res_bind (DependencySet_hart (q_HartToExecID P3) 10 False False P3) (\<lambda>P4. Inr (SUCCESS, P4))"
    using p(1-3) g act(1) e by (simp add: EcallLoadAndParseString_def Let_def P3_def)
  have "got P3 = []" "q_hostlog P3 = q_hostlog P2" "vmem (q_mem P3) = vmem (q_mem P2)" "q_regs P3 = q_regs P2"
    "ha_Thread (q_Harts P3 ! unat (q_HartToExecID P)) = ha_Thread (q_Harts P2 ! unat (q_HartToExecID P))"
    using l act(2) by (simp_all add: P3_def got_def upd_hart_def ecall_absorb_def)
  then show ?thesis
    unfolding x DependencySet_hart_a0 [OF hr] by (simp add: got_def)
qed

text \<open>
  Collecting a string: while its terminator is missing the call goes on. The call may look at its
  registers again each time, as the handlers do.
\<close>

lemma string_collects:
  assumes f: "\<And>Q. io_ready r 0 Q \<Longrightarrow> same_caller r P Q \<Longrightarrow> f Q = EcallLoadAndParseString a act Q"
    and "length t = j + d" "io_ready r (2 * d + k) P" "got P = take j t"
    and s: "t = s @ [0]" "0 \<notin> set s" "vread (vmem (q_mem P)) a (length t) = t" "mem_accessible a (length t) (q_mem P)"
  shows "\<exists>Q. (\<forall>n. run_ecall (d + n) f P = run_ecall n f Q) \<and> io_ready r k Q \<and> same_caller r P Q \<and> got Q = t"
  using assms
proof (induction d arbitrary: j P)
  case 0
  then show ?case by (intro exI [of _ P]) (simp add: same_caller_def)
next
  case (Suc d)
  let ?m = "vmem (q_mem P)"
  have j: "length (got P) = j" "j < length t" using Suc.prems(2,4) by auto
  then have ts: "take j t = take j s" using s(1) by simp
  then have "got P = [] \<or> last (got P) \<noteq> 0"
    using Suc.prems(4,6) by (metis last_in_set in_set_takeD)
  moreover have "mem_accessible (a + of_nat (length (got P))) 1 (q_mem P)"
    using mem_accessible_sub [OF Suc.prems(8), of j 1] j by simp
  moreover have ir: "io_ready r (Suc (Suc (2 * d + k))) P" using Suc.prems(3) by simp
  ultimately obtain Q where Q: "EcallLoadAndParseString a act P = Inr (CONTINUE, Q)" "io_ready r (2 * d + k) Q" "same_caller r P Q"
    "got Q = got P @ vread ?m (a + of_nat j) 1"
    using EcallLoadAndParseString_step [of r "2 * d + k" P a act] j by auto
  have "io_ready r 0 P" using ir by (auto simp: io_ready_def mem_room_def)
  then have fP: "f P = Inr (CONTINUE, Q)" using Suc.prems(1) [of P] Q(1) by (simp add: same_caller_def)
  have v: "vmem (q_mem Q) = ?m" "mem_accessible a (length t) (q_mem Q)" using Q(3) Suc.prems(8) by (simp_all add: same_caller_def)
  have "vread ?m a (Suc j) = take (Suc j) (vread ?m a (length t))" using j by (simp add: vread_def take_map)
  moreover have "vread ?m a (Suc j) = vread ?m a j @ vread ?m (a + of_nat j) 1" using vread_append [of ?m a j 1] by simp
  moreover have "vread ?m a j = take j (vread ?m a (length t))" using j by (simp add: vread_def take_map)
  ultimately have gQ: "got Q = take (Suc j) t" using Q(4) Suc.prems(4,7) by simp
  have "\<exists>R. (\<forall>n. run_ecall (d + n) f Q = run_ecall n f R) \<and> io_ready r k R \<and> same_caller r Q R \<and> got R = t"
    by (rule Suc.IH [OF _ _ Q(2) gQ s(1,2)])
       (use Suc.prems(1,2,7) Q(3) v same_caller_trans in auto)
  then obtain R where "\<forall>n. run_ecall (d + n) f Q = run_ecall n f R" "io_ready r k R" "same_caller r Q R" "got R = t" by blast
  then show ?case using fP same_caller_trans [OF Q(3)] by (intro exI [of _ R]) simp
qed

lemma c_str_terminated: "0 \<notin> set s \<Longrightarrow> c_str (s @ [0]) = s"
  unfolding c_str_def by (induction s) auto

lemma path_call:
  assumes f: "\<And>Q. io_ready r 0 Q \<Longrightarrow> same_caller r P Q \<Longrightarrow> f Q = EcallLoadAndParseString path act Q"
    and P: "io_ready r (2 * Suc (length s)) P" "got P = []" "0 \<notin> set s"
      "vread (vmem (q_mem P)) path (Suc (length s)) = s @ [0]" "mem_accessible path (Suc (length s)) (q_mem P)"
    and act: "\<And>R. same_caller r P R \<Longrightarrow> hart_regs (q_HartToExecID R) R = Inr r \<Longrightarrow>
      \<exists>R'. act (s @ [0]) R = Inr R' \<and> q_HartToExecID R' = q_HartToExecID R \<and> hart_regs (q_HartToExecID R) R' = Inr r \<and>
        q_hostlog R' = log \<and> vmem (q_mem R') = vmem (q_mem P) \<and> GetX (q_regs R' r) 10 = (rc :: u32) \<and>
        ha_Thread (q_Harts R' ! unat (q_HartToExecID P)) = T"
  shows "\<exists>Q. run_ecall (length s + 2) f P = Some (Inr Q) \<and> q_hostlog Q = log \<and> vmem (q_mem Q) = vmem (q_mem P) \<and> got Q = [] \<and>
    GetX (q_regs Q r) 10 = rc \<and> ha_Thread (q_Harts Q ! unat (q_HartToExecID P)) = T"
proof -
  have "\<exists>Q. (\<forall>n. run_ecall (Suc (length s) + n) f P = run_ecall n f Q) \<and> io_ready r 0 Q \<and> same_caller r P Q \<and> got Q = s @ [0]"
    by (rule string_collects [where j = 0 and s = s, OF f]) (use P in simp_all)
  then obtain Q where Q: "\<And>n. run_ecall (Suc (length s) + n) f P = run_ecall n f Q" "io_ready r 0 Q" "same_caller r P Q" "got Q = s @ [0]"
    by blast
  let ?R = "set_ecall (ecall_absorb (ha_Ecall (q_Harts Q ! unat (q_HartToExecID Q)))) Q"
  have l: "unat (q_HartToExecID Q) < length (q_Harts Q)" "ha_RegFile (q_Harts Q ! unat (q_HartToExecID Q)) = Some r"
    using io_ready_cur [OF Q(2)] by auto
  have h: "q_HartToExecID Q = q_HartToExecID P" using Q(3) by (simp add: same_caller_def)
  have R: "same_caller r P ?R" "hart_regs (q_HartToExecID ?R) ?R = Inr r" "q_HartToExecID ?R = q_HartToExecID Q"
    using Q(3) l h by (simp_all add: same_caller_def set_ecall_def upd_hart_def hart_regs_iff)
  obtain R' where R': "act (got Q) ?R = Inr R'" "q_HartToExecID R' = q_HartToExecID Q" "hart_regs (q_HartToExecID Q) R' = Inr r"
    "q_hostlog R' = log" "vmem (q_mem R') = vmem (q_mem P)" "GetX (q_regs R' r) 10 = rc" "ha_Thread (q_Harts R' ! unat (q_HartToExecID P)) = T"
    using act [OF R(1,2)] R(3) Q(4) by auto
  have "got Q \<noteq> []" "last (got Q) = 0" using Q(4) by simp_all
  from EcallLoadAndParseString_last [where act = act and a = path, OF Q(2) this R'(1-3)] h R'(4-7) obtain V where
    V: "EcallLoadAndParseString path act Q = Inr (SUCCESS, V)" "q_hostlog V = log" "vmem (q_mem V) = vmem (q_mem P)" "got V = []"
      "GetX (q_regs V r) 10 = rc" "ha_Thread (q_Harts V ! unat (q_HartToExecID P)) = T"
    by auto
  have "run_ecall (length s + 2) f P = Some (Inr V)" using Q(1) [of 1] V(1) f [OF Q(2,3)] by (simp add: add.commute)
  then show ?thesis using V by blast
qed

text \<open>A call that passes its path to the host once and returns what the host returns.\<close>

lemma simple_path_action:
  assumes "0 \<notin> set s" "same_caller r P R" "hart_regs (q_HartToExecID R) R = Inr r"
  shows "\<exists>R'. (let ((rc, _), Q1) = host_call (c (c_str (s @ [0]))) R in Inr (set_a0_int r rc Q1)) = Inr R' \<and>
    q_HartToExecID R' = q_HartToExecID R \<and> hart_regs (q_HartToExecID R) R' = Inr r \<and> q_hostlog R' = q_hostlog P @ [c s] \<and>
    vmem (q_mem R') = vmem (q_mem P) \<and> GetX (q_regs R' r) 10 = fst (env_host (q_env P) (c s) (q_hostlog P)) \<and>
    ha_Thread (q_Harts R' ! unat (q_HartToExecID P)) = ha_Thread (q_Harts P ! unat (q_HartToExecID P))"
  using assms by (simp add: host_call_def c_str_terminated case_prod_beta same_caller_def set_a0_int_def upd_regs_def hart_regs_iff GetX_SetX_s)

lemma openat_path_action:
  assumes s: "0 \<notin> set s" "same_caller r P R" "hart_regs (q_HartToExecID R) R = Inr r"
    and T: "ha_Thread (q_Harts P ! unat (q_HartToExecID P)) = Some T"
    and d: "dirfd = fst (env_host (q_env P) (Host_open_cwd mode) (q_hostlog P))"
      "fd = fst (env_host (q_env P) (Host_openat dirfd s mode) (q_hostlog P @ [Host_open_cwd mode]))"
  shows "\<exists>R'. openat_action mode (s @ [0]) R = Inr R' \<and> q_HartToExecID R' = q_HartToExecID R \<and> hart_regs (q_HartToExecID R) R' = Inr r \<and>
    q_hostlog R' = q_hostlog P @ [Host_open_cwd mode, Host_openat dirfd s mode] \<and> vmem (q_mem R') = vmem (q_mem P) \<and>
    GetX (q_regs R' r) 10 = fd \<and> ha_Thread (q_Harts R' ! unat (q_HartToExecID P)) = Some (T\<lparr>th_fildes := insert (sint fd) (th_fildes T)\<rparr>)"
proof -
  let ?h = "unat (q_HartToExecID P)"
  have h: "?h < length (q_Harts R)" "ha_RegFile (q_Harts R ! ?h) = Some r" "ha_Thread (q_Harts R ! ?h) = Some T"
    "q_HartToExecID R = q_HartToExecID P" "q_hostlog R = q_hostlog P" "q_env R = q_env P" "vmem (q_mem R) = vmem (q_mem P)"
    using s(2,3) T by (auto simp: hart_regs_iff same_caller_def)
  then show ?thesis
    using s(1) by (simp add: d openat_action_def host_call_def c_str_terminated case_prod_beta cur_hart_def
        set_a0_int_def upd_regs_def upd_hart_def hart_regs_iff GetX_SetX_s)
qed

text \<open>
  C23: The calls that read a path, \<^verbatim>\<open>chdir\<close>, \<^verbatim>\<open>mkdirat\<close> and \<^verbatim>\<open>openat\<close>, finish on a path of n characters at the
  (n + 2)nd execution. The host is then called with exactly the path in the caller's memory, without its
  terminator, and a0 holds the host's result; \<^verbatim>\<open>openat\<close> opens the current directory first, whatever
  directory the caller gave, and adds the new descriptor to the thread's. The caller's memory is as before.
\<close>

theorem path_calls:
  assumes P: "io_ready r (2 * Suc (length s)) P" "got P = []" "0 \<notin> set s"
      "vread (vmem (q_mem P)) path (Suc (length s)) = s @ [0]" "mem_accessible path (Suc (length s)) (q_mem P)"
    and d: "dirfd = fst (env_host (q_env P) (Host_open_cwd (GetX (q_regs P r) 13)) (q_hostlog P))"
      "fd = fst (env_host (q_env P) (Host_openat dirfd s (GetX (q_regs P r) 13)) (q_hostlog P @ [Host_open_cwd (GetX (q_regs P r) 13)]))"
  shows "(GetX (q_regs P r) 10 = path \<longrightarrow>
      (\<exists>Q. run_ecall (length s + 2) (ECALL_chdir I) P = Some (Inr Q) \<and> q_hostlog Q = q_hostlog P @ [Host_chdir s] \<and>
        vmem (q_mem Q) = vmem (q_mem P) \<and> GetX (q_regs Q r) 10 = fst (env_host (q_env P) (Host_chdir s) (q_hostlog P)))) \<and>
    (GetX (q_regs P r) 11 = path \<longrightarrow>
      (let c = Host_mkdirat (GetX (q_regs P r) 10) s (GetX (q_regs P r) 12)
       in \<exists>Q. run_ecall (length s + 2) (ECALL_mkdirat I) P = Some (Inr Q) \<and> q_hostlog Q = q_hostlog P @ [c] \<and>
        vmem (q_mem Q) = vmem (q_mem P) \<and> GetX (q_regs Q r) 10 = fst (env_host (q_env P) c (q_hostlog P)))) \<and>
    (GetX (q_regs P r) 11 = path \<and> ha_Thread (q_Harts P ! unat (q_HartToExecID P)) = Some T \<longrightarrow>
      (\<exists>Q. run_ecall (length s + 2) (ECALL_openat I) P = Some (Inr Q) \<and>
        q_hostlog Q = q_hostlog P @ [Host_open_cwd (GetX (q_regs P r) 13), Host_openat dirfd s (GetX (q_regs P r) 13)] \<and>
        vmem (q_mem Q) = vmem (q_mem P) \<and> GetX (q_regs Q r) 10 = fd \<and>
        ha_Thread (q_Harts Q ! unat (q_HartToExecID P)) = Some (T\<lparr>th_fildes := insert (sint fd) (th_fildes T)\<rparr>)))"
proof (intro conjI impI)
  assume x: "GetX (q_regs P r) 10 = path"
  let ?act = "\<lambda>s Q. let ((rc, _), Q1) = host_call (Host_chdir (c_str s)) Q in Inr (set_a0_int r rc Q1)"
  have "ECALL_chdir I Q = EcallLoadAndParseString path ?act Q"
    if "io_ready r 0 Q" "same_caller r P Q" for Q
    using io_ready_cur(2) [OF that(1)] x by (simp add: ECALL_chdir_def same_caller_GetX [OF that(2)])
  from path_call [where act = ?act, OF this P simple_path_action [where c = Host_chdir and r = r and P = P, OF P(3)]]
  show "\<exists>Q. run_ecall (length s + 2) (ECALL_chdir I) P = Some (Inr Q) \<and> q_hostlog Q = q_hostlog P @ [Host_chdir s] \<and>
      vmem (q_mem Q) = vmem (q_mem P) \<and> GetX (q_regs Q r) 10 = fst (env_host (q_env P) (Host_chdir s) (q_hostlog P))" by blast
next
  assume x: "GetX (q_regs P r) 11 = path"
  let ?c = "\<lambda>s. Host_mkdirat (GetX (q_regs P r) 10) s (GetX (q_regs P r) 12)"
  let ?act = "\<lambda>s Q. let ((rc, _), Q1) = host_call (?c (c_str s)) Q in Inr (set_a0_int r rc Q1)"
  have "ECALL_mkdirat I Q = EcallLoadAndParseString path ?act Q"
    if "io_ready r 0 Q" "same_caller r P Q" for Q
    using io_ready_cur(2) [OF that(1)] x by (simp add: ECALL_mkdirat_def same_caller_GetX [OF that(2)])
  from path_call [where act = ?act, OF this P simple_path_action [where c = ?c and r = r and P = P, OF P(3)]]
  show "let c = ?c s in \<exists>Q. run_ecall (length s + 2) (ECALL_mkdirat I) P = Some (Inr Q) \<and> q_hostlog Q = q_hostlog P @ [c] \<and>
      vmem (q_mem Q) = vmem (q_mem P) \<and> GetX (q_regs Q r) 10 = fst (env_host (q_env P) c (q_hostlog P))" unfolding Let_def by blast
next
  assume x: "GetX (q_regs P r) 11 = path \<and> ha_Thread (q_Harts P ! unat (q_HartToExecID P)) = Some T"
  let ?m = "GetX (q_regs P r) 13 :: u32"
  have "ECALL_openat I Q = EcallLoadAndParseString path (openat_action ?m) Q" if "io_ready r 0 Q" "same_caller r P Q" for Q
    using io_ready_cur(2) [OF that(1)] x by (simp add: ECALL_openat_def same_caller_GetX [OF that(2)])
  from path_call [where act = "openat_action ?m", OF this P openat_path_action [where r = r and P = P, OF P(3) _ _ conjunct2 [OF x] d]]
  show "\<exists>Q. run_ecall (length s + 2) (ECALL_openat I) P = Some (Inr Q) \<and> q_hostlog Q = q_hostlog P @ [Host_open_cwd ?m, Host_openat dirfd s ?m] \<and>
      vmem (q_mem Q) = vmem (q_mem P) \<and> GetX (q_regs Q r) 10 = fd \<and>
      ha_Thread (q_Harts Q ! unat (q_HartToExecID P)) = Some (T\<lparr>th_fildes := insert (sint fd) (th_fildes T)\<rparr>)" by blast
qed

text \<open>The example with the path \<open>P\<close> at 0x3F012.\<close>

theorem path_calls_witness:
  "\<exists>Q. run_ecall 3 (ECALL_chdir addi_slow) (proc_write\<lparr>q_regs := (\<lambda>_. SetX_u 10 (0x3F012 :: u64) (q_regs proc_write 0))\<rparr>) = Some (Inr Q) \<and>
     q_hostlog Q = [Host_chdir [0x50]]"
proof -
  let ?P = "proc_write\<lparr>q_regs := (\<lambda>_. SetX_u 10 (0x3F012 :: u64) (q_regs proc_write 0))\<rparr>"
  have r: "io_ready 0 4 ?P"
    using mem_msg_ok by (simp add: io_ready_def proc_write_def mem_room_def) 
      (simp add: proc_example_def mk_RevProc_def Reset_def hart_regs_def a0_pending_def)
  have b: "vread (vmem mem_msg) 0x3F012 2 = [0x50, 0]"
    by (simp add: vread_def upt_rec vmem_def mem_msg_def mem_addi_def page_paddr_def addrShift_def pageSize_def)
  have g: "got ?P = []" "q_hostlog ?P = []"
    by (simp_all add: got_def proc_write_def proc_example_def mk_RevProc_def Reset_def mk_RevHart_def ecall_absorb_def EcallState_init_def)
  have m: "q_mem ?P = mem_msg" by (simp add: proc_write_def)
  have x: "GetX (q_regs ?P 0) 10 = (0x3F012 :: u64)"
    by (simp add: proc_write_def GetX_def SetX_u_def is_zero_reg_def mk_RevRegFile_def)
  have a: "mem_accessible 0x3F012 2 mem_msg" using mem_accessible_sub [OF mem_msg_ok(3), of 2 2] by simp
  have l: "2 * Suc (length [0x50 :: u8]) = 4" "Suc (length [0x50 :: u8]) = 2" "length [0x50 :: u8] + 2 = 3" by simp_all
  show ?thesis using path_calls [of 0 "[0x50]" ?P "0x3F012" _ _ addi_slow, unfolded l, OF _ _ _ _ _ refl refl] r g x m b a by auto
qed

end
