(* ===== verification/Rev_Threads.thy ===== *)
theory Rev_Threads
  imports Rev_SysCalls
begin

text \<open>
  Who owns a register file. A thread owns one while it waits, the hart it runs on has it while it
  runs, and a processor holds the threads that have changed their state until the CPU takes them.
  Whatever a processor does, register files only move between these places, and new ones come with
  new threads.
\<close>

section \<open>Owners of register files\<close>

definition thread_count :: "nat \<Rightarrow> RevThread list \<Rightarrow> nat" where
  "thread_count r Ts = length (filter (\<lambda>T. th_VirtRegState T = Some r) Ts)"

definition hart_count :: "nat \<Rightarrow> RevHart list \<Rightarrow> nat" where
  "hart_count r Hs = length (filter (\<lambda>H. ha_RegFile H = Some r) Hs)"

definition owns :: "nat \<Rightarrow> RevProc \<Rightarrow> nat" where
  "owns r P = hart_count r (q_Harts P) + thread_count r (q_ThreadsThatChangedState P)"

lemma thread_count_simps [simp]:
  "thread_count r [] = 0" "thread_count r (T # Ts) = (if th_VirtRegState T = Some r then 1 else 0) + thread_count r Ts"
  "thread_count r (Ts @ Us) = thread_count r Ts + thread_count r Us"
  by (simp_all add: thread_count_def)

lemma hart_count_views: "map ha_RegFile Hs = map ha_RegFile Ks \<Longrightarrow> hart_count r Hs = hart_count r Ks"
proof -
  have "hart_count r Hs = length (filter (\<lambda>v. v = Some r) (map ha_RegFile Hs))" for Hs
    by (simp add: hart_count_def filter_map o_def)
  then show "map ha_RegFile Hs = map ha_RegFile Ks \<Longrightarrow> hart_count r Hs = hart_count r Ks" by metis
qed

lemma hart_count_update:
  assumes "i < length Hs"
  shows "hart_count r (Hs[i := H]) + (if ha_RegFile (Hs ! i) = Some r then 1 else 0) =
    hart_count r Hs + (if ha_RegFile H = Some r then 1 else 0)"
proof -
  have e: "Hs = take i Hs @ Hs ! i # drop (Suc i) Hs" using assms by (rule id_take_nth_drop)
  have u: "Hs[i := H] = take i Hs @ H # drop (Suc i) Hs" using assms by (rule upd_conv_take_nth_drop)
  have f: "hart_count r (A @ K # B) = hart_count r A + hart_count r B + (if ha_RegFile K = Some r then 1 else 0)" for A K B
    by (simp add: hart_count_def)
  have "hart_count r Hs = hart_count r (take i Hs) + hart_count r (drop (Suc i) Hs) + (if ha_RegFile (Hs ! i) = Some r then 1 else 0)"
    by (subst e) (rule f)
  then show ?thesis unfolding u f by simp
qed

text \<open>A thread that has changed its state, and what may happen to the owners on one processor.\<close>

definition changed_ok :: "RevThread \<Rightarrow> bool" where
  "changed_ok T \<longleftrightarrow> th_VirtRegState T \<noteq> None \<and> th_State T \<in> {START, BLOCKED, DONE}"

definition moves :: "RevProc \<Rightarrow> RevProc \<Rightarrow> bool" where
  "moves P Q \<longleftrightarrow> q_nregs P \<le> q_nregs Q \<and>
     (\<forall>r. owns r Q = owns r P + (if q_nregs P \<le> r \<and> r < q_nregs Q then 1 else 0)) \<and>
     (\<exists>Ts. q_ThreadsThatChangedState Q = q_ThreadsThatChangedState P @ Ts \<and>
        (\<forall>T\<in>set Ts. changed_ok T))"

lemma moves_trans:
  assumes "moves P Q" "moves Q R" shows "moves P R"
proof -
  obtain Ts Us where "q_ThreadsThatChangedState R = q_ThreadsThatChangedState P @ Ts @ Us"
    "\<forall>T\<in>set (Ts @ Us). changed_ok T"
    using assms unfolding moves_def by (metis append.assoc set_append Un_iff)
  then show ?thesis using assms unfolding moves_def by auto
qed

lemma moves_still:
  assumes "map ha_RegFile (q_Harts Q) = map ha_RegFile (q_Harts P)" "q_ThreadsThatChangedState Q = q_ThreadsThatChangedState P"
    and "q_nregs Q = q_nregs P"
  shows "moves P Q"
  using assms hart_count_views [OF assms(1)] by (auto simp: moves_def owns_def)

lemma moves_refl [simp]: "moves P P" by (rule moves_still) simp_all

lemma moves_same: "harts_same P Q \<Longrightarrow> moves P Q"
  by (rule moves_still) (simp_all add: harts_same_def)

lemma moves_like: "proc_like P Q \<Longrightarrow> moves P Q"
proof (rule moves_still)
  assume "proc_like P Q"
  then have "map fst (map hart_view (q_Harts Q)) = map fst (map hart_view (q_Harts P))" by (simp add: proc_like_def)
  then show "map ha_RegFile (q_Harts Q) = map ha_RegFile (q_Harts P)" by (simp add: hart_view_def o_def)
qed (simp_all add: proc_like_def)

text \<open>A thread that leaves its hart, with a new state.\<close>

lemma moves_pop:
  assumes inv: "proc_inv P" and p: "PopThreadFromHart h P = Inr (T, P1)" and s: "s \<in> {START, BLOCKED, DONE}"
    and Q: "q_Harts Q = q_Harts P1" "q_ThreadsThatChangedState Q = q_ThreadsThatChangedState P @ [T']" "q_nregs Q = q_nregs P"
      "th_VirtRegState T' = th_VirtRegState T" "th_State T' = s"
  shows "moves P Q"
proof -
  let ?H = "q_Harts P ! unat h"
  have h: "unat h < length (q_Harts P)" using p inv by (auto simp: PopThreadFromHart_def proc_inv_def word_less_nat_alt not_le split: if_splits)
  obtain T0 where T: "ha_Thread ?H = Some T0" "T = T0\<lparr>th_VirtRegState := ha_RegFile ?H\<rparr>"
    "q_Harts P1 = (q_Harts P)[unat h := ?H\<lparr>ha_Thread := None, ha_RegFile := None\<rparr>]"
    using p by (auto simp: PopThreadFromHart_def hart_PopThread_def res_bind_eq_Inr split: if_splits option.splits)
  have "hart_ok P (unat h)" using inv h by (simp add: proc_inv_def)
  then have "ha_RegFile ?H \<noteq> None" using T(1) by (simp add: hart_ok_def Let_def)
  moreover have "owns r Q = owns r P" for r
    using hart_count_update [OF h, of r "?H\<lparr>ha_Thread := None, ha_RegFile := None\<rparr>"] Q T by (auto simp: owns_def split: if_splits)
  ultimately show ?thesis using Q s T(2) by (auto simp: moves_def changed_ok_def)
qed

section \<open>Clock ticks\<close>

lemma retire_thread_moves:
  assumes "proc_inv P" "retire_thread h h P = Inr Q" shows "moves P Q"
proof -
  obtain T P1 where p: "PopThreadFromHart h P = Inr (T, P1)"
    and Q: "Q = AddThreadsThatChangedState (SetState DONE T)
       (P1\<lparr>q_HartsClearToExecute := q_HartsClearToExecute P1 - {unat h},
           q_HartsClearToDecode := q_HartsClearToDecode P1 - {unat h}, q_IdleHarts := insert (unat h) (q_IdleHarts P1)\<rparr>)"
    using assms(2) by (auto simp: retire_thread_def res_bind_eq_Inr)
  have "q_ThreadsThatChangedState P1 = q_ThreadsThatChangedState P" "q_nregs P1 = q_nregs P"
    using p by (auto simp: PopThreadFromHart_def res_bind_eq_Inr split: if_splits)
  then show ?thesis by (intro moves_pop [OF assms(1) p, of DONE _ "SetState DONE T"]) (simp_all add: Q AddThreadsThatChangedState_def SetState_def)
qed

lemma tick_complete_moves: "sched_inv P \<Longrightarrow> tick_complete r P = Inr Q \<Longrightarrow> moves P Q"
  using tick_complete_cases retire_thread_moves by (fastforce simp: sched_inv_def)

text \<open>What a clock tick relies on from the system calls, beyond the invariant.\<close>

locale ecall_threads = ecall_table +
  assumes ecall_moves: "Ecalls n = Some f \<Longrightarrow> sched_inv P \<Longrightarrow> f I P = Inr (s, Q) \<Longrightarrow> moves P Q"
begin

lemma tick_trap_moves:
  assumes "sched_inv P" "tick_trap Ecalls X I r P = Inr Q"
  shows "moves P Q"
proof -
  obtain P1 P2 where x1: "(if rf_SCAUSE (q_regs P r) = ECALL_USER_MODE \<or> ucast (rf_SCAUSE (q_regs P r)) = (ucast ECALL_USER_MODE :: u32)
      then ExecEcall Ecalls I r P else Inr P) = Inr P1"
    and x2: "(if q_ALUFault P1 then InjectALUFault X I r P1 else Inr P1) = Inr P2"
    and x3: "Q = (if q_SingleStep P2 then P2\<lparr>q_SingleStep := False, q_Halted := True\<rparr> else P2)"
    using assms(2) by (auto simp only: tick_trap_def Let_def res_bind_eq_Inr sum.inject)
  have "moves P P1"
  proof (cases "P1 = P")
    case False
    then have e: "ExecEcall Ecalls I r P = Inr P1" using x1 by (simp split: if_splits)
    then obtain n f s P' where f: "Ecalls n = Some f" "f I P = Inr (s, P')" "ids_same P' P1"
      by (auto simp: ExecEcall_def res_bind_eq_Inr Let_def ids_defs split: option.splits)
    then show ?thesis using ecall_moves [OF f(1) assms(1) f(2)] moves_same moves_trans by (auto simp: ids_same_def)
  qed simp
  moreover have "moves P1 P2" using x2 InjectALUFault_ids moves_same by (auto simp: ids_same_def split: if_splits)
  moreover have "moves P2 Q" using x3 by (intro moves_still) simp_all
  ultimately show ?thesis using moves_trans by blast
qed

lemma tick_execute_moves:
  assumes "sched_inv P" "tick_execute Ecalls I r P = Inr Q"
  shows "moves P Q"
proof -
  obtain X P4 where "ids_same P P4" "tick_trap Ecalls X I r P4 = Inr Q" using tick_execute_trap [OF assms(2)] by blast
  then show ?thesis using tick_trap_moves sched_inv_frame moves_same moves_trans assms(1) unfolding ids_same_def by blast
qed

lemma ClockTick_moves:
  assumes "sched_inv P" "ClockTick cp Ecalls P = Inr (b, Q)"
  shows "moves P Q"
proof -
  obtain P1 I P2 r P3 P4 where s: "ids_same P P1" "P2 = P1 \<or> tick_decode cp P1 = Inr (I, P2)"
    "ids_same P2 P3 \<or> tick_execute Ecalls I r P2 = Inr P3" "tick_retire r P3 = Inr P4" "tick_complete r P4 = Inr Q"
    using ClockTick_stages [OF assms(2)] by metis
  have i1: "sched_inv P1" using s(1) assms(1) sched_inv_frame by blast
  then have i2: "sched_inv P2" using s(2) tick_decode_inv by blast
  then have i3: "sched_inv P3" using s(3) tick_execute_inv sched_inv_frame by blast
  have i4: "sched_inv P4" using tick_retire_ids [OF s(4)] sched_inv_frame i3 by blast
  have "moves P P1" "moves P1 P2" "moves P2 P3" "moves P3 P4"
    using s(1-3) tick_retire_ids [OF s(4)] tick_decode_same(1) tick_execute_moves [OF i2] moves_same by (auto simp: ids_same_def)
  moreover have "moves P4 Q" by (rule tick_complete_moves [OF i4 s(5)])
  ultimately show ?thesis using moves_trans by blast
qed

end

section \<open>The system calls\<close>

lemma create_moves: "ECALL_pthread_create I P = Inr (s, Q) \<Longrightarrow> moves P Q"
proof -
  assume "ECALL_pthread_create I P = Inr (s, Q)"
  then obtain T where T: "th_VirtRegState T = Some (q_nregs P)" "th_State T = START"
    "proc_like (AddThreadsThatChangedState T (P\<lparr>q_nregs := Suc (q_nregs P)\<rparr>)) Q" using pthread_create_adds by blast
  have "moves P (AddThreadsThatChangedState T (P\<lparr>q_nregs := Suc (q_nregs P)\<rparr>))"
    using T(1,2) by (auto simp: moves_def changed_ok_def AddThreadsThatChangedState_def owns_def)
  then show "moves P Q" using moves_like [OF T(3)] moves_trans by blast
qed

lemma join_moves: "sched_inv P \<Longrightarrow> ECALL_pthread_join I P = Inr (s, Q) \<Longrightarrow> moves P Q"
proof (cases "Q = P")
  case False
  assume inv: "sched_inv P" and e: "ECALL_pthread_join I P = Inr (s, Q)"
  let ?h = "q_HartToExecID P"
  obtain T P1 w where p: "PopThreadFromHart ?h P = Inr (T, P1)"
    and Q: "Q = AddThreadsThatChangedState ((SetState BLOCKED T)\<lparr>th_WaitingToJoinTID := w\<rparr>) P1"
    using e False by (auto simp: ECALL_pthread_join_def res_bind_eq_Inr Let_def split: if_splits)
  have "q_ThreadsThatChangedState P1 = q_ThreadsThatChangedState P" "q_nregs P1 = q_nregs P"
    using p by (auto simp: PopThreadFromHart_def res_bind_eq_Inr split: if_splits)
  then show ?thesis
    using inv by (intro moves_pop [OF _ p, of BLOCKED _ "(SetState BLOCKED T)\<lparr>th_WaitingToJoinTID := w\<rparr>"])
      (simp_all add: sched_inv_def Q AddThreadsThatChangedState_def SetState_def)
qed simp

definition moving :: "ecall_fun \<Rightarrow> bool" where
  "moving f \<longleftrightarrow> (\<forall>I P s Q. sched_inv P \<longrightarrow> f I P = Inr (s, Q) \<longrightarrow> moves P Q)"

lemma moving_if_like: "keeps_like f \<Longrightarrow> moving f"
  unfolding moving_def keeps_like_def using moves_like by blast

lemma moving_threads: "moving ECALL_pthread_create" "moving ECALL_pthread_join"
  unfolding moving_def using create_moves join_moves by blast+

lemma EcallTable_moving: "list_all (\<lambda>(n, f). moving f) EcallTable"
  unfolding EcallTable_def
  by (simp add: ecall_stub_defs moving_if_like [OF keeps_handlers(1)] moving_threads keeps_handlers [THEN moving_if_like])

interpretation ethreads: ecall_threads Ecalls
proof
  fix n f P I s Q
  assume "Ecalls n = Some f" and P: "sched_inv P" "f I P = Inr (s, Q)"
  then have "(n, f) \<in> set EcallTable" by (simp add: Ecalls_def map_of_SomeD)
  then have "moving f" using EcallTable_moving by (auto simp: list_all_iff)
  then show "moves P Q" using P by (auto simp: moving_def)
qed

end
