(* ===== verification/Rev_Opts.thy ===== *)
theory Rev_Opts
  imports Rev_Decode
begin

text \<open>
  The options of \<^verbatim>\<open>src/RevOpts.cc\<close>: what the configuration of a simulation gives each core, read from
  strings of the form \<^verbatim>\<open>core:value\<close>. The numeric conversions of the C++ library throw on malformed or
  too large numbers and nobody catches the exception, so that it ends the program.
\<close>

section \<open>Numbers in strings\<close>

text \<open>\<^verbatim>\<open>strtol\<close> and \<^verbatim>\<open>strtoul\<close> in the C locale: white space, a sign, a prefix that gives the base if it is 0.\<close>

definition is_space :: "char \<Rightarrow> bool" where
  "is_space c = (c = CHR '' '' \<or> (9 \<le> (of_char c :: nat) \<and> (of_char c :: nat) \<le> 13))"

definition digit_val :: "char \<Rightarrow> nat option" where
  "digit_val c =
     (let n = of_char c :: nat in
      if 48 \<le> n \<and> n \<le> 57 then Some (n - 48)
      else if 97 \<le> n \<and> n \<le> 122 then Some (n - 87)
      else if 65 \<le> n \<and> n \<le> 90 then Some (n - 55)
      else None)"

definition is_digit :: "nat \<Rightarrow> char \<Rightarrow> bool" where
  "is_digit base c = (case digit_val c of None \<Rightarrow> False | Some d \<Rightarrow> d < base)"

definition digits_val :: "nat \<Rightarrow> string \<Rightarrow> nat" where
  "digits_val base s = foldl (\<lambda>a c. a * base + the (digit_val c)) 0 (takeWhile (is_digit base) s)"

definition hex_prefix :: "string \<Rightarrow> bool" where
  "hex_prefix s = (case s of z # x # d # _ \<Rightarrow> z = CHR ''0'' \<and> (x = CHR ''x'' \<or> x = CHR ''X'') \<and> is_digit 16 d | _ \<Rightarrow> False)"

definition number_at :: "nat \<Rightarrow> string \<Rightarrow> nat option" where
  "number_at base s =
     (let (b, t) = (if base = 0 \<and> hex_prefix s then (16, drop 2 s)
                    else if base = 0 then (if s \<noteq> [] \<and> hd s = CHR ''0'' then 8 else 10, s)
                    else (base, s))
      in if t \<noteq> [] \<and> is_digit b (hd t) then Some (digits_val b t) else None)"

definition signed_number :: "nat \<Rightarrow> string \<Rightarrow> int option" where
  "signed_number base s =
     (let t = dropWhile is_space s in
      if t \<noteq> [] \<and> hd t = CHR ''-'' then map_option (\<lambda>n. - int n) (number_at base (tl t))
      else if t \<noteq> [] \<and> hd t = CHR ''+'' then map_option int (number_at base (tl t))
      else map_option int (number_at base t))"

definition stoi :: "nat \<Rightarrow> string \<Rightarrow> u32 result" where
  "stoi base s =
     (case signed_number base s of
        None \<Rightarrow> Inl (Fatal ''std::invalid_argument'')
      | Some v \<Rightarrow> if - (2 ^ 31) \<le> v \<and> v < 2 ^ 31 then Inr (word_of_int v) else Inl (Fatal ''std::out_of_range''))"

text \<open>\<^verbatim>\<open>stoul\<close> and \<^verbatim>\<open>stoull\<close>, which negate modulo 2 to the 64.\<close>

definition stoul :: "nat \<Rightarrow> string \<Rightarrow> u64 result" where
  "stoul base s =
     (case signed_number base s of
        None \<Rightarrow> Inl (Fatal ''std::invalid_argument'')
      | Some v \<Rightarrow> if \<bar>v\<bar> < 2 ^ 64 then Inr (word_of_int v) else Inl (Fatal ''std::out_of_range''))"

section \<open>The options\<close>

record RevOpts =
  o_numCores :: u32
  o_numHarts :: u32
  o_startAddr :: "u32 \<rightharpoonup> u64"
  o_startSym :: "u32 \<rightharpoonup> string"
  o_machine :: "u32 \<rightharpoonup> string"
  o_table :: "u32 \<rightharpoonup> string"
  o_prefetchDepth :: "u32 \<rightharpoonup> u32"
  o_memCosts :: "(u32 \<times> u32) list"
  o_Argv :: "string list"

definition mk_RevOpts :: "u32 \<Rightarrow> u32 \<Rightarrow> RevOpts" where
  "mk_RevOpts NumCores NumHarts =
     \<lparr>o_numCores = NumCores, o_numHarts = NumHarts,
      o_startAddr = (\<lambda>i. if i < NumCores then Some 0 else None), o_startSym = Map.empty,
      o_machine = (\<lambda>i. if i < NumCores then Some ''G'' else None),
      o_table = (\<lambda>i. if i < NumCores then Some ''_REV_INTERNAL_'' else None),
      o_prefetchDepth = (\<lambda>i. if i < NumCores then Some 16 else None),
      o_memCosts = replicate (unat NumCores) (0, 10), o_Argv = []\<rparr>"

definition opts_splitStr :: "string \<Rightarrow> char \<Rightarrow> string list" where
  "opts_splitStr s c = (if s = [] then [] else splitStr s c)"

text \<open>
  The loops over the strings stop at the first malformed one with the result false; what the strings
  before it have set stays. The reference that \<^verbatim>\<open>find\<close> gives for a missing core must not be
  assigned to, and \<^verbatim>\<open>at\<close> throws for it.
\<close>

fun InitPrefetchDepth :: "string list \<Rightarrow> RevOpts \<Rightarrow> (bool \<times> RevOpts) result" where
  "InitPrefetchDepth [] Op = Inr (True, Op)"
| "InitPrefetchDepth (s # ss) Op =
     (case opts_splitStr s CHR '':'' of
        [c, d] \<Rightarrow>
          res_bind (stoul 0 c) (\<lambda>cl. let Core = ucast cl in
          if o_numCores Op < Core then Inr (False, Op)
          else res_bind (stoul 0 d) (\<lambda>Depth.
            if o_prefetchDepth Op Core = None then Inl (Undefined ''prefetchDepth.find(Core) is the end'')
            else InitPrefetchDepth ss (Op\<lparr>o_prefetchDepth := (o_prefetchDepth Op)(Core \<mapsto> ucast Depth)\<rparr>)))
      | _ \<Rightarrow> Inr (False, Op))"

fun start_addrs :: "string list \<Rightarrow> RevOpts \<Rightarrow> (bool \<times> RevOpts) result" where
  "start_addrs [] Op = Inr (True, Op)"
| "start_addrs (s # ss) Op =
     (case opts_splitStr s CHR '':'' of
        [c, a] \<Rightarrow>
          res_bind (stoi 0 c) (\<lambda>Core.
          if o_numCores Op < Core then Inr (False, Op)
          else res_bind (stoul 0 a) (\<lambda>Addr.
            if o_startAddr Op Core = None then Inl (Undefined ''startAddr.find(Core) is the end'')
            else start_addrs ss (Op\<lparr>o_startAddr := (o_startAddr Op)(Core \<mapsto> Addr)\<rparr>)))
      | _ \<Rightarrow> Inr (False, Op))"

text \<open>A single string may set all cores; a single malformed string is refused either way.\<close>

definition InitStartAddrs :: "string list \<Rightarrow> RevOpts \<Rightarrow> (bool \<times> RevOpts) result" where
  "InitStartAddrs StartAddrs Op =
     (case StartAddrs of
        [s] \<Rightarrow> (case opts_splitStr s CHR '':'' of
           [c, a] \<Rightarrow>
             if c = ''CORES'' then
               res_bind (stoul 0 a) (\<lambda>Addr.
               Inr (True, Op\<lparr>o_startAddr := (\<lambda>i. if i < o_numCores Op then Some Addr else o_startAddr Op i)\<rparr>))
             else start_addrs StartAddrs Op
         | _ \<Rightarrow> Inr (False, Op))
      | _ \<Rightarrow> start_addrs StartAddrs Op)"

fun InitStartSymbols :: "string list \<Rightarrow> RevOpts \<Rightarrow> (bool \<times> RevOpts) result" where
  "InitStartSymbols [] Op = Inr (True, Op)"
| "InitStartSymbols (s # ss) Op =
     (case opts_splitStr s CHR '':'' of
        [c, y] \<Rightarrow>
          res_bind (stoi 0 c) (\<lambda>Core.
          if o_numCores Op < Core then Inr (False, Op)
          else InitStartSymbols ss (Op\<lparr>o_startSym := map_insert Core y (o_startSym Op)\<rparr>))
      | _ \<Rightarrow> Inr (False, Op))"

fun machine_models :: "string list \<Rightarrow> RevOpts \<Rightarrow> (bool \<times> RevOpts) result" where
  "machine_models [] Op = Inr (True, Op)"
| "machine_models (s # ss) Op =
     (case opts_splitStr s CHR '':'' of
        [c, m] \<Rightarrow>
          res_bind (stoi 0 c) (\<lambda>Core.
          if o_numCores Op < Core then Inr (False, Op)
          else if o_machine Op Core = None then Inl (Fatal ''std::out_of_range'')
          else machine_models ss (Op\<lparr>o_machine := (o_machine Op)(Core \<mapsto> m)\<rparr>))
      | _ \<Rightarrow> Inr (False, Op))"

definition InitMachineModels :: "string list \<Rightarrow> RevOpts \<Rightarrow> (bool \<times> RevOpts) result" where
  "InitMachineModels Machines Op =
     (case Machines of
        [s] \<Rightarrow> (case opts_splitStr s CHR '':'' of
           [c, m] \<Rightarrow>
             if c = ''CORES'' then
               Inr (True, Op\<lparr>o_machine := (\<lambda>i. if i < o_numCores Op then Some m else o_machine Op i)\<rparr>)
             else machine_models Machines Op
         | _ \<Rightarrow> Inr (False, Op))
      | _ \<Rightarrow> machine_models Machines Op)"

fun InitInstTables :: "string list \<Rightarrow> RevOpts \<Rightarrow> (bool \<times> RevOpts) result" where
  "InitInstTables [] Op = Inr (True, Op)"
| "InitInstTables (s # ss) Op =
     (case opts_splitStr s CHR '':'' of
        [c, t] \<Rightarrow>
          res_bind (stoi 0 c) (\<lambda>Core.
          if o_numCores Op < Core then Inr (False, Op)
          else if o_table Op Core = None then Inl (Fatal ''std::out_of_range'')
          else InitInstTables ss (Op\<lparr>o_table := (o_table Op)(Core \<mapsto> t)\<rparr>))
      | _ \<Rightarrow> Inr (False, Op))"

text \<open>The core of a memory cost is not compared with the number of cores at all.\<close>

fun InitMemCosts :: "string list \<Rightarrow> RevOpts \<Rightarrow> (bool \<times> RevOpts) result" where
  "InitMemCosts [] Op = Inr (True, Op)"
| "InitMemCosts (s # ss) Op =
     (case opts_splitStr s CHR '':'' of
        [c, mn, mx] \<Rightarrow>
          res_bind (stoi 0 c) (\<lambda>Core. res_bind (stoi 0 mn) (\<lambda>Min. res_bind (stoi 0 mx) (\<lambda>Max.
          if length (o_memCosts Op) \<le> unat Core then Inl (Undefined ''memCosts out of bounds'')
          else let Op1 = Op\<lparr>o_memCosts := (o_memCosts Op)[unat Core := (Min, Max)]\<rparr>
            in if Min = 0 \<or> Max = 0 then Inr (False, Op1) else InitMemCosts ss Op1)))
      | _ \<Rightarrow> Inr (False, Op))"

section \<open>Queries\<close>

definition GetPrefetchDepth :: "u32 \<Rightarrow> RevOpts \<Rightarrow> u32 option" where
  "GetPrefetchDepth Core Op = (if o_numCores Op < Core then None else o_prefetchDepth Op Core)"

definition GetStartAddr :: "u32 \<Rightarrow> RevOpts \<Rightarrow> u64 option" where
  "GetStartAddr Core Op = (if o_numCores Op < Core then None else o_startAddr Op Core)"

definition GetStartSymbol :: "u32 \<Rightarrow> RevOpts \<Rightarrow> string option" where
  "GetStartSymbol Core Op = (if o_numCores Op < Core then None else o_startSym Op Core)"

definition GetMachineModel :: "u32 \<Rightarrow> RevOpts \<Rightarrow> string option result" where
  "GetMachineModel Core Op =
     (if o_numCores Op < Core then Inr None
      else case o_machine Op Core of None \<Rightarrow> Inl (Fatal ''std::out_of_range'') | Some m \<Rightarrow> Inr (Some m))"

definition GetInstTable :: "u32 \<Rightarrow> RevOpts \<Rightarrow> string option result" where
  "GetInstTable Core Op =
     (if o_numCores Op < Core then Inr None
      else case o_table Op Core of None \<Rightarrow> Inl (Fatal ''std::out_of_range'') | Some t \<Rightarrow> Inr (Some t))"

definition GetMemCost :: "u32 \<Rightarrow> RevOpts \<Rightarrow> (u32 \<times> u32) option result" where
  "GetMemCost Core Op =
     (if o_numCores Op < Core then Inr None
      else if length (o_memCosts Op) \<le> unat Core then Inl (Undefined ''memCosts out of bounds'')
      else Inr (Some (o_memCosts Op ! unat Core)))"

definition SetArgs :: "string list \<Rightarrow> RevOpts \<Rightarrow> RevOpts" where
  "SetArgs A Op = Op\<lparr>o_Argv := A\<rparr>"

section \<open>Splitting\<close>

declare splitStr.simps [simp del]

text \<open>The pieces, put together again.\<close>

fun join :: "char \<Rightarrow> string list \<Rightarrow> string" where
  "join c [] = []"
| "join c [s] = s"
| "join c (s # ss) = s @ c # join c ss"

lemma join_Cons: "ss \<noteq> [] \<Longrightarrow> join c (s # ss) = s @ c # join c ss"
  by (cases ss) auto

lemma splitStr_nonempty: "splitStr s c \<noteq> []"
  by (subst splitStr.simps) (simp split: list.split)

lemma splitStr_pieces: "join c (splitStr s c) = s \<and> (\<forall>p \<in> set (splitStr s c). c \<notin> set p)"
proof (induction s c rule: splitStr.induct)
  case (1 s c)
  show ?case
  proof (cases "dropWhile (\<lambda>x. x \<noteq> c) s")
    case Nil
    then have "splitStr s c = [s]" by (subst splitStr.simps) (simp only: list.case)
    moreover have "c \<notin> set s" using Nil by (auto simp: dropWhile_eq_Nil_conv)
    ultimately show ?thesis by simp
  next
    case (Cons x t)
    then have e: "splitStr s c = takeWhile (\<lambda>x. x \<noteq> c) s # splitStr t c" by (subst splitStr.simps) simp
    have x: "x = c" using hd_dropWhile [of "\<lambda>x. x \<noteq> c" s] unfolding Cons by simp
    have s: "takeWhile (\<lambda>x. x \<noteq> c) s @ c # t = s" using takeWhile_dropWhile_id [of "\<lambda>x. x \<noteq> c" s] unfolding Cons x .
    have "c \<notin> set (takeWhile (\<lambda>x. x \<noteq> c) s)" by (auto dest: set_takeWhileD)
    then show ?thesis using "1.IH" [OF Cons] splitStr_nonempty [of t c] unfolding e by (simp add: join_Cons s)
  qed
qed

lemma splitStr_unique:
  "c \<notin> set p \<Longrightarrow> splitStr p c = [p]" "c \<notin> set p \<Longrightarrow> splitStr (p @ c # t) c = p # splitStr t c"
proof -
  assume p: "c \<notin> set p"
  then have "dropWhile (\<lambda>x. x \<noteq> c) p = []" by (auto simp: dropWhile_eq_Nil_conv)
  then show "splitStr p c = [p]" by (subst splitStr.simps) (simp only: list.case)
  have a: "\<forall>x\<in>set p. x \<noteq> c" using p by auto
  then have "dropWhile (\<lambda>x. x \<noteq> c) (p @ c # t) = c # t" "takeWhile (\<lambda>x. x \<noteq> c) (p @ c # t) = p"
    by (simp_all add: dropWhile_append2 takeWhile_append2)
  then show "splitStr (p @ c # t) c = p # splitStr t c" by (subst splitStr.simps) simp
qed

lemma split_pair:
  "CHR '':'' \<notin> set a \<Longrightarrow> CHR '':'' \<notin> set b \<Longrightarrow> opts_splitStr (a @ CHR '':'' # b) CHR '':'' = [a, b]"
  by (simp add: opts_splitStr_def splitStr_unique)

section \<open>The settings of the cores\<close>

definition opts_inv :: "RevOpts \<Rightarrow> bool" where
  "opts_inv Op \<longleftrightarrow> dom (o_startAddr Op) = {..<o_numCores Op} \<and> dom (o_machine Op) = {..<o_numCores Op} \<and>
     dom (o_table Op) = {..<o_numCores Op} \<and> dom (o_prefetchDepth Op) = {..<o_numCores Op} \<and>
     length (o_memCosts Op) = unat (o_numCores Op)"

text \<open>The configuration of a simulation: the constructor, then any of the initialisers.\<close>

inductive opts_reachable :: "RevOpts \<Rightarrow> bool" where
  start: "opts_reachable (mk_RevOpts n h)"
| depth: "opts_reachable Op \<Longrightarrow> InitPrefetchDepth ss Op = Inr (b, Op') \<Longrightarrow> opts_reachable Op'"
| addr: "opts_reachable Op \<Longrightarrow> InitStartAddrs ss Op = Inr (b, Op') \<Longrightarrow> opts_reachable Op'"
| sym: "opts_reachable Op \<Longrightarrow> InitStartSymbols ss Op = Inr (b, Op') \<Longrightarrow> opts_reachable Op'"
| machine: "opts_reachable Op \<Longrightarrow> InitMachineModels ss Op = Inr (b, Op') \<Longrightarrow> opts_reachable Op'"
| tables: "opts_reachable Op \<Longrightarrow> InitInstTables ss Op = Inr (b, Op') \<Longrightarrow> opts_reachable Op'"
| costs: "opts_reachable Op \<Longrightarrow> InitMemCosts ss Op = Inr (b, Op') \<Longrightarrow> opts_reachable Op'"
| args: "opts_reachable Op \<Longrightarrow> opts_reachable (SetArgs A Op)"

text \<open>Two options with the same cores configured.\<close>

definition opts_same :: "RevOpts \<Rightarrow> RevOpts \<Rightarrow> bool" where
  "opts_same Op Op' \<longleftrightarrow> o_numCores Op' = o_numCores Op \<and> (opts_inv Op \<longrightarrow> opts_inv Op')"

lemma opts_same_refl [simp]: "opts_same Op Op" by (simp add: opts_same_def)

lemma opts_same_trans: "opts_same A B \<Longrightarrow> opts_same B C \<Longrightarrow> opts_same A C" by (simp add: opts_same_def)

lemma opts_same_upd:
  "o_prefetchDepth Op c \<noteq> None \<Longrightarrow> opts_same Op (Op\<lparr>o_prefetchDepth := (o_prefetchDepth Op)(c \<mapsto> d)\<rparr>)"
  "o_startAddr Op c \<noteq> None \<Longrightarrow> opts_same Op (Op\<lparr>o_startAddr := (o_startAddr Op)(c \<mapsto> a)\<rparr>)"
  "o_machine Op c \<noteq> None \<Longrightarrow> opts_same Op (Op\<lparr>o_machine := (o_machine Op)(c \<mapsto> m)\<rparr>)"
  "o_table Op c \<noteq> None \<Longrightarrow> opts_same Op (Op\<lparr>o_table := (o_table Op)(c \<mapsto> t)\<rparr>)"
  "opts_same Op (Op\<lparr>o_startSym := y\<rparr>)" "opts_same Op (Op\<lparr>o_memCosts := (o_memCosts Op)[i := v]\<rparr>)"
  "opts_same Op (Op\<lparr>o_startAddr := (\<lambda>i. if i < o_numCores Op then Some a else o_startAddr Op i)\<rparr>)"
  "opts_same Op (Op\<lparr>o_machine := (\<lambda>i. if i < o_numCores Op then Some m else o_machine Op i)\<rparr>)"
  by (auto simp: opts_same_def opts_inv_def dom_def set_eq_iff split: if_splits)

lemma Init_same:
  "InitPrefetchDepth ss Op = Inr (b, Op') \<Longrightarrow> opts_same Op Op'"
  "start_addrs ss Op = Inr (b, Op') \<Longrightarrow> opts_same Op Op'"
  "InitStartSymbols ss Op = Inr (b, Op') \<Longrightarrow> opts_same Op Op'"
  "machine_models ss Op = Inr (b, Op') \<Longrightarrow> opts_same Op Op'"
  "InitInstTables ss Op = Inr (b, Op') \<Longrightarrow> opts_same Op Op'"
  "InitMemCosts ss Op = Inr (b, Op') \<Longrightarrow> opts_same Op Op'"
  by (induction ss arbitrary: Op; auto simp: res_bind_eq_Inr Let_def split: list.splits if_splits
        intro: opts_same_upd opts_same_trans [OF opts_same_upd(1)] opts_same_trans [OF opts_same_upd(2)] opts_same_trans [OF opts_same_upd(3)]
          opts_same_trans [OF opts_same_upd(4)] opts_same_trans [OF opts_same_upd(5)] opts_same_trans [OF opts_same_upd(6)])+

lemma InitStartAddrs_same: "InitStartAddrs ss Op = Inr (b, Op') \<Longrightarrow> opts_same Op Op'"
  using Init_same(2) opts_same_upd(7)
  by (auto simp: InitStartAddrs_def res_bind_eq_Inr simp del: start_addrs.simps split: list.splits if_splits)

lemma InitMachineModels_same: "InitMachineModels ss Op = Inr (b, Op') \<Longrightarrow> opts_same Op Op'"
  using Init_same(4) opts_same_upd(8)
  by (auto simp: InitMachineModels_def res_bind_eq_Inr simp del: machine_models.simps split: list.splits if_splits)

lemma opts_reachable_inv: "opts_reachable Op \<Longrightarrow> opts_inv Op"
proof (induction rule: opts_reachable.induct)
  case (start n h)
  then show ?case by (auto simp: opts_inv_def mk_RevOpts_def dom_def)
qed (use Init_same InitStartAddrs_same InitMachineModels_same in \<open>auto simp: opts_same_def SetArgs_def opts_inv_def\<close>)

text \<open>
  C27: However a simulation was configured, every core below the number of cores has a start address, a
  machine model, an instruction table, a prefetch depth and a memory cost. The core number that equals
  the number of cores passes the bound checks of the queries: the ones for the start address and the
  prefetch depth return false for it, the ones for the machine model and the instruction table throw,
  and the one for the memory cost reads past the end of its vector.
\<close>

theorem configured_cores:
  assumes "opts_reachable Op"
  shows "(i < o_numCores Op \<longrightarrow> (\<exists>a m t d c. GetStartAddr i Op = Some a \<and> GetMachineModel i Op = Inr (Some m) \<and>
      GetInstTable i Op = Inr (Some t) \<and> GetPrefetchDepth i Op = Some d \<and> GetMemCost i Op = Inr (Some c))) \<and>
    GetStartAddr (o_numCores Op) Op = None \<and> GetPrefetchDepth (o_numCores Op) Op = None \<and>
    GetMachineModel (o_numCores Op) Op = Inl (Fatal ''std::out_of_range'') \<and>
    GetInstTable (o_numCores Op) Op = Inl (Fatal ''std::out_of_range'') \<and>
    GetMemCost (o_numCores Op) Op = Inl (Undefined ''memCosts out of bounds'')"
proof -
  note inv = opts_reachable_inv [OF assms]
  have "\<exists>a m t d c. GetStartAddr i Op = Some a \<and> GetMachineModel i Op = Inr (Some m) \<and>
      GetInstTable i Op = Inr (Some t) \<and> GetPrefetchDepth i Op = Some d \<and> GetMemCost i Op = Inr (Some c)" if i: "i < o_numCores Op"
  proof -
    have "i \<in> dom (o_startAddr Op)" "i \<in> dom (o_machine Op)" "i \<in> dom (o_table Op)" "i \<in> dom (o_prefetchDepth Op)"
      using inv i by (simp_all add: opts_inv_def)
    moreover have "unat i < length (o_memCosts Op)" using inv i by (simp add: opts_inv_def word_less_nat_alt)
    ultimately show ?thesis
      using i by (auto simp: GetStartAddr_def GetMachineModel_def GetInstTable_def GetPrefetchDepth_def GetMemCost_def)
  qed
  moreover have "o_numCores Op \<notin> dom (o_startAddr Op)" "o_numCores Op \<notin> dom (o_prefetchDepth Op)"
    "o_numCores Op \<notin> dom (o_machine Op)" "o_numCores Op \<notin> dom (o_table Op)" "length (o_memCosts Op) \<le> unat (o_numCores Op)"
    using inv by (simp_all add: opts_inv_def)
  ultimately show ?thesis by (auto simp: GetStartAddr_def GetPrefetchDepth_def GetMachineModel_def GetInstTable_def GetMemCost_def domIff)
qed

text \<open>
  A string \<^verbatim>\<open>core:machine\<close> sets the machine model of that core and of no other; for a core number equal
  to the number of cores the check passes and the assignment throws.
\<close>

theorem InitMachineModels_sets:
  assumes "opts_inv Op" "CHR '':'' \<notin> set c" "CHR '':'' \<notin> set m" "c \<noteq> ''CORES''" "stoi 0 c = Inr Core"
  shows "InitMachineModels [c @ CHR '':'' # m] Op =
    (if Core < o_numCores Op then Inr (True, Op\<lparr>o_machine := (o_machine Op)(Core \<mapsto> m)\<rparr>)
     else if Core = o_numCores Op then Inl (Fatal ''std::out_of_range'') else Inr (False, Op))"
proof -
  have "Core \<in> dom (o_machine Op) \<longleftrightarrow> Core < o_numCores Op" using assms(1) by (simp add: opts_inv_def)
  then have "o_machine Op Core = None \<longleftrightarrow> \<not> Core < o_numCores Op" by blast
  then show ?thesis
    using assms by (auto simp: InitMachineModels_def split_pair not_less)
qed

theorem InitMachineModels_sets_witness:
  "InitMachineModels [''1:RV64IMAFDC''] (mk_RevOpts 2 1) =
     Inr (True, (mk_RevOpts 2 1)\<lparr>o_machine := (o_machine (mk_RevOpts 2 1))(1 \<mapsto> ''RV64IMAFDC'')\<rparr>)"
proof -
  have i: "opts_inv (mk_RevOpts 2 1)" by (auto simp: opts_inv_def mk_RevOpts_def dom_def)
  have c: "stoi 0 ''1'' = Inr 1"
    by (simp add: stoi_def signed_number_def number_at_def hex_prefix_def is_digit_def digit_val_def digits_val_def is_space_def)
  show ?thesis
    using InitMachineModels_sets [OF i, of "''1''" "''RV64IMAFDC''" 1] c by (simp add: mk_RevOpts_def)
qed

theorem configured_cores_witness:
  "(\<exists>a m t d c. GetStartAddr 1 (mk_RevOpts 2 1) = Some a \<and> GetMachineModel 1 (mk_RevOpts 2 1) = Inr (Some m) \<and>
      GetInstTable 1 (mk_RevOpts 2 1) = Inr (Some t) \<and> GetPrefetchDepth 1 (mk_RevOpts 2 1) = Some d \<and>
      GetMemCost 1 (mk_RevOpts 2 1) = Inr (Some c)) \<and>
   GetMachineModel 2 (mk_RevOpts 2 1) = Inl (Fatal ''std::out_of_range'')"
  using configured_cores [OF opts_reachable.start [of 2 1], of 1] by (simp add: mk_RevOpts_def)

end
