(* ===== verification/Rev_CPU.thy ===== *)
theory Rev_CPU
  imports Rev_Threads Rev_Opts
begin

text \<open>
  The CPU component of \<^verbatim>\<open>src/RevCPU.cc\<close>: it owns the processors, the memory they share and the threads
  that do not run, assigns ready threads to idle harts, collects the threads that changed state on
  a processor, wakes threads whose join is complete, injects faults and ends the simulation. The model
  is of a CPU without a coprocessor, a network interface and a memory hierarchy, which is the
  default of the parameters \<^verbatim>\<open>enableCoProc\<close>, \<^verbatim>\<open>enable_nic\<close> and \<^verbatim>\<open>enable_memH\<close>.
\<close>

section \<open>State\<close>

text \<open>
  The processors share the memory, the store of register files, the random number generator, the
  rounding mode and the files of the host; a processor gets them for the time it runs. The completed
  threads are a map with its entries in order of insertion. \<open>u_Stats\<close> records what is added to the
  statistics of the cores.
\<close>

record RevCPU =
  u_Procs :: "RevProc list"
  u_Enabled :: "bool list"
  u_ReadyThreads :: "RevThread list"
  u_BlockedThreads :: "RevThread list"
  u_CompletedThreads :: "(u32 \<times> RevThread) list"
  u_PrivTag :: u8
  u_EnableFaults :: bool
  u_EnableCrackFaults :: bool
  u_EnableMemFaults :: bool
  u_EnableRegFaults :: bool
  u_EnableALUFaults :: bool
  u_fault_width :: u32
  u_FaultCntr :: u64
  u_mem :: RevMem
  u_regs :: "nat \<Rightarrow> RevRegFile"
  u_nregs :: nat
  u_draws :: nat
  u_round :: u8
  u_hostlog :: "HostCall list"
  u_env :: RevEnv
  u_Stats :: "(nat \<times> RevProcStats) list"

definition proc_of :: "nat \<Rightarrow> RevCPU \<Rightarrow> RevProc" where
  "proc_of i U = (u_Procs U ! i)\<lparr>q_mem := u_mem U, q_regs := u_regs U, q_nregs := u_nregs U, q_draws := u_draws U,
     q_round := u_round U, q_hostlog := u_hostlog U, q_env := u_env U\<rparr>"

definition proc_back :: "nat \<Rightarrow> RevProc \<Rightarrow> RevCPU \<Rightarrow> RevCPU" where
  "proc_back i P U = U\<lparr>u_Procs := (u_Procs U)[i := P], u_mem := q_mem P, u_regs := q_regs P, u_nregs := q_nregs P,
     u_draws := q_draws P, u_round := q_round P, u_hostlog := q_hostlog P\<rparr>"

section \<open>Configuration\<close>

definition DecodeFaultWidth :: "string \<Rightarrow> u32 result" where
  "DecodeFaultWidth width =
     res_bind (if width = ''single'' then Inr 1 else if width = ''word'' then Inr 8 else stoi 10 width) (\<lambda>w.
     if 64 < w then Inl (Fatal ''Fault width must be <= 64 bits'') else Inr w)"

fun decode_faults :: "string list \<Rightarrow> RevCPU \<Rightarrow> RevCPU result" where
  "decode_faults [] U = Inr U"
| "decode_faults (f # fs) U =
     (if f = ''decode'' then decode_faults fs (U\<lparr>u_EnableCrackFaults := True\<rparr>)
      else if f = ''mem'' then decode_faults fs (U\<lparr>u_EnableMemFaults := True\<rparr>)
      else if f = ''reg'' then decode_faults fs (U\<lparr>u_EnableRegFaults := True\<rparr>)
      else if f = ''alu'' then decode_faults fs (U\<lparr>u_EnableALUFaults := True\<rparr>)
      else if f = ''all'' then decode_faults fs (U\<lparr>u_EnableCrackFaults := True, u_EnableMemFaults := True,
        u_EnableRegFaults := True, u_EnableALUFaults := True\<rparr>)
      else Inl (Fatal ''Undefined fault code''))"

definition DecodeFaultCodes :: "string list \<Rightarrow> RevCPU \<Rightarrow> RevCPU result" where
  "DecodeFaultCodes faults U =
     (if faults = [] then Inl (Fatal ''No fault codes defined'')
      else decode_faults faults (U\<lparr>u_EnableCrackFaults := False, u_EnableMemFaults := False,
        u_EnableRegFaults := False, u_EnableALUFaults := False\<rparr>))"

text \<open>The width that was decoded is overwritten by the range, which also starts the counter.\<close>

definition InitFaults :: "string list \<Rightarrow> string \<Rightarrow> u64 \<Rightarrow> RevCPU \<Rightarrow> RevCPU result" where
  "InitFaults faults width fault_range U =
     res_bind (DecodeFaultCodes faults (U\<lparr>u_EnableFaults := True\<rparr>)) (\<lambda>U1.
     res_bind (DecodeFaultWidth width) (\<lambda>w.
     let U2 = U1\<lparr>u_fault_width := w\<rparr>; U3 = U2\<lparr>u_fault_width := ucast fault_range\<rparr>
     in Inr (U3\<lparr>u_FaultCntr := ucast (u_fault_width U3)\<rparr>)))"

text \<open>The start address: an address, a symbol, both if they agree, or \<^verbatim>\<open>main\<close>. An unknown symbol has address 0.\<close>

definition StartAddress :: "(string \<Rightarrow> u64) \<Rightarrow> u32 \<Rightarrow> RevOpts \<Rightarrow> u64 result" where
  "StartAddress GetSymbolAddr ident Op =
     (let StartSymbol = GetStartSymbol ident Op;
          StartAddr = (case GetStartAddr ident Op of None \<Rightarrow> 0 | Some a \<Rightarrow> a);
          Resolved = (case StartSymbol of None \<Rightarrow> 0 | Some s \<Rightarrow> GetSymbolAddr s)
      in if GetStartAddr ident Op = None \<or> StartAddr = 0 then
           case StartSymbol of
             None \<Rightarrow> if GetSymbolAddr ''main'' = 0 then Inl (Fatal ''failed to auto discover address for <main>'')
                     else Inr (GetSymbolAddr ''main'')
           | Some s \<Rightarrow> if Resolved = 0 then Inl (Fatal ''failed to resolve address for symbol'') else Inr Resolved
         else if StartSymbol \<noteq> None \<and> Resolved \<noteq> StartAddr then Inl (Fatal ''start address and start symbol differ'')
         else Inr StartAddr)"

section \<open>Threads\<close>

definition SetupArgs :: "RevOpts \<Rightarrow> RevCPU \<Rightarrow> RevRegFile \<Rightarrow> RevRegFile" where
  "SetupArgs Op U R = SetX_u 11 (s_stacktop (m_segs (u_mem U)) + 60) (SetX_u 10 (of_nat (length (o_Argv Op)) :: u64) R)"

definition InitMainThread :: "u32 \<Rightarrow> u64 \<Rightarrow> RevOpts \<Rightarrow> RevCPU \<Rightarrow> RevCPU result" where
  "InitMainThread MainThreadID StartAddr Op U =
     (if u_Procs U = [] then Inl (Undefined ''Procs out of bounds'')
      else case s_ThreadMemSegs (m_segs (u_mem U)) of
        [] \<Rightarrow> Inl (Undefined ''front of an empty vector'')
      | Seg # _ \<Rightarrow>
          let R0 = SetPC StartAddr (mk_RevRegFile (q_feature (u_Procs U ! 0)));
              R1 = SetX_u 4 (getTopAddr Seg) R0;
              R2 = SetX_u 2 (getTopAddr Seg - s_TLSSize (m_segs (u_mem U))) R1;
              R3 = SetX_u 8 (env_gp (u_env U)) (SetX_u 3 (env_gp (u_env U)) R2);
              R4 = SetupArgs Op U R3;
              r = u_nregs U;
              T = SetState READY (mk_RevThread MainThreadID INVALID_TID Seg r)
          in Inr (U\<lparr>u_regs := (u_regs U)(r := R4), u_nregs := Suc r, u_ReadyThreads := u_ReadyThreads U @ [T]\<rparr>))"

text \<open>
  \<^verbatim>\<open>InitThread\<close> takes the register file out of the thread to set two registers and does not give it
  back, so that it is destroyed.
\<close>

definition InitThread :: "RevThread \<Rightarrow> RevCPU \<Rightarrow> RevCPU result" where
  "InitThread ThreadToInit U =
     (case th_VirtRegState ThreadToInit of
        None \<Rightarrow> Inl (Undefined ''thread without a register file'')
      | Some r \<Rightarrow>
          let R = SetX_u 8 (env_gp (u_env U)) (SetX_u 3 (env_gp (u_env U)) (u_regs U r))
          in Inr (U\<lparr>u_regs := (u_regs U)(r := R),
                    u_ReadyThreads := u_ReadyThreads U @ [SetState READY (ThreadToInit\<lparr>th_VirtRegState := None\<rparr>)]\<rparr>))"

definition ThreadCanProceed :: "RevThread \<Rightarrow> RevCPU \<Rightarrow> bool" where
  "ThreadCanProceed T U =
     (if th_WaitingToJoinTID T \<noteq> INVALID_TID then map_of (u_CompletedThreads U) (th_WaitingToJoinTID T) \<noteq> None else True)"

fun check_blocked :: "RevThread list \<Rightarrow> RevCPU \<Rightarrow> RevThread list \<times> RevThread list" where
  "check_blocked [] U = ([], [])"
| "check_blocked (T # Ts) U =
     (let (go, stay) = check_blocked Ts U in if ThreadCanProceed T U then (T # go, stay) else (go, T # stay))"

definition CheckBlockedThreads :: "RevCPU \<Rightarrow> RevCPU" where
  "CheckBlockedThreads U =
     (let (go, stay) = check_blocked (u_BlockedThreads U) U
      in U\<lparr>u_ReadyThreads := u_ReadyThreads U @ go, u_BlockedThreads := stay\<rparr>)"

definition UpdateThreadAssignments :: "nat \<Rightarrow> RevCPU \<Rightarrow> RevCPU result" where
  "UpdateThreadAssignments ProcID U =
     (case u_ReadyThreads U of
        [] \<Rightarrow> Inr U
      | T # Ts \<Rightarrow>
          if HasIdleHart (proc_of ProcID U) then
            res_bind (AssignThread T (proc_of ProcID U)) (\<lambda>P.
            Inr ((proc_back ProcID P U)\<lparr>u_ReadyThreads := Ts, u_Enabled := (u_Enabled U)[ProcID := True]\<rparr>))
          else Inr U)"

text \<open>\<^verbatim>\<open>emplace\<close> leaves a map that has the key unchanged, and the thread is destroyed.\<close>

definition emplace_completed :: "u32 \<Rightarrow> RevThread \<Rightarrow> (u32 \<times> RevThread) list \<Rightarrow> (u32 \<times> RevThread) list" where
  "emplace_completed k T m = (if map_of m k = None then m @ [(k, T)] else m)"

definition handle_state_change :: "nat \<Rightarrow> RevThread \<Rightarrow> RevCPU \<Rightarrow> RevCPU result" where
  "handle_state_change ProcID T U =
     res_bind (case th_State T of
         DONE \<Rightarrow> Inr (U\<lparr>u_CompletedThreads := emplace_completed (th_ID T) T (u_CompletedThreads U)\<rparr>)
       | BLOCKED \<Rightarrow> Inr (U\<lparr>u_BlockedThreads := u_BlockedThreads U @ [SetState BLOCKED T]\<rparr>)
       | START \<Rightarrow> Inr (U\<lparr>u_ReadyThreads := u_ReadyThreads U @ [SetState READY T]\<rparr>)
       | RUNNING \<Rightarrow> Inr U
       | READY \<Rightarrow> Inl (Fatal ''Thread is assigned but is in READY state'')) (\<lambda>U1.
     Inr (if HasNoWork True (proc_of ProcID U1) then U1\<lparr>u_Enabled := (u_Enabled U1)[ProcID := False]\<rparr> else U1))"

fun handle_state_changes :: "nat \<Rightarrow> RevThread list \<Rightarrow> RevCPU \<Rightarrow> RevCPU result" where
  "handle_state_changes ProcID [] U = Inr U"
| "handle_state_changes ProcID (T # Ts) U = res_bind (handle_state_change ProcID T U) (handle_state_changes ProcID Ts)"

definition HandleThreadStateChangesForProc :: "nat \<Rightarrow> RevCPU \<Rightarrow> RevCPU result" where
  "HandleThreadStateChangesForProc ProcID U =
     (let (Ts, P) = TransferThreadsThatChangedState (proc_of ProcID U)
      in handle_state_changes ProcID Ts (proc_back ProcID P U))"

section \<open>Faults\<close>

definition cpu_draw32 :: "u32 \<Rightarrow> u32 \<Rightarrow> RevCPU \<Rightarrow> u32 \<times> RevCPU" where
  "cpu_draw32 mn mx U = (env_rand (u_env U) mn mx (u_draws U), U\<lparr>u_draws := Suc (u_draws U)\<rparr>)"

definition cpu_draw64 :: "u64 \<Rightarrow> u64 \<Rightarrow> RevCPU \<Rightarrow> u64 \<times> RevCPU" where
  "cpu_draw64 mn mx U = (env_rand64 (u_env U) mn mx (u_draws U), U\<lparr>u_draws := Suc (u_draws U)\<rparr>)"

definition fault_core :: "RevCPU \<Rightarrow> (nat \<times> RevCPU) result" where
  "fault_core U =
     (let n = length (u_Procs U);
          (Core, U1) = (if 1 < n then cpu_draw32 0 (of_nat n - 1) U else (0, U))
      in if n \<le> unat Core then Inl (Undefined ''Procs out of bounds'') else Inr (unat Core, U1))"

definition cpu_HandleCrackFault :: "RevCPU \<Rightarrow> RevCPU result" where
  "cpu_HandleCrackFault U =
     res_bind (fault_core U) (\<lambda>(i, U1). Inr (proc_back i (HandleCrackFault (u_fault_width U1) (proc_of i U1)) U1))"

definition cpu_HandleRegFault :: "RevCPU \<Rightarrow> RevCPU result" where
  "cpu_HandleRegFault U =
     res_bind (fault_core U) (\<lambda>(i, U1).
     res_bind (HandleRegFault (u_fault_width U1) (proc_of i U1)) (\<lambda>P. Inr (proc_back i P U1)))"

definition cpu_HandleALUFault :: "RevCPU \<Rightarrow> RevCPU result" where
  "cpu_HandleALUFault U =
     res_bind (fault_core U) (\<lambda>(i, U1). Inr (proc_back i (HandleALUFault (u_fault_width U1) (proc_of i U1)) U1))"

text \<open>
  \<^verbatim>\<open>RevMem::HandleMemFault\<close>: random bits, or-ed into eight bytes at a random place of physical memory;
  the place is narrowed to 32 bits.
\<close>

definition HandleMemFault :: "RevCPU \<Rightarrow> RevCPU result" where
  "HandleMemFault U =
     (if 32 \<le> unat (u_fault_width U) then Inl (Undefined ''shift too large'')
      else
        let (v, U1) = cpu_draw32 0 (push_bit (unat (u_fault_width U)) 1 - 1) U;
            (p, U2) = cpu_draw64 0 (s_memSize (m_segs (u_mem U1)) - 8) U1;
            NBytes = ucast (ucast p :: u32) :: u64;
            bs = le_bytes 8 (ucast v);
            phys = m_physMem (u_mem U2)
        in Inr (U2\<lparr>u_mem := (u_mem U2)\<lparr>m_physMem := (\<lambda>a.
             if NBytes \<le> a \<and> a - NBytes < 8 then phys a OR bs ! unat (a - NBytes) else phys a)\<rparr>\<rparr>))"

text \<open>The handlers of the enabled faults, of which one is chosen at random.\<close>

definition myfaults :: "RevCPU \<Rightarrow> (RevCPU \<Rightarrow> RevCPU result) list" where
  "myfaults U = (if u_EnableCrackFaults U then [cpu_HandleCrackFault] else []) @
     (if u_EnableMemFaults U then [HandleMemFault] else []) @
     (if u_EnableRegFaults U then [cpu_HandleRegFault] else []) @
     (if u_EnableALUFaults U then [cpu_HandleALUFault] else [])"

definition HandleFaultInjection :: "RevCPU \<Rightarrow> RevCPU result" where
  "HandleFaultInjection U =
     (let fs = myfaults U
      in if fs = [] then Inl (Fatal ''no faults enabled'')
         else let (selector, U1) = (if length fs \<noteq> 1 then cpu_draw32 0 (of_nat (length fs) - 1) U else (0, U))
           in if length fs \<le> unat selector then Inl (Undefined ''myfaults out of bounds'')
              else (fs ! unat selector) U1)"

section \<open>The clock\<close>

definition UpdateCoreStatistics :: "nat \<Rightarrow> RevCPU \<Rightarrow> RevCPU" where
  "UpdateCoreStatistics coreNum U =
     (let (stats, P) = GetAndClearStats (proc_of coreNum U)
      in (proc_back coreNum P U)\<lparr>u_Stats := u_Stats U @ [(coreNum, stats)]\<rparr>)"

definition tick_core :: "nat \<Rightarrow> RevCPU \<Rightarrow> RevCPU result" where
  "tick_core i U =
     res_bind (UpdateThreadAssignments i U) (\<lambda>U1.
     res_bind
       (if u_Enabled U1 ! i then
          res_bind (ClockTick (\<lambda>_. False) Ecalls (proc_of i U1)) (\<lambda>(ok, P).
          let U2 = proc_back i P U1
          in Inr (if ok then U2 else (UpdateCoreStatistics i U2)\<lparr>u_Enabled := (u_Enabled U2)[i := False]\<rparr>))
        else Inr U1) (\<lambda>U2.
     res_bind (HandleThreadStateChangesForProc i U2) (\<lambda>U3.
     Inr (if HasNoBusyHarts (proc_of i U3) then U3\<lparr>u_Enabled := (u_Enabled U3)[i := False]\<rparr> else U3))))"

fun tick_cores :: "nat list \<Rightarrow> RevCPU \<Rightarrow> RevCPU result" where
  "tick_cores [] U = Inr U"
| "tick_cores (i # is) U = res_bind (tick_core i U) (tick_cores is)"

definition tick_faults :: "RevCPU \<Rightarrow> RevCPU result" where
  "tick_faults U =
     (if u_EnableFaults U then
        if u_FaultCntr U = 0
        then res_bind (HandleFaultInjection U) (\<lambda>U1. Inr (U1\<lparr>u_FaultCntr := ucast (u_fault_width U1)\<rparr>))
        else Inr (U\<lparr>u_FaultCntr := u_FaultCntr U - 1\<rparr>)
      else Inr U)"

text \<open>The result tells that the component is done.\<close>

definition clockTick :: "RevCPU \<Rightarrow> (bool \<times> RevCPU) result" where
  "clockTick U =
     res_bind (tick_cores [0..<length (u_Procs U)] U) (\<lambda>U1.
     res_bind (tick_faults U1) (\<lambda>U2.
     let rtn = \<not> list_ex id (u_Enabled U2);
         (rtn1, U3) =
           (if u_ReadyThreads U2 \<noteq> [] then (False, U2)
            else if u_BlockedThreads U2 \<noteq> [] then (False, CheckBlockedThreads U2)
            else (rtn, U2))
     in if rtn1 \<and> u_CompletedThreads U3 \<noteq> []
        then Inr (True, fold UpdateCoreStatistics [0..<length (u_Procs U3)] U3)
        else Inr (False, U3)))"

definition createTag :: "RevCPU \<Rightarrow> u8 \<times> RevCPU" where
  "createTag U =
     (if u_PrivTag U = 255 then (0, U\<lparr>u_PrivTag := 1\<rparr>) else (u_PrivTag U, U\<lparr>u_PrivTag := u_PrivTag U + 1\<rparr>))"

text \<open>
  The constructor, from the processors on: the cores have the depths, features and tables given for
  them, memory is loaded, and the main thread is ready.
\<close>

definition mk_RevCPU :: "(u32 \<times> RevFeature \<times> RevTables) list \<Rightarrow> u32 \<Rightarrow> RevMem \<Rightarrow> RevEnv \<Rightarrow>
    (string \<Rightarrow> u64) \<Rightarrow> u32 \<Rightarrow> RevOpts \<Rightarrow> RevCPU result" where
  "mk_RevCPU cores numHarts Mem Env GetSymbolAddr ident Op =
     (if 4096 < numHarts then Inl (Fatal ''number of harts must be <= 4096'')
      else
        let Procs = map (\<lambda>(d, F, T). mk_RevProc numHarts d F T Mem Env) cores;
            U = \<lparr>u_Procs = Procs, u_Enabled = replicate (length cores) False, u_ReadyThreads = [], u_BlockedThreads = [],
              u_CompletedThreads = [], u_PrivTag = 0, u_EnableFaults = False, u_EnableCrackFaults = False, u_EnableMemFaults = False,
              u_EnableRegFaults = False, u_EnableALUFaults = False, u_fault_width = 0, u_FaultCntr = 0,
              u_mem = Mem, u_regs = (\<lambda>_. mk_RevRegFile (fst (snd (hd cores)))), u_nregs = 0, u_draws = 0, u_round = 0, u_hostlog = [],
              u_env = Env, u_Stats = []\<rparr>
        in res_bind (StartAddress GetSymbolAddr ident Op) (\<lambda>StartAddr. InitMainThread (ident + 1) StartAddr Op U))"

section \<open>Lemmas: processors in the CPU\<close>

definition owners :: "nat \<Rightarrow> RevCPU \<Rightarrow> nat" where
  "owners r U = sum_list (map (owns r) (u_Procs U)) + thread_count r (u_ReadyThreads U) +
     thread_count r (u_BlockedThreads U) + thread_count r (map snd (u_CompletedThreads U))"

text \<open>
  The invariant of the CPU, while the threads \<open>Ts\<close> are on their way from a processor to the lists: the
  processors are consistent, a busy one is enabled, waiting threads have register files, and a
  register file has at most one owner.
\<close>

definition cpu_inv :: "RevThread list \<Rightarrow> RevCPU \<Rightarrow> bool" where
  "cpu_inv Ts U \<longleftrightarrow> length (u_Enabled U) = length (u_Procs U) \<and>
     (\<forall>i<length (u_Procs U). sched_inv (u_Procs U ! i) \<and> (\<forall>T\<in>set (q_ThreadsThatChangedState (u_Procs U ! i)). changed_ok T) \<and>
        (HasNoBusyHarts (u_Procs U ! i) \<or> u_Enabled U ! i)) \<and>
     (\<forall>T\<in>set (u_ReadyThreads U). th_VirtRegState T \<noteq> None) \<and>
     (\<forall>T\<in>set (u_BlockedThreads U). th_VirtRegState T \<noteq> None \<and> th_State T = BLOCKED) \<and> (\<forall>T\<in>set Ts. changed_ok T) \<and>
     (\<forall>r. owners r U + thread_count r Ts \<le> (if r < u_nregs U then 1 else 0))"

lemma proc_of_simps [simp]:
  "q_Harts (proc_of i U) = q_Harts (u_Procs U ! i)" "q_IdleHarts (proc_of i U) = q_IdleHarts (u_Procs U ! i)"
  "q_ValidHarts (proc_of i U) = q_ValidHarts (u_Procs U ! i)" "q_nregs (proc_of i U) = u_nregs U"
  "q_ThreadsThatChangedState (proc_of i U) = q_ThreadsThatChangedState (u_Procs U ! i)"
  by (simp_all add: proc_of_def)

lemma proc_of_inv [simp]:
  "sched_inv (proc_of i U) = sched_inv (u_Procs U ! i)" "owns r (proc_of i U) = owns r (u_Procs U ! i)"
  "HasIdleHart (proc_of i U) = HasIdleHart (u_Procs U ! i)" "HasNoBusyHarts (proc_of i U) = HasNoBusyHarts (u_Procs U ! i)"
  by (rule sched_inv_cong; simp add: proc_of_def) (simp_all add: owns_def HasIdleHart_def HasNoBusyHarts_def)

lemma proc_back_simps [simp]:
  "u_Procs (proc_back i P U) = (u_Procs U)[i := P]" "u_nregs (proc_back i P U) = q_nregs P" "u_Enabled (proc_back i P U) = u_Enabled U"
  "u_ReadyThreads (proc_back i P U) = u_ReadyThreads U" "u_BlockedThreads (proc_back i P U) = u_BlockedThreads U"
  "u_CompletedThreads (proc_back i P U) = u_CompletedThreads U" "u_EnableFaults (proc_back i P U) = u_EnableFaults U"
  by (simp_all add: proc_back_def)

lemma owners_back:
  assumes "i < length (u_Procs U)"
  shows "owners r (proc_back i P U) + owns r (u_Procs U ! i) = owners r U + owns r P"
proof -
  have "sum_list ((map (owns r) (u_Procs U))[i := owns r P]) + owns r (u_Procs U ! i) = sum_list (map (owns r) (u_Procs U)) + owns r P"
    using assms elem_le_sum_list [of i "map (owns r) (u_Procs U)"] by (simp add: sum_list_update)
  then show ?thesis by (simp add: owners_def map_update)
qed

text \<open>A processor that has run, with its threads.\<close>

lemma cpu_inv_moves:
  assumes inv: "cpu_inv [] U" and i: "i < length (u_Procs U)" and m: "moves (proc_of i U) P" and s: "sched_inv P"
    and e: "HasNoBusyHarts P \<or> u_Enabled U ! i"
  shows "cpu_inv [] (proc_back i P U)"
proof -
  have c: "\<forall>T\<in>set (q_ThreadsThatChangedState P). changed_ok T"
    using m inv i unfolding moves_def cpu_inv_def by auto
  have "owners r (proc_back i P U) \<le> (if r < q_nregs P then 1 else 0)" for r
  proof -
    have "owners r (proc_back i P U) = owners r U + (if u_nregs U \<le> r \<and> r < q_nregs P then 1 else 0)" "u_nregs U \<le> q_nregs P"
      using owners_back [OF i, of r P] m by (auto simp: moves_def)
    moreover have "owners r U \<le> (if r < u_nregs U then 1 else 0)" using inv by (simp add: cpu_inv_def)
    ultimately show ?thesis by (auto split: if_splits)
  qed
  then show ?thesis using inv i c s e by (auto simp: cpu_inv_def nth_list_update)
qed

lemma cpu_inv_still:
  assumes "cpu_inv [] U" "i < length (u_Procs U)" "harts_same (proc_of i U) P" "ids_same (proc_of i U) P"
  shows "cpu_inv [] (proc_back i P U)"
proof (rule cpu_inv_moves [OF assms(1,2) moves_same [OF assms(3)]])
  show "sched_inv P" using sched_inv_frame [OF assms(4)] assms(1,2) by (simp add: cpu_inv_def)
  show "HasNoBusyHarts P \<or> u_Enabled U ! i" using assms by (simp add: cpu_inv_def harts_same_def HasNoBusyHarts_def)
qed

section \<open>Lemmas: assignment\<close>

lemma AssignThread_owns:
  assumes "sched_inv P" "HasIdleHart P" "th_VirtRegState T = Some r" "AssignThread T P = Inr Q"
  shows "owns r' Q = owns r' P + (if r' = r then 1 else 0)" "q_ThreadsThatChangedState Q = q_ThreadsThatChangedState P" "q_nregs Q = q_nregs P"
proof -
  obtain h where h: "FindIdleHartID P = Inr h"
    and Q: "Q = P\<lparr>q_Harts := (q_Harts P)[unat h := (q_Harts P ! unat h)\<lparr>ha_Thread := Some ((SetState RUNNING T)\<lparr>th_VirtRegState := None\<rparr>), ha_RegFile := Some r\<rparr>],
      q_IdleHarts := q_IdleHarts P - {unat h}\<rparr>"
    using assms(3,4) by (auto simp: AssignThread_def hart_AssignThread_def res_bind_eq_Inr)
  obtain k where "k < length (q_Harts P)" "k \<in> q_IdleHarts P" "h = of_nat k"
    using h by (auto simp: FindIdleHartID_def find_upt_least split: option.splits)
  moreover have "length (q_Harts P) \<le> 4096" using assms(1) by (auto simp: sched_inv_def proc_inv_def word_le_nat_alt)
  ultimately have k: "unat h < length (q_Harts P)" "unat h \<in> q_IdleHarts P" by (simp_all add: unat_of_nat)
  then have "hart_ok P (unat h)" using assms(1) by (simp add: sched_inv_def proc_inv_def)
  then have n: "ha_RegFile (q_Harts P ! unat h) = None" using k(2) by (auto simp: hart_ok_def Let_def)
  show "owns r' Q = owns r' P + (if r' = r then 1 else 0)"
    using hart_count_update [OF k(1), of r' "(q_Harts P ! unat h)\<lparr>ha_Thread := Some ((SetState RUNNING T)\<lparr>th_VirtRegState := None\<rparr>), ha_RegFile := Some r\<rparr>"] n
    by (auto simp: Q owns_def split: if_splits)
  show "q_ThreadsThatChangedState Q = q_ThreadsThatChangedState P" "q_nregs Q = q_nregs P" by (simp_all add: Q)
qed

lemma UpdateThreadAssignments_inv:
  assumes "cpu_inv [] U" "i < length (u_Procs U)" "UpdateThreadAssignments i U = Inr V"
  shows "cpu_inv [] V" "length (u_Procs V) = length (u_Procs U)"
proof -
  have "cpu_inv [] V \<and> length (u_Procs V) = length (u_Procs U)"
  proof (cases "V = U")
    case False
    then obtain T Ts P where r: "u_ReadyThreads U = T # Ts" "HasIdleHart (u_Procs U ! i)" and p: "AssignThread T (proc_of i U) = Inr P"
      and V: "V = (proc_back i P U)\<lparr>u_ReadyThreads := Ts, u_Enabled := (u_Enabled U)[i := True]\<rparr>"
      using assms(3) by (auto simp: UpdateThreadAssignments_def res_bind_eq_Inr split: list.splits if_splits)
    have inv: "sched_inv (u_Procs U ! i)" "length (u_Enabled U) = length (u_Procs U)"
      "\<And>r. owners r U \<le> (if r < u_nregs U then 1 else 0)" using assms(1,2) by (auto simp: cpu_inv_def)
    obtain r where Tr: "th_VirtRegState T = Some r" using assms(1) r(1) by (auto simp: cpu_inv_def)
    have o: "owns r' P = owns r' (u_Procs U ! i) + (if r' = r then 1 else 0)" "q_ThreadsThatChangedState P = q_ThreadsThatChangedState (u_Procs U ! i)"
      "q_nregs P = u_nregs U" for r'
      using AssignThread_owns [OF _ _ Tr p] inv(1) r(2) by simp_all
    have "owners r' V = owners r' U" for r'
    proof -
      have "owners r' (proc_back i P U) = owners r' U + (if r' = r then 1 else 0)" using owners_back [OF assms(2), of r' P] o(1) [of r'] by simp
      moreover have "owners r' (proc_back i P U) = owners r' V + (if r' = r then 1 else 0)" using Tr by (auto simp: owners_def V r(1))
      ultimately show ?thesis by simp
    qed
    moreover have "sched_inv P"
    proof (rule AssignThread_sched [OF _ _ Tr _ p])
      show "\<forall>k<length (q_Harts (proc_of i U)). ha_RegFile (q_Harts (proc_of i U) ! k) \<noteq> Some r"
      proof (intro allI impI notI)
        fix k assume k: "k < length (q_Harts (proc_of i U))" "ha_RegFile (q_Harts (proc_of i U) ! k) = Some r"
        then have "q_Harts (u_Procs U ! i) ! k \<in> set (filter (\<lambda>H. ha_RegFile H = Some r) (q_Harts (u_Procs U ! i)))" by simp
        from length_pos_if_in_set [OF this] have "1 \<le> hart_count r (q_Harts (u_Procs U ! i))" unfolding hart_count_def by linarith
        moreover have "hart_count r (q_Harts (u_Procs U ! i)) \<le> sum_list (map (owns r) (u_Procs U))"
          using elem_le_sum_list [of i "map (owns r) (u_Procs U)"] assms(2) by (simp add: owns_def)
        ultimately have "2 \<le> owners r U" using Tr by (simp add: owners_def r(1))
        then show False using inv(3) [of r] by (auto split: if_splits)
      qed
    qed (use inv(1) r(2) in simp_all)
    ultimately show ?thesis
      using assms(1,2) inv o(2,3) r(1) by (auto simp: cpu_inv_def V nth_list_update)
  qed (use assms in simp)
  then show "cpu_inv [] V" "length (u_Procs V) = length (u_Procs U)" by simp_all
qed

section \<open>Lemmas: threads that changed state\<close>

lemma emplace_count: "thread_count r (map snd (emplace_completed k T m)) \<le> thread_count r (map snd m) + (if th_VirtRegState T = Some r then 1 else 0)"
  by (simp add: emplace_completed_def)

lemma cpu_inv_disable:
  assumes "cpu_inv Ts U" "HasNoBusyHarts (u_Procs U ! i)" shows "cpu_inv Ts (U\<lparr>u_Enabled := (u_Enabled U)[i := False]\<rparr>)"
proof -
  have "HasNoBusyHarts (u_Procs U ! k) \<or> (u_Enabled U)[i := False] ! k" if "k < length (u_Procs U)" for k
    using assms that by (cases "k = i") (auto simp: cpu_inv_def)
  then show ?thesis using assms by (auto simp: cpu_inv_def owners_def)
qed

lemma handle_state_change_inv:
  assumes "cpu_inv (T # Ts) U"
  shows "\<exists>V. handle_state_change i T U = Inr V \<and> cpu_inv Ts V \<and> length (u_Procs V) = length (u_Procs U)"
proof -
  have t: "changed_ok T" "\<And>r. owners r U + (if th_VirtRegState T = Some r then 1 else 0) + thread_count r Ts \<le> (if r < u_nregs U then 1 else 0)"
    using assms by (auto simp: cpu_inv_def add.assoc)
  have st: "th_State T = START \<or> th_State T = BLOCKED \<or> th_State T = DONE" using t(1) by (auto simp: changed_ok_def)
  define V where "V = (case th_State T of
      DONE \<Rightarrow> U\<lparr>u_CompletedThreads := emplace_completed (th_ID T) T (u_CompletedThreads U)\<rparr>
    | BLOCKED \<Rightarrow> U\<lparr>u_BlockedThreads := u_BlockedThreads U @ [SetState BLOCKED T]\<rparr>
    | _ \<Rightarrow> U\<lparr>u_ReadyThreads := u_ReadyThreads U @ [SetState READY T]\<rparr>)"
  have own: "owners r V \<le> owners r U + (if th_VirtRegState T = Some r then 1 else 0)" for r
    using st emplace_count [of r "th_ID T" T "u_CompletedThreads U"] by (auto simp: V_def owners_def SetState_def)
  have "owners r V + thread_count r Ts \<le> (if r < u_nregs U then 1 else 0)" for r
    using own [of r] t(2) [of r] by linarith
  moreover have "u_nregs V = u_nregs U" "u_Procs V = u_Procs U" "u_Enabled V = u_Enabled U" using st by (auto simp: V_def)
  ultimately have inv: "cpu_inv Ts V"
    using assms t(1) st by (auto simp: cpu_inv_def V_def SetState_def changed_ok_def)
  have "handle_state_change i T U = Inr (if HasNoWork True (proc_of i V) then V\<lparr>u_Enabled := (u_Enabled V)[i := False]\<rparr> else V)"
    using st by (auto simp: handle_state_change_def V_def)
  moreover have "u_Procs V = u_Procs U" using st by (auto simp: V_def)
  ultimately show ?thesis using inv cpu_inv_disable [OF inv, of i] by (auto simp: HasNoWork_def)
qed

lemma handle_state_changes_inv:
  "cpu_inv Ts U \<Longrightarrow> \<exists>V. handle_state_changes i Ts U = Inr V \<and> cpu_inv [] V \<and> length (u_Procs V) = length (u_Procs U)"
proof (induction Ts arbitrary: U)
  case (Cons T Ts)
  then show ?case using handle_state_change_inv [OF Cons.prems, of i] by fastforce
qed simp

text \<open>So the CPU always copes with what a processor hands it.\<close>

lemma HandleThreadStateChangesForProc_inv:
  assumes "cpu_inv [] U" "i < length (u_Procs U)"
  shows "\<exists>V. HandleThreadStateChangesForProc i U = Inr V \<and> cpu_inv [] V \<and> length (u_Procs V) = length (u_Procs U)"
proof -
  let ?Ts = "q_ThreadsThatChangedState (u_Procs U ! i)" and ?P = "(proc_of i U)\<lparr>q_ThreadsThatChangedState := []\<rparr>"
  have o: "owns r (u_Procs U ! i) = owns r ?P + thread_count r ?Ts" for r by (simp add: owns_def)
  have "sched_inv ?P = sched_inv (proc_of i U)" by (rule sched_inv_cong) simp_all
  moreover have "HasNoBusyHarts ?P = HasNoBusyHarts (u_Procs U ! i)" by (simp add: HasNoBusyHarts_def)
  moreover have "owners r (proc_back i ?P U) + thread_count r ?Ts = owners r U" for r
    using owners_back [OF assms(2), of r ?P] o [of r] by simp
  ultimately have "cpu_inv ?Ts (proc_back i ?P U)"
    using assms by (auto simp: cpu_inv_def nth_list_update)
  from handle_state_changes_inv [OF this, of i] show ?thesis
    by (simp add: HandleThreadStateChangesForProc_def TransferThreadsThatChangedState_def)
qed

lemma check_blocked_filter:
  "check_blocked Ts U = (filter (\<lambda>T. ThreadCanProceed T U) Ts, filter (\<lambda>T. \<not> ThreadCanProceed T U) Ts)"
  by (induction Ts) auto

lemma thread_count_partition: "thread_count r (filter Q Ts) + thread_count r (filter (\<lambda>T. \<not> Q T) Ts) = thread_count r Ts"
  by (induction Ts) auto

lemma CheckBlockedThreads_inv: "cpu_inv [] U \<Longrightarrow> cpu_inv [] (CheckBlockedThreads U)"
proof -
  assume inv: "cpu_inv [] U"
  have "owners r (CheckBlockedThreads U) = owners r U" for r
    using thread_count_partition [of r "\<lambda>T. ThreadCanProceed T U" "u_BlockedThreads U"]
    by (simp add: CheckBlockedThreads_def check_blocked_filter owners_def)
  then show "cpu_inv [] (CheckBlockedThreads U)"
    using inv by (auto simp: cpu_inv_def CheckBlockedThreads_def check_blocked_filter)
qed

section \<open>Lemmas: the clock\<close>

lemma UpdateCoreStatistics_inv:
  assumes "cpu_inv [] U" "i < length (u_Procs U)"
  shows "cpu_inv [] (UpdateCoreStatistics i U)" "length (u_Procs (UpdateCoreStatistics i U)) = length (u_Procs U)"
proof -
  let ?P = "snd (GetAndClearStats (proc_of i U))"
  have "ids_same (proc_of i U) ?P" by (simp add: GetAndClearStats_def Let_def ids_defs)
  then have "cpu_inv [] (proc_back i ?P U)" using cpu_inv_still [OF assms] by (simp add: ids_same_def)
  then show "cpu_inv [] (UpdateCoreStatistics i U)" by (auto simp: UpdateCoreStatistics_def case_prod_beta cpu_inv_def owners_def)
  show "length (u_Procs (UpdateCoreStatistics i U)) = length (u_Procs U)" by (simp add: UpdateCoreStatistics_def case_prod_beta)
qed

lemma ClockTick_True: "ClockTick cp E P = Inr (b, Q) \<Longrightarrow> b"
  by (auto simp: ClockTick_def res_bind_eq_Inr split: option.splits)

lemma tick_core_inv:
  assumes "cpu_inv [] U" "i < length (u_Procs U)" "tick_core i U = Inr V"
  shows "cpu_inv [] V \<and> length (u_Procs V) = length (u_Procs U)"
proof -
  obtain U1 where u1: "UpdateThreadAssignments i U = Inr U1" using assms(3) by (auto simp: tick_core_def res_bind_eq_Inr)
  note i1 = UpdateThreadAssignments_inv [OF assms(1,2) u1]
  obtain U2 U3 where u2: "(if u_Enabled U1 ! i then
          res_bind (ClockTick (\<lambda>_. False) Ecalls (proc_of i U1)) (\<lambda>(ok, P).
          let U2 = proc_back i P U1
          in Inr (if ok then U2 else (UpdateCoreStatistics i U2)\<lparr>u_Enabled := (u_Enabled U2)[i := False]\<rparr>))
        else Inr U1) = Inr U2"
    and u3: "HandleThreadStateChangesForProc i U2 = Inr U3"
      "V = (if HasNoBusyHarts (proc_of i U3) then U3\<lparr>u_Enabled := (u_Enabled U3)[i := False]\<rparr> else U3)"
    using assms(3) u1 by (auto simp: tick_core_def res_bind_eq_Inr)
  have "cpu_inv [] U2 \<and> length (u_Procs U2) = length (u_Procs U)"
  proof (cases "u_Enabled U1 ! i")
    case True
    then obtain P where p: "ClockTick (\<lambda>_. False) Ecalls (proc_of i U1) = Inr (True, P)" "U2 = proc_back i P U1"
      using u2 ClockTick_True by (fastforce simp: res_bind_eq_Inr Let_def)
    have s: "sched_inv (proc_of i U1)" using i1 assms(2) by (simp add: cpu_inv_def)
    show ?thesis
      using cpu_inv_moves [OF i1(1) _ ethreads.ClockTick_moves [OF s p(1)] ecalls.ClockTick_inv [OF s p(1)]] True i1(2) assms(2) p(2) by simp
  qed (use u2 i1 in simp)
  then have "cpu_inv [] U3 \<and> length (u_Procs U3) = length (u_Procs U)"
    using HandleThreadStateChangesForProc_inv [of U2 i] u3(1) assms(2) by auto
  then show ?thesis using u3(2) cpu_inv_disable [of "[]" U3 i] by auto
qed

lemma tick_cores_inv:
  "cpu_inv [] U \<Longrightarrow> \<forall>i\<in>set is. i < length (u_Procs U) \<Longrightarrow> tick_cores is U = Inr V \<Longrightarrow>
    cpu_inv [] V \<and> length (u_Procs V) = length (u_Procs U)"
proof (induction "is" arbitrary: U)
  case (Cons i "is")
  then obtain W where W: "tick_core i U = Inr W" "tick_cores is W = Inr V" by (auto simp: res_bind_eq_Inr)
  have "cpu_inv [] W \<and> length (u_Procs W) = length (u_Procs U)" using tick_core_inv [OF Cons.prems(1) _ W(1)] Cons.prems(2) by simp
  then show ?case using Cons.IH [OF _ _ W(2)] Cons.prems(2) by simp
qed simp

lemma fault_core_bound:
  "fault_core U = Inr (i, V) \<Longrightarrow> i < length (u_Procs U) \<and> (\<exists>d. V = U\<lparr>u_draws := d\<rparr>)"
  by (auto simp: fault_core_def cpu_draw32_def Let_def split: if_splits intro: exI [of _ "u_draws U"])

lemma cpu_inv_draws [simp]: "cpu_inv Ts (U\<lparr>u_draws := d\<rparr>) = cpu_inv Ts U" "cpu_inv Ts (U\<lparr>u_mem := m\<rparr>) = cpu_inv Ts U"
  "cpu_inv Ts (U\<lparr>u_FaultCntr := c\<rparr>) = cpu_inv Ts U"
  by (simp_all add: cpu_inv_def owners_def)

lemma fault_on_core:
  assumes "f \<in> {cpu_HandleCrackFault, cpu_HandleRegFault, cpu_HandleALUFault}" "f U = Inr V"
  shows "\<exists>i W P. fault_core U = Inr (i, W) \<and> ids_same (proc_of i W) P \<and> V = proc_back i P W"
proof -
  have h: "ids_same P (HandleCrackFault w P)" "ids_same P (HandleALUFault w P)" for P w
    by (simp_all add: HandleCrackFault_def HandleALUFault_def ids_defs)
  consider "f = cpu_HandleCrackFault" | "f = cpu_HandleRegFault" | "f = cpu_HandleALUFault" using assms(1) by blast
  then show ?thesis
  proof cases
    case 1
    then show ?thesis using assms(2) h(1) by (clarsimp simp: cpu_HandleCrackFault_def res_bind_eq_Inr) blast
  next
    case 2
    then show ?thesis using assms(2) HandleRegFault_ids by (clarsimp simp: cpu_HandleRegFault_def res_bind_eq_Inr) blast
  next
    case 3
    then show ?thesis using assms(2) h(2) by (clarsimp simp: cpu_HandleALUFault_def res_bind_eq_Inr) blast
  qed
qed

lemma fault_inv:
  assumes "cpu_inv [] U" "f \<in> {cpu_HandleCrackFault, HandleMemFault, cpu_HandleRegFault, cpu_HandleALUFault}" "f U = Inr V"
  shows "cpu_inv [] V \<and> length (u_Procs V) = length (u_Procs U)"
proof -
  have still: "cpu_inv [] (proc_back i P (U\<lparr>u_draws := d\<rparr>))" if "i < length (u_Procs U)" "ids_same (proc_of i (U\<lparr>u_draws := d\<rparr>)) P" for i P d
    using cpu_inv_still [of "U\<lparr>u_draws := d\<rparr>" i P] assms(1) that by (simp add: ids_same_def)
  have "\<exists>i d P. i < length (u_Procs U) \<and> ids_same (proc_of i (U\<lparr>u_draws := d\<rparr>)) P \<and> V = proc_back i P (U\<lparr>u_draws := d\<rparr>)"
    if "f \<noteq> HandleMemFault" using fault_on_core [of f U V] fault_core_bound assms(2,3) that by blast
  then consider "f = HandleMemFault" | i d P where "i < length (u_Procs U)" "ids_same (proc_of i (U\<lparr>u_draws := d\<rparr>)) P" "V = proc_back i P (U\<lparr>u_draws := d\<rparr>)"
    by blast
  then show ?thesis
  proof cases
    case 1
    then obtain d m where "V = U\<lparr>u_draws := d, u_mem := m\<rparr>"
      using assms(3) by (auto simp: HandleMemFault_def cpu_draw32_def cpu_draw64_def Let_def split: if_splits)
    then show ?thesis using assms(1) by simp
  next
    case (2 i d P)
    then show ?thesis using still by simp
  qed
qed

lemma tick_faults_inv:
  assumes "cpu_inv [] U" "tick_faults U = Inr V"
  shows "cpu_inv [] V \<and> length (u_Procs V) = length (u_Procs U)"
proof (cases "u_EnableFaults U \<and> u_FaultCntr U = 0")
  case True
  then obtain W where W: "HandleFaultInjection U = Inr W" "V = W\<lparr>u_FaultCntr := ucast (u_fault_width W)\<rparr>"
    using assms(2) by (auto simp: tick_faults_def res_bind_eq_Inr)
  have "\<exists>d s. s < length (myfaults U) \<and> (myfaults U ! s) (U\<lparr>u_draws := d\<rparr>) = Inr W"
  proof (cases "length (myfaults U) = 1")
    case one: True
    then have "(myfaults U ! 0) (U\<lparr>u_draws := u_draws U\<rparr>) = Inr W" using W(1) by (auto simp: HandleFaultInjection_def Let_def split: if_splits)
    then show ?thesis using one by (metis zero_less_one)
  next
    case False
    then show ?thesis
      using W(1) by (intro exI [of "\<lambda>d. \<exists>s. s < length (myfaults U) \<and> (myfaults U ! s) (U\<lparr>u_draws := d\<rparr>) = Inr W" "Suc (u_draws U)"]) (auto simp: HandleFaultInjection_def cpu_draw32_def Let_def not_le split: if_splits)
  qed
  then obtain d s where s: "s < length (myfaults U)" "(myfaults U ! s) (U\<lparr>u_draws := d\<rparr>) = Inr W" by blast
  have "myfaults U ! s \<in> {cpu_HandleCrackFault, HandleMemFault, cpu_HandleRegFault, cpu_HandleALUFault}"
    using nth_mem [OF s(1)] by (auto simp: myfaults_def split: if_splits)
  then show ?thesis using fault_inv [where f = "myfaults U ! s" and U = "U\<lparr>u_draws := d\<rparr>", OF _ _ s(2)] assms(1) W(2) by simp
qed (use assms in \<open>auto simp: tick_faults_def split: if_splits\<close>)

lemma statistics_inv:
  "cpu_inv [] U \<Longrightarrow> \<forall>i\<in>set is. i < length (u_Procs U) \<Longrightarrow>
    cpu_inv [] (fold UpdateCoreStatistics is U) \<and> length (u_Procs (fold UpdateCoreStatistics is U)) = length (u_Procs U)"
  by (induction "is" arbitrary: U) (simp_all add: UpdateCoreStatistics_inv)

lemma clockTick_inv:
  assumes "cpu_inv [] U" "clockTick U = Inr (b, V)"
  shows "cpu_inv [] V"
proof -
  obtain U1 U2 where u: "tick_cores [0..<length (u_Procs U)] U = Inr U1" "tick_faults U1 = Inr U2"
    using assms(2) by (auto simp: clockTick_def res_bind_eq_Inr)
  have "cpu_inv [] U1" using tick_cores_inv [OF assms(1) _ u(1)] by simp
  then have i2: "cpu_inv [] U2" using tick_faults_inv [OF _ u(2)] by simp
  have "V = U2 \<or> V = CheckBlockedThreads U2 \<or> V = fold UpdateCoreStatistics [0..<length (u_Procs U2)] U2"
    using assms(2) u by (auto simp: clockTick_def Let_def split: if_splits)
  then show ?thesis using i2 CheckBlockedThreads_inv [OF i2] statistics_inv [OF i2, of "[0..<length (u_Procs U2)]"] by auto
qed

section \<open>Runs of the simulation\<close>

inductive cpu_reachable :: "RevCPU \<Rightarrow> bool" where
  start: "mk_RevCPU cores n Mem Env GetSymbolAddr ident Op = Inr U \<Longrightarrow> 0 < n \<Longrightarrow> cpu_reachable U"
| faults: "cpu_reachable U \<Longrightarrow> InitFaults fs w rg U = Inr V \<Longrightarrow> cpu_reachable V"
| tick: "cpu_reachable U \<Longrightarrow> clockTick U = Inr (b, V) \<Longrightarrow> cpu_reachable V"

lemma mk_RevProc_fields:
  "q_ThreadsThatChangedState (mk_RevProc n d F T M E) = []" "hart_count r (q_Harts (mk_RevProc n d F T M E)) = 0"
  "HasNoBusyHarts (mk_RevProc n d F T M E)"
  by (simp_all add: mk_RevProc_def Reset_def HasNoBusyHarts_def hart_count_def mk_RevHart_def filter_empty_conv)

lemma mk_RevCPU_fields:
  assumes "mk_RevCPU cores n M Env syms ident Op = Inr U"
  shows "u_Procs U = map (\<lambda>(d, F, T). mk_RevProc n d F T M Env) cores" "u_Enabled U = replicate (length cores) False"
    "\<exists>T. u_ReadyThreads U = [T] \<and> th_VirtRegState T = Some 0" "u_BlockedThreads U = []" "u_CompletedThreads U = []" "u_nregs U = 1"
    "n \<le> 4096" "\<not> u_EnableFaults U"
  using assms by (auto simp: mk_RevCPU_def InitMainThread_def Let_def res_bind_eq_Inr SetState_def mk_RevThread_def split: if_splits list.split_asm)

lemma mk_RevCPU_inv:
  assumes "mk_RevCPU cores n M Env syms ident Op = Inr U" "0 < n" shows "cpu_inv [] U"
proof -
  note f = mk_RevCPU_fields [OF assms(1)]
  obtain T where U: "u_Procs U = map (\<lambda>(d, F, T). mk_RevProc n d F T M Env) cores" "u_Enabled U = replicate (length cores) False"
    "u_ReadyThreads U = [T]" "th_VirtRegState T = Some 0" "u_BlockedThreads U = []" "u_CompletedThreads U = []" "u_nregs U = 1" and n: "n \<le> 4096"
    using f by blast
  have "owns r (u_Procs U ! i) = 0" "HasNoBusyHarts (u_Procs U ! i)" "q_ThreadsThatChangedState (u_Procs U ! i) = []" "sched_inv (u_Procs U ! i)"
    if "i < length cores" for i r
    using that mk_RevProc_inv [OF assms(2) n] by (simp_all add: U(1) case_prod_beta owns_def mk_RevProc_fields)
  moreover have "sum_list (map (owns r) (u_Procs U)) = 0" for r
    by (simp add: U(1) sum_list_eq_0_iff case_prod_beta owns_def mk_RevProc_fields)
  ultimately show ?thesis using U by (auto simp: cpu_inv_def owners_def)
qed

lemma cpu_inv_flags [simp]:
  "cpu_inv Ts (U\<lparr>u_EnableCrackFaults := b\<rparr>) = cpu_inv Ts U" "cpu_inv Ts (U\<lparr>u_EnableMemFaults := b\<rparr>) = cpu_inv Ts U"
  "cpu_inv Ts (U\<lparr>u_EnableRegFaults := b\<rparr>) = cpu_inv Ts U" "cpu_inv Ts (U\<lparr>u_EnableALUFaults := b\<rparr>) = cpu_inv Ts U"
  "cpu_inv Ts (U\<lparr>u_EnableFaults := b\<rparr>) = cpu_inv Ts U" "cpu_inv Ts (U\<lparr>u_fault_width := w\<rparr>) = cpu_inv Ts U"
  by (simp_all add: cpu_inv_def owners_def)

lemma decode_faults_inv: "decode_faults fs U = Inr V \<Longrightarrow> cpu_inv [] V = cpu_inv [] U"
proof (induction fs arbitrary: U)
  case (Cons f fs)
  from Cons.prems obtain W where "decode_faults fs W = Inr V" "cpu_inv [] W = cpu_inv [] U"
    unfolding decode_faults.simps by (simp only: split: if_split_asm) (auto simp only: cpu_inv_flags sum.distinct)
  then show ?case using Cons.IH by simp
qed simp

lemma InitFaults_inv: "InitFaults fs w rg U = Inr V \<Longrightarrow> cpu_inv [] U \<Longrightarrow> cpu_inv [] V"
proof -
  assume "InitFaults fs w rg U = Inr V" and inv: "cpu_inv [] U"
  then obtain W u c where W: "DecodeFaultCodes fs (U\<lparr>u_EnableFaults := True\<rparr>) = Inr W" "V = W\<lparr>u_fault_width := u, u_FaultCntr := c\<rparr>"
    by (auto simp: InitFaults_def res_bind_eq_Inr Let_def)
  have "cpu_inv [] W" using W(1) inv decode_faults_inv [of fs _ W] by (auto simp: DecodeFaultCodes_def split: if_split_asm)
  then show "cpu_inv [] V" by (simp add: W(2))
qed

lemma cpu_reachable_inv: "cpu_reachable U \<Longrightarrow> cpu_inv [] U"
  by (induction rule: cpu_reachable.induct) (auto intro: mk_RevCPU_inv InitFaults_inv clockTick_inv)

text \<open>
  C4: In every state the simulation can reach, a register file has at most one owner among all harts of all
  processors and all waiting, blocked and completed threads; every processor is consistent, and one
  that has a thread on a hart is clocked.
\<close>

theorem threads_exclusive:
  assumes "cpu_reachable U"
  shows "owners r U \<le> 1 \<and> (\<forall>i<length (u_Procs U). sched_inv (u_Procs U ! i) \<and>
    ((\<exists>h<length (q_Harts (u_Procs U ! i)). ha_Thread (q_Harts (u_Procs U ! i) ! h) \<noteq> None) \<longrightarrow> u_Enabled U ! i))"
proof -
  note inv = cpu_reachable_inv [OF assms]
  then have "owners r U \<le> (if r < u_nregs U then 1 else 0)" by (simp add: cpu_inv_def)
  moreover have "u_Enabled U ! i" if i: "i < length (u_Procs U)" and h: "h < length (q_Harts (u_Procs U ! i))"
      "ha_Thread (q_Harts (u_Procs U ! i) ! h) \<noteq> None" for i h
  proof -
    have s: "proc_inv (u_Procs U ! i)" "HasNoBusyHarts (u_Procs U ! i) \<or> u_Enabled U ! i" using inv i by (auto simp: cpu_inv_def sched_inv_def)
    then have "h \<notin> q_IdleHarts (u_Procs U ! i)" "h \<in> q_ValidHarts (u_Procs U ! i)" using h by (auto simp: proc_inv_def hart_ok_def Let_def)
    then show ?thesis using s(2) by (auto simp: HasNoBusyHarts_def)
  qed
  ultimately show ?thesis using inv by (auto simp: cpu_inv_def split: if_splits)
qed

text \<open>
  C10: A clock tick tells SST that the component is done (it returns true) only when at least one thread has
  completed and no thread is left: none is ready or blocked, and no hart of any core has one. This is
  about the regular end; an error and the \<^verbatim>\<open>exit\<close> system call of a thread, which ends the whole process at
  once, are the other results of a tick.
\<close>

theorem clockTick_done:
  assumes "cpu_inv [] U" "clockTick U = Inr (True, V)"
  shows "u_ReadyThreads V = [] \<and> u_BlockedThreads V = [] \<and> u_CompletedThreads V \<noteq> [] \<and>
    (\<forall>i<length (u_Procs V). \<forall>h<length (q_Harts (u_Procs V ! i)). ha_Thread (q_Harts (u_Procs V ! i) ! h) = None)"
proof -
  obtain U1 U2 where u: "tick_cores [0..<length (u_Procs U)] U = Inr U1" "tick_faults U1 = Inr U2"
    using assms(2) by (auto simp: clockTick_def res_bind_eq_Inr)
  have "cpu_inv [] U1" using tick_cores_inv [OF assms(1) _ u(1)] by simp
  then have i2: "cpu_inv [] U2" using tick_faults_inv [OF _ u(2)] by simp
  let ?is = "[0..<length (u_Procs U2)]"
  have V: "V = fold UpdateCoreStatistics ?is U2" "u_ReadyThreads U2 = []" "u_BlockedThreads U2 = []" "u_CompletedThreads U2 \<noteq> []"
    "\<not> list_ex id (u_Enabled U2)"
    using assms(2) u by (auto simp: clockTick_def Let_def split: if_splits)
  have s: "u_ReadyThreads (fold UpdateCoreStatistics js W) = u_ReadyThreads W \<and> u_BlockedThreads (fold UpdateCoreStatistics js W) = u_BlockedThreads W \<and>
     u_CompletedThreads (fold UpdateCoreStatistics js W) = u_CompletedThreads W \<and> u_Enabled (fold UpdateCoreStatistics js W) = u_Enabled W" for js W
    by (induction js arbitrary: W) (simp_all add: UpdateCoreStatistics_def case_prod_beta)
  have iV: "cpu_inv [] V" using statistics_inv [OF i2, of ?is] V(1) by simp
  have "ha_Thread (q_Harts (u_Procs V ! i) ! h) = None" if i: "i < length (u_Procs V)" "h < length (q_Harts (u_Procs V ! i))" for i h
  proof -
    have "\<not> u_Enabled V ! i" using V(1,5) s iV i(1) by (auto simp: list_ex_length cpu_inv_def)
    then have "HasNoBusyHarts (u_Procs V ! i)" "proc_inv (u_Procs V ! i)" using iV i(1) by (auto simp: cpu_inv_def sched_inv_def)
    then show ?thesis using i(2) by (auto simp: HasNoBusyHarts_def proc_inv_def hart_ok_def Let_def)
  qed
  then show ?thesis using V s by simp
qed

text \<open>
  C26: A thread blocked in \<^verbatim>\<open>pthread_join\<close> becomes ready exactly if the thread it waits for has completed, or if it
  waits for none; the order of the threads is kept, and none is lost.
\<close>

theorem CheckBlockedThreads_join:
  "let done = (\<lambda>T. th_WaitingToJoinTID T = INVALID_TID \<or> th_WaitingToJoinTID T \<in> fst ` set (u_CompletedThreads U)) in
   u_ReadyThreads (CheckBlockedThreads U) = u_ReadyThreads U @ filter done (u_BlockedThreads U) \<and>
   u_BlockedThreads (CheckBlockedThreads U) = filter (\<lambda>T. \<not> done T) (u_BlockedThreads U)"
proof -
  have "ThreadCanProceed T U \<longleftrightarrow> th_WaitingToJoinTID T = INVALID_TID \<or> th_WaitingToJoinTID T \<in> fst ` set (u_CompletedThreads U)" for T
    by (auto simp: ThreadCanProceed_def map_of_eq_None_iff)
  then show ?thesis by (simp add: CheckBlockedThreads_def check_blocked_filter)
qed

text \<open>A thread that ends with the number of a completed thread is forgotten.\<close>

lemma duplicate_ID_lost:
  assumes "th_State T = DONE" "th_ID T \<in> fst ` set (u_CompletedThreads U)" "handle_state_change i T U = Inr V"
  shows "u_CompletedThreads V = u_CompletedThreads U" "u_ReadyThreads V = u_ReadyThreads U" "u_BlockedThreads V = u_BlockedThreads U"
proof -
  have "map_of (u_CompletedThreads U) (th_ID T) \<noteq> None" using assms(2) by (simp add: map_of_eq_None_iff)
  then show "u_CompletedThreads V = u_CompletedThreads U" "u_ReadyThreads V = u_ReadyThreads U" "u_BlockedThreads V = u_BlockedThreads U"
    using assms(1,3) by (auto simp: handle_state_change_def emplace_completed_def)
qed

text \<open>A thread that \<^verbatim>\<open>InitThread\<close> made ready cannot be assigned.\<close>

lemma InitThread_unusable:
  assumes "InitThread T U = Inr V" "HasIdleHart P" "proc_inv P"
  shows "\<exists>e. AssignThread (last (u_ReadyThreads V)) P = Inl e"
proof -
  have "th_VirtRegState (last (u_ReadyThreads V)) = None" using assms(1) by (auto simp: InitThread_def Let_def SetState_def split: option.splits)
  then show ?thesis by (cases "FindIdleHartID P") (auto simp: AssignThread_def hart_AssignThread_def)
qed

text \<open>
  Whatever fault width is configured, the width in use is the fault range, whose default is 65536: a memory
  fault then shifts by more bits than a word has.
\<close>

theorem fault_width_overwritten:
  assumes "InitFaults fs width rg U = Inr V"
  shows "u_fault_width V = ucast rg \<and> (rg = 65536 \<longrightarrow> HandleMemFault V = Inl (Undefined ''shift too large''))"
proof -
  obtain W c where "V = W\<lparr>u_fault_width := ucast rg, u_FaultCntr := c\<rparr>"
    using assms by (auto simp: InitFaults_def res_bind_eq_Inr Let_def)
  then have w: "u_fault_width V = ucast rg" by simp
  have "32 \<le> unat (ucast (65536 :: u64) :: u32)" by simp
  then show ?thesis using w unfolding HandleMemFault_def by simp
qed

section \<open>Examples\<close>

definition mem_threads :: RevMem where
  "mem_threads = mem_addi\<lparr>m_segs := snd (AddThreadMem (m_segs mem_addi))\<rparr>"

definition cpu_example :: RevCPU where
  "cpu_example = projr (mk_RevCPU [(3, feature_RV64GC, RevTables_empty)] 2 mem_threads env_example (\<lambda>_. 0x3F010) 0 (mk_RevOpts 1 2))"

lemma cpu_example_start: "mk_RevCPU [(3, feature_RV64GC, RevTables_empty)] 2 mem_threads env_example (\<lambda>_. 0x3F010) 0 (mk_RevOpts 1 2) = Inr cpu_example"
proof -
  have "s_ThreadMemSegs (m_segs mem_threads) = [fst (AddThreadMem (m_segs mem_addi))]"
    by (simp add: mem_threads_def AddThreadMem_def mem_addi_def mem_example_def AddMemSegAt_def RevSegs_init_def Let_def)
  then show ?thesis
    by (simp add: cpu_example_def mk_RevCPU_def StartAddress_def InitMainThread_def GetStartSymbol_def GetStartAddr_def mk_RevOpts_def Let_def)
qed

lemma cpu_example_fields:
  "length (u_Procs cpu_example) = 1" "u_Enabled cpu_example = [False]" "u_nregs cpu_example = 1"
  using mk_RevCPU_fields [OF cpu_example_start] by simp_all

theorem threads_exclusive_witness:
  "owners 0 cpu_example \<le> 1 \<and> sched_inv (u_Procs cpu_example ! 0)"
  using threads_exclusive [OF cpu_reachable.start [OF cpu_example_start], of 0] cpu_example_fields by simp

theorem fault_width_overwritten_witness:
  "\<exists>V. InitFaults [''mem''] ''word'' 65536 cpu_example = Inr V \<and> u_fault_width V = 65536 \<and>
     HandleMemFault V = Inl (Undefined ''shift too large'')"
proof -
  obtain V where V: "InitFaults [''mem''] ''word'' 65536 cpu_example = Inr V"
    by (simp add: InitFaults_def DecodeFaultCodes_def DecodeFaultWidth_def)
  then show ?thesis using fault_width_overwritten [OF V] by simp
qed

text \<open>The example when its thread is done.\<close>

definition cpu_done :: RevCPU where
  "cpu_done = cpu_example\<lparr>u_ReadyThreads := [], u_CompletedThreads := [(1, SetState DONE thread_example)]\<rparr>"

lemma cpu_done_inv: "cpu_inv [] cpu_done"
proof -
  have inv: "cpu_inv [] cpu_example" by (rule mk_RevCPU_inv [OF cpu_example_start]) simp
  have t: "th_VirtRegState (SetState DONE thread_example) = Some 0" by (simp add: thread_example_def mk_RevThread_def SetState_def)
  obtain T where "u_ReadyThreads cpu_example = [T]" "th_VirtRegState T = Some 0" using mk_RevCPU_fields(3) [OF cpu_example_start] by blast
  then have "owners r cpu_done = owners r cpu_example" for r
    using mk_RevCPU_fields(5) [OF cpu_example_start] t by (simp add: owners_def cpu_done_def)
  then show ?thesis using inv by (simp add: cpu_inv_def cpu_done_def)
qed

theorem clockTick_done_witness:
  "\<exists>V. clockTick cpu_done = Inr (True, V) \<and> u_CompletedThreads V \<noteq> [] \<and> u_ReadyThreads V = []"
proof -
  note f = mk_RevCPU_fields [OF cpu_example_start]
  let ?U = "proc_back 0 ((proc_of 0 cpu_done)\<lparr>q_ThreadsThatChangedState := []\<rparr>) cpu_done"
  have "tick_core 0 cpu_done = Inr (if HasNoBusyHarts (proc_of 0 ?U) then ?U\<lparr>u_Enabled := (u_Enabled ?U)[0 := False]\<rparr> else ?U)"
    by (simp add: tick_core_def UpdateThreadAssignments_def HandleThreadStateChangesForProc_def TransferThreadsThatChangedState_def cpu_done_def f
        mk_RevProc_fields)
  then obtain U1 where U1: "tick_core 0 cpu_done = Inr U1" "u_Enabled U1 = [False]" "\<not> u_EnableFaults U1" "u_ReadyThreads U1 = []"
    "u_BlockedThreads U1 = []" "u_CompletedThreads U1 \<noteq> []"
    by (simp add: cpu_done_def f split: if_splits)
  then obtain V where V: "clockTick cpu_done = Inr (True, V)"
    by (simp add: clockTick_def tick_faults_def cpu_done_def f)
  show ?thesis using clockTick_done [OF cpu_done_inv V] V by simp
qed

end
