(* ===== verification/Rev_CoProc.thy ===== *)
theory Rev_CoProc
  imports Rev_Pipeline
begin

text \<open>
  The simple coprocessor of \<^verbatim>\<open>src/RevCoProc.cc\<close>: a queue of instructions, each of which stalls hart 0 of the
  processor for some time when it is taken from the queue.
\<close>

section \<open>State and operations\<close>

text \<open>Of an instruction only the word is used; the register file it came with is kept.\<close>

record RevCoProcInst =
  ci_Inst :: u32
  ci_RegFile :: nat

record RevSimpleCoProc =
  co_InstQ :: "RevCoProcInst list"
  co_cycleCount :: u64
  co_instRetired :: u64

definition mk_RevSimpleCoProc :: RevSimpleCoProc where
  "mk_RevSimpleCoProc = \<lparr>co_InstQ = [], co_cycleCount = 0, co_instRetired = 0\<rparr>"

definition IssueInst :: "nat \<Rightarrow> u32 \<Rightarrow> RevSimpleCoProc \<Rightarrow> bool \<times> RevSimpleCoProc" where
  "IssueInst r Inst C = (True, C\<lparr>co_InstQ := co_InstQ C @ [\<lparr>ci_Inst = Inst, ci_RegFile = r\<rparr>]\<rparr>)"

definition co_Reset :: "RevSimpleCoProc \<Rightarrow> bool \<times> RevSimpleCoProc" where
  "co_Reset C = (True, C\<lparr>co_InstQ := []\<rparr>)"

definition co_Teardown :: "RevSimpleCoProc \<Rightarrow> bool \<times> RevSimpleCoProc" where
  "co_Teardown C = co_Reset C"

definition co_IsDone :: "RevSimpleCoProc \<Rightarrow> bool" where
  "co_IsDone C = (co_InstQ C = [])"

definition co_ClockTick :: "u64 \<Rightarrow> RevSimpleCoProc \<Rightarrow> RevProc \<Rightarrow> (bool \<times> RevSimpleCoProc \<times> RevProc) result" where
  "co_ClockTick cycle C P =
     res_bind (case co_InstQ C of
         [] \<Rightarrow> Inr (C, P)
       | _ # q \<Rightarrow> res_bind (ExternalStallHart 0 P) (\<lambda>P1.
           Inr (C\<lparr>co_instRetired := co_instRetired C + 1, co_InstQ := q, co_cycleCount := cycle\<rparr>, P1))) (\<lambda>(C1, P1).
     res_bind (if 500 < cycle - co_cycleCount C1 then ExternalReleaseHart 0 P1 else Inr P1) (\<lambda>P2. Inr (True, C1, P2)))"

section \<open>Runs\<close>

text \<open>The coprocessor alone over the cycles \<open>c + 1\<close> to \<open>c + n\<close>.\<close>

fun co_run :: "nat \<Rightarrow> u64 \<Rightarrow> RevSimpleCoProc \<Rightarrow> RevProc \<Rightarrow> (RevSimpleCoProc \<times> RevProc) result" where
  "co_run 0 c C P = Inr (C, P)"
| "co_run (Suc n) c C P = res_bind (co_run n c C P) (\<lambda>(C1, P1). res_bind (co_ClockTick (c + of_nat (Suc n)) C1 P1) (\<lambda>(_, C2, P2). Inr (C2, P2)))"

lemma co_run_idle:
  assumes "co_InstQ C = []" "co_cycleCount C = c" "0 < length (q_Harts P)" "n \<le> 501"
  shows "co_run n c C P = Inr (C, if n = 501 then P\<lparr>q_CoProcStallReq := q_CoProcStallReq P - {0}\<rparr> else P)"
  using assms(4)
proof (induction n)
  case (Suc n)
  have n: "unat (of_nat (Suc n) :: u64) = Suc n" using Suc.prems by (simp add: unat_of_nat del: of_nat_Suc)
  have "500 < (of_nat (Suc n) :: u64) \<longleftrightarrow> n = 500"
    using Suc.prems n by (auto simp: word_less_nat_alt)
  then show ?case
    using Suc assms(1-3) by (simp add: co_ClockTick_def ExternalReleaseHart_def)
qed simp

text \<open>
  An instruction that the coprocessor takes from its queue in cycle c stalls hart 0 of the processor for that cycle and the
  500 that follow if no other comes; in cycle c + 501 the hart is released, so that the processor is as
  it was.
\<close>

theorem coprocessor_stalls_hart:
  assumes "co_InstQ C = [x]" "0 < length (q_Harts P)" "0 \<notin> q_CoProcStallReq P" "n \<le> 501"
  shows "\<exists>C1. co_ClockTick c C P = Inr (True, C1, P\<lparr>q_CoProcStallReq := insert 0 (q_CoProcStallReq P)\<rparr>) \<and> co_IsDone C1 \<and>
    co_run n c C1 (P\<lparr>q_CoProcStallReq := insert 0 (q_CoProcStallReq P)\<rparr>) =
      Inr (C1, if n = 501 then P else P\<lparr>q_CoProcStallReq := insert 0 (q_CoProcStallReq P)\<rparr>)"
proof -
  let ?C = "C\<lparr>co_instRetired := co_instRetired C + 1, co_InstQ := [], co_cycleCount := c\<rparr>"
  let ?P = "P\<lparr>q_CoProcStallReq := insert 0 (q_CoProcStallReq P)\<rparr>"
  have t: "co_ClockTick c C P = Inr (True, ?C, ?P)" using assms(1,2) by (simp add: co_ClockTick_def ExternalStallHart_def)
  have p: "?P\<lparr>q_CoProcStallReq := q_CoProcStallReq ?P - {0}\<rparr> = P" using assms(3) by (cases P) simp
  have "co_run n c ?C ?P = Inr (?C, if n = 501 then P else ?P)"
    using co_run_idle [of ?C c ?P n] assms(2,4) p by simp
  then show ?thesis using t by (intro exI [of _ ?C]) (simp add: co_IsDone_def)
qed

theorem coprocessor_stalls_hart_witness:
  "\<exists>C1 P1. co_ClockTick 7 (snd (IssueInst 0 0xB mk_RevSimpleCoProc)) proc_idle = Inr (True, C1, P1) \<and> co_run 501 7 C1 P1 = Inr (C1, proc_idle)"
proof -
  have q: "co_InstQ (snd (IssueInst 0 0xB mk_RevSimpleCoProc)) = [\<lparr>ci_Inst = 0xB, ci_RegFile = 0\<rparr>]"
    by (simp add: IssueInst_def mk_RevSimpleCoProc_def)
  have p: "0 < length (q_Harts proc_idle)" "0 \<notin> q_CoProcStallReq proc_idle" "(501 :: nat) \<le> 501"
    by (simp_all add: proc_idle_def mk_RevProc_def Reset_def)
  show ?thesis using coprocessor_stalls_hart [OF q p, of 7] by auto
qed

end
