(* ===== verification/Rev_MemCtrl.thy ===== *)
theory Rev_MemCtrl
  imports Rev_RV_A
begin

text \<open>
  The memory controller of \<^verbatim>\<open>src/RevMemCtrl.cc\<close>: operations wait in a queue, are sent to the memory
  interface of SST as requests, several for an operation that spans cache lines, and are completed by
  its responses, in any order; an atomic operation is a read whose response puts a write into the
  queue. Operations are cells of a store, so that a pointer to a deleted one has no value; the bytes
  that \<^verbatim>\<open>void *target\<close> points to are a store of the host. The requests sent are recorded in order,
  and so are the calls of \<^verbatim>\<open>MarkLoadComplete\<close>. The numbers SST gives requests are a parameter.
\<close>

section \<open>Operations\<close>

definition F_NONCACHEABLE :: u32 where "F_NONCACHEABLE = push_bit 1 1"
definition F_BOXNAN :: u32 where "F_BOXNAN = push_bit 16 1"
definition F_ZEXT32 :: u32 where "F_ZEXT32 = push_bit 19 1"
definition F_ZEXT64 :: u32 where "F_ZEXT64 = push_bit 20 1"

definition F_ATOMIC :: u32 where
  "F_ATOMIC = F_AMOADD OR F_AMOXOR OR F_AMOAND OR F_AMOOR OR F_AMOMIN OR F_AMOMAX OR F_AMOMINU OR F_AMOMAXU OR F_AMOSWAP"

record RevMemOp =
  op_Hart :: u32
  op_Addr :: u64
  op_PAddr :: u64
  op_Size :: u32
  op_Inv :: bool
  op_Op :: MemOp
  op_CustomOpc :: u32
  op_SplitRqst :: u32
  op_membuf :: "u8 list"
  op_tempT :: "u8 list"
  op_flags :: u32
  op_target :: "nat option"
  op_procReq :: MemReq

definition mk_RevMemOp :: "u32 \<Rightarrow> u64 \<Rightarrow> u64 \<Rightarrow> u32 \<Rightarrow> u8 list \<Rightarrow> nat option \<Rightarrow> u32 \<Rightarrow> MemOp \<Rightarrow> u32 \<Rightarrow> RevMemOp" where
  "mk_RevMemOp Hart Addr PAddr Size buffer tgt CustomOpc Op flags =
     \<lparr>op_Hart = Hart, op_Addr = Addr, op_PAddr = PAddr, op_Size = Size, op_Inv = False, op_Op = Op, op_CustomOpc = CustomOpc,
      op_SplitRqst = 1, op_membuf = buffer, op_tempT = [], op_flags = flags, op_target = tgt, op_procReq = MemReq_default\<rparr>"

definition getStdFlags :: "RevMemOp \<Rightarrow> u32" where "getStdFlags Op = op_flags Op AND 0xFFFF"
definition getNonCacheFlags :: "RevMemOp \<Rightarrow> u32" where "getNonCacheFlags Op = op_flags Op AND 0xFFFD"
definition isCacheable :: "RevMemOp \<Rightarrow> bool" where "isCacheable Op = (op_flags Op AND 0b10 = 0)"

text \<open>The constructors that take a \<^verbatim>\<open>char *buffer\<close> copy as many bytes from it as the operation has.\<close>

definition copy_buffer :: "u32 \<Rightarrow> u8 list \<Rightarrow> u8 list result" where
  "copy_buffer Size buffer =
     (if length buffer < unat Size then Inl (Undefined ''read past the end of the buffer'') else Inr (take (unat Size) buffer))"

section \<open>State\<close>

datatype MemCtrlStats = ReadInFlight | ReadPending | ReadBytes | WriteInFlight | WritePending | WriteBytes
  | FlushInFlight | FlushPending | ReadLockInFlight | ReadLockPending | ReadLockBytes
  | WriteUnlockInFlight | WriteUnlockPending | WriteUnlockBytes | LoadLinkInFlight | LoadLinkPending
  | StoreCondInFlight | StoreCondPending | CustomInFlight | CustomPending | CustomBytes | FencePending
  | AMOAddBytes | AMOAddPending | AMOXorBytes | AMOXorPending | AMOAndBytes | AMOAndPending | AMOOrBytes | AMOOrPending
  | AMOMinBytes | AMOMinPending | AMOMaxBytes | AMOMaxPending | AMOMinuBytes | AMOMinuPending | AMOMaxuBytes
  | AMOMaxuPending | AMOSwapBytes | AMOSwapPending

text \<open>The requests of \<^verbatim>\<open>StandardMem\<close>: identifier, address, size, data and flags.\<close>

datatype StdRequest =
    Std_Read u64 u64 u64 u32
  | Std_Write u64 u64 u64 "u8 list" u32
  | Std_FlushAddr u64 u64 u64 bool u64 u32
  | Std_ReadLock u64 u64 u64 u32
  | Std_WriteUnlock u64 u64 u64 "u8 list" bool u32
  | Std_LoadLink u64 u64 u64 u32
  | Std_StoreConditional u64 u64 u64 "u8 list" u32
  | Std_CustomReq u64 u32

text \<open>
  An entry of the \<^verbatim>\<open>AMOTable\<close>; its \<^verbatim>\<open>char *\<close> component is never read and is left out. A multimap is
  the list of its entries, those of one key in the order of their insertion. As in the memory,
  \<open>mc_ApplyAMO\<close> is no member of the class but stands for the static tables of \<^verbatim>\<open>ApplyAMO\<close>, one for each
  size of operand that the function has been called with.
\<close>

record AMOEntry =
  am_Hart :: u32
  am_target :: "nat option"
  am_flags :: u32
  am_memop :: nat
  am_in :: bool

record RevMemCtrl =
  mc_newID :: "nat \<Rightarrow> u64"
  mc_created :: nat
  mc_hasCache :: bool
  mc_lineSize :: u32
  mc_max_loads :: u32
  mc_max_stores :: u32
  mc_max_flush :: u32
  mc_max_llsc :: u32
  mc_max_readlock :: u32
  mc_max_writeunlock :: u32
  mc_max_custom :: u32
  mc_max_ops :: u32
  mc_num_read :: u64
  mc_num_write :: u64
  mc_num_flush :: u64
  mc_num_llsc :: u64
  mc_num_readlock :: u64
  mc_num_writeunlock :: u64
  mc_num_custom :: u64
  mc_num_fence :: u64
  mc_requests :: "u64 list"
  mc_rqstQ :: "nat list"
  mc_outstanding :: "(u64 \<times> nat) list"
  mc_AMOTable :: "(u64 \<times> AMOEntry) list"
  mc_ApplyAMO :: "nat list"
  mc_ops :: "nat \<Rightarrow> RevMemOp option"
  mc_nops :: nat
  mc_host :: "nat \<Rightarrow> u8"
  mc_sent :: "StdRequest list"
  mc_completed :: "MemReq list"
  mc_stats :: "MemCtrlStats \<Rightarrow> u64"

definition mk_RevMemCtrl :: "(nat \<Rightarrow> u64) \<Rightarrow> u32 \<Rightarrow> u32 \<Rightarrow> u32 \<Rightarrow> u32 \<Rightarrow> u32 \<Rightarrow> u32 \<Rightarrow> u32 \<Rightarrow> u32 \<Rightarrow> (nat \<Rightarrow> u8) \<Rightarrow> RevMemCtrl" where
  "mk_RevMemCtrl newID loads stores flsh llsc readlock writeunlock custom ops host =
     \<lparr>mc_newID = newID, mc_created = 0, mc_hasCache = False, mc_lineSize = 0, mc_max_loads = loads, mc_max_stores = stores,
      mc_max_flush = flsh, mc_max_llsc = llsc, mc_max_readlock = readlock, mc_max_writeunlock = writeunlock,
      mc_max_custom = custom, mc_max_ops = ops, mc_num_read = 0, mc_num_write = 0, mc_num_flush = 0, mc_num_llsc = 0,
      mc_num_readlock = 0, mc_num_writeunlock = 0, mc_num_custom = 0, mc_num_fence = 0, mc_requests = [], mc_rqstQ = [],
      mc_outstanding = [], mc_AMOTable = [], mc_ApplyAMO = [], mc_ops = (\<lambda>_. None), mc_nops = 0, mc_host = host, mc_sent = [], mc_completed = [],
      mc_stats = (\<lambda>_. 0)\<rparr>"

text \<open>Phase 1 of \<^verbatim>\<open>init\<close>, with the line size that the memory interface reports.\<close>

definition ctrl_init :: "u32 \<Rightarrow> RevMemCtrl \<Rightarrow> RevMemCtrl" where
  "ctrl_init line C = C\<lparr>mc_lineSize := line, mc_hasCache := (0 < line)\<rparr>"

definition recordStat :: "MemCtrlStats \<Rightarrow> u64 \<Rightarrow> RevMemCtrl \<Rightarrow> RevMemCtrl" where
  "recordStat Stat Data C = C\<lparr>mc_stats := (mc_stats C)(Stat := mc_stats C Stat + Data)\<rparr>"

text \<open>\<^verbatim>\<open>new RevMemOp\<close> and a place at the end of the queue; \<^verbatim>\<open>delete\<close>; an access through a pointer.\<close>

definition push_op :: "RevMemOp \<Rightarrow> RevMemCtrl \<Rightarrow> RevMemCtrl" where
  "push_op Op C = C\<lparr>mc_ops := (mc_ops C)(mc_nops C \<mapsto> Op), mc_rqstQ := mc_rqstQ C @ [mc_nops C], mc_nops := Suc (mc_nops C)\<rparr>"

definition delete_op :: "nat \<Rightarrow> RevMemCtrl \<Rightarrow> RevMemCtrl" where
  "delete_op p C = C\<lparr>mc_ops := (mc_ops C)(p := None)\<rparr>"

definition deref :: "nat \<Rightarrow> RevMemCtrl \<Rightarrow> RevMemOp result" where
  "deref p C = (case mc_ops C p of None \<Rightarrow> Inl (Undefined ''dangling pointer'') | Some Op \<Rightarrow> Inr Op)"

definition host_read :: "nat \<Rightarrow> nat \<Rightarrow> (nat \<Rightarrow> u8) \<Rightarrow> u8 list" where
  "host_read a n H = map (\<lambda>i. H (a + i)) [0..<n]"

definition host_write :: "nat \<Rightarrow> u8 list \<Rightarrow> (nat \<Rightarrow> u8) \<Rightarrow> nat \<Rightarrow> u8" where
  "host_write a bs H = (\<lambda>x. if a \<le> x \<and> x < a + length bs then bs ! (x - a) else H x)"

definition target_write :: "nat option \<Rightarrow> nat \<Rightarrow> u8 list \<Rightarrow> RevMemCtrl \<Rightarrow> RevMemCtrl result" where
  "target_write tgt off bs C =
     (case tgt of None \<Rightarrow> if bs = [] then Inr C else Inl (Undefined ''null target'')
      | Some a \<Rightarrow> Inr (C\<lparr>mc_host := host_write (a + off) bs (mc_host C)\<rparr>))"

section \<open>Queueing requests\<close>

definition sendFLUSHRequest :: "u32 \<Rightarrow> u64 \<Rightarrow> u64 \<Rightarrow> u32 \<Rightarrow> bool \<Rightarrow> u32 \<Rightarrow> RevMemCtrl \<Rightarrow> RevMemCtrl" where
  "sendFLUSHRequest Hart Addr PAddr Size Inv flags C =
     (if Size = 0 then C
      else recordStat FlushPending 1
        (push_op ((mk_RevMemOp Hart Addr PAddr Size [] None 0 MemOpFLUSH flags)\<lparr>op_Inv := Inv\<rparr>) C))"

definition sendREADRequest :: "u32 \<Rightarrow> u64 \<Rightarrow> u64 \<Rightarrow> u32 \<Rightarrow> nat option \<Rightarrow> MemReq \<Rightarrow> u32 \<Rightarrow> RevMemCtrl \<Rightarrow> RevMemCtrl" where
  "sendREADRequest Hart Addr PAddr Size tgt req flags C =
     (if Size = 0 then C
      else recordStat ReadPending 1
        (push_op ((mk_RevMemOp Hart Addr PAddr Size [] tgt 0 MemOpREAD flags)\<lparr>op_procReq := req\<rparr>) C))"

definition sendWRITERequest :: "u32 \<Rightarrow> u64 \<Rightarrow> u64 \<Rightarrow> u32 \<Rightarrow> u8 list \<Rightarrow> u32 \<Rightarrow> RevMemCtrl \<Rightarrow> RevMemCtrl result" where
  "sendWRITERequest Hart Addr PAddr Size buffer flags C =
     (if Size = 0 then Inr C
      else res_bind (copy_buffer Size buffer) (\<lambda>bs.
        Inr (recordStat WritePending 1 (push_op (mk_RevMemOp Hart Addr PAddr Size bs None 0 MemOpWRITE flags) C))))"

text \<open>The table pairs \<^verbatim>\<open>F_AMOMIN\<close> with the statistic of the unsigned minimum, which is never counted.\<close>

definition amo_stats :: "(u32 \<times> MemCtrlStats) list" where
  "amo_stats = [(F_AMOADD, AMOAddPending), (F_AMOXOR, AMOXorPending), (F_AMOAND, AMOAndPending), (F_AMOOR, AMOOrPending),
     (F_AMOMIN, AMOMinPending), (F_AMOMAX, AMOMaxPending), (F_AMOMIN, AMOMinuPending), (F_AMOMAXU, AMOMaxuPending),
     (F_AMOSWAP, AMOSwapPending)]"

definition sendAMORequest :: "u32 \<Rightarrow> u64 \<Rightarrow> u64 \<Rightarrow> u32 \<Rightarrow> u8 list \<Rightarrow> nat option \<Rightarrow> MemReq \<Rightarrow> u32 \<Rightarrow> RevMemCtrl \<Rightarrow> RevMemCtrl result" where
  "sendAMORequest Hart Addr PAddr Size buffer tgt req flags C =
     (if Size = 0 then Inr C
      else if \<not> RevFlagHas flags F_ATOMIC then Inr C
      else res_bind (copy_buffer Size buffer) (\<lambda>bs.
        let p = mc_nops C;
            Op = (mk_RevMemOp Hart Addr PAddr Size bs tgt 0 MemOpREAD flags)\<lparr>op_procReq := req\<rparr>;
            Entry = \<lparr>am_Hart = Hart, am_target = tgt, am_flags = flags, am_memop = p, am_in = False\<rparr>;
            C1 = (push_op Op C)\<lparr>mc_AMOTable := mc_AMOTable C @ [(Addr, Entry)]\<rparr>
        in Inr (case find (\<lambda>e. RevFlagHas flags (fst e)) amo_stats of
                  None \<Rightarrow> C1 | Some (_, stat) \<Rightarrow> recordStat stat 1 C1)))"

definition sendREADLOCKRequest :: "u32 \<Rightarrow> u64 \<Rightarrow> u64 \<Rightarrow> u32 \<Rightarrow> nat option \<Rightarrow> MemReq \<Rightarrow> u32 \<Rightarrow> RevMemCtrl \<Rightarrow> RevMemCtrl" where
  "sendREADLOCKRequest Hart Addr PAddr Size tgt req flags C =
     (if Size = 0 then C
      else recordStat ReadLockPending 1
        (push_op ((mk_RevMemOp Hart Addr PAddr Size [] tgt 0 MemOpREADLOCK flags)\<lparr>op_procReq := req\<rparr>) C))"

definition sendWRITELOCKRequest :: "u32 \<Rightarrow> u64 \<Rightarrow> u64 \<Rightarrow> u32 \<Rightarrow> u8 list \<Rightarrow> u32 \<Rightarrow> RevMemCtrl \<Rightarrow> RevMemCtrl result" where
  "sendWRITELOCKRequest Hart Addr PAddr Size buffer flags C =
     (if Size = 0 then Inr C
      else res_bind (copy_buffer Size buffer) (\<lambda>bs.
        Inr (recordStat WriteUnlockPending 1 (push_op (mk_RevMemOp Hart Addr PAddr Size bs None 0 MemOpWRITEUNLOCK flags) C))))"

definition sendLOADLINKRequest :: "u32 \<Rightarrow> u64 \<Rightarrow> u64 \<Rightarrow> u32 \<Rightarrow> u32 \<Rightarrow> RevMemCtrl \<Rightarrow> RevMemCtrl" where
  "sendLOADLINKRequest Hart Addr PAddr Size flags C =
     (if Size = 0 then C
      else recordStat LoadLinkPending 1 (push_op (mk_RevMemOp Hart Addr PAddr Size [] None 0 MemOpLOADLINK flags) C))"

definition sendSTORECONDRequest :: "u32 \<Rightarrow> u64 \<Rightarrow> u64 \<Rightarrow> u32 \<Rightarrow> u8 list \<Rightarrow> u32 \<Rightarrow> RevMemCtrl \<Rightarrow> RevMemCtrl result" where
  "sendSTORECONDRequest Hart Addr PAddr Size buffer flags C =
     (if Size = 0 then Inr C
      else res_bind (copy_buffer Size buffer) (\<lambda>bs.
        Inr (recordStat StoreCondPending 1 (push_op (mk_RevMemOp Hart Addr PAddr Size bs None 0 MemOpSTORECOND flags) C))))"

definition sendCUSTOMREADRequest :: "u32 \<Rightarrow> u64 \<Rightarrow> u64 \<Rightarrow> u32 \<Rightarrow> nat option \<Rightarrow> u32 \<Rightarrow> u32 \<Rightarrow> RevMemCtrl \<Rightarrow> RevMemCtrl" where
  "sendCUSTOMREADRequest Hart Addr PAddr Size tgt Opc flags C =
     (if Size = 0 then C
      else recordStat CustomPending 1 (push_op (mk_RevMemOp Hart Addr PAddr Size [] tgt Opc MemOpCUSTOM flags) C))"

definition sendCUSTOMWRITERequest :: "u32 \<Rightarrow> u64 \<Rightarrow> u64 \<Rightarrow> u32 \<Rightarrow> u8 list \<Rightarrow> u32 \<Rightarrow> u32 \<Rightarrow> RevMemCtrl \<Rightarrow> RevMemCtrl result" where
  "sendCUSTOMWRITERequest Hart Addr PAddr Size buffer Opc flags C =
     (if Size = 0 then Inr C
      else res_bind (copy_buffer Size buffer) (\<lambda>bs.
        Inr (recordStat CustomPending 1 (push_op (mk_RevMemOp Hart Addr PAddr Size bs None Opc MemOpCUSTOM flags) C))))"

definition sendFENCE :: "u32 \<Rightarrow> RevMemCtrl \<Rightarrow> RevMemCtrl" where
  "sendFENCE Hart C = recordStat FencePending 1 (push_op (mk_RevMemOp Hart 0 0 0 [] None 0 MemOpFENCE F_NONE) C)"

section \<open>Cache lines\<close>

text \<open>The loop that steps down to the start of the cache line.\<close>

function base_line :: "u64 \<Rightarrow> u64 \<Rightarrow> u64" where
  "base_line L a = (if a mod L = 0 then a else base_line L (a - 1))"
  by auto
termination
proof (relation "measure (\<lambda>(L, a). unat a)")
  fix L a :: u64
  assume "a mod L \<noteq> 0"
  then have "a \<noteq> 0" by auto
  then show "((L, a - 1), L, a) \<in> measure (\<lambda>(L, a). unat a)" by (simp add: unat_minus_one unat_gt_0)
qed simp

declare base_line.simps [simp del]

definition getBaseCacheLineSize :: "u64 \<Rightarrow> u32 \<Rightarrow> RevMemCtrl \<Rightarrow> u32" where
  "getBaseCacheLineSize Addr Size C =
     (let BaseCacheAddr = base_line (ucast (mc_lineSize C)) Addr
      in if Addr = BaseCacheAddr then if Size < mc_lineSize C then Size else mc_lineSize C
         else if Addr + ucast Size \<le> BaseCacheAddr + ucast (mc_lineSize C) then Size
         else ucast (BaseCacheAddr + ucast (mc_lineSize C) - Addr))"

definition getNumCacheLines :: "u64 \<Rightarrow> u32 \<Rightarrow> RevMemCtrl \<Rightarrow> u32" where
  "getNumCacheLines Addr Size C =
     (let off = Addr mod ucast (mc_lineSize C)
      in if \<not> mc_hasCache C then 1
         else if off \<noteq> 0 then
           if ucast Size \<le> ucast (mc_lineSize C) - off then 1
           else if Size < mc_lineSize C then 2
           else Size div mc_lineSize C + (if 1 < off then 1 else 0)
         else if Size \<le> mc_lineSize C then 1
         else Size div mc_lineSize C + 1)"

section \<open>Sending requests\<close>

text \<open>The counter of outstanding requests of a kind, and the limit that goes with it.\<close>

definition slots_left :: "MemOp \<Rightarrow> RevMemCtrl \<Rightarrow> u64 option" where
  "slots_left Op C =
     (case Op of
        MemOpREAD \<Rightarrow> Some (ucast (mc_max_loads C) - mc_num_read C)
      | MemOpWRITE \<Rightarrow> Some (ucast (mc_max_stores C) - mc_num_write C)
      | MemOpFLUSH \<Rightarrow> Some (ucast (mc_max_flush C) - mc_num_flush C)
      | MemOpREADLOCK \<Rightarrow> Some (ucast (mc_max_readlock C) - mc_num_readlock C)
      | MemOpWRITEUNLOCK \<Rightarrow> Some (ucast (mc_max_writeunlock C) - mc_num_writeunlock C)
      | MemOpLOADLINK \<Rightarrow> Some (ucast (mc_max_llsc C) - mc_num_llsc C)
      | MemOpSTORECOND \<Rightarrow> Some (ucast (mc_max_llsc C) - mc_num_llsc C)
      | MemOpCUSTOM \<Rightarrow> Some (ucast (mc_max_custom C) - mc_num_custom C)
      | MemOpFENCE \<Rightarrow> None
      | MemOpAMO \<Rightarrow> None)"

definition count_request :: "MemOp \<Rightarrow> RevMemCtrl \<Rightarrow> RevMemCtrl" where
  "count_request Op C =
     (case Op of
        MemOpREAD \<Rightarrow> recordStat ReadInFlight 1 (C\<lparr>mc_num_read := mc_num_read C + 1\<rparr>)
      | MemOpWRITE \<Rightarrow> recordStat WriteInFlight 1 (C\<lparr>mc_num_write := mc_num_write C + 1\<rparr>)
      | MemOpFLUSH \<Rightarrow> recordStat FlushInFlight 1 (C\<lparr>mc_num_flush := mc_num_flush C + 1\<rparr>)
      | MemOpREADLOCK \<Rightarrow> recordStat ReadLockInFlight 1 (C\<lparr>mc_num_readlock := mc_num_readlock C + 1\<rparr>)
      | MemOpWRITEUNLOCK \<Rightarrow> recordStat WriteUnlockInFlight 1 (C\<lparr>mc_num_writeunlock := mc_num_writeunlock C + 1\<rparr>)
      | MemOpLOADLINK \<Rightarrow> recordStat LoadLinkInFlight 1 (C\<lparr>mc_num_llsc := mc_num_llsc C + 1\<rparr>)
      | MemOpSTORECOND \<Rightarrow> recordStat StoreCondInFlight 1 (C\<lparr>mc_num_llsc := mc_num_llsc C + 1\<rparr>)
      | MemOpCUSTOM \<Rightarrow> recordStat CustomInFlight 1 (C\<lparr>mc_num_custom := mc_num_custom C + 1\<rparr>)
      | MemOpFENCE \<Rightarrow> C
      | MemOpAMO \<Rightarrow> C)"

definition std_request :: "RevMemOp \<Rightarrow> u64 \<Rightarrow> u64 \<Rightarrow> u64 \<Rightarrow> u8 list \<Rightarrow> u32 \<Rightarrow> StdRequest option" where
  "std_request Op i addr sz data flags =
     (case op_Op Op of
        MemOpREAD \<Rightarrow> Some (Std_Read i addr sz flags)
      | MemOpWRITE \<Rightarrow> Some (Std_Write i addr sz data flags)
      | MemOpFLUSH \<Rightarrow> Some (Std_FlushAddr i addr sz (op_Inv Op) sz flags)
      | MemOpREADLOCK \<Rightarrow> Some (Std_ReadLock i addr sz flags)
      | MemOpWRITEUNLOCK \<Rightarrow> Some (Std_WriteUnlock i addr sz data False flags)
      | MemOpLOADLINK \<Rightarrow> Some (Std_LoadLink i addr sz flags)
      | MemOpSTORECOND \<Rightarrow> Some (Std_StoreConditional i addr sz data flags)
      | MemOpCUSTOM \<Rightarrow> Some (Std_CustomReq i flags)
      | MemOpFENCE \<Rightarrow> None
      | MemOpAMO \<Rightarrow> None)"

text \<open>A new request is recorded as outstanding for the operation, sent and counted.\<close>

definition send_request :: "nat \<Rightarrow> RevMemOp \<Rightarrow> u64 \<Rightarrow> u64 \<Rightarrow> u8 list \<Rightarrow> u32 \<Rightarrow> RevMemCtrl \<Rightarrow> RevMemCtrl option" where
  "send_request p Op addr sz data flags C =
     (let i = mc_newID C (mc_created C)
      in case std_request Op i addr sz data flags of
           None \<Rightarrow> None
         | Some r \<Rightarrow> Some (count_request (op_Op Op)
             (C\<lparr>mc_created := Suc (mc_created C), mc_requests := mc_requests C @ [i],
                mc_outstanding := (i, p) # filter (\<lambda>e. fst e \<noteq> i) (mc_outstanding C), mc_sent := mc_sent C @ [r]\<rparr>)))"

text \<open>The bytes of the operation's buffer that go with a part of it; only writes have any.\<close>

definition has_data :: "MemOp \<Rightarrow> bool" where
  "has_data Op = (Op = MemOpWRITE \<or> Op = MemOpWRITEUNLOCK \<or> Op = MemOpSTORECOND)"

definition op_slice :: "RevMemOp \<Rightarrow> nat \<Rightarrow> nat \<Rightarrow> u8 list result" where
  "op_slice Op curByte n =
     (if \<not> has_data (op_Op Op) then Inr []
      else if length (op_membuf Op) < curByte + n then Inl (Undefined ''tmpBuf out of bounds'')
      else Inr (take n (drop curByte (op_membuf Op))))"

text \<open>The loop over the cache lines after the first.\<close>

fun cache_lines :: "nat \<Rightarrow> nat \<Rightarrow> RevMemOp \<Rightarrow> u64 \<Rightarrow> u64 \<Rightarrow> nat \<Rightarrow> RevMemCtrl \<Rightarrow> (bool \<times> RevMemCtrl) result" where
  "cache_lines 0 p Op newBase bytesLeft curByte C = Inr (True, C)"
| "cache_lines (Suc n) p Op newBase bytesLeft curByte C =
     (let newSize = (if bytesLeft < ucast (mc_lineSize C) then bytesLeft else ucast (mc_lineSize C))
      in res_bind (op_slice Op curByte (unat newSize)) (\<lambda>newBuf.
         case send_request p Op newBase newSize newBuf (getStdFlags Op) C of
           None \<Rightarrow> Inr (False, C)
         | Some C1 \<Rightarrow> cache_lines n p Op (newBase + newSize) (bytesLeft - newSize) (curByte + unat newSize) C1))"

text \<open>The result is the return value, and with it the value of \<^verbatim>\<open>Success\<close>.\<close>

definition buildCacheMemRqst :: "nat \<Rightarrow> RevMemOp \<Rightarrow> bool \<Rightarrow> RevMemCtrl \<Rightarrow> (bool \<times> bool \<times> RevMemCtrl) result" where
  "buildCacheMemRqst p Op Success C =
     (if mc_lineSize C = 0 then Inl (Undefined ''division by zero'')
      else
        let NumLines = getNumCacheLines (op_Addr Op) (op_Size Op) C
        in case slots_left (op_Op Op) C of
             None \<Rightarrow> Inr (False, Success, C)
           | Some left \<Rightarrow>
               if left < ucast NumLines then Inr (True, False, C)
               else
                 let Op1 = Op\<lparr>op_SplitRqst := NumLines\<rparr>;
                     C1 = C\<lparr>mc_ops := (mc_ops C)(p \<mapsto> Op1)\<rparr>;
                     Base = (if 1 < NumLines then getBaseCacheLineSize (op_Addr Op) (op_Size Op) C else op_Size Op)
                 in res_bind (op_slice Op1 0 (unat Base)) (\<lambda>newBuf.
                    case send_request p Op1 (op_Addr Op) (ucast Base) newBuf (getStdFlags Op) C1 of
                      None \<Rightarrow> Inr (False, True, C1)
                    | Some C2 \<Rightarrow>
                        res_bind (cache_lines (unat NumLines - 1) p Op1 (op_Addr Op + ucast Base) (ucast (op_Size Op) - ucast Base)
                            (unat Base) C2) (\<lambda>(rtn, C3). Inr (rtn, True, C3))))"

definition buildRawMemRqst :: "nat \<Rightarrow> RevMemOp \<Rightarrow> u32 \<Rightarrow> RevMemCtrl \<Rightarrow> bool \<times> RevMemCtrl" where
  "buildRawMemRqst p Op TmpFlags C =
     (case send_request p Op (op_Addr Op) (ucast (op_Size Op)) (op_membuf Op) TmpFlags C of
        None \<Rightarrow> (False, C) | Some C1 \<Rightarrow> (True, C1))"

definition buildStandardMemRqst :: "nat \<Rightarrow> RevMemOp \<Rightarrow> bool \<Rightarrow> RevMemCtrl \<Rightarrow> (bool \<times> bool \<times> RevMemCtrl) result" where
  "buildStandardMemRqst p Op Success C =
     (if mc_hasCache C \<and> isCacheable Op then buildCacheMemRqst p Op Success C
      else
        let (rtn, C1) = buildRawMemRqst p Op (if mc_hasCache C then getStdFlags Op else getNonCacheFlags Op) C
        in Inr (rtn, True, C1))"

section \<open>The queue\<close>

text \<open>The numbers of operations issued in the current cycle.\<close>

record Slots =
  t_loads :: u32
  t_stores :: u32
  t_flush :: u32
  t_llsc :: u32
  t_readlock :: u32
  t_writeunlock :: u32
  t_custom :: u32
  t_ops :: u32

definition Slots_zero :: Slots where
  "Slots_zero = \<lparr>t_loads = 0, t_stores = 0, t_flush = 0, t_llsc = 0, t_readlock = 0, t_writeunlock = 0, t_custom = 0, t_ops = 0\<rparr>"

definition isMemOpAvail :: "RevMemOp \<Rightarrow> Slots \<Rightarrow> RevMemCtrl \<Rightarrow> (bool \<times> Slots) result" where
  "isMemOpAvail Op T C =
     (case op_Op Op of
        MemOpREAD \<Rightarrow> Inr (if t_loads T < mc_max_loads C then (True, T\<lparr>t_loads := t_loads T + 1\<rparr>) else (False, T))
      | MemOpWRITE \<Rightarrow> Inr (if t_stores T < mc_max_stores C then (True, T\<lparr>t_stores := t_stores T + 1\<rparr>) else (False, T))
      | MemOpFLUSH \<Rightarrow> Inr (if t_flush T < mc_max_flush C then (True, T\<lparr>t_flush := t_flush T + 1\<rparr>) else (False, T))
      | MemOpREADLOCK \<Rightarrow> Inr (if t_readlock T < mc_max_readlock C then (True, T\<lparr>t_readlock := t_readlock T + 1\<rparr>) else (False, T))
      | MemOpWRITEUNLOCK \<Rightarrow>
          Inr (if t_writeunlock T < mc_max_writeunlock C then (True, T\<lparr>t_writeunlock := t_writeunlock T + 1\<rparr>) else (False, T))
      | MemOpLOADLINK \<Rightarrow> Inr (if t_llsc T < mc_max_llsc C then (True, T\<lparr>t_llsc := t_llsc T + 1\<rparr>) else (False, T))
      | MemOpSTORECOND \<Rightarrow> Inr (if t_llsc T < mc_max_llsc C then (True, T\<lparr>t_llsc := t_llsc T + 1\<rparr>) else (False, T))
      | MemOpCUSTOM \<Rightarrow> Inr (if t_custom T < mc_max_custom C then (True, T\<lparr>t_custom := t_custom T + 1\<rparr>) else (False, T))
      | MemOpFENCE \<Rightarrow> Inr (True, T)
      | MemOpAMO \<Rightarrow> Inl (Fatal ''unknown memory operation type''))"

text \<open>Whether one of the operations ahead in the queue has a property.\<close>

fun any_op :: "(RevMemOp \<Rightarrow> bool) \<Rightarrow> nat list \<Rightarrow> RevMemCtrl \<Rightarrow> bool result" where
  "any_op f [] C = Inr False"
| "any_op f (p # ps) C = res_bind (deref p C) (\<lambda>Op. if f Op then Inr True else any_op f ps C)"

definition isAQ :: "nat \<Rightarrow> RevMemOp \<Rightarrow> RevMemCtrl \<Rightarrow> bool result" where
  "isAQ Slot Op C =
     (if mc_AMOTable C = [] \<or> Slot = 0 then Inr False
      else any_op (\<lambda>O'. RevFlagHas (op_flags O') F_ATOMIC \<and> op_Hart O' = op_Hart Op \<and> RevFlagHas (op_flags O') F_AQ)
             (take Slot (mc_rqstQ C)) C)"

definition isRL :: "nat \<Rightarrow> RevMemOp \<Rightarrow> RevMemCtrl \<Rightarrow> bool result" where
  "isRL Slot Op C =
     (if mc_AMOTable C = [] \<or> Slot = 0 then Inr False
      else if RevFlagHas (op_flags Op) F_ATOMIC \<and> RevFlagHas (op_flags Op) F_RL
      then any_op (\<lambda>O'. op_Hart O' = op_Hart Op) (take Slot (mc_rqstQ C)) C
      else Inr False)"

definition isPendingAMO :: "nat \<Rightarrow> RevMemOp \<Rightarrow> RevMemCtrl \<Rightarrow> bool result" where
  "isPendingAMO Slot Op C = res_bind (isAQ Slot Op C) (\<lambda>b. if b then Inr True else isRL Slot Op C)"

definition erase_slot :: "nat \<Rightarrow> RevMemCtrl \<Rightarrow> RevMemCtrl" where
  "erase_slot i C = C\<lparr>mc_rqstQ := take i (mc_rqstQ C) @ drop (Suc i) (mc_rqstQ C)\<rparr>"

text \<open>What happens to the operation in slot \<open>i\<close>, which may be issued.\<close>

definition issue_rqst :: "nat \<Rightarrow> nat \<Rightarrow> RevMemOp \<Rightarrow> Slots \<Rightarrow> RevMemCtrl \<Rightarrow> (Slots \<times> RevMemCtrl) result" where
  "issue_rqst i p Op T C =
     (let T1 = T\<lparr>t_ops := t_ops T + 1\<rparr>; full = T1\<lparr>t_ops := mc_max_ops C\<rparr>
      in if op_Op Op = MemOpFENCE
         then Inr (full, delete_op p ((erase_slot i C)\<lparr>mc_num_fence := mc_num_fence C + 1\<rparr>))
         else res_bind (isPendingAMO i Op C) (\<lambda>pending.
           if pending then Inr (full, C)
           else res_bind (buildStandardMemRqst p Op False C) (\<lambda>(rtn, Success, C1).
             if \<not> rtn then Inl (Fatal ''failed to build memory request'')
             else if Success then Inr (T1, erase_slot i C1)
             else Inr (full, C1))))"

fun rqst_scan :: "nat \<Rightarrow> nat list \<Rightarrow> Slots \<Rightarrow> RevMemCtrl \<Rightarrow> (Slots \<times> RevMemCtrl) result" where
  "rqst_scan i [] T C = Inr (T\<lparr>t_ops := mc_max_ops C\<rparr>, C)"
| "rqst_scan i (p # ps) T C =
     res_bind (deref p C) (\<lambda>Op.
     res_bind (isMemOpAvail Op T C) (\<lambda>(avail, T1).
     if avail then issue_rqst i p Op T1 C else rqst_scan (Suc i) ps T1 C))"

definition processNextRqst :: "Slots \<Rightarrow> RevMemCtrl \<Rightarrow> (Slots \<times> RevMemCtrl) result" where
  "processNextRqst T C = rqst_scan 0 (mc_rqstQ C) T C"

text \<open>
  An iteration that does not end the cycle has sent an operation and taken it out of the queue, so the
  loop of a clock tick ends.
\<close>

lemma send_request_Q: "send_request p Op addr sz data flags C = Some C1 \<Longrightarrow> mc_rqstQ C1 = mc_rqstQ C \<and> mc_max_ops C1 = mc_max_ops C"
  by (auto simp: send_request_def Let_def count_request_def recordStat_def split: option.splits MemOp.splits)

lemma cache_lines_Suc:
  assumes "cache_lines (Suc n) p Op newBase bytesLeft curByte C = Inr (rtn, C')"
  obtains (stop) "\<not> rtn" "C' = C"
  | (sent) newSize newBuf C1 where "newSize = min bytesLeft (ucast (mc_lineSize C))"
      "op_slice Op curByte (unat newSize) = Inr newBuf" "send_request p Op newBase newSize newBuf (getStdFlags Op) C = Some C1"
      "cache_lines n p Op (newBase + newSize) (bytesLeft - newSize) (curByte + unat newSize) C1 = Inr (rtn, C')"
proof -
  let ?s = "min bytesLeft (ucast (mc_lineSize C))"
  have m: "(if bytesLeft < ucast (mc_lineSize C) then bytesLeft else ucast (mc_lineSize C)) = ?s" by (auto simp: min_def)
  obtain newBuf where "op_slice Op curByte (unat ?s) = Inr newBuf"
    using assms unfolding cache_lines.simps Let_def m by (auto simp: res_bind_eq_Inr)
  then show ?thesis
    using assms stop sent [of ?s newBuf] unfolding cache_lines.simps Let_def m
    by (cases "send_request p Op newBase ?s newBuf (getStdFlags Op) C") auto
qed

text \<open>A number of requests for one operation, sent one after the other.\<close>

inductive sends :: "nat \<Rightarrow> RevMemOp \<Rightarrow> nat \<Rightarrow> RevMemCtrl \<Rightarrow> RevMemCtrl \<Rightarrow> bool" for p Op where
  none: "sends p Op 0 C C"
| more: "send_request p Op addr sz data flags C = Some C1 \<Longrightarrow> sends p Op n C1 C2 \<Longrightarrow> sends p Op (Suc n) C C2"

lemma cache_lines_sends: "cache_lines n p Op newBase bytesLeft curByte C = Inr (True, C') \<Longrightarrow> sends p Op n C C'"
proof (induction n arbitrary: newBase bytesLeft curByte C)
  case 0
  then show ?case by (simp add: sends.none)
next
  case (Suc n)
  from Suc.prems show ?case
  proof (cases rule: cache_lines_Suc)
    case (sent newSize newBuf C1)
    then show ?thesis using Suc.IH sends.more by blast
  qed simp
qed

lemma buildCacheMemRqst_Inr:
  assumes "buildCacheMemRqst p Op S C = Inr (True, Success, C')"
  obtains (full) left where "\<not> Success" "C' = C" "slots_left (op_Op Op) C = Some left"
      "left < ucast (getNumCacheLines (op_Addr Op) (op_Size Op) C)"
  | (sent) N Base newBuf C2 where "Success" "N = getNumCacheLines (op_Addr Op) (op_Size Op) C" "mc_lineSize C \<noteq> 0"
      "Base = (if 1 < N then getBaseCacheLineSize (op_Addr Op) (op_Size Op) C else op_Size Op)"
      "op_slice (Op\<lparr>op_SplitRqst := N\<rparr>) 0 (unat Base) = Inr newBuf"
      "send_request p (Op\<lparr>op_SplitRqst := N\<rparr>) (op_Addr Op) (ucast Base) newBuf (getStdFlags Op)
         (C\<lparr>mc_ops := (mc_ops C)(p \<mapsto> Op\<lparr>op_SplitRqst := N\<rparr>)\<rparr>) = Some C2"
      "cache_lines (unat N - 1) p (Op\<lparr>op_SplitRqst := N\<rparr>) (op_Addr Op + ucast Base) (ucast (op_Size Op) - ucast Base)
         (unat Base) C2 = Inr (True, C')"
proof -
  define N where "N = getNumCacheLines (op_Addr Op) (op_Size Op) C"
  define Base where "Base = (if 1 < N then getBaseCacheLineSize (op_Addr Op) (op_Size Op) C else op_Size Op)"
  note b = assms [unfolded buildCacheMemRqst_def Let_def, folded N_def, folded Base_def]
  obtain left where l: "mc_lineSize C \<noteq> 0" "slots_left (op_Op Op) C = Some left"
    using b by (cases "slots_left (op_Op Op) C") (auto split: if_splits)
  show ?thesis
  proof (cases "left < ucast N")
    case True
    then show ?thesis using b l full by (simp add: N_def)
  next
    case False
    then obtain newBuf where nb: "op_slice (Op\<lparr>op_SplitRqst := N\<rparr>) 0 (unat Base) = Inr newBuf"
      using b l by (auto simp: res_bind_eq_Inr)
    let ?s = "send_request p (Op\<lparr>op_SplitRqst := N\<rparr>) (op_Addr Op) (ucast Base) newBuf (getStdFlags Op)
         (C\<lparr>mc_ops := (mc_ops C)(p \<mapsto> Op\<lparr>op_SplitRqst := N\<rparr>)\<rparr>)"
    obtain C2 where "?s = Some C2" using b l False nb by (cases ?s) auto
    moreover from this have "cache_lines (unat N - 1) p (Op\<lparr>op_SplitRqst := N\<rparr>) (op_Addr Op + ucast Base)
        (ucast (op_Size Op) - ucast Base) (unat Base) C2 = Inr (True, C')" "Success"
      using b l False nb by (auto simp: res_bind_eq_Inr)
    ultimately show ?thesis using sent nb l(1) N_def Base_def by blast
  qed
qed

lemma buildStandardMemRqst_raw:
  assumes "buildStandardMemRqst p Op S C = Inr (rtn, Success, C')" "\<not> (mc_hasCache C \<and> isCacheable Op)"
  shows "\<exists>fl. buildRawMemRqst p Op fl C = (rtn, C') \<and> Success"
proof -
  let ?fl = "if mc_hasCache C then getStdFlags Op else getNonCacheFlags Op"
  show ?thesis
    using assms unfolding buildStandardMemRqst_def
    by (cases "buildRawMemRqst p Op ?fl C") (rule exI [of _ ?fl], simp split: if_splits)
qed

text \<open>An operation is sent as a whole, as one request or as one for each cache line, or it is left alone.\<close>

lemma buildStandardMemRqst_sends:
  assumes "buildStandardMemRqst p Op S C = Inr (True, Success, C')" "mc_ops C p = Some Op"
  obtains (full) left where "\<not> Success" "C' = C" "slots_left (op_Op Op) C = Some left" "mc_hasCache C \<and> isCacheable Op"
      "left < ucast (getNumCacheLines (op_Addr Op) (op_Size Op) C)"
  | (sent) N n where "Success" "sends p (Op\<lparr>op_SplitRqst := N\<rparr>) (Suc n) (C\<lparr>mc_ops := (mc_ops C)(p \<mapsto> Op\<lparr>op_SplitRqst := N\<rparr>)\<rparr>) C'"
      "N \<le> 1 \<Longrightarrow> n = 0" "N = op_SplitRqst Op \<or> N = getNumCacheLines (op_Addr Op) (op_Size Op) C"
proof (cases "mc_hasCache C \<and> isCacheable Op")
  case True
  then have "buildCacheMemRqst p Op S C = Inr (True, Success, C')" using assms(1) by (simp add: buildStandardMemRqst_def)
  then show ?thesis
  proof (cases rule: buildCacheMemRqst_Inr)
    case (full left)
    then show ?thesis using that(1) True by blast
  next
    case (sent N Base newBuf C2)
    have "N \<le> 1 \<Longrightarrow> unat N - 1 = 0" by (simp add: word_le_nat_alt)
    then show ?thesis using that(2) [of N "unat N - 1"] sent sends.more [OF sent(6) cache_lines_sends [OF sent(7)]] by blast
  qed
next
  case False
  have i: "Op\<lparr>op_SplitRqst := op_SplitRqst Op\<rparr> = Op" "C\<lparr>mc_ops := (mc_ops C)(p \<mapsto> Op)\<rparr> = C"
    using assms(2) by (simp_all add: fun_upd_idem)
  obtain fl where f: "buildRawMemRqst p Op fl C = (True, C')" "Success"
    using buildStandardMemRqst_raw [OF assms(1) False] by blast
  then obtain addr sz data where "send_request p Op addr sz data fl C = Some C'"
    by (auto simp: buildRawMemRqst_def split: option.splits)
  then have "sends p Op (Suc 0) C C'" using sends.more sends.none by blast
  then show ?thesis by (intro that(2) [of "op_SplitRqst Op" 0]) (simp_all only: i f(2) simp_thms)
qed

lemma sends_Q: "sends p Op n C C' \<Longrightarrow> mc_rqstQ C' = mc_rqstQ C \<and> mc_max_ops C' = mc_max_ops C"
  by (induction rule: sends.induct) (auto dest: send_request_Q)

lemma buildStandardMemRqst_Q:
  assumes "buildStandardMemRqst p Op S C = Inr (True, Success, C')"
  shows "mc_rqstQ C' = mc_rqstQ C \<and> mc_max_ops C' = mc_max_ops C"
proof (cases "mc_hasCache C \<and> isCacheable Op")
  case True
  then have "buildCacheMemRqst p Op S C = Inr (True, Success, C')" using assms by (simp add: buildStandardMemRqst_def)
  then show ?thesis
  proof (cases rule: buildCacheMemRqst_Inr)
    case (sent N Base newBuf C2)
    then show ?thesis using send_request_Q [OF sent(6)] sends_Q [OF cache_lines_sends [OF sent(7)]] by simp
  qed simp
next
  case False
  then show ?thesis
    using buildStandardMemRqst_raw [OF assms False] send_request_Q [of p Op "op_Addr Op" "ucast (op_Size Op)" "op_membuf Op" _ C C']
    by (auto simp: buildRawMemRqst_def split: option.splits)
qed

lemma issue_rqst_Inr:
  assumes "issue_rqst i p Op T C = Inr (T', C')"
  obtains (fence) "op_Op Op = MemOpFENCE" "t_ops T' = mc_max_ops C" "C' = delete_op p ((erase_slot i C)\<lparr>mc_num_fence := mc_num_fence C + 1\<rparr>)"
  | (wait) "t_ops T' = mc_max_ops C" "C' = C" "op_Op Op \<noteq> MemOpFENCE" "isPendingAMO i Op C = Inr True"
  | (full) "t_ops T' = mc_max_ops C" "op_Op Op \<noteq> MemOpFENCE" "buildStandardMemRqst p Op False C = Inr (True, False, C')"
  | (sent) C1 where "buildStandardMemRqst p Op False C = Inr (True, True, C1)" "C' = erase_slot i C1" "op_Op Op \<noteq> MemOpFENCE"
      "isPendingAMO i Op C = Inr False" "T' = T\<lparr>t_ops := t_ops T + 1\<rparr>"
proof (cases "op_Op Op = MemOpFENCE")
  case True
  then have "T' = T\<lparr>t_ops := mc_max_ops C\<rparr> \<and> C' = delete_op p ((erase_slot i C)\<lparr>mc_num_fence := mc_num_fence C + 1\<rparr>)"
    using assms by (auto simp: issue_rqst_def Let_def)
  then show ?thesis using True by (intro fence) simp_all
next
  case False
  then obtain pending where p: "isPendingAMO i Op C = Inr pending" using assms by (auto simp: issue_rqst_def Let_def res_bind_eq_Inr)
  show ?thesis
  proof (cases pending)
    case True
    then have "T' = T\<lparr>t_ops := mc_max_ops C\<rparr> \<and> C' = C" using assms False p by (auto simp: issue_rqst_def Let_def)
    then show ?thesis using p True False by (intro wait) simp_all
  next
    case False
    then obtain rtn Success C1 where b: "buildStandardMemRqst p Op False C = Inr (rtn, Success, C1)" "rtn"
      using assms \<open>op_Op Op \<noteq> MemOpFENCE\<close> p by (auto simp: issue_rqst_def Let_def res_bind_eq_Inr split: if_splits)
    then have "(if Success then Inr (T\<lparr>t_ops := t_ops T + 1\<rparr>, erase_slot i C1) else Inr (T\<lparr>t_ops := t_ops T + 1, t_ops := mc_max_ops C\<rparr>, C1)) = (Inr (T', C') :: (Slots \<times> RevMemCtrl) result)"
      using assms \<open>op_Op Op \<noteq> MemOpFENCE\<close> p False by (auto simp: issue_rqst_def Let_def)
    then show ?thesis
      using b p False \<open>op_Op Op \<noteq> MemOpFENCE\<close> by (cases Success) (intro sent [of C1] full; auto)+
  qed
qed

lemma issue_rqst_Q:
  assumes "issue_rqst i p Op T C = Inr (T1, C1)" "i < length (mc_rqstQ C)"
  shows "mc_max_ops C1 = mc_max_ops C \<and> (t_ops T1 = mc_max_ops C \<or> length (mc_rqstQ C1) < length (mc_rqstQ C))"
  using assms(1)
proof (cases rule: issue_rqst_Inr)
  case full
  then show ?thesis using buildStandardMemRqst_Q [OF full(3)] by simp
next
  case (sent D)
  then show ?thesis using buildStandardMemRqst_Q [OF sent(1)] assms(2) by (simp add: erase_slot_def) linarith
qed (simp_all add: delete_op_def erase_slot_def)

lemma rqst_scan_Q:
  assumes "rqst_scan i ps T C = Inr (T1, C1)" "i + length ps \<le> length (mc_rqstQ C)"
  shows "mc_max_ops C1 = mc_max_ops C \<and> (t_ops T1 = mc_max_ops C \<or> length (mc_rqstQ C1) < length (mc_rqstQ C))"
  using assms
proof (induction ps arbitrary: i T)
  case (Cons p ps)
  then obtain Op avail T' where s: "deref p C = Inr Op" "isMemOpAvail Op T C = Inr (avail, T')"
    "(if avail then issue_rqst i p Op T' C else rqst_scan (Suc i) ps T' C) = Inr (T1, C1)"
    by (auto simp: res_bind_eq_Inr)
  show ?case
  proof (cases avail)
    case True
    then show ?thesis using s(3) Cons.prems(2) by (intro issue_rqst_Q [of i p Op T' C]) simp_all
  next
    case False
    then show ?thesis using s(3) Cons.prems(2) by (intro Cons.IH [of "Suc i" T']) simp_all
  qed
qed (simp, metis Slots.select_convs(8) Slots.surjective Slots.update_convs(8))

lemma processNextRqst_Q:
  assumes "processNextRqst T C = Inr (T1, C1)" "t_ops T1 \<noteq> mc_max_ops C1"
  shows "length (mc_rqstQ C1) < length (mc_rqstQ C)"
  using rqst_scan_Q [of 0 "mc_rqstQ C" T C T1 C1] assms by (auto simp: processNextRqst_def)

function tick_loop :: "Slots \<Rightarrow> RevMemCtrl \<Rightarrow> RevMemCtrl result" where
  "tick_loop T C =
     (case processNextRqst T C of
        Inl e \<Rightarrow> Inl e
      | Inr (T1, C1) \<Rightarrow> if t_ops T1 = mc_max_ops C1 then Inr C1 else tick_loop T1 C1)"
  by auto
termination
  by (relation "measure (\<lambda>(T, C). length (mc_rqstQ C))") (auto dest: processNextRqst_Q)

declare tick_loop.simps [simp del]

definition getTotalRqsts :: "RevMemCtrl \<Rightarrow> u64" where
  "getTotalRqsts C = mc_num_read C + mc_num_write C + mc_num_llsc C + mc_num_readlock C + mc_num_writeunlock C + mc_num_custom C"

definition outstandingRqsts :: "RevMemCtrl \<Rightarrow> bool" where
  "outstandingRqsts C = (mc_requests C \<noteq> [])"

definition ctrl_clockTick :: "RevMemCtrl \<Rightarrow> RevMemCtrl result" where
  "ctrl_clockTick C =
     (if 0 < mc_num_fence C then
        if mc_num_read C + mc_num_write C + mc_num_llsc C + mc_num_readlock C + mc_num_writeunlock C + mc_num_custom C \<noteq> 0
        then Inr (recordStat FencePending 1 C)
        else tick_loop Slots_zero (C\<lparr>mc_num_fence := mc_num_fence C - 1\<rparr>)
      else tick_loop Slots_zero C)"

section \<open>Responses\<close>

text \<open>A shift by as many bits as the type has, or more, is undefined.\<close>

definition handleFlagResp :: "RevMemOp \<Rightarrow> RevMemCtrl \<Rightarrow> RevMemCtrl result" where
  "handleFlagResp Op C =
     (let flags = op_flags Op; bits = unat (8 * op_Size Op);
          ext32 = (\<lambda>f. case op_target Op of
            None \<Rightarrow> Inl (Undefined ''null target'')
          | Some a \<Rightarrow>
              if bits = 0 \<or> 32 \<le> bits then Inl (Undefined ''shift too large'')
              else Inr (C\<lparr>mc_host := host_write a (le_bytes 4 (ucast (f (ucast (le_word (host_read a 4 (mc_host C))) :: u32) bits))) (mc_host C)\<rparr>));
          ext64 = (\<lambda>f. case op_target Op of
            None \<Rightarrow> Inl (Undefined ''null target'')
          | Some a \<Rightarrow>
              if bits = 0 \<or> 64 \<le> bits then Inl (Undefined ''shift too large'')
              else Inr (C\<lparr>mc_host := host_write a (le_bytes 8 (f (le_word (host_read a 8 (mc_host C))) bits)) (mc_host C)\<rparr>))
      in if RevFlagHas flags F_SEXT32 then ext32 SignExt
         else if RevFlagHas flags F_SEXT64 then ext64 SignExt
         else if RevFlagHas flags F_ZEXT32 then ext32 ZeroExt
         else if RevFlagHas flags F_ZEXT64 then ext64 ZeroExt
         else if RevFlagHas flags F_BOXNAN then
           (case op_target Op of
              None \<Rightarrow> Inl (Undefined ''null target'')
            | Some a \<Rightarrow>
                Inr (C\<lparr>mc_host := host_write a (le_bytes 8 (BoxNaN (ucast (le_word (host_read a 4 (mc_host C)))))) (mc_host C)\<rparr>))
         else Inr C)"

definition getNumSplitRqsts :: "nat \<Rightarrow> RevMemCtrl \<Rightarrow> nat" where
  "getNumSplitRqsts p C = length (filter (\<lambda>e. snd e = p) (mc_outstanding C))"

text \<open>
  The operation that a response belongs to, whose identifier is taken off the list of requests; the
  entry in the map of outstanding requests is erased later.
\<close>

definition take_request :: "string \<Rightarrow> u64 \<Rightarrow> RevMemCtrl \<Rightarrow> (nat \<times> RevMemOp \<times> RevMemCtrl) result" where
  "take_request kind i C =
     (if i \<notin> set (mc_requests C) then Inl (Fatal (''found unknown '' @ kind))
      else case map_of (mc_outstanding C) i of
             None \<Rightarrow> Inl (Fatal ''RevMemOp is null'')
           | Some p \<Rightarrow> res_bind (deref p C) (\<lambda>Op. Inr (p, Op, C\<lparr>mc_requests := remove1 i (mc_requests C)\<rparr>)))"

definition erase_outstanding :: "u64 \<Rightarrow> RevMemCtrl \<Rightarrow> RevMemCtrl" where
  "erase_outstanding i C = C\<lparr>mc_outstanding := filter (\<lambda>e. fst e \<noteq> i) (mc_outstanding C)\<rparr>"

definition mark_complete :: "RevMemOp \<Rightarrow> RevMemCtrl \<Rightarrow> RevMemCtrl" where
  "mark_complete Op C = C\<lparr>mc_completed := mc_completed C @ [op_procReq Op]\<rparr>"

text \<open>The entries of the table for an address that belong to an operation.\<close>

definition amo_entry :: "nat \<Rightarrow> RevMemOp \<Rightarrow> u64 \<times> AMOEntry \<Rightarrow> bool" where
  "amo_entry p Op e = (fst e = op_Addr Op \<and> am_memop (snd e) = p)"

text \<open>
  The write that stores the result: the bytes at the target before the operation are \<open>H\<close>, those after it
  \<open>H1\<close>. As in \<^verbatim>\<open>AMOMem\<close>, only the first call of \<^verbatim>\<open>ApplyAMO\<close> for a size of operand is defined.
\<close>

definition amo_write :: "RevMemOp \<Rightarrow> nat \<Rightarrow> (nat \<Rightarrow> u8) \<Rightarrow> (nat \<Rightarrow> u8) \<Rightarrow> RevMemOp" where
  "amo_write Tmp a H H1 =
     (mk_RevMemOp (op_Hart Tmp) (op_Addr Tmp) (op_PAddr Tmp) (op_Size Tmp) (host_read a (unat (op_Size Tmp)) H1)
        None 0 MemOpWRITE (op_flags Tmp))
     \<lparr>op_tempT := host_read a (unat (op_Size Tmp)) H, op_procReq := op_procReq Tmp\<rparr>"

definition performAMO :: "nat \<Rightarrow> RevMemCtrl \<Rightarrow> RevMemCtrl result" where
  "performAMO p C =
     res_bind (deref p C) (\<lambda>Tmp.
     case op_target Tmp of
       None \<Rightarrow> Inl (Undefined ''null target'')
     | Some a \<Rightarrow>
         let T = amo_T (unat (op_Size Tmp)); H = mc_host C
         in if T < length (op_membuf Tmp) then Inl (Undefined ''shift too large'')
            else
              res_bind (apply_amo (T \<in> set (mc_ApplyAMO C)) (op_flags Tmp) (unat (op_Size Tmp)) (host_read a T H) (le_word (op_membuf Tmp))) (\<lambda>new.
              let H1 = host_write a new H; Op = amo_write Tmp a H H1;
                  Entry = \<lparr>am_Hart = op_Hart Op, am_target = op_target Op, am_flags = op_flags Op, am_memop = mc_nops C, am_in = True\<rparr>
              in Inr (push_op Op (C\<lparr>mc_host := host_write a (op_tempT Op) H1, mc_ApplyAMO := T # mc_ApplyAMO C,
                   mc_AMOTable := mc_AMOTable C @ [(op_Addr Op, Entry)]\<rparr>))))"

definition handleAMO :: "nat \<Rightarrow> RevMemOp \<Rightarrow> RevMemCtrl \<Rightarrow> RevMemCtrl result" where
  "handleAMO p Op C =
     (case find (amo_entry p Op) (mc_AMOTable C) of
        None \<Rightarrow> Inr C
      | Some e \<Rightarrow>
          res_bind (performAMO (am_memop (snd e)) C) (\<lambda>C1. Inr (C1\<lparr>mc_AMOTable := remove1 e (mc_AMOTable C1)\<rparr>)))"

text \<open>What a read does when all its data is there: the value is extended, then it is an atomic operation or complete.\<close>

definition finish_read :: "nat \<Rightarrow> RevMemOp \<Rightarrow> bool \<Rightarrow> RevMemCtrl \<Rightarrow> RevMemCtrl result" where
  "finish_read p Op isAMO C =
     res_bind (handleFlagResp Op C) (\<lambda>C1.
     res_bind (if isAMO then handleAMO p Op C1 else Inr (mark_complete Op C1)) (\<lambda>C2. Inr (delete_op p C2)))"

definition handleReadResp :: "u64 \<Rightarrow> u64 \<Rightarrow> u64 \<Rightarrow> u8 list \<Rightarrow> RevMemCtrl \<Rightarrow> RevMemCtrl result" where
  "handleReadResp i pAddr sz data C =
     res_bind (take_request ''ReadResp'' i C) (\<lambda>(p, Op, C1).
     let isAMO = list_ex (amo_entry p Op) (mc_AMOTable C1);
         split = 1 < op_SplitRqst Op;
         startByte = (if split then unat (ucast (pAddr - op_Addr Op) :: u8) else 0);
         n = (if split then unat (ucast sz :: u32) else unat (op_Size Op))
     in if length data < n then Inl (Undefined ''data out of bounds'')
        else
          res_bind (target_write (op_target Op) startByte (take n data) C1) (\<lambda>C2.
          res_bind (if split \<and> getNumSplitRqsts p C2 \<noteq> 1 then Inr C2 else finish_read p Op isAMO C2) (\<lambda>C3.
          Inr ((erase_outstanding i C3)\<lparr>mc_num_read := mc_num_read C3 - 1\<rparr>))))"

definition handleWriteResp :: "u64 \<Rightarrow> RevMemCtrl \<Rightarrow> RevMemCtrl result" where
  "handleWriteResp i C =
     res_bind (take_request ''WriteResp'' i C) (\<lambda>(p, Op, C1).
     let isAMO = list_ex (amo_entry p Op) (mc_AMOTable C1);
         C2 = C1\<lparr>mc_AMOTable := filter (\<lambda>e. \<not> amo_entry p Op e) (mc_AMOTable C1)\<rparr>;
         C3 = (if 1 < op_SplitRqst Op \<and> getNumSplitRqsts p C2 \<noteq> 1 then C2
               else delete_op p (if isAMO then mark_complete Op C2 else C2))
     in Inr ((erase_outstanding i C3)\<lparr>mc_num_write := mc_num_write C3 - 1\<rparr>))"

text \<open>What the responses to flushes, custom requests and invalidations share.\<close>

definition plain_resp :: "string \<Rightarrow> u64 \<Rightarrow> RevMemCtrl \<Rightarrow> RevMemCtrl result" where
  "plain_resp kind i C =
     res_bind (take_request kind i C) (\<lambda>(p, Op, C1).
     Inr (erase_outstanding i (if 1 < op_SplitRqst Op \<and> getNumSplitRqsts p C1 \<noteq> 1 then C1 else delete_op p C1)))"

definition handleFlushResp :: "u64 \<Rightarrow> RevMemCtrl \<Rightarrow> RevMemCtrl result" where
  "handleFlushResp i C = res_bind (plain_resp ''FlushResp'' i C) (\<lambda>C1. Inr (C1\<lparr>mc_num_flush := mc_num_flush C1 - 1\<rparr>))"

definition handleCustomResp :: "u64 \<Rightarrow> RevMemCtrl \<Rightarrow> RevMemCtrl result" where
  "handleCustomResp i C = res_bind (plain_resp ''CustomResp'' i C) (\<lambda>C1. Inr (C1\<lparr>mc_num_custom := mc_num_custom C1 - 1\<rparr>))"

definition handleInvResp :: "u64 \<Rightarrow> RevMemCtrl \<Rightarrow> RevMemCtrl result" where
  "handleInvResp i C = plain_resp ''InvResp'' i C"

end
