(* ===== verification/Rev_MemLines.thy ===== *)
theory Rev_MemLines
  imports Rev_MemCtrl
begin

unbundle bit_operations_syntax

text \<open>
  Requests and cache lines: how \<^verbatim>\<open>buildCacheMemRqst\<close> of \<^verbatim>\<open>src/RevMemCtrl.cc\<close> divides an operation
  that is shorter than a cache line, and where the number of lines it computes is too small.
\<close>

section \<open>Requests and lines\<close>

text \<open>The address, size and data of a request.\<close>

fun rq_addr :: "StdRequest \<Rightarrow> u64" where
  "rq_addr (Std_Read i a s f) = a"
| "rq_addr (Std_Write i a s d f) = a"
| "rq_addr (Std_FlushAddr i a s v e f) = a"
| "rq_addr (Std_ReadLock i a s f) = a"
| "rq_addr (Std_WriteUnlock i a s d u f) = a"
| "rq_addr (Std_LoadLink i a s f) = a"
| "rq_addr (Std_StoreConditional i a s d f) = a"
| "rq_addr (Std_CustomReq i f) = 0"

fun rq_size :: "StdRequest \<Rightarrow> u64" where
  "rq_size (Std_Read i a s f) = s"
| "rq_size (Std_Write i a s d f) = s"
| "rq_size (Std_FlushAddr i a s v e f) = s"
| "rq_size (Std_ReadLock i a s f) = s"
| "rq_size (Std_WriteUnlock i a s d u f) = s"
| "rq_size (Std_LoadLink i a s f) = s"
| "rq_size (Std_StoreConditional i a s d f) = s"
| "rq_size (Std_CustomReq i f) = 0"

fun rq_data :: "StdRequest \<Rightarrow> u8 list" where
  "rq_data (Std_Write i a s d f) = d"
| "rq_data (Std_WriteUnlock i a s d u f) = d"
| "rq_data (Std_StoreConditional i a s d f) = d"
| "rq_data _ = []"

lemma unat_ucast_32_64 [simp]: "unat (ucast (x :: u32) :: u64) = unat x"
  using unsigned_less [of x, where ?'a = nat] by (simp add: unsigned_ucast_eq take_bit_nat_eq_self)

lemma unat_base_line: "L \<noteq> 0 \<Longrightarrow> unat (base_line L a) = unat a div unat L * unat L"
proof (induction L a rule: base_line.induct)
  case (1 L a)
  have m: "unat (a mod L) = unat a mod unat L" by (simp add: unat_mod)
  show ?case
  proof (cases "a mod L = 0")
    case True
    then have "unat a mod unat L = 0" using m by simp
    then show ?thesis using True by (simp add: base_line.simps [of L a] mod_eq_0_iff_dvd)
  next
    case False
    then have a: "unat a mod unat L \<noteq> 0" "a \<noteq> 0" unfolding m [symmetric] by (auto simp: unat_eq_zero)
    obtain k where k: "unat a = Suc k" using a(1) by (cases "unat a") auto
    then have "unat (a - 1) = k" using a(2) by (simp add: unat_minus_one)
    then have "unat (base_line L (a - 1)) = k div unat L * unat L" using 1 False by simp
    moreover have "Suc k div unat L = k div unat L" using a(1) k by (simp add: div_Suc)
    ultimately show ?thesis using False k by (simp add: base_line.simps [of L a])
  qed
qed

lemma send_request_sent:
  assumes "send_request p Op addr sz data flags C = Some C1" "op_Op Op \<noteq> MemOpCUSTOM"
  obtains r where "mc_sent C1 = mc_sent C @ [r]" "rq_addr r = addr" "rq_size r = sz" "has_data (op_Op Op) \<longrightarrow> rq_data r = data"
    "mc_lineSize C1 = mc_lineSize C"
  using assms
  by (cases "op_Op Op") (auto simp: send_request_def Let_def std_request_def count_request_def recordStat_def has_data_def)

lemma same_line: "0 < m \<Longrightarrow> a mod L + m \<le> L \<Longrightarrow> a div L = (a + m - 1) div L" for a m L :: nat
proof -
  assume m: "0 < m" "a mod L + m \<le> L"
  then have "a + m - 1 = a div L * L + (a mod L + m - 1)" "a mod L + m - 1 < L" using div_mult_mod_eq [of a L] by linarith+
  then show ?thesis by simp
qed

lemma next_line_mod: "0 < L \<Longrightarrow> (a + (L - a mod L)) mod L = 0" for a L :: nat
proof -
  assume "0 < L"
  then have "a mod L < L" by simp
  then have "a + (L - a mod L) = a div L * L + L" using div_mult_mod_eq [of a L] by linarith
  then have "a + (L - a mod L) = (a div L + 1) * L" by simp
  then show ?thesis by (metis mod_mult_self2_is_0)
qed

text \<open>The lines of an operation that is shorter than a cache line.\<close>

lemma small_lines:
  assumes "mc_hasCache C" "L = unat (mc_lineSize C)" "0 < L" "n = unat Size" "n < L" "a = unat Addr" "a + L < 2 ^ 64"
  shows "getNumCacheLines Addr Size C = (if a mod L + n \<le> L then 1 else 2)"
    and "L < a mod L + n \<Longrightarrow> unat (getBaseCacheLineSize Addr Size C) = L - a mod L"
proof -
  let ?L = "ucast (mc_lineSize C) :: u64"
  have L: "unat ?L = L" using assms(2) by simp
  have S: "unat (ucast Size :: u64) = n" using assms(4) by simp
  have off: "unat (Addr mod ?L) = a mod L" using L assms(6) by (simp add: unat_mod)
  have lt: "a mod L < L" using assms(3) by simp
  have sub: "unat (?L - Addr mod ?L) = L - a mod L" using off L lt by (simp add: unat_sub word_le_nat_alt)
  have le: "ucast Size \<le> ?L - Addr mod ?L \<longleftrightarrow> a mod L + n \<le> L" unfolding word_le_nat_alt sub S using lt by linarith
  have z: "Addr mod ?L = 0 \<longleftrightarrow> a mod L = 0" using off by (metis unat_0 unat_eq_zero)
  have sl: "Size < mc_lineSize C" using assms(2,4,5) by (simp add: word_less_nat_alt)
  show "getNumCacheLines Addr Size C = (if a mod L + n \<le> L then 1 else 2)"
    using assms(1,5) sl le z by (auto simp: getNumCacheLines_def Let_def)
  assume c: "L < a mod L + n"
  have "?L \<noteq> 0" using L assms(3) by (metis less_not_refl unat_0)
  then have b: "unat (base_line ?L Addr) = a div L * L" using unat_base_line L assms(6) by simp
  have d: "a div L * L + a mod L = a" by simp
  have nz: "a mod L \<noteq> 0" using c assms(5) by linarith
  have "a div L * L + L \<le> a + L" using d by simp
  then have "a div L * L + L < 2 ^ 64" using assms(7) by (rule le_less_trans)
  then have e1: "unat (base_line ?L Addr + ?L) = a div L * L + L" using b L by (simp add: unat_word_ariths)
  have e2: "unat (Addr + ucast Size) = a + n" using S assms(5,6,7) by (simp add: unat_word_ariths)
  have ne: "Addr \<noteq> base_line ?L Addr" using b d nz assms(6) by (metis add_cancel_left_right)
  have nle: "\<not> Addr + ucast Size \<le> base_line ?L Addr + ?L" unfolding word_le_nat_alt e1 e2 using c d by linarith
  have "unat (base_line ?L Addr + ?L - Addr) = L - a mod L"
  proof -
    have "a \<le> a div L * L + L" "a div L * L + L - a = L - a mod L" using d lt by linarith+
    then show ?thesis using e1 assms(6) by (subst unat_sub) (simp_all add: word_le_nat_alt)
  qed
  then have "unat (ucast (base_line ?L Addr + ?L - Addr) :: u32) = L - a mod L"
    using unsigned_less [of "mc_lineSize C", where ?'a = nat] assms(2) by (simp add: unsigned_ucast_eq take_bit_nat_eq_self)
  then show "unat (getBaseCacheLineSize Addr Size C) = L - a mod L"
    using ne nle by (simp add: getBaseCacheLineSize_def Let_def)
qed

text \<open>What is sent for an operation that spans two lines, the first \<open>k\<close> bytes of it in the first line.\<close>

lemma two_lines:
  fixes Base :: u32
  assumes first: "send_request p Op addr (ucast Base) newBuf fl C1 = Some C2" "op_slice Op 0 (unat Base) = Inr newBuf"
    and rest: "cache_lines (Suc 0) p Op (addr + ucast Base) (ucast (op_Size Op) - ucast Base) (unat Base) C2 = Inr (True, C')"
    and kind: "op_Op Op \<noteq> MemOpCUSTOM" and k: "unat Base = k" "k < n" "n = unat (op_Size Op)" "n - k < unat (mc_lineSize C1)"
    and a: "unat addr = a" "a + k < 2 ^ 64"
  obtains r1 r2 where "mc_sent C' = mc_sent C1 @ [r1, r2]" "unat (rq_addr r1) = a" "unat (rq_size r1) = k"
    "unat (rq_addr r2) = a + k" "unat (rq_size r2) = n - k" "has_data (op_Op Op) \<Longrightarrow> rq_data r1 @ rq_data r2 = take n (op_membuf Op)"
proof -
  obtain r1 where r1: "mc_sent C2 = mc_sent C1 @ [r1]" "rq_addr r1 = addr" "rq_size r1 = ucast Base"
    "has_data (op_Op Op) \<longrightarrow> rq_data r1 = newBuf" "mc_lineSize C2 = mc_lineSize C1"
    using send_request_sent [OF first(1) kind] by auto
  let ?s = "ucast (op_Size Op) - ucast Base :: u64"
  have s: "unat ?s = n - k" using k(1-3) by (subst unat_sub) (simp_all add: word_le_nat_alt)
  then have "?s < ucast (mc_lineSize C2)" using k(4) r1(5) by (simp add: word_less_nat_alt)
  then have m: "min ?s (ucast (mc_lineSize C2)) = ?s" by simp
  obtain newBuf2 where c: "op_slice Op (unat Base) (unat ?s) = Inr newBuf2"
    "send_request p Op (addr + ucast Base) ?s newBuf2 (getStdFlags Op) C2 = Some C'"
    using rest by (rule cache_lines_Suc) (use m in auto)
  obtain r2 where r2: "mc_sent C' = mc_sent C2 @ [r2]" "rq_addr r2 = addr + ucast Base" "rq_size r2 = ?s"
    "has_data (op_Op Op) \<longrightarrow> rq_data r2 = newBuf2"
    using send_request_sent [OF c(2) kind] by auto
  have "unat (addr + ucast Base) = a + k" using k(1) a by (simp add: unat_word_ariths)
  moreover have "has_data (op_Op Op) \<Longrightarrow> newBuf @ newBuf2 = take n (op_membuf Op)"
    using first(2) c(1) k(1,2) s by (auto simp: op_slice_def take_add [symmetric] split: if_splits)
  ultimately show ?thesis using that [of r1 r2] r1 r2 s k(1) a(1) by simp
qed

text \<open>
  C8: The requests that \<^verbatim>\<open>buildCacheMemRqst\<close> sends for an operation shorter than a cache line are one
  or two; they cover exactly the bytes of the operation, in order, each of them lies within one cache
  line and is not empty, and the data of a write is distributed over them without loss.
\<close>

theorem requests_within_lines:
  assumes build: "buildCacheMemRqst p Op S C = Inr (True, True, C')" and cache: "mc_hasCache C"
    and L: "L = unat (mc_lineSize C)" and n: "n = unat (op_Size Op)" "0 < n" "n < L"
    and a: "a = unat (op_Addr Op)" "a + L < 2 ^ 64" and kind: "op_Op Op \<noteq> MemOpCUSTOM"
  shows "\<exists>rs. mc_sent C' = mc_sent C @ rs \<and> length rs = (if a mod L + n \<le> L then 1 else 2) \<and>
    concat (map (\<lambda>r. [unat (rq_addr r)..<unat (rq_addr r) + unat (rq_size r)]) rs) = [a..<a + n] \<and>
    (\<forall>r\<in>set rs. 0 < unat (rq_size r) \<and> unat (rq_addr r) div L = (unat (rq_addr r) + unat (rq_size r) - 1) div L) \<and>
    (has_data (op_Op Op) \<longrightarrow> concat (map rq_data rs) = take n (op_membuf Op))"
  using build
proof (cases rule: buildCacheMemRqst_Inr)
  case (sent N Base newBuf C2)
  note lines = small_lines [OF cache L _ n(1) n(3) a(1) a(2)]
  let ?o = "a mod L"
  have lt: "?o < L" "0 < L" using n(2,3) by simp_all
  show ?thesis
  proof (cases "?o + n \<le> L")
    case True
    then have "N = 1" using lines(1) sent(2) lt by simp
    then have B: "Base = op_Size Op" "C' = C2" using sent(4,7) by simp_all
    obtain r where "mc_sent C2 = mc_sent C @ [r]" "rq_addr r = op_Addr Op" "rq_size r = ucast Base"
      "has_data (op_Op Op) \<longrightarrow> rq_data r = newBuf"
      using send_request_sent [OF sent(6)] kind by auto
    moreover have "has_data (op_Op Op) \<longrightarrow> newBuf = take n (op_membuf Op)"
      using sent(5) B(1) n(1) by (auto simp: op_slice_def split: if_splits)
    ultimately show ?thesis using True n B same_line [of n a L] a(1) by (intro exI [of _ "[r]"]) simp
  next
    case False
    let ?Op = "Op\<lparr>op_SplitRqst := N\<rparr>"
    define k where "k = L - ?o"
    have k: "k < n" "0 < k" "?o + k = L" "a + k < 2 ^ 64" using False lt(1) a(2) unfolding k_def by linarith+
    have kl: "n - k < L" using n(3) by linarith
    have N: "N = 2" using lines(1) sent(2) lt False by simp
    then have B: "unat Base = k" using lines(2) sent(4) False lt by (simp add: k_def)
    have c: "cache_lines (Suc 0) p ?Op (op_Addr Op + ucast Base) (ucast (op_Size ?Op) - ucast Base) (unat Base) C2 = Inr (True, C')"
      using sent(7) N by simp
    obtain r1 r2 where r: "mc_sent C' = mc_sent C @ [r1, r2]" "unat (rq_addr r1) = a" "unat (rq_size r1) = k"
      "unat (rq_addr r2) = a + k" "unat (rq_size r2) = n - k" "has_data (op_Op Op) \<Longrightarrow> rq_data r1 @ rq_data r2 = take n (op_membuf Op)"
      by (rule two_lines [OF sent(6) sent(5) c _ B k(1) _ _ a(1) [symmetric] k(4)]) (use kind n(1) kl L in auto)
    have "[a..<a + k] @ [a + k..<a + n] = [a..<a + n]" using upt_add_eq_append [of a "a + k" "n - k"] k(1) by simp
    moreover have "a div L = (a + k - 1) div L" using same_line [OF k(2), of a L] k(3) by simp
    moreover have "(a + k) div L = (a + k + (n - k) - 1) div L"
      using same_line [of "n - k" "a + k" L] next_line_mod [OF lt(2), of a] k kl by (simp add: k_def [symmetric])
    ultimately show ?thesis using r k False by (intro exI [of _ "[r1, r2]"]) simp
  qed
qed simp

text \<open>A write of four bytes that crosses a line.\<close>

definition ex_lines :: RevMemCtrl where
  "ex_lines = ctrl_init 64 (mk_RevMemCtrl of_nat 8 8 8 8 1 8 8 2 (\<lambda>_. 0))"

definition ex_store :: RevMemOp where
  "ex_store = mk_RevMemOp 0 0x13E 0 4 [1, 2, 3, 4] None 0 MemOpWRITE 0"

definition ex_split :: RevMemCtrl where
  "ex_split = snd (snd (projr (buildCacheMemRqst 0 ex_store False ex_lines)))"

theorem requests_within_lines_witness:
  "length (mc_sent ex_split) = 2 \<and>
   concat (map (\<lambda>r. [unat (rq_addr r)..<unat (rq_addr r) + unat (rq_size r)]) (mc_sent ex_split)) = [0x13E..<0x142] \<and>
   concat (map rq_data (mc_sent ex_split)) = [1, 2, 3, 4]"
proof -
  have "fst (projr (buildCacheMemRqst 0 ex_store False ex_lines))" "fst (snd (projr (buildCacheMemRqst 0 ex_store False ex_lines)))"
    "\<not> isl (buildCacheMemRqst 0 ex_store False ex_lines)" by code_simp+
  then have b: "buildCacheMemRqst 0 ex_store False ex_lines = Inr (True, True, ex_split)"
    unfolding ex_split_def by (metis prod.collapse sum.collapse(2))
  show ?thesis
    using requests_within_lines [OF b _ refl refl _ _ refl]
    by (simp add: ex_lines_def ex_store_def mk_RevMemOp_def ctrl_init_def mk_RevMemCtrl_def has_data_def)
qed

text \<open>
  Sixty-four bytes that begin one byte into a line of sixty-four are taken for one line, and the request
  crosses into the next; a hundred and twenty-eight aligned bytes are taken for three lines, and the
  last request is empty.
\<close>

lemma line_count_wrong:
  "getNumCacheLines 0x101 64 ex_lines = 1" "getNumCacheLines 0x100 128 ex_lines = 3"
  by code_simp+

end
