(* ===== verification/Rev_MemCtrlInv.thy ===== *)
theory Rev_MemCtrlInv
  imports Rev_MemLines "HOL-Library.Multiset"
begin

unbundle bit_operations_syntax

text \<open>
  The invariant of the memory controller of \<^verbatim>\<open>src/RevMemCtrl.cc\<close>: which operations exist, how the queue,
  the list of requests, the map of outstanding requests and the table of atomic operations relate, that
  the sum of the counters is the number of requests a fence waits for, and which loads are still owed to
  the processor. Every operation of the controller keeps it.
\<close>

section \<open>The invariant\<close>

definition is_load :: "RevMemOp \<Rightarrow> bool" where
  "is_load Op = (op_Op Op = MemOpREAD \<or> op_Op Op = MemOpREADLOCK \<or> op_Op Op = MemOpLOADLINK)"

definition amo_memops :: "RevMemCtrl \<Rightarrow> nat set" where
  "amo_memops C = (\<lambda>e. am_memop (snd e)) ` set (mc_AMOTable C)"

definition sent_ops :: "RevMemCtrl \<Rightarrow> nat set" where
  "sent_ops C = snd ` set (mc_outstanding C)"

text \<open>
  Every operation that exists is in the queue, has requests outstanding, or is one of \<open>X\<close>, which are
  just being sent; the identifiers of the outstanding requests are those the controller waits for;
  an operation that was not split has one request.
\<close>

definition queue_ok :: "nat set \<Rightarrow> RevMemCtrl \<Rightarrow> bool" where
  "queue_ok X C \<longleftrightarrow> distinct (mc_rqstQ C) \<and> distinct (mc_requests C) \<and> distinct (map fst (mc_outstanding C)) \<and>
     set (mc_requests C) = fst ` set (mc_outstanding C) \<and> set (mc_rqstQ C) \<inter> (sent_ops C \<union> X) = {} \<and>
     dom (mc_ops C) = set (mc_rqstQ C) \<union> sent_ops C \<union> X \<and> (\<forall>p\<in>dom (mc_ops C). p < mc_nops C) \<and>
     (\<forall>p\<in>set (mc_rqstQ C). op_SplitRqst (the (mc_ops C p)) = 1) \<and>
     (\<forall>p\<in>sent_ops C - X. 1 < op_SplitRqst (the (mc_ops C p)) \<or> getNumSplitRqsts p C = 1)"

definition amo_ok :: "RevMemCtrl \<Rightarrow> bool" where
  "amo_ok C \<longleftrightarrow> distinct (map (\<lambda>e. am_memop (snd e)) (mc_AMOTable C)) \<and>
     (\<forall>e\<in>set (mc_AMOTable C). \<exists>Op. mc_ops C (am_memop (snd e)) = Some Op \<and> op_Addr Op = fst e \<and>
        (op_Op Op = MemOpREAD \<or> op_Op Op = MemOpWRITE) \<and> op_SplitRqst Op = 1 \<and>
        getNumCacheLines (op_Addr Op) (op_Size Op) C = 1)"

definition ids_ok :: "RevMemCtrl \<Rightarrow> bool" where
  "ids_ok C \<longleftrightarrow> fst ` set (mc_outstanding C) \<subseteq> mc_newID C ` {..<mc_created C}"

text \<open>The outstanding requests that a fence waits for.\<close>

definition awaited :: "RevMemCtrl \<Rightarrow> nat" where
  "awaited C = length (filter (\<lambda>e. map_option op_Op (mc_ops C (snd e)) \<noteq> Some MemOpFLUSH) (mc_outstanding C))"

definition sum_ok :: "RevMemCtrl \<Rightarrow> bool" where
  "sum_ok C \<longleftrightarrow> getTotalRqsts C = of_nat (awaited C)"

definition ctrl_inv :: "nat set \<Rightarrow> RevMemCtrl \<Rightarrow> bool" where
  "ctrl_inv X C \<longleftrightarrow> queue_ok X C \<and> amo_ok C \<and> ids_ok C \<and> sum_ok C"

text \<open>The load requests that the controller has taken and not yet completed.\<close>

definition owing :: "RevMemCtrl \<Rightarrow> nat set" where
  "owing C = {p. \<exists>Op. mc_ops C p = Some Op \<and> (is_load Op \<or> p \<in> amo_memops C)}"

definition owed :: "RevMemCtrl \<Rightarrow> MemReq multiset" where
  "owed C = image_mset (\<lambda>p. op_procReq (the (mc_ops C p))) (mset_set (owing C))"

lemmas ctrl_defs = ctrl_inv_def queue_ok_def amo_ok_def ids_ok_def sum_ok_def awaited_def getTotalRqsts_def getNumSplitRqsts_def sent_ops_def
lemmas owed_defs = owed_def owing_def amo_memops_def is_load_def

section \<open>Lemmas: steps of the controller\<close>

lemma queue_ok_finite: "queue_ok X C \<Longrightarrow> finite (owing C)"
  by (rule finite_subset [of _ "{..<mc_nops C}"]) (auto simp: queue_ok_def owing_def dom_def)

lemma amo_memops_live: "amo_ok C \<Longrightarrow> p \<in> amo_memops C \<Longrightarrow> \<exists>Op. mc_ops C p = Some Op"
  by (auto simp: amo_ok_def amo_memops_def)

lemma getNumCacheLines_upd [simp]:
  "getNumCacheLines a s (C\<lparr>mc_stats := st\<rparr>) = getNumCacheLines a s C"
  "getNumCacheLines a s (C\<lparr>mc_host := h\<rparr>) = getNumCacheLines a s C"
  "getNumCacheLines a s (C\<lparr>mc_completed := cs\<rparr>) = getNumCacheLines a s C"
  "getNumCacheLines a s (C\<lparr>mc_num_fence := k\<rparr>) = getNumCacheLines a s C"
  "getNumCacheLines a s (C\<lparr>mc_num_flush := k\<rparr>) = getNumCacheLines a s C"
  "getNumCacheLines a s (C\<lparr>mc_num_read := k\<rparr>) = getNumCacheLines a s C"
  "getNumCacheLines a s (C\<lparr>mc_num_write := k\<rparr>) = getNumCacheLines a s C"
  "getNumCacheLines a s (C\<lparr>mc_num_custom := k\<rparr>) = getNumCacheLines a s C"
  "getNumCacheLines a s (C\<lparr>mc_ops := ops\<rparr>) = getNumCacheLines a s C"
  "getNumCacheLines a s (C\<lparr>mc_nops := n\<rparr>) = getNumCacheLines a s C"
  "getNumCacheLines a s (C\<lparr>mc_rqstQ := q\<rparr>) = getNumCacheLines a s C"
  "getNumCacheLines a s (C\<lparr>mc_requests := rs\<rparr>) = getNumCacheLines a s C"
  "getNumCacheLines a s (C\<lparr>mc_outstanding := os\<rparr>) = getNumCacheLines a s C"
  "getNumCacheLines a s (C\<lparr>mc_AMOTable := t\<rparr>) = getNumCacheLines a s C"
  by (simp_all add: getNumCacheLines_def Let_def)

text \<open>The fields that the invariant and the debt do not depend on.\<close>

lemma ctrl_inv_frame [simp]:
  "ctrl_inv X (C\<lparr>mc_stats := st\<rparr>) = ctrl_inv X C" "owed (C\<lparr>mc_stats := st\<rparr>) = owed C"
  "ctrl_inv X (C\<lparr>mc_host := h\<rparr>) = ctrl_inv X C" "owed (C\<lparr>mc_host := h\<rparr>) = owed C"
  "ctrl_inv X (C\<lparr>mc_completed := cs\<rparr>) = ctrl_inv X C" "owed (C\<lparr>mc_completed := cs\<rparr>) = owed C"
  "ctrl_inv X (C\<lparr>mc_num_fence := k\<rparr>) = ctrl_inv X C" "owed (C\<lparr>mc_num_fence := k\<rparr>) = owed C"
  "ctrl_inv X (C\<lparr>mc_num_flush := k\<rparr>) = ctrl_inv X C" "owed (C\<lparr>mc_num_flush := k\<rparr>) = owed C"
  by (simp_all add: ctrl_defs owed_defs)

lemma ctrl_inv_recordStat [simp]:
  "ctrl_inv X (recordStat s d C) = ctrl_inv X C" "owed (recordStat s d C) = owed C" "mc_completed (recordStat s d C) = mc_completed C"
  by (simp_all add: recordStat_def)

text \<open>A new operation in the queue.\<close>

lemma fresh_op: "queue_ok X C \<Longrightarrow> mc_ops C (mc_nops C) = None"
  by (auto simp: queue_ok_def dom_def)

lemma fresh_sent:
  assumes "queue_ok X C"
  shows "mc_nops C \<notin> set (mc_rqstQ C)" "mc_nops C \<notin> sent_ops C"
proof -
  have "mc_nops C \<notin> dom (mc_ops C)" using fresh_op [OF assms] by auto
  then show "mc_nops C \<notin> set (mc_rqstQ C)" "mc_nops C \<notin> sent_ops C" using assms by (auto simp: queue_ok_def)
qed

lemma push_queue_ok:
  assumes q: "queue_ok {} C" and "op_SplitRqst Op = 1"
  shows "queue_ok {} (push_op Op C)"
proof -
  have s: "sent_ops (push_op Op C) = sent_ops C" "\<And>p. getNumSplitRqsts p (push_op Op C) = getNumSplitRqsts p C"
    by (simp_all add: sent_ops_def push_op_def getNumSplitRqsts_def)
  show ?thesis using assms fresh_sent [OF q] unfolding queue_ok_def s by (auto simp: push_op_def less_Suc_eq)
qed

lemma push_amo_ok:
  assumes "queue_ok {} C" "amo_ok C"
  shows "amo_ok (push_op Op C)"
proof -
  have "mc_ops (push_op Op C) (am_memop (snd e)) = mc_ops C (am_memop (snd e))" if "e \<in> set (mc_AMOTable C)" for e
    using that assms(2) fresh_op [OF assms(1)] by (auto simp: amo_ok_def push_op_def)
  then show ?thesis using assms(2) by (simp add: amo_ok_def) (simp add: push_op_def)
qed

lemma push_sum_ok: "queue_ok {} C \<Longrightarrow> sum_ok C \<Longrightarrow> sum_ok (push_op Op C)"
proof -
  assume q: "queue_ok {} C" and s: "sum_ok C"
  have "\<forall>e\<in>set (mc_outstanding C). snd e \<noteq> mc_nops C" using fresh_sent(2) [OF q] by (auto simp: sent_ops_def image_iff)
  then have "awaited (push_op Op C) = awaited C" unfolding awaited_def
    by (intro arg_cong [where f = length] filter_cong) (auto simp: push_op_def)
  then show ?thesis using s by (simp add: sum_ok_def getTotalRqsts_def push_op_def)
qed

lemma push_inv: "ctrl_inv {} C \<Longrightarrow> op_SplitRqst Op = 1 \<Longrightarrow> ctrl_inv {} (push_op Op C)"
  using push_queue_ok push_amo_ok push_sum_ok by (auto simp: ctrl_inv_def ids_ok_def push_op_def)

lemma owed_insert:
  assumes "finite (owing C)" "owing C' = insert n (owing C)" "n \<notin> owing C" "mc_ops C' n = Some Op"
    and "\<And>p. p \<in> owing C \<Longrightarrow> mc_ops C' p = mc_ops C p"
  shows "owed C' = add_mset (op_procReq Op) (owed C)"
proof -
  have "image_mset (\<lambda>p. op_procReq (the (mc_ops C' p))) (mset_set (owing C)) = owed C"
    unfolding owed_def by (rule image_mset_cong) (use assms(1,5) in simp)
  then show ?thesis using assms(1-4) by (simp add: owed_def)
qed

lemma owed_same:
  assumes "owing C' = owing C" "\<And>p. p \<in> owing C \<Longrightarrow> finite (owing C) \<Longrightarrow> op_procReq (the (mc_ops C' p)) = op_procReq (the (mc_ops C p))"
  shows "owed C' = owed C"
proof (cases "finite (owing C)")
  case True
  then show ?thesis unfolding owed_def assms(1) by (intro image_mset_cong) (simp add: assms(2))
qed (simp add: owed_def assms(1))

lemma push_owed:
  assumes "ctrl_inv {} C"
  shows "owed (push_op Op C) = (if is_load Op then add_mset (op_procReq Op) (owed C) else owed C)"
proof -
  let ?n = "mc_nops C"
  have q: "queue_ok {} C" "amo_ok C" using assms by (simp_all add: ctrl_inv_def)
  have n: "mc_ops C ?n = None" using fresh_op [OF q(1)] .
  then have "?n \<notin> amo_memops C" using amo_memops_live [OF q(2), of ?n] by auto
  then have "owing (push_op Op C) = (if is_load Op then insert ?n (owing C) else owing C)" using n
    by (auto simp: owing_def push_op_def amo_memops_def)
  moreover have "?n \<notin> owing C" using n by (simp add: owing_def)
  moreover have "mc_ops (push_op Op C) p = mc_ops C p" if "p \<in> owing C" for p using that n by (auto simp: push_op_def owing_def)
  moreover have "mc_ops (push_op Op C) ?n = Some Op" by (simp add: push_op_def)
  ultimately show ?thesis
    using owed_insert [of C "push_op Op C" ?n Op] owed_same [of "push_op Op C" C] queue_ok_finite [OF q(1)] by presburger
qed

text \<open>An operation leaves the queue to be sent.\<close>

definition transit :: "nat \<Rightarrow> u32 \<Rightarrow> RevMemOp \<Rightarrow> RevMemCtrl \<Rightarrow> RevMemCtrl" where
  "transit p N Op C = C\<lparr>mc_ops := (mc_ops C)(p \<mapsto> Op\<lparr>op_SplitRqst := N\<rparr>), mc_rqstQ := remove1 p (mc_rqstQ C)\<rparr>"

lemma transit_ops: "mc_ops C p = Some Op \<Longrightarrow> owing (transit p N Op C) = owing C \<and> owed (transit p N Op C) = owed C"
proof -
  assume p: "mc_ops C p = Some Op"
  then have "owing (transit p N Op C) = owing C" by (auto simp: owing_def transit_def amo_memops_def is_load_def)
  moreover from this have "owed (transit p N Op C) = owed C" using p by (intro owed_same) (auto simp: transit_def)
  ultimately show ?thesis ..
qed

lemma transit_inv:
  assumes inv: "ctrl_inv {} C" and p: "p \<in> set (mc_rqstQ C)" "mc_ops C p = Some Op" and N: "p \<in> amo_memops C \<Longrightarrow> N = 1"
  shows "ctrl_inv {p} (transit p N Op C)"
proof -
  have s: "sent_ops (transit p N Op C) = sent_ops C" "\<And>x. getNumSplitRqsts x (transit p N Op C) = getNumSplitRqsts x C"
    by (simp_all add: sent_ops_def transit_def getNumSplitRqsts_def)
  have q: "queue_ok {} C" "p \<notin> sent_ops C" using inv p(1) by (auto simp: ctrl_inv_def queue_ok_def)
  then have 1: "queue_ok {p} (transit p N Op C)" using p unfolding queue_ok_def s
    by (auto simp: transit_def)
  have "amo_ok (transit p N Op C)"
    using inv p N by (auto simp: ctrl_inv_def amo_ok_def amo_memops_def transit_def)
  moreover have "awaited (transit p N Op C) = awaited C" unfolding awaited_def
    by (rule arg_cong [where f = length], rule filter_cong) (use q(2) p(2) in \<open>auto simp: transit_def sent_ops_def\<close>)
  ultimately show ?thesis using inv 1 by (auto simp: ctrl_inv_def ids_ok_def sum_ok_def getTotalRqsts_def transit_def)
qed

text \<open>A request is sent for an operation in transit.\<close>

definition unique_ids :: "RevMemCtrl \<Rightarrow> bool" where
  "unique_ids C \<longleftrightarrow> inj_on (mc_newID C) {..<mc_created C}"

lemma send_request_fields:
  assumes "send_request p Op addr sz data flags C = Some C'"
  shows "mc_rqstQ C' = mc_rqstQ C" "mc_ops C' = mc_ops C" "mc_nops C' = mc_nops C" "mc_AMOTable C' = mc_AMOTable C"
    "mc_completed C' = mc_completed C" "mc_newID C' = mc_newID C" "mc_created C' = Suc (mc_created C)"
    "mc_requests C' = mc_requests C @ [mc_newID C (mc_created C)]"
    "mc_outstanding C' = (mc_newID C (mc_created C), p) # filter (\<lambda>e. fst e \<noteq> mc_newID C (mc_created C)) (mc_outstanding C)"
    "op_Op Op \<noteq> MemOpFENCE" "getTotalRqsts C' = getTotalRqsts C + (if op_Op Op = MemOpFLUSH then 0 else 1)"
    "mc_hasCache C' = mc_hasCache C" "mc_lineSize C' = mc_lineSize C"
  using assms
  by (cases "op_Op Op"; simp add: send_request_def Let_def std_request_def count_request_def recordStat_def getTotalRqsts_def; (elim subst)?; simp)+

lemma send_request_inv:
  assumes inv: "ctrl_inv {p} C" and op: "mc_ops C p = Some Op" and s: "send_request p Op addr sz data flags C = Some C'"
    and u: "unique_ids C'"
  shows "ctrl_inv {p} C'" "getNumSplitRqsts p C' = Suc (getNumSplitRqsts p C)" "owed C' = owed C"
proof -
  note f = send_request_fields [OF s]
  let ?i = "mc_newID C (mc_created C)"
  have fresh: "?i \<notin> fst ` set (mc_outstanding C)"
  proof
    assume "?i \<in> fst ` set (mc_outstanding C)"
    then obtain k where "k < mc_created C" "?i = mc_newID C k" using inv by (auto simp: ctrl_inv_def ids_ok_def)
    moreover have "inj_on (mc_newID C) {..<Suc (mc_created C)}" using u by (simp add: unique_ids_def f)
    ultimately show False using inj_onD [of "mc_newID C" "{..<Suc (mc_created C)}" "mc_created C" k] by simp
  qed
  have "filter (\<lambda>e. fst e \<noteq> ?i) (mc_outstanding C) = mc_outstanding C" using fresh by (auto simp: filter_id_conv image_iff)
  then have out: "mc_outstanding C' = (?i, p) # mc_outstanding C" using f(9) by simp
  have so: "sent_ops C' = insert p (sent_ops C)" by (simp add: sent_ops_def out)
  have gs: "getNumSplitRqsts x C' = (if x = p then Suc (getNumSplitRqsts p C) else getNumSplitRqsts x C)" for x
    by (simp add: getNumSplitRqsts_def out)
  then show "getNumSplitRqsts p C' = Suc (getNumSplitRqsts p C)" by simp
  have q: "queue_ok {p} C" using inv by (simp add: ctrl_inv_def)
  have "?i \<notin> set (mc_requests C)" using q fresh by (auto simp: queue_ok_def)
  then have "queue_ok {p} C'"
    using q fresh unfolding queue_ok_def so gs f(1-8) out by auto
  moreover have "getNumCacheLines a n C' = getNumCacheLines a n C" for a n unfolding getNumCacheLines_def f(12,13) ..
  then have "amo_ok C'" using inv f(2,4) by (simp add: ctrl_inv_def amo_ok_def)
  moreover have "ids_ok C'" using inv by (auto simp: ctrl_inv_def ids_ok_def out f(6,7))
  moreover have "sum_ok C'"
    using inv op by (simp add: ctrl_inv_def sum_ok_def f(11) awaited_def out f(2))
  ultimately show "ctrl_inv {p} C'" by (simp add: ctrl_inv_def)
  show "owed C' = owed C" by (intro owed_same) (simp_all add: owing_def amo_memops_def f(2,4))
qed

lemma unique_ids_mono: "sends p Op n C C' \<Longrightarrow> unique_ids C' \<Longrightarrow> unique_ids C"
proof (induction rule: sends.induct)
  case (more addr sz data flags C C1 n C2)
  then have "unique_ids C1" by blast
  then show ?case using send_request_fields(6,7) [OF more(1)] by (auto simp: unique_ids_def inj_on_def)
qed

lemma sends_inv:
  assumes "sends p Op n C C'" "ctrl_inv {p} C" "mc_ops C p = Some Op" "unique_ids C'"
  shows "ctrl_inv {p} C' \<and> getNumSplitRqsts p C' = n + getNumSplitRqsts p C \<and> owed C' = owed C \<and> mc_ops C' = mc_ops C \<and>
    mc_completed C' = mc_completed C \<and> (0 < n \<longrightarrow> p \<in> sent_ops C')"
  using assms
proof (induction rule: sends.induct)
  case (more addr sz data flags C C1 n C2)
  have u: "unique_ids C1" using unique_ids_mono [OF more(2) more(6)] .
  note f = send_request_fields [OF more(1)]
  note i = send_request_inv [OF more(4,5,1) u]
  have IH: "ctrl_inv {p} C2 \<and> getNumSplitRqsts p C2 = n + getNumSplitRqsts p C1 \<and> owed C2 = owed C1 \<and> mc_ops C2 = mc_ops C1 \<and>
    mc_completed C2 = mc_completed C1" using more i(1) f(2) by simp
  then have "getNumSplitRqsts p C2 \<noteq> 0" using i(2) by simp
  then have "p \<in> sent_ops C2" by (auto simp: getNumSplitRqsts_def sent_ops_def filter_empty_conv)
  then show ?case using IH i f by simp
qed simp

lemma close_inv:
  assumes "ctrl_inv {p} C" "p \<in> sent_ops C" "1 < op_SplitRqst (the (mc_ops C p)) \<or> getNumSplitRqsts p C = 1"
  shows "ctrl_inv {} C"
proof -
  have "queue_ok {p} C" using assms(1) by (simp add: ctrl_inv_def)
  then have "queue_ok {} C" using assms(2,3) unfolding queue_ok_def by auto
  then show ?thesis using assms(1) by (simp add: ctrl_inv_def)
qed

lemma sends_rqstQ:
  "sends p Op n C C' \<Longrightarrow> sends p Op n (C\<lparr>mc_rqstQ := q\<rparr>) (C'\<lparr>mc_rqstQ := q\<rparr>)"
proof (induction rule: sends.induct)
  case (more addr sz data flags C C1 n C2)
  have "send_request p Op addr sz data flags (C\<lparr>mc_rqstQ := q\<rparr>) = Some (C1\<lparr>mc_rqstQ := q\<rparr>)"
    using more(1) by (cases "op_Op Op"; simp add: send_request_def Let_def std_request_def count_request_def recordStat_def; (elim subst)?; simp)
  then show ?case using more(3) sends.more by blast
qed (rule sends.none)

text \<open>One iteration over the queue.\<close>

definition debt :: "RevMemCtrl \<Rightarrow> MemReq multiset" where
  "debt C = mset (mc_completed C) + owed C"

lemma erase_slot_remove1:
  "distinct (mc_rqstQ C) \<Longrightarrow> i < length (mc_rqstQ C) \<Longrightarrow> mc_rqstQ C ! i = p \<Longrightarrow> erase_slot i C = C\<lparr>mc_rqstQ := remove1 p (mc_rqstQ C)\<rparr>"
proof -
  assume d: "distinct (mc_rqstQ C)" "i < length (mc_rqstQ C)" "mc_rqstQ C ! i = p"
  have "remove1 (xs ! j) xs = take j xs @ drop (Suc j) xs" if "distinct xs" "j < length xs" for xs :: "nat list" and j
    using that by (induction xs arbitrary: j) (auto simp: nth_Cons split: nat.splits)
  then show ?thesis using d by (auto simp: erase_slot_def)
qed

lemma delete_queued:
  assumes inv: "ctrl_inv {} C" and p: "p \<in> set (mc_rqstQ C)" "mc_ops C p = Some Op" "op_Op Op = MemOpFENCE"
  shows "ctrl_inv {} (C\<lparr>mc_rqstQ := remove1 p (mc_rqstQ C), mc_ops := (mc_ops C)(p := None)\<rparr>)" (is "ctrl_inv {} ?C")
    and "debt (C\<lparr>mc_rqstQ := remove1 p (mc_rqstQ C), mc_ops := (mc_ops C)(p := None)\<rparr>) = debt C"
proof -
  have s: "sent_ops ?C = sent_ops C" "\<And>x. getNumSplitRqsts x ?C = getNumSplitRqsts x C"
    by (simp_all add: sent_ops_def getNumSplitRqsts_def)
  have q: "queue_ok {} C" "p \<notin> sent_ops C" using inv p(1) by (auto simp: ctrl_inv_def queue_ok_def)
  then have "queue_ok {} ?C" using p unfolding queue_ok_def s by (auto simp: dom_def)
  moreover have a: "p \<notin> amo_memops C" using inv p by (auto simp: ctrl_inv_def amo_ok_def amo_memops_def)
  then have "amo_ok ?C" using inv by (auto simp: ctrl_inv_def amo_ok_def amo_memops_def)
  moreover have "awaited ?C = awaited C" unfolding awaited_def
    by (rule arg_cong [where f = length], rule filter_cong) (use q(2) in \<open>auto simp: sent_ops_def\<close>)
  ultimately show "ctrl_inv {} ?C" using inv by (auto simp: ctrl_inv_def ids_ok_def sum_ok_def getTotalRqsts_def)
  have "owing ?C = owing C" using a p by (auto simp: owing_def amo_memops_def is_load_def)
  moreover have "p \<notin> owing C" using a p by (auto simp: owing_def is_load_def)
  ultimately have "owed ?C = owed C" by (intro owed_same) auto
  then show "debt ?C = debt C" by (simp add: debt_def)
qed

definition ids_le :: "RevMemCtrl \<Rightarrow> RevMemCtrl \<Rightarrow> bool" where
  "ids_le C C' \<longleftrightarrow> mc_newID C' = mc_newID C \<and> mc_created C \<le> mc_created C'"

lemma ids_le_refl [simp]: "ids_le C C" and ids_le_trans: "ids_le C C1 \<Longrightarrow> ids_le C1 C2 \<Longrightarrow> ids_le C C2"
  by (auto simp: ids_le_def)

lemma ids_le_unique: "ids_le C C' \<Longrightarrow> unique_ids C' \<Longrightarrow> unique_ids C"
  by (auto simp: ids_le_def unique_ids_def intro: inj_on_subset)

lemma sends_ids_le: "sends p Op n C C' \<Longrightarrow> ids_le C C'"
  by (induction rule: sends.induct) (auto simp: ids_le_def dest: send_request_fields(6,7))

lemma buildStandardMemRqst_ids_le:
  assumes "buildStandardMemRqst p Op S C = Inr (True, Success, C')"
  shows "ids_le C C'"
proof (cases "mc_hasCache C \<and> isCacheable Op")
  case True
  then have "buildCacheMemRqst p Op S C = Inr (True, Success, C')" using assms by (simp add: buildStandardMemRqst_def)
  then show ?thesis
  proof (cases rule: buildCacheMemRqst_Inr)
    case (sent N Base newBuf C2)
    then show ?thesis
      using send_request_fields(6,7) [OF sent(6)] sends_ids_le [OF cache_lines_sends [OF sent(7)]] by (simp add: ids_le_def)
  qed simp
next
  case False
  then obtain fl where "buildRawMemRqst p Op fl C = (True, C')" using buildStandardMemRqst_raw [OF assms False] by blast
  then show ?thesis using send_request_fields(6,7) [of p Op "op_Addr Op" "ucast (op_Size Op)" "op_membuf Op" fl C C']
    by (auto simp: buildRawMemRqst_def ids_le_def split: option.splits)
qed

lemma rqst_scan_ids_le: "rqst_scan i ps T C = Inr (T', C') \<Longrightarrow> ids_le C C'"
proof (induction ps arbitrary: i T)
  case (Cons p ps)
  then obtain Op avail T1 where s: "(if avail then issue_rqst i p Op T1 C else rqst_scan (Suc i) ps T1 C) = Inr (T', C')"
    by (auto simp: res_bind_eq_Inr)
  show ?case
  proof (cases avail)
    case True
    then have "issue_rqst i p Op T1 C = Inr (T', C')" using s by simp
    then show ?thesis
      by (cases rule: issue_rqst_Inr)
        (auto simp: ids_le_def delete_op_def erase_slot_def dest: buildStandardMemRqst_ids_le [unfolded ids_le_def])
  next
    case False
    then show ?thesis using Cons.IH s by simp
  qed
qed simp

lemma tick_loop_ids_le: "tick_loop T C = Inr C' \<Longrightarrow> ids_le C C'"
proof (induction T C rule: tick_loop.induct)
  case (1 T C)
  then obtain T1 C1 where p: "processNextRqst T C = Inr (T1, C1)" "(if t_ops T1 = mc_max_ops C1 then Inr C1 else tick_loop T1 C1) = Inr C'"
    by (subst (asm) (2) tick_loop.simps) (auto split: sum.splits prod.splits)
  have s: "ids_le C C1" using rqst_scan_ids_le [of 0 "mc_rqstQ C" T C T1 C1] p(1) by (simp add: processNextRqst_def)
  show ?case
  proof (cases "t_ops T1 = mc_max_ops C1")
    case True
    then show ?thesis using s p(2) by simp
  next
    case False
    then have "ids_le C1 C'" using 1(1) [OF p(1) refl] p(2) by simp
    then show ?thesis using s ids_le_trans by blast
  qed
qed

lemma sent_inv:
  assumes inv: "ctrl_inv {} C" and i: "i < length (mc_rqstQ C)" "mc_rqstQ C ! i = p" and op: "mc_ops C p = Some Op"
    and b: "buildStandardMemRqst p Op False C = Inr (True, True, C1)"
    and u: "unique_ids (erase_slot i C1)"
  shows "ctrl_inv {} (erase_slot i C1) \<and> debt (erase_slot i C1) = debt C"
proof -
  let ?C' = "erase_slot i C1"
  obtain N n where s: "sends p (Op\<lparr>op_SplitRqst := N\<rparr>) (Suc n) (C\<lparr>mc_ops := (mc_ops C)(p \<mapsto> Op\<lparr>op_SplitRqst := N\<rparr>)\<rparr>) C1"
    and N: "N \<le> 1 \<Longrightarrow> n = 0" "N = op_SplitRqst Op \<or> N = getNumCacheLines (op_Addr Op) (op_Size Op) C"
    using b op by (rule buildStandardMemRqst_sends) auto
  have q: "distinct (mc_rqstQ C)" "p \<in> set (mc_rqstQ C)" "op_SplitRqst Op = 1"
    using inv i op nth_mem [OF i(1)] by (auto simp: ctrl_inv_def queue_ok_def)
  have "mc_rqstQ C1 = mc_rqstQ C" using sends_Q [OF s] by simp
  then have e: "?C' = C1\<lparr>mc_rqstQ := remove1 p (mc_rqstQ C)\<rparr>" using erase_slot_remove1 [of C1 i p] q(1) i by simp
  have t: "sends p (Op\<lparr>op_SplitRqst := N\<rparr>) (Suc n) (transit p N Op C) ?C'"
    using sends_rqstQ [OF s, of "remove1 p (mc_rqstQ C)"] by (simp add: e transit_def)
  have "p \<in> amo_memops C \<Longrightarrow> N = 1" using N(2) q(3) inv op by (auto simp: ctrl_inv_def amo_ok_def amo_memops_def)
  then have ti: "ctrl_inv {p} (transit p N Op C)" using transit_inv [OF inv q(2) op] by simp
  have r: "ctrl_inv {p} ?C' \<and> getNumSplitRqsts p ?C' = Suc n + getNumSplitRqsts p (transit p N Op C) \<and> owed ?C' = owed (transit p N Op C) \<and>
    mc_ops ?C' = mc_ops (transit p N Op C) \<and> mc_completed ?C' = mc_completed (transit p N Op C) \<and> (0 < Suc n \<longrightarrow> p \<in> sent_ops ?C')"
    by (rule sends_inv [OF t ti _ u]) (simp add: transit_def)
  have "p \<notin> sent_ops C" using inv q(2) by (auto simp: ctrl_inv_def queue_ok_def)
  then have "getNumSplitRqsts p (transit p N Op C) = 0"
    by (auto simp: getNumSplitRqsts_def transit_def sent_ops_def filter_empty_conv)
  then have "1 < op_SplitRqst (the (mc_ops ?C' p)) \<or> getNumSplitRqsts p ?C' = 1"
    using r N(1) by (cases "N \<le> 1") (auto simp: transit_def)
  then have "ctrl_inv {} ?C'" using r by (intro close_inv [of p]) auto
  moreover have "debt ?C' = debt C" using r transit_ops [OF op] by (simp add: debt_def) (simp add: transit_def)
  ultimately show "ctrl_inv {} ?C' \<and> debt ?C' = debt C" ..
qed

lemma full_unchanged:
  assumes "buildStandardMemRqst p Op False C = Inr (True, False, C')" "mc_ops C p = Some Op"
  shows "C' = C"
  using assms by (rule buildStandardMemRqst_sends) simp_all

lemma issue_rqst_inv:
  assumes inv: "ctrl_inv {} C" and i: "i < length (mc_rqstQ C)" "mc_rqstQ C ! i = p" and op: "mc_ops C p = Some Op"
    and s: "issue_rqst i p Op T C = Inr (T', C')" and u: "unique_ids C'"
  shows "ctrl_inv {} C' \<and> debt C' = debt C"
  using s
proof (cases rule: issue_rqst_Inr)
  case fence
  have q: "distinct (mc_rqstQ C)" "p \<in> set (mc_rqstQ C)" using inv i nth_mem [OF i(1)] by (auto simp: ctrl_inv_def queue_ok_def)
  then have "C' = (C\<lparr>mc_rqstQ := remove1 p (mc_rqstQ C), mc_ops := (mc_ops C)(p := None)\<rparr>)\<lparr>mc_num_fence := mc_num_fence C + 1\<rparr>"
    using fence(3) erase_slot_remove1 [of C i p] i by (simp add: delete_op_def)
  then show ?thesis using delete_queued [OF inv q(2) op fence(1)] by (simp add: debt_def)
next
  case full
  then show ?thesis using full_unchanged [OF full(3) op] inv by simp
next
  case (sent C1)
  then show ?thesis using sent_inv [OF inv i op sent(1)] u by simp
qed (simp add: inv)

lemma rqst_scan_inv:
  assumes "rqst_scan i ps T C = Inr (T', C')" "ps = drop i (mc_rqstQ C)" "ctrl_inv {} C" "unique_ids C'"
  shows "ctrl_inv {} C' \<and> debt C' = debt C"
  using assms
proof (induction ps arbitrary: i T)
  case (Cons p ps)
  then obtain Op avail T1 where s: "mc_ops C p = Some Op"
    "(if avail then issue_rqst i p Op T1 C else rqst_scan (Suc i) ps T1 C) = Inr (T', C')"
    using Cons.prems(1) unfolding rqst_scan.simps by (auto simp: res_bind_eq_Inr deref_def split: option.splits)
  have i: "i < length (mc_rqstQ C)" using Cons.prems(2) by (cases "i < length (mc_rqstQ C)") auto
  then have "drop i (mc_rqstQ C) = mc_rqstQ C ! i # drop (Suc i) (mc_rqstQ C)" by (rule Cons_nth_drop_Suc [symmetric])
  then have p: "mc_rqstQ C ! i = p" "ps = drop (Suc i) (mc_rqstQ C)" using Cons.prems(2) by simp_all
  show ?case
  proof (cases avail)
    case True
    then show ?thesis using issue_rqst_inv [OF Cons.prems(3) i p(1) s(1) _ Cons.prems(4)] s(2) by simp
  next
    case False
    then show ?thesis using Cons.IH [OF _ p(2) Cons.prems(3,4)] s(2) by simp
  qed
qed simp

lemma tick_loop_inv:
  assumes "tick_loop T C = Inr C'" "ctrl_inv {} C" "unique_ids C'"
  shows "ctrl_inv {} C' \<and> debt C' = debt C"
  using assms
proof (induction T C rule: tick_loop.induct)
  case (1 T C)
  obtain T1 C1 where p: "processNextRqst T C = Inr (T1, C1)" "(if t_ops T1 = mc_max_ops C1 then Inr C1 else tick_loop T1 C1) = Inr C'"
    using 1(2) by (subst (asm) tick_loop.simps) (auto split: sum.splits prod.splits)
  have "unique_ids C1"
    using p(2) 1(4) ids_le_unique [of C1 C'] tick_loop_ids_le [of T1 C1 C'] by (cases "t_ops T1 = mc_max_ops C1") auto
  then have s: "ctrl_inv {} C1 \<and> debt C1 = debt C"
    using rqst_scan_inv [of 0 "mc_rqstQ C" T C T1 C1] p(1) 1(3) by (simp add: processNextRqst_def)
  show ?case
  proof (cases "t_ops T1 = mc_max_ops C1")
    case True
    then show ?thesis using s p(2) by simp
  next
    case False
    then show ?thesis using 1(1) [OF p(1) refl False] p(2) s 1(4) by simp
  qed
qed

lemma ctrl_clockTick_inv:
  assumes "ctrl_clockTick C = Inr C'" "ctrl_inv {} C" "unique_ids C'"
  shows "ctrl_inv {} C' \<and> debt C' = debt C"
  using assms tick_loop_inv [of Slots_zero C C'] tick_loop_inv [of Slots_zero "C\<lparr>mc_num_fence := mc_num_fence C - 1\<rparr>" C']
  by (auto simp: ctrl_clockTick_def debt_def split: if_splits)

text \<open>
  A request is answered. The operation is deleted if this was its last request; then it must be out of
  the table of atomic operations.
\<close>

definition answered :: "u64 \<Rightarrow> RevMemCtrl \<Rightarrow> RevMemCtrl" where
  "answered i C = C\<lparr>mc_requests := remove1 i (mc_requests C), mc_outstanding := filter (\<lambda>e. fst e \<noteq> i) (mc_outstanding C)\<rparr>"

lemma outstanding_entry:
  assumes "queue_ok X C" "map_of (mc_outstanding C) i = Some p"
  shows "p \<in> sent_ops C" "i \<in> set (mc_requests C)"
    "\<And>Q. length (filter Q (mc_outstanding C)) = (if Q (i, p) then 1 else 0) + length (filter Q (filter (\<lambda>e. fst e \<noteq> i) (mc_outstanding C)))"
proof -
  have d: "distinct (map fst (mc_outstanding C))" "(i, p) \<in> set (mc_outstanding C)"
    using assms by (auto simp: queue_ok_def dest: map_of_SomeD)
  have "snd (i, p) \<in> snd ` set (mc_outstanding C)" "fst (i, p) \<in> fst ` set (mc_outstanding C)" using d(2) by (rule imageI)+
  then show "p \<in> sent_ops C" "i \<in> set (mc_requests C)" using assms(1) by (simp_all add: sent_ops_def queue_ok_def)
  have "length (filter Q xs) = (if Q (i, p) then 1 else 0) + length (filter Q (filter (\<lambda>e. fst e \<noteq> i) xs))"
    if "distinct (map fst xs)" "(i, p) \<in> set xs" for Q xs
    using that
  proof (induction xs)
    case (Cons x xs)
    show ?case
    proof (cases "x = (i, p)")
      case True
      then have "i \<notin> fst ` set xs" using Cons.prems(1) by simp
      then have "filter (\<lambda>e. fst e \<noteq> i) xs = xs" by (auto simp: filter_id_conv image_iff)
      then show ?thesis using True by simp
    next
      case False
      then have "(i, p) \<in> set xs" using Cons.prems(2) by simp
      then have "i \<in> fst ` set xs" using imageI [of "(i, p)" "set xs" fst] by simp
      then have "fst x \<noteq> i" using Cons.prems(1) by auto
      then show ?thesis using Cons False \<open>(i, p) \<in> set xs\<close> by simp
    qed
  qed simp
  then show "\<And>Q. length (filter Q (mc_outstanding C)) = (if Q (i, p) then 1 else 0) + length (filter Q (filter (\<lambda>e. fst e \<noteq> i) (mc_outstanding C)))"
    using d by blast
qed

lemma answered_sent_ops:
  assumes "queue_ok {} C" "map_of (mc_outstanding C) i = Some p"
  shows "getNumSplitRqsts x (answered i C) = (if x = p then getNumSplitRqsts p C - 1 else getNumSplitRqsts x C)"
    and "sent_ops (answered i C) = (if getNumSplitRqsts p C = 1 then sent_ops C - {p} else sent_ops C)"
    and "0 < getNumSplitRqsts p C"
proof -
  have g: "getNumSplitRqsts x C = (if x = p then 1 else 0) + getNumSplitRqsts x (answered i C)" for x
    using outstanding_entry(3) [OF assms, of "\<lambda>e. snd e = x"] by (auto simp: getNumSplitRqsts_def answered_def)
  then show gs: "getNumSplitRqsts x (answered i C) = (if x = p then getNumSplitRqsts p C - 1 else getNumSplitRqsts x C)" for x
    by auto
  show "0 < getNumSplitRqsts p C" using g [of p] by simp
  have m: "x \<in> sent_ops D \<longleftrightarrow> getNumSplitRqsts x D \<noteq> 0" for x D
    by (auto simp: sent_ops_def getNumSplitRqsts_def filter_empty_conv image_iff)
  show "sent_ops (answered i C) = (if getNumSplitRqsts p C = 1 then sent_ops C - {p} else sent_ops C)"
    by (rule set_eqI) (use g [of p] in \<open>auto simp: m gs\<close>)
qed

lemma answered_queue_ok:
  assumes q: "queue_ok {} C" and i: "map_of (mc_outstanding C) i = Some p"
  shows "getNumSplitRqsts p C = 1 \<Longrightarrow> queue_ok {} (delete_op p (answered i C))"
    and "getNumSplitRqsts p C \<noteq> 1 \<Longrightarrow> queue_ok {} (answered i C)"
proof -
  note a = answered_sent_ops [OF q i]
  have d: "sent_ops (delete_op p (answered i C)) = sent_ops (answered i C)"
    "\<And>x. getNumSplitRqsts x (delete_op p (answered i C)) = getNumSplitRqsts x (answered i C)"
    by (simp_all add: sent_ops_def getNumSplitRqsts_def delete_op_def)
  have e: "set (remove1 i (mc_requests C)) = fst ` set (filter (\<lambda>e. fst e \<noteq> i) (mc_outstanding C))"
    "distinct (map fst (filter (\<lambda>e. fst e \<noteq> i) (mc_outstanding C)))"
    using q by (auto simp: queue_ok_def distinct_map_filter)
  have p: "p \<in> sent_ops C" "p \<notin> set (mc_rqstQ C)" using outstanding_entry(1) [OF q i] q by (auto simp: queue_ok_def)
  show "getNumSplitRqsts p C = 1 \<Longrightarrow> queue_ok {} (delete_op p (answered i C))"
    using q p e unfolding queue_ok_def d a by (auto simp: answered_def delete_op_def)
  show "getNumSplitRqsts p C \<noteq> 1 \<Longrightarrow> queue_ok {} (answered i C)"
    using q p e a(3) unfolding queue_ok_def a by (auto simp: answered_def)
qed

text \<open>States that agree in what the invariant speaks of, the counters apart.\<close>

definition same_ctrl :: "RevMemCtrl \<Rightarrow> RevMemCtrl \<Rightarrow> bool" where
  "same_ctrl C D \<longleftrightarrow> mc_requests C = mc_requests D \<and> mc_rqstQ C = mc_rqstQ D \<and> mc_outstanding C = mc_outstanding D \<and>
     mc_AMOTable C = mc_AMOTable D \<and> mc_ops C = mc_ops D \<and> mc_nops C = mc_nops D \<and> mc_newID C = mc_newID D \<and>
     mc_created C = mc_created D \<and> mc_hasCache C = mc_hasCache D \<and> mc_lineSize C = mc_lineSize D"

lemma same_ctrl_inv:
  assumes "same_ctrl C D"
  shows "queue_ok X C = queue_ok X D" "amo_ok C = amo_ok D" "ids_ok C = ids_ok D" "awaited C = awaited D" "owed C = owed D"
proof -
  note s = assms [unfolded same_ctrl_def]
  have l: "getNumCacheLines a n C = getNumCacheLines a n D" for a n unfolding getNumCacheLines_def using s by (simp add: Let_def)
  show "queue_ok X C = queue_ok X D" "ids_ok C = ids_ok D" "awaited C = awaited D" "owed C = owed D"
    using s by (simp_all add: queue_ok_def sent_ops_def getNumSplitRqsts_def ids_ok_def awaited_def owed_defs)
  show "amo_ok C = amo_ok D" using s by (simp add: amo_ok_def l)
qed

definition answer :: "u64 \<Rightarrow> nat \<Rightarrow> RevMemCtrl \<Rightarrow> RevMemCtrl" where
  "answer i p C = (if getNumSplitRqsts p C = 1 then delete_op p (answered i C) else answered i C)"

lemma owed_delete:
  assumes "finite (owing C)" "mc_ops C p = Some Op" "p \<in> owing C" "owing C' = owing C - {p}"
    and "\<And>x. x \<in> owing C' \<Longrightarrow> mc_ops C' x = mc_ops C x"
  shows "owed C = add_mset (op_procReq Op) (owed C')"
  by (rule owed_insert) (use assms in auto)

lemma answer_inv:
  assumes inv: "ctrl_inv {} C" and i: "map_of (mc_outstanding C) i = Some p" and op: "mc_ops C p = Some Op"
    and a: "getNumSplitRqsts p C = 1 \<Longrightarrow> p \<notin> amo_memops C"
  shows "queue_ok {} (answer i p C) \<and> amo_ok (answer i p C) \<and> ids_ok (answer i p C)"
    and "awaited C = (if op_Op Op = MemOpFLUSH then 0 else 1) + awaited (answer i p C)"
    and "owed C = (if getNumSplitRqsts p C = 1 \<and> is_load Op then add_mset (op_procReq Op) (owed (answer i p C)) else owed (answer i p C))"
proof -
  let ?D = "answer i p C"
  have q: "queue_ok {} C" "amo_ok C" "ids_ok C" using inv by (simp_all add: ctrl_inv_def)
  have "queue_ok {} ?D" using answered_queue_ok [OF q(1) i] by (simp add: answer_def)
  moreover have "amo_ok ?D" using q(2) a by (auto simp: answer_def amo_ok_def amo_memops_def delete_op_def answered_def)
  moreover have "ids_ok ?D" using q(3) by (auto simp: answer_def ids_ok_def delete_op_def answered_def)
  ultimately show "queue_ok {} ?D \<and> amo_ok ?D \<and> ids_ok ?D" by simp
  let ?Q = "\<lambda>e. map_option op_Op (mc_ops C (snd e)) \<noteq> Some MemOpFLUSH"
  have "awaited ?D = length (filter ?Q (filter (\<lambda>e. fst e \<noteq> i) (mc_outstanding C)))"
  proof (cases "getNumSplitRqsts p C = 1")
    case True
    then have "p \<notin> sent_ops (answered i C)" using answered_sent_ops(2) [OF q(1) i] by simp
    then have n: "snd e \<noteq> p" if "e \<in> set (filter (\<lambda>e. fst e \<noteq> i) (mc_outstanding C))" for e
      using that by (auto simp: sent_ops_def answered_def image_iff)
    have "filter (\<lambda>e. map_option op_Op (((mc_ops C)(p := None)) (snd e)) \<noteq> Some MemOpFLUSH) (filter (\<lambda>e. fst e \<noteq> i) (mc_outstanding C)) =
        filter ?Q (filter (\<lambda>e. fst e \<noteq> i) (mc_outstanding C))"
      by (rule filter_cong [OF refl]) (use n in simp)
    then show ?thesis using True unfolding awaited_def answer_def by (simp add: delete_op_def answered_def del: filter_filter)
  qed (simp add: awaited_def answer_def answered_def)
  then show "awaited C = (if op_Op Op = MemOpFLUSH then 0 else 1) + awaited ?D"
    using outstanding_entry(3) [OF q(1) i, of ?Q] op by (auto simp: awaited_def)
  show "owed C = (if getNumSplitRqsts p C = 1 \<and> is_load Op then add_mset (op_procReq Op) (owed ?D) else owed ?D)"
  proof (cases "getNumSplitRqsts p C = 1")
    case True
    have o: "owing ?D = owing C - {p}" "\<And>x. x \<in> owing ?D \<Longrightarrow> mc_ops ?D x = mc_ops C x"
      using True by (auto simp: answer_def owing_def delete_op_def answered_def amo_memops_def)
    have p: "p \<in> owing C \<longleftrightarrow> is_load Op" using a [OF True] op by (auto simp: owing_def)
    show ?thesis
    proof (cases "is_load Op")
      case True
      then show ?thesis using owed_delete [OF queue_ok_finite [OF q(1)] op _ o] p \<open>getNumSplitRqsts p C = 1\<close> by simp
    next
      case False
      then have "owing ?D = owing C" using o(1) p by auto
      then show ?thesis using owed_same [of ?D C] o(2) False by auto
    qed
  next
    case False
    then show ?thesis using owed_same [of ?D C] by (simp add: answer_def answered_def owing_def amo_memops_def)
  qed
qed

text \<open>Entries are taken out of the table of atomic operations, and added to it.\<close>

lemma amo_filter_inv:
  assumes "ctrl_inv {} C"
  shows "ctrl_inv {} (C\<lparr>mc_AMOTable := filter Q (mc_AMOTable C)\<rparr>)"
  using assms by (auto simp: ctrl_inv_def queue_ok_def sent_ops_def getNumSplitRqsts_def amo_ok_def ids_ok_def sum_ok_def awaited_def
      getTotalRqsts_def distinct_map_filter)

lemma amo_entry_iff:
  assumes "amo_ok C" "mc_ops C p = Some Op" "e \<in> set (mc_AMOTable C)"
  shows "amo_entry p Op e \<longleftrightarrow> am_memop (snd e) = p"
  using assms by (auto simp: amo_ok_def amo_entry_def)

lemma amo_add_inv:
  assumes inv: "ctrl_inv {} C" and W: "op_SplitRqst W = 1" "op_Op W = MemOpREAD \<or> op_Op W = MemOpWRITE" "op_Addr W = a"
    "getNumCacheLines a (op_Size W) C = 1" "am_memop e = mc_nops C"
  shows "ctrl_inv {} ((push_op W C)\<lparr>mc_AMOTable := mc_AMOTable C @ [(a, e)]\<rparr>)" (is "ctrl_inv {} ?C")
    and "owed ((push_op W C)\<lparr>mc_AMOTable := mc_AMOTable C @ [(a, e)]\<rparr>) = add_mset (op_procReq W) (owed C)"
proof -
  let ?P = "push_op W C" and ?n = "mc_nops C"
  have P: "ctrl_inv {} ?P" using push_inv [OF inv W(1)] .
  have n: "mc_ops C ?n = None" "?n \<notin> amo_memops C"
    using inv fresh_op [of "{}" C] amo_memops_live [of C ?n] by (auto simp: ctrl_inv_def)
  have "amo_ok ?C"
  proof -
    have "amo_ok ?P" using P by (simp add: ctrl_inv_def)
    moreover have "mc_ops ?P ?n = Some W" "mc_AMOTable ?P = mc_AMOTable C" "getNumCacheLines a (op_Size W) ?P = 1"
      using W(4) by (simp_all add: push_op_def)
    ultimately show ?thesis using n(2) W unfolding amo_ok_def by (auto simp: amo_memops_def)
  qed
  then show "ctrl_inv {} ?C" using P by (auto simp: ctrl_inv_def queue_ok_def sent_ops_def getNumSplitRqsts_def ids_ok_def sum_ok_def awaited_def getTotalRqsts_def)
  have "owing ?C = insert ?n (owing C)"
    using n W(5) by (auto simp: owing_def push_op_def amo_memops_def)
  moreover have "?n \<notin> owing C" using n by (simp add: owing_def)
  moreover have "mc_ops ?C ?n = Some W" "\<And>x. x \<in> owing C \<Longrightarrow> mc_ops ?C x = mc_ops C x"
    using n(1) by (auto simp: push_op_def owing_def)
  ultimately show "owed ?C = add_mset (op_procReq W) (owed C)"
    using inv by (intro owed_insert) (auto simp: ctrl_inv_def queue_ok_finite)
qed

lemma take_request_Inr:
  assumes "take_request kind i C = Inr (p, Op, C1)"
  shows "map_of (mc_outstanding C) i = Some p" "mc_ops C p = Some Op" "C1 = C\<lparr>mc_requests := remove1 i (mc_requests C)\<rparr>"
  using assms by (auto simp: take_request_def deref_def split: if_splits option.splits)

lemma same_host: "\<exists>h. C = C\<lparr>mc_host := h\<rparr>"
  by (rule exI [of _ "mc_host C"]) simp

lemma target_write_Inr: "target_write tgt off bs C = Inr C' \<Longrightarrow> \<exists>h. C' = C\<lparr>mc_host := h\<rparr>"
  by (auto simp: target_write_def split: option.splits if_splits intro: same_host)

lemma handleFlagResp_Inr: "handleFlagResp Op C = Inr C' \<Longrightarrow> \<exists>h. C' = C\<lparr>mc_host := h\<rparr>"
  by (auto simp: handleFlagResp_def Let_def split: option.splits if_splits intro: same_host)

lemma performAMO_Inr:
  assumes "performAMO p C = Inr C'" "mc_ops C p = Some Op"
  obtains W e h ts where "op_SplitRqst W = 1" "op_Op W = MemOpWRITE" "op_Addr W = op_Addr Op" "op_Size W = op_Size Op"
    "op_procReq W = op_procReq Op" "am_memop e = mc_nops C"
    "C' = push_op W (C\<lparr>mc_host := h, mc_ApplyAMO := ts, mc_AMOTable := mc_AMOTable C @ [(op_Addr Op, e)]\<rparr>)"
proof -
  obtain a where a: "op_target Op = Some a" using assms by (cases "op_target Op") (auto simp: performAMO_def deref_def)
  obtain H1 ts where x: "C' = push_op (amo_write Op a (mc_host C) H1) (C\<lparr>mc_host := host_write a (op_tempT (amo_write Op a (mc_host C) H1)) H1,
      mc_ApplyAMO := ts, mc_AMOTable := mc_AMOTable C @ [(op_Addr (amo_write Op a (mc_host C) H1),
        \<lparr>am_Hart = op_Hart (amo_write Op a (mc_host C) H1), am_target = op_target (amo_write Op a (mc_host C) H1),
         am_flags = op_flags (amo_write Op a (mc_host C) H1), am_memop = mc_nops C, am_in = True\<rparr>)]\<rparr>)"
    using assms a by (auto simp: performAMO_def deref_def Let_def res_bind_eq_Inr split: if_splits)
  have ad: "op_Addr (amo_write Op a (mc_host C) H1) = op_Addr Op" by (simp add: amo_write_def mk_RevMemOp_def)
  show ?thesis by (rule that [OF _ _ _ _ _ _ x [unfolded ad]]) (simp_all add: amo_write_def mk_RevMemOp_def)
qed

lemma handleAMO_Inr:
  assumes h: "handleAMO p Op C = Inr C'" and op: "mc_ops C p = Some Op" and a: "list_ex (amo_entry p Op) (mc_AMOTable C)"
  obtains W e h ts e0 where "op_SplitRqst W = 1" "op_Op W = MemOpWRITE" "op_Addr W = op_Addr Op" "op_Size W = op_Size Op"
    "op_procReq W = op_procReq Op" "am_memop e = mc_nops C" "e0 \<in> set (mc_AMOTable C)" "am_memop (snd e0) = p"
    "C' = (push_op W (C\<lparr>mc_host := h, mc_ApplyAMO := ts\<rparr>))\<lparr>mc_AMOTable := remove1 e0 (mc_AMOTable C @ [(op_Addr Op, e)])\<rparr>"
proof -
  obtain e0 where e0: "find (amo_entry p Op) (mc_AMOTable C) = Some e0"
    using a by (cases "find (amo_entry p Op) (mc_AMOTable C)") (auto simp: list_ex_iff find_None_iff)
  then have m: "e0 \<in> set (mc_AMOTable C)" "am_memop (snd e0) = p" by (auto simp: find_Some_iff amo_entry_def)
  then obtain C1 where c: "performAMO p C = Inr C1" "C' = C1\<lparr>mc_AMOTable := remove1 e0 (mc_AMOTable C1)\<rparr>"
    using h e0 by (auto simp: handleAMO_def res_bind_eq_Inr)
  obtain W e h ts where w: "op_SplitRqst W = 1" "op_Op W = MemOpWRITE" "op_Addr W = op_Addr Op" "op_Size W = op_Size Op"
    "op_procReq W = op_procReq Op" "am_memop e = mc_nops C"
    "C1 = push_op W (C\<lparr>mc_host := h, mc_ApplyAMO := ts, mc_AMOTable := mc_AMOTable C @ [(op_Addr Op, e)]\<rparr>)"
    by (rule performAMO_Inr [OF c(1) op])
  have "C' = (push_op W (C\<lparr>mc_host := h, mc_ApplyAMO := ts\<rparr>))\<lparr>mc_AMOTable := remove1 e0 (mc_AMOTable C @ [(op_Addr Op, e)])\<rparr>"
    unfolding c(2) w(7) by (rule RevMemCtrl.equality) (simp_all add: push_op_def)
  then show ?thesis using that [OF w(1-6) m] by blast
qed

lemma response_inv:
  assumes inv: "ctrl_inv {} C" and i: "map_of (mc_outstanding C) i = Some p" and op: "mc_ops C p = Some Op"
    and a: "getNumSplitRqsts p C = 1 \<Longrightarrow> p \<notin> amo_memops C"
    and s: "same_ctrl C' (answer i p C)" "getTotalRqsts C' = getTotalRqsts C - (if op_Op Op = MemOpFLUSH then 0 else 1)"
  shows "ctrl_inv {} C'"
    and "owed C = (if getNumSplitRqsts p C = 1 \<and> is_load Op then add_mset (op_procReq Op) (owed C') else owed C')"
proof -
  note r = answer_inv [OF inv i op a]
  have "sum_ok C'" using s r(2) inv same_ctrl_inv(4) [OF s(1)] by (auto simp: sum_ok_def ctrl_inv_def)
  then show "ctrl_inv {} C'" using r(1) same_ctrl_inv [OF s(1)] by (simp add: ctrl_inv_def)
  show "owed C = (if getNumSplitRqsts p C = 1 \<and> is_load Op then add_mset (op_procReq Op) (owed C') else owed C')"
    using r(3) same_ctrl_inv(5) [OF s(1)] by simp
qed

lemma sole_request:
  assumes "ctrl_inv {} C" "map_of (mc_outstanding C) i = Some p" "mc_ops C p = Some Op" "\<not> 1 < op_SplitRqst Op"
  shows "getNumSplitRqsts p C = 1"
  using assms outstanding_entry(1) [of "{}" C i p] by (auto simp: ctrl_inv_def queue_ok_def)

lemma take_request_ok:
  assumes "ctrl_inv {} C" "map_of (mc_outstanding C) i = Some p" "mc_ops C p = Some Op"
  shows "take_request kind i C = Inr (p, Op, C\<lparr>mc_requests := remove1 i (mc_requests C)\<rparr>)"
  using assms outstanding_entry(2) [of "{}" C i p] by (simp add: take_request_def deref_def ctrl_inv_def)

lemma plain_resp_inv:
  assumes inv: "ctrl_inv {} C" and s: "plain_resp kind i C = Inr C'"
    and k: "map_of (mc_outstanding C) i = Some p" "mc_ops C p = Some Op" "op_Op Op = MemOpFLUSH \<or> op_Op Op = MemOpCUSTOM"
  shows "same_ctrl C' (answer i p C)" "getTotalRqsts C' = getTotalRqsts C" "mc_completed C' = mc_completed C" "p \<notin> amo_memops C" "\<not> is_load Op"
proof -
  define C1 where C1: "C1 = C\<lparr>mc_requests := remove1 i (mc_requests C)\<rparr>"
  then have "plain_resp kind i C = Inr (erase_outstanding i (if 1 < op_SplitRqst Op \<and> getNumSplitRqsts p C1 \<noteq> 1 then C1 else delete_op p C1))"
    using take_request_ok [OF inv k(1,2)] by (simp add: plain_resp_def)
  then have C': "C' = erase_outstanding i (if 1 < op_SplitRqst Op \<and> getNumSplitRqsts p C1 \<noteq> 1 then C1 else delete_op p C1)"
    using s by (metis sum.inject(2))
  have "getNumSplitRqsts p C1 = getNumSplitRqsts p C" by (simp add: C1 getNumSplitRqsts_def)
  then show "same_ctrl C' (answer i p C)" "getTotalRqsts C' = getTotalRqsts C" "mc_completed C' = mc_completed C"
    using sole_request [OF inv k(1,2)]
    by (auto simp: C' C1 same_ctrl_def answer_def answered_def erase_outstanding_def delete_op_def getTotalRqsts_def)
  show "p \<notin> amo_memops C" using inv k by (auto simp: ctrl_inv_def amo_ok_def amo_memops_def)
  show "\<not> is_load Op" using k(3) by (auto simp: is_load_def)
qed

lemma handleFlushResp_inv:
  assumes inv: "ctrl_inv {} C" and s: "handleFlushResp i C = Inr C'"
    and k: "map_of (mc_outstanding C) i = Some p" "mc_ops C p = Some Op" "op_Op Op = MemOpFLUSH"
  shows "ctrl_inv {} C' \<and> debt C' = debt C"
proof -
  obtain C1 where c: "plain_resp ''FlushResp'' i C = Inr C1" "C' = C1\<lparr>mc_num_flush := mc_num_flush C1 - 1\<rparr>"
    using s by (auto simp: handleFlushResp_def res_bind_eq_Inr)
  note r = plain_resp_inv [OF inv c(1) k(1,2) disjI1 [OF k(3)]]
  have "ctrl_inv {} C1" "owed C = owed C1" using response_inv [OF inv k(1,2) _ r(1)] r k(3) by auto
  then show ?thesis using r(3) by (simp add: c(2) debt_def)
qed

lemma handleCustomResp_inv:
  assumes inv: "ctrl_inv {} C" and s: "handleCustomResp i C = Inr C'"
    and k: "map_of (mc_outstanding C) i = Some p" "mc_ops C p = Some Op" "op_Op Op = MemOpCUSTOM"
  shows "ctrl_inv {} C' \<and> debt C' = debt C"
proof -
  obtain C1 where c: "plain_resp ''CustomResp'' i C = Inr C1" "C' = C1\<lparr>mc_num_custom := mc_num_custom C1 - 1\<rparr>"
    using s by (auto simp: handleCustomResp_def res_bind_eq_Inr)
  note r = plain_resp_inv [OF inv c(1) k(1,2) disjI2 [OF k(3)]]
  have "same_ctrl C' (answer i p C)" "getTotalRqsts C' = getTotalRqsts C - 1"
    using r(1,2) by (simp_all add: c(2) same_ctrl_def getTotalRqsts_def algebra_simps)
  then have "ctrl_inv {} C'" "owed C = owed C'" using response_inv [OF inv k(1,2), of C'] r k(3) by auto
  then show ?thesis using r(3) by (simp add: c(2) debt_def)
qed

lemma owed_filter:
  assumes q: "queue_ok {} C" "amo_ok C" and k: "mc_ops C p = Some Op" and nl: "\<not> is_load Op"
  shows "owed C = (if p \<in> amo_memops C
    then add_mset (op_procReq Op) (owed (C\<lparr>mc_AMOTable := filter (\<lambda>e. \<not> amo_entry p Op e) (mc_AMOTable C)\<rparr>))
    else owed (C\<lparr>mc_AMOTable := filter (\<lambda>e. \<not> amo_entry p Op e) (mc_AMOTable C)\<rparr>))" (is "_ = (if _ then _ else owed ?C)")
proof -
  have m: "amo_memops ?C = amo_memops C - {p}" using amo_entry_iff [OF q(2) k] by (auto simp: amo_memops_def)
  have "x \<in> owing D \<longleftrightarrow> (\<exists>O'. mc_ops C x = Some O' \<and> (is_load O' \<or> x \<in> amo_memops D))" if "mc_ops D = mc_ops C" for D x
    using that by (simp add: owing_def)
  note o = this [of ?C] this [of C]
  have w: "owing ?C = owing C - {p}"
    by (rule set_eqI) (use o nl k in \<open>auto simp: m\<close>)
  have "p \<in> owing C \<longleftrightarrow> p \<in> amo_memops C" using nl k by (auto simp: owing_def)
  then show ?thesis
    using owed_delete [OF queue_ok_finite [OF q(1)] k _ w] owed_same [of ?C C] w by (cases "p \<in> amo_memops C") auto
qed

lemma handleWriteResp_inv:
  assumes inv: "ctrl_inv {} C" and s: "handleWriteResp i C = Inr C'"
    and k: "map_of (mc_outstanding C) i = Some p" "mc_ops C p = Some Op" "has_data (op_Op Op)"
  shows "ctrl_inv {} C' \<and> debt C' = debt C"
proof -
  let ?isAMO = "p \<in> amo_memops C" and ?C = "C\<lparr>mc_AMOTable := filter (\<lambda>e. \<not> amo_entry p Op e) (mc_AMOTable C)\<rparr>"
  have q: "queue_ok {} C" "amo_ok C" using inv by (simp_all add: ctrl_inv_def)
  have e: "list_ex (amo_entry p Op) (mc_AMOTable C) = ?isAMO" using amo_entry_iff [OF q(2) k(2)] by (auto simp: list_ex_iff amo_memops_def)
  have nl: "\<not> is_load Op" "op_Op Op \<noteq> MemOpFLUSH" using k(3) by (auto simp: is_load_def has_data_def)
  have one: "getNumSplitRqsts p C = 1" if ?isAMO
    using that sole_request [OF inv k(1,2)] q(2) k(2) by (auto simp: amo_ok_def amo_memops_def)
  have n: "getNumSplitRqsts p ?C = getNumSplitRqsts p C" by (simp add: getNumSplitRqsts_def)
  define C2 where C2: "C2 = C\<lparr>mc_requests := remove1 i (mc_requests C), mc_AMOTable := filter (\<lambda>e. \<not> amo_entry p Op e) (mc_AMOTable C)\<rparr>"
  define C3 where C3: "C3 = (if 1 < op_SplitRqst Op \<and> getNumSplitRqsts p C2 \<noteq> 1 then C2
    else delete_op p (if ?isAMO then mark_complete Op C2 else C2))"
  have "handleWriteResp i C = Inr ((erase_outstanding i C3)\<lparr>mc_num_write := mc_num_write C3 - 1\<rparr>)"
    unfolding handleWriteResp_def take_request_ok [OF inv k(1,2)] C3 C2 by (simp add: Let_def e)
  then have C': "C' = (erase_outstanding i C3)\<lparr>mc_num_write := mc_num_write C3 - 1\<rparr>"
    using s by (metis sum.inject(2))
  have "getNumSplitRqsts p C2 = getNumSplitRqsts p C" by (simp add: C2 getNumSplitRqsts_def)
  then have c: "C3 = (if getNumSplitRqsts p C = 1 then delete_op p (if ?isAMO then mark_complete Op C2 else C2) else C2)"
    using sole_request [OF inv k(1,2)] by (auto simp: C3)
  have sr: "same_ctrl C' (answer i p ?C)" "getTotalRqsts C' = getTotalRqsts ?C - 1"
  proof -
    have f: "mc_num_write C3 = mc_num_write C" "getTotalRqsts C3 = getTotalRqsts C"
      by (simp_all add: c C2 delete_op_def mark_complete_def getTotalRqsts_def)
    show "same_ctrl C' (answer i p ?C)"
      unfolding answer_def n by (auto simp: C' c C2 same_ctrl_def answered_def erase_outstanding_def delete_op_def mark_complete_def)
    show "getTotalRqsts C' = getTotalRqsts ?C - 1"
      using f by (simp add: C' erase_outstanding_def getTotalRqsts_def algebra_simps)
  qed
  have cm: "mc_completed C' = mc_completed C @ (if ?isAMO then [op_procReq Op] else [])"
    using one by (simp add: C' c C2 erase_outstanding_def delete_op_def mark_complete_def)
  have p: "p \<notin> amo_memops ?C" using amo_entry_iff [OF q(2) k(2)] by (auto simp: amo_memops_def)
  note o = owed_filter [OF q k(2) nl(1)]
  have r: "ctrl_inv {} C'" "owed ?C = owed C'"
    using response_inv [OF amo_filter_inv [OF inv, of "\<lambda>e. \<not> amo_entry p Op e"], of i p Op C'] k p sr nl by auto
  then show ?thesis using o cm by (auto simp: debt_def)
qed

lemma remove1_filter:
  assumes "distinct (map f xs)" "x \<in> set xs"
  shows "remove1 x xs = filter (\<lambda>y. f y \<noteq> f x) xs"
  using assms
proof (induction xs)
  case (Cons y ys)
  show ?case
  proof (cases "y = x")
    case True
    then show ?thesis using Cons.prems(1) by (auto simp: image_iff intro!: filter_True [symmetric])
  next
    case False
    then show ?thesis using Cons by auto
  qed
qed simp

text \<open>The read of an atomic operation is answered: a write takes its place.\<close>

lemma amo_step_inv:
  assumes inv: "ctrl_inv {} C" and k: "map_of (mc_outstanding C) i = Some p" "mc_ops C p = Some Op" "op_Op Op = MemOpREAD"
    and p: "p \<in> amo_memops C" and W: "op_SplitRqst W = 1" "op_Op W = MemOpWRITE" "op_Addr W = op_Addr Op" "op_Size W = op_Size Op"
    "op_procReq W = op_procReq Op" "am_memop e = mc_nops C" "e0 \<in> set (mc_AMOTable C)" "am_memop (snd e0) = p"
    and s: "same_ctrl C' (delete_op p (answered i ((push_op W C)\<lparr>mc_AMOTable := remove1 e0 (mc_AMOTable C @ [(op_Addr Op, e)])\<rparr>)))"
      "getTotalRqsts C' = getTotalRqsts C - 1"
  shows "ctrl_inv {} C'" "owed C' = owed C"
proof -
  define D where "D = (push_op W C)\<lparr>mc_AMOTable := mc_AMOTable C @ [(op_Addr Op, e)]\<rparr>"
  define F where "F = D\<lparr>mc_AMOTable := filter (\<lambda>x. am_memop (snd x) \<noteq> p) (mc_AMOTable D)\<rparr>"
  have q: "queue_ok {} C" "amo_ok C" using inv by (simp_all add: ctrl_inv_def)
  have a: "getNumCacheLines (op_Addr Op) (op_Size Op) C = 1" "op_SplitRqst Op = 1"
    using q(2) p k(2) by (auto simp: amo_ok_def amo_memops_def)
  have D: "ctrl_inv {} D" "owed D = add_mset (op_procReq Op) (owed C)"
    using amo_add_inv [OF inv W(1) disjI2 [OF W(2)] W(3) _ W(6)] a(1) W(4,5) by (simp_all add: D_def)
  have F: "ctrl_inv {} F" unfolding F_def by (rule amo_filter_inv [OF D(1)])
  have "p \<noteq> mc_nops C" using fresh_op [OF q(1)] k(2) by auto
  then have f: "map_of (mc_outstanding F) i = Some p" "mc_ops F p = Some Op" "p \<notin> amo_memops F" "getNumSplitRqsts p F = 1"
    "getTotalRqsts F = getTotalRqsts C" "mc_ops F = mc_ops D"
    using k sole_request [OF inv k(1,2)] a(2)
    by (simp_all add: F_def D_def push_op_def amo_memops_def getNumSplitRqsts_def getTotalRqsts_def image_iff)
  have l: "is_load Op" using k(3) by (simp add: is_load_def)
  have "owing F = owing D" using l f(2,6) by (auto simp: owing_def F_def amo_memops_def)
  then have o: "owed F = owed D" by (rule owed_same) (simp add: f(6))
  have "amo_ok D" using D(1) by (simp add: ctrl_inv_def)
  then have "distinct (map (\<lambda>x. am_memop (snd x)) (mc_AMOTable D))" by (simp add: amo_ok_def)
  then have "remove1 e0 (mc_AMOTable D) = filter (\<lambda>x. am_memop (snd x) \<noteq> am_memop (snd e0)) (mc_AMOTable D)"
    by (rule remove1_filter) (simp add: D_def W(7))
  then have "F = (push_op W C)\<lparr>mc_AMOTable := remove1 e0 (mc_AMOTable C @ [(op_Addr Op, e)])\<rparr>"
    using W(8) by (simp add: F_def) (simp add: D_def)
  then have "same_ctrl C' (answer i p F)" "getTotalRqsts C' = getTotalRqsts F - (if op_Op Op = MemOpFLUSH then 0 else 1)"
    using s k(3) f(4,5) by (simp_all add: answer_def)
  note r = response_inv [OF F f(1,2) f(3) this]
  show "ctrl_inv {} C'" by (rule r(1))
  show "owed C' = owed C" using r(2) f(4) l o D(2) by simp
qed

lemma handleReadResp_Inr:
  assumes inv: "ctrl_inv {} C" and s: "handleReadResp i pAddr sz data C = Inr C'"
    and k: "map_of (mc_outstanding C) i = Some p" "mc_ops C p = Some Op"
  obtains (part) h where "getNumSplitRqsts p C \<noteq> 1"
      "C' = (erase_outstanding i (C\<lparr>mc_requests := remove1 i (mc_requests C), mc_host := h\<rparr>))\<lparr>mc_num_read := mc_num_read C - 1\<rparr>"
  | (load) h where "getNumSplitRqsts p C = 1" "p \<notin> amo_memops C"
      "C' = (erase_outstanding i (delete_op p (mark_complete Op (C\<lparr>mc_requests := remove1 i (mc_requests C), mc_host := h\<rparr>))))
         \<lparr>mc_num_read := mc_num_read C - 1\<rparr>"
  | (amo) h C4 where "getNumSplitRqsts p C = 1" "p \<in> amo_memops C"
      "handleAMO p Op (C\<lparr>mc_requests := remove1 i (mc_requests C), mc_host := h\<rparr>) = Inr C4"
      "C' = (erase_outstanding i (delete_op p C4))\<lparr>mc_num_read := mc_num_read (delete_op p C4) - 1\<rparr>"
proof -
  define C1 where "C1 = C\<lparr>mc_requests := remove1 i (mc_requests C)\<rparr>"
  have "amo_ok C" using inv by (simp add: ctrl_inv_def)
  then have e: "list_ex (amo_entry p Op) (mc_AMOTable C1) = (p \<in> amo_memops C)"
    using amo_entry_iff [OF _ k(2)] by (auto simp: C1_def list_ex_iff amo_memops_def)
  obtain n off C2 C3 where w: "target_write (op_target Op) off (take n data) C1 = Inr C2"
    and f: "(if 1 < op_SplitRqst Op \<and> getNumSplitRqsts p C2 \<noteq> 1 then Inr C2 else finish_read p Op (p \<in> amo_memops C) C2) = Inr C3"
    and C': "C' = (erase_outstanding i C3)\<lparr>mc_num_read := mc_num_read C3 - 1\<rparr>"
    using s unfolding handleReadResp_def take_request_ok [OF inv k] C1_def [symmetric] Let_def
    by (auto simp: res_bind_eq_Inr e split: if_splits)
  obtain h where C2: "C2 = C1\<lparr>mc_host := h\<rparr>" using target_write_Inr [OF w] by blast
  have g: "getNumSplitRqsts p C2 = getNumSplitRqsts p C" by (simp add: C2 C1_def getNumSplitRqsts_def)
  show ?thesis
  proof (cases "getNumSplitRqsts p C = 1")
    case True
    then obtain D where D: "handleFlagResp Op C2 = Inr D"
      "(if p \<in> amo_memops C then handleAMO p Op D else Inr (mark_complete Op D)) = Inr C4 \<Longrightarrow> C3 = delete_op p C4"
      "\<exists>C4. (if p \<in> amo_memops C then handleAMO p Op D else Inr (mark_complete Op D)) = Inr C4" for C4
      using f g by (auto simp: finish_read_def res_bind_eq_Inr)
    obtain h' where "D = C1\<lparr>mc_host := h'\<rparr>" using handleFlagResp_Inr [OF D(1)] C2 by auto
    then show ?thesis using D(2,3) True C' load [of h'] amo [of h'] unfolding C1_def
      by (cases "p \<in> amo_memops C") (auto simp: mark_complete_def delete_op_def)
  next
    case False
    then have "C3 = C2" using f g sole_request [OF inv k] by (auto split: if_splits)
    then show ?thesis using C' part [OF False, of h] unfolding C2 C1_def by simp
  qed
qed

lemma handleReadResp_inv:
  assumes inv: "ctrl_inv {} C" and s: "handleReadResp i pAddr sz data C = Inr C'"
    and k: "map_of (mc_outstanding C) i = Some p" "mc_ops C p = Some Op" "is_load Op"
  shows "ctrl_inv {} C' \<and> debt C' = debt C"
  using inv s k(1,2)
proof (cases rule: handleReadResp_Inr)
  case (part h)
  have "same_ctrl C' (answer i p C)" "getTotalRqsts C' = getTotalRqsts C - (if op_Op Op = MemOpFLUSH then 0 else 1)"
    using part k(3) by (auto simp: same_ctrl_def answer_def answered_def erase_outstanding_def getTotalRqsts_def is_load_def)
  then have "ctrl_inv {} C'" "owed C = owed C'" using response_inv [OF inv k(1,2), of C'] part(1) by auto
  then show ?thesis by (simp add: debt_def part(2) erase_outstanding_def)
next
  case (load h)
  have "same_ctrl C' (answer i p C)" "getTotalRqsts C' = getTotalRqsts C - (if op_Op Op = MemOpFLUSH then 0 else 1)"
    using load k(3)
    by (auto simp: same_ctrl_def answer_def answered_def erase_outstanding_def delete_op_def mark_complete_def getTotalRqsts_def is_load_def)
  then have "ctrl_inv {} C'" "owed C = add_mset (op_procReq Op) (owed C')"
    using response_inv [OF inv k(1,2), of C'] load(1,2) k(3) by auto
  moreover have "mc_completed C' = mc_completed C @ [op_procReq Op]"
    by (simp add: load(3) erase_outstanding_def delete_op_def mark_complete_def)
  ultimately show ?thesis by (simp add: debt_def)
next
  case (amo h C4)
  let ?D = "C\<lparr>mc_requests := remove1 i (mc_requests C), mc_host := h\<rparr>"
  have a: "amo_ok C" using inv by (simp add: ctrl_inv_def)
  then have "list_ex (amo_entry p Op) (mc_AMOTable ?D)"
    using amo(2) amo_entry_iff [OF a k(2)] by (auto simp: list_ex_iff amo_memops_def)
  then obtain W e h' ts e0 where w: "op_SplitRqst W = 1" "op_Op W = MemOpWRITE" "op_Addr W = op_Addr Op" "op_Size W = op_Size Op"
    "op_procReq W = op_procReq Op" "am_memop e = mc_nops C" "e0 \<in> set (mc_AMOTable C)" "am_memop (snd e0) = p"
    and C4: "C4 = (push_op W (?D\<lparr>mc_host := h', mc_ApplyAMO := ts\<rparr>))\<lparr>mc_AMOTable := remove1 e0 (mc_AMOTable C @ [(op_Addr Op, e)])\<rparr>"
    using k(2) by (rule_tac handleAMO_Inr [OF amo(3)]) auto
  have r: "op_Op Op = MemOpREAD" using a amo(2) k by (auto simp: amo_ok_def amo_memops_def is_load_def)
  have "same_ctrl C' (delete_op p (answered i ((push_op W C)\<lparr>mc_AMOTable := remove1 e0 (mc_AMOTable C @ [(op_Addr Op, e)])\<rparr>)))"
    "getTotalRqsts C' = getTotalRqsts C - 1" "mc_completed C' = mc_completed C"
    by (simp_all add: amo(4) C4 same_ctrl_def answered_def erase_outstanding_def delete_op_def push_op_def getTotalRqsts_def)
  then show ?thesis using amo_step_inv [OF inv k(1,2) r amo(2) w, of C'] by (simp add: debt_def)
qed

end
