(* ===== verification/Rev_MemCtrlRun.thy ===== *)
theory Rev_MemCtrlRun
  imports Rev_MemCtrlInv
begin

unbundle bit_operations_syntax

text \<open>
  Runs of the memory controller of \<^verbatim>\<open>src/RevMemCtrl.cc\<close>: the events that drive it as a step relation, the
  states it reaches, and what holds in all of them: every load is completed exactly once, a fence waits
  for the requests before it, an atomic operation is a read and a write of the modified value. Two
  behaviours the code does not mean to have are shown as well: the limit on locked reads is never
  released, and two atomic operations on a word can overlap.
\<close>

section \<open>Steps of the controller\<close>

text \<open>
  The events of the controller: the processor hands it an operation, the clock ticks, or the memory
  interface answers a request, a read with a \<^verbatim>\<open>ReadResp\<close> and so on, as \<^verbatim>\<open>StandardMem\<close> documents. The
  multiset holds the load that the event takes on. The identifiers of requests are distinct; an atomic
  operation does not cross a cache line.
\<close>

inductive ctrl_step :: "MemReq multiset \<Rightarrow> RevMemCtrl \<Rightarrow> RevMemCtrl \<Rightarrow> bool" where
  send_flush: "ctrl_step {#} C (sendFLUSHRequest Hart Addr PAddr Size Inv flags C)"
| send_read: "Size \<noteq> 0 \<Longrightarrow> ctrl_step {#req#} C (sendREADRequest Hart Addr PAddr Size tgt req flags C)"
| send_readlock: "Size \<noteq> 0 \<Longrightarrow> ctrl_step {#req#} C (sendREADLOCKRequest Hart Addr PAddr Size tgt req flags C)"
| send_loadlink: "Size \<noteq> 0 \<Longrightarrow> ctrl_step {#MemReq_default#} C (sendLOADLINKRequest Hart Addr PAddr Size flags C)"
| send_write: "sendWRITERequest Hart Addr PAddr Size buffer flags C = Inr C' \<Longrightarrow> ctrl_step {#} C C'"
| send_writelock: "sendWRITELOCKRequest Hart Addr PAddr Size buffer flags C = Inr C' \<Longrightarrow> ctrl_step {#} C C'"
| send_storecond: "sendSTORECONDRequest Hart Addr PAddr Size buffer flags C = Inr C' \<Longrightarrow> ctrl_step {#} C C'"
| send_amo: "sendAMORequest Hart Addr PAddr Size buffer tgt req flags C = Inr C' \<Longrightarrow> Size \<noteq> 0 \<Longrightarrow> RevFlagHas flags F_ATOMIC \<Longrightarrow>
    getNumCacheLines Addr Size C = 1 \<Longrightarrow> ctrl_step {#req#} C C'"
| send_customread: "ctrl_step {#} C (sendCUSTOMREADRequest Hart Addr PAddr Size tgt Opc flags C)"
| send_customwrite: "sendCUSTOMWRITERequest Hart Addr PAddr Size buffer Opc flags C = Inr C' \<Longrightarrow> ctrl_step {#} C C'"
| send_fence: "ctrl_step {#} C (sendFENCE Hart C)"
| tick: "ctrl_clockTick C = Inr C' \<Longrightarrow> unique_ids C' \<Longrightarrow> ctrl_step {#} C C'"
| read_resp: "handleReadResp i pAddr sz data C = Inr C' \<Longrightarrow> map_of (mc_outstanding C) i = Some p \<Longrightarrow> mc_ops C p = Some Op \<Longrightarrow>
    is_load Op \<Longrightarrow> ctrl_step {#} C C'"
| write_resp: "handleWriteResp i C = Inr C' \<Longrightarrow> map_of (mc_outstanding C) i = Some p \<Longrightarrow> mc_ops C p = Some Op \<Longrightarrow>
    has_data (op_Op Op) \<Longrightarrow> ctrl_step {#} C C'"
| flush_resp: "handleFlushResp i C = Inr C' \<Longrightarrow> map_of (mc_outstanding C) i = Some p \<Longrightarrow> mc_ops C p = Some Op \<Longrightarrow>
    op_Op Op = MemOpFLUSH \<Longrightarrow> ctrl_step {#} C C'"
| custom_resp: "handleCustomResp i C = Inr C' \<Longrightarrow> map_of (mc_outstanding C) i = Some p \<Longrightarrow> mc_ops C p = Some Op \<Longrightarrow>
    op_Op Op = MemOpCUSTOM \<Longrightarrow> ctrl_step {#} C C'"

inductive ctrl_reach :: "MemReq multiset \<Rightarrow> RevMemCtrl \<Rightarrow> bool" where
  start: "ctrl_reach {#} (ctrl_init line (mk_RevMemCtrl newID loads stores flsh llsc readlock writeunlock custom ops host))"
| step: "ctrl_reach A C \<Longrightarrow> ctrl_step B C C' \<Longrightarrow> ctrl_reach (A + B) C'"

lemma start_inv:
  "ctrl_inv {} (ctrl_init line (mk_RevMemCtrl newID loads stores flsh llsc readlock writeunlock custom ops host)) \<and>
   debt (ctrl_init line (mk_RevMemCtrl newID loads stores flsh llsc readlock writeunlock custom ops host)) = {#}"
  by (simp add: ctrl_init_def mk_RevMemCtrl_def ctrl_defs debt_def owed_defs)

lemma push_debt:
  assumes "ctrl_inv {} C" "op_SplitRqst Op = 1"
  shows "ctrl_inv {} (push_op Op C) \<and> debt (push_op Op C) = debt C + (if is_load Op then {#op_procReq Op#} else {#})"
  using push_inv [OF assms] push_owed [OF assms(1), of Op] by (simp add: debt_def) (simp add: push_op_def)

lemma debt_recordStat [simp]: "debt (recordStat s d C) = debt C"
  by (simp add: debt_def)

lemma sendAMORequest_inv:
  assumes inv: "ctrl_inv {} C" and s: "sendAMORequest Hart Addr PAddr Size buffer tgt req flags C = Inr C'" "Size \<noteq> 0"
    "RevFlagHas flags F_ATOMIC" "getNumCacheLines Addr Size C = 1"
  shows "ctrl_inv {} C' \<and> debt C' = debt C + {#req#}"
proof -
  obtain bs where bs: "copy_buffer Size buffer = Inr bs" using s by (auto simp: sendAMORequest_def res_bind_eq_Inr)
  let ?W = "(mk_RevMemOp Hart Addr PAddr Size bs tgt 0 MemOpREAD flags)\<lparr>op_procReq := req\<rparr>"
  let ?e = "\<lparr>am_Hart = Hart, am_target = tgt, am_flags = flags, am_memop = mc_nops C, am_in = False\<rparr>"
  let ?C = "(push_op ?W C)\<lparr>mc_AMOTable := mc_AMOTable C @ [(Addr, ?e)]\<rparr>"
  have "ctrl_inv {} ?C \<and> owed ?C = add_mset req (owed C)"
    using amo_add_inv [OF inv, of ?W Addr ?e] s(4) by (simp add: mk_RevMemOp_def)
  moreover have "mc_completed ?C = mc_completed C" by (simp add: push_op_def)
  moreover have "C' = ?C \<or> (\<exists>stat. C' = recordStat stat 1 ?C)"
    using s(1-3) bs by (auto simp: sendAMORequest_def Let_def split: option.splits)
  ultimately show ?thesis by (auto simp: debt_def)
qed

lemma ctrl_step_inv:
  assumes "ctrl_step B C C'" "ctrl_inv {} C"
  shows "ctrl_inv {} C' \<and> debt C' = debt C + B"
  using assms
proof (cases rule: ctrl_step.cases)
  case (send_amo Hart Addr PAddr Size buffer tgt req flags)
  then show ?thesis using sendAMORequest_inv [OF assms(2)] by simp
next
  case tick
  then show ?thesis using ctrl_clockTick_inv [OF _ assms(2)] by simp
next
  case (read_resp i pAddr sz data p Op)
  then show ?thesis using handleReadResp_inv [OF assms(2)] by simp
next
  case (write_resp i p Op)
  then show ?thesis using handleWriteResp_inv [OF assms(2)] by simp
next
  case (flush_resp i p Op)
  then show ?thesis using handleFlushResp_inv [OF assms(2)] by simp
next
  case (custom_resp i p Op)
  then show ?thesis using handleCustomResp_inv [OF assms(2)] by simp
qed (use assms(2) in \<open>auto simp: sendFLUSHRequest_def sendREADRequest_def sendREADLOCKRequest_def sendLOADLINKRequest_def
    sendWRITERequest_def sendWRITELOCKRequest_def sendSTORECONDRequest_def sendCUSTOMREADRequest_def sendCUSTOMWRITERequest_def
    sendFENCE_def res_bind_eq_Inr mk_RevMemOp_def is_load_def push_debt split: if_splits\<close>)

lemma ctrl_reach_inv: "ctrl_reach A C \<Longrightarrow> ctrl_inv {} C \<and> debt C = A"
  by (induction rule: ctrl_reach.induct) (use start_inv ctrl_step_inv in auto)

lemma idle_owes_nothing:
  assumes "ctrl_inv {} C" "mc_rqstQ C = []" "mc_requests C = []"
  shows "owed C = {#}"
proof -
  have "mc_outstanding C = []" using assms by (auto simp: ctrl_inv_def queue_ok_def)
  then have "dom (mc_ops C) = {}" using assms by (simp add: ctrl_inv_def queue_ok_def sent_ops_def)
  then have "owing C = {}" by (auto simp: owing_def)
  then show ?thesis by (simp add: owed_def)
qed

section \<open>Every load is completed once\<close>

text \<open>
  C6: However the processor's requests, the clock ticks and the responses of the memory interleave, no
  load is completed that was not requested, none more than once, and when the queue is empty and no
  request is outstanding every load, atomic operations included, has been completed exactly once.
\<close>

theorem loads_complete_once:
  assumes "ctrl_reach A C"
  shows "mset (mc_completed C) \<subseteq># A \<and> (mc_rqstQ C = [] \<and> \<not> outstandingRqsts C \<longrightarrow> mset (mc_completed C) = A)"
  using ctrl_reach_inv [OF assms] idle_owes_nothing [of C] by (auto simp: debt_def outstandingRqsts_def)

text \<open>A controller with lines of 64 bytes and room for one locked read; a read that crosses a line.\<close>

definition ex_ctrl :: RevMemCtrl where
  "ex_ctrl = ctrl_init 64 (mk_RevMemCtrl of_nat 8 8 8 8 1 8 8 2 (\<lambda>_. 0))"

definition ex_read :: RevMemCtrl where
  "ex_read = sendREADRequest 0 0x13E 0 4 (Some 0) MemReq_default 0 ex_ctrl"
definition ex_sent :: RevMemCtrl where "ex_sent = projr (ctrl_clockTick ex_read)"
definition ex_half :: RevMemCtrl where "ex_half = projr (handleReadResp 1 0x140 2 [3, 4] ex_sent)"
definition ex_done :: RevMemCtrl where "ex_done = projr (handleReadResp 0 0x13E 2 [1, 2] ex_half)"

lemma ex_ctrl_reach: "ctrl_reach {#} ex_ctrl"
  unfolding ex_ctrl_def by (rule ctrl_reach.start)

lemma tick_step:
  assumes "\<not> isl (ctrl_clockTick C)" and d: "distinct (map (mc_newID (projr (ctrl_clockTick C))) [0..<mc_created (projr (ctrl_clockTick C))])"
  shows "ctrl_step {#} C (projr (ctrl_clockTick C))"
proof -
  let ?D = "projr (ctrl_clockTick C)"
  have t: "ctrl_clockTick C = Inr ?D" using assms(1) by (metis sum.collapse(2))
  have "unique_ids ?D" using d unfolding distinct_map by (simp add: unique_ids_def atLeast0LessThan)
  then show ?thesis by (rule ctrl_step.tick [OF t])
qed

lemma read_resp_step:
  assumes "\<not> isl (handleReadResp i a sz data C)" "map_of (mc_outstanding C) i = Some p" "map_option is_load (mc_ops C p) = Some True"
  shows "ctrl_step {#} C (projr (handleReadResp i a sz data C))"
proof -
  obtain Op where "mc_ops C p = Some Op" "is_load Op" using assms(3) by auto
  then show ?thesis using ctrl_step.read_resp [of i a sz data C _ p Op] assms(1,2) by (metis sum.collapse(2))
qed

lemma reach_step: "ctrl_reach A C \<Longrightarrow> ctrl_step {#} C C' \<Longrightarrow> ctrl_reach A C'"
  using ctrl_reach.step [of A C "{#}" C'] by simp

lemma ex_sent_reach: "ctrl_reach {#MemReq_default#} ex_sent"
proof -
  have "ctrl_step {#MemReq_default#} ex_ctrl ex_read" unfolding ex_read_def by (rule ctrl_step.send_read) simp
  then have "ctrl_reach {#MemReq_default#} ex_read" using ctrl_reach.step [OF ex_ctrl_reach] by simp
  moreover have "ctrl_step {#} ex_read ex_sent" unfolding ex_sent_def by (rule tick_step; code_simp)
  ultimately show ?thesis by (rule reach_step)
qed

lemma ex_done_reach: "ctrl_reach {#MemReq_default#} ex_done"
proof -
  have "ctrl_step {#} ex_sent ex_half" unfolding ex_half_def by (rule read_resp_step [of _ _ _ _ _ 0]; code_simp)
  moreover have "ctrl_step {#} ex_half ex_done" unfolding ex_done_def by (rule read_resp_step [of _ _ _ _ _ 0]; code_simp)
  ultimately show ?thesis using ex_sent_reach reach_step by blast
qed

theorem loads_complete_once_witness:
  "mc_rqstQ ex_done = [] \<and> \<not> outstandingRqsts ex_done \<and> mset (mc_completed ex_done) = {#MemReq_default#}"
proof -
  have "mc_rqstQ ex_done = []" "\<not> outstandingRqsts ex_done" by code_simp+
  then show ?thesis using loads_complete_once [OF ex_done_reach] by simp
qed

section \<open>Fences\<close>

lemma awaited_bound:
  assumes "ctrl_inv {} C"
  shows "awaited C \<le> length (mc_requests C)"
proof -
  have q: "distinct (mc_requests C)" "distinct (map fst (mc_outstanding C))" "set (mc_requests C) = set (map fst (mc_outstanding C))"
    using assms by (simp_all add: ctrl_inv_def queue_ok_def)
  have "length (mc_requests C) = length (mc_outstanding C)"
    using distinct_card [OF q(1)] distinct_card [OF q(2)] q(3) by simp
  then show ?thesis by (simp add: awaited_def)
qed

lemma awaited_iff:
  assumes "queue_ok {} C"
  shows "awaited C \<noteq> 0 \<longleftrightarrow>
    (\<exists>i\<in>set (mc_requests C). \<exists>p Op. map_of (mc_outstanding C) i = Some p \<and> mc_ops C p = Some Op \<and> op_Op Op \<noteq> MemOpFLUSH)"
    (is "_ \<longleftrightarrow> ?P")
proof -
  have d: "distinct (map fst (mc_outstanding C))" "set (mc_requests C) = fst ` set (mc_outstanding C)" "sent_ops C \<subseteq> dom (mc_ops C)"
    using assms by (auto simp: queue_ok_def)
  have m: "map_of (mc_outstanding C) i = Some p \<longleftrightarrow> (i, p) \<in> set (mc_outstanding C)" for i p using d(1) by (rule map_of_eq_Some_iff)
  show ?thesis
  proof
    assume "awaited C \<noteq> 0"
    then obtain e where e: "e \<in> set (mc_outstanding C)" "map_option op_Op (mc_ops C (snd e)) \<noteq> Some MemOpFLUSH"
      by (auto simp: awaited_def filter_empty_conv)
    have "snd e \<in> sent_ops C" using e(1) by (simp add: sent_ops_def)
    then obtain Op where "mc_ops C (snd e) = Some Op" using d(3) by auto
    moreover have "map_of (mc_outstanding C) (fst e) = Some (snd e)" using e(1) m by simp
    moreover have "fst e \<in> set (mc_requests C)" using e(1) d(2) by simp
    ultimately show ?P using e(2) by auto
  next
    assume ?P
    then obtain i p Op where "(i, p) \<in> set (mc_outstanding C)" "mc_ops C p = Some Op" "op_Op Op \<noteq> MemOpFLUSH" using m by blast
    then show "awaited C \<noteq> 0" by (auto simp: awaited_def filter_empty_conv intro!: bexI [of _ "(i, p)"])
  qed
qed

text \<open>
  C7: After a fence, a clock tick does nothing but count as long as a request is outstanding that is not a
  flush, whatever its kind; when none is, one fence is released and the tick is an ordinary one. So the
  counters that are never decremented and those decremented for another kind make up for each other.
\<close>

theorem fence_waits:
  assumes "ctrl_reach A C" "0 < mc_num_fence C" "length (mc_requests C) < 2 ^ 64"
  shows "ctrl_clockTick C =
    (if \<exists>i\<in>set (mc_requests C). \<exists>p Op. map_of (mc_outstanding C) i = Some p \<and> mc_ops C p = Some Op \<and> op_Op Op \<noteq> MemOpFLUSH
     then Inr (recordStat FencePending 1 C) else tick_loop Slots_zero (C\<lparr>mc_num_fence := mc_num_fence C - 1\<rparr>))"
proof -
  have inv: "ctrl_inv {} C" using ctrl_reach_inv [OF assms(1)] by simp
  then have q: "queue_ok {} C" "sum_ok C" by (simp_all add: ctrl_inv_def)
  have "getTotalRqsts C \<noteq> 0 \<longleftrightarrow> awaited C \<noteq> 0"
    using q(2) awaited_bound [OF inv] assms(3) nat_dvd_not_less [of "awaited C" "2 ^ 64"]
    by (cases "awaited C = 0") (auto simp: sum_ok_def word_of_nat_eq_0_iff)
  then show ?thesis using assms(2) awaited_iff [OF q(1)] by (simp add: ctrl_clockTick_def getTotalRqsts_def)
qed

definition ex_fence :: RevMemCtrl where "ex_fence = projr (ctrl_clockTick (sendFENCE 0 ex_sent))"

lemma ex_fence_reach: "ctrl_reach {#MemReq_default#} ex_fence"
proof -
  have "ctrl_reach {#MemReq_default#} (sendFENCE 0 ex_sent)" using reach_step [OF ex_sent_reach ctrl_step.send_fence] .
  moreover have "ctrl_step {#} (sendFENCE 0 ex_sent) ex_fence" unfolding ex_fence_def by (rule tick_step; code_simp)
  ultimately show ?thesis by (rule reach_step)
qed

theorem fence_waits_witness: "ctrl_clockTick ex_fence = Inr (recordStat FencePending 1 ex_fence)"
proof -
  have "map_of (mc_outstanding ex_fence) 0 = Some 0" "map_option op_Op (mc_ops ex_fence 0) = Some MemOpREAD" "0 \<in> set (mc_requests ex_fence)"
    "0 < mc_num_fence ex_fence" "length (mc_requests ex_fence) = 2" by code_simp+
  then show ?thesis using fence_waits [OF ex_fence_reach] by (auto split: if_splits)
qed

section \<open>Locked reads\<close>

text \<open>A locked read at the head of the queue that the limit on locked reads holds back.\<close>

definition starved :: "nat \<Rightarrow> RevMemCtrl \<Rightarrow> bool" where
  "starved p C \<longleftrightarrow> (\<exists>Op q. mc_rqstQ C = p # q \<and> mc_ops C p = Some Op \<and> op_Op Op = MemOpREADLOCK \<and> isCacheable Op \<and>
       0 < getNumCacheLines (op_Addr Op) (op_Size Op) C) \<and>
     mc_hasCache C \<and> 0 < mc_lineSize C \<and> 0 < mc_max_readlock C \<and> mc_num_readlock C = ucast (mc_max_readlock C)"

text \<open>What a step leaves alone in such a state.\<close>

definition stalls :: "nat \<Rightarrow> RevMemCtrl \<Rightarrow> RevMemCtrl \<Rightarrow> bool" where
  "stalls p C C' \<longleftrightarrow> (\<exists>xs. mc_rqstQ C' = mc_rqstQ C @ xs) \<and> mc_ops C' p = mc_ops C p \<and> mc_hasCache C' = mc_hasCache C \<and>
     mc_lineSize C' = mc_lineSize C \<and> mc_max_readlock C' = mc_max_readlock C \<and> mc_num_readlock C' = mc_num_readlock C \<and>
     mc_sent C' = mc_sent C"

lemma stalls_starved:
  assumes s: "stalls p C C'" and "starved p C"
  shows "starved p C'"
proof -
  have "getNumCacheLines a n C' = getNumCacheLines a n C" for a n
    using s unfolding getNumCacheLines_def stalls_def by (elim conjE) (simp add: Let_def)
  then show ?thesis using assms by (auto simp: stalls_def starved_def)
qed

lemma starved_scan:
  assumes "starved p C" and T: "t_readlock T = 0"
  shows "\<exists>T'. processNextRqst T C = Inr (T', C) \<and> t_ops T' = mc_max_ops C"
proof -
  obtain Op q where p: "mc_rqstQ C = p # q" "mc_ops C p = Some Op" "op_Op Op = MemOpREADLOCK" "isCacheable Op"
    "0 < getNumCacheLines (op_Addr Op) (op_Size Op) C"
    and c: "mc_hasCache C" "0 < mc_lineSize C" "0 < mc_max_readlock C" "mc_num_readlock C = ucast (mc_max_readlock C)"
    using assms(1) by (auto simp: starved_def)
  have "0 < (ucast (getNumCacheLines (op_Addr Op) (op_Size Op) C) :: u64)"
    using p(5) by (simp add: word_less_nat_alt unat_ucast_32_64)
  then have "buildStandardMemRqst p Op False C = Inr (True, False, C)"
    using p c by (simp add: buildStandardMemRqst_def buildCacheMemRqst_def slots_left_def Let_def)
  moreover have "isPendingAMO 0 Op C = Inr False" by (simp add: isPendingAMO_def isAQ_def isRL_def)
  ultimately show ?thesis
    using p T c by (simp add: processNextRqst_def deref_def isMemOpAvail_def issue_rqst_def Let_def)
qed

lemma starved_tick:
  assumes "starved p C" "ctrl_clockTick C = Inr C'"
  shows "stalls p C C'"
proof -
  have "tick_loop Slots_zero D = Inr D" if "starved p D" for D
    using starved_scan [OF that, of Slots_zero] by (subst tick_loop.simps) (auto simp: Slots_zero_def)
  moreover have "starved p (C\<lparr>mc_num_fence := mc_num_fence C - 1\<rparr>)" using assms(1) by (simp add: starved_def)
  ultimately show ?thesis using assms by (auto simp: ctrl_clockTick_def stalls_def recordStat_def split: if_splits)
qed

lemma stalls_plain_resp:
  assumes "plain_resp kind i C = Inr C'" "map_of (mc_outstanding C) i = Some x" "x \<noteq> p"
  shows "stalls p C C'"
  using assms
  by (auto simp: plain_resp_def take_request_def deref_def res_bind_eq_Inr stalls_def erase_outstanding_def delete_op_def
      split: if_splits option.splits)

lemma stalls_write_resp:
  assumes "handleWriteResp i C = Inr C'" "map_of (mc_outstanding C) i = Some x" "x \<noteq> p"
  shows "stalls p C C'"
  using assms
  by (auto simp: handleWriteResp_def take_request_def deref_def res_bind_eq_Inr stalls_def erase_outstanding_def delete_op_def
      mark_complete_def Let_def split: if_splits option.splits)

lemma stalls_read_resp:
  assumes inv: "ctrl_inv {} C" and s: "handleReadResp i pAddr sz data C = Inr C'"
    and k: "map_of (mc_outstanding C) i = Some x" "mc_ops C x = Some Op" "x \<noteq> p" "p < mc_nops C"
  shows "stalls p C C'"
  using inv s k(1,2)
proof (cases rule: handleReadResp_Inr)
  case (amo h C4)
  have "amo_ok C" using inv by (simp add: ctrl_inv_def)
  then have "list_ex (amo_entry x Op) (mc_AMOTable C)"
    using amo(2) amo_entry_iff [OF _ k(2)] by (auto simp: list_ex_iff amo_memops_def)
  then show ?thesis
    using k by (rule_tac handleAMO_Inr [OF amo(3)]) (auto simp: amo(4) stalls_def erase_outstanding_def delete_op_def push_op_def)
qed (use k(3) in \<open>auto simp: stalls_def erase_outstanding_def delete_op_def mark_complete_def\<close>)

lemma stalls_step:
  assumes "ctrl_step B C C'" "ctrl_inv {} C" "starved p C"
  shows "stalls p C C'"
proof -
  have q: "p \<in> set (mc_rqstQ C)" using assms(3) by (auto simp: starved_def)
  then have n: "p < mc_nops C" "p \<notin> sent_ops C" using assms(2) by (auto simp: ctrl_inv_def queue_ok_def)
  have x: "x \<noteq> p" if "map_of (mc_outstanding C) i = Some x" for i x
    using outstanding_entry(1) [OF _ that] assms(2) n(2) by (auto simp: ctrl_inv_def)
  have push: "stalls p C (push_op Op C)" "stalls p C (recordStat st d C)" "stalls p C (recordStat st d (push_op Op C))"
    "stalls p C (recordStat st d (push_op Op C\<lparr>mc_AMOTable := t\<rparr>))" "stalls p C (push_op Op C\<lparr>mc_AMOTable := t\<rparr>)" "stalls p D D" for Op st d t D
    using n(1) by (auto simp: stalls_def push_op_def recordStat_def)
  from assms(1) show ?thesis
  proof (cases rule: ctrl_step.cases)
    case tick
    then show ?thesis using starved_tick [OF assms(3)] by simp
  next
    case (read_resp i pAddr sz data x Op)
    then show ?thesis using stalls_read_resp [OF assms(2) _ _ _ _ n(1)] x by blast
  next
    case (write_resp i x Op)
    then show ?thesis using stalls_write_resp x by blast
  next
    case (flush_resp i x Op)
    then show ?thesis using stalls_plain_resp [of "''FlushResp''" i C _ x p] x [of i x]
      by (auto simp: handleFlushResp_def res_bind_eq_Inr stalls_def)
  next
    case (custom_resp i x Op)
    then show ?thesis using stalls_plain_resp [of "''CustomResp''" i C _ x p] x [of i x]
      by (auto simp: handleCustomResp_def res_bind_eq_Inr stalls_def)
  qed (auto simp: sendFLUSHRequest_def sendREADRequest_def sendREADLOCKRequest_def sendLOADLINKRequest_def
    sendWRITERequest_def sendWRITELOCKRequest_def sendSTORECONDRequest_def sendCUSTOMREADRequest_def sendCUSTOMWRITERequest_def
    sendAMORequest_def sendFENCE_def res_bind_eq_Inr push Let_def split: if_splits option.splits)
qed

inductive ctrl_run :: "RevMemCtrl \<Rightarrow> RevMemCtrl \<Rightarrow> bool" where
  refl: "ctrl_run C C"
| step: "ctrl_run C C1 \<Longrightarrow> ctrl_step B C1 C2 \<Longrightarrow> ctrl_run C C2"

text \<open>
  C28: With a cache, the counter of locked reads is never decremented, although their responses arrive. Once
  it has reached the limit, a cacheable locked read at the head of the queue, which a load-reserved
  instruction puts there, stays there for ever: whatever is requested, answered or waited for
  afterwards, the controller never sends a request again. Without a cache, and for a read that is not
  cacheable, the limits are not looked at and the read is sent.
\<close>

theorem readlock_starves:
  assumes "ctrl_reach A C" "starved p C" "ctrl_run C C'"
  shows "starved p C' \<and> mc_sent C' = mc_sent C"
proof -
  have "ctrl_inv {} C' \<and> starved p C' \<and> mc_sent C' = mc_sent C"
    using assms(3,2) ctrl_reach_inv [OF assms(1)]
  proof (induction rule: ctrl_run.induct)
    case (step C C1 B C2)
    then have i: "ctrl_inv {} C1" "starved p C1" "mc_sent C1 = mc_sent C" by auto
    have "stalls p C1 C2" by (rule stalls_step [OF step(2) i(1,2)])
    then show ?case using ctrl_step_inv [OF step(2) i(1)] stalls_starved [OF _ i(2)] i(3) by (auto simp: stalls_def)
  qed simp
  then show ?thesis by simp
qed

definition ex_locks :: RevMemCtrl where
  "ex_locks = sendREADLOCKRequest 0 0x140 0 4 (Some 8) MemReq_default 0 (sendREADLOCKRequest 0 0x100 0 4 (Some 0) MemReq_default 0 ex_ctrl)"
definition ex_stuck :: RevMemCtrl where "ex_stuck = projr (ctrl_clockTick ex_locks)"
definition ex_after :: RevMemCtrl where "ex_after = projr (ctrl_clockTick (projr (handleReadResp 0 0x100 4 [1, 0, 0, 0] ex_stuck)))"

lemma ex_stuck_reach: "ctrl_reach {#MemReq_default, MemReq_default#} ex_stuck"
proof -
  let ?C = "sendREADLOCKRequest 0 0x100 0 4 (Some 0) MemReq_default 0 ex_ctrl"
  have "ctrl_step {#MemReq_default#} ex_ctrl ?C" "ctrl_step {#MemReq_default#} ?C ex_locks"
    unfolding ex_locks_def by (rule ctrl_step.send_readlock, simp)+
  then have "ctrl_reach ({#} + {#MemReq_default#} + {#MemReq_default#}) ex_locks" using ctrl_reach.step ex_ctrl_reach by blast
  moreover have "ctrl_step {#} ex_locks ex_stuck" unfolding ex_stuck_def by (rule tick_step; code_simp)
  ultimately show ?thesis using reach_step by simp
qed

lemma ex_stuck_starved: "starved 1 ex_stuck"
proof -
  have "mc_rqstQ ex_stuck = [1]" "mc_hasCache ex_stuck" "0 < mc_lineSize ex_stuck" "0 < mc_max_readlock ex_stuck"
    "mc_num_readlock ex_stuck = ucast (mc_max_readlock ex_stuck)"
    "map_option (\<lambda>Op. op_Op Op = MemOpREADLOCK \<and> isCacheable Op \<and> 0 < getNumCacheLines (op_Addr Op) (op_Size Op) ex_stuck) (mc_ops ex_stuck 1) = Some True"
    by code_simp+
  then show ?thesis by (auto simp: starved_def)
qed

theorem readlock_starves_witness: "starved 1 ex_after \<and> mc_sent ex_after = [Std_ReadLock 0 0x100 4 0] \<and> mc_completed ex_after = [MemReq_default]"
proof -
  let ?C = "projr (handleReadResp 0 0x100 4 [1, 0, 0, 0] ex_stuck)"
  have "ctrl_step {#} ex_stuck ?C" by (rule read_resp_step [of _ _ _ _ _ 0]; code_simp)
  moreover have "ctrl_step {#} ?C ex_after" unfolding ex_after_def by (rule tick_step; code_simp)
  ultimately have "ctrl_run ex_stuck ex_after" using ctrl_run.refl ctrl_run.step by blast
  moreover have "mc_sent ex_stuck = [Std_ReadLock 0 0x100 4 0]" "mc_completed ex_after = [MemReq_default]" by code_simp+
  ultimately show ?thesis using readlock_starves [OF ex_stuck_reach ex_stuck_starved] by auto
qed

section \<open>Atomic operations\<close>

lemma length_host_read [simp]: "length (host_read a n H) = n"
  by (simp add: host_read_def)

lemma host_read_write: "n \<le> length bs \<Longrightarrow> host_read a n (host_write a bs H) = take n bs"
  by (rule nth_equalityI) (simp_all add: host_read_def host_write_def)

lemma host_read_write_longer: "length bs \<le> n \<Longrightarrow> host_read a n (host_write a bs H) = bs @ host_read (a + length bs) (n - length bs) H"
  by (rule nth_equalityI) (auto simp: host_read_def host_write_def nth_append)

lemma host_write_restore: "length bs = n \<Longrightarrow> host_write a (host_read a n H) (host_write a bs H) = H"
  by (rule ext) (auto simp: host_read_def host_write_def)

lemma le_bytes_cong: "(\<And>k. k < 8 * n \<Longrightarrow> bit v k = bit w k) \<Longrightarrow> le_bytes n v = le_bytes n w"
proof (induction n arbitrary: v w)
  case (Suc n)
  have "ucast v = (ucast w :: u8)" by (rule bit_word_eqI) (simp add: bit_simps Suc.prems)
  moreover have "le_bytes n (drop_bit 8 v) = le_bytes n (drop_bit 8 w)" by (rule Suc.IH) (simp add: bit_drop_bit_eq Suc.prems)
  ultimately show ?case by simp
qed simp

lemma le_bytes_le_word: "length bs \<le> 8 \<Longrightarrow> le_bytes (length bs) (le_word bs) = bs"
proof (induction bs)
  case (Cons b bs)
  have "drop_bit 8 (le_word (b # bs)) = take_bit 56 (le_word bs)"
    by (rule bit_word_eqI) (auto simp: bit_simps dest: bit_imp_le_length)
  also have "\<dots> = le_word bs"
  proof (rule bit_word_eqI)
    fix k
    show "bit (take_bit 56 (le_word bs)) k = bit (le_word bs) k"
      using le_word_bits [of bs k] Cons.prems by (auto simp: bit_take_bit_iff)
  qed
  finally have d: "drop_bit 8 (le_word (b # bs)) = le_word bs" .
  have "ucast (le_word (b # bs)) = b" by (rule bit_word_eqI) (simp add: bit_simps)
  then show ?case using Cons d by simp
qed simp

lemma take_le_bytes: "m \<le> n \<Longrightarrow> take m (le_bytes n w) = le_bytes m w"
proof (induction n arbitrary: m w)
  case (Suc n)
  then show ?case by (cases m) simp_all
qed simp

lemma le_word_append_low:
  assumes "length bs = 4"
  shows "take_bit 32 (le_word (bs @ cs)) = le_word bs"
proof -
  have "bit (le_word (xs @ cs)) k = bit (le_word xs) k" if "k < 8 * length xs" "k < 64" for xs k
    using that by (induction xs arbitrary: k) (auto simp: bit_simps)
  then show ?thesis using assms le_word_bits [of bs] by (intro bit_word_eqI) (auto simp: bit_simps)
qed

lemma SignExt_low:
  fixes v w :: u64
  assumes "take_bit 32 w = v"
  shows "SignExt w 32 = SignExt v 32" "take_bit 32 (SignExt v 32) = v"
proof -
  have "signed_take_bit 31 w = signed_take_bit 31 (take_bit 32 w)" by (rule bit_word_eqI) (auto simp: bit_simps)
  then show "SignExt w 32 = SignExt v 32" using assms by (simp add: SignExt_signed_take_bit)
  show "take_bit 32 (SignExt v 32) = v" using assms
    by (auto simp: SignExt_signed_take_bit bit_simps intro!: bit_word_eqI)
qed

text \<open>The target after the data of the read has arrived and has been extended.\<close>

definition amo_target :: "u32 \<Rightarrow> u8 list \<Rightarrow> u8 list" where
  "amo_target flags data = (if RevFlagHas flags F_SEXT64 then le_bytes 8 (SignExt (le_word data) 32) else data)"

lemma handleFlagResp_amo:
  assumes "\<not> RevFlagHas (op_flags Op) F_SEXT32" "\<not> RevFlagHas (op_flags Op) F_ZEXT32" "\<not> RevFlagHas (op_flags Op) F_ZEXT64"
    "\<not> RevFlagHas (op_flags Op) F_BOXNAN" and n: "op_Size Op = of_nat n" "n = 4 \<or> n = 8 \<and> \<not> RevFlagHas (op_flags Op) F_SEXT64"
    and a: "op_target Op = Some a" "mc_host C = host_write a data H" "length data = n"
  shows "\<exists>C1. handleFlagResp Op C = Inr C1 \<and> C1 = C\<lparr>mc_host := host_write a (amo_target (op_flags Op) data) H\<rparr>"
    and "take n (amo_target (op_flags Op) data) = data" "n \<le> length (amo_target (op_flags Op) data)"
proof -
  have low: "le_bytes 4 (SignExt (le_word data) 32) = data" if "n = 4"
  proof -
    have "take_bit 32 (SignExt (le_word data) 32) = take_bit 32 (le_word data)"
      using le_word_append_low [of data "[]"] SignExt_low(2) [of "le_word data" "le_word data"] a(3) that by simp
    then have "bit (SignExt (le_word data) 32) k = bit (le_word data) k" if "k < 32" for k
      using that by (metis bit_take_bit_iff)
    then show ?thesis using le_bytes_cong [of 4 "SignExt (le_word data) 32" "le_word data"] le_bytes_le_word [of data] a(3) that by simp
  qed
  then show "take n (amo_target (op_flags Op) data) = data" "n \<le> length (amo_target (op_flags Op) data)"
    using n a(3) by (auto simp: amo_target_def take_le_bytes)
  show "\<exists>C1. handleFlagResp Op C = Inr C1 \<and> C1 = C\<lparr>mc_host := host_write a (amo_target (op_flags Op) data) H\<rparr>"
  proof (cases "RevFlagHas (op_flags Op) F_SEXT64")
    case True
    then have 4: "n = 4" using n by auto
    have "le_word (host_read a 8 (mc_host C)) = le_word (data @ host_read (a + 4) 4 H)"
      using host_read_write_longer [of data 8 a H] a 4 by simp
    then have "SignExt (le_word (host_read a 8 (mc_host C))) 32 = SignExt (le_word data) 32"
      using SignExt_low(1) [OF le_word_append_low] a(3) 4 by simp
    moreover have "host_write a (le_bytes 8 w) (host_write a data H) = host_write a (le_bytes 8 w) H" for w
      using a(3) 4 by (auto simp: host_write_def)
    ultimately show ?thesis using assms True 4 by (simp add: handleFlagResp_def amo_target_def)
  next
    case False
    then show ?thesis using assms by (auto simp: handleFlagResp_def amo_target_def Let_def)
  qed
qed

text \<open>The bytes that the operation stores.\<close>

definition amo_result :: "u32 \<Rightarrow> u8 list \<Rightarrow> u8 list \<Rightarrow> u8 list" where
  "amo_result flags old val =
     (if length old = 4 then le_bytes 4 (ucast (amo_table flags (ucast (le_word old) :: u32) (ucast (le_word val))))
      else le_bytes 8 (amo_table flags (le_word old) (le_word val)))"

lemma F_ATOMIC_listed: "RevFlagHas flags F_ATOMIC \<Longrightarrow> list_ex (RevFlagHas flags) amo_ops"
  by (auto simp: RevFlagHas_def F_ATOMIC_def amo_ops_def bit.conj_disj_distrib)

lemma performAMO_value:
  assumes op: "mc_ops C p = Some Op" "op_target Op = Some a" "op_Size Op = of_nat n" "n = 4 \<or> n = 8" "length (op_membuf Op) = n"
      "RevFlagHas (op_flags Op) F_ATOMIC"
    and W: "W = amo_write Op a (mc_host C) (host_write a (amo_result (op_flags Op) (host_read a n (mc_host C)) (op_membuf Op)) (mc_host C))"
  shows "performAMO p C = (if n \<in> set (mc_ApplyAMO C) then Inl (Undefined ''ApplyAMO: locals of an earlier call'')
      else Inr (push_op W (C\<lparr>mc_ApplyAMO := n # mc_ApplyAMO C, mc_AMOTable := mc_AMOTable C @ [(op_Addr Op,
        \<lparr>am_Hart = op_Hart Op, am_target = None, am_flags = op_flags Op, am_memop = mc_nops C, am_in = True\<rparr>)]\<rparr>)))"
    and "op_membuf W = amo_result (op_flags Op) (host_read a n (mc_host C)) (op_membuf Op)"
proof -
  let ?r = "amo_result (op_flags Op) (host_read a n (mc_host C)) (op_membuf Op)"
  have r: "length ?r = n" "unat (op_Size Op) = n" "amo_T n = n" using op(3,4) by (auto simp: amo_result_def amo_T_def)
  then show "op_membuf W = ?r" by (simp add: W amo_write_def mk_RevMemOp_def host_read_write)
  have t: "host_write a (op_tempT W) (host_write a ?r (mc_host C)) = mc_host C"
    using r by (simp add: W amo_write_def host_write_restore)
  have "apply_amo b (op_flags Op) n (host_read a n (mc_host C)) (le_word (op_membuf Op)) =
      (if b then Inl (Undefined ''ApplyAMO: locals of an earlier call'') else Inr ?r)" for b
    using op(4) F_ATOMIC_listed [OF op(6)] by (auto simp: apply_amo_def ApplyAMO_def amo_result_def)
  moreover have "op_Addr W = op_Addr Op" "op_Hart W = op_Hart Op" "op_target W = None" "op_flags W = op_flags Op"
    by (simp_all add: W amo_write_def mk_RevMemOp_def)
  moreover have "C\<lparr>mc_host := mc_host C, mc_ApplyAMO := ts, mc_AMOTable := t\<rparr> = C\<lparr>mc_ApplyAMO := ts, mc_AMOTable := t\<rparr>" for ts t
    by simp
  ultimately show "performAMO p C = (if n \<in> set (mc_ApplyAMO C) then Inl (Undefined ''ApplyAMO: locals of an earlier call'')
      else Inr (push_op W (C\<lparr>mc_ApplyAMO := n # mc_ApplyAMO C, mc_AMOTable := mc_AMOTable C @ [(op_Addr Op,
        \<lparr>am_Hart = op_Hart Op, am_target = None, am_flags = op_flags Op, am_memop = mc_nops C, am_in = True\<rparr>)]\<rparr>)))"
    using op r t by (simp add: performAMO_def deref_def Let_def W [symmetric])
qed

text \<open>
  C9: The response to the read of an atomic operation, the first of its size that the controller performs,
  puts a write of the same address and size into the queue that carries the result of the operation on
  the value read and the operand; the target register keeps the value read, sign-extended where the
  instruction asks for it, and the load is not completed yet. The response to a later one of that size
  is undefined: it would run the function objects that \<^verbatim>\<open>ApplyAMO\<close> built in the first call, which refer to the
  variables of that call.
\<close>

theorem amo_read_modify_write:
  assumes reach: "ctrl_reach A C" and i: "map_of (mc_outstanding C) i = Some p" and op: "mc_ops C p = Some Op" "op_Op Op = MemOpREAD"
    and amo: "list_ex (amo_entry p Op) (mc_AMOTable C)" "RevFlagHas (op_flags Op) F_ATOMIC"
    and a: "op_target Op = Some a" "op_Size Op = of_nat n" "n = 4 \<or> n = 8 \<and> \<not> RevFlagHas (op_flags Op) F_SEXT64"
      "length (op_membuf Op) = n" "length data = n"
    and fl: "\<not> RevFlagHas (op_flags Op) F_SEXT32" "\<not> RevFlagHas (op_flags Op) F_ZEXT32" "\<not> RevFlagHas (op_flags Op) F_ZEXT64"
      "\<not> RevFlagHas (op_flags Op) F_BOXNAN"
  shows "if n \<in> set (mc_ApplyAMO C) then handleReadResp i pAddr sz data C = Inl (Undefined ''ApplyAMO: locals of an earlier call'')
    else \<exists>C' W. handleReadResp i pAddr sz data C = Inr C' \<and> mc_rqstQ C' = mc_rqstQ C @ [mc_nops C] \<and> mc_ops C' (mc_nops C) = Some W \<and>
      op_Op W = MemOpWRITE \<and> op_Addr W = op_Addr Op \<and> op_Size W = op_Size Op \<and>
      op_membuf W = amo_result (op_flags Op) data (op_membuf Op) \<and> mc_ApplyAMO C' = n # mc_ApplyAMO C \<and>
      mc_host C' = host_write a (amo_target (op_flags Op) data) (mc_host C) \<and> mc_completed C' = mc_completed C"
proof -
  have inv: "ctrl_inv {} C" using ctrl_reach_inv [OF reach] by simp
  then have q: "amo_ok C" "p \<noteq> mc_nops C" using fresh_op [of "{}" C] op by (auto simp: ctrl_inv_def)
  obtain e where e: "find (amo_entry p Op) (mc_AMOTable C) = Some e" "am_memop (snd e) = p"
    using amo(1) by (cases "find (amo_entry p Op) (mc_AMOTable C)") (auto simp: list_ex_iff find_None_iff find_Some_iff amo_entry_def)
  have "p \<in> amo_memops C" using amo(1) by (auto simp: list_ex_iff amo_entry_def amo_memops_def)
  then have s: "op_SplitRqst Op = 1" using q(1) op by (auto simp: amo_ok_def amo_memops_def)
  define C1 where "C1 = C\<lparr>mc_requests := remove1 i (mc_requests C)\<rparr>"
  define C2 where "C2 = C1\<lparr>mc_host := host_write a data (mc_host C)\<rparr>"
  define C3 where "C3 = C2\<lparr>mc_host := host_write a (amo_target (op_flags Op) data) (mc_host C)\<rparr>"
  have C2: "target_write (op_target Op) 0 (take n data) C1 = Inr C2" using a by (simp add: target_write_def C2_def C1_def)
  have "mc_host C2 = host_write a data (mc_host C)" by (simp add: C2_def)
  note f = handleFlagResp_amo [OF fl a(2,3,1) this a(5)]
  have C3: "handleFlagResp Op C2 = Inr C3" using f(1) by (simp add: C3_def)
  have c: "mc_ops C3 p = Some Op" "mc_rqstQ C3 = mc_rqstQ C" "mc_nops C3 = mc_nops C" "mc_completed C3 = mc_completed C"
    "mc_host C3 = host_write a (amo_target (op_flags Op) data) (mc_host C)" "mc_AMOTable C3 = mc_AMOTable C"
    "mc_ApplyAMO C3 = mc_ApplyAMO C"
    by (simp_all add: C3_def C2_def C1_def op)
  have n: "n = 4 \<or> n = 8" "unat (op_Size Op) = n" using a(2,3) by auto
  note v = performAMO_value [OF c(1) a(1,2) n(1) a(4) amo(2) HOL.refl]
  let ?W = "amo_write Op a (mc_host C3) (host_write a (amo_result (op_flags Op) (host_read a n (mc_host C3)) (op_membuf Op)) (mc_host C3))"
  have r: "host_read a n (mc_host C3) = data" using host_read_write [OF f(3)] f(2) by (simp add: c(5))
  have amoC1: "mc_AMOTable C1 = mc_AMOTable C" by (simp add: C1_def)
  have x: "handleReadResp i pAddr sz data C = res_bind (handleAMO p Op C3) (\<lambda>D.
      Inr ((erase_outstanding i (delete_op p D))\<lparr>mc_num_read := mc_num_read (delete_op p D) - 1\<rparr>))"
    using take_request_ok [OF inv i op(1)] amo(1) s C2 C3 n(2) a(5) amoC1
    by (cases "handleAMO p Op C3") (simp_all add: handleReadResp_def finish_read_def Let_def C1_def [symmetric])
  show ?thesis
  proof (cases "n \<in> set (mc_ApplyAMO C)")
    case True
    then show ?thesis using x v(1) e c(6,7) by (simp add: handleAMO_def)
  next
    case False
    then obtain t where "handleAMO p Op C3 = Inr ((push_op ?W (C3\<lparr>mc_ApplyAMO := n # mc_ApplyAMO C\<rparr>))\<lparr>mc_AMOTable := t\<rparr>)"
      using v(1) e c(6,7) by (auto simp: handleAMO_def push_op_def)
    then show ?thesis using x v(2) r q(2) c False
      by (simp add: erase_outstanding_def delete_op_def push_op_def) (simp add: amo_write_def mk_RevMemOp_def)
  qed
qed

text \<open>Two harts add one to the same memory, one to a word and the other to a double word.\<close>

definition ex_amo1 :: RevMemCtrl where
  "ex_amo1 = projr (sendAMORequest 0 0x100 0 4 [1, 0, 0, 0] (Some 0) MemReq_default F_AMOADD ex_ctrl)"
definition ex_amo2 :: RevMemCtrl where
  "ex_amo2 = projr (sendAMORequest 1 0x100 0 8 [1, 0, 0, 0, 0, 0, 0, 0] (Some 8) MemReq_default F_AMOADD ex_amo1)"
definition ex_amo3 :: RevMemCtrl where "ex_amo3 = projr (ctrl_clockTick ex_amo2)"
definition ex_amo4 :: RevMemCtrl where "ex_amo4 = projr (handleReadResp 0 0x100 4 [5, 0, 0, 0] ex_amo3)"
definition ex_amo5 :: RevMemCtrl where "ex_amo5 = projr (handleReadResp 1 0x100 8 [5, 0, 0, 0, 0, 0, 0, 0] ex_amo4)"
definition ex_amo6 :: RevMemCtrl where "ex_amo6 = projr (ctrl_clockTick ex_amo5)"

lemma amo_send_step:
  assumes "\<not> isl (sendAMORequest Hart Addr PAddr Size buffer tgt req flags C)" "Size \<noteq> 0" "RevFlagHas flags F_ATOMIC"
    "getNumCacheLines Addr Size C = 1"
  shows "ctrl_step {#req#} C (projr (sendAMORequest Hart Addr PAddr Size buffer tgt req flags C))"
  using assms by (intro ctrl_step.send_amo) (auto dest: sum.collapse(2))

lemma ex_amo3_reach: "ctrl_reach {#MemReq_default, MemReq_default#} ex_amo3"
proof -
  have "ctrl_step {#MemReq_default#} ex_ctrl ex_amo1" unfolding ex_amo1_def by (rule amo_send_step; code_simp)
  moreover have "ctrl_step {#MemReq_default#} ex_amo1 ex_amo2" unfolding ex_amo2_def by (rule amo_send_step; code_simp)
  ultimately have "ctrl_reach ({#} + {#MemReq_default#} + {#MemReq_default#}) ex_amo2" using ctrl_reach.step ex_ctrl_reach by blast
  moreover have "ctrl_step {#} ex_amo2 ex_amo3" unfolding ex_amo3_def by (rule tick_step; code_simp)
  ultimately show ?thesis using reach_step by simp
qed

theorem amo_read_modify_write_witness:
  "\<exists>W. mc_rqstQ ex_amo4 = [2] \<and> mc_ops ex_amo4 2 = Some W \<and> op_Op W = MemOpWRITE \<and> op_membuf W = [6, 0, 0, 0] \<and>
     mc_host ex_amo4 = host_write 0 [5, 0, 0, 0] (mc_host ex_amo3)"
proof -
  obtain Op where op: "mc_ops ex_amo3 0 = Some Op" "op_Op Op = MemOpREAD" "list_ex (amo_entry 0 Op) (mc_AMOTable ex_amo3)"
    "op_target Op = Some 0" "op_Size Op = of_nat 4" "op_membuf Op = [1, 0, 0, 0]" "op_flags Op = F_AMOADD"
  proof -
    have "map_option (\<lambda>Op. op_Op Op = MemOpREAD \<and> list_ex (amo_entry 0 Op) (mc_AMOTable ex_amo3) \<and> op_target Op = Some 0 \<and>
      op_Size Op = of_nat 4 \<and> op_membuf Op = [1, 0, 0, 0] \<and> op_flags Op = F_AMOADD) (mc_ops ex_amo3 0) = Some True" by code_simp
    then show ?thesis using that by auto
  qed
  have f: "\<not> RevFlagHas F_AMOADD F_SEXT32" "\<not> RevFlagHas F_AMOADD F_ZEXT32" "\<not> RevFlagHas F_AMOADD F_ZEXT64"
    "\<not> RevFlagHas F_AMOADD F_BOXNAN" "amo_result F_AMOADD [5, 0, 0, 0] [1, 0, 0, 0] = [6, 0, 0, 0]"
    "RevFlagHas F_AMOADD F_ATOMIC" "mc_ApplyAMO ex_amo3 = []"
    "amo_target F_AMOADD [5, 0, 0, 0] = [5, 0, 0, 0]" "map_of (mc_outstanding ex_amo3) 0 = Some 0" "mc_rqstQ ex_amo3 = []" "mc_nops ex_amo3 = 2"
    by code_simp+
  obtain C' W where w: "handleReadResp 0 0x100 4 [5, 0, 0, 0] ex_amo3 = Inr C'" "mc_rqstQ C' = [2]" "mc_ops C' 2 = Some W"
    "op_Op W = MemOpWRITE" "op_membuf W = [6, 0, 0, 0]" "mc_host C' = host_write 0 [5, 0, 0, 0] (mc_host ex_amo3)"
    using amo_read_modify_write [OF ex_amo3_reach f(9) op(1-3) _ op(4,5), of "[5, 0, 0, 0]" "0x100" 4] op(6,7) f by auto
  then have "ex_amo4 = C'" by (simp add: ex_amo4_def)
  then show ?thesis using w by blast
qed

text \<open>
  The two operations overlap: both read five before either has written, and six is written twice. The
  second operation is not held back, since the first left the queue when its read was sent.
\<close>

lemma amo_lost_update:
  "mc_sent ex_amo6 = [Std_Read 0 0x100 4 0, Std_Read 1 0x100 8 0,
     Std_Write 2 0x100 4 [6, 0, 0, 0] 0, Std_Write 3 0x100 8 [6, 0, 0, 0, 0, 0, 0, 0] 0]"
  by code_simp

end
