(* ===== verification/Rev_Wrappers.thy ===== *)
theory Rev_Wrappers
  imports Rev_SysCallIO "HOL-Library.Sublist"
begin

text \<open>
  The functions of \<^verbatim>\<open>common/syscalls/syscalls.h\<close> through which a simulated program makes system calls: the
  inline assembly puts the number of the call into a7, traps, and returns what it finds in a0. The
  arguments are in the argument registers, where the calling convention has them.
\<close>

section \<open>The assembly of a wrapper\<close>

text \<open>\<^verbatim>\<open>li a7, N\<close> on the register file \<open>r\<close> of the hart.\<close>

definition li_a7 :: "u64 \<Rightarrow> nat \<Rightarrow> RevProc \<Rightarrow> RevProc" where
  "li_a7 N r P = P\<lparr>q_regs := (q_regs P)(r := SetX_u 17 N (q_regs P r))\<rparr>"

text \<open>
  \<^verbatim>\<open>ecall\<close>: the handler that the processor finds for the number in a7. While it does not report success
  the processor rewinds the program counter and the hart executes the instruction again; \<open>run_ecall\<close>
  repeats it.
\<close>

definition ecall_trap :: "RevInst \<Rightarrow> RevProc \<Rightarrow> (EcallStatus \<times> RevProc) result" where
  "ecall_trap I P =
     res_bind (hart_regs (q_HartToDecodeID P) P) (\<lambda>d.
     case Ecalls (ucast (GetX (q_regs P d) 17 :: u64)) of
       None \<Rightarrow> Inl (Fatal ''Ecall Code not found'')
     | Some f \<Rightarrow> f I P)"

text \<open>\<^verbatim>\<open>mv %0, a0\<close> into an \<^verbatim>\<open>int\<close>, which is returned. The first argument bounds the number of executions.\<close>

type_synonym wrapper = "nat \<Rightarrow> RevInst \<Rightarrow> nat \<Rightarrow> RevProc \<Rightarrow> (u32 \<times> RevProc) result option"

definition syscall :: "u64 \<Rightarrow> wrapper" where
  "syscall N n I r P =
     map_option (\<lambda>res. res_bind res (\<lambda>Q. Inr (GetX (q_regs Q r) 10, Q))) (run_ecall n (ecall_trap I) (li_a7 N r P))"

section \<open>The wrappers\<close>

definition rev_io_setup :: wrapper where "rev_io_setup = syscall 0"
definition rev_io_destroy :: wrapper where "rev_io_destroy = syscall 1"
definition rev_io_submit :: wrapper where "rev_io_submit = syscall 2"
definition rev_io_cancel :: wrapper where "rev_io_cancel = syscall 3"
definition rev_io_getevents :: wrapper where "rev_io_getevents = syscall 4"
definition rev_setxattr :: wrapper where "rev_setxattr = syscall 5"
definition rev_lsetxattr :: wrapper where "rev_lsetxattr = syscall 6"
definition rev_fsetxattr :: wrapper where "rev_fsetxattr = syscall 7"
definition rev_getxattr :: wrapper where "rev_getxattr = syscall 8"
definition rev_lgetxattr :: wrapper where "rev_lgetxattr = syscall 9"
definition rev_fgetxattr :: wrapper where "rev_fgetxattr = syscall 10"
definition rev_listxattr :: wrapper where "rev_listxattr = syscall 11"
definition rev_llistxattr :: wrapper where "rev_llistxattr = syscall 12"
definition rev_flistxattr :: wrapper where "rev_flistxattr = syscall 13"
definition rev_removexattr :: wrapper where "rev_removexattr = syscall 14"
definition rev_lremovexattr :: wrapper where "rev_lremovexattr = syscall 15"
definition rev_fremovexattr :: wrapper where "rev_fremovexattr = syscall 16"
definition rev_getcwd :: wrapper where "rev_getcwd = syscall 17"
definition rev_lookup_dcookie :: wrapper where "rev_lookup_dcookie = syscall 18"
definition rev_eventfd2 :: wrapper where "rev_eventfd2 = syscall 19"
definition rev_epoll_create1 :: wrapper where "rev_epoll_create1 = syscall 20"
definition rev_epoll_ctl :: wrapper where "rev_epoll_ctl = syscall 21"
definition rev_epoll_pwait :: wrapper where "rev_epoll_pwait = syscall 22"
definition rev_dup :: wrapper where "rev_dup = syscall 23"
definition rev_dup3 :: wrapper where "rev_dup3 = syscall 24"
definition rev_fcntl64 :: wrapper where "rev_fcntl64 = syscall 25"
definition rev_inotify_init1 :: wrapper where "rev_inotify_init1 = syscall 26"
definition rev_inotify_add_watch :: wrapper where "rev_inotify_add_watch = syscall 27"
definition rev_inotify_rm_watch :: wrapper where "rev_inotify_rm_watch = syscall 28"
definition rev_ioctl :: wrapper where "rev_ioctl = syscall 29"
definition rev_ioprio_set :: wrapper where "rev_ioprio_set = syscall 30"
definition rev_ioprio_get :: wrapper where "rev_ioprio_get = syscall 31"
definition rev_flock :: wrapper where "rev_flock = syscall 32"
definition rev_mknodat :: wrapper where "rev_mknodat = syscall 33"
definition rev_mkdirat :: wrapper where "rev_mkdirat = syscall 34"
definition rev_unlinkat :: wrapper where "rev_unlinkat = syscall 35"
definition rev_symlinkat :: wrapper where "rev_symlinkat = syscall 36"
definition rev_renameat :: wrapper where "rev_renameat = syscall 38"
definition rev_umount :: wrapper where "rev_umount = syscall 39"
definition rev_pivot_root :: wrapper where "rev_pivot_root = syscall 41"
definition rev_ni_syscall :: wrapper where "rev_ni_syscall = syscall 42"
definition rev_statfs64 :: wrapper where "rev_statfs64 = syscall 43"
definition rev_fstatfs64 :: wrapper where "rev_fstatfs64 = syscall 44"
definition rev_truncate64 :: wrapper where "rev_truncate64 = syscall 45"
definition rev_ftruncate64 :: wrapper where "rev_ftruncate64 = syscall 46"
definition rev_fallocate :: wrapper where "rev_fallocate = syscall 47"
definition rev_faccessat :: wrapper where "rev_faccessat = syscall 48"
definition rev_chdir :: wrapper where "rev_chdir = syscall 49"
definition rev_fchdir :: wrapper where "rev_fchdir = syscall 50"
definition rev_chroot :: wrapper where "rev_chroot = syscall 51"
definition rev_fchmod :: wrapper where "rev_fchmod = syscall 52"
definition rev_fchmodat :: wrapper where "rev_fchmodat = syscall 53"
definition rev_fchownat :: wrapper where "rev_fchownat = syscall 54"
definition rev_fchown :: wrapper where "rev_fchown = syscall 55"
definition rev_openat :: wrapper where "rev_openat = syscall 56"
definition rev_close :: wrapper where "rev_close = syscall 57"
definition rev_vhangup :: wrapper where "rev_vhangup = syscall 58"
definition rev_pipe2 :: wrapper where "rev_pipe2 = syscall 59"
definition rev_quotactl :: wrapper where "rev_quotactl = syscall 60"
definition rev_getdents64 :: wrapper where "rev_getdents64 = syscall 61"
definition rev_llseek :: wrapper where "rev_llseek = syscall 62"
definition rev_read :: wrapper where "rev_read = syscall 63"
definition rev_write :: wrapper where "rev_write = syscall 64"
definition rev_readv :: wrapper where "rev_readv = syscall 65"
definition rev_writev :: wrapper where "rev_writev = syscall 66"
definition rev_pread64 :: wrapper where "rev_pread64 = syscall 67"
definition rev_pwrite64 :: wrapper where "rev_pwrite64 = syscall 68"
definition rev_preadv :: wrapper where "rev_preadv = syscall 69"
definition rev_pwritev :: wrapper where "rev_pwritev = syscall 70"
definition rev_sendfile64 :: wrapper where "rev_sendfile64 = syscall 71"
definition rev_pselect6_time32 :: wrapper where "rev_pselect6_time32 = syscall 72"
definition rev_ppoll_time32 :: wrapper where "rev_ppoll_time32 = syscall 73"
definition rev_signalfd4 :: wrapper where "rev_signalfd4 = syscall 74"
definition rev_vmsplice :: wrapper where "rev_vmsplice = syscall 75"
definition rev_tee :: wrapper where "rev_tee = syscall 77"
definition rev_readlinkat :: wrapper where "rev_readlinkat = syscall 78"
definition rev_newfstatat :: wrapper where "rev_newfstatat = syscall 79"
definition rev_newfstat :: wrapper where "rev_newfstat = syscall 80"
definition rev_sync :: wrapper where "rev_sync = syscall 81"
definition rev_fsync :: wrapper where "rev_fsync = syscall 82"
definition rev_fdatasync :: wrapper where "rev_fdatasync = syscall 83"
definition rev_sync_file_range2 :: wrapper where "rev_sync_file_range2 = syscall 84"
definition rev_sync_file_range :: wrapper where "rev_sync_file_range = syscall 84"
definition rev_timerfd_create :: wrapper where "rev_timerfd_create = syscall 85"
definition rev_timerfd_settime :: wrapper where "rev_timerfd_settime = syscall 86"
definition rev_timerfd_gettime :: wrapper where "rev_timerfd_gettime = syscall 87"
definition rev_utimensat :: wrapper where "rev_utimensat = syscall 88"
definition rev_acct :: wrapper where "rev_acct = syscall 89"
definition rev_capget :: wrapper where "rev_capget = syscall 90"
definition rev_capset :: wrapper where "rev_capset = syscall 91"
definition rev_personality :: wrapper where "rev_personality = syscall 92"
definition rev_exit :: wrapper where "rev_exit = syscall 93"
definition rev_exit_group :: wrapper where "rev_exit_group = syscall 94"
definition rev_waitid :: wrapper where "rev_waitid = syscall 95"
definition rev_set_tid_address :: wrapper where "rev_set_tid_address = syscall 96"
definition rev_unshare :: wrapper where "rev_unshare = syscall 97"
definition rev_set_robust_list :: wrapper where "rev_set_robust_list = syscall 99"
definition rev_get_robust_list :: wrapper where "rev_get_robust_list = syscall 100"
definition rev_nanosleep :: wrapper where "rev_nanosleep = syscall 101"
definition rev_getitimer :: wrapper where "rev_getitimer = syscall 102"
definition rev_setitimer :: wrapper where "rev_setitimer = syscall 103"
definition rev_kexec_load :: wrapper where "rev_kexec_load = syscall 104"
definition rev_init_module :: wrapper where "rev_init_module = syscall 105"
definition rev_delete_module :: wrapper where "rev_delete_module = syscall 106"
definition rev_timer_create :: wrapper where "rev_timer_create = syscall 107"
definition rev_timer_gettime :: wrapper where "rev_timer_gettime = syscall 108"
definition rev_timer_getoverrun :: wrapper where "rev_timer_getoverrun = syscall 109"
definition rev_timer_settime :: wrapper where "rev_timer_settime = syscall 110"
definition rev_timer_delete :: wrapper where "rev_timer_delete = syscall 111"
definition rev_clock_settime :: wrapper where "rev_clock_settime = syscall 112"
definition rev_clock_gettime :: wrapper where "rev_clock_gettime = syscall 113"
definition rev_clock_getres :: wrapper where "rev_clock_getres = syscall 114"
definition rev_clock_nanosleep :: wrapper where "rev_clock_nanosleep = syscall 115"
definition rev_syslog :: wrapper where "rev_syslog = syscall 116"
definition rev_ptrace :: wrapper where "rev_ptrace = syscall 117"
definition rev_sched_setparam :: wrapper where "rev_sched_setparam = syscall 118"
definition rev_sched_setscheduler :: wrapper where "rev_sched_setscheduler = syscall 119"
definition rev_sched_getscheduler :: wrapper where "rev_sched_getscheduler = syscall 120"
definition rev_sched_getparam :: wrapper where "rev_sched_getparam = syscall 121"
definition rev_sched_setaffinity :: wrapper where "rev_sched_setaffinity = syscall 122"
definition rev_sched_getaffinity :: wrapper where "rev_sched_getaffinity = syscall 123"
definition rev_sched_yield :: wrapper where "rev_sched_yield = syscall 124"
definition rev_sched_get_priority_max :: wrapper where "rev_sched_get_priority_max = syscall 125"
definition rev_sched_get_priority_min :: wrapper where "rev_sched_get_priority_min = syscall 126"
definition rev_sched_rr_get_interval :: wrapper where "rev_sched_rr_get_interval = syscall 127"
definition rev_restart_syscall :: wrapper where "rev_restart_syscall = syscall 128"
definition rev_kill :: wrapper where "rev_kill = syscall 129"
definition rev_tkill :: wrapper where "rev_tkill = syscall 130"
definition rev_tgkill :: wrapper where "rev_tgkill = syscall 131"
definition rev_sigaltstack :: wrapper where "rev_sigaltstack = syscall 132"
definition rev_rt_sigsuspend :: wrapper where "rev_rt_sigsuspend = syscall 133"
definition rev_rt_sigaction :: wrapper where "rev_rt_sigaction = syscall 134"
definition rev_rt_sigprocmask :: wrapper where "rev_rt_sigprocmask = syscall 135"
definition rev_rt_sigpending :: wrapper where "rev_rt_sigpending = syscall 136"
definition rev_rt_sigtimedwait_time32 :: wrapper where "rev_rt_sigtimedwait_time32 = syscall 137"
definition rev_rt_sigqueueinfo :: wrapper where "rev_rt_sigqueueinfo = syscall 138"
definition rev_setpriority :: wrapper where "rev_setpriority = syscall 140"
definition rev_getpriority :: wrapper where "rev_getpriority = syscall 141"
definition rev_reboot :: wrapper where "rev_reboot = syscall 142"
definition rev_setregid :: wrapper where "rev_setregid = syscall 143"
definition rev_setgid :: wrapper where "rev_setgid = syscall 144"
definition rev_setreuid :: wrapper where "rev_setreuid = syscall 145"
definition rev_setuid :: wrapper where "rev_setuid = syscall 146"
definition rev_setresuid :: wrapper where "rev_setresuid = syscall 147"
definition rev_getresuid :: wrapper where "rev_getresuid = syscall 148"
definition rev_setresgid :: wrapper where "rev_setresgid = syscall 149"
definition rev_getresgid :: wrapper where "rev_getresgid = syscall 150"
definition rev_setfsuid :: wrapper where "rev_setfsuid = syscall 151"
definition rev_setfsgid :: wrapper where "rev_setfsgid = syscall 152"
definition rev_times :: wrapper where "rev_times = syscall 153"
definition rev_setpgid :: wrapper where "rev_setpgid = syscall 154"
definition rev_getpgid :: wrapper where "rev_getpgid = syscall 155"
definition rev_getsid :: wrapper where "rev_getsid = syscall 156"
definition rev_setsid :: wrapper where "rev_setsid = syscall 157"
definition rev_getgroups :: wrapper where "rev_getgroups = syscall 158"
definition rev_setgroups :: wrapper where "rev_setgroups = syscall 159"
definition rev_newuname :: wrapper where "rev_newuname = syscall 160"
definition rev_sethostname :: wrapper where "rev_sethostname = syscall 161"
definition rev_setdomainname :: wrapper where "rev_setdomainname = syscall 162"
definition rev_getrlimit :: wrapper where "rev_getrlimit = syscall 163"
definition rev_setrlimit :: wrapper where "rev_setrlimit = syscall 164"
definition rev_getrusage :: wrapper where "rev_getrusage = syscall 165"
definition rev_umask :: wrapper where "rev_umask = syscall 166"
definition rev_prctl :: wrapper where "rev_prctl = syscall 167"
definition rev_getcpu :: wrapper where "rev_getcpu = syscall 168"
definition rev_gettimeofday :: wrapper where "rev_gettimeofday = syscall 169"
definition rev_settimeofday :: wrapper where "rev_settimeofday = syscall 170"
definition rev_adjtimex :: wrapper where "rev_adjtimex = syscall 171"
definition rev_getpid :: wrapper where "rev_getpid = syscall 172"
definition rev_getppid :: wrapper where "rev_getppid = syscall 173"
definition rev_getuid :: wrapper where "rev_getuid = syscall 174"
definition rev_geteuid :: wrapper where "rev_geteuid = syscall 175"
definition rev_getgid :: wrapper where "rev_getgid = syscall 176"
definition rev_getegid :: wrapper where "rev_getegid = syscall 177"
definition rev_gettid :: wrapper where "rev_gettid = syscall 178"
definition rev_sysinfo :: wrapper where "rev_sysinfo = syscall 179"
definition rev_mq_open :: wrapper where "rev_mq_open = syscall 180"
definition rev_mq_unlink :: wrapper where "rev_mq_unlink = syscall 181"
definition rev_msgget :: wrapper where "rev_msgget = syscall 186"
definition rev_old_msgctl :: wrapper where "rev_old_msgctl = syscall 187"
definition rev_msgrcv :: wrapper where "rev_msgrcv = syscall 188"
definition rev_msgsnd :: wrapper where "rev_msgsnd = syscall 189"
definition rev_semget :: wrapper where "rev_semget = syscall 190"
definition rev_semctl :: wrapper where "rev_semctl = syscall 191"
definition rev_semtimedop :: wrapper where "rev_semtimedop = syscall 192"
definition rev_semop :: wrapper where "rev_semop = syscall 193"
definition rev_shmget :: wrapper where "rev_shmget = syscall 194"
definition rev_old_shmctl :: wrapper where "rev_old_shmctl = syscall 195"
definition rev_shmat :: wrapper where "rev_shmat = syscall 196"
definition rev_shmdt :: wrapper where "rev_shmdt = syscall 197"
definition rev_socket :: wrapper where "rev_socket = syscall 198"
definition rev_socketpair :: wrapper where "rev_socketpair = syscall 199"
definition rev_bind :: wrapper where "rev_bind = syscall 200"
definition rev_listen :: wrapper where "rev_listen = syscall 201"
definition rev_accept :: wrapper where "rev_accept = syscall 202"
definition rev_connect :: wrapper where "rev_connect = syscall 203"
definition rev_getsockname :: wrapper where "rev_getsockname = syscall 204"
definition rev_getpeername :: wrapper where "rev_getpeername = syscall 205"
definition rev_sendto :: wrapper where "rev_sendto = syscall 206"
definition rev_recvfrom :: wrapper where "rev_recvfrom = syscall 207"
definition rev_setsockopt :: wrapper where "rev_setsockopt = syscall 208"
definition rev_getsockopt :: wrapper where "rev_getsockopt = syscall 209"
definition rev_shutdown :: wrapper where "rev_shutdown = syscall 210"
definition rev_sendmsg :: wrapper where "rev_sendmsg = syscall 211"
definition rev_recvmsg :: wrapper where "rev_recvmsg = syscall 212"
definition rev_readahead :: wrapper where "rev_readahead = syscall 213"
definition rev_brk :: wrapper where "rev_brk = syscall 214"
definition rev_munmap :: wrapper where "rev_munmap = syscall 215"
definition rev_mremap :: wrapper where "rev_mremap = syscall 216"
definition rev_add_key :: wrapper where "rev_add_key = syscall 217"
definition rev_request_key :: wrapper where "rev_request_key = syscall 218"
definition rev_keyctl :: wrapper where "rev_keyctl = syscall 219"
definition rev_fork :: wrapper where "rev_fork = syscall 220"
definition rev_clone :: wrapper where "rev_clone = syscall 220"
definition rev_execve :: wrapper where "rev_execve = syscall 221"
definition rev_fadvise64_64 :: wrapper where "rev_fadvise64_64 = syscall 223"
definition rev_swapon :: wrapper where "rev_swapon = syscall 224"
definition rev_swapoff :: wrapper where "rev_swapoff = syscall 225"
definition rev_mprotect :: wrapper where "rev_mprotect = syscall 226"
definition rev_msync :: wrapper where "rev_msync = syscall 227"
definition rev_mlock :: wrapper where "rev_mlock = syscall 228"
definition rev_munlock :: wrapper where "rev_munlock = syscall 229"
definition rev_mlockall :: wrapper where "rev_mlockall = syscall 230"
definition rev_munlockall :: wrapper where "rev_munlockall = syscall 231"
definition rev_mincore :: wrapper where "rev_mincore = syscall 232"
definition rev_madvise :: wrapper where "rev_madvise = syscall 233"
definition rev_remap_file_pages :: wrapper where "rev_remap_file_pages = syscall 234"
definition rev_mbind :: wrapper where "rev_mbind = syscall 235"
definition rev_get_mempolicy :: wrapper where "rev_get_mempolicy = syscall 236"
definition rev_set_mempolicy :: wrapper where "rev_set_mempolicy = syscall 237"
definition rev_migrate_pages :: wrapper where "rev_migrate_pages = syscall 238"
definition rev_move_pages :: wrapper where "rev_move_pages = syscall 239"
definition rev_rt_tgsigqueueinfo :: wrapper where "rev_rt_tgsigqueueinfo = syscall 240"
definition rev_perf_event_open :: wrapper where "rev_perf_event_open = syscall 241"
definition rev_accept4 :: wrapper where "rev_accept4 = syscall 242"
definition rev_recvmmsg_time32 :: wrapper where "rev_recvmmsg_time32 = syscall 243"
definition rev_wait4 :: wrapper where "rev_wait4 = syscall 260"
definition rev_fanotify_init :: wrapper where "rev_fanotify_init = syscall 262"
definition rev_fanotify_mark :: wrapper where "rev_fanotify_mark = syscall 263"
definition rev_name_to_handle_at :: wrapper where "rev_name_to_handle_at = syscall 264"
definition rev_open_by_handle_at :: wrapper where "rev_open_by_handle_at = syscall 265"
definition rev_clock_adjtime :: wrapper where "rev_clock_adjtime = syscall 266"
definition rev_syncfs :: wrapper where "rev_syncfs = syscall 267"
definition rev_setns :: wrapper where "rev_setns = syscall 268"
definition rev_sendmmsg :: wrapper where "rev_sendmmsg = syscall 269"
definition rev_process_vm_readv :: wrapper where "rev_process_vm_readv = syscall 270"
definition rev_process_vm_writev :: wrapper where "rev_process_vm_writev = syscall 271"
definition rev_kcmp :: wrapper where "rev_kcmp = syscall 272"
definition rev_finit_module :: wrapper where "rev_finit_module = syscall 273"
definition rev_sched_setattr :: wrapper where "rev_sched_setattr = syscall 274"
definition rev_sched_getattr :: wrapper where "rev_sched_getattr = syscall 275"
definition rev_renameat2 :: wrapper where "rev_renameat2 = syscall 276"
definition rev_seccomp :: wrapper where "rev_seccomp = syscall 277"
definition rev_getrandom :: wrapper where "rev_getrandom = syscall 278"
definition rev_memfd_create :: wrapper where "rev_memfd_create = syscall 279"
definition rev_bpf :: wrapper where "rev_bpf = syscall 280"
definition rev_execveat :: wrapper where "rev_execveat = syscall 281"
definition rev_userfaultfd :: wrapper where "rev_userfaultfd = syscall 282"
definition rev_membarrier :: wrapper where "rev_membarrier = syscall 283"
definition rev_mlock2 :: wrapper where "rev_mlock2 = syscall 284"
definition rev_copy_file_range :: wrapper where "rev_copy_file_range = syscall 285"
definition rev_preadv2 :: wrapper where "rev_preadv2 = syscall 286"
definition rev_pwritev2 :: wrapper where "rev_pwritev2 = syscall 287"
definition rev_pkey_mprotect :: wrapper where "rev_pkey_mprotect = syscall 288"
definition rev_pkey_alloc :: wrapper where "rev_pkey_alloc = syscall 289"
definition rev_pkey_free :: wrapper where "rev_pkey_free = syscall 290"
definition rev_statx :: wrapper where "rev_statx = syscall 291"
definition rev_io_pgetevents :: wrapper where "rev_io_pgetevents = syscall 292"
definition rev_rseq :: wrapper where "rev_rseq = syscall 293"
definition rev_kexec_file_load :: wrapper where "rev_kexec_file_load = syscall 294"
definition rev_pidfd_send_signal :: wrapper where "rev_pidfd_send_signal = syscall 424"
definition rev_io_uring_setup :: wrapper where "rev_io_uring_setup = syscall 425"
definition rev_io_uring_enter :: wrapper where "rev_io_uring_enter = syscall 426"
definition rev_io_uring_register :: wrapper where "rev_io_uring_register = syscall 427"
definition rev_open_tree :: wrapper where "rev_open_tree = syscall 428"
definition rev_move_mount :: wrapper where "rev_move_mount = syscall 429"
definition rev_fsopen :: wrapper where "rev_fsopen = syscall 430"
definition rev_fsconfig :: wrapper where "rev_fsconfig = syscall 431"
definition rev_fsmount :: wrapper where "rev_fsmount = syscall 432"
definition rev_fspick :: wrapper where "rev_fspick = syscall 433"
definition rev_pidfd_open :: wrapper where "rev_pidfd_open = syscall 434"
definition rev_clone3 :: wrapper where "rev_clone3 = syscall 435"
definition rev_close_range :: wrapper where "rev_close_range = syscall 436"
definition rev_openat2 :: wrapper where "rev_openat2 = syscall 437"
definition rev_pidfd_getfd :: wrapper where "rev_pidfd_getfd = syscall 438"
definition rev_faccessat2 :: wrapper where "rev_faccessat2 = syscall 439"
definition rev_process_madvise :: wrapper where "rev_process_madvise = syscall 440"
definition rev_cpuinfo :: wrapper where "rev_cpuinfo = syscall 500"
definition rev_perf_stats :: wrapper where "rev_perf_stats = syscall 501"
definition rev_pthread_create :: wrapper where "rev_pthread_create = syscall 1000"
definition rev_pthread_join :: wrapper where "rev_pthread_join = syscall 1001"

text \<open>The one wrapper that returns a pointer, by a \<^verbatim>\<open>ret\<close> inside the assembly.\<close>

definition rev_mmap :: "nat \<Rightarrow> RevInst \<Rightarrow> nat \<Rightarrow> RevProc \<Rightarrow> (u64 \<times> RevProc) result option" where
  "rev_mmap n I r P =
     map_option (\<lambda>res. res_bind res (\<lambda>Q. Inr (GetX (q_regs Q r) 10, Q))) (run_ecall n (ecall_trap I) (li_a7 222 r P))"

section \<open>Wrappers and handlers\<close>

text \<open>
  The handler of every wrapper. Five are not of the name of the wrapper: \<^verbatim>\<open>rev_llseek\<close>, \<^verbatim>\<open>rev_old_msgctl\<close>
  and \<^verbatim>\<open>rev_old_shmctl\<close> have another name for their call, \<^verbatim>\<open>rev_fork\<close> is a \<^verbatim>\<open>clone\<close>, and
  \<^verbatim>\<open>rev_sync_file_range\<close> has the number that the table gives to \<^verbatim>\<open>sync_file_range2\<close> first.
\<close>

definition wrapper_table :: "(wrapper \<times> ecall_fun) list" where
  "wrapper_table = [
     (rev_io_setup, ECALL_io_setup), (rev_io_destroy, ECALL_io_destroy), (rev_io_submit, ECALL_io_submit),
     (rev_io_cancel, ECALL_io_cancel), (rev_io_getevents, ECALL_io_getevents), (rev_setxattr, ECALL_setxattr),
     (rev_lsetxattr, ECALL_lsetxattr), (rev_fsetxattr, ECALL_fsetxattr), (rev_getxattr, ECALL_getxattr),
     (rev_lgetxattr, ECALL_lgetxattr), (rev_fgetxattr, ECALL_fgetxattr), (rev_listxattr, ECALL_listxattr),
     (rev_llistxattr, ECALL_llistxattr), (rev_flistxattr, ECALL_flistxattr), (rev_removexattr, ECALL_removexattr),
     (rev_lremovexattr, ECALL_lremovexattr), (rev_fremovexattr, ECALL_fremovexattr), (rev_getcwd, ECALL_getcwd),
     (rev_lookup_dcookie, ECALL_lookup_dcookie), (rev_eventfd2, ECALL_eventfd2),
     (rev_epoll_create1, ECALL_epoll_create1), (rev_epoll_ctl, ECALL_epoll_ctl),
     (rev_epoll_pwait, ECALL_epoll_pwait), (rev_dup, ECALL_dup), (rev_dup3, ECALL_dup3),
     (rev_fcntl64, ECALL_fcntl64), (rev_inotify_init1, ECALL_inotify_init1),
     (rev_inotify_add_watch, ECALL_inotify_add_watch), (rev_inotify_rm_watch, ECALL_inotify_rm_watch),
     (rev_ioctl, ECALL_ioctl), (rev_ioprio_set, ECALL_ioprio_set), (rev_ioprio_get, ECALL_ioprio_get),
     (rev_flock, ECALL_flock), (rev_mknodat, ECALL_mknodat), (rev_mkdirat, ECALL_mkdirat),
     (rev_unlinkat, ECALL_unlinkat), (rev_symlinkat, ECALL_symlinkat), (rev_renameat, ECALL_renameat),
     (rev_umount, ECALL_umount), (rev_pivot_root, ECALL_pivot_root), (rev_ni_syscall, ECALL_ni_syscall),
     (rev_statfs64, ECALL_statfs64), (rev_fstatfs64, ECALL_fstatfs64), (rev_truncate64, ECALL_truncate64),
     (rev_ftruncate64, ECALL_ftruncate64), (rev_fallocate, ECALL_fallocate), (rev_faccessat, ECALL_faccessat),
     (rev_chdir, ECALL_chdir), (rev_fchdir, ECALL_fchdir), (rev_chroot, ECALL_chroot), (rev_fchmod, ECALL_fchmod),
     (rev_fchmodat, ECALL_fchmodat), (rev_fchownat, ECALL_fchownat), (rev_fchown, ECALL_fchown),
     (rev_openat, ECALL_openat), (rev_close, ECALL_close), (rev_vhangup, ECALL_vhangup), (rev_pipe2, ECALL_pipe2),
     (rev_quotactl, ECALL_quotactl), (rev_getdents64, ECALL_getdents64), (rev_llseek, ECALL_lseek),
     (rev_read, ECALL_read), (rev_write, ECALL_write), (rev_readv, ECALL_readv), (rev_writev, ECALL_writev),
     (rev_pread64, ECALL_pread64), (rev_pwrite64, ECALL_pwrite64), (rev_preadv, ECALL_preadv),
     (rev_pwritev, ECALL_pwritev), (rev_sendfile64, ECALL_sendfile64), (rev_pselect6_time32, ECALL_pselect6_time32),
     (rev_ppoll_time32, ECALL_ppoll_time32), (rev_signalfd4, ECALL_signalfd4), (rev_vmsplice, ECALL_vmsplice),
     (rev_tee, ECALL_tee), (rev_readlinkat, ECALL_readlinkat), (rev_newfstatat, ECALL_newfstatat),
     (rev_newfstat, ECALL_newfstat), (rev_sync, ECALL_sync), (rev_fsync, ECALL_fsync),
     (rev_fdatasync, ECALL_fdatasync), (rev_sync_file_range2, ECALL_sync_file_range2),
     (rev_timerfd_create, ECALL_timerfd_create), (rev_timerfd_settime, ECALL_timerfd_settime),
     (rev_timerfd_gettime, ECALL_timerfd_gettime), (rev_utimensat, ECALL_utimensat), (rev_acct, ECALL_acct),
     (rev_capget, ECALL_capget), (rev_capset, ECALL_capset), (rev_personality, ECALL_personality),
     (rev_exit, ECALL_exit), (rev_exit_group, ECALL_exit_group), (rev_waitid, ECALL_waitid),
     (rev_set_tid_address, ECALL_set_tid_address), (rev_unshare, ECALL_unshare),
     (rev_set_robust_list, ECALL_set_robust_list), (rev_get_robust_list, ECALL_get_robust_list),
     (rev_nanosleep, ECALL_nanosleep), (rev_getitimer, ECALL_getitimer), (rev_setitimer, ECALL_setitimer),
     (rev_kexec_load, ECALL_kexec_load), (rev_init_module, ECALL_init_module),
     (rev_delete_module, ECALL_delete_module), (rev_timer_create, ECALL_timer_create),
     (rev_timer_gettime, ECALL_timer_gettime), (rev_timer_getoverrun, ECALL_timer_getoverrun),
     (rev_timer_settime, ECALL_timer_settime), (rev_timer_delete, ECALL_timer_delete),
     (rev_clock_settime, ECALL_clock_settime), (rev_clock_gettime, ECALL_clock_gettime),
     (rev_clock_getres, ECALL_clock_getres), (rev_clock_nanosleep, ECALL_clock_nanosleep),
     (rev_syslog, ECALL_syslog), (rev_ptrace, ECALL_ptrace), (rev_sched_setparam, ECALL_sched_setparam),
     (rev_sched_setscheduler, ECALL_sched_setscheduler), (rev_sched_getscheduler, ECALL_sched_getscheduler),
     (rev_sched_getparam, ECALL_sched_getparam), (rev_sched_setaffinity, ECALL_sched_setaffinity),
     (rev_sched_getaffinity, ECALL_sched_getaffinity), (rev_sched_yield, ECALL_sched_yield),
     (rev_sched_get_priority_max, ECALL_sched_get_priority_max),
     (rev_sched_get_priority_min, ECALL_sched_get_priority_min),
     (rev_sched_rr_get_interval, ECALL_sched_rr_get_interval), (rev_restart_syscall, ECALL_restart_syscall),
     (rev_kill, ECALL_kill), (rev_tkill, ECALL_tkill), (rev_tgkill, ECALL_tgkill),
     (rev_sigaltstack, ECALL_sigaltstack), (rev_rt_sigsuspend, ECALL_rt_sigsuspend),
     (rev_rt_sigaction, ECALL_rt_sigaction), (rev_rt_sigprocmask, ECALL_rt_sigprocmask),
     (rev_rt_sigpending, ECALL_rt_sigpending), (rev_rt_sigtimedwait_time32, ECALL_rt_sigtimedwait_time32),
     (rev_rt_sigqueueinfo, ECALL_rt_sigqueueinfo), (rev_setpriority, ECALL_setpriority),
     (rev_getpriority, ECALL_getpriority), (rev_reboot, ECALL_reboot), (rev_setregid, ECALL_setregid),
     (rev_setgid, ECALL_setgid), (rev_setreuid, ECALL_setreuid), (rev_setuid, ECALL_setuid),
     (rev_setresuid, ECALL_setresuid), (rev_getresuid, ECALL_getresuid), (rev_setresgid, ECALL_setresgid),
     (rev_getresgid, ECALL_getresgid), (rev_setfsuid, ECALL_setfsuid), (rev_setfsgid, ECALL_setfsgid),
     (rev_times, ECALL_times), (rev_setpgid, ECALL_setpgid), (rev_getpgid, ECALL_getpgid),
     (rev_getsid, ECALL_getsid), (rev_setsid, ECALL_setsid), (rev_getgroups, ECALL_getgroups),
     (rev_setgroups, ECALL_setgroups), (rev_newuname, ECALL_newuname), (rev_sethostname, ECALL_sethostname),
     (rev_setdomainname, ECALL_setdomainname), (rev_getrlimit, ECALL_getrlimit), (rev_setrlimit, ECALL_setrlimit),
     (rev_getrusage, ECALL_getrusage), (rev_umask, ECALL_umask), (rev_prctl, ECALL_prctl),
     (rev_getcpu, ECALL_getcpu), (rev_gettimeofday, ECALL_gettimeofday), (rev_settimeofday, ECALL_settimeofday),
     (rev_adjtimex, ECALL_adjtimex), (rev_getpid, ECALL_getpid), (rev_getppid, ECALL_getppid),
     (rev_getuid, ECALL_getuid), (rev_geteuid, ECALL_geteuid), (rev_getgid, ECALL_getgid),
     (rev_getegid, ECALL_getegid), (rev_gettid, ECALL_gettid), (rev_sysinfo, ECALL_sysinfo),
     (rev_mq_open, ECALL_mq_open), (rev_mq_unlink, ECALL_mq_unlink), (rev_msgget, ECALL_msgget),
     (rev_old_msgctl, ECALL_msgctl), (rev_msgrcv, ECALL_msgrcv), (rev_msgsnd, ECALL_msgsnd),
     (rev_semget, ECALL_semget), (rev_semctl, ECALL_semctl), (rev_semtimedop, ECALL_semtimedop),
     (rev_semop, ECALL_semop), (rev_shmget, ECALL_shmget), (rev_old_shmctl, ECALL_shmctl), (rev_shmat, ECALL_shmat),
     (rev_shmdt, ECALL_shmdt), (rev_socket, ECALL_socket), (rev_socketpair, ECALL_socketpair),
     (rev_bind, ECALL_bind), (rev_listen, ECALL_listen), (rev_accept, ECALL_accept), (rev_connect, ECALL_connect),
     (rev_getsockname, ECALL_getsockname), (rev_getpeername, ECALL_getpeername), (rev_sendto, ECALL_sendto),
     (rev_recvfrom, ECALL_recvfrom), (rev_setsockopt, ECALL_setsockopt), (rev_getsockopt, ECALL_getsockopt),
     (rev_shutdown, ECALL_shutdown), (rev_sendmsg, ECALL_sendmsg), (rev_recvmsg, ECALL_recvmsg),
     (rev_readahead, ECALL_readahead), (rev_brk, ECALL_brk), (rev_munmap, ECALL_munmap), (rev_mremap, ECALL_mremap),
     (rev_add_key, ECALL_add_key), (rev_request_key, ECALL_request_key), (rev_keyctl, ECALL_keyctl),
     (rev_clone, ECALL_clone), (rev_execve, ECALL_execve), (rev_fadvise64_64, ECALL_fadvise64_64),
     (rev_swapon, ECALL_swapon), (rev_swapoff, ECALL_swapoff), (rev_mprotect, ECALL_mprotect),
     (rev_msync, ECALL_msync), (rev_mlock, ECALL_mlock), (rev_munlock, ECALL_munlock),
     (rev_mlockall, ECALL_mlockall), (rev_munlockall, ECALL_munlockall), (rev_mincore, ECALL_mincore),
     (rev_madvise, ECALL_madvise), (rev_remap_file_pages, ECALL_remap_file_pages), (rev_mbind, ECALL_mbind),
     (rev_get_mempolicy, ECALL_get_mempolicy), (rev_set_mempolicy, ECALL_set_mempolicy),
     (rev_migrate_pages, ECALL_migrate_pages), (rev_move_pages, ECALL_move_pages),
     (rev_rt_tgsigqueueinfo, ECALL_rt_tgsigqueueinfo), (rev_perf_event_open, ECALL_perf_event_open),
     (rev_accept4, ECALL_accept4), (rev_recvmmsg_time32, ECALL_recvmmsg_time32), (rev_wait4, ECALL_wait4),
     (rev_fanotify_init, ECALL_fanotify_init), (rev_fanotify_mark, ECALL_fanotify_mark),
     (rev_name_to_handle_at, ECALL_name_to_handle_at), (rev_open_by_handle_at, ECALL_open_by_handle_at),
     (rev_clock_adjtime, ECALL_clock_adjtime), (rev_syncfs, ECALL_syncfs), (rev_setns, ECALL_setns),
     (rev_sendmmsg, ECALL_sendmmsg), (rev_process_vm_readv, ECALL_process_vm_readv),
     (rev_process_vm_writev, ECALL_process_vm_writev), (rev_kcmp, ECALL_kcmp),
     (rev_finit_module, ECALL_finit_module), (rev_sched_setattr, ECALL_sched_setattr),
     (rev_sched_getattr, ECALL_sched_getattr), (rev_renameat2, ECALL_renameat2), (rev_seccomp, ECALL_seccomp),
     (rev_getrandom, ECALL_getrandom), (rev_memfd_create, ECALL_memfd_create), (rev_bpf, ECALL_bpf),
     (rev_execveat, ECALL_execveat), (rev_userfaultfd, ECALL_userfaultfd), (rev_membarrier, ECALL_membarrier),
     (rev_mlock2, ECALL_mlock2), (rev_copy_file_range, ECALL_copy_file_range), (rev_preadv2, ECALL_preadv2),
     (rev_pwritev2, ECALL_pwritev2), (rev_pkey_mprotect, ECALL_pkey_mprotect), (rev_pkey_alloc, ECALL_pkey_alloc),
     (rev_pkey_free, ECALL_pkey_free), (rev_statx, ECALL_statx), (rev_io_pgetevents, ECALL_io_pgetevents),
     (rev_rseq, ECALL_rseq), (rev_kexec_file_load, ECALL_kexec_file_load),
     (rev_pidfd_send_signal, ECALL_pidfd_send_signal), (rev_io_uring_setup, ECALL_io_uring_setup),
     (rev_io_uring_enter, ECALL_io_uring_enter), (rev_io_uring_register, ECALL_io_uring_register),
     (rev_open_tree, ECALL_open_tree), (rev_move_mount, ECALL_move_mount), (rev_fsopen, ECALL_fsopen),
     (rev_fsconfig, ECALL_fsconfig), (rev_fsmount, ECALL_fsmount), (rev_fspick, ECALL_fspick),
     (rev_pidfd_open, ECALL_pidfd_open), (rev_clone3, ECALL_clone3), (rev_close_range, ECALL_close_range),
     (rev_openat2, ECALL_openat2), (rev_pidfd_getfd, ECALL_pidfd_getfd), (rev_faccessat2, ECALL_faccessat2),
     (rev_process_madvise, ECALL_process_madvise), (rev_cpuinfo, ECALL_cpuinfo), (rev_perf_stats, ECALL_perf_stats),
     (rev_pthread_create, ECALL_pthread_create), (rev_pthread_join, ECALL_pthread_join),
     (rev_sync_file_range, ECALL_sync_file_range2), (rev_fork, ECALL_clone)]"

text \<open>The wrappers of calls that the simulator does not implement.\<close>

definition stub_wrappers :: "wrapper list" where
  "stub_wrappers = [
     rev_io_setup, rev_io_destroy, rev_io_submit, rev_io_cancel, rev_io_getevents, rev_setxattr, rev_lsetxattr,
     rev_fsetxattr, rev_getxattr, rev_lgetxattr, rev_fgetxattr, rev_listxattr, rev_llistxattr, rev_flistxattr,
     rev_removexattr, rev_lremovexattr, rev_fremovexattr, rev_lookup_dcookie, rev_eventfd2, rev_epoll_create1,
     rev_epoll_ctl, rev_epoll_pwait, rev_dup, rev_dup3, rev_fcntl64, rev_inotify_init1, rev_inotify_add_watch,
     rev_inotify_rm_watch, rev_ioctl, rev_ioprio_set, rev_ioprio_get, rev_flock, rev_mknodat, rev_unlinkat,
     rev_symlinkat, rev_renameat, rev_umount, rev_pivot_root, rev_ni_syscall, rev_statfs64, rev_fstatfs64,
     rev_truncate64, rev_ftruncate64, rev_fallocate, rev_faccessat, rev_fchdir, rev_chroot, rev_fchmod, rev_fchmodat,
     rev_fchownat, rev_fchown, rev_vhangup, rev_pipe2, rev_quotactl, rev_getdents64, rev_llseek, rev_readv,
     rev_writev, rev_pread64, rev_pwrite64, rev_preadv, rev_pwritev, rev_sendfile64, rev_pselect6_time32,
     rev_ppoll_time32, rev_signalfd4, rev_vmsplice, rev_tee, rev_readlinkat, rev_newfstatat, rev_newfstat, rev_sync,
     rev_fsync, rev_fdatasync, rev_sync_file_range2, rev_timerfd_create, rev_timerfd_settime, rev_timerfd_gettime,
     rev_utimensat, rev_acct, rev_capget, rev_capset, rev_personality, rev_exit_group, rev_waitid,
     rev_set_tid_address, rev_unshare, rev_set_robust_list, rev_get_robust_list, rev_nanosleep, rev_getitimer,
     rev_setitimer, rev_kexec_load, rev_init_module, rev_delete_module, rev_timer_create, rev_timer_gettime,
     rev_timer_getoverrun, rev_timer_settime, rev_timer_delete, rev_clock_settime, rev_clock_getres,
     rev_clock_nanosleep, rev_syslog, rev_ptrace, rev_sched_setparam, rev_sched_setscheduler, rev_sched_getscheduler,
     rev_sched_getparam, rev_sched_setaffinity, rev_sched_getaffinity, rev_sched_yield, rev_sched_get_priority_max,
     rev_sched_get_priority_min, rev_sched_rr_get_interval, rev_restart_syscall, rev_kill, rev_tkill, rev_tgkill,
     rev_sigaltstack, rev_rt_sigsuspend, rev_rt_sigaction, rev_rt_sigprocmask, rev_rt_sigpending,
     rev_rt_sigtimedwait_time32, rev_rt_sigqueueinfo, rev_setpriority, rev_getpriority, rev_reboot, rev_setregid,
     rev_setgid, rev_setreuid, rev_setuid, rev_setresuid, rev_getresuid, rev_setresgid, rev_getresgid, rev_setfsuid,
     rev_setfsgid, rev_times, rev_setpgid, rev_getpgid, rev_getsid, rev_setsid, rev_getgroups, rev_setgroups,
     rev_newuname, rev_sethostname, rev_setdomainname, rev_getrlimit, rev_setrlimit, rev_getrusage, rev_umask,
     rev_prctl, rev_getcpu, rev_gettimeofday, rev_settimeofday, rev_adjtimex, rev_getpid, rev_getppid, rev_getuid,
     rev_geteuid, rev_getgid, rev_getegid, rev_sysinfo, rev_mq_open, rev_mq_unlink, rev_msgget, rev_old_msgctl,
     rev_msgrcv, rev_msgsnd, rev_semget, rev_semctl, rev_semtimedop, rev_semop, rev_shmget, rev_old_shmctl,
     rev_shmat, rev_shmdt, rev_socket, rev_socketpair, rev_bind, rev_listen, rev_accept, rev_connect,
     rev_getsockname, rev_getpeername, rev_sendto, rev_recvfrom, rev_setsockopt, rev_getsockopt, rev_shutdown,
     rev_sendmsg, rev_recvmsg, rev_readahead, rev_mremap, rev_add_key, rev_request_key, rev_keyctl, rev_clone,
     rev_execve, rev_fadvise64_64, rev_swapon, rev_swapoff, rev_mprotect, rev_msync, rev_mlock, rev_munlock,
     rev_mlockall, rev_munlockall, rev_mincore, rev_madvise, rev_remap_file_pages, rev_mbind, rev_get_mempolicy,
     rev_set_mempolicy, rev_migrate_pages, rev_move_pages, rev_rt_tgsigqueueinfo, rev_perf_event_open, rev_accept4,
     rev_recvmmsg_time32, rev_wait4, rev_fanotify_init, rev_fanotify_mark, rev_name_to_handle_at,
     rev_open_by_handle_at, rev_clock_adjtime, rev_syncfs, rev_setns, rev_sendmmsg, rev_process_vm_readv,
     rev_process_vm_writev, rev_kcmp, rev_finit_module, rev_sched_setattr, rev_sched_getattr, rev_renameat2,
     rev_seccomp, rev_getrandom, rev_memfd_create, rev_bpf, rev_execveat, rev_userfaultfd, rev_membarrier,
     rev_mlock2, rev_copy_file_range, rev_preadv2, rev_pwritev2, rev_pkey_mprotect, rev_pkey_alloc, rev_pkey_free,
     rev_statx, rev_io_pgetevents, rev_rseq, rev_kexec_file_load, rev_pidfd_send_signal, rev_io_uring_setup,
     rev_io_uring_enter, rev_io_uring_register, rev_open_tree, rev_move_mount, rev_fsopen, rev_fsconfig, rev_fsmount,
     rev_fspick, rev_pidfd_open, rev_clone3, rev_close_range, rev_openat2, rev_pidfd_getfd, rev_faccessat2,
     rev_process_madvise, rev_sync_file_range, rev_fork]"

lemmas wrapper_defs =
  rev_io_setup_def rev_io_destroy_def rev_io_submit_def rev_io_cancel_def rev_io_getevents_def rev_setxattr_def
  rev_lsetxattr_def rev_fsetxattr_def rev_getxattr_def rev_lgetxattr_def rev_fgetxattr_def rev_listxattr_def
  rev_llistxattr_def rev_flistxattr_def rev_removexattr_def rev_lremovexattr_def rev_fremovexattr_def
  rev_getcwd_def rev_lookup_dcookie_def rev_eventfd2_def rev_epoll_create1_def rev_epoll_ctl_def
  rev_epoll_pwait_def rev_dup_def rev_dup3_def rev_fcntl64_def rev_inotify_init1_def rev_inotify_add_watch_def
  rev_inotify_rm_watch_def rev_ioctl_def rev_ioprio_set_def rev_ioprio_get_def rev_flock_def rev_mknodat_def
  rev_mkdirat_def rev_unlinkat_def rev_symlinkat_def rev_renameat_def rev_umount_def rev_pivot_root_def
  rev_ni_syscall_def rev_statfs64_def rev_fstatfs64_def rev_truncate64_def rev_ftruncate64_def
  rev_fallocate_def rev_faccessat_def rev_chdir_def rev_fchdir_def rev_chroot_def rev_fchmod_def
  rev_fchmodat_def rev_fchownat_def rev_fchown_def rev_openat_def rev_close_def rev_vhangup_def rev_pipe2_def
  rev_quotactl_def rev_getdents64_def rev_llseek_def rev_read_def rev_write_def rev_readv_def rev_writev_def
  rev_pread64_def rev_pwrite64_def rev_preadv_def rev_pwritev_def rev_sendfile64_def rev_pselect6_time32_def
  rev_ppoll_time32_def rev_signalfd4_def rev_vmsplice_def rev_tee_def rev_readlinkat_def rev_newfstatat_def
  rev_newfstat_def rev_sync_def rev_fsync_def rev_fdatasync_def rev_sync_file_range2_def
  rev_sync_file_range_def rev_timerfd_create_def rev_timerfd_settime_def rev_timerfd_gettime_def
  rev_utimensat_def rev_acct_def rev_capget_def rev_capset_def rev_personality_def rev_exit_def
  rev_exit_group_def rev_waitid_def rev_set_tid_address_def rev_unshare_def rev_set_robust_list_def
  rev_get_robust_list_def rev_nanosleep_def rev_getitimer_def rev_setitimer_def rev_kexec_load_def
  rev_init_module_def rev_delete_module_def rev_timer_create_def rev_timer_gettime_def rev_timer_getoverrun_def
  rev_timer_settime_def rev_timer_delete_def rev_clock_settime_def rev_clock_gettime_def rev_clock_getres_def
  rev_clock_nanosleep_def rev_syslog_def rev_ptrace_def rev_sched_setparam_def rev_sched_setscheduler_def
  rev_sched_getscheduler_def rev_sched_getparam_def rev_sched_setaffinity_def rev_sched_getaffinity_def
  rev_sched_yield_def rev_sched_get_priority_max_def rev_sched_get_priority_min_def rev_sched_rr_get_interval_def
  rev_restart_syscall_def rev_kill_def rev_tkill_def rev_tgkill_def rev_sigaltstack_def rev_rt_sigsuspend_def
  rev_rt_sigaction_def rev_rt_sigprocmask_def rev_rt_sigpending_def rev_rt_sigtimedwait_time32_def
  rev_rt_sigqueueinfo_def rev_setpriority_def rev_getpriority_def rev_reboot_def rev_setregid_def
  rev_setgid_def rev_setreuid_def rev_setuid_def rev_setresuid_def rev_getresuid_def rev_setresgid_def
  rev_getresgid_def rev_setfsuid_def rev_setfsgid_def rev_times_def rev_setpgid_def rev_getpgid_def
  rev_getsid_def rev_setsid_def rev_getgroups_def rev_setgroups_def rev_newuname_def rev_sethostname_def
  rev_setdomainname_def rev_getrlimit_def rev_setrlimit_def rev_getrusage_def rev_umask_def rev_prctl_def
  rev_getcpu_def rev_gettimeofday_def rev_settimeofday_def rev_adjtimex_def rev_getpid_def rev_getppid_def
  rev_getuid_def rev_geteuid_def rev_getgid_def rev_getegid_def rev_gettid_def rev_sysinfo_def rev_mq_open_def
  rev_mq_unlink_def rev_msgget_def rev_old_msgctl_def rev_msgrcv_def rev_msgsnd_def rev_semget_def
  rev_semctl_def rev_semtimedop_def rev_semop_def rev_shmget_def rev_old_shmctl_def rev_shmat_def
  rev_shmdt_def rev_socket_def rev_socketpair_def rev_bind_def rev_listen_def rev_accept_def rev_connect_def
  rev_getsockname_def rev_getpeername_def rev_sendto_def rev_recvfrom_def rev_setsockopt_def rev_getsockopt_def
  rev_shutdown_def rev_sendmsg_def rev_recvmsg_def rev_readahead_def rev_brk_def rev_munmap_def rev_mremap_def
  rev_add_key_def rev_request_key_def rev_keyctl_def rev_fork_def rev_clone_def rev_execve_def
  rev_fadvise64_64_def rev_swapon_def rev_swapoff_def rev_mprotect_def rev_msync_def rev_mlock_def
  rev_munlock_def rev_mlockall_def rev_munlockall_def rev_mincore_def rev_madvise_def rev_remap_file_pages_def
  rev_mbind_def rev_get_mempolicy_def rev_set_mempolicy_def rev_migrate_pages_def rev_move_pages_def
  rev_rt_tgsigqueueinfo_def rev_perf_event_open_def rev_accept4_def rev_recvmmsg_time32_def rev_wait4_def
  rev_fanotify_init_def rev_fanotify_mark_def rev_name_to_handle_at_def rev_open_by_handle_at_def
  rev_clock_adjtime_def rev_syncfs_def rev_setns_def rev_sendmmsg_def rev_process_vm_readv_def
  rev_process_vm_writev_def rev_kcmp_def rev_finit_module_def rev_sched_setattr_def rev_sched_getattr_def
  rev_renameat2_def rev_seccomp_def rev_getrandom_def rev_memfd_create_def rev_bpf_def rev_execveat_def
  rev_userfaultfd_def rev_membarrier_def rev_mlock2_def rev_copy_file_range_def rev_preadv2_def
  rev_pwritev2_def rev_pkey_mprotect_def rev_pkey_alloc_def rev_pkey_free_def rev_statx_def
  rev_io_pgetevents_def rev_rseq_def rev_kexec_file_load_def rev_pidfd_send_signal_def rev_io_uring_setup_def
  rev_io_uring_enter_def rev_io_uring_register_def rev_open_tree_def rev_move_mount_def rev_fsopen_def
  rev_fsconfig_def rev_fsmount_def rev_fspick_def rev_pidfd_open_def rev_clone3_def rev_close_range_def
  rev_openat2_def rev_pidfd_getfd_def rev_faccessat2_def rev_process_madvise_def rev_cpuinfo_def
  rev_perf_stats_def rev_pthread_create_def rev_pthread_join_def

text \<open>The numbers of the wrappers, in the order of the call table.\<close>

definition wrapper_numbers :: "(u32 \<times> ecall_fun) list" where
  "wrapper_numbers = [
     (0, ECALL_io_setup), (1, ECALL_io_destroy), (2, ECALL_io_submit), (3, ECALL_io_cancel), (4, ECALL_io_getevents),
     (5, ECALL_setxattr), (6, ECALL_lsetxattr), (7, ECALL_fsetxattr), (8, ECALL_getxattr), (9, ECALL_lgetxattr),
     (10, ECALL_fgetxattr), (11, ECALL_listxattr), (12, ECALL_llistxattr), (13, ECALL_flistxattr),
     (14, ECALL_removexattr), (15, ECALL_lremovexattr), (16, ECALL_fremovexattr), (17, ECALL_getcwd),
     (18, ECALL_lookup_dcookie), (19, ECALL_eventfd2), (20, ECALL_epoll_create1), (21, ECALL_epoll_ctl),
     (22, ECALL_epoll_pwait), (23, ECALL_dup), (24, ECALL_dup3), (25, ECALL_fcntl64), (26, ECALL_inotify_init1),
     (27, ECALL_inotify_add_watch), (28, ECALL_inotify_rm_watch), (29, ECALL_ioctl), (30, ECALL_ioprio_set),
     (31, ECALL_ioprio_get), (32, ECALL_flock), (33, ECALL_mknodat), (34, ECALL_mkdirat), (35, ECALL_unlinkat),
     (36, ECALL_symlinkat), (38, ECALL_renameat), (39, ECALL_umount), (41, ECALL_pivot_root), (42, ECALL_ni_syscall),
     (43, ECALL_statfs64), (44, ECALL_fstatfs64), (45, ECALL_truncate64), (46, ECALL_ftruncate64),
     (47, ECALL_fallocate), (48, ECALL_faccessat), (49, ECALL_chdir), (50, ECALL_fchdir), (51, ECALL_chroot),
     (52, ECALL_fchmod), (53, ECALL_fchmodat), (54, ECALL_fchownat), (55, ECALL_fchown), (56, ECALL_openat),
     (57, ECALL_close), (58, ECALL_vhangup), (59, ECALL_pipe2), (60, ECALL_quotactl), (61, ECALL_getdents64),
     (62, ECALL_lseek), (63, ECALL_read), (64, ECALL_write), (65, ECALL_readv), (66, ECALL_writev),
     (67, ECALL_pread64), (68, ECALL_pwrite64), (69, ECALL_preadv), (70, ECALL_pwritev), (71, ECALL_sendfile64),
     (72, ECALL_pselect6_time32), (73, ECALL_ppoll_time32), (74, ECALL_signalfd4), (75, ECALL_vmsplice),
     (77, ECALL_tee), (78, ECALL_readlinkat), (79, ECALL_newfstatat), (80, ECALL_newfstat), (81, ECALL_sync),
     (82, ECALL_fsync), (83, ECALL_fdatasync), (84, ECALL_sync_file_range2), (85, ECALL_timerfd_create),
     (86, ECALL_timerfd_settime), (87, ECALL_timerfd_gettime), (88, ECALL_utimensat), (89, ECALL_acct),
     (90, ECALL_capget), (91, ECALL_capset), (92, ECALL_personality), (93, ECALL_exit), (94, ECALL_exit_group),
     (95, ECALL_waitid), (96, ECALL_set_tid_address), (97, ECALL_unshare), (99, ECALL_set_robust_list),
     (100, ECALL_get_robust_list), (101, ECALL_nanosleep), (102, ECALL_getitimer), (103, ECALL_setitimer),
     (104, ECALL_kexec_load), (105, ECALL_init_module), (106, ECALL_delete_module), (107, ECALL_timer_create),
     (108, ECALL_timer_gettime), (109, ECALL_timer_getoverrun), (110, ECALL_timer_settime),
     (111, ECALL_timer_delete), (112, ECALL_clock_settime), (113, ECALL_clock_gettime), (114, ECALL_clock_getres),
     (115, ECALL_clock_nanosleep), (116, ECALL_syslog), (117, ECALL_ptrace), (118, ECALL_sched_setparam),
     (119, ECALL_sched_setscheduler), (120, ECALL_sched_getscheduler), (121, ECALL_sched_getparam),
     (122, ECALL_sched_setaffinity), (123, ECALL_sched_getaffinity), (124, ECALL_sched_yield),
     (125, ECALL_sched_get_priority_max), (126, ECALL_sched_get_priority_min), (127, ECALL_sched_rr_get_interval),
     (128, ECALL_restart_syscall), (129, ECALL_kill), (130, ECALL_tkill), (131, ECALL_tgkill),
     (132, ECALL_sigaltstack), (133, ECALL_rt_sigsuspend), (134, ECALL_rt_sigaction), (135, ECALL_rt_sigprocmask),
     (136, ECALL_rt_sigpending), (137, ECALL_rt_sigtimedwait_time32), (138, ECALL_rt_sigqueueinfo),
     (140, ECALL_setpriority), (141, ECALL_getpriority), (142, ECALL_reboot), (143, ECALL_setregid),
     (144, ECALL_setgid), (145, ECALL_setreuid), (146, ECALL_setuid), (147, ECALL_setresuid), (148, ECALL_getresuid),
     (149, ECALL_setresgid), (150, ECALL_getresgid), (151, ECALL_setfsuid), (152, ECALL_setfsgid),
     (153, ECALL_times), (154, ECALL_setpgid), (155, ECALL_getpgid), (156, ECALL_getsid), (157, ECALL_setsid),
     (158, ECALL_getgroups), (159, ECALL_setgroups), (160, ECALL_newuname), (161, ECALL_sethostname),
     (162, ECALL_setdomainname), (163, ECALL_getrlimit), (164, ECALL_setrlimit), (165, ECALL_getrusage),
     (166, ECALL_umask), (167, ECALL_prctl), (168, ECALL_getcpu), (169, ECALL_gettimeofday),
     (170, ECALL_settimeofday), (171, ECALL_adjtimex), (172, ECALL_getpid), (173, ECALL_getppid),
     (174, ECALL_getuid), (175, ECALL_geteuid), (176, ECALL_getgid), (177, ECALL_getegid), (178, ECALL_gettid),
     (179, ECALL_sysinfo), (180, ECALL_mq_open), (181, ECALL_mq_unlink), (186, ECALL_msgget), (187, ECALL_msgctl),
     (188, ECALL_msgrcv), (189, ECALL_msgsnd), (190, ECALL_semget), (191, ECALL_semctl), (192, ECALL_semtimedop),
     (193, ECALL_semop), (194, ECALL_shmget), (195, ECALL_shmctl), (196, ECALL_shmat), (197, ECALL_shmdt),
     (198, ECALL_socket), (199, ECALL_socketpair), (200, ECALL_bind), (201, ECALL_listen), (202, ECALL_accept),
     (203, ECALL_connect), (204, ECALL_getsockname), (205, ECALL_getpeername), (206, ECALL_sendto),
     (207, ECALL_recvfrom), (208, ECALL_setsockopt), (209, ECALL_getsockopt), (210, ECALL_shutdown),
     (211, ECALL_sendmsg), (212, ECALL_recvmsg), (213, ECALL_readahead), (214, ECALL_brk), (215, ECALL_munmap),
     (216, ECALL_mremap), (217, ECALL_add_key), (218, ECALL_request_key), (219, ECALL_keyctl), (220, ECALL_clone),
     (221, ECALL_execve), (223, ECALL_fadvise64_64), (224, ECALL_swapon), (225, ECALL_swapoff),
     (226, ECALL_mprotect), (227, ECALL_msync), (228, ECALL_mlock), (229, ECALL_munlock), (230, ECALL_mlockall),
     (231, ECALL_munlockall), (232, ECALL_mincore), (233, ECALL_madvise), (234, ECALL_remap_file_pages),
     (235, ECALL_mbind), (236, ECALL_get_mempolicy), (237, ECALL_set_mempolicy), (238, ECALL_migrate_pages),
     (239, ECALL_move_pages), (240, ECALL_rt_tgsigqueueinfo), (241, ECALL_perf_event_open), (242, ECALL_accept4),
     (243, ECALL_recvmmsg_time32), (260, ECALL_wait4), (262, ECALL_fanotify_init), (263, ECALL_fanotify_mark),
     (264, ECALL_name_to_handle_at), (265, ECALL_open_by_handle_at), (266, ECALL_clock_adjtime), (267, ECALL_syncfs),
     (268, ECALL_setns), (269, ECALL_sendmmsg), (270, ECALL_process_vm_readv), (271, ECALL_process_vm_writev),
     (272, ECALL_kcmp), (273, ECALL_finit_module), (274, ECALL_sched_setattr), (275, ECALL_sched_getattr),
     (276, ECALL_renameat2), (277, ECALL_seccomp), (278, ECALL_getrandom), (279, ECALL_memfd_create),
     (280, ECALL_bpf), (281, ECALL_execveat), (282, ECALL_userfaultfd), (283, ECALL_membarrier), (284, ECALL_mlock2),
     (285, ECALL_copy_file_range), (286, ECALL_preadv2), (287, ECALL_pwritev2), (288, ECALL_pkey_mprotect),
     (289, ECALL_pkey_alloc), (290, ECALL_pkey_free), (291, ECALL_statx), (292, ECALL_io_pgetevents),
     (293, ECALL_rseq), (294, ECALL_kexec_file_load), (424, ECALL_pidfd_send_signal), (425, ECALL_io_uring_setup),
     (426, ECALL_io_uring_enter), (427, ECALL_io_uring_register), (428, ECALL_open_tree), (429, ECALL_move_mount),
     (430, ECALL_fsopen), (431, ECALL_fsconfig), (432, ECALL_fsmount), (433, ECALL_fspick), (434, ECALL_pidfd_open),
     (435, ECALL_clone3), (436, ECALL_close_range), (437, ECALL_openat2), (438, ECALL_pidfd_getfd),
     (439, ECALL_faccessat2), (440, ECALL_process_madvise), (500, ECALL_cpuinfo), (501, ECALL_perf_stats),
     (1000, ECALL_pthread_create), (1001, ECALL_pthread_join)]"

text \<open>The call table without the second entry for one of its numbers.\<close>

lemma map_of_dup: "k \<in> fst ` set A \<Longrightarrow> map_of (A @ (k, v) # B) = map_of (A @ B)"
  by (rule ext) (auto simp: map_add_def map_of_append split: option.splits dest: weak_map_of_SomeI)

lemma Ecalls_unique: "Ecalls = map_of (take 85 EcallTable @ drop 86 EcallTable)"
proof -
  have "EcallTable = take 85 EcallTable @ EcallTable ! 85 # drop (Suc 85) EcallTable"
    by (rule id_take_nth_drop) (simp add: EcallTable_def)
  moreover have "EcallTable ! 85 = (84, ECALL_sync_file_range)" by (simp add: EcallTable_def)
  moreover have "84 \<in> fst ` set (take 85 EcallTable)" by (simp add: EcallTable_def)
  ultimately have "EcallTable = take 85 EcallTable @ (84, ECALL_sync_file_range) # drop 86 EcallTable" "84 \<in> fst ` set (take 85 EcallTable)"
    by simp_all
  then show ?thesis unfolding Ecalls_def by (metis map_of_dup)
qed

lemma keys_sorted: "successively (<) (map fst (take 85 EcallTable @ drop 86 EcallTable))"
  by (simp add: EcallTable_def)

lemma numbers_in_table: "subseq wrapper_numbers (take 85 EcallTable @ drop 86 EcallTable)"
  by (simp add: EcallTable_def wrapper_numbers_def)

lemma Ecalls_number:
  assumes "(n, h) \<in> set xs" "subseq xs (take 85 EcallTable @ drop 86 EcallTable)"
  shows "Ecalls n = Some h"
proof -
  let ?T = "take 85 EcallTable @ drop 86 EcallTable"
  have "sorted_wrt (<) (map fst ?T)" using keys_sorted by (subst (asm) successively_conv_sorted_wrt) (auto simp: transp_def)
  then have "distinct (map fst ?T)" by (simp add: strict_sorted_iff)
  moreover have "(n, h) \<in> set ?T" using list_emb_set [OF assms(2,1)] by auto
  ultimately show ?thesis unfolding Ecalls_unique by (rule map_of_is_SomeI)
qed

lemma Ecalls_write: "Ecalls 64 = Some ECALL_write"
  by (rule Ecalls_number [OF _ numbers_in_table]) (simp add: wrapper_numbers_def)

lemma Ecalls_mmap: "Ecalls 222 = Some ECALL_mmap"
  by (rule Ecalls_number [where xs = "[(222, ECALL_mmap)]"]) (simp_all add: EcallTable_def)

lemma wrapper_table_numbers:
  "wrapper_table = map (\<lambda>(n, h). (syscall (ucast n), h)) (wrapper_numbers @ [(84, ECALL_sync_file_range2), (220, ECALL_clone)])"
  by (simp add: wrapper_table_def wrapper_numbers_def wrapper_defs)

lemma wrapper_number:
  assumes "(w, h) \<in> set wrapper_table"
  obtains n where "w = syscall (ucast (n :: u32))" "Ecalls n = Some h"
proof -
  have "set [(84, ECALL_sync_file_range2), (220, ECALL_clone)] \<subseteq> set wrapper_numbers" by (simp add: wrapper_numbers_def)
  then have "set wrapper_table = (\<lambda>(n, h). (syscall (ucast n), h)) ` set wrapper_numbers"
    unfolding wrapper_table_numbers set_map set_append by (simp only: Un_absorb2)
  then show ?thesis using assms that Ecalls_number [OF _ numbers_in_table] by auto
qed

text \<open>The numbers of the calls that are not implemented.\<close>

definition stub_numbers :: "u32 list" where
  "stub_numbers = [
     0, 1, 2, 3, 4, 5, 6, 7, 8, 9, 10, 11, 12, 13, 14, 15, 16, 18, 19, 20, 21, 22, 23, 24, 25, 26, 27, 28, 29, 30,
     31, 32, 33, 35, 36, 38, 39, 41, 42, 43, 44, 45, 46, 47, 48, 50, 51, 52, 53, 54, 55, 58, 59, 60, 61, 62, 65, 66,
     67, 68, 69, 70, 71, 72, 73, 74, 75, 77, 78, 79, 80, 81, 82, 83, 84, 85, 86, 87, 88, 89, 90, 91, 92, 94, 95, 96,
     97, 99, 100, 101, 102, 103, 104, 105, 106, 107, 108, 109, 110, 111, 112, 114, 115, 116, 117, 118, 119, 120, 121,
     122, 123, 124, 125, 126, 127, 128, 129, 130, 131, 132, 133, 134, 135, 136, 137, 138, 140, 141, 142, 143, 144,
     145, 146, 147, 148, 149, 150, 151, 152, 153, 154, 155, 156, 157, 158, 159, 160, 161, 162, 163, 164, 165, 166,
     167, 168, 169, 170, 171, 172, 173, 174, 175, 176, 177, 179, 180, 181, 186, 187, 188, 189, 190, 191, 192, 193,
     194, 195, 196, 197, 198, 199, 200, 201, 202, 203, 204, 205, 206, 207, 208, 209, 210, 211, 212, 213, 216, 217,
     218, 219, 220, 221, 223, 224, 225, 226, 227, 228, 229, 230, 231, 232, 233, 234, 235, 236, 237, 238, 239, 240,
     241, 242, 243, 260, 262, 263, 264, 265, 266, 267, 268, 269, 270, 271, 272, 273, 274, 275, 276, 277, 278, 279,
     280, 281, 282, 283, 284, 285, 286, 287, 288, 289, 290, 291, 292, 293, 294, 424, 425, 426, 427, 428, 429, 430,
     431, 432, 433, 434, 435, 436, 437, 438, 439, 440]"

lemma stub_table: "subseq (map (\<lambda>n. (n, ecall_stub)) stub_numbers) (take 85 EcallTable @ drop 86 EcallTable)"
  by (simp add: EcallTable_def stub_numbers_def ecall_stub_defs)

lemma stub_wrappers_numbers: "stub_wrappers = map (\<lambda>n. syscall (ucast n)) (stub_numbers @ [84, 220])"
  by (simp add: stub_wrappers_def stub_numbers_def wrapper_defs)

lemma stub_number:
  assumes "w \<in> set stub_wrappers"
  obtains n where "w = syscall (ucast (n :: u32))" "Ecalls n = Some ecall_stub"
proof -
  have "set [84, 220] \<subseteq> set stub_numbers" by (simp add: stub_numbers_def)
  then have "set stub_wrappers = (\<lambda>n. syscall (ucast n)) ` set stub_numbers"
    unfolding stub_wrappers_numbers set_map set_append by (simp only: Un_absorb2)
  then obtain n where "w = syscall (ucast n)" "(n, ecall_stub) \<in> set (map (\<lambda>n. (n, ecall_stub)) stub_numbers)" using assms by auto
  then show ?thesis using that Ecalls_number [OF _ stub_table] by blast
qed

section \<open>What a wrapper does\<close>

lemma li_a7_frame [simp]:
  "hart_regs h (li_a7 N r P) = hart_regs h P" "q_HartToDecodeID (li_a7 N r P) = q_HartToDecodeID P"
  by (simp_all add: li_a7_def hart_regs_def)

lemma li_a7_GetX: "(GetX (q_regs (li_a7 N r P) r) rs :: 'a::len word) =
    (if rs = 17 then if rf_IsRV32 (q_regs P r) then ucast (ucast N :: u32) else ucast N else GetX (q_regs P r) rs)" if "rs < 32"
  using that by (auto simp: li_a7_def GetX_SetX_u)

lemma li_a7_trap:
  assumes "hart_regs (q_HartToDecodeID P) P = Inr r" "Ecalls n = Some h"
  shows "ecall_trap I (li_a7 (ucast n) r P) = h I (li_a7 (ucast n) r P)"
  using assms by (simp add: ecall_trap_def li_a7_GetX)

lemma run_ecall_cong:
  assumes "\<And>P. ok P \<Longrightarrow> f P = g P" "\<And>P s Q. ok P \<Longrightarrow> g P = Inr (s, Q) \<Longrightarrow> s \<noteq> SUCCESS \<Longrightarrow> ok Q" "ok P"
  shows "run_ecall n f P = run_ecall n g P"
  using assms(3)
proof (induction n arbitrary: P)
  case (Suc n)
  then show ?case using assms(1) [OF Suc.prems] assms(2) [OF Suc.prems] by (auto split: sum.splits)
qed simp

definition same_x :: "RevProc \<Rightarrow> RevProc \<Rightarrow> bool" where
  "same_x P Q \<longleftrightarrow> (\<forall>r. rf_RV (q_regs Q r) = rf_RV (q_regs P r) \<and> rf_IsRV32 (q_regs Q r) = rf_IsRV32 (q_regs P r))"

lemma same_x_trans: "same_x P Q \<Longrightarrow> same_x Q R \<Longrightarrow> same_x P R"
  by (simp add: same_x_def)

lemma same_x_GetX: "same_x P Q \<Longrightarrow> (GetX (q_regs Q r) i :: u64) = GetX (q_regs P r) i"
  by (simp add: same_x_def GetX_def)

lemma set_ecall_x: "same_x P (set_ecall E P)"
  by (simp add: same_x_def set_ecall_def upd_hart_def)

lemma MarkLoadComplete_x:
  assumes "MarkLoadComplete req C = Inr D"
  shows "rf_RV (c_R D) = rf_RV (c_R C) \<and> rf_IsRV32 (c_R D) = rf_IsRV32 (c_R C)"
proof -
  let ?ents = "filter (\<lambda>e. fst e = req_LSQHash req) (c_LSQueue C)"
  obtain e where e: "find (\<lambda>e. mr_Addr (snd e) = mr_Addr req) ?ents = Some e" "mr_Hart (snd e) = c_hart C" "\<not> (?ents = [] \<and> mr_DestReg req \<noteq> 0)"
    using assms by (cases "find (\<lambda>e. mr_Addr (snd e) = mr_Addr req) ?ents") (simp_all add: MarkLoadComplete_def Let_def split: if_split_asm)
  have "c_R D = c_R C \<or> (\<exists>i f. c_R D = DependencySet i f False (c_R C))"
    using assms unfolding MarkLoadComplete_def Let_def e(1) option.case if_not_P [OF e(3)]
    by (cases "length ?ents = 1") (simp_all add: e(2) MarkInstructionLoadComplete_def; elim subst; auto)+
  then show ?thesis by auto
qed

lemma ecall_read_x:
  assumes "ecall_read a n r P = Inr (bs, Q)"
  shows "same_x P Q"
proof -
  obtain req C D where "MarkLoadComplete req C = Inr D" "c_R C = q_regs P r" "Q = core_back r D P"
    using assms by (auto simp: ecall_read_def Let_def res_bind_eq_Inr LSQ_insert_def core_of_def)
  then show ?thesis using MarkLoadComplete_x [of req C D] by (simp add: same_x_def core_back_def)
qed

lemma DependencySet_hart_x:
  assumes "DependencySet_hart h i f v P = Inr Q"
  shows "same_x P Q"
proof -
  have "Q = P \<or> (\<exists>r. Q = P\<lparr>q_regs := (q_regs P)(r := DependencySet i f v (q_regs P r))\<rparr>)"
    using assms by (cases "hart_regs h P") (simp_all add: DependencySet_hart_def split: if_split_asm, metis)
  then show ?thesis by (elim disjE exE) (simp_all add: same_x_def)
qed

lemma ECALL_write_x:
  assumes "ECALL_write I P = Inr (s, Q)" "s \<noteq> SUCCESS"
  shows "same_x P Q"
proof -
  obtain H r where h: "cur_hart P = Inr H" "cur_regs P = Inr r" using assms(1) by (auto simp: ECALL_write_def res_bind_eq_Inr)
  consider E where "Q = set_ecall E P"
    | E a n bs P2 E' h where "ecall_read a n r (set_ecall E P) = Inr (bs, P2)" "DependencySet_hart h 10 False True (set_ecall E' P2) = Inr Q"
    using assms h unfolding ECALL_write_def by (auto simp: res_bind_eq_Inr Let_def split: if_splits prod.splits)
  then show ?thesis
    using set_ecall_x ecall_read_x DependencySet_hart_x same_x_trans by cases metis+
qed

lemma proc_like_hart_regs: "proc_like P Q \<Longrightarrow> hart_regs h Q = hart_regs h P"
proof -
  assume "proc_like P Q"
  then have v: "map hart_view (q_Harts Q) = map hart_view (q_Harts P)" by (simp add: proc_like_def)
  then have l: "length (q_Harts Q) = length (q_Harts P)" by (rule map_eq_imp_length_eq)
  have "ha_RegFile (q_Harts Q ! i) = ha_RegFile (q_Harts P ! i)" if "i < length (q_Harts P)" for i
    using arg_cong [OF v, of "\<lambda>xs. fst (xs ! i)"] that l by (simp add: hart_view_def)
  then show ?thesis using l by (simp add: hart_regs_def)
qed

text \<open>
  A handler that has to be executed again has changed neither the general registers nor the harts, so
  that the next execution finds the same number in a7 and runs the same handler.
\<close>

definition again_same :: "ecall_fun \<Rightarrow> bool" where
  "again_same h \<longleftrightarrow> (\<forall>I P s Q. h I P = Inr (s, Q) \<longrightarrow> s \<noteq> SUCCESS \<longrightarrow> proc_like P Q \<and> same_x P Q)"

lemma EcallLoadAndParseString_x:
  assumes "EcallLoadAndParseString a act P = Inr (s, Q)" "s \<noteq> SUCCESS"
  shows "same_x P Q"
proof -
  obtain H r where h: "cur_hart P = Inr H" "cur_regs P = Inr r" using assms(1) by (auto simp: EcallLoadAndParseString_def res_bind_eq_Inr)
  consider "Q = P"
    | E a n bs P2 E' h where "ecall_read a n r (set_ecall E P) = Inr (bs, P2)" "DependencySet_hart h 10 False True (set_ecall E' P2) = Inr Q"
    using assms h unfolding EcallLoadAndParseString_def by (auto simp: res_bind_eq_Inr Let_def split: if_splits prod.splits)
  then show ?thesis
  proof cases
    case 1
    then show ?thesis by (simp add: same_x_def)
  qed (metis set_ecall_x ecall_read_x DependencySet_hart_x same_x_trans)
qed

lemma again_strings: "again_same ECALL_chdir" "again_same ECALL_mkdirat" "again_same ECALL_openat"
proof -
  have "same_x P Q" if "s \<noteq> SUCCESS"
    "ECALL_chdir I P = Inr (s, Q) \<or> ECALL_mkdirat I P = Inr (s, Q) \<or> ECALL_openat I P = Inr (s, Q)" for I P s Q
    using that by (auto simp: ECALL_chdir_def ECALL_mkdirat_def ECALL_openat_def res_bind_eq_Inr Let_def
      intro: EcallLoadAndParseString_x)
  then show "again_same ECALL_chdir" "again_same ECALL_mkdirat" "again_same ECALL_openat"
    using keeps_strings keeps_openat unfolding again_same_def keeps_like_def by metis+
qed

lemma again_write: "again_same ECALL_write"
  using keeps_write ECALL_write_x unfolding again_same_def keeps_like_def by metis

lemma again_join: "again_same ECALL_pthread_join"
proof -
  have "Q = P" if "ECALL_pthread_join I P = Inr (s, Q)" "s \<noteq> SUCCESS" for I P s Q
    using that by (auto simp: ECALL_pthread_join_def res_bind_eq_Inr Let_def split: if_splits)
  then show ?thesis by (auto simp: again_same_def same_x_def proc_like_def)
qed

lemma again_never:
  "again_same ecall_stub" "again_same ECALL_getcwd" "again_same ECALL_close" "again_same ECALL_read" "again_same ECALL_exit"
  "again_same ECALL_clock_gettime" "again_same ECALL_gettid" "again_same ECALL_brk" "again_same ECALL_munmap" "again_same ECALL_mmap"
  "again_same ECALL_cpuinfo" "again_same ECALL_perf_stats" "again_same ECALL_pthread_create"
  unfolding again_same_def ecall_stub_def ECALL_getcwd_def ECALL_close_def ECALL_read_def ECALL_exit_def ECALL_clock_gettime_def
    ECALL_gettid_def ECALL_brk_def ECALL_munmap_def ECALL_mmap_def ECALL_cpuinfo_def ECALL_perf_stats_def ECALL_pthread_create_def
  by (auto simp: res_bind_eq_Inr Let_def case_prod_beta split: if_splits option.splits)

lemma again_table: "\<forall>e \<in> set EcallTable. again_same (snd e)"
  unfolding EcallTable_def by (simp add: ecall_stub_defs again_never again_strings again_write again_join)

lemma Ecalls_again: "Ecalls n = Some h \<Longrightarrow> again_same h"
  using again_table unfolding Ecalls_def by (auto dest!: map_of_SomeD)

lemma trap_repeats:
  assumes "Ecalls n = Some h" "hart_regs (q_HartToDecodeID P) P = Inr r"
  shows "run_ecall k (ecall_trap I) (li_a7 (ucast n) r P) = run_ecall k (h I) (li_a7 (ucast n) r P)"
proof (rule run_ecall_cong [where ok = "\<lambda>P. hart_regs (q_HartToDecodeID P) P = Inr r \<and> ucast (GetX (q_regs P r) 17 :: u64) = n"])
  show "ecall_trap I P = h I P" if "hart_regs (q_HartToDecodeID P) P = Inr r \<and> ucast (GetX (q_regs P r) 17 :: u64) = n" for P
    using that assms(1) by (simp add: ecall_trap_def)
  show "hart_regs (q_HartToDecodeID Q) Q = Inr r \<and> ucast (GetX (q_regs Q r) 17 :: u64) = n"
    if "hart_regs (q_HartToDecodeID P) P = Inr r \<and> ucast (GetX (q_regs P r) 17 :: u64) = n" "h I P = Inr (s, Q)" "s \<noteq> SUCCESS" for P s Q
  proof -
    have l: "proc_like P Q" "same_x P Q" using Ecalls_again [OF assms(1)] that(2,3) unfolding again_same_def by blast+
    have "q_HartToDecodeID Q = q_HartToDecodeID P" using l(1) by (simp add: proc_like_def)
    then show ?thesis
      using proc_like_hart_regs [OF l(1)] same_x_GetX [OF l(2)] that(1) by simp
  qed
qed (use assms in \<open>simp add: li_a7_GetX\<close>)

lemma syscall_repeats:
  assumes "Ecalls n = Some h" "hart_regs (q_HartToDecodeID P) P = Inr r"
  shows "syscall (ucast n) k I r P = (case run_ecall k (h I) (li_a7 (ucast n) r P) of
      None \<Rightarrow> None | Some (Inl e) \<Rightarrow> Some (Inl e) | Some (Inr Q) \<Rightarrow> Some (Inr (GetX (q_regs Q r) 10, Q)))"
  unfolding syscall_def trap_repeats [OF assms] by (simp split: option.split sum.split)


lemma proc_write_regs: "hart_regs (q_HartToDecodeID proc_write) proc_write = Inr 0" "GetX (q_regs proc_write 0) 10 = (1 :: u32)"
  "GetX (q_regs proc_write 0) 10 = (1 :: u64)"
  by (simp_all add: proc_write_def proc_example_def mk_RevProc_def Reset_def hart_regs_def GetX_def is_zero_reg_def mk_RevRegFile_def)


text \<open>
  A wrapper of a call that is not implemented returns at once, with its own first argument, and changes
  nothing but a7.
\<close>

theorem stub_wrapper_returns_argument:
  assumes "w \<in> set stub_wrappers" "hart_regs (q_HartToDecodeID P) P = Inr r"
  shows "\<exists>N. w (Suc n) I r P = Some (Inr (GetX (q_regs P r) 10, li_a7 N r P))"
proof -
  obtain n where n: "w = syscall (ucast (n :: u32))" "Ecalls n = Some ecall_stub" using assms(1) by (rule stub_number)
  show ?thesis
    using li_a7_trap [OF assms(2) n(2), of I] by (intro exI [of _ "ucast n"]) (simp add: n(1) syscall_def ecall_stub_def li_a7_GetX)
qed

theorem stub_wrapper_returns_argument_witness: "\<exists>N. rev_fork 1 addi_slow 0 proc_write = Some (Inr (1, li_a7 N 0 proc_write))"
proof -
  have "rev_fork \<in> set stub_wrappers" by (simp add: stub_wrappers_def)
  then show ?thesis using stub_wrapper_returns_argument [OF _ proc_write_regs(1), of rev_fork 0 addi_slow] proc_write_regs(2) by simp
qed

section \<open>A write\<close>

text \<open>
  C21: \<^verbatim>\<open>rev_write(fd, buf, n)\<close> returns after at most one trap for every byte and one more; it has then sent the
  host exactly the bytes of the buffer, and returns what the host returned.
\<close>

theorem rev_write_sends:
  assumes P: "io_ready r (2 * n) P" "got P = []" "0 < n \<longrightarrow> mem_accessible addr n (q_mem P)" "hart_regs (q_HartToDecodeID P) P = Inr r"
    and x: "GetX (q_regs P r) 11 = addr" "unat (GetX (q_regs P r) 12 :: u64) = n" "GetX (q_regs P r) 10 = (fd :: u32)"
  shows "\<exists>Q. rev_write (Suc n) I r P = Some (Inr (fst (env_host (q_env P) (Host_write fd (vread (vmem (q_mem P)) addr n)) (q_hostlog P)), Q)) \<and>
    q_hostlog Q = q_hostlog P @ [Host_write fd (vread (vmem (q_mem P)) addr n)] \<and> vmem (q_mem Q) = vmem (q_mem P)"
proof -
  let ?P = "li_a7 64 r P"
  have f: "q_mem ?P = q_mem P" "q_hostlog ?P = q_hostlog P" "q_env ?P = q_env P" "got ?P = got P" "io_ready r (2 * n) ?P = io_ready r (2 * n) P"
    by (simp_all add: li_a7_def got_def io_ready_def hart_regs_def a0_pending_def a0_hash_def)
  obtain Q where "run_ecall (Suc n) (ECALL_write I) ?P = Some (Inr Q)"
    "q_hostlog Q = q_hostlog P @ [Host_write fd (vread (vmem (q_mem P)) addr n)]" "vmem (q_mem Q) = vmem (q_mem P)"
    "GetX (q_regs Q r) 10 = fst (env_host (q_env P) (Host_write fd (vread (vmem (q_mem P)) addr n)) (q_hostlog P))"
    using ECALL_write_sends [of r n ?P addr fd I] P x f by (auto simp: li_a7_GetX)
  then show ?thesis using trap_repeats [OF Ecalls_write P(4), of "Suc n" I] by (simp add: rev_write_def syscall_def)
qed

theorem rev_write_sends_witness:
  "\<exists>rc Q. rev_write 8 addi_slow 0 proc_write = Some (Inr (rc, Q)) \<and> q_hostlog Q = [Host_write 1 [0x93, 0, 0x50, 0, 0, 0, 0]]"
  using rev_write_sends [of 0 7 proc_write "0x3F010" 1 addi_slow] proc_write_call mem_msg_ok(3) proc_write_regs by auto

end
