(* ===== verification/Spec2Isabelle.thy ===== *)
theory Spec2Isabelle
  imports Rev_Common Rev_Feature Rev_TLB Rev_Segments Rev_Mem Rev_RegFile Rev_InstTable
    Rev_InstHelpers Rev_RV_I Rev_RV_M Rev_ALU Rev_RV_A Rev_RV_F Rev_Decode Rev_ISA Rev_Prefetcher
    Rev_Proc Rev_Pipeline Rev_SysCallStubs Rev_SysCalls Rev_SysCallIO Rev_Threads Rev_Opts Rev_CPU Rev_CoProc Rev_MemCtrl
    Rev_MemLines Rev_MemCtrlInv Rev_MemCtrlRun Rev_Wrappers
begin

text \<open>
  A verification development for Rev, the RISC-V processor component of the SST simulator
  (\<^verbatim>\<open>src/src\<close>, \<^verbatim>\<open>src/include\<close>, \<^verbatim>\<open>src/common/include\<close>).

  \<^bold>\<open>The program.\<close> A CPU component (\<^verbatim>\<open>RevCPU.cc\<close>) owns cores (\<^verbatim>\<open>RevProc.cc\<close>) that share one memory
  (\<^verbatim>\<open>RevMem.cc\<close>). In every clock tick it assigns ready threads to idle harts, clocks each core and
  collects the threads that ended, blocked or were created. A core picks a hart, gets the word at its
  program counter from the prefetcher (\<^verbatim>\<open>RevPrefetcher.cc\<close>), finds its entry in the instruction table by
  a key made of its function bits, decodes the operands, checks hazards on the scoreboard and on the
  load queue, calls the function of the entry (\<^verbatim>\<open>insns/*.h\<close>, templates in \<^verbatim>\<open>RevInstHelpers.h\<close>) and
  retires it; \<^verbatim>\<open>ecall\<close> traps into the call table (\<^verbatim>\<open>RevSysCalls.cc\<close>). Memory translates addresses
  page by page on first use, with a TLB in front, and checks them against segments, which the heap of
  the simulated process and the stacks of its threads come from.

  \<^bold>\<open>Conventions.\<close> C++ integers are words of their width, so arithmetic wraps as in the source; an index
  out of bounds, a null dereference or an over-long shift is the error \<open>Undefined\<close>, a call of
  \<^verbatim>\<open>output->fatal\<close> the error \<open>Fatal\<close>, both of the sum type \<open>result\<close> (\<^verbatim>\<open>Rev_Prelude\<close>). State is passed
  explicitly, one record per class. Register files, which harts and threads hand to each other, are
  numbered cells of a store, so that sharing is visible. Floating-point values are bit patterns; the
  rounded operations of the host, its operating system, its random numbers and the tables a user may
  load are parameters (\<open>HostFP\<close>, \<open>RevEnv\<close>).

  \<^bold>\<open>Theories.\<close>
  \<^item> \<^verbatim>\<open>Rev_Prelude\<close>: types, the result type, words as bit vectors; \<^verbatim>\<open>Rev_Common\<close>: \<^verbatim>\<open>RevCommon.h\<close>
    (sign extension, logarithm, load-queue keys); \<^verbatim>\<open>Rev_Feature\<close>: \<^verbatim>\<open>RevFeature.cc\<close>; \<^verbatim>\<open>Rev_Opts\<close>:
    \<^verbatim>\<open>RevOpts.cc\<close> with the number parsers of the C++ library.
  \<^item> \<^verbatim>\<open>Rev_TLB\<close>, \<^verbatim>\<open>Rev_Segments\<close>, \<^verbatim>\<open>Rev_Mem\<close>: \<^verbatim>\<open>RevMem.cc\<close>. The TLB is an LRU list and a map
    with iterators into it; segments are lists in the order of the vectors; physical memory is an
    array of bytes behind a page map.
  \<^item> \<^verbatim>\<open>Rev_RegFile\<close>, \<^verbatim>\<open>Rev_InstTable\<close>, \<^verbatim>\<open>Rev_InstHelpers\<close>: registers with the unions of 32- and
    64-bit views, decoded instructions, hazards, and the templates of instructions.
  \<^item> \<^verbatim>\<open>Rev_RV_I\<close>, \<^verbatim>\<open>Rev_RV_M\<close>, \<^verbatim>\<open>Rev_RV_A\<close>, \<^verbatim>\<open>Rev_RV_F\<close>: every instruction function and table of
    \<^verbatim>\<open>insns/\<close>, with load reserve, store conditional and the atomic operations of the memory;
    \<^verbatim>\<open>Rev_ALU\<close>: the integer instructions against the RISC-V manual. The static tables that \<^verbatim>\<open>ApplyAMO\<close>
    builds in its first call and runs in every later one are part of the state of memory and of the
    memory controller: a call that runs such a table is \<open>Undefined\<close>.
  \<^item> \<^verbatim>\<open>Rev_Decode\<close>, \<^verbatim>\<open>Rev_ISA\<close>: table construction and decoding, and what the encodings of the RISC-V
    manual are decoded to.
  \<^item> \<^verbatim>\<open>Rev_Prefetcher\<close>: streams of prefetched words.
  \<^item> \<^verbatim>\<open>Rev_Proc\<close>: the core, with \<open>ClockTick\<close> as the composition of its stages; \<^verbatim>\<open>Rev_Pipeline\<close>: what a
    clock tick does and keeps; \<^verbatim>\<open>Rev_SysCallStubs\<close>, \<^verbatim>\<open>Rev_SysCalls\<close>: the call table and its
    handlers; \<^verbatim>\<open>Rev_SysCallIO\<close>: calls that run over several ticks; \<^verbatim>\<open>Rev_Wrappers\<close>: the
    functions of \<^verbatim>\<open>common/syscalls/syscalls.h\<close> that simulated programs call; \<^verbatim>\<open>Rev_Threads\<close>: where
    register files go; \<^verbatim>\<open>Rev_CoProc\<close>: \<^verbatim>\<open>RevCoProc.cc\<close>.
  \<^item> \<^verbatim>\<open>Rev_CPU\<close>: \<^verbatim>\<open>RevCPU.cc\<close>, from the construction of the cores to the end of the simulation.
  \<^item> \<^verbatim>\<open>Rev_MemCtrl\<close>: \<^verbatim>\<open>RevMemCtrl.cc\<close>, the memory controller that stands between memory and the memory
    hierarchy of SST: the queue of operations, their division into requests by cache lines, the clock
    tick and the handlers of responses. Operations are cells of a store, so that a deleted one is
    visible as such. \<^verbatim>\<open>Rev_MemLines\<close>: how requests and cache lines relate; \<^verbatim>\<open>Rev_MemCtrlInv\<close>: the
    invariant of the controller and that every operation keeps it; \<^verbatim>\<open>Rev_MemCtrlRun\<close>: its events as a
    step relation, and what holds in every state it reaches.

  \<^bold>\<open>Interfaces.\<close> Each contract between components is a locale, interpreted on the definitions of the
  model: \<open>byte_memory\<close> (a read returns the last write, other bytes stay) on \<open>ReadMem\<close> and \<open>WriteMem\<close>;
  \<open>lru_cache\<close> on the TLB; \<open>region_allocator\<close> on \<open>AllocMem\<close> and \<open>DeallocMem\<close>; \<open>register_file\<close> on \<open>GetX\<close>
  and \<open>SetX\<close> at both widths; \<open>entry_index\<close> on both lookup
  tables; \<open>ecall_table\<close>, and \<open>ecall_threads\<close> which extends it, on the table of system calls: the
  clock tick is proved correct for every table whose handlers keep the harts and hand over threads
  properly, and the simulator's table is shown to be one.

  \<^bold>\<open>What is proved.\<close>
  \<^item> Memory: read after write and its frame across pages and frames, faults on invalid addresses,
    the TLB as an abstract LRU cache over any sequence of accesses, fresh and disjoint blocks from the heap and from thread memory.
  \<^item> Instructions: register writes, loads after stores, the integer instructions of RV64IM against the
    manual, division and upper multiplication at both register widths, branches, and the first atomic
    operation of each size, on every operand.
  \<^item> Decoding: the 32-bit encodings of RV64GC other than \<^verbatim>\<open>ebreak\<close>, and the compressed ones, reach their own
    function; the operands are those of the manual for every 32-bit format and for the compressed
    formats but for the offset of \<^verbatim>\<open>c.sw\<close>; the encodings that do not decode are singled out.
  \<^item> Fetching: as long as nothing is stored into the fetched words, what the prefetcher offers is what
    memory holds, and it offers it after one fill.
  \<^item> The core: one tick fetches, decodes, executes and retires a 32-bit instruction, from a hart with
    nothing pending; the harts stay consistent in every reachable state; the scheduler is round robin;
    calls that read the caller's memory finish within a bound and pass on exactly its bytes, up to the
    function the program calls; every such function runs the handler of its number to its end.
  \<^item> The CPU: no register file ever has two owners, a core with work is clocked, a joined thread wakes
    exactly when its target is done, and the component reports that it is done only when no thread is
    left. A program that calls \<^verbatim>\<open>exit\<close> ends the simulation at once, as does an error.
  \<^item> The memory controller: every load and atomic operation is completed exactly once, in whatever
    order responses arrive; a fence waits for what is outstanding; requests stay within cache lines and
    carry exactly the bytes of the operation; the first atomic operation of each size writes back what it
    should.
  \<^item> Defects that modelling showed, where they affect the above: overlapping blocks, stale
    translations, instructions that never retire, atomics that leave half a register, a limit of the
    memory controller that is never released, atomic operations of two harts that overlap, atomic
    operations that use variables of an earlier call.

  \<^bold>\<open>Bounds.\<close> Memory theorems need fewer than 16384 mapped pages, the point where the 32-bit arithmetic of
  the source wraps, and addresses below \<open>2 ^ 50\<close>, as the source keeps 50 bits of a page number. A
  core has at most 4096 harts, as the source checks, and a prefetch depth of at most \<open>2 ^ 20\<close>
  words. \<open>run_ecall\<close> executes a call repeatedly with fuel; the theorems give the number of executions
  after which it has returned: one per byte and one, respectively two, more.

  In the runs of the memory controller the numbers that SST gives requests are distinct, a response is
  of the kind its request asks for, as \<^verbatim>\<open>StandardMem\<close> documents, and an atomic operation does not
  cross a cache line; the theorem on fences needs fewer than \<open>2 ^ 64\<close> outstanding requests.

  \<^bold>\<open>Not modelled.\<close> Memory, prefetcher and CPU are modelled without a memory controller attached, the
  default, and the controller on its own. The network interface (\<^verbatim>\<open>RevNIC.cc\<close>) wraps an interface of
  SST. The loader (\<^verbatim>\<open>RevLoader.cc\<close>) parses an ELF file; a loaded memory is an argument. The tracer
  prints. Of \<^verbatim>\<open>common/syscalls/syscalls.h\<close> the constants and structure types, which the simulator does
  not use, are left out. The P extension has an empty table.
\<close>

section \<open>A clock tick runs the instruction\<close>

lemma DependencyCheck_clear:
  assumes "hart_regs h P = Inr r" "q_LSQueue P = []" "\<And>n. \<not> rf_RV_Scoreboard (q_regs P r) n" "\<And>n. \<not> rf_FP_Scoreboard (q_regs P r) n"
    and "unat (i_entry I) < length (p_InstTable (q_tables P))"
  shows "DependencyCheck h I P = Inr False"
  using assms by (simp add: DependencyCheck_def LSQCheck_def ScoreboardCheck_def Let_def)

text \<open>
  C3: One clock tick of a processor whose hart may run takes the word at its program counter, decodes it
  as the 32-bit RV64GC instruction that it encodes, executes that instruction on the register file of
  the hart and on memory, and retires it: the state after the tick is the one the instruction leaves,
  with its destination released. The instructions are those of \<open>isa_RV64GC\<close>, which has neither the
  compressed ones nor \<^verbatim>\<open>ebreak\<close>, with a valid rounding mode where they have one; the instruction does not
  trap into a system call and does not jump to address zero. The hart may run (\<open>can_run\<close>) when the core
  is neither halted nor stalled and has no fault to handle, the pipeline and the queue of fetches are
  empty, and the program counter is a multiple of four in a prefetched stream, other than at its last
  word, where the streams hold what memory holds and that is not 0xDEADBEEF; and no register and no
  load is pending.
\<close>

theorem tick_executes_RV64GC:
  assumes run: "can_run h r P" and T: "q_tables P = tables feature_RV64GC" "F = SetHartToExecID h (q_feature P)"
    and clear: "q_LSQueue P = []" "\<And>n. \<not> rf_RV_Scoreboard (q_regs P r) n" "\<And>n. \<not> rf_FP_Scoreboard (q_regs P r) n"
    and i: "i \<in> set isa_RV64GC" "w = mword (vmem (q_mem P)) (GetPC (q_regs P r))" "w AND isa_mask i = isa_match i"
      "isa_rm i \<Longrightarrow> DECODE_RM w \<noteq> 5 \<and> DECODE_RM w \<noteq> 6"
  shows "\<exists>I. DecodeInst F (q_tables P) cp w = Inr I \<and> (\<forall>C. call_rounded (isa_func i) I F (issued h r I P) = Inr (True, C) \<longrightarrow>
    rf_SCAUSE (c_R C) < 8 \<longrightarrow> GetPC (c_R C) \<noteq> 0 \<longrightarrow>
    (\<exists>Q. ClockTick cp Ecalls P = Inr (True, Q) \<and> q_regs Q = (q_regs P)(r := retired_regs h I P C) \<and> q_mem Q = c_M C \<and>
      q_LSQueue Q = c_LSQueue C \<and> q_Pipeline Q = [] \<and> st_retired (q_Stats Q) = st_retired (q_Stats P) + 1 \<and>
      q_Harts Q = q_Harts P \<and> q_IdleHarts Q = q_IdleHarts P))"
proof -
  obtain I x j where I: "DecodeInst F (tables feature_RV64GC) cp w = Inr I"
    "p_EntryToExt (tables feature_RV64GC) (unat (i_entry I)) = Some (x, j)" "x < length (p_Extensions (tables feature_RV64GC))"
    "\<And>F C. Execute (p_Extensions (tables feature_RV64GC) ! x) j I F C = call_rounded (isa_func i) I F C"
    "unat (i_entry I) < length (p_InstTable (tables feature_RV64GC))" "i_cost I = 1"
    using decode_RV64GC_runs [OF i(1,3,4), of F cp] by metis
  have w0: "w \<noteq> 0" using i(3) isa_masks [OF i(1)] by (auto simp: isa_mask_ok_def Let_def)
  have "hart_regs h P = Inr r" using run next_hart_ready by (auto simp: can_run_def hart_regs_iff)
  then have dep: "DependencyCheck h I P = Inr False" using DependencyCheck_clear clear I(5) T(1) by simp
  show ?thesis
  proof (intro exI [of _ I] conjI allI impI)
    fix C assume C: "call_rounded (isa_func i) I F (issued h r I P) = Inr (True, C)" "rf_SCAUSE (c_R C) < 8" "GetPC (c_R C) \<noteq> 0"
    have "unat (rf_SCAUSE (c_R C)) < 8" using C(2) by (simp add: word_less_nat_alt)
    then have "unat (ucast (rf_SCAUSE (c_R C)) :: u32) \<noteq> 8" by (simp add: unsigned_ucast_eq unsigned_take_bit_eq take_bit_nat_eq_self)
    then have s: "ucast (rf_SCAUSE (c_R C)) \<noteq> (ucast ECALL_USER_MODE :: u32)" by (auto simp: ECALL_USER_MODE_def)
    show "\<exists>Q. ClockTick cp Ecalls P = Inr (True, Q) \<and> q_regs Q = (q_regs P)(r := retired_regs h I P C) \<and> q_mem Q = c_M C \<and>
      q_LSQueue Q = c_LSQueue C \<and> q_Pipeline Q = [] \<and> st_retired (q_Stats Q) = st_retired (q_Stats P) + 1 \<and>
      q_Harts Q = q_Harts P \<and> q_IdleHarts Q = q_IdleHarts P"
      using ClockTick_runs [OF run i(2) w0 T(2) _ dep _ _ _ _ s I(6) C(3)] I C(1) T(1) by simp
  qed (use I(1) T(1) in simp)
qed


lemma addi_total: "\<exists>C'. addi F I C = Inr (True, C') \<and> rf_SCAUSE (c_R C') = rf_SCAUSE (c_R C) \<and>
   (\<not> rf_IsRV32 (c_R C) \<longrightarrow> GetPC (c_R C') = GetPC (c_R C) + ucast (i_instSize I))"
  by (simp add: addi_def oper_def Let_def AdvancePC_def AdvancePC_size_def SetPC_def SetX_u_def GetPC_def)

theorem tick_executes_RV64GC_witness:
  "\<exists>Q. ClockTick (\<lambda>_. False) Ecalls (proc_example (tables feature_RV64GC)) = Inr (True, Q) \<and>
     GetPC (q_regs Q 0) = 0x3F014 \<and> q_Pipeline Q = [] \<and> st_retired (q_Stats Q) = 1"
proof -
  let ?P = "proc_example (tables feature_RV64GC)" and ?i = "isa addi RVTypeI 0x707F 0x13"
  have F: "SetHartToExecID 0 feature_RV64GC = feature_RV64GC" by (simp add: SetHartToExecID_def feature_RV64GC_def)
  have i: "?i \<in> set isa_RV64GC" by (simp add: isa_RV64GC_def isa_RV32I_def)
  have r0: "st_retired (q_Stats ?P) = 0" by (simp add: proc_example_def mk_RevProc_def Reset_def RevProcStats_zero_def)
  have sb: "\<And>n. \<not> rf_RV_Scoreboard (q_regs ?P 0) n" "\<And>n. \<not> rf_FP_Scoreboard (q_regs ?P 0) n"
    by (simp_all add: mk_RevRegFile_def)
  have m: "0x00500093 AND isa_mask ?i = isa_match ?i" "\<not> isa_rm ?i" by simp_all
  obtain I where I: "DecodeInst feature_RV64GC (tables feature_RV64GC) (\<lambda>_. False) 0x00500093 = Inr I" "i_instSize I = 4"
    "i_rm I = DECODE_RM 0x00500093 \<or> i_rm I = FRMode_None"
    using decode_RV64GC_runs [OF i m(1), of feature_RV64GC "\<lambda>_. False"] m(2) by metis
  let ?C0 = "issued 0 0 I ?P"
  have C0: "rf_SCAUSE (c_R ?C0) = 0" "\<not> rf_IsRV32 (c_R ?C0)" "GetPC (c_R ?C0) = 0x3F010"
    by (simp_all add: issued_def decoded_regs_def mk_RevRegFile_def DependencySet_def GetPC_def)
  obtain C where C: "call_rounded addi I feature_RV64GC ?C0 = Inr (True, C)" "rf_SCAUSE (c_R C) = 0" "GetPC (c_R C) = 0x3F014"
  proof -
    have rm: "i_rm I = 0 \<or> i_rm I = FRMode_None" using I(3) by (simp add: DECODE_defs)
    obtain C1 C2 where "addi feature_RV64GC I ?C0 = Inr (True, C1)" "rf_SCAUSE (c_R C1) = 0" "GetPC (c_R C1) = 0x3F014"
      "addi feature_RV64GC I (?C0\<lparr>c_round := 0\<rparr>) = Inr (True, C2)" "rf_SCAUSE (c_R C2) = 0" "GetPC (c_R C2) = 0x3F014"
      using addi_total [of feature_RV64GC I ?C0] addi_total [of feature_RV64GC I "?C0\<lparr>c_round := 0\<rparr>"] C0 I(2) by auto
    then show ?thesis
      using rm that [of C1] that [of "C2\<lparr>c_round := c_round ?C0\<rparr>"]
      by (auto simp: call_rounded_def SetFPEnv_def FRMode_DYN_def FRMode_None_def)
  qed
  have "\<exists>Q. ClockTick (\<lambda>_. False) Ecalls ?P = Inr (True, Q) \<and> q_regs Q = (q_regs ?P)(0 := retired_regs 0 I ?P C) \<and>
     q_Pipeline Q = [] \<and> st_retired (q_Stats Q) = 1"
    using tick_executes_RV64GC [OF can_run_example [of "tables feature_RV64GC"], of feature_RV64GC ?i "0x00500093" "\<lambda>_. False"]
      I(1) C i m F r0 sb by (auto simp: mword_addi)
  then show ?thesis using C(3) by (auto simp: retired_regs_def GetPC_def split: if_splits)
qed

end
